(* ===== verification/Prelude.thy ===== *)
theory Prelude
  imports Main "HOL-Library.Char_ord" "HOL-Library.List_Lexorder"
begin

text \<open>
  The programs of the web client are asynchronous TypeScript functions: they await
  storage, network and crypto calls, change module variables and database tables, and
  may throw. This theory holds the program type they are translated to, its
  combinators, and the rules every component theory reasons with.

  A program takes the state of the device and gives a result and the new state. The
  result is \<open>Inl e\<close> when the function threw \<open>e\<close> (what it had changed before the
  throw stays changed, as in JavaScript) and \<open>Inr x\<close> when it returned \<open>x\<close>.
  The combinators are named after the source constructs: \<open>await\<close>, \<open>andThen\<close>
  (an awaited call whose value is not used), \<open>tryCatch\<close>, \<open>tryFinally\<close>,
  \<open>forEach\<close>.
\<close>

section \<open>Collections of facts\<close>

named_theorems run_simps \<open>what one program does when it is run from a state\<close>
named_theorems keeps_intro \<open>programs that stay within a step relation\<close>

section \<open>Errors\<close>

text \<open>A thrown \<open>Error\<close> with its message, or the \<open>ApiError\<close> of \<open>api/client.ts\<close>
  with its HTTP status.\<close>

datatype error = JsError string | ApiError int

section \<open>Programs\<close>

type_synonym ('w, 'a) prog = "'w \<Rightarrow> (error + 'a) \<times> 'w"

definition ret :: "'a \<Rightarrow> ('w, 'a) prog" where
  "ret x = (\<lambda>w. (Inr x, w))"

definition throw :: "error \<Rightarrow> ('w, 'a) prog" where
  "throw e = (\<lambda>w. (Inl e, w))"

definition await :: "('w, 'a) prog \<Rightarrow> ('a \<Rightarrow> ('w, 'b) prog) \<Rightarrow> ('w, 'b) prog" where
  "await m k = (\<lambda>w. case m w of (Inl e, w') \<Rightarrow> (Inl e, w') | (Inr x, w') \<Rightarrow> k x w')"

definition andThen :: "('w, 'a) prog \<Rightarrow> ('w, 'b) prog \<Rightarrow> ('w, 'b) prog" where
  "andThen m k = await m (\<lambda>_. k)"

definition tryCatch :: "('w, 'a) prog \<Rightarrow> (error \<Rightarrow> ('w, 'a) prog) \<Rightarrow> ('w, 'a) prog" where
  "tryCatch m h = (\<lambda>w. case m w of (Inl e, w') \<Rightarrow> h e w' | (Inr x, w') \<Rightarrow> (Inr x, w'))"

text \<open>\<open>tryFinally m f\<close>: the state change \<open>f\<close> happens whether or not \<open>m\<close> threw.\<close>

definition tryFinally :: "('w, 'a) prog \<Rightarrow> ('w \<Rightarrow> 'w) \<Rightarrow> ('w, 'a) prog" where
  "tryFinally m f = (\<lambda>w. case m w of (r, w') \<Rightarrow> (r, f w'))"

definition gets :: "('w \<Rightarrow> 'a) \<Rightarrow> ('w, 'a) prog" where
  "gets f = (\<lambda>w. (Inr (f w), w))"

definition modify :: "('w \<Rightarrow> 'w) \<Rightarrow> ('w, unit) prog" where
  "modify f = (\<lambda>w. (Inr (), f w))"

definition liftE :: "error + 'a \<Rightarrow> ('w, 'a) prog" where
  "liftE r = (\<lambda>w. (r, w))"

definition whenM :: "bool \<Rightarrow> ('w, unit) prog \<Rightarrow> ('w, unit) prog" where
  "whenM b m = (if b then m else ret ())"

fun forEach :: "'a list \<Rightarrow> ('a \<Rightarrow> ('w, unit) prog) \<Rightarrow> ('w, unit) prog" where
  "forEach [] f = ret ()"
| "forEach (x # xs) f = andThen (f x) (forEach xs f)"

fun mapP :: "('a \<Rightarrow> ('w, 'b) prog) \<Rightarrow> 'a list \<Rightarrow> ('w, 'b list) prog" where
  "mapP f [] = ret []"
| "mapP f (x # xs) = await (f x) (\<lambda>y. await (mapP f xs) (\<lambda>ys. ret (y # ys)))"

text \<open>Errors alone, for the helpers that touch no state.\<close>

definition bindE :: "error + 'a \<Rightarrow> ('a \<Rightarrow> error + 'b) \<Rightarrow> error + 'b" where
  "bindE r k = (case r of Inl e \<Rightarrow> Inl e | Inr x \<Rightarrow> k x)"

lemma bindE_simps [simp]: "bindE (Inl e) k = Inl e" "bindE (Inr x) k = k x"
  by (simp_all add: bindE_def)

lemma bindE_Inr: "bindE r k = Inr y \<longleftrightarrow> (\<exists>x. r = Inr x \<and> k x = Inr y)"
  by (cases r) simp_all

fun mapE :: "('a \<Rightarrow> error + 'b) \<Rightarrow> 'a list \<Rightarrow> error + 'b list" where
  "mapE f [] = Inr []"
| "mapE f (x # xs) = bindE (f x) (\<lambda>y. bindE (mapE f xs) (\<lambda>ys. Inr (y # ys)))"

lemma mapE_Inr: "mapE f xs = Inr ys \<longleftrightarrow> list_all2 (\<lambda>x y. f x = Inr y) xs ys"
  by (induction xs arbitrary: ys) (auto simp: bindE_Inr list_all2_Cons1)

subsection \<open>Running programs\<close>

lemma run_ret [simp, run_simps]: "ret x w = (Inr x, w)"
  by (simp add: ret_def)

lemma run_throw [simp, run_simps]: "throw e w = (Inl e, w)"
  by (simp add: throw_def)

lemma run_gets [simp, run_simps]: "gets f w = (Inr (f w), w)"
  by (simp add: gets_def)

lemma run_modify [simp, run_simps]: "modify f w = (Inr (), f w)"
  by (simp add: modify_def)

lemma run_liftE [simp, run_simps]: "liftE r w = (r, w)"
  by (simp add: liftE_def)

lemma run_await_Inr [simp, run_simps]: "m w = (Inr x, w') \<Longrightarrow> await m k w = k x w'"
  by (simp add: await_def)

lemma run_await_Inl [simp, run_simps]: "m w = (Inl e, w') \<Longrightarrow> await m k w = (Inl e, w')"
  by (simp add: await_def)

lemma run_andThen_Inr [simp, run_simps]: "m w = (Inr x, w') \<Longrightarrow> andThen m k w = k w'"
  by (simp add: andThen_def)

lemma run_andThen_Inl [simp, run_simps]: "m w = (Inl e, w') \<Longrightarrow> andThen m k w = (Inl e, w')"
  by (simp add: andThen_def)

lemma run_tryCatch_Inr [simp, run_simps]: "m w = (Inr x, w') \<Longrightarrow> tryCatch m h w = (Inr x, w')"
  by (simp add: tryCatch_def)

lemma run_tryCatch_Inl [simp, run_simps]: "m w = (Inl e, w') \<Longrightarrow> tryCatch m h w = h e w'"
  by (simp add: tryCatch_def)

lemma run_tryFinally [simp, run_simps]: "m w = (r, w') \<Longrightarrow> tryFinally m f w = (r, f w')"
  by (simp add: tryFinally_def)

lemma whenM_simps [simp]: "whenM True m = m" "whenM False m = ret ()"
  by (simp_all add: whenM_def)

text \<open>Inversion: a finished sequence finished its first part.\<close>

lemma await_Inr_cases:
  assumes "await m k w = (Inr y, w'')"
  obtains x w' where "m w = (Inr x, w')" and "k x w' = (Inr y, w'')"
  using assms by (auto simp: await_def split: prod.splits sum.splits)

lemma await_cases:
  assumes "await m k w = (r, w'')"
  obtains (threw) e where "m w = (Inl e, w'')" and "r = Inl e"
  | (went_on) x w' where "m w = (Inr x, w')" and "k x w' = (r, w'')"
  using assms by (auto simp: await_def split: prod.splits sum.splits)

section \<open>Postconditions\<close>

text \<open>\<open>post m Q w\<close>: run from \<open>w\<close>, the program ends in a result and a state with
  \<open>Q\<close>. The rules follow the program's structure.\<close>

definition post :: "('w, 'a) prog \<Rightarrow> (error + 'a \<Rightarrow> 'w \<Rightarrow> bool) \<Rightarrow> 'w \<Rightarrow> bool" where
  "post m Q w = (case m w of (r, w') \<Rightarrow> Q r w')"

lemma postI: "(\<And>r w'. m w = (r, w') \<Longrightarrow> Q r w') \<Longrightarrow> post m Q w"
  by (auto simp: post_def split: prod.splits)

lemma postD: "post m Q w \<Longrightarrow> m w = (r, w') \<Longrightarrow> Q r w'"
  by (simp add: post_def)

lemma post_conseq: "post m P w \<Longrightarrow> (\<And>r w'. P r w' \<Longrightarrow> Q r w') \<Longrightarrow> post m Q w"
  by (auto simp: post_def split: prod.splits)

lemma post_await:
  "post (await m k) Q w \<longleftrightarrow>
   post m (\<lambda>r w'. case r of Inl e \<Rightarrow> Q (Inl e) w' | Inr x \<Rightarrow> post (k x) Q w') w"
  by (auto simp: post_def await_def split: prod.splits sum.splits)

lemma post_andThen:
  "post (andThen m k) Q w \<longleftrightarrow>
   post m (\<lambda>r w'. case r of Inl e \<Rightarrow> Q (Inl e) w' | Inr x \<Rightarrow> post k Q w') w"
  by (simp add: andThen_def post_await)

lemma post_tryCatch:
  "post (tryCatch m h) Q w \<longleftrightarrow>
   post m (\<lambda>r w'. case r of Inl e \<Rightarrow> post (h e) Q w' | Inr x \<Rightarrow> Q (Inr x) w') w"
  by (auto simp: post_def tryCatch_def split: prod.splits sum.splits)

lemma post_simps [simp]:
  "post (ret x) Q1 w = Q1 (Inr x) w"
  "post (throw e) Q2 w = Q2 (Inl e) w"
  "post (gets f) Q3 w = Q3 (Inr (f w)) w"
  "post (modify g) Q4 w = Q4 (Inr ()) (g w)"
  "post (liftE r) Q5 w = Q5 r w"
  by (simp_all add: post_def)

lemma post_conj: "post m P w \<Longrightarrow> post m Q w \<Longrightarrow> post m (\<lambda>r w'. P r w' \<and> Q r w') w"
  by (auto simp: post_def split: prod.splits)

section \<open>Step relations\<close>

text \<open>\<open>keeps R m\<close>: whatever \<open>m\<close> does to the state is a step of \<open>R\<close>. For a
  reflexive and transitive \<open>R\<close> the property composes along the program; the locale
  proves that once, and every component interprets it with the relation it promises.\<close>

definition keeps :: "('w \<Rightarrow> 'w \<Rightarrow> bool) \<Rightarrow> ('w, 'a) prog \<Rightarrow> bool" where
  "keeps R m \<longleftrightarrow> (\<forall>w. R w (snd (m w)))"

lemma keepsI: "(\<And>w. R w (snd (m w))) \<Longrightarrow> keeps R m"
  by (simp add: keeps_def)

lemma keepsD: "keeps R m \<Longrightarrow> m w = (r, w') \<Longrightarrow> R w w'"
  by (metis keeps_def snd_conv)

lemma keeps_mono: "keeps R m \<Longrightarrow> (\<And>w w'. R w w' \<Longrightarrow> S w w') \<Longrightarrow> keeps S m"
  by (simp add: keeps_def)

text \<open>\<open>stays R m w\<close>: the same from one given state, for programs that are a step of
  \<open>R\<close> only where they are called.\<close>

definition stays :: "('w \<Rightarrow> 'w \<Rightarrow> bool) \<Rightarrow> ('w, 'a) prog \<Rightarrow> 'w \<Rightarrow> bool" where
  "stays R m w \<longleftrightarrow> R w (snd (m w))"

lemma staysD: "stays R m w \<Longrightarrow> m w = (r, w') \<Longrightarrow> R w w'"
  by (simp add: stays_def)

lemma keeps_stays: "keeps R m \<Longrightarrow> stays R m w"
  by (simp add: keeps_def stays_def)

lemma stays_keeps: "(\<And>w. stays R m w) \<Longrightarrow> keeps R m"
  by (simp add: keeps_def stays_def)

lemma stays_state: "snd (m w) = w' \<Longrightarrow> R w w' \<Longrightarrow> stays R m w"
  by (simp add: stays_def)

locale step_relation =
  fixes R :: "'w \<Rightarrow> 'w \<Rightarrow> bool"
  assumes step_refl: "R w w"
    and step_trans: "R u v \<Longrightarrow> R v w \<Longrightarrow> R u w"
begin

lemma keeps_ret: "keeps R (ret x)"
  and keeps_throw: "keeps R (throw e)"
  and keeps_gets: "keeps R (gets f)"
  and keeps_liftE: "keeps R (liftE r)"
  by (simp_all add: keeps_def step_refl)

lemma keeps_modify: "(\<And>w. R w (g w)) \<Longrightarrow> keeps R (modify g)"
  by (simp add: keeps_def)

lemma keeps_await: "keeps R m \<Longrightarrow> (\<And>x. keeps R (k x)) \<Longrightarrow> keeps R (await m k)"
  unfolding keeps_def await_def
  by (auto split: prod.splits sum.splits intro: step_trans) (metis snd_conv step_trans)+

lemma keeps_andThen: "keeps R m \<Longrightarrow> keeps R k \<Longrightarrow> keeps R (andThen m k)"
  by (simp add: andThen_def keeps_await)

lemma keeps_tryCatch: "keeps R m \<Longrightarrow> (\<And>e. keeps R (h e)) \<Longrightarrow> keeps R (tryCatch m h)"
  unfolding keeps_def tryCatch_def
  by (auto split: prod.splits sum.splits intro: step_trans) (metis snd_conv step_trans)+

lemma keeps_tryFinally: "keeps R m \<Longrightarrow> (\<And>w. R w (f w)) \<Longrightarrow> keeps R (tryFinally m f)"
  unfolding keeps_def tryFinally_def
  by (auto split: prod.splits) (metis snd_conv step_trans)

lemma keeps_whenM: "(b \<Longrightarrow> keeps R m) \<Longrightarrow> keeps R (whenM b m)"
  by (cases b) (simp_all add: keeps_ret)

lemma keeps_if: "(b \<Longrightarrow> keeps R m) \<Longrightarrow> (\<not> b \<Longrightarrow> keeps R m') \<Longrightarrow> keeps R (if b then m else m')"
  by simp

lemma keeps_forEach: "(\<And>x. x \<in> set xs \<Longrightarrow> keeps R (f x)) \<Longrightarrow> keeps R (forEach xs f)"
  by (induction xs) (simp_all add: keeps_ret keeps_andThen)

lemma keeps_mapP: "(\<And>x. x \<in> set xs \<Longrightarrow> keeps R (f x)) \<Longrightarrow> keeps R (mapP f xs)"
  by (induction xs) (auto simp: keeps_ret intro!: keeps_await)

lemma keeps_option:
  "(v = None \<Longrightarrow> keeps R m) \<Longrightarrow> (\<And>x. v = Some x \<Longrightarrow> keeps R (k x)) \<Longrightarrow>
   keeps R (case v of None \<Rightarrow> m | Some x \<Rightarrow> k x)"
  by (cases v) simp_all

lemma keeps_prod: "(\<And>a b. p = (a, b) \<Longrightarrow> keeps R (k a b)) \<Longrightarrow> keeps R (case p of (a, b) \<Rightarrow> k a b)"
  by (cases p) simp_all

lemma keeps_Let: "(\<And>x. x = t \<Longrightarrow> keeps R (k x)) \<Longrightarrow> keeps R (Let t k)"
  by (simp add: Let_def)

lemma stays_ret: "stays R (ret x) w"
  and stays_throw: "stays R (throw e) w"
  and stays_gets: "stays R (gets f) w"
  and stays_liftE: "stays R (liftE r) w"
  by (simp_all add: stays_def step_refl)

lemma stays_modify: "R w (g w) \<Longrightarrow> stays R (modify g) w"
  by (simp add: stays_def)

lemma stays_await:
  "stays R m w \<Longrightarrow> (\<And>x w'. m w = (Inr x, w') \<Longrightarrow> stays R (k x) w') \<Longrightarrow> stays R (await m k) w"
  unfolding stays_def await_def by (auto split: prod.splits sum.splits intro: step_trans)

lemma stays_andThen:
  "stays R m w \<Longrightarrow> (\<And>x w'. m w = (Inr x, w') \<Longrightarrow> stays R k w') \<Longrightarrow> stays R (andThen m k) w"
  unfolding andThen_def by (rule stays_await)

lemma stays_tryCatch:
  "stays R m w \<Longrightarrow> (\<And>e w'. m w = (Inl e, w') \<Longrightarrow> stays R (h e) w') \<Longrightarrow> stays R (tryCatch m h) w"
  unfolding stays_def tryCatch_def by (auto split: prod.splits sum.splits intro: step_trans)

lemma stays_tryFinally: "stays R m w \<Longrightarrow> (\<And>w'. R w' (f w')) \<Longrightarrow> stays R (tryFinally m f) w"
  unfolding stays_def tryFinally_def by (auto split: prod.splits intro: step_trans)

lemma stays_whenM: "(b \<Longrightarrow> stays R m w) \<Longrightarrow> stays R (whenM b m) w"
  by (cases b) (simp_all add: stays_ret)

lemma stays_if: "(b \<Longrightarrow> stays R m w) \<Longrightarrow> (\<not> b \<Longrightarrow> stays R m' w) \<Longrightarrow> stays R (if b then m else m') w"
  by simp

lemma stays_option:
  "(v = None \<Longrightarrow> stays R m w) \<Longrightarrow> (\<And>x. v = Some x \<Longrightarrow> stays R (k x) w) \<Longrightarrow>
   stays R (case v of None \<Rightarrow> m | Some x \<Rightarrow> k x) w"
  by (cases v) simp_all

lemma stays_prod: "(\<And>a b. p = (a, b) \<Longrightarrow> stays R (k a b) w) \<Longrightarrow> stays R (case p of (a, b) \<Rightarrow> k a b) w"
  by (cases p) simp_all

lemma stays_Let: "(\<And>x. x = t \<Longrightarrow> stays R (k x) w) \<Longrightarrow> stays R (Let t k) w"
  by (simp add: Let_def)

lemmas stays_rules =
  stays_ret stays_throw stays_gets stays_liftE stays_await stays_andThen stays_tryCatch
  stays_whenM stays_if stays_option stays_prod stays_Let

lemmas keeps_rules =
  keeps_ret keeps_throw keeps_gets keeps_liftE keeps_await keeps_andThen keeps_tryCatch
  keeps_whenM keeps_if keeps_forEach keeps_mapP keeps_option keeps_prod keeps_Let

end

section \<open>JavaScript values in HOL\<close>

text \<open>\<open>a ?? b\<close> on an optional value, and \<open>Array.prototype.find\<close>.\<close>

definition orElse :: "'a option \<Rightarrow> 'a \<Rightarrow> 'a" where
  "orElse v d = (case v of None \<Rightarrow> d | Some x \<Rightarrow> x)"

lemma orElse_simps [simp]: "orElse None d = d" "orElse (Some x) d = x"
  by (simp_all add: orElse_def)

lemma find_Some_set: "List.find P xs = Some x \<Longrightarrow> x \<in> set xs \<and> P x"
  by (induction xs) (auto split: if_splits)

text \<open>\<open>Map.set\<close> keeps the place of the first and the value of the last.\<close>

fun mapSet :: "string \<Rightarrow> 'a \<Rightarrow> (string \<times> 'a) list \<Rightarrow> (string \<times> 'a) list" where
  "mapSet k v [] = [(k, v)]"
| "mapSet k v ((k', v') # m) = (if k = k' then (k, v) # m else (k', v') # mapSet k v m)"

lemma fst_mapSet: "fst ` set (mapSet k v m) = insert k (fst ` set m)"
proof (induction m)
  case (Cons p m)
  then show ?case by (cases p) auto
qed simp

lemma in_mapSet: "p \<in> set (mapSet k v m) \<Longrightarrow> p = (k, v) \<or> p \<in> set m"
  by (induction m) (auto split: if_splits)

text \<open>The code of a character (\<open>charCodeAt\<close>).\<close>

abbreviation code :: "char \<Rightarrow> nat" where
  "code c \<equiv> of_char c"

lemma code_char_of [simp]: "n < 256 \<Longrightarrow> code (char_of n) = n"
  by simp

lemma code_inject: "code c = code d \<longleftrightarrow> c = d"
  by simp

text \<open>\<open>String.prototype.trim\<close>: the white space of ASCII (the other Unicode spaces do
  not occur in the identifiers and codes that are trimmed).\<close>

definition is_space :: "char \<Rightarrow> bool" where
  "is_space c \<longleftrightarrow> code c = 32 \<or> 9 \<le> code c \<and> code c \<le> 13"

definition trim :: "string \<Rightarrow> string" where
  "trim s = rev (dropWhile is_space (rev (dropWhile is_space s)))"

lemma trim_id:
  assumes "s \<noteq> []" and "\<not> is_space (hd s)" and "\<not> is_space (last s)"
  shows "trim s = s"
proof -
  have "dropWhile is_space s = s"
    using assms by (cases s) auto
  moreover have "dropWhile is_space (rev s) = rev s"
    using assms by (cases s rule: rev_cases) auto
  ultimately show ?thesis by (simp add: trim_def)
qed

lemma trim_no_space: "(\<And>c. c \<in> set s \<Longrightarrow> \<not> is_space c) \<Longrightarrow> trim s = s"
  by (cases "s = []") (auto simp: trim_def [of "[]"] intro!: trim_id)

end
