(* ===== verification/Bytes.thy ===== *)
theory Bytes
  imports Prelude "HOL-Library.Word"
begin

text \<open>
  Byte strings and the conversions of \<^verbatim>\<open>crypto/onboarding-crypto.ts\<close>
  (\<open>toHex\<close>, \<open>fromHex\<close>) and \<^verbatim>\<open>services/bytes.ts\<close> (\<open>b64encode\<close>,
  \<open>b64decode\<close>), with the parts of the JavaScript library they use: \<open>parseInt\<close>
  with radix 16, \<open>atob\<close>, \<open>TextEncoder\<close>, \<open>DataView\<close> integers and typed-array
  \<open>set\<close>.

  A \<open>Uint8Array\<close> is a list of 8-bit words. A JavaScript string is modelled by its
  UTF-8 bytes, so \<open>TextEncoder\<close> and \<open>TextDecoder\<close> are inverse to each other and
  \<open>length\<close> is the JavaScript length on ASCII text.
\<close>

type_synonym bytes = "8 word list"

lemma unat8: "unat (b :: 8 word) < 256"
  using unsigned_less [of b, where ?'a = nat] by simp

section \<open>Text\<close>

definition textEncode :: "string \<Rightarrow> bytes" where
  "textEncode s = map (\<lambda>c. word_of_nat (of_char c)) s"

definition textDecode :: "bytes \<Rightarrow> string" where
  "textDecode bs = map (\<lambda>b. char_of (unat b)) bs"

lemma textDecode_textEncode [simp]: "textDecode (textEncode s) = s"
proof -
  have "char_of (unat (word_of_nat (of_char c) :: 8 word)) = c" for c :: char
    by (simp add: unsigned_of_nat take_bit_nat_eq_self)
  then show ?thesis by (simp add: textDecode_def textEncode_def o_def)
qed

lemma textEncode_textDecode [simp]: "textEncode (textDecode bs) = bs"
proof -
  have "(word_of_nat (of_char (char_of (unat b) :: char)) :: 8 word) = b" for b
    using unsigned_less [of b, where ?'a = nat] by (simp add: of_char_of)
  then show ?thesis by (simp add: textDecode_def textEncode_def o_def)
qed

lemma length_textEncode [simp]: "length (textEncode s) = length s"
  by (simp add: textEncode_def)

lemma textEncode_inject [simp]: "textEncode s = textEncode t \<longleftrightarrow> s = t"
  by (metis textDecode_textEncode)

section \<open>Hexadecimal\<close>

definition hexDigit :: "nat \<Rightarrow> char" where
  "hexDigit n = char_of (if n < 10 then 48 + n else 87 + n)"

fun toHex :: "bytes \<Rightarrow> string" where
  "toHex [] = []"
| "toHex (b # bs) = hexDigit (unat b div 16) # hexDigit (unat b mod 16) # toHex bs"

definition hexVal :: "char \<Rightarrow> nat option" where
  "hexVal c = (let n = code c in
     if 48 \<le> n \<and> n \<le> 57 then Some (n - 48)
     else if 97 \<le> n \<and> n \<le> 102 then Some (n - 87)
     else if 65 \<le> n \<and> n \<le> 70 then Some (n - 55)
     else None)"

fun hexPrefix :: "string \<Rightarrow> nat list" where
  "hexPrefix [] = []"
| "hexPrefix (c # cs) = (case hexVal c of None \<Rightarrow> [] | Some v \<Rightarrow> v # hexPrefix cs)"

text \<open>\<open>parseInt(s, 16)\<close>: skip white space, an optional sign, an optional \<open>0x\<close>,
  then the longest run of hexadecimal digits; \<open>NaN\<close> (here \<open>None\<close>) if it is empty.\<close>

definition parseInt16 :: "string \<Rightarrow> int option" where
  "parseInt16 s =
     (let s1 = dropWhile is_space s;
          neg = (s1 \<noteq> [] \<and> code (hd s1) = 45);
          s2 = (if s1 \<noteq> [] \<and> (code (hd s1) = 45 \<or> code (hd s1) = 43) then tl s1 else s1);
          s3 = (if map code (take 2 s2) \<in> {[48, 120], [48, 88]} then drop 2 s2 else s2);
          ds = hexPrefix s3
      in if ds = [] then None
         else let v = foldl (\<lambda>a d. 16 * a + int d) 0 ds in Some (if neg then - v else v))"

text \<open>Storing a number in a \<open>Uint8Array\<close> keeps it modulo 256, and \<open>NaN\<close> as 0.\<close>

definition toUint8 :: "int option \<Rightarrow> 8 word" where
  "toUint8 v = (case v of None \<Rightarrow> 0 | Some i \<Rightarrow> word_of_int i)"

fun fromHex :: "string \<Rightarrow> bytes" where
  "fromHex (a # b # rest) = toUint8 (parseInt16 [a, b]) # fromHex rest"
| "fromHex _ = []"

lemma code_hexDigit [simp]: "n < 16 \<Longrightarrow> code (hexDigit n) = (if n < 10 then 48 + n else 87 + n)"
  by (simp add: hexDigit_def)

lemma hex_digit_pairs:
  assumes "h < 16" "l < 16"
  shows "parseInt16 [hexDigit h, hexDigit l] = Some (16 * int h + int l)"
  using assms by (simp add: parseInt16_def is_space_def hexVal_def Let_def)

lemma parse_byte:
  "toUint8 (parseInt16 [hexDigit (unat b div 16), hexDigit (unat b mod 16)]) = b"
proof -
  have lt: "unat b < 256" by (rule unat8)
  have "parseInt16 [hexDigit (unat b div 16), hexDigit (unat b mod 16)]
      = Some (16 * int (unat b div 16) + int (unat b mod 16))"
    using lt by (intro hex_digit_pairs) auto
  moreover have "16 * int (unat b div 16) + int (unat b mod 16) = int (unat b)"
    by presburger
  ultimately show ?thesis by (simp add: toUint8_def)
qed

lemma fromHex_toHex [simp]: "fromHex (toHex bs) = bs"
  by (induction bs) (simp_all add: parse_byte)

lemma toHex_inject [simp]: "toHex a = toHex b \<longleftrightarrow> a = b"
  by (metis fromHex_toHex)

lemma length_toHex [simp]: "length (toHex bs) = 2 * length bs"
  by (induction bs) simp_all

lemma length_fromHex [simp]: "length (fromHex s) = length s div 2"
  by (induction s rule: fromHex.induct) simp_all

definition isHexLower :: "char \<Rightarrow> bool" where
  "isHexLower c \<longleftrightarrow> 48 \<le> code c \<and> code c \<le> 57 \<or> 97 \<le> code c \<and> code c \<le> 102"

lemma hexDigit_lower: "n < 16 \<Longrightarrow> isHexLower (hexDigit n)"
  by (simp add: isHexLower_def)

lemma toHex_lower: "c \<in> set (toHex bs) \<Longrightarrow> isHexLower c"
proof (induction bs)
  case (Cons b bs)
  have "unat b < 256" by (rule unat8)
  then show ?case using Cons by (auto intro!: hexDigit_lower)
qed simp

lemma isHexLower_not_space: "isHexLower c \<Longrightarrow> \<not> is_space c"
  by (auto simp: isHexLower_def is_space_def)

lemma trim_toHex [simp]: "trim (toHex bs) = toHex bs"
  by (rule trim_no_space) (blast dest: toHex_lower isHexLower_not_space)

text \<open>A lower-case hexadecimal string of even length is the print of what it parses to.\<close>

lemma isHexLowerE:
  assumes "isHexLower c" obtains n where "n < 16" and "c = hexDigit n"
proof
  let ?n = "if code c \<le> 57 then code c - 48 else code c - 87"
  show "?n < 16" using assms by (auto simp: isHexLower_def)
  moreover have "code (hexDigit ?n) = code c"
    using assms calculation by (auto simp: isHexLower_def)
  ultimately show "c = hexDigit ?n" using code_inject by metis
qed

lemma hex_digit_values:
  assumes "isHexLower c" "isHexLower d"
  shows "toHex [toUint8 (parseInt16 [c, d])] = [c, d]"
proof -
  obtain h l where hl: "h < 16" "c = hexDigit h" "l < 16" "d = hexDigit l"
    using assms by (metis isHexLowerE)
  have "(word_of_int (16 * int h + int l) :: 8 word) = word_of_nat (16 * h + l)"
    by simp
  moreover have "unat (word_of_nat (16 * h + l) :: 8 word) = 16 * h + l"
    using hl by (subst unsigned_of_nat) (simp add: take_bit_nat_eq_self)
  ultimately have "unat (word_of_int (16 * int h + int l) :: 8 word) = 16 * h + l"
    by metis
  then show ?thesis using hl by (simp add: hex_digit_pairs toUint8_def)
qed

lemma toHex_fromHex:
  "(\<And>c. c \<in> set s \<Longrightarrow> isHexLower c) \<Longrightarrow> even (length s) \<Longrightarrow> toHex (fromHex s) = s"
proof (induction s rule: fromHex.induct)
  case (1 a b rest)
  have "toHex [toUint8 (parseInt16 [a, b])] = [a, b]"
    using 1(2) [of a] 1(2) [of b] by (intro hex_digit_values) simp_all
  moreover have "toHex (x # xs) = toHex [x] @ toHex xs" for x xs by simp
  ultimately show ?case using 1 by (metis append_Cons append_Nil even_Suc fromHex.simps(1)
      insertCI length_Cons list.simps(15))
qed auto

section \<open>Base64\<close>

definition b64Digit :: "nat \<Rightarrow> char" where
  "b64Digit n = char_of (if n < 26 then 65 + n else if n < 52 then 71 + n
     else if n < 62 then n - 4 else if n = 62 then 43 else 47)"

definition b64Val :: "char \<Rightarrow> nat option" where
  "b64Val c = (let n = code c in
     if 65 \<le> n \<and> n \<le> 90 then Some (n - 65)
     else if 97 \<le> n \<and> n \<le> 122 then Some (n - 71)
     else if 48 \<le> n \<and> n \<le> 57 then Some (n + 4)
     else if n = 43 then Some 62
     else if n = 47 then Some 63
     else None)"

fun b64encode :: "bytes \<Rightarrow> string" where
  "b64encode [] = []"
| "b64encode [a] = (let n = unat a in
     [b64Digit (n div 4), b64Digit (n mod 4 * 16), CHR ''='', CHR ''=''])"
| "b64encode [a, b] = (let n = unat a; m = unat b in
     [b64Digit (n div 4), b64Digit (n mod 4 * 16 + m div 16), b64Digit (m mod 16 * 4), CHR ''=''])"
| "b64encode (a # b # c # rest) = (let n = unat a; m = unat b; k = unat c in
     [b64Digit (n div 4), b64Digit (n mod 4 * 16 + m div 16),
      b64Digit (m mod 16 * 4 + k div 64), b64Digit (k mod 64)] @ b64encode rest)"

text \<open>\<open>atob\<close>, the forgiving decoder of the HTML standard: ASCII white space is dropped;
  if the length is then a multiple of four, up to two trailing \<open>=\<close> are removed; a
  remaining length of 1 modulo 4 or a character outside the alphabet is an error.\<close>

definition b64Space :: "char \<Rightarrow> bool" where
  "b64Space c \<longleftrightarrow> code c \<in> {32, 9, 10, 12, 13}"

definition dropPadding :: "string \<Rightarrow> string" where
  "dropPadding s =
     (if length s mod 4 = 0 then
        (if s \<noteq> [] \<and> last s = CHR ''='' then
           (if butlast s \<noteq> [] \<and> last (butlast s) = CHR ''='' then butlast (butlast s) else butlast s)
         else s)
      else s)"

fun b64groups :: "nat list \<Rightarrow> bytes option" where
  "b64groups [] = Some []"
| "b64groups [_] = None"
| "b64groups [p, q] = Some [word_of_nat (p * 4 + q div 16)]"
| "b64groups [p, q, r] = Some [word_of_nat (p * 4 + q div 16), word_of_nat (q mod 16 * 16 + r div 4)]"
| "b64groups (p # q # r # s # rest) =
     map_option (\<lambda>bs. word_of_nat (p * 4 + q div 16) # word_of_nat (q mod 16 * 16 + r div 4)
                      # word_of_nat (r mod 4 * 64 + s) # bs) (b64groups rest)"

definition b64decode :: "string \<Rightarrow> error + bytes" where
  "b64decode s =
     (let t = dropPadding (filter (\<lambda>c. \<not> b64Space c) s);
          vs = map b64Val t
      in if None \<in> set vs then Inl (JsError ''InvalidCharacterError'')
         else case b64groups (map the vs) of
                None \<Rightarrow> Inl (JsError ''InvalidCharacterError'')
              | Some bs \<Rightarrow> Inr bs)"

lemma code_b64Digit: "n < 64 \<Longrightarrow> code (b64Digit n) = (if n < 26 then 65 + n else if n < 52 then 71 + n
     else if n < 62 then n - 4 else if n = 62 then 43 else 47)"
  by (auto simp: b64Digit_def)

lemma b64Val_Digit [simp]: "n < 64 \<Longrightarrow> b64Val (b64Digit n) = Some n"
  and b64Digit_no_space [simp]: "n < 64 \<Longrightarrow> \<not> b64Space (b64Digit n)"
  by (auto simp: b64Val_def b64Space_def code_b64Digit Let_def)

lemma b64Digit_no_pad [simp]: "n < 64 \<Longrightarrow> b64Digit n \<noteq> CHR ''=''"
  by (auto simp: code_b64Digit simp flip: code_inject split: if_splits)

text \<open>The digits of an encoded byte string, without the padding.\<close>

fun b64digits :: "bytes \<Rightarrow> nat list" where
  "b64digits [] = []"
| "b64digits [a] = (let n = unat a in [n div 4, n mod 4 * 16])"
| "b64digits [a, b] = (let n = unat a; m = unat b in
     [n div 4, n mod 4 * 16 + m div 16, m mod 16 * 4])"
| "b64digits (a # b # c # rest) = (let n = unat a; m = unat b; k = unat c in
     [n div 4, n mod 4 * 16 + m div 16, m mod 16 * 4 + k div 64, k mod 64] @ b64digits rest)"

definition b64pad :: "bytes \<Rightarrow> string" where
  "b64pad bs = (if length bs mod 3 = 1 then ''=='' else if length bs mod 3 = 2 then ''='' else [])"

lemma b64digits_lt: "d \<in> set (b64digits bs) \<Longrightarrow> d < 64"
proof (induction bs rule: b64digits.induct)
  case (2 a) then show ?case using unat8 [of a] by (auto simp: Let_def)
next
  case (3 a b) then show ?case using unat8 [of a] unat8 [of b]
    by (auto simp: Let_def)
next
  case (4 a b c rest) then show ?case using unat8 [of a] unat8 [of b] unat8 [of c]
    by (auto simp: Let_def)
qed simp

lemma b64encode_digits: "b64encode bs = map b64Digit (b64digits bs) @ b64pad bs"
  by (induction bs rule: b64encode.induct)
     (auto simp: Let_def b64pad_def mod_Suc)

lemma digit_split:
  fixes x y d :: nat
  assumes "y < d"
  shows "(x * d + y) div d = x" and "(x * d + y) mod d = y"
  using assms by simp_all

lemma b64groups_digits: "b64groups (b64digits bs) = Some bs"
proof (induction bs rule: b64digits.induct)
  case (2 a)
  show ?case by (simp add: Let_def)
next
  case (3 a b)
  have "unat b div 16 < 16" using unat8 [of b] by simp
  then show ?case by (simp add: Let_def digit_split)
next
  case (4 a b c rest)
  have "unat b div 16 < 16" "unat c div 64 < 4" using unat8 [of b] unat8 [of c] by simp_all
  then show ?case using 4 by (simp add: Let_def digit_split)
qed simp

lemma length_b64digits: "length (b64digits bs) mod 4 =
    (if length bs mod 3 = 0 then 0 else length bs mod 3 + 1)"
proof (induction bs rule: b64digits.induct)
  case (4 a b c rest)
  have "length (a # b # c # rest) = length rest + 3"
    and "length (b64digits (a # b # c # rest)) = length (b64digits rest) + 4"
    by (simp_all add: Let_def)
  then have "length (a # b # c # rest) mod 3 = length rest mod 3"
    and "length (b64digits (a # b # c # rest)) mod 4 = length (b64digits rest) mod 4"
    by (simp_all only: mod_add_self2)
  then show ?case using 4 by simp
qed (simp_all add: Let_def)

lemma dropPadding_encode: "dropPadding (b64encode bs) = map b64Digit (b64digits bs)"
proof -
  have lt: "length bs mod 3 < 3" by simp
  have last: "b64digits bs \<noteq> [] \<Longrightarrow> last (map b64Digit (b64digits bs)) \<noteq> CHR ''=''"
    using b64digits_lt [of "last (b64digits bs)" bs] by (simp add: last_map)
  show ?thesis
    using length_b64digits [of bs] lt last
    by (auto simp: b64encode_digits b64pad_def dropPadding_def butlast_append mod_Suc
        split: if_splits)
qed

lemma filter_b64encode: "filter (\<lambda>c. \<not> b64Space c) (b64encode bs) = b64encode bs"
proof (rule filter_True, rule ballI)
  fix c assume "c \<in> set (b64encode bs)"
  then show "\<not> b64Space c"
    by (auto simp: b64encode_digits b64pad_def b64Space_def [of "CHR ''=''"] dest: b64digits_lt b64Digit_no_space
        split: if_splits)
qed

lemma b64decode_b64encode [simp]: "b64decode (b64encode bs) = Inr bs"
proof -
  have vs: "map b64Val (map b64Digit (b64digits bs)) = map Some (b64digits bs)"
    using b64digits_lt by (auto simp: o_def)
  show ?thesis
    unfolding b64decode_def Let_def filter_b64encode dropPadding_encode vs
    by (auto simp: o_def b64groups_digits)
qed

section \<open>Integers in byte arrays\<close>

text \<open>\<open>be n x\<close>: the \<open>n\<close> low bytes of \<open>x\<close>, most significant first
  (\<open>setBigUint64(.., false)\<close>, \<open>setUint32(.., false)\<close>); \<open>le n x\<close> the other way
  round. A negative or large \<open>x\<close> wraps, as in a \<open>DataView\<close>.\<close>

fun le :: "nat \<Rightarrow> int \<Rightarrow> bytes" where
  "le 0 x = []"
| "le (Suc n) x = word_of_int x # le n (x div 256)"

definition be :: "nat \<Rightarrow> int \<Rightarrow> bytes" where
  "be n x = rev (le n x)"

fun leVal :: "bytes \<Rightarrow> int" where
  "leVal [] = 0"
| "leVal (b # bs) = uint b + 256 * leVal bs"

lemma length_le [simp]: "length (le n x) = n"
  by (induction n arbitrary: x) simp_all

lemma length_be [simp]: "length (be n x) = n"
  by (simp add: be_def)

lemma leVal_le: "leVal (le n x) = x mod 256 ^ n"
proof (induction n arbitrary: x)
  case (Suc n)
  have "x mod 256 + 256 * (x div 256 mod 256 ^ n) = x mod (256 * 256 ^ n)"
    by (simp add: mod_mult2_eq' zmod_zmult2_eq)
  then show ?case using Suc by (simp add: uint_word_of_int take_bit_eq_mod)
qed simp

lemma le_inject:
  assumes "le n x = le n y" and "0 \<le> x" "x < 256 ^ n" "0 \<le> y" "y < 256 ^ n"
  shows "x = y"
  using assms by (metis leVal_le mod_pos_pos_trivial)

lemma be_inject:
  assumes "be n x = be n y" and "0 \<le> x" "x < 256 ^ n" "0 \<le> y" "y < 256 ^ n"
  shows "x = y"
  using assms by (auto simp: be_def intro: le_inject)

section \<open>Typed arrays\<close>

text \<open>\<open>out.set(xs, off)\<close> throws a \<open>RangeError\<close> when \<open>xs\<close> does not fit.\<close>

definition u8set :: "bytes \<Rightarrow> bytes \<Rightarrow> nat \<Rightarrow> error + bytes" where
  "u8set out xs off =
     (if off + length xs \<le> length out
      then Inr (take off out @ xs @ drop (off + length xs) out)
      else Inl (JsError ''RangeError''))"

text \<open>\<open>subarray\<close> and \<open>slice\<close> with non-negative bounds clamp to the array.\<close>

definition subarray :: "'a list \<Rightarrow> nat \<Rightarrow> nat \<Rightarrow> 'a list" where
  "subarray xs i j = take (j - i) (drop i xs)"

section \<open>Decimal printing\<close>

fun showNat :: "nat \<Rightarrow> string" where
  "showNat n = (if n < 10 then [char_of (48 + n)] else showNat (n div 10) @ [char_of (48 + n mod 10)])"

declare showNat.simps [simp del]

definition padStart :: "nat \<Rightarrow> char \<Rightarrow> string \<Rightarrow> string" where
  "padStart n c s = replicate (n - length s) c @ s"

lemma length_padStart: "length s \<le> n \<Longrightarrow> length (padStart n c s) = n"
  by (simp add: padStart_def)

lemma length_showNat: "n < 10 ^ k \<Longrightarrow> 0 < k \<Longrightarrow> length (showNat n) \<le> k"
proof (induction k arbitrary: n)
  case (Suc k)
  show ?case
  proof (cases "n < 10")
    case False
    then have "n div 10 < 10 ^ k" "0 < k" using Suc.prems by (auto intro: ccontr)
    with Suc.IH False show ?thesis by (simp add: showNat.simps [of n])
  qed (simp add: showNat.simps [of n])
qed simp

definition isDigit :: "char \<Rightarrow> bool" where
  "isDigit c \<longleftrightarrow> 48 \<le> code c \<and> code c \<le> 57"

lemma isDigit_char_of: "n < 10 \<Longrightarrow> isDigit (char_of (48 + n :: nat))"
  by (simp add: isDigit_def of_char_of)

lemma showNat_digits: "c \<in> set (showNat n) \<Longrightarrow> isDigit c"
proof (induction n rule: showNat.induct)
  case (1 n)
  then show ?case
    by (subst (asm) showNat.simps) (auto split: if_splits intro!: isDigit_char_of)
qed

lemma showNat_ne [simp]: "showNat n \<noteq> []"
  by (subst showNat.simps) simp

end
