(* ===== verification/Json.thy ===== *)
theory Json
  imports Bytes
begin

text \<open>
  \<open>JSON.stringify\<close> and \<open>JSON.parse\<close>, which the client uses for the identity bundle,
  sync records, file manifests, history records and device-link frames. Numbers of the
  records are integers (\<open>JNum\<close>); a literal with a fraction or an exponent is kept as
  its text (\<open>JDec\<close>). Object members keep their order, and a later duplicate wins when
  a member is read (\<open>jget\<close>).

  The parser takes fuel, one unit per nested call. \<open>json_parse\<close> starts it with twice
  the length of the input plus two, and \<open>pval_fuel\<close> shows that more never changes the
  outcome, so running out of fuel is not a way to fail.
\<close>

datatype json =
    JNull
  | JBool bool
  | JNum int
  | JDec string
  | JStr string
  | JArr "json list"
  | JObj "(string \<times> json) list"

section \<open>Printing\<close>

definition showInt :: "int \<Rightarrow> string" where
  "showInt i = (if i < 0 then CHR ''-'' # showNat (nat (- i)) else showNat (nat i))"

abbreviation bslash :: char where "bslash \<equiv> CHR 0x5C"
abbreviation quote :: char where "quote \<equiv> CHR 0x22"

definition escChar :: "char \<Rightarrow> string" where
  "escChar c =
     (if code c = 34 then [bslash, quote]
      else if code c = 92 then [bslash, bslash]
      else if code c = 8 then [bslash, CHR ''b'']
      else if code c = 9 then [bslash, CHR ''t'']
      else if code c = 10 then [bslash, CHR ''n'']
      else if code c = 12 then [bslash, CHR ''f'']
      else if code c = 13 then [bslash, CHR ''r'']
      else if code c < 32 then
        [bslash, CHR ''u'', CHR ''0'', CHR ''0'', hexDigit (code c div 16), hexDigit (code c mod 16)]
      else [c])"

definition showStr :: "string \<Rightarrow> string" where
  "showStr s = quote # concat (map escChar s) @ [quote]"

fun stringify :: "json \<Rightarrow> string"
  and showElems :: "json list \<Rightarrow> string"
  and showFields :: "(string \<times> json) list \<Rightarrow> string" where
  "stringify JNull = ''null''"
| "stringify (JBool b) = (if b then ''true'' else ''false'')"
| "stringify (JNum i) = showInt i"
| "stringify (JDec t) = t"
| "stringify (JStr s) = showStr s"
| "stringify (JArr []) = ''[]''"
| "stringify (JArr (x # xs)) = CHR ''['' # showElems (x # xs)"
| "stringify (JObj []) = ''{}''"
| "stringify (JObj (f # fs)) = CHR ''{'' # showFields (f # fs)"
| "showElems [] = '']''"
| "showElems [x] = stringify x @ '']''"
| "showElems (x # y # ys) = stringify x @ CHR '','' # showElems (y # ys)"
| "showFields [] = ''}''"
| "showFields [(k, v)] = showStr k @ CHR '':'' # stringify v @ ''}''"
| "showFields ((k, v) # f # fs) = showStr k @ CHR '':'' # stringify v @ CHR '','' # showFields (f # fs)"

section \<open>Parsing\<close>

definition jsonSpace :: "char \<Rightarrow> bool" where
  "jsonSpace c \<longleftrightarrow> code c \<in> {32, 9, 10, 13}"

definition skipWs :: "string \<Rightarrow> string" where
  "skipWs s = dropWhile jsonSpace s"

definition unesc :: "char \<Rightarrow> char option" where
  "unesc c =
     (if code c = 34 then Some quote
      else if code c = 92 then Some bslash
      else if code c = 47 then Some (CHR ''/'')
      else if code c = 98 then Some (char_of (8 :: nat))
      else if code c = 116 then Some (char_of (9 :: nat))
      else if code c = 110 then Some (char_of (10 :: nat))
      else if code c = 102 then Some (char_of (12 :: nat))
      else if code c = 114 then Some (char_of (13 :: nat))
      else None)"

text \<open>The UTF-8 bytes of a code unit given by four hexadecimal digits.\<close>

definition utf8Unit :: "nat \<Rightarrow> string" where
  "utf8Unit n =
     (if n < 128 then [char_of n]
      else if n < 2048 then [char_of (192 + n div 64), char_of (128 + n mod 64)]
      else [char_of (224 + n div 4096), char_of (128 + n div 64 mod 64), char_of (128 + n mod 64)])"

definition hex4 :: "char \<Rightarrow> char \<Rightarrow> char \<Rightarrow> char \<Rightarrow> nat option" where
  "hex4 a b c d = (case (hexVal a, hexVal b, hexVal c, hexVal d) of
     (Some p, Some q, Some r, Some s) \<Rightarrow> Some (4096 * p + 256 * q + 16 * r + s)
   | _ \<Rightarrow> None)"

definition prependTo :: "string \<Rightarrow> (string \<times> string) option \<Rightarrow> (string \<times> string) option" where
  "prependTo p v = map_option (\<lambda>(t, r). (p @ t, r)) v"

text \<open>The characters of a string literal up to its closing quote.\<close>

fun pstr :: "string \<Rightarrow> (string \<times> string) option" where
  "pstr [] = None"
| "pstr (c # r) =
     (if code c = 34 then Some ([], r)
      else if code c = 92 then
        (case r of [] \<Rightarrow> None
         | e # r' \<Rightarrow>
            (if code e = 117 then
               (case r' of h1 # h2 # h3 # h4 # r'' \<Rightarrow>
                  (case hex4 h1 h2 h3 h4 of None \<Rightarrow> None | Some n \<Rightarrow> prependTo (utf8Unit n) (pstr r''))
                | _ \<Rightarrow> None)
             else (case unesc e of None \<Rightarrow> None | Some x \<Rightarrow> prependTo [x] (pstr r'))))
      else if code c < 32 then None
      else prependTo [c] (pstr r))"

definition digitsVal :: "string \<Rightarrow> int" where
  "digitsVal ds = foldl (\<lambda>a d. 10 * a + (int (code d) - 48)) 0 ds"

definition pfrac :: "string \<Rightarrow> (string \<times> string) option" where
  "pfrac r =
     (if r \<noteq> [] \<and> code (hd r) = 46 then
        (let ds = takeWhile isDigit (tl r) in
         if ds = [] then None else Some (hd r # ds, dropWhile isDigit (tl r)))
      else Some ([], r))"

definition pexp :: "string \<Rightarrow> (string \<times> string) option" where
  "pexp r =
     (if r \<noteq> [] \<and> (code (hd r) = 101 \<or> code (hd r) = 69) then
        (let sgn = (if tl r \<noteq> [] \<and> (code (hd (tl r)) = 43 \<or> code (hd (tl r)) = 45)
                    then [hd (tl r)] else []);
             r1 = drop (length sgn) (tl r);
             ds = takeWhile isDigit r1
         in if ds = [] then None else Some (hd r # sgn @ ds, dropWhile isDigit r1))
      else Some ([], r))"

definition pnum :: "string \<Rightarrow> (json \<times> string) option" where
  "pnum s =
     (let neg = (s \<noteq> [] \<and> code (hd s) = 45);
          s1 = (if neg then tl s else s);
          ds = takeWhile isDigit s1;
          r = dropWhile isDigit s1
      in if ds = [] \<or> (code (hd ds) = 48 \<and> tl ds \<noteq> []) then None
         else case pfrac r of None \<Rightarrow> None
              | Some (f, r1) \<Rightarrow> (case pexp r1 of None \<Rightarrow> None
                  | Some (e, r2) \<Rightarrow>
                      if f = [] \<and> e = []
                      then Some (JNum (if neg then - digitsVal ds else digitsVal ds), r2)
                      else Some (JDec ((if neg then ''-'' else []) @ ds @ f @ e), r2)))"

definition pword :: "string \<Rightarrow> (json \<times> string) option" where
  "pword s =
     (if take 4 s = ''null'' then Some (JNull, drop 4 s)
      else if take 4 s = ''true'' then Some (JBool True, drop 4 s)
      else if take 5 s = ''false'' then Some (JBool False, drop 5 s)
      else pnum s)"

fun pval :: "nat \<Rightarrow> string \<Rightarrow> (json \<times> string) option"
  and parr :: "nat \<Rightarrow> string \<Rightarrow> (json list \<times> string) option"
  and pobj :: "nat \<Rightarrow> string \<Rightarrow> ((string \<times> json) list \<times> string) option" where
  "pval 0 s = None"
| "pval (Suc n) s =
     (case skipWs s of
        [] \<Rightarrow> None
      | c # r \<Rightarrow>
         (if code c = 34 then map_option (\<lambda>(t, q). (JStr t, q)) (pstr r)
          else if code c = 91 then
            (if skipWs r \<noteq> [] \<and> code (hd (skipWs r)) = 93 then Some (JArr [], tl (skipWs r))
             else map_option (\<lambda>(xs, q). (JArr xs, q)) (parr n r))
          else if code c = 123 then
            (if skipWs r \<noteq> [] \<and> code (hd (skipWs r)) = 125 then Some (JObj [], tl (skipWs r))
             else map_option (\<lambda>(fs, q). (JObj fs, q)) (pobj n r))
          else pword (c # r)))"
| "parr 0 s = None"
| "parr (Suc n) s =
     (case pval n s of
        None \<Rightarrow> None
      | Some (x, r) \<Rightarrow>
         (case skipWs r of
            [] \<Rightarrow> None
          | c # r' \<Rightarrow>
             (if code c = 93 then Some ([x], r')
              else if code c = 44 then map_option (\<lambda>(xs, q). (x # xs, q)) (parr n r')
              else None)))"
| "pobj 0 s = None"
| "pobj (Suc n) s =
     (case skipWs s of
        [] \<Rightarrow> None
      | c # r \<Rightarrow>
         (if code c \<noteq> 34 then None
          else case pstr r of
                 None \<Rightarrow> None
               | Some (k, r1) \<Rightarrow>
                  (if skipWs r1 = [] \<or> code (hd (skipWs r1)) \<noteq> 58 then None
                   else case pval n (tl (skipWs r1)) of
                          None \<Rightarrow> None
                        | Some (v, r2) \<Rightarrow>
                           (case skipWs r2 of
                              [] \<Rightarrow> None
                            | d # r3 \<Rightarrow>
                               (if code d = 125 then Some ([(k, v)], r3)
                                else if code d = 44 then map_option (\<lambda>(fs, q). ((k, v) # fs, q)) (pobj n r3)
                                else None)))))"

definition json_parse :: "string \<Rightarrow> json option" where
  "json_parse s = (case pval (2 * length s + 2) s of
     None \<Rightarrow> None
   | Some (j, r) \<Rightarrow> if skipWs r = [] then Some j else None)"

text \<open>Reading a member of a parsed object.\<close>

fun jget :: "string \<Rightarrow> json \<Rightarrow> json option" where
  "jget k (JObj fs) = map_of (rev fs) k"
| "jget k _ = None"

fun jstr :: "json option \<Rightarrow> string option" where
  "jstr (Some (JStr s)) = Some s"
| "jstr _ = None"

fun jint :: "json option \<Rightarrow> int option" where
  "jint (Some (JNum i)) = Some i"
| "jint _ = None"

fun jbool :: "json option \<Rightarrow> bool option" where
  "jbool (Some (JBool b)) = Some b"
| "jbool _ = None"

fun jarr :: "json option \<Rightarrow> json list option" where
  "jarr (Some (JArr xs)) = Some xs"
| "jarr _ = None"

text \<open>An optional member: \<open>JSON.stringify\<close> leaves a member that is \<open>undefined\<close> out.\<close>

definition jopt :: "string \<Rightarrow> json option \<Rightarrow> (string \<times> json) list" where
  "jopt k v = (case v of None \<Rightarrow> [] | Some j \<Rightarrow> [(k, j)])"

section \<open>Enough fuel\<close>

lemma length_skipWs: "length (skipWs s) \<le> length s"
  by (simp add: skipWs_def length_dropWhile_le)

lemma skipWs_Cons_length: "skipWs s = c # r \<Longrightarrow> length r < length s"
  using length_skipWs [of s] by simp

lemma prependTo_Some: "prependTo p v = Some (t, r) \<longleftrightarrow> (\<exists>t'. v = Some (t', r) \<and> t = p @ t')"
  by (auto simp: prependTo_def)

lemma pstr_length: "pstr s = Some (t, r) \<Longrightarrow> length r < length s"
proof (induction s arbitrary: t r rule: pstr.induct)
  case (2 c s)
  consider "code c = 34" | "code c = 92" | "code c \<noteq> 34" "code c \<noteq> 92" by auto
  then show ?case
  proof cases
    case 1 then show ?thesis using "2.prems" by auto
  next
    case 2 then show ?thesis using "2.prems" "2.IH"(1,2)
      by (auto simp: prependTo_Some split: if_splits list.splits option.splits)
         (fastforce dest!: less_SucI)+
  next
    case 3 then show ?thesis using "2.prems" "2.IH"(3)
      by (auto simp: prependTo_Some less_SucI split: if_splits)
  qed
qed simp

lemma pnum_length:
  assumes "pnum s = Some (j, r)" shows "length r < length s"
proof -
  have tw: "takeWhile isDigit x \<noteq> [] \<Longrightarrow> length (dropWhile isDigit x) < length x" for x
    by (cases x) (auto simp: length_dropWhile_le le_imp_less_Suc split: if_splits)
  have fr: "pfrac x = Some (f, y) \<Longrightarrow> length y \<le> length x" for x f y
    using tw [of "tl x"] by (cases x) (auto simp: pfrac_def Let_def split: if_splits)
  have ex: "pexp x = Some (f, y) \<Longrightarrow> length y \<le> length x" for x f y
  proof -
    assume a: "pexp x = Some (f, y)"
    show ?thesis
    proof (cases x)
      case (Cons c x')
      then show ?thesis using a tw [of x'] tw [of "drop 1 x'"]
        by (auto simp: pexp_def Let_def split: if_splits)
    qed (use a in \<open>auto simp: pexp_def\<close>)
  qed
  show ?thesis using assms tw [of s] tw [of "tl s"]
    by (auto simp: pnum_def Let_def split: if_splits option.splits dest!: fr ex)
qed

lemma pword_length: "pword (c # s) = Some (j, r) \<Longrightarrow> length r \<le> length s"
  by (auto simp: pword_def dest!: pnum_length split: if_splits)

lemma parse_length:
  "pval n s = Some (j, r) \<Longrightarrow> length r < length s"
  "parr n s = Some (xs, r) \<Longrightarrow> length r < length s"
  "pobj n s = Some (fs, r) \<Longrightarrow> length r < length s"
proof (induction n s and n s and n s arbitrary: j r and xs r and fs r rule: pval_parr_pobj.induct)
  case (2 n s)
  obtain c q where cq: "skipWs s = c # q" using "2.prems" by (auto split: list.splits)
  have lt: "length q < length s" using skipWs_Cons_length [OF cq] .
  have tl: "length (tl (skipWs q)) \<le> length q" using length_skipWs [of q] by simp
  show ?case
  proof (cases "code c = 91 \<or> code c = 123")
    case True
    then have "length r \<le> length q"
      using "2.prems" "2.IH" cq tl
      by (auto split: if_splits dest: less_imp_le) (blast intro: less_imp_le)+
    then show ?thesis using lt by simp
  next
    case False
    then have "length r \<le> length q"
      using "2.prems" cq by (auto split: if_splits dest!: pstr_length pword_length)
    then show ?thesis using lt by simp
  qed
next
  case (4 n s)
  obtain x q where xq: "pval n s = Some (x, q)" using "4.prems" by (auto split: option.splits)
  obtain c q' where cq: "skipWs q = c # q'" using "4.prems" xq by (auto split: list.splits)
  have "length r \<le> length q'"
    using "4.prems" "4.IH"(2) xq cq
    by (auto split: if_splits dest: less_imp_le) (blast intro: less_imp_le)
  then show ?case using skipWs_Cons_length [OF cq] "4.IH"(1) [OF xq] by simp
next
  case (6 n s)
  obtain c q where cq: "skipWs s = c # q" using "6.prems" by (auto split: list.splits)
  have c34: "code c = 34" using "6.prems" cq by (auto split: if_splits)
  obtain k r1 where k: "pstr q = Some (k, r1)" using "6.prems" cq c34 by (auto split: option.splits)
  have colon: "skipWs r1 \<noteq> []" "code (hd (skipWs r1)) = 58"
    using "6.prems" cq c34 k by (auto split: if_splits)
  obtain v r2 where v: "pval n (tl (skipWs r1)) = Some (v, r2)"
    using "6.prems" cq c34 k colon by (auto split: option.splits)
  obtain d r3 where d: "skipWs r2 = d # r3"
    using "6.prems" cq c34 k colon v by (auto split: list.splits)
  have "length r \<le> length r3"
    using "6.prems" "6.IH"(2) cq c34 k colon v d
    by (auto split: if_splits dest: less_imp_le) (blast intro: less_imp_le)
  moreover have "length r2 < length (tl (skipWs r1))" using "6.IH"(1) cq c34 k colon v by simp
  ultimately show ?case
    using skipWs_Cons_length [OF d] skipWs_Cons_length [OF cq] pstr_length [OF k]
      length_skipWs [of r1] by simp
qed auto

lemma parse_fuel:
  "(2 * length s + 1 \<le> n \<longrightarrow> 2 * length s + 1 \<le> m \<longrightarrow> pval n s = pval m s) \<and>
   (2 * length s + 2 \<le> n \<longrightarrow> 2 * length s + 2 \<le> m \<longrightarrow> parr n s = parr m s) \<and>
   (2 * length s + 1 \<le> n \<longrightarrow> 2 * length s + 1 \<le> m \<longrightarrow> pobj n s = pobj m s)"
proof (induction n arbitrary: m s)
  case (Suc n)
  show ?case
  proof (cases m)
    case (Suc k)
    have v: "pval n q = pval k q" if "length q < length s" "2 * length s \<le> n" "2 * length s \<le> k" for q
      using Suc.IH [of q k] that by simp
    have a: "parr n q = parr k q" if "length q < length s" "2 * length s \<le> n" "2 * length s \<le> k" for q
      using Suc.IH [of q k] that by simp
    have o: "pobj n q = pobj k q" if "length q < length s" "2 * length s \<le> n" "2 * length s \<le> k" for q
      using Suc.IH [of q k] that by simp
    have "pval (Suc n) s = pval (Suc k) s" if "2 * length s \<le> n" "2 * length s \<le> k"
    proof (cases "skipWs s")
      case (Cons c q)
      then show ?thesis using a [of q] o [of q] that skipWs_Cons_length [OF Cons] by simp
    qed simp
    moreover have "parr (Suc n) s = parr (Suc k) s" if le: "2 * length s + 1 \<le> n" "2 * length s + 1 \<le> k"
    proof -
      have "pval n s = pval k s" using Suc.IH [of s k] le by simp
      moreover have "parr n q' = parr k q'" if "pval k s = Some (x, q)" "skipWs q = c # q'" for x q c q'
        using a [of q'] parse_length(1) [OF that(1)] skipWs_Cons_length [OF that(2)] le by simp
      ultimately show ?thesis by (auto split: option.splits list.splits)
    qed
    moreover have "pobj (Suc n) s = pobj (Suc k) s" if le: "2 * length s \<le> n" "2 * length s \<le> k"
    proof (cases "skipWs s")
      case (Cons c q)
      have lt: "length q < length s" by (rule skipWs_Cons_length [OF Cons])
      have pv: "pval n (tl (skipWs r1)) = pval k (tl (skipWs r1))" if "pstr q = Some (x, r1)" for x r1
        using v [of "tl (skipWs r1)"] pstr_length [OF that] length_skipWs [of r1] lt le by simp
      have po: "pobj n r3 = pobj k r3"
        if "pstr q = Some (x, r1)" "pval k (tl (skipWs r1)) = Some (y, r2)" "skipWs r2 = d # r3"
        for x r1 y r2 d r3
        using o [of r3] pstr_length [OF that(1)] length_skipWs [of r1] parse_length(1) [OF that(2)]
          skipWs_Cons_length [OF that(3)] lt le by simp
      show ?thesis using Cons pv po by (auto split: option.splits list.splits)
    qed simp
    ultimately show ?thesis using Suc by simp
  qed simp
qed simp

lemma pval_fuel:
  "2 * length s + 1 \<le> n \<Longrightarrow> pval n s = pval (2 * length s + 2) s"
  using parse_fuel [of s n "2 * length s + 2"] by simp

section \<open>Parsing what was printed\<close>

lemma prependTo_code: "code x = code c \<Longrightarrow> prependTo [x] v = prependTo [c] v"
  by simp

lemma escChar_pstr: "pstr (escChar c @ s) = prependTo [c] (pstr s)"
proof -
  have k: "char_of (code c) = c" by simp
  consider "code c \<in> {34, 92, 8, 9, 10, 12, 13}"
    | "code c < 32" "code c \<notin> {8, 9, 10, 12, 13}"
    | "32 \<le> code c" "code c \<notin> {34, 92}" by force
  then show ?thesis
  proof cases
    case 1
    then show ?thesis
      by (auto simp: escChar_def unesc_def simp del: of_char_eq_iff intro!: prependTo_code)
  next
    case 2
    have "hexVal (hexDigit (code c div 16)) = Some (code c div 16)"
      "hexVal (hexDigit (code c mod 16)) = Some (code c mod 16)"
      using 2 by (auto simp: hexVal_def Let_def)
    moreover have "hexVal (CHR ''0'') = Some 0" by (simp add: hexVal_def)
    ultimately have "hex4 (CHR ''0'') (CHR ''0'') (hexDigit (code c div 16)) (hexDigit (code c mod 16)) = Some (code c)"
      by (simp add: hex4_def)
    moreover have "utf8Unit (code c) = [c]" using 2 k by (simp add: utf8Unit_def)
    ultimately show ?thesis using 2 by (auto simp: escChar_def)
  next
    case 3
    then show ?thesis by (auto simp: escChar_def)
  qed
qed

lemma pstr_showStr: "pstr (concat (map escChar s) @ quote # r) = Some (s, r)"
  by (induction s) (simp_all add: escChar_pstr prependTo_def)

lemma digitsVal_showNat: "digitsVal (showNat n) = int n"
proof (induction n rule: showNat.induct)
  case (1 n)
  have "code (char_of (48 + n mod 10)) = 48 + n mod 10" by simp
  moreover have "10 * int (n div 10) + int (n mod 10) = int n" by presburger
  ultimately show ?case using 1
    by (subst showNat.simps) (auto simp: digitsVal_def)
qed

lemma showNat_lead: "tl (showNat n) = [] \<or> code (hd (showNat n)) \<noteq> 48"
proof (induction n rule: showNat.induct)
  case (1 n)
  show ?case
  proof (cases "n < 10")
    case False
    have "code (hd (showNat (n div 10))) \<noteq> 48"
    proof (cases "n div 10 < 10")
      case True
      then show ?thesis using False by (simp add: showNat.simps [of "n div 10"])
    next
      case deep: False
      then have "tl (showNat (n div 10)) \<noteq> []"
        by (subst showNat.simps) (cases "showNat (n div 10 div 10)", auto)
      then show ?thesis using 1 False by simp
    qed
    then show ?thesis using False
      by (subst (2) showNat.simps) (cases "showNat (n div 10)", auto)
  qed (simp add: showNat.simps [of n])
qed

definition numEnd :: "string \<Rightarrow> bool" where
  "numEnd r \<longleftrightarrow> r = [] \<or> (\<not> isDigit (hd r) \<and> code (hd r) \<notin> {46, 101, 69})"

lemma numEnd_comma [simp]:
  "numEnd []" "numEnd (CHR '','' # r)" "numEnd (CHR '']'' # r)" "numEnd (CHR ''}'' # r)"
  by (simp_all add: numEnd_def isDigit_def)

lemma showNat_split:
  assumes "numEnd r"
  shows "takeWhile isDigit (showNat n @ r) = showNat n" "dropWhile isDigit (showNat n @ r) = r"
proof -
  have all: "\<And>c. c \<in> set (showNat n) \<Longrightarrow> isDigit c" by (rule showNat_digits)
  show "takeWhile isDigit (showNat n @ r) = showNat n"
    using all assms by (cases r) (auto simp: numEnd_def takeWhile_append2)
  show "dropWhile isDigit (showNat n @ r) = r"
    using all assms by (cases r) (auto simp: numEnd_def dropWhile_append2)
qed

lemma pnum_showInt:
  assumes "numEnd r" shows "pnum (showInt i @ r) = Some (JNum i, r)"
proof -
  have fe: "pfrac r = Some ([], r)" "pexp r = Some ([], r)"
    using assms by (auto simp: numEnd_def pfrac_def pexp_def)
  have nd: "isDigit (hd (showNat n))" for n by (rule showNat_digits [OF hd_in_set]) simp
  have hd: "hd (showNat n @ r) = hd (showNat n)" for n by simp
  show ?thesis
  proof (cases "i < 0")
    case True
    then show ?thesis using showNat_lead [of "nat (- i)"] fe
      by (auto simp: pnum_def showInt_def showNat_split [OF assms] digitsVal_showNat Let_def)
  next
    case False
    have "code (hd (showNat (nat i))) \<noteq> 45" using nd [of "nat i"] by (auto simp: isDigit_def)
    then show ?thesis using False showNat_lead [of "nat i"] fe
      by (auto simp: pnum_def showInt_def showNat_split [OF assms] digitsVal_showNat Let_def)
  qed
qed

text \<open>What a printed value starts with: never white space, a quote or a bracket where
  another kind of value is printed.\<close>

lemma showInt_hd: "\<exists>c q. showInt i = c # q \<and> (isDigit c \<or> code c = 45)"
proof (cases "i < 0")
  case False
  then show ?thesis using showNat_digits [of _ "nat i"]
    by (cases "showNat (nat i)") (auto simp: showInt_def)
qed (simp add: showInt_def)

lemma pword_showInt:
  assumes "numEnd r" shows "pword (showInt i @ r) = Some (JNum i, r)"
proof -
  obtain c q where cq: "showInt i = c # q" "isDigit c \<or> code c = 45" using showInt_hd by blast
  then have "c \<noteq> CHR ''n''" "c \<noteq> CHR ''t''" "c \<noteq> CHR ''f''" by (auto simp: isDigit_def)
  then show ?thesis using cq pnum_showInt [OF assms, of i] by (simp add: pword_def)
qed

fun noDec :: "json \<Rightarrow> bool" where
  "noDec (JDec t) = False"
| "noDec (JArr xs) = list_all noDec xs"
| "noDec (JObj fs) = list_all (\<lambda>f. noDec (snd f)) fs"
| "noDec _ = True"

fun parseNeed :: "json \<Rightarrow> nat" where
  "parseNeed (JArr xs) = 2 + sum_list (map (\<lambda>x. 1 + parseNeed x) xs)"
| "parseNeed (JObj fs) = 2 + sum_list (map (\<lambda>f. 1 + parseNeed (snd f)) fs)"
| "parseNeed _ = 1"

lemma skipWs_simps [simp]: "skipWs [] = []" "\<not> jsonSpace c \<Longrightarrow> skipWs (c # r) = c # r"
  by (simp_all add: skipWs_def)

lemma stringify_hd:
  "noDec j \<Longrightarrow> \<exists>c q. stringify j = c # q \<and> \<not> jsonSpace c \<and> code c \<noteq> 93 \<and> code c \<noteq> 125"
proof (cases j)
  case (JNum i)
  then show ?thesis using showInt_hd [of i] by (auto simp: isDigit_def jsonSpace_def)
next
  case (JArr xs) then show ?thesis by (cases xs) (auto simp: jsonSpace_def)
next
  case (JObj fs) then show ?thesis by (cases fs) (auto simp: jsonSpace_def)
qed (auto simp: showStr_def jsonSpace_def)

lemma parse_printed:
  "noDec j \<Longrightarrow> parseNeed j \<le> n \<Longrightarrow> numEnd r \<Longrightarrow> pval n (stringify j @ r) = Some (j, r)"
  "list_all noDec xs \<Longrightarrow> xs \<noteq> [] \<Longrightarrow> 1 + sum_list (map (\<lambda>x. 1 + parseNeed x) xs) \<le> n \<Longrightarrow>
     parr n (showElems xs @ r) = Some (xs, r)"
  "list_all (\<lambda>f. noDec (snd f)) fs \<Longrightarrow> fs \<noteq> [] \<Longrightarrow> 1 + sum_list (map (\<lambda>f. 1 + parseNeed (snd f)) fs) \<le> n \<Longrightarrow>
     pobj n (showFields fs @ r) = Some (fs, r)"
proof (induction j and xs and fs arbitrary: n r and n r and n r
    rule: stringify_showElems_showFields.induct)
  case (3 i)
  then obtain k where n: "n = Suc k" by (cases n) auto
  obtain c q where cq: "showInt i = c # q" "isDigit c \<or> code c = 45" using showInt_hd by blast
  then have "\<not> jsonSpace c" "code c \<noteq> 34" "code c \<noteq> 91" "code c \<noteq> 123"
    by (auto simp: isDigit_def jsonSpace_def)
  then show ?case using n cq pword_showInt [OF 3(3), of i] by simp
next
  case (5 s)
  then show ?case using pstr_showStr [of s r] by (cases n) (simp_all add: showStr_def jsonSpace_def)
next
  case (7 x xs)
  obtain c q where cq: "stringify x = c # q" "\<not> jsonSpace c" "code c \<noteq> 93"
    using stringify_hd [of x] 7(2) by auto
  have "\<exists>q'. showElems (x # xs) = c # q'" using cq by (cases xs) auto
  then obtain q' where q': "showElems (x # xs) = c # q'" ..
  obtain k where n: "n = Suc k" using 7 by (cases n) auto
  have "parr k (showElems (x # xs) @ r) = Some (x # xs, r)" using 7 n by simp
  then show ?case using n q' cq by (simp add: jsonSpace_def [of "CHR ''[''"])
next
  case (9 f fs)
  obtain a b where f: "f = (a, b)" by (cases f)
  have "\<exists>q'. showFields (f # fs) = quote # q'" by (cases fs) (auto simp: f showStr_def)
  then obtain q' where q': "showFields (f # fs) = quote # q'" ..
  obtain k where n: "n = Suc k" using 9 by (cases n) auto
  have "pobj k (showFields (f # fs) @ r) = Some (f # fs, r)" using 9 n by simp
  then show ?case using n q' by (simp add: jsonSpace_def [of "CHR ''{''"] jsonSpace_def [of quote])
next
  case (11 x)
  then obtain k where n: "n = Suc k" by (cases n) auto
  have "pval k (stringify x @ CHR '']'' # r) = Some (x, CHR '']'' # r)" using 11 n by simp
  then show ?case using n by (simp add: jsonSpace_def)
next
  case (12 x y ys)
  then obtain k where n: "n = Suc k" by (cases n) auto
  have "pval k (stringify x @ CHR '','' # showElems (y # ys) @ r) = Some (x, CHR '','' # showElems (y # ys) @ r)"
    using 12 n by simp
  moreover have "parr k (showElems (y # ys) @ r) = Some (y # ys, r)" using 12 n by simp
  ultimately show ?case using n by (simp add: jsonSpace_def)
next
  case (14 k v)
  then obtain m where n: "n = Suc m" by (cases n) auto
  have "pval m (stringify v @ CHR ''}'' # r) = Some (v, CHR ''}'' # r)" using 14 n by simp
  then show ?case using n pstr_showStr [of k] by (simp add: jsonSpace_def showStr_def)
next
  case (15 k v f fs)
  then obtain m where n: "n = Suc m" by (cases n) auto
  have "pval m (stringify v @ CHR '','' # showFields (f # fs) @ r) = Some (v, CHR '','' # showFields (f # fs) @ r)"
    using 15 n by simp
  moreover have "pobj m (showFields (f # fs) @ r) = Some (f # fs, r)" using 15 n by simp
  ultimately show ?case using n pstr_showStr [of k] by (simp add: jsonSpace_def showStr_def)
next
  case 6
  then show ?case by (cases n) (simp_all add: jsonSpace_def)
next
  case 8
  then show ?case by (cases n) (simp_all add: jsonSpace_def)
qed (auto simp: jsonSpace_def pword_def elim: less_natE split: nat.splits dest!: Suc_le_D)

lemma parseNeed_length:
  "parseNeed j \<le> 2 * length (stringify j) + 1"
  "xs \<noteq> [] \<Longrightarrow> sum_list (map (\<lambda>x. 1 + parseNeed x) xs) \<le> 2 * length (showElems xs)"
  "fs \<noteq> [] \<Longrightarrow> sum_list (map (\<lambda>f. 1 + parseNeed (snd f)) fs) \<le> 2 * length (showFields fs)"
  by (induction j and xs and fs rule: stringify_showElems_showFields.induct) auto

lemma json_parse_stringify [simp]:
  assumes "noDec j" shows "json_parse (stringify j) = Some j"
proof -
  have "parseNeed j \<le> 2 * length (stringify j) + 2" using parseNeed_length(1) [of j] by simp
  then show ?thesis
    using parse_printed(1) [OF assms, of "2 * length (stringify j) + 2" "[]"] by (simp add: json_parse_def)
qed

text \<open>From here on a printed value is only read back, never looked into.\<close>

declare stringify.simps [simp del] showElems.simps [simp del] showFields.simps [simp del]

end
