(* ===== verification/Tables.thy ===== *)
theory Tables
  imports Prelude
begin

text \<open>
  The Dexie tables of \<^verbatim>\<open>db/index.ts\<close>. A table is a list of rows with their primary
  keys, in ascending key order, which is the order \<open>toArray()\<close> and index queries return
  rows in. \<open>put\<close> inserts or replaces, \<open>update\<close> changes an existing row and does
  nothing otherwise, \<open>delete\<close> removes. The locale states what a client of a table
  relies on; the interpretation below discharges it for these tables.
\<close>

type_synonym ('k, 'r) table = "('k \<times> 'r) list"

definition tget :: "('k, 'r) table \<Rightarrow> 'k \<Rightarrow> 'r option" where
  "tget t k = map_of t k"

fun tput :: "'k :: linorder \<Rightarrow> 'r \<Rightarrow> ('k, 'r) table \<Rightarrow> ('k, 'r) table" where
  "tput k r [] = [(k, r)]"
| "tput k r ((k', r') # t) =
     (if k < k' then (k, r) # (k', r') # t
      else if k = k' then (k, r) # t
      else (k', r') # tput k r t)"

definition tdelete :: "'k \<Rightarrow> ('k, 'r) table \<Rightarrow> ('k, 'r) table" where
  "tdelete k t = filter (\<lambda>p. fst p \<noteq> k) t"

definition tupdate :: "'k \<Rightarrow> ('r \<Rightarrow> 'r) \<Rightarrow> ('k, 'r) table \<Rightarrow> ('k, 'r) table" where
  "tupdate k f t = map (\<lambda>(k', r). (k', if k' = k then f r else r)) t"

definition toArray :: "('k, 'r) table \<Rightarrow> 'r list" where
  "toArray t = map snd t"

text \<open>Deleting every row that satisfies a condition (\<open>where(..).delete()\<close>,
  \<open>filter(..).delete()\<close>).\<close>

definition tdeleteWhere :: "('r \<Rightarrow> bool) \<Rightarrow> ('k, 'r) table \<Rightarrow> ('k, 'r) table" where
  "tdeleteWhere P t = filter (\<lambda>p. \<not> P (snd p)) t"

definition twf :: "('k :: linorder, 'r) table \<Rightarrow> bool" where
  "twf t \<longleftrightarrow> sorted_wrt (<) (map fst t)"

section \<open>The interface\<close>

locale keyed_store =
  fixes lookup :: "'t \<Rightarrow> 'k \<Rightarrow> 'r option"
    and put :: "'k \<Rightarrow> 'r \<Rightarrow> 't \<Rightarrow> 't"
    and delete :: "'k \<Rightarrow> 't \<Rightarrow> 't"
    and update :: "'k \<Rightarrow> ('r \<Rightarrow> 'r) \<Rightarrow> 't \<Rightarrow> 't"
    and rows :: "'t \<Rightarrow> 'r list"
    and wf :: "'t \<Rightarrow> bool"
  assumes lookup_put: "lookup (put k r t) k' = (if k' = k then Some r else lookup t k')"
    and lookup_delete: "lookup (delete k t) k' = (if k' = k then None else lookup t k')"
    and lookup_update: "lookup (update k f t) k' = (if k' = k then map_option f (lookup t k) else lookup t k')"
    and wf_put: "wf t \<Longrightarrow> wf (put k r t)"
    and wf_delete: "wf t \<Longrightarrow> wf (delete k t)"
    and wf_update: "wf t \<Longrightarrow> wf (update k f t)"
    and rows_lookup: "wf t \<Longrightarrow> r \<in> set (rows t) \<longleftrightarrow> (\<exists>k. lookup t k = Some r)"
begin

lemma put_other: "k' \<noteq> k \<Longrightarrow> lookup (put k r t) k' = lookup t k'"
  by (simp add: lookup_put)

lemma put_put: "lookup (put k r (put k r' t)) = lookup (put k r t)"
  by (auto simp: lookup_put)

lemma update_absent: "lookup t k = None \<Longrightarrow> lookup (update k f t) = lookup t"
  by (auto simp: lookup_update)

lemma update_as_put: "lookup t k = Some r \<Longrightarrow> lookup (update k f t) = lookup (put k (f r) t)"
  by (auto simp: lookup_update lookup_put)

text \<open>A property of every row is kept by putting a row that has it, by deleting, and by
  an update that keeps it.\<close>

definition all_rows :: "('r \<Rightarrow> bool) \<Rightarrow> 't \<Rightarrow> bool" where
  "all_rows P t \<longleftrightarrow> (\<forall>k r. lookup t k = Some r \<longrightarrow> P r)"

lemma all_rows_put: "all_rows P t \<Longrightarrow> P r \<Longrightarrow> all_rows P (put k r t)"
  by (auto simp: all_rows_def lookup_put)

lemma all_rows_delete: "all_rows P t \<Longrightarrow> all_rows P (delete k t)"
  by (auto simp: all_rows_def lookup_delete)

lemma all_rows_update: "all_rows P t \<Longrightarrow> (\<And>r. P r \<Longrightarrow> P (f r)) \<Longrightarrow> all_rows P (update k f t)"
  by (auto simp: all_rows_def lookup_update split: if_splits)

end

section \<open>The tables provide it\<close>

lemma tget_tput [simp]: "tget (tput k r t) k' = (if k' = k then Some r else tget t k')"
  by (induction t) (auto simp: tget_def)

lemma tget_tdelete [simp]: "tget (tdelete k t) k' = (if k' = k then None else tget t k')"
  by (induction t) (auto simp: tget_def tdelete_def)

lemma tget_tupdate [simp]:
  "tget (tupdate k f t) k' = (if k' = k then map_option f (tget t k) else tget t k')"
  by (induction t) (auto simp: tget_def tupdate_def)

lemma tget_empty [simp]: "tget [] k = None"
  by (simp add: tget_def)

lemma tput_keys: "set (map fst (tput k r t)) = insert k (set (map fst t))"
proof (induction t)
  case (Cons p t)
  then show ?case by (cases p) auto
qed simp

lemma twf_Cons: "twf ((k, r) # t) \<longleftrightarrow> (\<forall>k' \<in> set (map fst t). k < k') \<and> twf t"
  by (simp add: twf_def)

lemma twf_tput: "twf t \<Longrightarrow> twf (tput k r t)"
proof (induction t)
  case (Cons p t)
  obtain k' r' where p: "p = (k', r')" by fastforce
  have IH: "twf (tput k r t)" and lt: "\<forall>x \<in> set (map fst t). k' < x" and wf: "twf t"
    using Cons by (simp_all add: p twf_Cons)
  consider "k < k'" | "k = k'" | "k' < k" by fastforce
  then show ?case
  proof cases
    case 1 with lt wf show ?thesis unfolding p by (auto simp: twf_Cons)
  next
    case 2 with lt wf show ?thesis unfolding p by (simp add: twf_Cons)
  next
    case 3 with lt IH have "twf ((k', r') # tput k r t)"
      unfolding twf_Cons tput_keys by simp
    with 3 show ?thesis unfolding p by auto
  qed
qed (simp add: twf_def)

lemma twf_filter: "twf t \<Longrightarrow> twf (filter P t)"
  by (induction t) (auto simp: twf_def)

lemma twf_tdelete: "twf t \<Longrightarrow> twf (tdelete k t)"
  by (simp add: tdelete_def twf_filter)

lemma twf_tdeleteWhere: "twf t \<Longrightarrow> twf (tdeleteWhere P t)"
  by (simp add: tdeleteWhere_def twf_filter)

lemma map_fst_tupdate [simp]: "map fst (tupdate k f t) = map fst t"
  by (induction t) (auto simp: tupdate_def)

lemma twf_tupdate: "twf t \<Longrightarrow> twf (tupdate k f t)"
  by (simp add: twf_def)

lemma twf_distinct: "twf t \<Longrightarrow> distinct (map fst t)"
  unfolding twf_def by (simp add: strict_sorted_iff)

lemma toArray_tget: "twf t \<Longrightarrow> r \<in> set (toArray t) \<longleftrightarrow> (\<exists>k. tget t k = Some r)"
  using twf_distinct [of t] by (force simp: toArray_def tget_def)

lemma tget_tdeleteWhere:
  assumes "twf t"
  shows "tget (tdeleteWhere P t) k = (case tget t k of None \<Rightarrow> None | Some r \<Rightarrow> if P r then None else Some r)"
  using twf_distinct [OF assms]
  by (induction t) (auto simp: tget_def tdeleteWhere_def split: option.splits dest: map_of_SomeD intro!: rev_image_eqI)

interpretation tbl: keyed_store tget tput tdelete tupdate toArray twf
  by unfold_locales (simp_all add: twf_tput twf_tdelete twf_tupdate toArray_tget)

lemma tput_new:
  "\<forall>k' \<in> set (map fst t). k' < k \<Longrightarrow> tput k r t = t @ [(k, r)]"
proof (induction t)
  case (Cons p t)
  then show ?case by (cases p) auto
qed simp

lemma tdelete_hd: "twf ((k, r) # t) \<Longrightarrow> tdelete k ((k, r) # t) = t"
  by (auto simp: twf_def tdelete_def intro!: filter_True)

lemma in_tupdate: "(k', r) \<in> set (tupdate k f t) \<longleftrightarrow>
   (\<exists>r0. (k', r0) \<in> set t \<and> r = (if k' = k then f r0 else r0))"
  by (force simp: tupdate_def)

end
