(* ===== verification/Types.thy ===== *)
theory Types
  imports Complex_Main Bytes Json Tables
begin

text \<open>
  The data of the client: the rows and tables of \<^verbatim>\<open>db/index.ts\<close>, the identity and
  wire types, the module variables of the services, and the environment the code runs in.

  The environment \<open>env\<close> is what the sources call but do not contain: the clock, the
  random generator, \<open>fetch\<close>, WebCrypto, the generated protobuf codec and the
  WebAssembly crypto module. Its functions that may answer differently on each call take
  the number \<open>tick\<close> of the call. A \<open>CryptoKey\<close> is its raw bytes. Numbers are
  integers; \<open>not_before\<close> of a queued receipt, which may be fractional, is a real.
\<close>

section \<open>Rows of the local database (\<^verbatim>\<open>db/index.ts\<close>)\<close>

record IdentityRow =
  id_user_id :: string
  id_ed25519_pub :: bytes
  id_dilithium3_pub :: bytes
  id_kyber_pub :: bytes
  id_x25519_pub :: bytes
  id_priv_bundle_enc :: "bytes option"

record SessionRow =
  se_session_id :: string
  se_peer_id :: string
  se_ratchet_state_enc :: bytes
  se_pqxdh_init_enc :: "bytes option"
  se_created_at :: int
  se_received_ok :: "bool option"

datatype direction = DirIn | DirOut
datatype kind = KText | KFile

record MessageRow =
  m_msg_id :: string
  m_session_id :: string
  m_content_enc :: bytes
  m_preview_enc :: "bytes option"
  m_timestamp :: int
  m_status :: string
  m_direction :: direction
  m_kind :: "kind option"
  m_receipt_token :: "bytes option"
  m_receipt_read_wanted :: "bool option"
  m_receipt_read_done :: "bool option"
  m_server_anchor :: "int option"
  m_created_at :: "int option"

datatype ContactStatus = Accepted | PendingInbound | PendingOutbound | Blocked

record ContactRow =
  c_px_id :: string
  c_ik_ed25519_pub :: "bytes option"
  c_ik_x25519_pub :: "bytes option"
  c_display_name_enc :: "bytes option"
  c_verified_fingerprint :: "string option"
  c_status :: "ContactStatus option"
  c_added_at :: int

record GroupRow =
  g_group_id :: string
  g_name_enc :: "bytes option"
  g_mls_state_enc :: "bytes option"
  g_epoch :: int
  g_member_count :: int

record BlobRow =
  bl_blob_id :: string
  bl_chunk_ids :: "string list"
  bl_cek_enc :: bytes
  bl_filename_enc :: "bytes option"
  bl_status :: string

record SettingRow =
  st_key :: string
  st_value :: json

record OutboxRow =
  o_id :: nat
  o_peer_id :: string
  o_sealed_b64 :: string
  o_local_msg_id :: string
  o_created_at :: int
  o_attempts :: int
  o_ttl_seconds :: "int option"

record LinkedDeviceRow =
  ld_device_id :: string
  ld_label :: string
  ld_send_key_enc :: bytes
  ld_recv_key_enc :: bytes
  ld_linked_at :: int

datatype receiptType = Delivered | Read

record ReceiptOutboxRow =
  r_id :: nat
  r_to :: string
  r_token_hex :: string
  r_receipt_type :: receiptType
  r_queued_at :: int
  r_not_before :: real

record ReceivedRow =
  rv_message_id :: string
  rv_at :: int

record HandshakeRow =
  hs_ek :: string
  hs_at :: int

text \<open>The twelve tables; the two counters are those of the auto-incremented
  primary keys (\<open>++id\<close>), which only grow.\<close>

record privexDB =
  identity_tbl :: "(string, IdentityRow) table"
  sessions_tbl :: "(string, SessionRow) table"
  messages_tbl :: "(string, MessageRow) table"
  contacts_tbl :: "(string, ContactRow) table"
  groups_tbl :: "(string, GroupRow) table"
  blobs_tbl :: "(string, BlobRow) table"
  settings_tbl :: "(string, SettingRow) table"
  outbox_tbl :: "(nat, OutboxRow) table"
  receipt_tbl :: "(nat, ReceiptOutboxRow) table"
  linked_tbl :: "(string, LinkedDeviceRow) table"
  received_tbl :: "(string, ReceivedRow) table"
  handshakes_tbl :: "(string, HandshakeRow) table"
  outbox_next :: nat
  receipt_next :: nat

section \<open>Identity\<close>

record IdentityKeys =
  ed25519_pub :: bytes
  ed25519_priv :: bytes
  dilithium3_pub :: bytes
  dilithium3_priv :: bytes
  kyber1024_pub :: bytes
  kyber1024_priv :: bytes
  x25519_pub :: bytes
  x25519_priv :: bytes

record PreKey =
  pk_id :: int
  pk_pub :: bytes
  pk_priv :: bytes

record keypair =
  kp_pub :: bytes
  kp_priv :: bytes

record RetiredSpk =
  rs_pub :: bytes
  rs_priv :: bytes
  rs_retiredAt :: "int option"

record HybridSig =
  sig_ed :: bytes
  sig_dil :: bytes

record IdentityBundle =
  b_userId :: string
  b_mnemonic :: string
  b_masterSeed :: bytes
  b_identity :: IdentityKeys
  b_spk :: keypair
  b_spkSig :: HybridSig
  b_opks :: "PreKey list"
  b_prevSpks :: "RetiredSpk list option"
  b_spkRotateAfter :: "int option"
  b_spkPending :: "bool option"
  b_opkPending :: "int list option"

record SignedSpk =
  ss_pub :: bytes
  ss_priv :: bytes
  ss_sigEd :: bytes
  ss_sigDil :: bytes

section \<open>Keystore (\<^verbatim>\<open>crypto/keystore.ts\<close>)\<close>

type_synonym cryptoKey = bytes

record PassphraseFactor =
  pf_salt :: string
  pf_m_cost :: int
  pf_t_cost :: int
  pf_wrapped :: string

record WebauthnFactor =
  wf_cred_id :: string
  wf_prf_salt :: string
  wf_wrapped :: string

record LockMeta =
  lm_passphrase :: "PassphraseFactor option"
  lm_webauthn :: "WebauthnFactor option"

record keystoreState =
  memKey :: "cryptoKey option"
  memKeyBytes :: "bytes option"
  masterHandle :: "cryptoKey option"
  lockMeta :: "LockMeta option"

section \<open>Plain rows and wire types\<close>

record PlainMessage =
  p_msg_id :: string
  p_session_id :: string
  p_content :: string
  p_timestamp :: int
  p_status :: string
  p_direction :: direction
  p_kind :: kind
  p_receipt_token :: "bytes option"
  p_receipt_read_wanted :: "bool option"
  p_receipt_read_done :: "bool option"
  p_server_anchor :: "int option"
  p_created_at :: int

record PlainContact =
  pc_px_id :: string
  pc_name :: string
  pc_verified :: bool
  pc_status :: ContactStatus
  pc_ik_ed25519 :: bytes
  pc_ik_x25519 :: bytes
  pc_added_at :: int

record PqxdhInitWire =
  alice_ik_pub :: bytes
  alice_ek_pub :: bytes
  kyber_ciphertext :: bytes
  opk_used :: bool
  opk_id :: int

record LoadedSession =
  ls_ratchetState :: bytes
  ls_pqxdhInit :: "PqxdhInitWire option"
  ls_receivedOk :: bool

record ReceiptRequestWire =
  rr_tokenId :: bytes
  rr_requestDelivery :: bool
  rr_requestRead :: bool

record FileFields =
  ff_filenameEnc :: bytes
  ff_mimeEnc :: bytes
  ff_totalSize :: int
  ff_sha256 :: bytes
  ff_chunkIds :: "string list"
  ff_wrappedCek :: bytes
  ff_ephPub :: bytes
  ff_thumbnailEnc :: "bytes option"
  ff_sentAt :: int

record DeviceSyncWire =
  ds_toDevice :: bytes
  ds_fromDevice :: bytes
  ds_blob :: bytes

record SyncRecord =
  sr_msg_id :: string
  sr_peer_id :: string
  sr_kind :: kind
  sr_content :: string
  sr_ts :: int
  sr_token_hex :: "string option"

record WSMessage =
  ws_message_id :: string
  ws_content :: string
  ws_queued_at :: int
  ws_server_ts :: "int option"
  ws_server_ts_sig :: "string option"

record AccountSpk =
  as_spk_x25519 :: string
  as_spk_sig_ed :: string
  as_spk_sig_dil :: string

text \<open>The protobuf messages the codec reads and writes: a submessage that is absent is
  \<open>None\<close>. The decoder of protobufjs keeps every submessage present on the wire, so
  the members of \<open>Content\<close> are independent.\<close>

record ProtoReceiptRequest =
  prr_tokenId :: bytes
  prr_requestDelivery :: bool
  prr_requestRead :: bool

record ProtoText =
  ptx_body :: string
  ptx_sentAt :: int

record ProtoReceipt =
  prc_tokenId :: bytes
  prc_receiptType :: string

record ProtoFile =
  pfl_filenameEncrypted :: bytes
  pfl_mimeTypeEncrypted :: bytes
  pfl_totalSize :: int
  pfl_sha256Plaintext :: bytes
  pfl_chunkIds :: "string list"
  pfl_wrappedCek :: bytes
  pfl_cekEphPub :: bytes
  pfl_thumbnailEncrypted :: bytes
  pfl_sentAt :: int

record ProtoContent =
  pco_text :: "ProtoText option"
  pco_file :: "ProtoFile option"
  pco_contactHello :: "int option"
  pco_contactAccept :: "int option"
  pco_receipt :: "ProtoReceipt option"
  pco_receiptRequest :: "ProtoReceiptRequest option"

record ProtoPqxdh =
  ppq_aliceIkPub :: bytes
  ppq_aliceEkPub :: bytes
  ppq_kyberCiphertext :: bytes
  ppq_opkUsed :: bool
  ppq_opkId :: int

record ProtoDeviceSync =
  pds_toDevice :: bytes
  pds_fromDevice :: bytes
  pds_blob :: bytes

record ProtoEnvelope =
  pen_ratchetHeader :: bytes
  pen_ratchetCiphertext :: bytes
  pen_pqxdh :: "ProtoPqxdh option"
  pen_deviceSync :: "ProtoDeviceSync option"

section \<open>Network\<close>

datatype httpMethod = GET | POST | DELETE
datatype reqBody = BodyNone | BodyJson json | BodyRaw bytes

record httpRequest =
  rq_method :: httpMethod
  rq_url :: string
  rq_token :: "string option"
  rq_body :: reqBody

record httpResponse =
  rsp_status :: int
  rsp_json :: "json option"
  rsp_raw :: bytes

section \<open>The WebAssembly module\<close>

record wasmRatchetEncrypted =
  wre_ciphertext :: bytes
  wre_message_header :: bytes
  wre_new_session_state :: bytes

record wasmRatchetDecrypted =
  wrd_plaintext :: bytes
  wrd_new_session_state :: bytes

record wasmOpened =
  wop_plaintext :: bytes
  wop_sender_id :: string
  wop_sender_ed_pub :: bytes
  wop_sender_x25519_pub :: bytes
  wop_sender_verified :: bool

record wasmPqxdhInit =
  wpi_shared_secret :: bytes
  wpi_alice_ik_pub :: bytes
  wpi_alice_ek_pub :: bytes
  wpi_kyber_ciphertext :: bytes
  wpi_opk_used :: bool

record wasmOpaqueStart =
  wos_message :: bytes
  wos_client_state :: bytes

record wasmOpaqueFinish =
  wof_upload_message :: bytes
  wof_envelope :: bytes
  wof_envelope_mac :: bytes

record wasmOpaqueLogin =
  wol_key_material :: bytes
  wol_finalization :: bytes

record wasmPow =
  wpw_nonce :: int
  wpw_solution_hash :: bytes

record wasmWrapped =
  wwr_wrapped :: bytes
  wwr_eph_pub :: bytes

record wasmModule =
  w_generate_seed_phrase :: "bytes \<Rightarrow> error + string"
  w_seed_phrase_to_master_seed :: "string \<Rightarrow> error + bytes"
  w_derive_keypairs_from_seed :: "bytes \<Rightarrow> error + IdentityKeys"
  w_user_id_from_ed25519 :: "bytes \<Rightarrow> error + string"
  w_generate_x25519_prekey :: "nat \<Rightarrow> nat \<Rightarrow> error + keypair"
  w_sign_hybrid :: "nat \<Rightarrow> bytes \<Rightarrow> bytes \<Rightarrow> bytes \<Rightarrow> error + HybridSig"
  w_verify_hybrid :: "bytes \<Rightarrow> bytes \<Rightarrow> bytes \<Rightarrow> bytes \<Rightarrow> bytes \<Rightarrow> error + bool"
  w_kt_verify_root_sig :: "bytes \<Rightarrow> bytes \<Rightarrow> bytes \<Rightarrow> error + bool"
  w_kt_bundle_hash :: "bytes list \<Rightarrow> error + bytes"
  w_kt_leaf_hash :: "string \<Rightarrow> bytes \<Rightarrow> int \<Rightarrow> error + bytes"
  w_kt_verify_inclusion :: "bytes \<Rightarrow> bytes \<Rightarrow> bytes \<Rightarrow> error + bool"
  w_ratchet_encrypt :: "nat \<Rightarrow> bytes \<Rightarrow> bytes \<Rightarrow> error + wasmRatchetEncrypted"
  w_ratchet_decrypt :: "nat \<Rightarrow> bytes \<Rightarrow> bytes \<Rightarrow> bytes \<Rightarrow> error + wasmRatchetDecrypted"
  w_ratchet_init_alice :: "nat \<Rightarrow> bytes \<Rightarrow> bytes \<Rightarrow> error + bytes"
  w_ratchet_init_bob :: "nat \<Rightarrow> bytes \<Rightarrow> bytes \<Rightarrow> bytes \<Rightarrow> error + bytes"
  w_generate_sender_cert ::
    "nat \<Rightarrow> string \<Rightarrow> bytes \<Rightarrow> bytes \<Rightarrow> bytes \<Rightarrow> bytes \<Rightarrow> bytes \<Rightarrow> int \<Rightarrow> int \<Rightarrow> error + bytes"
  w_sealed_sender_encrypt :: "nat \<Rightarrow> bytes \<Rightarrow> bytes \<Rightarrow> bytes \<Rightarrow> error + bytes"
  w_sealed_sender_decrypt :: "nat \<Rightarrow> bytes \<Rightarrow> bytes \<Rightarrow> int \<Rightarrow> error + wasmOpened"
  w_pqxdh_initiate :: "nat \<Rightarrow> bytes \<Rightarrow> bytes \<Rightarrow> bytes \<Rightarrow> bytes \<Rightarrow> bytes \<Rightarrow> error + wasmPqxdhInit"
  w_pqxdh_respond ::
    "nat \<Rightarrow> bytes \<times> bytes \<times> bytes \<times> bool \<Rightarrow> bytes \<Rightarrow> bytes \<Rightarrow> bytes \<Rightarrow> bytes \<Rightarrow> error + bytes"
  w_opaque_register_start :: "nat \<Rightarrow> string \<Rightarrow> error + wasmOpaqueStart"
  w_opaque_register_finish ::
    "nat \<Rightarrow> bytes \<Rightarrow> bytes \<Rightarrow> bytes \<Rightarrow> string \<Rightarrow> error + wasmOpaqueFinish"
  w_opaque_login_start :: "nat \<Rightarrow> string \<Rightarrow> string \<Rightarrow> error + wasmOpaqueStart"
  w_opaque_login_finish :: "nat \<Rightarrow> bytes \<Rightarrow> bytes \<Rightarrow> string \<Rightarrow> error + wasmOpaqueLogin"
  w_pow_solve :: "nat \<Rightarrow> bytes \<Rightarrow> int \<Rightarrow> error + wasmPow"
  w_pow_solve_hybrid :: "nat \<Rightarrow> bytes \<Rightarrow> int \<Rightarrow> int \<Rightarrow> int \<Rightarrow> int \<Rightarrow> error + wasmPow"
  w_generate_cek :: "nat \<Rightarrow> error + bytes"
  w_wrap_cek :: "nat \<Rightarrow> bytes \<Rightarrow> bytes \<Rightarrow> error + wasmWrapped"
  w_unwrap_cek :: "bytes \<Rightarrow> bytes \<Rightarrow> bytes \<Rightarrow> error + bytes"
  w_shamir_split :: "nat \<Rightarrow> bytes \<Rightarrow> int \<Rightarrow> int \<Rightarrow> error + bytes list"
  w_shamir_reconstruct :: "bytes list \<Rightarrow> error + bytes"
  w_applock_derive_key :: "bytes \<Rightarrow> bytes \<Rightarrow> int \<Rightarrow> int \<Rightarrow> error + bytes"
  w_devlink_channel_key :: "bytes \<Rightarrow> bytes \<Rightarrow> error + bytes"

section \<open>The environment\<close>

record env =
  date_now :: "nat \<Rightarrow> int"
  rand_byte :: "nat \<Rightarrow> nat \<Rightarrow> 8 word"
  rand_unit :: "nat \<Rightarrow> real"
  rand_uuid :: "nat \<Rightarrow> string"
  fetch :: "nat \<Rightarrow> httpRequest \<Rightarrow> httpResponse option"
  api_base :: string
  aes_enc :: "cryptoKey \<Rightarrow> bytes \<Rightarrow> bytes \<Rightarrow> bytes"
  aes_dec :: "cryptoKey \<Rightarrow> bytes \<Rightarrow> bytes \<Rightarrow> bytes option"
  sha256 :: "bytes \<Rightarrow> bytes"
  hmac256 :: "bytes \<Rightarrow> bytes \<Rightarrow> bytes"
  hkdf256 :: "bytes \<Rightarrow> bytes \<Rightarrow> bytes"
  content_encode :: "ProtoContent \<Rightarrow> bytes"
  content_decode :: "bytes \<Rightarrow> error + ProtoContent"
  envelope_encode :: "ProtoEnvelope \<Rightarrow> bytes"
  envelope_decode :: "bytes \<Rightarrow> error + ProtoEnvelope"
  wasm :: wasmModule
  kt_signing_pub :: string
  time_signing_pub :: string

section \<open>The state of the running client\<close>

record authState =
  au_authenticated :: bool
  au_userId :: "string option"
  au_sessionToken :: "string option"

datatype uiEvent = EvMessage string | EvContacts | EvOutbox | EvKeyAlert

text \<open>Calls the code starts without awaiting them (\<open>void f()\<close>): they are queued here
  and run by the event loop after the handler that started them.\<close>

datatype task =
    TBackup PlainMessage
  | TFanOut IdentityBundle SyncRecord
  | TReauth
  | TReauthFlush
  | TPrekeyUpkeep bool
  | TFlushOutbox
  | TRequestBackgroundSync
  | TCheckAccountKeys "AccountSpk option"
  | TPruneReceived
  | TMigrateBackupIds

record world =
  idb :: privexDB
  keystore :: keystoreState
  auth :: authState
  bundleCache :: "IdentityBundle option"
  certCache :: "(bytes \<times> int) option"
  upkeepRunning :: bool
  serverLowPending :: bool
  flushing :: bool
  draining :: bool
  clockDrift :: int
  clockWarning :: bool
  keyCache :: "(cryptoKey \<times> cryptoKey) option"
  backedContacts :: "string list"
  renewTimer :: "int option"
  renewEnabled :: bool
  renewBackoffMs :: int
  netlog :: "(httpRequest \<times> privexDB) list"
  events :: "uiEvent list"
  tasks :: "task list"
  tick :: nat

type_synonym 'a act = "(world, 'a) prog"

section \<open>Access to the environment\<close>

text \<open>A call to the outside: it may answer or throw, and the next call is another call.\<close>

definition ext :: "(nat \<Rightarrow> error + 'a) \<Rightarrow> 'a act" where
  "ext f = (\<lambda>w. (f (tick w), w\<lparr>tick := Suc (tick w)\<rparr>))"

definition dateNow :: "env \<Rightarrow> int act" where
  "dateNow E = ext (\<lambda>t. Inr (date_now E t))"

definition nowSecs :: "env \<Rightarrow> int act" where
  "nowSecs E = ext (\<lambda>t. Inr (date_now E t div 1000))"

definition getRandomValues :: "env \<Rightarrow> nat \<Rightarrow> bytes act" where
  "getRandomValues E n = ext (\<lambda>t. Inr (map (rand_byte E t) [0..<n]))"

definition mathRandom :: "env \<Rightarrow> real act" where
  "mathRandom E = ext (\<lambda>t. Inr (rand_unit E t))"

definition randomUUID :: "env \<Rightarrow> string act" where
  "randomUUID E = ext (\<lambda>t. Inr (rand_uuid E t))"

text \<open>Reading and writing the local database.\<close>

definition dbGets :: "(privexDB \<Rightarrow> 'a) \<Rightarrow> 'a act" where
  "dbGets f = gets (\<lambda>w. f (idb w))"

definition dbModify :: "(privexDB \<Rightarrow> privexDB) \<Rightarrow> unit act" where
  "dbModify f = modify (\<lambda>w. w\<lparr>idb := f (idb w)\<rparr>)"

definition emit :: "uiEvent \<Rightarrow> unit act" where
  "emit ev = modify (\<lambda>w. w\<lparr>events := events w @ [ev]\<rparr>)"

definition spawn :: "task \<Rightarrow> unit act" where
  "spawn t = modify (\<lambda>w. w\<lparr>tasks := tasks w @ [t]\<rparr>)"

definition settingGet :: "string \<Rightarrow> json option act" where
  "settingGet k = dbGets (\<lambda>d. map_option st_value (tget (settings_tbl d) k))"

definition settingPut :: "string \<Rightarrow> json \<Rightarrow> unit act" where
  "settingPut k v = dbModify (\<lambda>d. d\<lparr>settings_tbl := tput k \<lparr>st_key = k, st_value = v\<rparr> (settings_tbl d)\<rparr>)"

definition settingDelete :: "string \<Rightarrow> unit act" where
  "settingDelete k = dbModify (\<lambda>d. d\<lparr>settings_tbl := tdelete k (settings_tbl d)\<rparr>)"

text \<open>\<open>.catch(() => \<dots>)\<close> on an awaited call.\<close>

definition ignoreErrors :: "unit act \<Rightarrow> unit act" where
  "ignoreErrors m = tryCatch m (\<lambda>_. ret ())"

lemma run_ext [simp, run_simps]: "ext f w = (f (tick w), w\<lparr>tick := Suc (tick w)\<rparr>)"
  by (simp add: ext_def)

lemma run_dateNow [simp, run_simps]: "dateNow E w = (Inr (date_now E (tick w)), w\<lparr>tick := Suc (tick w)\<rparr>)"
  by (simp add: dateNow_def)

lemma run_nowSecs [simp, run_simps]:
  "nowSecs E w = (Inr (date_now E (tick w) div 1000), w\<lparr>tick := Suc (tick w)\<rparr>)"
  by (simp add: nowSecs_def)

lemma run_getRandomValues [simp, run_simps]:
  "getRandomValues E n w = (Inr (map (rand_byte E (tick w)) [0..<n]), w\<lparr>tick := Suc (tick w)\<rparr>)"
  by (simp add: getRandomValues_def)

lemma run_mathRandom [simp, run_simps]:
  "mathRandom E w = (Inr (rand_unit E (tick w)), w\<lparr>tick := Suc (tick w)\<rparr>)"
  by (simp add: mathRandom_def)

lemma run_randomUUID [simp, run_simps]:
  "randomUUID E w = (Inr (rand_uuid E (tick w)), w\<lparr>tick := Suc (tick w)\<rparr>)"
  by (simp add: randomUUID_def)

lemma run_dbGets [simp, run_simps]: "dbGets f w = (Inr (f (idb w)), w)"
  by (simp add: dbGets_def)

lemma run_dbModify [simp, run_simps]: "dbModify f w = (Inr (), w\<lparr>idb := f (idb w)\<rparr>)"
  by (simp add: dbModify_def)

lemma run_emit [simp, run_simps]: "emit ev w = (Inr (), w\<lparr>events := events w @ [ev]\<rparr>)"
  by (simp add: emit_def)

lemma run_spawn [simp, run_simps]: "spawn t w = (Inr (), w\<lparr>tasks := tasks w @ [t]\<rparr>)"
  by (simp add: spawn_def)

lemma run_settingGet [simp, run_simps]:
  "settingGet k w = (Inr (map_option st_value (tget (settings_tbl (idb w)) k)), w)"
  by (simp add: settingGet_def)

lemma run_settingPut [simp, run_simps]:
  "settingPut k v w = (Inr (), w\<lparr>idb := (idb w)
     \<lparr>settings_tbl := tput k \<lparr>st_key = k, st_value = v\<rparr> (settings_tbl (idb w))\<rparr>\<rparr>)"
  by (simp add: settingPut_def)

lemma run_settingDelete [simp, run_simps]:
  "settingDelete k w = (Inr (), w\<lparr>idb := (idb w)\<lparr>settings_tbl := tdelete k (settings_tbl (idb w))\<rparr>\<rparr>)"
  by (simp add: settingDelete_def)

end
