(* ===== verification/Codec.thy ===== *)
theory Codec
  imports Types
begin

text \<open>
  The pure encodings of the client: identifiers (\<^verbatim>\<open>crypto/contact-crypto.ts\<close>,
  \<^verbatim>\<open>services/qr.ts\<close>), the byte layouts that are signed or handed to the crypto module
  (\<^verbatim>\<open>services/time-sync.ts\<close>, \<^verbatim>\<open>crypto/onboarding-crypto.ts\<close>), the padding of
  \<^verbatim>\<open>services/device-sync.ts\<close>, the safety code, the short authentication strings of
  \<^verbatim>\<open>services/devicelink.ts\<close> and \<^verbatim>\<open>services/recovery.ts\<close>, and the transfer token.
\<close>

unbundle bit_operations_syntax

section \<open>Identifiers\<close>

definition isHex :: "char \<Rightarrow> bool" where
  "isHex c \<longleftrightarrow> isHexLower c \<or> 65 \<le> code c \<and> code c \<le> 70"

definition isValidPxId :: "string \<Rightarrow> bool" where
  "isValidPxId s \<longleftrightarrow> take 3 s = ''px_'' \<and> length s = 35 \<and> list_all isHexLower (drop 3 s)"

definition PX_ID_LEN :: nat where
  "PX_ID_LEN = 35"

text \<open>The scanned payload is anything; only a string can be an identifier.\<close>

definition parseScannedPxId :: "json \<Rightarrow> string option" where
  "parseScannedPxId raw =
     (case raw of
        JStr r \<Rightarrow> (let s = trim r in
          if length s \<noteq> PX_ID_LEN then None else if isValidPxId s then Some s else None)
      | _ \<Rightarrow> None)"

section \<open>Signing inputs\<close>

definition timeSigningInput :: "int \<Rightarrow> int \<Rightarrow> string \<Rightarrow> bytes" where
  "timeSigningInput serverTs queuedAt messageId =
     be 8 serverTs @ be 8 queuedAt @ textEncode messageId"

definition AUTH_CONTEXT_V1 :: string where
  "AUTH_CONTEXT_V1 = ''privex-auth-v1''"

definition challengeSigningInput :: "bytes \<Rightarrow> string \<Rightarrow> int \<Rightarrow> bytes" where
  "challengeSigningInput challenge userId timestamp =
     textEncode AUTH_CONTEXT_V1 @ challenge @ textEncode userId @ be 8 timestamp"

definition bincodeVec :: "bytes \<Rightarrow> bytes" where
  "bincodeVec p = le 8 (int (length p)) @ p"

definition bincodeLoginServerResponse :: "bytes \<Rightarrow> bytes \<Rightarrow> bytes \<Rightarrow> bytes" where
  "bincodeLoginServerResponse credentialResponse envelope envelopeMac =
     concat (map bincodeVec [credentialResponse, envelope, envelopeMac])"

section \<open>Padding of sync copies\<close>

definition PAD_BOUNDARY :: nat where
  "PAD_BOUNDARY = 1024"

definition padSize :: "nat \<Rightarrow> nat" where
  "padSize n = max PAD_BOUNDARY ((n + PAD_BOUNDARY - 1) div PAD_BOUNDARY * PAD_BOUNDARY)"

definition pad :: "bytes \<Rightarrow> bytes" where
  "pad d = (let size = padSize (4 + length d) in
     le 4 (int (length d)) @ d @ replicate (size - (4 + length d)) 0)"

text \<open>\<open>getUint32(0, true)\<close> throws a \<open>RangeError\<close> on fewer than four bytes.\<close>

definition unpad :: "bytes \<Rightarrow> error + bytes" where
  "unpad padded =
     (if length padded < 4 then Inl (JsError ''RangeError'')
      else let len = nat (leVal (take 4 padded)) in
        if length padded < 4 + len then Inl (JsError ''bad sync padding'')
        else Inr (subarray padded 4 (4 + len)))"

section \<open>Key transparency path\<close>

text \<open>\<open>out.set(hash, i * 33 + 1)\<close> overwrites what follows when a hash is longer than 32
  bytes and leaves zeros when it is shorter; past the end of the array it throws.\<close>

fun flattenFrom :: "nat \<Rightarrow> (bool \<times> bytes) list \<Rightarrow> bytes \<Rightarrow> error + bytes" where
  "flattenFrom i [] out = Inr out"
| "flattenFrom i ((left, h) # ns) out =
     bindE (u8set (out[i * 33 := (if left then 1 else 0)]) h (i * 33 + 1)) (flattenFrom (Suc i) ns)"

definition flattenPath :: "(bool \<times> string) list \<Rightarrow> error + bytes" where
  "flattenPath path =
     flattenFrom 0 (map (\<lambda>(l, h). (l, fromHex h)) path) (replicate (length path * 33) 0)"

section \<open>Safety code\<close>

fun compareBytes :: "bytes \<Rightarrow> bytes \<Rightarrow> int" where
  "compareBytes [] b = 0 - int (length b)"
| "compareBytes a [] = int (length a)"
| "compareBytes (x # a) (y # b) = (if x \<noteq> y then uint x - uint y else compareBytes a b)"

definition byteAt :: "bytes \<Rightarrow> nat \<Rightarrow> nat" where
  "byteAt bs i = (if i < length bs then unat (bs ! i) else 0)"

definition codeGroup :: "bytes \<Rightarrow> nat \<Rightarrow> string" where
  "codeGroup material g =
     (let o1 = g * 5;
          n = byteAt material o1 * 2 ^ 32 + byteAt material (o1 + 1) * 2 ^ 24
            + byteAt material (o1 + 2) * 2 ^ 16 + byteAt material (o1 + 3) * 2 ^ 8
            + byteAt material (o1 + 4)
      in padStart 5 (CHR ''0'') (showNat (n mod 100000)))"

fun joinWith :: "string \<Rightarrow> string list \<Rightarrow> string" where
  "joinWith sep [] = []"
| "joinWith sep [x] = x"
| "joinWith sep (x # xs) = x @ sep @ joinWith sep xs"

definition safetyCode :: "env \<Rightarrow> bytes \<Rightarrow> bytes \<Rightarrow> error + string" where
  "safetyCode E myIkEd theirIkEd =
     (let (lo, hi) = (if compareBytes myIkEd theirIkEd \<le> 0 then (myIkEd, theirIkEd) else (theirIkEd, myIkEd));
          d0 = sha256 E (lo @ hi);
          d1 = sha256 E d0
      in bindE (u8set (replicate 40 0) d0 0) (\<lambda>m0.
         bindE (u8set m0 (take 8 d1) 32) (\<lambda>material.
         Inr (joinWith '' '' (map (codeGroup material) [0..<8])))))"

section \<open>Short authentication strings\<close>

definition sasWord :: "bytes \<Rightarrow> 32 word" where
  "sasWord h =
     push_bit 24 (word_of_nat (byteAt h 0)) OR push_bit 16 (word_of_nat (byteAt h 1)) OR
     push_bit 8 (word_of_nat (byteAt h 2)) OR word_of_nat (byteAt h 3)"

definition sas6 :: "env \<Rightarrow> bytes \<Rightarrow> string" where
  "sas6 E buf = padStart 6 (CHR ''0'') (showNat (unat (sasWord (sha256 E buf)) mod 1000000))"

definition computeSAS :: "env \<Rightarrow> bytes \<Rightarrow> bytes \<Rightarrow> string" where
  "computeSAS E pubA pubB =
     (let (x, y) = (if toHex pubA \<le> toHex pubB then (pubA, pubB) else (pubB, pubA))
      in padStart 6 (CHR ''0'') (showNat (unat (sasWord (sha256 E (x @ y))) mod 1000000)))"

section \<open>Recovery code and transfer token\<close>

definition RK_PUB_LEN :: nat where "RK_PUB_LEN = 32"
definition RECOVERY_ID_LEN :: nat where "RECOVERY_ID_LEN = 16"

definition parseRecoveryCode :: "string \<Rightarrow> error + (string \<times> bytes)" where
  "parseRecoveryCode c =
     (let bs = fromHex (trim c) in
      if length bs \<noteq> RECOVERY_ID_LEN + RK_PUB_LEN then Inl (JsError ''That recovery code isn't valid.'')
      else Inr (toHex (take RECOVERY_ID_LEN bs), drop RECOVERY_ID_LEN bs))"

definition recoveryCodeSas :: "env \<Rightarrow> string \<Rightarrow> string" where
  "recoveryCodeSas E c = sas6 E (fromHex (trim c))"

definition toLower :: "string \<Rightarrow> string" where
  "toLower s = map (\<lambda>c. if 65 \<le> code c \<and> code c \<le> 90 then char_of (code c + 32) else c) s"

record QrPayload =
  qr_rid :: string
  qr_pk :: string

definition encodeTransferToken :: "QrPayload \<Rightarrow> string" where
  "encodeTransferToken qr = qr_rid qr @ ''.'' @ qr_pk qr"

definition lowerHexN :: "nat \<Rightarrow> string \<Rightarrow> bool" where
  "lowerHexN n s \<longleftrightarrow> length s = n \<and> list_all isHexLower s"

definition parseTransferToken :: "string \<Rightarrow> QrPayload option" where
  "parseTransferToken s =
     (let t = trim s in
      if length t = 97 \<and> list_all isHex (take 32 t) \<and> t ! 32 = CHR ''.'' \<and> list_all isHex (drop 33 t)
      then Some \<lparr>qr_rid = toLower (take 32 t), qr_pk = toLower (drop 33 t)\<rparr>
      else case json_parse t of
        None \<Rightarrow> None
      | Some p \<Rightarrow>
          (case (jint (jget ''v'' p), jstr (jget ''rid'' p), jstr (jget ''pk'' p)) of
             (Some v, Some rid, Some pk) \<Rightarrow>
               if v = 1 \<and> lowerHexN 32 rid \<and> lowerHexN 64 pk then Some \<lparr>qr_rid = rid, qr_pk = pk\<rparr> else None
           | _ \<Rightarrow> None))"

section \<open>Properties\<close>

lemma append_eq_lengths: "length a = length c \<Longrightarrow> a @ b = c @ d \<longleftrightarrow> a = c \<and> b = d"
  by (auto simp: append_eq_append_conv)

text \<open>The signed delivery time binds its three fields: two deliveries with the same
  signing input have the same server time, the same queue time and the same message id,
  as long as the times are unsigned 64-bit numbers.\<close>

theorem timeSigningInput_inject:
  assumes "timeSigningInput ts q i = timeSigningInput ts' q' i'"
    and "0 \<le> ts" "ts < 2 ^ 64" "0 \<le> ts'" "ts' < 2 ^ 64"
    and "0 \<le> q" "q < 2 ^ 64" "0 \<le> q'" "q' < 2 ^ 64"
  shows "ts = ts' \<and> q = q' \<and> i = i'"
proof -
  have "be 8 ts = be 8 ts'" "be 8 q = be 8 q'" "i = i'"
    using assms(1) by (simp_all add: timeSigningInput_def append_eq_lengths)
  then show ?thesis using assms by (auto intro: be_inject [where n = 8])
qed

theorem timeSigningInput_inject_witness:
  "timeSigningInput 1700000000 1699999999 ''m1'' = timeSigningInput 1700000000 1699999999 ''m1'' \<and>
   (1700000000 :: int) = 1700000000 \<and> (1699999999 :: int) = 1699999999 \<and> ''m1'' = ''m1''"
  using timeSigningInput_inject [of 1700000000 1699999999 "''m1''" 1700000000 1699999999 "''m1''"] by simp

text \<open>The auth challenge signature binds challenge, account and time: for challenges of
  one length and accounts of one length (px ids have 35 characters), equal signing inputs
  have equal challenge, user id and 64-bit timestamp, and every signing input starts with
  the domain separation context.\<close>

theorem challengeSigningInput_inject:
  assumes "challengeSigningInput c u t = challengeSigningInput c' u' t'"
    and "length c = length c'" and "length u = length u'"
    and "0 \<le> t" "t < 2 ^ 64" "0 \<le> t'" "t' < 2 ^ 64"
  shows "c = c' \<and> u = u' \<and> t = t' \<and>
         take (length AUTH_CONTEXT_V1) (challengeSigningInput c u t) = textEncode AUTH_CONTEXT_V1"
proof -
  have "c = c'" "u = u'" "be 8 t = be 8 t'"
    using assms(1-3) by (simp_all add: challengeSigningInput_def append_eq_lengths)
  moreover have "take (length AUTH_CONTEXT_V1) (challengeSigningInput c u t) = textEncode AUTH_CONTEXT_V1"
    by (simp add: challengeSigningInput_def)
  ultimately show ?thesis using assms by (auto intro: be_inject [where n = 8])
qed

theorem challengeSigningInput_inject_witness:
  "challengeSigningInput [1, 2] ''px_a'' 5 = challengeSigningInput [1, 2] ''px_a'' 5 \<and>
   take (length AUTH_CONTEXT_V1) (challengeSigningInput [1, 2] ''px_a'' 5) = textEncode AUTH_CONTEXT_V1"
  using challengeSigningInput_inject [of "[1, 2]" "''px_a''" 5 "[1, 2]" "''px_a''" 5] by simp

text \<open>The bincode reader the crypto module applies: a little-endian 64-bit length, then
  that many bytes.\<close>

definition bincodeRead :: "bytes \<Rightarrow> (bytes \<times> bytes) option" where
  "bincodeRead bs =
     (if length bs < 8 then None
      else let n = nat (leVal (take 8 bs)) in
        if length bs < 8 + n then None else Some (take n (drop 8 bs), drop (8 + n) bs))"

lemma bincodeRead_vec:
  assumes "int (length p) < 2 ^ 64"
  shows "bincodeRead (bincodeVec p @ r) = Some (p, r)"
proof -
  have "leVal (le 8 (int (length p))) = int (length p)"
    using assms by (simp add: leVal_le)
  then show ?thesis by (simp add: bincodeRead_def bincodeVec_def Let_def)
qed

text \<open>The OPAQUE login reply is handed over losslessly: reading three length-prefixed
  vectors from the bincode bytes gives back credential response, envelope and MAC, with
  nothing left over.\<close>

theorem bincodeLoginServerResponse_roundtrip:
  assumes "int (length c) < 2 ^ 64" "int (length e) < 2 ^ 64" "int (length m) < 2 ^ 64"
  shows "\<exists>r1 r2. bincodeRead (bincodeLoginServerResponse c e m) = Some (c, r1) \<and>
           bincodeRead r1 = Some (e, r2) \<and> bincodeRead r2 = Some (m, [])"
  using assms bincodeRead_vec [of m "[]"] by (simp add: bincodeLoginServerResponse_def bincodeRead_vec)

theorem bincodeLoginServerResponse_roundtrip_witness:
  "\<exists>r1 r2. bincodeRead (bincodeLoginServerResponse [1, 2] [] [3]) = Some ([1, 2], r1) \<and>
     bincodeRead r1 = Some ([], r2) \<and> bincodeRead r2 = Some ([3], [])"
  by (rule bincodeLoginServerResponse_roundtrip) simp_all

subsection \<open>Padding\<close>

lemma padSize_ge: "n \<le> padSize n" "padSize n mod 1024 = 0" "1024 \<le> padSize n"
proof -
  have "(n + 1023) div 1024 * 1024 + (n + 1023) mod 1024 = n + 1023" by simp
  moreover have "(n + 1023) mod 1024 < 1024" by simp
  ultimately have "n \<le> (n + 1023) div 1024 * 1024" by linarith
  then show "n \<le> padSize n" by (simp add: padSize_def PAD_BOUNDARY_def le_max_iff_disj add.commute)
  show "padSize n mod 1024 = 0" by (simp add: padSize_def PAD_BOUNDARY_def max_def)
  show "1024 \<le> padSize n" by (simp add: padSize_def PAD_BOUNDARY_def)
qed

lemma length_pad: "length (pad d) = padSize (4 + length d)"
  using padSize_ge(1) [of "4 + length d"] by (simp add: pad_def Let_def)

lemma unpad_of_pad:
  assumes "int (length d) < 2 ^ 32"
  shows "unpad (pad d) = Inr d"
proof -
  have len: "leVal (take 4 (pad d)) = int (length d)"
    using assms by (simp add: pad_def Let_def leVal_le)
  have ge: "4 + length d \<le> length (pad d)" using padSize_ge(1) [of "4 + length d"] by (simp add: length_pad)
  have "subarray (pad d) 4 (4 + length d) = d"
    by (simp add: subarray_def pad_def Let_def)
  then show ?thesis using len ge by (simp add: unpad_def Let_def)
qed

text \<open>Sync copies are padded to a multiple of 1024 bytes, at least 1024, so that their
  size shows only the bucket, and unpadding gives the record back, for records below
  4 GiB.\<close>

theorem unpad_pad:
  assumes "int (length d) < 2 ^ 32"
  shows "unpad (pad d) = Inr d \<and> length (pad d) mod 1024 = 0 \<and> 1024 \<le> length (pad d)"
  using unpad_of_pad [OF assms] padSize_ge(2,3) [of "4 + length d"] by (simp add: length_pad)

theorem unpad_pad_witness: "unpad (pad [7, 8, 9]) = Inr [7, 8, 9]"
  by (rule conjunct1 [OF unpad_pad]) simp

subsection \<open>Symmetric codes\<close>

lemma compareBytes_Nil: "compareBytes b [] = int (length b)"
  by (cases b) simp_all

lemma compareBytes_swap: "compareBytes b a = - compareBytes a b"
  by (induction a b rule: compareBytes.induct) (auto simp: compareBytes_Nil)

lemma compareBytes_eq: "compareBytes a b = 0 \<longleftrightarrow> a = b"
  by (induction a b rule: compareBytes.induct) (auto simp: word_uint_eq_iff)

lemma sorted_pair:
  "(if compareBytes a b \<le> 0 then (a, b) else (b, a)) = (if compareBytes b a \<le> 0 then (b, a) else (a, b))"
  using compareBytes_swap [of a b] compareBytes_eq [of a b] by auto

definition isFiveDigits :: "string \<Rightarrow> bool" where
  "isFiveDigits s \<longleftrightarrow> length s = 5 \<and> list_all isDigit s"

lemma padStart_digits: "list_all isDigit s \<Longrightarrow> list_all isDigit (padStart n (CHR ''0'') s)"
  by (auto simp: padStart_def list_all_iff isDigit_def)

lemma showNat_all_digits: "list_all isDigit (showNat n)"
  by (simp add: list_all_iff showNat_digits)

lemma codeGroup_digits: "isFiveDigits (codeGroup m g)"
  using length_showNat [of _ 5]
  by (simp add: codeGroup_def Let_def isFiveDigits_def length_padStart padStart_digits showNat_all_digits)

text \<open>The two sides of a conversation see the same safety code, whoever computes it, and
  (with a 32-byte SHA-256) it is eight groups of five decimal digits separated by
  spaces.\<close>

theorem safetyCode_symmetric:
  assumes "\<And>x. length (sha256 E x) = 32"
  shows "safetyCode E a b = safetyCode E b a \<and>
         (\<exists>gs. safetyCode E a b = Inr (joinWith '' '' gs) \<and> length gs = 8 \<and> list_all isFiveDigits gs)"
proof
  show "safetyCode E a b = safetyCode E b a"
    unfolding safetyCode_def sorted_pair [of a b] ..
  obtain lo hi where "(if compareBytes a b \<le> 0 then (a, b) else (b, a)) = (lo, hi)" by fastforce
  then have "\<exists>m. safetyCode E a b = Inr (joinWith '' '' (map (codeGroup m) [0..<8]))"
    using assms by (auto simp: safetyCode_def Let_def u8set_def)
  then obtain m where "safetyCode E a b = Inr (joinWith '' '' (map (codeGroup m) [0..<8]))" ..
  then show "\<exists>gs. safetyCode E a b = Inr (joinWith '' '' gs) \<and> length gs = 8 \<and> list_all isFiveDigits gs"
    by (intro exI [where x = "map (codeGroup m) [0..<8]"]) (simp add: list_all_iff codeGroup_digits)
qed

text \<open>Both devices of a transfer show the same six digits exactly when they agree on the
  ephemeral keys in either order: the short authentication string does not depend on the
  order, and is always six decimal digits.\<close>

theorem computeSAS_symmetric:
  "computeSAS E a b = computeSAS E b a \<and> length (computeSAS E a b) = 6 \<and> list_all isDigit (computeSAS E a b)"
proof -
  have "(if toHex a \<le> toHex b then (a, b) else (b, a)) = (if toHex b \<le> toHex a then (b, a) else (a, b))"
    by (auto dest: antisym)
  then show ?thesis
    using length_showNat [of _ 6]
    by (simp add: computeSAS_def Let_def split_beta length_padStart padStart_digits showNat_all_digits)
qed

subsection \<open>Transfer token and identifiers\<close>

lemma isHexLower_props: "isHexLower c \<Longrightarrow> isHex c \<and> \<not> is_space c"
  by (simp add: isHex_def isHexLower_not_space)

lemma toLower_hex: "list_all isHexLower s \<Longrightarrow> toLower s = s"
  by (induction s) (auto simp: toLower_def isHexLower_def)

text \<open>A transfer token survives the trip through the QR code or the clipboard: parsing
  the encoded token gives the payload back, for the rendezvous ids and keys the exporter
  makes.\<close>

theorem parseTransferToken_encode:
  assumes "lowerHexN 32 (qr_rid qr)" "lowerHexN 64 (qr_pk qr)"
  shows "parseTransferToken (encodeTransferToken qr) = Some qr"
proof -
  let ?t = "qr_rid qr @ ''.'' @ qr_pk qr"
  have all: "list_all isHexLower (qr_rid qr)" "list_all isHexLower (qr_pk qr)"
    and len: "length (qr_rid qr) = 32" "length (qr_pk qr) = 64"
    using assms by (simp_all add: lowerHexN_def)
  have "trim ?t = ?t"
    using all by (intro trim_no_space) (auto simp: list_all_iff is_space_def isHexLower_def)
  moreover have "list_all isHex (qr_rid qr)" "list_all isHex (qr_pk qr)"
    using all by (auto simp: list_all_iff isHex_def)
  ultimately show ?thesis
    using all len by (simp add: parseTransferToken_def encodeTransferToken_def Let_def nth_append toLower_hex)
qed

theorem parseTransferToken_encode_witness:
  "parseTransferToken (encodeTransferToken
     \<lparr>qr_rid = replicate 32 CHR ''a'', qr_pk = replicate 64 CHR ''0''\<rparr>)
   = Some \<lparr>qr_rid = replicate 32 CHR ''a'', qr_pk = replicate 64 CHR ''0''\<rparr>"
  by (rule parseTransferToken_encode) (simp_all add: lowerHexN_def isHexLower_def list_all_iff)

lemma parseScannedPxId_valid:
  "parseScannedPxId raw = Some s \<longleftrightarrow> (\<exists>r. raw = JStr r \<and> s = trim r \<and> isValidPxId s)"
  by (cases raw) (auto simp: parseScannedPxId_def Let_def PX_ID_LEN_def isValidPxId_def)

end
