(* ===== verification/AtRest.thy ===== *)
theory AtRest
  imports Types "HOL-Library.Product_Lexorder"
begin

text \<open>
  Storage at rest: the keystore (\<^verbatim>\<open>crypto/keystore.ts\<close>) and the encrypted stores of
  \<^verbatim>\<open>db/encrypted-db.ts\<close>. A field \<open>*_enc\<close> holds a random 12-byte IV and the AES-GCM
  ciphertext; the master key is held in memory while the app lock is open, or is the
  stored handle when there is no lock.
\<close>

section \<open>Keystore\<close>

text \<open>WebCrypto accepts raw AES keys of 16, 24 or 32 bytes.\<close>

definition importDataKey :: "bytes \<Rightarrow> cryptoKey act" where
  "importDataKey bs =
     (if length bs \<in> {16, 24, 32} then ret bs else throw (JsError ''DataError''))"

definition ksGets :: "(keystoreState \<Rightarrow> 'a) \<Rightarrow> 'a act" where
  "ksGets f = gets (\<lambda>w. f (keystore w))"

definition ksModify :: "(keystoreState \<Rightarrow> keystoreState) \<Rightarrow> unit act" where
  "ksModify f = modify (\<lambda>w. w\<lparr>keystore := f (keystore w)\<rparr>)"

definition isUnlocked :: "bool act" where
  "isUnlocked = ksGets (\<lambda>k. memKey k \<noteq> None)"

definition getLockMeta :: "LockMeta option act" where
  "getLockMeta = ksGets lockMeta"

definition isLockEnabled :: "bool act" where
  "isLockEnabled = ksGets (\<lambda>k. lockMeta k \<noteq> None)"

definition getMasterKey :: "env \<Rightarrow> cryptoKey act" where
  "getMasterKey E = await (ksGets id) (\<lambda>k.
     case memKey k of Some key \<Rightarrow> ret key | None \<Rightarrow>
     if lockMeta k \<noteq> None then throw (JsError ''locked'') else
     case masterHandle k of Some key \<Rightarrow> ret key | None \<Rightarrow>
     await (getRandomValues E 32) (\<lambda>key.
     andThen (ksModify (\<lambda>k. k\<lparr>masterHandle := Some key\<rparr>)) (ret key)))"

definition hasMasterKey :: "bool act" where
  "hasMasterKey = ksGets (\<lambda>k. memKey k \<noteq> None \<or> lockMeta k \<noteq> None \<or> masterHandle k \<noteq> None)"

definition clearMasterKey :: "unit act" where
  "clearMasterKey = ksModify (\<lambda>k. k\<lparr>memKey := None, memKeyBytes := None, masterHandle := None, lockMeta := None\<rparr>)"

definition wipeKeystore :: "unit act" where
  "wipeKeystore = ksModify (\<lambda>k. \<lparr>memKey = None, memKeyBytes = None, masterHandle = None, lockMeta = None\<rparr>)"

definition setUnlockedKey :: "bytes \<Rightarrow> unit act" where
  "setUnlockedKey bs =
     andThen (ksModify (\<lambda>k. k\<lparr>memKeyBytes := Some bs\<rparr>))
       (await (importDataKey bs) (\<lambda>key. ksModify (\<lambda>k. k\<lparr>memKey := Some key\<rparr>)))"

definition unlockedKeyBytes :: "bytes option act" where
  "unlockedKeyBytes = ksGets memKeyBytes"

definition lockNow :: "unit act" where
  "lockNow = ksModify (\<lambda>k. k\<lparr>memKey := None, memKeyBytes := None\<rparr>)"

definition setLockMeta :: "LockMeta \<Rightarrow> unit act" where
  "setLockMeta m = ksModify (\<lambda>k. k\<lparr>lockMeta := Some m\<rparr>)"

definition clearLockMeta :: "unit act" where
  "clearLockMeta = ksModify (\<lambda>k. k\<lparr>lockMeta := None\<rparr>)"

definition clearNoLockHandle :: "unit act" where
  "clearNoLockHandle = ksModify (\<lambda>k. k\<lparr>masterHandle := None\<rparr>)"

definition setNoLockHandle :: "bytes \<Rightarrow> unit act" where
  "setNoLockHandle bs = await (importDataKey bs) (\<lambda>key. ksModify (\<lambda>k. k\<lparr>masterHandle := Some key\<rparr>))"

lemma run_ks [simp, run_simps]:
  "ksGets f w = (Inr (f (keystore w)), w)"
  "ksModify g w = (Inr (), w\<lparr>keystore := g (keystore w)\<rparr>)"
  by (simp_all add: ksGets_def ksModify_def)

section \<open>AES-GCM fields\<close>

definition IV_LEN :: nat where "IV_LEN = 12"

definition aesEncrypt :: "env \<Rightarrow> cryptoKey \<Rightarrow> bytes \<Rightarrow> bytes act" where
  "aesEncrypt E key plaintext =
     await (getRandomValues E IV_LEN) (\<lambda>iv. ret (iv @ aes_enc E key iv plaintext))"

definition aesDecrypt :: "env \<Rightarrow> cryptoKey \<Rightarrow> bytes \<Rightarrow> bytes act" where
  "aesDecrypt E key blob =
     (case aes_dec E key (take IV_LEN blob) (drop IV_LEN blob) of
        None \<Rightarrow> throw (JsError ''OperationError'')
      | Some p \<Rightarrow> ret p)"

definition encryptString :: "env \<Rightarrow> cryptoKey \<Rightarrow> string \<Rightarrow> bytes act" where
  "encryptString E key v = aesEncrypt E key (textEncode v)"

definition decryptString :: "env \<Rightarrow> cryptoKey \<Rightarrow> bytes \<Rightarrow> string act" where
  "decryptString E key blob = await (aesDecrypt E key blob) (\<lambda>p. ret (textDecode p))"

text \<open>What a stored field reads as under a key.\<close>

definition reads :: "env \<Rightarrow> cryptoKey \<Rightarrow> bytes \<Rightarrow> bytes option" where
  "reads E key blob = aes_dec E key (take IV_LEN blob) (drop IV_LEN blob)"

text \<open>AES-GCM decrypts what it encrypted.\<close>

definition aes_correct :: "env \<Rightarrow> bool" where
  "aes_correct E \<longleftrightarrow> (\<forall>k iv p. aes_dec E k iv (aes_enc E k iv p) = Some p)"

definition ivAt :: "env \<Rightarrow> nat \<Rightarrow> bytes" where
  "ivAt E t = map (rand_byte E t) [0..<IV_LEN]"

lemma length_ivAt [simp]: "length (ivAt E t) = 12"
  by (simp add: ivAt_def IV_LEN_def)

lemma run_aesEncrypt [simp, run_simps]:
  "aesEncrypt E key p w = (Inr (ivAt E (tick w) @ aes_enc E key (ivAt E (tick w)) p), w\<lparr>tick := Suc (tick w)\<rparr>)"
  by (simp add: aesEncrypt_def ivAt_def)

lemma run_aesDecrypt [run_simps]:
  "aesDecrypt E key blob w =
     ((case reads E key blob of None \<Rightarrow> Inl (JsError ''OperationError'') | Some p \<Rightarrow> Inr p), w)"
  by (simp add: aesDecrypt_def reads_def split: option.splits)

lemma run_encryptString [simp, run_simps]:
  "encryptString E key v w =
     (Inr (ivAt E (tick w) @ aes_enc E key (ivAt E (tick w)) (textEncode v)), w\<lparr>tick := Suc (tick w)\<rparr>)"
  by (simp add: encryptString_def)

lemma run_decryptString [run_simps]:
  "decryptString E key blob w =
     ((case reads E key blob of None \<Rightarrow> Inl (JsError ''OperationError'') | Some p \<Rightarrow> Inr (textDecode p)), w)"
  by (simp add: decryptString_def run_aesDecrypt await_def split: option.splits)

lemma reads_fresh [simp]:
  "aes_correct E \<Longrightarrow> reads E key (ivAt E t @ aes_enc E key (ivAt E t) p) = Some p"
  by (simp add: reads_def aes_correct_def IV_LEN_def)

section \<open>Re-keying\<close>

definition recrypt :: "env \<Rightarrow> cryptoKey \<Rightarrow> cryptoKey \<Rightarrow> bytes \<Rightarrow> bytes act" where
  "recrypt E oldKey newKey blob = await (aesDecrypt E oldKey blob) (aesEncrypt E newKey)"

definition recryptOpt :: "env \<Rightarrow> cryptoKey \<Rightarrow> cryptoKey \<Rightarrow> bytes option \<Rightarrow> bytes option act" where
  "recryptOpt E oldKey newKey v =
     (case v of None \<Rightarrow> ret None | Some b \<Rightarrow> await (recrypt E oldKey newKey b) (\<lambda>b'. ret (Some b')))"

definition rekeyIdentity :: "env \<Rightarrow> cryptoKey \<Rightarrow> cryptoKey \<Rightarrow> IdentityRow \<Rightarrow> unit act" where
  "rekeyIdentity E ok nk r =
     (case id_priv_bundle_enc r of None \<Rightarrow> ret ()
      | Some b \<Rightarrow> await (recrypt E ok nk b) (\<lambda>b'.
          dbModify (identity_tbl_update (tupdate (id_user_id r) (\<lambda>x. x\<lparr>id_priv_bundle_enc := Some b'\<rparr>)))))"

definition rekeyMessage :: "env \<Rightarrow> cryptoKey \<Rightarrow> cryptoKey \<Rightarrow> MessageRow \<Rightarrow> unit act" where
  "rekeyMessage E ok nk r =
     await (recrypt E ok nk (m_content_enc r)) (\<lambda>c.
     await (recryptOpt E ok nk (m_preview_enc r)) (\<lambda>p.
     dbModify (messages_tbl_update (tupdate (m_msg_id r) (\<lambda>x.
       (case p of None \<Rightarrow> x\<lparr>m_content_enc := c\<rparr> | Some p' \<Rightarrow> x\<lparr>m_content_enc := c, m_preview_enc := Some p'\<rparr>))))))"

definition rekeyContact :: "env \<Rightarrow> cryptoKey \<Rightarrow> cryptoKey \<Rightarrow> ContactRow \<Rightarrow> unit act" where
  "rekeyContact E ok nk r =
     (case c_display_name_enc r of None \<Rightarrow> ret ()
      | Some b \<Rightarrow> await (recrypt E ok nk b) (\<lambda>b'.
          dbModify (contacts_tbl_update (tupdate (c_px_id r) (\<lambda>x. x\<lparr>c_display_name_enc := Some b'\<rparr>)))))"

definition rekeySession :: "env \<Rightarrow> cryptoKey \<Rightarrow> cryptoKey \<Rightarrow> SessionRow \<Rightarrow> unit act" where
  "rekeySession E ok nk r =
     await (recrypt E ok nk (se_ratchet_state_enc r)) (\<lambda>c.
     await (recryptOpt E ok nk (se_pqxdh_init_enc r)) (\<lambda>p.
     dbModify (sessions_tbl_update (tupdate (se_session_id r) (\<lambda>x.
       (case p of None \<Rightarrow> x\<lparr>se_ratchet_state_enc := c\<rparr>
        | Some p' \<Rightarrow> x\<lparr>se_ratchet_state_enc := c, se_pqxdh_init_enc := Some p'\<rparr>))))))"

definition rekeyBlob :: "env \<Rightarrow> cryptoKey \<Rightarrow> cryptoKey \<Rightarrow> BlobRow \<Rightarrow> unit act" where
  "rekeyBlob E ok nk r =
     await (recrypt E ok nk (bl_cek_enc r)) (\<lambda>c.
     await (recryptOpt E ok nk (bl_filename_enc r)) (\<lambda>p.
     dbModify (blobs_tbl_update (tupdate (bl_blob_id r) (\<lambda>x.
       (case p of None \<Rightarrow> x\<lparr>bl_cek_enc := c\<rparr> | Some p' \<Rightarrow> x\<lparr>bl_cek_enc := c, bl_filename_enc := Some p'\<rparr>))))))"

definition rekeyGroup :: "env \<Rightarrow> cryptoKey \<Rightarrow> cryptoKey \<Rightarrow> GroupRow \<Rightarrow> unit act" where
  "rekeyGroup E ok nk r =
     await (recryptOpt E ok nk (g_name_enc r)) (\<lambda>n.
     await (recryptOpt E ok nk (g_mls_state_enc r)) (\<lambda>s.
     whenM (n \<noteq> None \<or> s \<noteq> None)
       (dbModify (groups_tbl_update (tupdate (g_group_id r) (\<lambda>x.
          x\<lparr>g_name_enc := (if n = None then g_name_enc x else n),
            g_mls_state_enc := (if s = None then g_mls_state_enc x else s)\<rparr>))))))"

definition rekeyAllEncryptedFields :: "env \<Rightarrow> cryptoKey \<Rightarrow> cryptoKey \<Rightarrow> unit act" where
  "rekeyAllEncryptedFields E oldKey newKey =
     await (dbGets (\<lambda>d. toArray (identity_tbl d))) (\<lambda>rs.
     andThen (forEach rs (rekeyIdentity E oldKey newKey)) (
     await (dbGets (\<lambda>d. toArray (messages_tbl d))) (\<lambda>rs.
     andThen (forEach rs (rekeyMessage E oldKey newKey)) (
     await (dbGets (\<lambda>d. toArray (contacts_tbl d))) (\<lambda>rs.
     andThen (forEach rs (rekeyContact E oldKey newKey)) (
     await (dbGets (\<lambda>d. toArray (sessions_tbl d))) (\<lambda>rs.
     andThen (forEach rs (rekeySession E oldKey newKey)) (
     await (dbGets (\<lambda>d. toArray (blobs_tbl d))) (\<lambda>rs.
     andThen (forEach rs (rekeyBlob E oldKey newKey)) (
     await (dbGets (\<lambda>d. toArray (groups_tbl d))) (\<lambda>rs.
     forEach rs (rekeyGroup E oldKey newKey))))))))))))"

section \<open>The message store\<close>

definition messageRow :: "PlainMessage \<Rightarrow> bytes \<Rightarrow> MessageRow" where
  "messageRow m c =
     \<lparr>m_msg_id = p_msg_id m, m_session_id = p_session_id m, m_content_enc = c, m_preview_enc = None,
      m_timestamp = p_timestamp m, m_status = p_status m, m_direction = p_direction m,
      m_kind = Some (p_kind m), m_receipt_token = p_receipt_token m,
      m_receipt_read_wanted = p_receipt_read_wanted m, m_receipt_read_done = p_receipt_read_done m,
      m_server_anchor = p_server_anchor m, m_created_at = Some (p_created_at m)\<rparr>"

definition messages_add :: "env \<Rightarrow> PlainMessage \<Rightarrow> unit act" where
  "messages_add E message =
     await (getMasterKey E) (\<lambda>key.
     await (encryptString E key (p_content message)) (\<lambda>c.
     dbModify (messages_tbl_update (tput (p_msg_id message) (messageRow message c)))))"

definition rowToPlain :: "env \<Rightarrow> cryptoKey \<Rightarrow> MessageRow \<Rightarrow> PlainMessage act" where
  "rowToPlain E key row =
     await (decryptString E key (m_content_enc row)) (\<lambda>content.
     ret \<lparr>p_msg_id = m_msg_id row, p_session_id = m_session_id row, p_content = content,
          p_timestamp = m_timestamp row, p_status = m_status row, p_direction = m_direction row,
          p_kind = orElse (m_kind row) KText, p_receipt_token = m_receipt_token row,
          p_receipt_read_wanted = m_receipt_read_wanted row, p_receipt_read_done = m_receipt_read_done row,
          p_server_anchor = m_server_anchor row, p_created_at = orElse (m_created_at row) 0\<rparr>)"

definition messages_get :: "env \<Rightarrow> string \<Rightarrow> PlainMessage option act" where
  "messages_get E msgId =
     await (getMasterKey E) (\<lambda>key.
     await (dbGets (\<lambda>d. tget (messages_tbl d) msgId)) (\<lambda>row.
     case row of None \<Rightarrow> ret None | Some r \<Rightarrow> await (rowToPlain E key r) (\<lambda>p. ret (Some p))))"

text \<open>The order of a conversation. \<open>localeCompare\<close> on the message ids, which are
  lower-case UUIDs, is their lexicographic order.\<close>

definition orderCreated :: "MessageRow \<Rightarrow> int" where
  "orderCreated r = orElse (m_created_at r) 0"

definition orderKey :: "MessageRow \<Rightarrow> int" where
  "orderKey r = orElse (m_server_anchor r) (m_timestamp r)"

definition lastN :: "nat \<Rightarrow> 'a list \<Rightarrow> 'a list" where
  "lastN n xs = (if n = 0 then xs else drop (length xs - n) xs)"

definition listBySession :: "env \<Rightarrow> string \<Rightarrow> nat \<Rightarrow> PlainMessage list act" where
  "listBySession E sessionId limit =
     await (getMasterKey E) (\<lambda>key.
     await (dbGets (\<lambda>d. filter (\<lambda>r. m_session_id r = sessionId) (toArray (messages_tbl d)))) (\<lambda>rows.
     mapP (rowToPlain E key)
       (lastN limit (sort_key (\<lambda>r. (orderCreated r, orderKey r, m_msg_id r)) rows))))"

section \<open>The contact store\<close>

text \<open>\<open>new EncryptedContacts(db, masterKey())\<close> starts fetching the key at once, but only
  the methods that need it wait for it: the store carries the outcome.\<close>

definition attempt :: "'a act \<Rightarrow> (error + 'a) act" where
  "attempt m = (\<lambda>w. case m w of (r, w') \<Rightarrow> (Inr r, w'))"

definition contactsStore :: "env \<Rightarrow> (error + cryptoKey) act" where
  "contactsStore E = attempt (getMasterKey E)"

definition addedContact ::
  "ContactRow option \<Rightarrow> string \<Rightarrow> bytes \<Rightarrow> bytes \<Rightarrow> ContactStatus \<Rightarrow> int \<Rightarrow> ContactRow" where
  "addedContact existing pxId ikEd ikX status added =
     (let prev = map_option (\<lambda>x. orElse (c_status x) Accepted) existing;
          finalStatus = (if prev = Some Blocked \<or> prev = Some Accepted then the prev else status)
      in \<lparr>c_px_id = pxId,
          c_ik_ed25519_pub = (if ikEd \<noteq> [] then Some ikEd else Option.bind existing c_ik_ed25519_pub),
          c_ik_x25519_pub = (if ikX \<noteq> [] then Some ikX else Option.bind existing c_ik_x25519_pub),
          c_display_name_enc = Option.bind existing c_display_name_enc,
          c_verified_fingerprint = Option.bind existing c_verified_fingerprint,
          c_status = Some finalStatus,
          c_added_at = added\<rparr>)"

definition contacts_add ::
  "env \<Rightarrow> string \<Rightarrow> bytes \<Rightarrow> bytes \<Rightarrow> ContactStatus \<Rightarrow> unit act" where
  "contacts_add E pxId ikEd ikX status =
     await (dbGets (\<lambda>d. tget (contacts_tbl d) pxId)) (\<lambda>existing.
     await (case existing of Some x \<Rightarrow> ret (c_added_at x) | None \<Rightarrow> nowSecs E) (\<lambda>added.
     dbModify (contacts_tbl_update (tput pxId (addedContact existing pxId ikEd ikX status added)))))"

definition contacts_setStatus :: "string \<Rightarrow> ContactStatus \<Rightarrow> unit act" where
  "contacts_setStatus pxId status =
     dbModify (contacts_tbl_update (tupdate pxId (\<lambda>x. x\<lparr>c_status := Some status\<rparr>)))"

definition contacts_setName :: "env \<Rightarrow> error + cryptoKey \<Rightarrow> string \<Rightarrow> string \<Rightarrow> unit act" where
  "contacts_setName E key pxId name =
     await (liftE key) (\<lambda>k. await (encryptString E k name) (\<lambda>enc.
     dbModify (contacts_tbl_update (tupdate pxId (\<lambda>x. x\<lparr>c_display_name_enc := Some enc\<rparr>)))))"

definition contacts_setVerified :: "string \<Rightarrow> string \<Rightarrow> unit act" where
  "contacts_setVerified pxId safety =
     dbModify (contacts_tbl_update (tupdate pxId (\<lambda>x. x\<lparr>c_verified_fingerprint := Some safety\<rparr>)))"

definition contacts_remove :: "string \<Rightarrow> unit act" where
  "contacts_remove pxId = dbModify (contacts_tbl_update (tdelete pxId))"

definition contacts_toPlain :: "env \<Rightarrow> ContactRow \<Rightarrow> cryptoKey \<Rightarrow> PlainContact act" where
  "contacts_toPlain E row key =
     await (case c_display_name_enc row of None \<Rightarrow> ret [] | Some b \<Rightarrow> decryptString E key b) (\<lambda>name.
     ret \<lparr>pc_px_id = c_px_id row, pc_name = name,
          pc_verified = (orElse (c_verified_fingerprint row) [] \<noteq> []),
          pc_status = orElse (c_status row) Accepted,
          pc_ik_ed25519 = orElse (c_ik_ed25519_pub row) [],
          pc_ik_x25519 = orElse (c_ik_x25519_pub row) [],
          pc_added_at = c_added_at row\<rparr>)"

definition contacts_get :: "env \<Rightarrow> error + cryptoKey \<Rightarrow> string \<Rightarrow> PlainContact option act" where
  "contacts_get E key pxId =
     await (dbGets (\<lambda>d. tget (contacts_tbl d) pxId)) (\<lambda>row.
     case row of None \<Rightarrow> ret None
     | Some r \<Rightarrow> await (liftE key) (\<lambda>k. await (contacts_toPlain E r k) (\<lambda>p. ret (Some p))))"

definition contacts_list :: "env \<Rightarrow> error + cryptoKey \<Rightarrow> PlainContact list act" where
  "contacts_list E key =
     await (dbGets (\<lambda>d. toArray (contacts_tbl d))) (\<lambda>rows.
     await (liftE key) (\<lambda>k. mapP (\<lambda>r. contacts_toPlain E r k) rows))"

section \<open>Quiet programs\<close>

text \<open>Reading encrypted rows and encrypting new fields changes nothing but the call number,
  and the key handle if there was none yet.\<close>

definition strip :: "world \<Rightarrow> world" where
  "strip w = w\<lparr>tick := 0, keystore := (keystore w)\<lparr>masterHandle := None\<rparr>\<rparr>"

definition quiet :: "world \<Rightarrow> world \<Rightarrow> bool" where
  "quiet w w' \<longleftrightarrow> strip w' = strip w \<and>
     (masterHandle (keystore w) \<noteq> None \<longrightarrow> masterHandle (keystore w') = masterHandle (keystore w))"

lemma quiet_refl [simp]: "quiet w w"
  by (simp add: quiet_def)

lemma quiet_trans: "quiet u v \<Longrightarrow> quiet v w \<Longrightarrow> quiet u w"
  by (auto simp: quiet_def)

interpretation q: step_relation quiet
  by unfold_locales (auto intro: quiet_trans)

lemma quiet_tick [simp]: "quiet w (w\<lparr>tick := t\<rparr>)"
  by (simp add: quiet_def strip_def)

lemma strip_fields:
  "idb (strip w) = idb w" "auth (strip w) = auth w" "bundleCache (strip w) = bundleCache w"
  "certCache (strip w) = certCache w" "netlog (strip w) = netlog w" "events (strip w) = events w"
  "tasks (strip w) = tasks w" "memKey (keystore (strip w)) = memKey (keystore w)"
  "memKeyBytes (keystore (strip w)) = memKeyBytes (keystore w)"
  "lockMeta (keystore (strip w)) = lockMeta (keystore w)" "flushing (strip w) = flushing w"
  "draining (strip w) = draining w" "clockDrift (strip w) = clockDrift w" "clockWarning (strip w) = clockWarning w"
  by (simp_all add: strip_def)

lemma quietD:
  assumes "quiet w w'"
  shows "idb w' = idb w" "auth w' = auth w" "bundleCache w' = bundleCache w" "certCache w' = certCache w"
    "netlog w' = netlog w" "events w' = events w" "tasks w' = tasks w"
    "memKey (keystore w') = memKey (keystore w)" "lockMeta (keystore w') = lockMeta (keystore w)"
    "flushing w' = flushing w" "draining w' = draining w"
    "clockDrift w' = clockDrift w" "clockWarning w' = clockWarning w"
  using assms by (metis quiet_def strip_fields)+

lemma run_getMasterKey [run_simps]:
  "getMasterKey E w =
     (case memKey (keystore w) of Some k \<Rightarrow> (Inr k, w) | None \<Rightarrow>
      if lockMeta (keystore w) \<noteq> None then (Inl (JsError ''locked''), w) else
      case masterHandle (keystore w) of Some k \<Rightarrow> (Inr k, w) | None \<Rightarrow>
        (Inr (map (rand_byte E (tick w)) [0..<32]),
         w\<lparr>tick := Suc (tick w),
           keystore := (keystore w)\<lparr>masterHandle := Some (map (rand_byte E (tick w)) [0..<32])\<rparr>\<rparr>))"
  by (simp add: getMasterKey_def split: option.splits)

lemma keeps_getMasterKey [keeps_intro]: "keeps quiet (getMasterKey E)"
  by (rule keepsI) (auto simp: run_getMasterKey quiet_def strip_def split: option.splits)

lemma keeps_ext [keeps_intro]: "keeps quiet (ext f)"
  and keeps_dateNow [keeps_intro]: "keeps quiet (dateNow E)"
  and keeps_nowSecs [keeps_intro]: "keeps quiet (nowSecs E)"
  and keeps_random [keeps_intro]: "keeps quiet (getRandomValues E n)"
  and keeps_uuid [keeps_intro]: "keeps quiet (randomUUID E)"
  and keeps_mathRandom [keeps_intro]: "keeps quiet (mathRandom E)"
  and keeps_dbGets [keeps_intro]: "keeps quiet (dbGets g)"
  and keeps_settingGet [keeps_intro]: "keeps quiet (settingGet k)"
  and keeps_ksGets [keeps_intro]: "keeps quiet (ksGets h)"
  by (simp_all add: keeps_def)

lemma keeps_importDataKey [keeps_intro]: "keeps quiet (importDataKey bs)"
  unfolding importDataKey_def by (intro q.keeps_rules)

lemma keeps_aes [keeps_intro]:
  "keeps quiet (aesEncrypt E key p)" "keeps quiet (aesDecrypt E key b)"
  "keeps quiet (encryptString E key v)" "keeps quiet (decryptString E key b)"
  by (simp_all add: keeps_def run_aesDecrypt run_decryptString)

lemma keeps_attempt [keeps_intro]: "keeps quiet m \<Longrightarrow> keeps quiet (attempt m)"
  by (auto simp: keeps_def attempt_def split: prod.splits) (metis snd_conv)

lemma keeps_contactsStore [keeps_intro]: "keeps quiet (contactsStore E)"
  unfolding contactsStore_def by (intro keeps_intro)

lemma keeps_toPlain [keeps_intro]: "keeps quiet (contacts_toPlain E r k)"
  unfolding contacts_toPlain_def by (intro q.keeps_rules keeps_intro)

lemma keeps_contacts_get [keeps_intro]: "keeps quiet (contacts_get E k px)"
  unfolding contacts_get_def by (intro q.keeps_rules keeps_intro)

lemma keeps_rowToPlain [keeps_intro]: "keeps quiet (rowToPlain E k r)"
  unfolding rowToPlain_def by (intro q.keeps_rules keeps_intro)

lemma keeps_listBySession [keeps_intro]: "keeps quiet (listBySession E s n)"
  unfolding listBySession_def by (intro q.keeps_rules keeps_intro)

lemma keeps_messages_get [keeps_intro]: "keeps quiet (messages_get E i)"
  unfolding messages_get_def by (intro q.keeps_rules keeps_intro)

text \<open>The key is stable: once it was handed out, asking again gives the same key.\<close>

definition ksKey :: "keystoreState \<Rightarrow> cryptoKey option" where
  "ksKey k = (case memKey k of Some key \<Rightarrow> Some key | None \<Rightarrow>
     if lockMeta k \<noteq> None then None else masterHandle k)"

definition keyOf :: "world \<Rightarrow> cryptoKey option" where
  "keyOf w = ksKey (keystore w)"

lemma keyOf_update [simp]:
  "keyOf (w\<lparr>tick := t\<rparr>) = keyOf w" "keyOf (w\<lparr>idb := d\<rparr>) = keyOf w"
  "keyOf (w\<lparr>events := e\<rparr>) = keyOf w" "keyOf (w\<lparr>tasks := s\<rparr>) = keyOf w"
  "keyOf (w\<lparr>netlog := n\<rparr>) = keyOf w" "keyOf (w\<lparr>bundleCache := b\<rparr>) = keyOf w"
  "keyOf (w\<lparr>certCache := c\<rparr>) = keyOf w" "keyOf (w\<lparr>auth := a\<rparr>) = keyOf w"
  by (simp_all add: keyOf_def)

lemma getMasterKey_keyOf: "keyOf w = Some k \<Longrightarrow> getMasterKey E w = (Inr k, w)"
  by (auto simp: keyOf_def ksKey_def run_getMasterKey split: option.splits if_splits)

lemma getMasterKey_result:
  assumes "getMasterKey E w = (Inr k, w')"
  shows "keyOf w' = Some k" "quiet w w'"
  using assms keepsD [OF keeps_getMasterKey assms]
  by (auto simp: keyOf_def ksKey_def run_getMasterKey split: option.splits if_splits)

lemma quiet_keyOf: "quiet w w' \<Longrightarrow> keyOf w = Some k \<Longrightarrow> keyOf w' = Some k"
  using quietD(8,9) [of w w'] by (auto simp: quiet_def keyOf_def ksKey_def split: option.splits if_splits)

section \<open>Re-keying keeps every plaintext\<close>

definition keyedBy :: "('r \<Rightarrow> 'k) \<Rightarrow> ('k, 'r) table \<Rightarrow> bool" where
  "keyedBy rid t \<longleftrightarrow> distinct (map fst t) \<and> (\<forall>(k, r) \<in> set t. k = rid r)"

definition viewWith :: "('r \<Rightarrow> 'v) \<Rightarrow> ('k, 'r) table \<Rightarrow> ('k \<times> 'v) list" where
  "viewWith v t = map (\<lambda>(k, r). (k, v r)) t"

text \<open>The loop over one table, once for all tables: on a row it can read, the body
  replaces the row by one that reads the same under the new key.\<close>

locale rekeyed_table =
  fixes tbl :: "privexDB \<Rightarrow> ('k, 'r) table"
    and upd :: "(('k, 'r) table \<Rightarrow> ('k, 'r) table) \<Rightarrow> privexDB \<Rightarrow> privexDB"
    and rid :: "'r \<Rightarrow> 'k"
    and body :: "'r \<Rightarrow> unit act"
    and readable :: "'r \<Rightarrow> bool"
    and old :: "'r \<Rightarrow> 'v"
    and new :: "'r \<Rightarrow> 'v"
  assumes tbl_upd: "tbl (upd f d) = f (tbl d)"
    and upd_upd: "upd f (upd g d) = upd (\<lambda>t. f (g t)) d"
    and upd_same: "upd (\<lambda>_. tbl d) d = d"
    and body_step: "readable r \<Longrightarrow>
      \<exists>f t. body r w = (Inr (), w\<lparr>tick := t, idb := upd (tupdate (rid r) f) (idb w)\<rparr>) \<and>
            new (f r) = old r \<and> rid (f r) = rid r"
begin

lemma loop_step:
  assumes "tbl (idb w) = ps @ qs" and "keyedBy rid (ps @ qs)" and "\<forall>(k, r) \<in> set qs. readable r"
  shows "\<exists>t qs'. forEach (map snd qs) body w = (Inr (), w\<lparr>tick := t, idb := upd (\<lambda>_. ps @ qs') (idb w)\<rparr>) \<and>
           viewWith new qs' = viewWith old qs"
  using assms
proof (induction qs arbitrary: w ps)
  case Nil
  then have "upd (\<lambda>_. ps @ []) (idb w) = idb w"
    using upd_same [of "idb w"] by simp
  then show ?case
    by (intro exI [where x = "tick w"] exI [where x = "[]"]) (simp add: viewWith_def)
next
  case (Cons q qs)
  obtain k r where q: "q = (k, r)" by fastforce
  have "readable r" using Cons.prems(3) by (simp add: q)
  from body_step [OF this, of w] obtain f t where
    b: "body r w = (Inr (), w\<lparr>tick := t, idb := upd (tupdate (rid r) f) (idb w)\<rparr>)" (is "_ = (_, ?w1)")
    and view: "new (f r) = old r" and rid: "rid (f r) = rid r" by blast
  have k: "k = rid r" "k \<notin> fst ` set ps" "k \<notin> fst ` set qs"
    using Cons.prems(2) by (auto simp: keyedBy_def q)
  have same: "tupdate k f xs = xs" if "k \<notin> fst ` set xs" for xs
    using that by (induction xs) (auto simp: tupdate_def)
  have "tupdate k f (ps @ (k, r) # qs) = tupdate k f ps @ (k, f r) # tupdate k f qs"
    by (simp add: tupdate_def)
  then have "tupdate k f (ps @ (k, r) # qs) = ps @ (k, f r) # qs"
    using same [OF k(2)] same [OF k(3)] by simp
  then have tb: "tbl (idb ?w1) = (ps @ [(k, f r)]) @ qs"
    using k(1) by (simp add: tbl_upd Cons.prems(1) q)
  have "keyedBy rid ((ps @ [(k, f r)]) @ qs)"
    using Cons.prems(2) rid by (auto simp: keyedBy_def q)
  from Cons.IH [OF tb this] obtain t2 qs' where
    w': "forEach (map snd qs) body ?w1
        = (Inr (), ?w1\<lparr>tick := t2, idb := upd (\<lambda>_. (ps @ [(k, f r)]) @ qs') (idb ?w1)\<rparr>)"
    and v: "viewWith new qs' = viewWith old qs" using Cons.prems(3) by auto
  show ?case
    using b w' v view
    by (intro exI [where x = t2] exI [where x = "(k, f r) # qs'"]) (simp add: upd_upd viewWith_def q)
qed

lemma loop:
  assumes "keyedBy rid (tbl (idb w))" and "\<forall>(k, r) \<in> set (tbl (idb w)). readable r"
  shows "\<exists>t tb'. forEach (toArray (tbl (idb w))) body w = (Inr (), w\<lparr>tick := t, idb := upd (\<lambda>_. tb') (idb w)\<rparr>) \<and>
           viewWith new tb' = viewWith old (tbl (idb w))"
  using loop_step [of w "[]" "tbl (idb w)"] assms by (simp add: toArray_def)

end

text \<open>What a row reads as under a key: the row without its encrypted fields, and what
  those decrypt to.\<close>

definition readableOpt :: "env \<Rightarrow> cryptoKey \<Rightarrow> bytes option \<Rightarrow> bool" where
  "readableOpt E k v \<longleftrightarrow> (\<forall>b. v = Some b \<longrightarrow> reads E k b \<noteq> None)"

definition identityView :: "env \<Rightarrow> cryptoKey \<Rightarrow> IdentityRow \<Rightarrow> IdentityRow \<times> bytes option option" where
  "identityView E k r = (r\<lparr>id_priv_bundle_enc := None\<rparr>, map_option (reads E k) (id_priv_bundle_enc r))"

definition messageView :: "env \<Rightarrow> cryptoKey \<Rightarrow> MessageRow \<Rightarrow> MessageRow \<times> bytes option \<times> bytes option option" where
  "messageView E k r = (r\<lparr>m_content_enc := [], m_preview_enc := None\<rparr>, reads E k (m_content_enc r),
                        map_option (reads E k) (m_preview_enc r))"

definition contactView :: "env \<Rightarrow> cryptoKey \<Rightarrow> ContactRow \<Rightarrow> ContactRow \<times> bytes option option" where
  "contactView E k r = (r\<lparr>c_display_name_enc := None\<rparr>, map_option (reads E k) (c_display_name_enc r))"

definition sessionView :: "env \<Rightarrow> cryptoKey \<Rightarrow> SessionRow \<Rightarrow> SessionRow \<times> bytes option \<times> bytes option option" where
  "sessionView E k r = (r\<lparr>se_ratchet_state_enc := [], se_pqxdh_init_enc := None\<rparr>,
     reads E k (se_ratchet_state_enc r), map_option (reads E k) (se_pqxdh_init_enc r))"

definition blobView :: "env \<Rightarrow> cryptoKey \<Rightarrow> BlobRow \<Rightarrow> BlobRow \<times> bytes option \<times> bytes option option" where
  "blobView E k r = (r\<lparr>bl_cek_enc := [], bl_filename_enc := None\<rparr>, reads E k (bl_cek_enc r),
                     map_option (reads E k) (bl_filename_enc r))"

definition groupView ::
  "env \<Rightarrow> cryptoKey \<Rightarrow> GroupRow \<Rightarrow> GroupRow \<times> bytes option option \<times> bytes option option" where
  "groupView E k r = (r\<lparr>g_name_enc := None, g_mls_state_enc := None\<rparr>, map_option (reads E k) (g_name_enc r),
                      map_option (reads E k) (g_mls_state_enc r))"

definition identityReadable :: "env \<Rightarrow> cryptoKey \<Rightarrow> IdentityRow \<Rightarrow> bool" where
  "identityReadable E k r \<longleftrightarrow> readableOpt E k (id_priv_bundle_enc r)"

definition messageReadable :: "env \<Rightarrow> cryptoKey \<Rightarrow> MessageRow \<Rightarrow> bool" where
  "messageReadable E k r \<longleftrightarrow> reads E k (m_content_enc r) \<noteq> None \<and> readableOpt E k (m_preview_enc r)"

definition contactReadable :: "env \<Rightarrow> cryptoKey \<Rightarrow> ContactRow \<Rightarrow> bool" where
  "contactReadable E k r \<longleftrightarrow> readableOpt E k (c_display_name_enc r)"

definition sessionReadable :: "env \<Rightarrow> cryptoKey \<Rightarrow> SessionRow \<Rightarrow> bool" where
  "sessionReadable E k r \<longleftrightarrow> reads E k (se_ratchet_state_enc r) \<noteq> None \<and> readableOpt E k (se_pqxdh_init_enc r)"

definition blobReadable :: "env \<Rightarrow> cryptoKey \<Rightarrow> BlobRow \<Rightarrow> bool" where
  "blobReadable E k r \<longleftrightarrow> reads E k (bl_cek_enc r) \<noteq> None \<and> readableOpt E k (bl_filename_enc r)"

definition groupReadable :: "env \<Rightarrow> cryptoKey \<Rightarrow> GroupRow \<Rightarrow> bool" where
  "groupReadable E k r \<longleftrightarrow> readableOpt E k (g_name_enc r) \<and> readableOpt E k (g_mls_state_enc r)"

lemmas view_defs = identityView_def messageView_def contactView_def sessionView_def blobView_def groupView_def
lemmas readable_defs = identityReadable_def messageReadable_def contactReadable_def sessionReadable_def
  blobReadable_def groupReadable_def

lemma run_recrypt:
  "reads E ok b = Some p \<Longrightarrow>
   recrypt E ok nk b w = (Inr (ivAt E (tick w) @ aes_enc E nk (ivAt E (tick w)) p), w\<lparr>tick := Suc (tick w)\<rparr>)"
  by (simp add: recrypt_def run_aesDecrypt)

text \<open>Re-encrypting an optional field gives one that reads the same.\<close>

lemma run_recryptOpt:
  assumes "aes_correct E" and "readableOpt E ok v"
  shows "\<exists>v' t. recryptOpt E ok nk v w = (Inr v', w\<lparr>tick := t\<rparr>) \<and>
           map_option (reads E nk) v' = map_option (reads E ok) v"
proof (cases v)
  case None
  then show ?thesis by (intro exI [where x = None] exI [where x = "tick w"]) (simp add: recryptOpt_def)
next
  case (Some b)
  then obtain p where p: "reads E ok b = Some p" using assms(2) by (auto simp: readableOpt_def)
  show ?thesis
    by (intro exI [where x = "Some (ivAt E (tick w) @ aes_enc E nk (ivAt E (tick w)) p)"]
        exI [where x = "Suc (tick w)"])
       (use assms(1) Some p in \<open>simp add: recryptOpt_def run_recrypt [OF p]\<close>)
qed

lemma recryptOpt_None: "map_option f None = map_option g v \<longleftrightarrow> v = None"
  by (cases v) simp_all

lemma tupdate_id [simp]: "tupdate k (\<lambda>x. x) t = t"
  by (induction t) (auto simp: tupdate_def)

lemma rekeyIdentity_step:
  assumes "aes_correct E" and "identityReadable E ok r"
  shows "\<exists>f t. rekeyIdentity E ok nk r w
           = (Inr (), w\<lparr>tick := t, idb := identity_tbl_update (tupdate (id_user_id r) f) (idb w)\<rparr>) \<and>
         identityView E nk (f r) = identityView E ok r \<and> id_user_id (f r) = id_user_id r"
proof (cases "id_priv_bundle_enc r")
  case None
  then show ?thesis
    by (intro exI [where x = "\<lambda>x. x"] exI [where x = "tick w"]) (simp add: rekeyIdentity_def identityView_def)
next
  case (Some b)
  then obtain p where p: "reads E ok b = Some p"
    using assms(2) by (auto simp: readableOpt_def identityReadable_def)
  show ?thesis
    by (intro exI [where x = "\<lambda>x. x\<lparr>id_priv_bundle_enc := Some (ivAt E (tick w) @ aes_enc E nk (ivAt E (tick w)) p)\<rparr>"]
        exI [where x = "Suc (tick w)"])
       (use assms(1) Some p in \<open>simp add: rekeyIdentity_def run_recrypt [OF p] identityView_def\<close>)
qed

lemma rekeyContact_step:
  assumes "aes_correct E" and "contactReadable E ok r"
  shows "\<exists>f t. rekeyContact E ok nk r w
           = (Inr (), w\<lparr>tick := t, idb := contacts_tbl_update (tupdate (c_px_id r) f) (idb w)\<rparr>) \<and>
         contactView E nk (f r) = contactView E ok r \<and> c_px_id (f r) = c_px_id r"
proof (cases "c_display_name_enc r")
  case None
  then show ?thesis
    by (intro exI [where x = "\<lambda>x. x"] exI [where x = "tick w"]) (simp add: rekeyContact_def contactView_def)
next
  case (Some b)
  then obtain p where p: "reads E ok b = Some p"
    using assms(2) by (auto simp: readableOpt_def contactReadable_def)
  show ?thesis
    by (intro exI [where x = "\<lambda>x. x\<lparr>c_display_name_enc := Some (ivAt E (tick w) @ aes_enc E nk (ivAt E (tick w)) p)\<rparr>"]
        exI [where x = "Suc (tick w)"])
       (use assms(1) Some p in \<open>simp add: rekeyContact_def run_recrypt [OF p] contactView_def\<close>)
qed

lemma rekeyMessage_step:
  assumes "aes_correct E" and "messageReadable E ok r"
  shows "\<exists>f t. rekeyMessage E ok nk r w
           = (Inr (), w\<lparr>tick := t, idb := messages_tbl_update (tupdate (m_msg_id r) f) (idb w)\<rparr>) \<and>
         messageView E nk (f r) = messageView E ok r \<and> m_msg_id (f r) = m_msg_id r"
proof -
  obtain p where p: "reads E ok (m_content_enc r) = Some p" and o: "readableOpt E ok (m_preview_enc r)"
    using assms(2) by (auto simp: messageReadable_def)
  let ?c = "ivAt E (tick w) @ aes_enc E nk (ivAt E (tick w)) p"
  obtain v t where v: "recryptOpt E ok nk (m_preview_enc r) (w\<lparr>tick := Suc (tick w)\<rparr>) = (Inr v, w\<lparr>tick := t\<rparr>)"
    "map_option (reads E nk) v = map_option (reads E ok) (m_preview_enc r)"
    using run_recryptOpt [OF assms(1) o, of nk "w\<lparr>tick := Suc (tick w)\<rparr>"] by auto
  let ?f = "\<lambda>x. case v of None \<Rightarrow> x\<lparr>m_content_enc := ?c\<rparr>
    | Some p' \<Rightarrow> x\<lparr>m_content_enc := ?c, m_preview_enc := Some p'\<rparr>"
  have "rekeyMessage E ok nk r w
      = (Inr (), w\<lparr>tick := t, idb := messages_tbl_update (tupdate (m_msg_id r) ?f) (idb w)\<rparr>)"
    using v(1) by (simp add: rekeyMessage_def run_recrypt [OF p])
  moreover have "messageView E nk (?f r) = messageView E ok r" "m_msg_id (?f r) = m_msg_id r"
    using v(2) assms(1) p by (cases v; cases "m_preview_enc r"; simp add: messageView_def)+
  ultimately show ?thesis by blast
qed

lemma rekeySession_step:
  assumes "aes_correct E" and "sessionReadable E ok r"
  shows "\<exists>f t. rekeySession E ok nk r w
           = (Inr (), w\<lparr>tick := t, idb := sessions_tbl_update (tupdate (se_session_id r) f) (idb w)\<rparr>) \<and>
         sessionView E nk (f r) = sessionView E ok r \<and> se_session_id (f r) = se_session_id r"
proof -
  obtain p where p: "reads E ok (se_ratchet_state_enc r) = Some p" and o: "readableOpt E ok (se_pqxdh_init_enc r)"
    using assms(2) by (auto simp: sessionReadable_def)
  let ?c = "ivAt E (tick w) @ aes_enc E nk (ivAt E (tick w)) p"
  obtain v t where v: "recryptOpt E ok nk (se_pqxdh_init_enc r) (w\<lparr>tick := Suc (tick w)\<rparr>) = (Inr v, w\<lparr>tick := t\<rparr>)"
    "map_option (reads E nk) v = map_option (reads E ok) (se_pqxdh_init_enc r)"
    using run_recryptOpt [OF assms(1) o, of nk "w\<lparr>tick := Suc (tick w)\<rparr>"] by auto
  let ?f = "\<lambda>x. case v of None \<Rightarrow> x\<lparr>se_ratchet_state_enc := ?c\<rparr>
    | Some p' \<Rightarrow> x\<lparr>se_ratchet_state_enc := ?c, se_pqxdh_init_enc := Some p'\<rparr>"
  have "rekeySession E ok nk r w
      = (Inr (), w\<lparr>tick := t, idb := sessions_tbl_update (tupdate (se_session_id r) ?f) (idb w)\<rparr>)"
    using v(1) by (simp add: rekeySession_def run_recrypt [OF p])
  moreover have "sessionView E nk (?f r) = sessionView E ok r" "se_session_id (?f r) = se_session_id r"
    using v(2) assms(1) p by (cases v; cases "se_pqxdh_init_enc r"; simp add: sessionView_def)+
  ultimately show ?thesis by blast
qed

lemma rekeyBlob_step:
  assumes "aes_correct E" and "blobReadable E ok r"
  shows "\<exists>f t. rekeyBlob E ok nk r w
           = (Inr (), w\<lparr>tick := t, idb := blobs_tbl_update (tupdate (bl_blob_id r) f) (idb w)\<rparr>) \<and>
         blobView E nk (f r) = blobView E ok r \<and> bl_blob_id (f r) = bl_blob_id r"
proof -
  obtain p where p: "reads E ok (bl_cek_enc r) = Some p" and o: "readableOpt E ok (bl_filename_enc r)"
    using assms(2) by (auto simp: blobReadable_def)
  let ?c = "ivAt E (tick w) @ aes_enc E nk (ivAt E (tick w)) p"
  obtain v t where v: "recryptOpt E ok nk (bl_filename_enc r) (w\<lparr>tick := Suc (tick w)\<rparr>) = (Inr v, w\<lparr>tick := t\<rparr>)"
    "map_option (reads E nk) v = map_option (reads E ok) (bl_filename_enc r)"
    using run_recryptOpt [OF assms(1) o, of nk "w\<lparr>tick := Suc (tick w)\<rparr>"] by auto
  let ?f = "\<lambda>x. case v of None \<Rightarrow> x\<lparr>bl_cek_enc := ?c\<rparr>
    | Some p' \<Rightarrow> x\<lparr>bl_cek_enc := ?c, bl_filename_enc := Some p'\<rparr>"
  have "rekeyBlob E ok nk r w
      = (Inr (), w\<lparr>tick := t, idb := blobs_tbl_update (tupdate (bl_blob_id r) ?f) (idb w)\<rparr>)"
    using v(1) by (simp add: rekeyBlob_def run_recrypt [OF p])
  moreover have "blobView E nk (?f r) = blobView E ok r" "bl_blob_id (?f r) = bl_blob_id r"
    using v(2) assms(1) p by (cases v; cases "bl_filename_enc r"; simp add: blobView_def)+
  ultimately show ?thesis by blast
qed

lemma rekeyGroup_step:
  assumes "aes_correct E" and "groupReadable E ok r"
  shows "\<exists>f t. rekeyGroup E ok nk r w
           = (Inr (), w\<lparr>tick := t, idb := groups_tbl_update (tupdate (g_group_id r) f) (idb w)\<rparr>) \<and>
         groupView E nk (f r) = groupView E ok r \<and> g_group_id (f r) = g_group_id r"
proof -
  obtain n t where n: "recryptOpt E ok nk (g_name_enc r) w = (Inr n, w\<lparr>tick := t\<rparr>)"
    "map_option (reads E nk) n = map_option (reads E ok) (g_name_enc r)"
    using run_recryptOpt [OF assms(1), of ok "g_name_enc r" nk w] assms(2) by (auto simp: groupReadable_def)
  obtain s t' where s: "recryptOpt E ok nk (g_mls_state_enc r) (w\<lparr>tick := t\<rparr>) = (Inr s, w\<lparr>tick := t'\<rparr>)"
    "map_option (reads E nk) s = map_option (reads E ok) (g_mls_state_enc r)"
    using run_recryptOpt [OF assms(1), of ok "g_mls_state_enc r" nk "w\<lparr>tick := t\<rparr>"] assms(2)
    by (auto simp: groupReadable_def)
  let ?f = "\<lambda>x. x\<lparr>g_name_enc := (if n = None then g_name_enc x else n),
            g_mls_state_enc := (if s = None then g_mls_state_enc x else s)\<rparr>"
  have "rekeyGroup E ok nk r w
      = (Inr (), w\<lparr>tick := t', idb := groups_tbl_update (tupdate (g_group_id r) ?f) (idb w)\<rparr>)"
    using n(1) s(1) by (cases "n \<noteq> None \<or> s \<noteq> None") (simp_all add: rekeyGroup_def)
  moreover have "groupView E nk (?f r) = groupView E ok r" "g_group_id (?f r) = g_group_id r"
    using n(2) s(2) by (cases n; cases s; cases "g_name_enc r"; cases "g_mls_state_enc r"; simp add: groupView_def)+
  ultimately show ?thesis by blast
qed

interpretation rk_identity: rekeyed_table identity_tbl identity_tbl_update id_user_id "rekeyIdentity E ok nk"
  "\<lambda>r. aes_correct E \<and> identityReadable E ok r" "identityView E ok" "identityView E nk" for E ok nk
  by unfold_locales (use rekeyIdentity_step in \<open>auto\<close>)

interpretation rk_messages: rekeyed_table messages_tbl messages_tbl_update m_msg_id "rekeyMessage E ok nk"
  "\<lambda>r. aes_correct E \<and> messageReadable E ok r" "messageView E ok" "messageView E nk" for E ok nk
  by unfold_locales (use rekeyMessage_step in \<open>auto\<close>)

interpretation rk_contacts: rekeyed_table contacts_tbl contacts_tbl_update c_px_id "rekeyContact E ok nk"
  "\<lambda>r. aes_correct E \<and> contactReadable E ok r" "contactView E ok" "contactView E nk" for E ok nk
  by unfold_locales (use rekeyContact_step in \<open>auto\<close>)

interpretation rk_sessions: rekeyed_table sessions_tbl sessions_tbl_update se_session_id "rekeySession E ok nk"
  "\<lambda>r. aes_correct E \<and> sessionReadable E ok r" "sessionView E ok" "sessionView E nk" for E ok nk
  by unfold_locales (use rekeySession_step in \<open>auto\<close>)

interpretation rk_blobs: rekeyed_table blobs_tbl blobs_tbl_update bl_blob_id "rekeyBlob E ok nk"
  "\<lambda>r. aes_correct E \<and> blobReadable E ok r" "blobView E ok" "blobView E nk" for E ok nk
  by unfold_locales (use rekeyBlob_step in \<open>auto\<close>)

interpretation rk_groups: rekeyed_table groups_tbl groups_tbl_update g_group_id "rekeyGroup E ok nk"
  "\<lambda>r. aes_correct E \<and> groupReadable E ok r" "groupView E ok" "groupView E nk" for E ok nk
  by unfold_locales (use rekeyGroup_step in \<open>auto\<close>)

text \<open>The database as it reads under a key, and what it takes to be readable: rows are
  stored under their own ids, and every encrypted field decrypts.\<close>

definition dbView where
  "dbView E k d =
     (viewWith (identityView E k) (identity_tbl d), viewWith (messageView E k) (messages_tbl d),
      viewWith (contactView E k) (contacts_tbl d), viewWith (sessionView E k) (sessions_tbl d),
      viewWith (blobView E k) (blobs_tbl d), viewWith (groupView E k) (groups_tbl d),
      d\<lparr>identity_tbl := [], messages_tbl := [], contacts_tbl := [], sessions_tbl := [],
        blobs_tbl := [], groups_tbl := []\<rparr>)"

definition dbKeyed :: "privexDB \<Rightarrow> bool" where
  "dbKeyed d \<longleftrightarrow> keyedBy id_user_id (identity_tbl d) \<and> keyedBy m_msg_id (messages_tbl d) \<and>
     keyedBy c_px_id (contacts_tbl d) \<and> keyedBy se_session_id (sessions_tbl d) \<and>
     keyedBy bl_blob_id (blobs_tbl d) \<and> keyedBy g_group_id (groups_tbl d)"

definition dbReadable :: "env \<Rightarrow> cryptoKey \<Rightarrow> privexDB \<Rightarrow> bool" where
  "dbReadable E k d \<longleftrightarrow>
     (\<forall>(i, r) \<in> set (identity_tbl d). identityReadable E k r) \<and>
     (\<forall>(i, r) \<in> set (messages_tbl d). messageReadable E k r) \<and>
     (\<forall>(i, r) \<in> set (contacts_tbl d). contactReadable E k r) \<and>
     (\<forall>(i, r) \<in> set (sessions_tbl d). sessionReadable E k r) \<and>
     (\<forall>(i, r) \<in> set (blobs_tbl d). blobReadable E k r) \<and>
     (\<forall>(i, r) \<in> set (groups_tbl d). groupReadable E k r)"

lemma andThen_run: "m w = (Inr x, w') \<Longrightarrow> k w' = z \<Longrightarrow> andThen m k w = z"
  and await_run: "m w = (Inr x, w') \<Longrightarrow> k' x w' = z \<Longrightarrow> await m k' w = z"
  by simp_all

lemma loop_run:
  "forEach (f (idb w)) body w = (Inr (), w') \<Longrightarrow> k w' = z \<Longrightarrow>
   await (dbGets f) (\<lambda>rs. andThen (forEach rs body) k) w = z"
  by simp

lemma rekey_run:
  assumes aes: "aes_correct E" and keyed: "dbKeyed (idb w)" and readable: "dbReadable E ok (idb w)"
  shows "\<exists>t d. rekeyAllEncryptedFields E ok nk w = (Inr (), w\<lparr>tick := t, idb := d\<rparr>) \<and> dbView E nk d = dbView E ok (idb w) \<and>
    linked_tbl d = linked_tbl (idb w) \<and> settings_tbl d = settings_tbl (idb w)"
proof -
  obtain t1 a1 where s1: "forEach (toArray (identity_tbl (idb w))) (rekeyIdentity E ok nk) w
      = (Inr (), w\<lparr>tick := t1, idb := (idb w)\<lparr>identity_tbl := a1\<rparr>\<rparr>)" (is "_ = (_, ?w1)")
    and v1: "viewWith (identityView E nk) a1 = viewWith (identityView E ok) (identity_tbl (idb w))"
    using rk_identity.loop [of w E ok nk] assms by (auto simp: dbKeyed_def dbReadable_def)
  obtain t2 a2 where s2: "forEach (toArray (messages_tbl (idb ?w1))) (rekeyMessage E ok nk) ?w1
      = (Inr (), ?w1\<lparr>tick := t2, idb := (idb ?w1)\<lparr>messages_tbl := a2\<rparr>\<rparr>)" (is "_ = (_, ?w2)")
    and v2: "viewWith (messageView E nk) a2 = viewWith (messageView E ok) (messages_tbl (idb w))"
    using rk_messages.loop [of ?w1 E ok nk] assms by (auto simp: dbKeyed_def dbReadable_def)
  obtain t3 a3 where s3: "forEach (toArray (contacts_tbl (idb ?w2))) (rekeyContact E ok nk) ?w2
      = (Inr (), ?w2\<lparr>tick := t3, idb := (idb ?w2)\<lparr>contacts_tbl := a3\<rparr>\<rparr>)" (is "_ = (_, ?w3)")
    and v3: "viewWith (contactView E nk) a3 = viewWith (contactView E ok) (contacts_tbl (idb w))"
    using rk_contacts.loop [of ?w2 E ok nk] assms by (auto simp: dbKeyed_def dbReadable_def)
  obtain t4 a4 where s4: "forEach (toArray (sessions_tbl (idb ?w3))) (rekeySession E ok nk) ?w3
      = (Inr (), ?w3\<lparr>tick := t4, idb := (idb ?w3)\<lparr>sessions_tbl := a4\<rparr>\<rparr>)" (is "_ = (_, ?w4)")
    and v4: "viewWith (sessionView E nk) a4 = viewWith (sessionView E ok) (sessions_tbl (idb w))"
    using rk_sessions.loop [of ?w3 E ok nk] assms by (auto simp: dbKeyed_def dbReadable_def)
  obtain t5 a5 where s5: "forEach (toArray (blobs_tbl (idb ?w4))) (rekeyBlob E ok nk) ?w4
      = (Inr (), ?w4\<lparr>tick := t5, idb := (idb ?w4)\<lparr>blobs_tbl := a5\<rparr>\<rparr>)" (is "_ = (_, ?w5)")
    and v5: "viewWith (blobView E nk) a5 = viewWith (blobView E ok) (blobs_tbl (idb w))"
    using rk_blobs.loop [of ?w4 E ok nk] assms by (auto simp: dbKeyed_def dbReadable_def)
  obtain t6 a6 where s6: "forEach (toArray (groups_tbl (idb ?w5))) (rekeyGroup E ok nk) ?w5
      = (Inr (), ?w5\<lparr>tick := t6, idb := (idb ?w5)\<lparr>groups_tbl := a6\<rparr>\<rparr>)" (is "_ = (_, ?w6)")
    and v6: "viewWith (groupView E nk) a6 = viewWith (groupView E ok) (groups_tbl (idb w))"
    using rk_groups.loop [of ?w5 E ok nk] assms by (auto simp: dbKeyed_def dbReadable_def)
  have "rekeyAllEncryptedFields E ok nk w = (Inr (), ?w6)"
    unfolding rekeyAllEncryptedFields_def
    by (rule loop_run, rule s1, rule loop_run, rule s2, rule loop_run, rule s3, rule loop_run, rule s4,
        rule loop_run, rule s5, rule await_run, rule run_dbGets, rule s6)
  moreover have "dbView E nk (idb ?w6) = dbView E ok (idb w)"
    using v1 v2 v3 v4 v5 v6 by (simp add: dbView_def)
  ultimately show ?thesis
    by (intro exI [where x = t6] exI [where x = "idb ?w6"]) simp
qed


end
