(* ===== verification/Identity.thy ===== *)
theory Identity
  imports AtRest Codec
begin

text \<open>
  The local identity: the crypto helpers of \<^verbatim>\<open>crypto/onboarding-crypto.ts\<close> that run in
  the worker, and the resumable onboarding store \<^verbatim>\<open>onboarding/store.ts\<close>, which keeps the
  whole identity bundle as one encrypted JSON field.
\<close>

section \<open>Worker helpers (\<^verbatim>\<open>crypto/onboarding-crypto.ts\<close>)\<close>

definition OPK_COUNT :: nat where "OPK_COUNT = 50"

text \<open>\<open>i\<close> is the number of the prekey generation within the call \<open>t\<close> of the worker.\<close>

definition makeOpk :: "wasmModule \<Rightarrow> nat \<Rightarrow> int \<Rightarrow> nat \<Rightarrow> nat \<Rightarrow> error + PreKey" where
  "makeOpk W t startId i0 i =
     bindE (w_generate_x25519_prekey W t (i0 + i)) (\<lambda>kp.
     Inr \<lparr>pk_id = startId + int i, pk_pub = kp_pub kp, pk_priv = kp_priv kp\<rparr>)"

definition generateOpks :: "wasmModule \<Rightarrow> nat \<Rightarrow> int \<Rightarrow> nat \<Rightarrow> error + PreKey list" where
  "generateOpks W t startId count = mapE (makeOpk W t startId 0) [0..<count]"

definition bundleFrom :: "wasmModule \<Rightarrow> nat \<Rightarrow> string \<Rightarrow> bytes \<Rightarrow> error + IdentityBundle" where
  "bundleFrom W t mnemonic masterSeed =
     bindE (w_derive_keypairs_from_seed W masterSeed) (\<lambda>ik.
     bindE (w_user_id_from_ed25519 W (ed25519_pub ik)) (\<lambda>userId.
     bindE (w_generate_x25519_prekey W t 0) (\<lambda>spk.
     bindE (w_sign_hybrid W t (kp_pub spk) (ed25519_priv ik) (dilithium3_priv ik)) (\<lambda>sig.
     bindE (mapE (makeOpk W t 1 1) [0..<OPK_COUNT]) (\<lambda>opks.
     Inr \<lparr>b_userId = userId, b_mnemonic = mnemonic, b_masterSeed = masterSeed, b_identity = ik,
          b_spk = spk, b_spkSig = sig, b_opks = opks, b_prevSpks = None, b_spkRotateAfter = None,
          b_spkPending = None, b_opkPending = None\<rparr>)))))"

definition genIdentityBundle :: "wasmModule \<Rightarrow> nat \<Rightarrow> bytes \<Rightarrow> error + IdentityBundle" where
  "genIdentityBundle W t entropy =
     bindE (w_generate_seed_phrase W entropy) (\<lambda>mnemonic.
     bindE (w_seed_phrase_to_master_seed W mnemonic) (\<lambda>masterSeed.
     bundleFrom W t mnemonic masterSeed))"

definition recoverBundleFromSeed :: "wasmModule \<Rightarrow> nat \<Rightarrow> bytes \<Rightarrow> error + IdentityBundle" where
  "recoverBundleFromSeed W t masterSeed = bundleFrom W t [] masterSeed"

definition buildKeyMaterial :: "bytes \<Rightarrow> bytes" where
  "buildKeyMaterial masterSeed =
     textEncode (stringify (JObj [(''v'', JNum 1), (''master_seed'', JStr (toHex masterSeed))]))"

definition masterSeedFromKeyMaterial :: "bytes \<Rightarrow> error + bytes" where
  "masterSeedFromKeyMaterial keyMaterial =
     (case json_parse (textDecode keyMaterial) of
        None \<Rightarrow> Inl (JsError ''SyntaxError'')
      | Some p \<Rightarrow> (case jstr (jget ''master_seed'' p) of
          None \<Rightarrow> Inl (JsError ''TypeError'') | Some s \<Rightarrow> Inr (fromHex s)))"

definition recoverIdentityFromKeyMaterial :: "wasmModule \<Rightarrow> bytes \<Rightarrow> error + IdentityKeys" where
  "recoverIdentityFromKeyMaterial W keyMaterial =
     bindE (masterSeedFromKeyMaterial keyMaterial) (w_derive_keypairs_from_seed W)"

record OpaqueStart =
  os_message :: bytes
  os_clientState :: bytes

definition opaqueRegStart :: "wasmModule \<Rightarrow> nat \<Rightarrow> string \<Rightarrow> error + OpaqueStart" where
  "opaqueRegStart W t password =
     bindE (w_opaque_register_start W t password) (\<lambda>r.
     Inr \<lparr>os_message = wos_message r, os_clientState = wos_client_state r\<rparr>)"

record OpaqueFinish =
  of_uploadMessage :: bytes
  of_envelope :: bytes
  of_envelopeMac :: bytes

definition opaqueRegFinish ::
  "wasmModule \<Rightarrow> nat \<Rightarrow> bytes \<Rightarrow> bytes \<Rightarrow> bytes \<Rightarrow> string \<Rightarrow> error + OpaqueFinish" where
  "opaqueRegFinish W t clientState serverResponse keyMaterial password =
     bindE (w_opaque_register_finish W t clientState serverResponse keyMaterial password) (\<lambda>r.
     Inr \<lparr>of_uploadMessage = wof_upload_message r, of_envelope = wof_envelope r, of_envelopeMac = wof_envelope_mac r\<rparr>)"

definition opaqueLoginStart :: "wasmModule \<Rightarrow> nat \<Rightarrow> string \<Rightarrow> error + OpaqueStart" where
  "opaqueLoginStart W t password =
     bindE (w_opaque_login_start W t password []) (\<lambda>r.
     Inr \<lparr>os_message = wos_message r, os_clientState = wos_client_state r\<rparr>)"

record OpaqueLoginResult =
  ol_keyMaterial :: bytes
  ol_finalization :: bytes

definition opaqueLoginFinish ::
  "wasmModule \<Rightarrow> nat \<Rightarrow> bytes \<Rightarrow> bytes \<Rightarrow> string \<Rightarrow> error + OpaqueLoginResult" where
  "opaqueLoginFinish W t clientState serverResponse password =
     bindE (w_opaque_login_finish W t clientState serverResponse password) (\<lambda>r.
     Inr \<lparr>ol_keyMaterial = wol_key_material r, ol_finalization = wol_finalization r\<rparr>)"

definition signHybrid :: "wasmModule \<Rightarrow> nat \<Rightarrow> bytes \<Rightarrow> bytes \<Rightarrow> bytes \<Rightarrow> error + HybridSig" where
  "signHybrid W t d edPriv dilPriv = w_sign_hybrid W t d edPriv dilPriv"

definition signChallenge ::
  "wasmModule \<Rightarrow> nat \<Rightarrow> bytes \<Rightarrow> string \<Rightarrow> int \<Rightarrow> bytes \<Rightarrow> bytes \<Rightarrow> error + HybridSig" where
  "signChallenge W t challenge userId ts edPriv dilPriv =
     signHybrid W t (challengeSigningInput challenge userId ts) edPriv dilPriv"

definition generateSignedSpk :: "wasmModule \<Rightarrow> nat \<Rightarrow> bytes \<Rightarrow> bytes \<Rightarrow> error + SignedSpk" where
  "generateSignedSpk W t edPriv dilPriv =
     bindE (w_generate_x25519_prekey W t 0) (\<lambda>spk.
     bindE (w_sign_hybrid W t (kp_pub spk) edPriv dilPriv) (\<lambda>sig.
     Inr \<lparr>ss_pub = kp_pub spk, ss_priv = kp_priv spk, ss_sigEd = sig_ed sig, ss_sigDil = sig_dil sig\<rparr>))"

section \<open>Onboarding progress (\<^verbatim>\<open>onboarding/store.ts\<close>)\<close>

record Progress =
  pr_step :: string
  pr_userId :: "string option"

definition PROGRESS_KEY :: string where "PROGRESS_KEY = ''onboarding''"

definition loadProgress :: "Progress act" where
  "loadProgress = await (settingGet PROGRESS_KEY) (\<lambda>v.
     ret (case v of
            None \<Rightarrow> \<lparr>pr_step = ''welcome'', pr_userId = None\<rparr>
          | Some JNull \<Rightarrow> \<lparr>pr_step = ''welcome'', pr_userId = None\<rparr>
          | Some j \<Rightarrow> \<lparr>pr_step = orElse (jstr (jget ''step'' j)) [], pr_userId = jstr (jget ''userId'' j)\<rparr>))"

definition saveProgress :: "string \<Rightarrow> string option \<Rightarrow> unit act" where
  "saveProgress step userId =
     settingPut PROGRESS_KEY (JObj ([(''step'', JStr step)] @ jopt ''userId'' (map_option JStr userId)))"

section \<open>The bundle as JSON\<close>

definition hexJ :: "bytes \<Rightarrow> json" where "hexJ b = JStr (toHex b)"

definition serIdentity :: "IdentityKeys \<Rightarrow> json" where
  "serIdentity ik = JObj
     [(''ed25519_pub'', hexJ (ed25519_pub ik)), (''ed25519_priv'', hexJ (ed25519_priv ik)),
      (''dilithium3_pub'', hexJ (dilithium3_pub ik)), (''dilithium3_priv'', hexJ (dilithium3_priv ik)),
      (''kyber1024_pub'', hexJ (kyber1024_pub ik)), (''kyber1024_priv'', hexJ (kyber1024_priv ik)),
      (''x25519_pub'', hexJ (x25519_pub ik)), (''x25519_priv'', hexJ (x25519_priv ik))]"

definition serOpk :: "PreKey \<Rightarrow> json" where
  "serOpk k = JObj [(''id'', JNum (pk_id k)), (''pub'', hexJ (pk_pub k)), (''priv'', hexJ (pk_priv k))]"

definition serRetired :: "RetiredSpk \<Rightarrow> json" where
  "serRetired k = JObj ([(''pub'', hexJ (rs_pub k)), (''priv'', hexJ (rs_priv k))] @
                        jopt ''retiredAt'' (map_option JNum (rs_retiredAt k)))"

definition serialize :: "IdentityBundle \<Rightarrow> bool \<Rightarrow> string" where
  "serialize b includeMnemonic = stringify (JObj
     ([(''userId'', JStr (b_userId b)), (''mnemonic'', JStr (if includeMnemonic then b_mnemonic b else [])),
       (''masterSeed'', hexJ (b_masterSeed b)), (''identity'', serIdentity (b_identity b)),
       (''spk'', JObj [(''pub'', hexJ (kp_pub (b_spk b))), (''priv'', hexJ (kp_priv (b_spk b)))]),
       (''spkSig'', JObj [(''ed'', hexJ (sig_ed (b_spkSig b))), (''dil'', hexJ (sig_dil (b_spkSig b)))]),
       (''opks'', JArr (map serOpk (b_opks b))),
       (''prevSpks'', JArr (map serRetired (orElse (b_prevSpks b) [])))] @
      jopt ''spkRotateAfter'' (map_option JNum (b_spkRotateAfter b)) @
      jopt ''spkPending'' (map_option JBool (b_spkPending b)) @
      jopt ''opkPending'' (map_option (\<lambda>is. JArr (map JNum is)) (b_opkPending b))))"

definition hexF :: "string \<Rightarrow> json \<Rightarrow> bytes option" where
  "hexF k j = map_option fromHex (jstr (jget k j))"

definition desIdentity :: "json \<Rightarrow> IdentityKeys option" where
  "desIdentity j =
     (case (hexF ''ed25519_pub'' j, hexF ''ed25519_priv'' j, hexF ''dilithium3_pub'' j, hexF ''dilithium3_priv'' j,
            hexF ''kyber1024_pub'' j, hexF ''kyber1024_priv'' j, hexF ''x25519_pub'' j, hexF ''x25519_priv'' j) of
        (Some a, Some b, Some c, Some d, Some e, Some f, Some g, Some h) \<Rightarrow>
          Some \<lparr>ed25519_pub = a, ed25519_priv = b, dilithium3_pub = c, dilithium3_priv = d,
                kyber1024_pub = e, kyber1024_priv = f, x25519_pub = g, x25519_priv = h\<rparr>
      | _ \<Rightarrow> None)"

definition desOpk :: "json \<Rightarrow> PreKey option" where
  "desOpk j = (case (jint (jget ''id'' j), hexF ''pub'' j, hexF ''priv'' j) of
     (Some i, Some a, Some b) \<Rightarrow> Some \<lparr>pk_id = i, pk_pub = a, pk_priv = b\<rparr> | _ \<Rightarrow> None)"

definition desRetired :: "json \<Rightarrow> RetiredSpk option" where
  "desRetired j = (case (hexF ''pub'' j, hexF ''priv'' j) of
     (Some a, Some b) \<Rightarrow> Some \<lparr>rs_pub = a, rs_priv = b, rs_retiredAt = jint (jget ''retiredAt'' j)\<rparr> | _ \<Rightarrow> None)"

definition allOf :: "(json \<Rightarrow> 'a option) \<Rightarrow> json list \<Rightarrow> 'a list option" where
  "allOf p xs = (if list_all (\<lambda>x. p x \<noteq> None) xs then Some (map (\<lambda>x. the (p x)) xs) else None)"

definition desPair :: "string \<Rightarrow> string \<Rightarrow> json option \<Rightarrow> (bytes \<times> bytes) option" where
  "desPair a b v = Option.bind v (\<lambda>j. case (hexF a j, hexF b j) of
     (Some x, Some y) \<Rightarrow> Some (x, y) | _ \<Rightarrow> None)"

definition deserialize :: "string \<Rightarrow> IdentityBundle option" where
  "deserialize js = Option.bind (json_parse js) (\<lambda>s.
     case (jstr (jget ''userId'' s), jstr (jget ''mnemonic'' s), hexF ''masterSeed'' s,
           Option.bind (jget ''identity'' s) desIdentity, desPair ''pub'' ''priv'' (jget ''spk'' s),
           desPair ''ed'' ''dil'' (jget ''spkSig'' s), Option.bind (jarr (jget ''opks'' s)) (allOf desOpk),
           allOf desRetired (orElse (jarr (jget ''prevSpks'' s)) [])) of
       (Some u, Some m, Some seed, Some ik, Some spk, Some sig, Some opks, Some prev) \<Rightarrow>
         Some \<lparr>b_userId = u, b_mnemonic = m, b_masterSeed = seed, b_identity = ik,
               b_spk = \<lparr>kp_pub = fst spk, kp_priv = snd spk\<rparr>, b_spkSig = \<lparr>sig_ed = fst sig, sig_dil = snd sig\<rparr>,
               b_opks = opks, b_prevSpks = Some prev, b_spkRotateAfter = jint (jget ''spkRotateAfter'' s),
               b_spkPending = jbool (jget ''spkPending'' s),
               b_opkPending = Option.bind (jarr (jget ''opkPending'' s)) (allOf (\<lambda>x. jint (Some x)))\<rparr>
     | _ \<Rightarrow> None)"

section \<open>Storing the bundle\<close>

definition identityRow :: "IdentityBundle \<Rightarrow> bytes \<Rightarrow> IdentityRow" where
  "identityRow b enc =
     \<lparr>id_user_id = b_userId b, id_ed25519_pub = ed25519_pub (b_identity b),
      id_dilithium3_pub = dilithium3_pub (b_identity b), id_kyber_pub = kyber1024_pub (b_identity b),
      id_x25519_pub = x25519_pub (b_identity b), id_priv_bundle_enc = Some enc\<rparr>"

definition writeBundle :: "env \<Rightarrow> IdentityBundle \<Rightarrow> bool \<Rightarrow> cryptoKey \<Rightarrow> unit act" where
  "writeBundle E b includeMnemonic key =
     await (encryptString E key (serialize b includeMnemonic)) (\<lambda>enc.
     dbModify (identity_tbl_update (tput (b_userId b) (identityRow b enc))))"

definition persistGeneratedIdentity :: "env \<Rightarrow> IdentityBundle \<Rightarrow> unit act" where
  "persistGeneratedIdentity E b =
     await (getMasterKey E) (\<lambda>k. andThen (writeBundle E b True k) (saveProgress ''keys'' (Some (b_userId b))))"

definition loadBundle :: "env \<Rightarrow> IdentityBundle option act" where
  "loadBundle E =
     await loadProgress (\<lambda>progress.
     if orElse (pr_userId progress) [] = [] then ret None else
     await (dbGets (\<lambda>d. tget (identity_tbl d) (the (pr_userId progress)))) (\<lambda>row.
     case Option.bind row id_priv_bundle_enc of
       None \<Rightarrow> ret None
     | Some enc \<Rightarrow>
         await (getMasterKey E) (\<lambda>k.
         await (decryptString E k enc) (\<lambda>js.
         case deserialize js of None \<Rightarrow> throw (JsError ''SyntaxError'') | Some b \<Rightarrow> ret (Some b)))))"

lemma keeps_loadBundle [keeps_intro]: "keeps quiet (loadBundle E)"
  unfolding loadBundle_def loadProgress_def by (intro q.keeps_rules keeps_intro)

definition finalizeIdentity :: "env \<Rightarrow> IdentityBundle \<Rightarrow> unit act" where
  "finalizeIdentity E b =
     await (getMasterKey E) (\<lambda>k. andThen (writeBundle E b True k) (saveProgress ''done'' (Some (b_userId b))))"

definition saveBundle :: "env \<Rightarrow> IdentityBundle \<Rightarrow> unit act" where
  "saveBundle E b = await (getMasterKey E) (writeBundle E b True)"

definition clearOnboarding :: "unit act" where
  "clearOnboarding =
     await loadProgress (\<lambda>progress.
     andThen (whenM (orElse (pr_userId progress) [] \<noteq> [])
       (dbModify (identity_tbl_update (tdelete (the (pr_userId progress)))))) (
     settingDelete PROGRESS_KEY))"

section \<open>Round trips\<close>

text \<open>What comes back: an absent list of previous prekeys is read as an empty one.\<close>

definition normBundle :: "IdentityBundle \<Rightarrow> IdentityBundle" where
  "normBundle b = b\<lparr>b_prevSpks := Some (orElse (b_prevSpks b) [])\<rparr>"

lemma allOf_map: "(\<And>x. x \<in> set xs \<Longrightarrow> p (f x) = Some x) \<Longrightarrow> allOf p (map f xs) = Some xs"
  by (auto simp: allOf_def list_all_iff map_idI)

lemma desIdentity_ser [simp]: "desIdentity (serIdentity ik) = Some ik"
  by (simp add: desIdentity_def serIdentity_def hexF_def hexJ_def)

lemma desOpk_ser [simp]: "desOpk (serOpk k) = Some k"
  by (simp add: desOpk_def serOpk_def hexF_def hexJ_def)

lemma desRetired_ser [simp]: "desRetired (serRetired k) = Some k"
  by (cases "rs_retiredAt k") (simp_all add: desRetired_def serRetired_def hexF_def hexJ_def jopt_def)

lemma noDec_hexJ [simp]: "noDec (hexJ b)"
  by (simp add: hexJ_def)

lemma noDec_ser [simp]: "noDec (serIdentity ik)" "noDec (serOpk k)" "noDec (serRetired r)"
  by (simp_all add: serIdentity_def serOpk_def serRetired_def jopt_def split: option.splits)

lemma jget_append_notin: "k \<notin> fst ` set ys \<Longrightarrow> map_of (rev (xs @ ys)) k = map_of (rev xs) k"
  by (simp add: map_add_dom_app_simps(3) dom_map_of_conv_image_fst)

lemma deserialize_serialize: "deserialize (serialize b True) = Some (normBundle b)"
proof -
  have opks: "allOf desOpk (map serOpk (b_opks b)) = Some (b_opks b)"
    by (simp add: allOf_map)
  have prev: "allOf desRetired (map serRetired xs) = Some xs" for xs
    by (simp add: allOf_map)
  have pend: "allOf (\<lambda>x. jint (Some x)) (map JNum xs) = Some xs" for xs
    by (simp add: allOf_map)
  show ?thesis
    by (cases "b_spkRotateAfter b"; cases "b_spkPending b"; cases "b_opkPending b";
        simp add: serialize_def deserialize_def jopt_def hexF_def hexJ_def desPair_def opks prev pend
          normBundle_def list_all_iff)
qed

lemma keyMaterial_roundtrip: "masterSeedFromKeyMaterial (buildKeyMaterial s) = Inr s"
  by (simp add: masterSeedFromKeyMaterial_def buildKeyMaterial_def)

text \<open>The bundle stored for a user, under a key.\<close>

definition storedBundle :: "env \<Rightarrow> cryptoKey \<Rightarrow> privexDB \<Rightarrow> string \<Rightarrow> IdentityBundle option" where
  "storedBundle E k d u =
     Option.bind (Option.bind (tget (identity_tbl d) u) id_priv_bundle_enc) (\<lambda>enc.
     Option.bind (reads E k enc) (\<lambda>p. deserialize (textDecode p)))"

definition savedRow :: "env \<Rightarrow> cryptoKey \<Rightarrow> IdentityBundle \<Rightarrow> nat \<Rightarrow> IdentityRow" where
  "savedRow E k b t =
     identityRow b (ivAt E t @ aes_enc E k (ivAt E t) (textEncode (serialize b True)))"

lemma run_writeBundle:
  "writeBundle E b True k w =
     (Inr (), w\<lparr>tick := Suc (tick w),
                idb := identity_tbl_update (tput (b_userId b) (savedRow E k b (tick w))) (idb w)\<rparr>)"
  by (simp add: writeBundle_def savedRow_def)

lemma run_saveBundle:
  "keyOf w = Some k \<Longrightarrow> saveBundle E b w =
     (Inr (), w\<lparr>tick := Suc (tick w),
                idb := identity_tbl_update (tput (b_userId b) (savedRow E k b (tick w))) (idb w)\<rparr>)"
  using getMasterKey_keyOf [of w k E] by (simp add: saveBundle_def run_writeBundle)

lemma stored_savedRow [simp]:
  "aes_correct E \<Longrightarrow>
   storedBundle E k (identity_tbl_update (tput (b_userId b) (savedRow E k b t)) d) (b_userId b) = Some (normBundle b)"
  by (simp add: storedBundle_def savedRow_def identityRow_def deserialize_serialize)

lemma saveBundle_locked: "keyOf w = None \<Longrightarrow> masterHandle (keystore w) \<noteq> None \<or> lockMeta (keystore w) \<noteq> None \<Longrightarrow>
   saveBundle E b w = (Inl (JsError ''locked''), w)"
  by (auto simp: saveBundle_def keyOf_def ksKey_def run_getMasterKey split: option.splits if_splits)

text \<open>The identity survives being stored: after onboarding persisted a generated
  identity, loading it on the next start gives the same bundle (with the list of retired
  prekeys made explicit), whatever keys, one-time prekeys and pending markers it holds.\<close>

theorem persist_load_bundle:
  assumes "aes_correct E" and "keyOf w = Some k" and "b_userId b \<noteq> []"
  shows "\<exists>w' w''. persistGeneratedIdentity E b w = (Inr (), w') \<and>
           loadBundle E w' = (Inr (Some (normBundle b)), w'')"
proof -
  note key = getMasterKey_keyOf [OF assms(2), of E]
  define w' where "w' = snd (persistGeneratedIdentity E b w)"
  have run: "persistGeneratedIdentity E b w = (Inr (), w')" and k': "keyOf w' = Some k"
    using key assms(2) by (simp_all add: w'_def persistGeneratedIdentity_def writeBundle_def saveProgress_def)
  have "loadProgress w' = (Inr \<lparr>pr_step = ''keys'', pr_userId = Some (b_userId b)\<rparr>, w')"
    using key by (simp add: w'_def persistGeneratedIdentity_def writeBundle_def saveProgress_def
        loadProgress_def jopt_def)
  moreover have "\<exists>enc. Option.bind (tget (identity_tbl (idb w')) (b_userId b)) id_priv_bundle_enc = Some enc \<and>
      reads E k enc = Some (textEncode (serialize b True))"
    using key assms(1) by (simp add: w'_def persistGeneratedIdentity_def writeBundle_def saveProgress_def identityRow_def)
  ultimately have "loadBundle E w' = (Inr (Some (normBundle b)), w')"
    using assms(3) getMasterKey_keyOf [OF k', of E]
    by (auto simp: loadBundle_def run_decryptString deserialize_serialize)
  with run show ?thesis by blast
qed

end
