(* ===== verification/Envelope.thy ===== *)
theory Envelope
  imports Types
begin

text \<open>
  The message wire format (\<^verbatim>\<open>services/envelope.ts\<close>): the plaintext \<open>Content\<close> that the
  ratchet encrypts and the \<open>MessageEnvelope\<close> that Sealed Sender wraps. The byte codec is
  generated from the protocol's \<^verbatim>\<open>.proto\<close> files and is a parameter of the environment;
  what is relied on is that it decodes what it encoded, for numbers in the range of the
  fields.
\<close>

section \<open>Plaintext\<close>

definition emptyContent :: ProtoContent where
  "emptyContent = \<lparr>pco_text = None, pco_file = None, pco_contactHello = None, pco_contactAccept = None,
     pco_receipt = None, pco_receiptRequest = None\<rparr>"

definition protoRequest :: "ReceiptRequestWire \<Rightarrow> ProtoReceiptRequest" where
  "protoRequest r = \<lparr>prr_tokenId = rr_tokenId r, prr_requestDelivery = rr_requestDelivery r,
                     prr_requestRead = rr_requestRead r\<rparr>"

definition encodeText :: "env \<Rightarrow> string \<Rightarrow> int \<Rightarrow> ReceiptRequestWire option \<Rightarrow> bytes" where
  "encodeText E body sentAt receipt = content_encode E
     (emptyContent\<lparr>pco_text := Some \<lparr>ptx_body = body, ptx_sentAt = sentAt\<rparr>,
                   pco_receiptRequest := map_option protoRequest receipt\<rparr>)"

definition encodeContactHello :: "env \<Rightarrow> int \<Rightarrow> bytes" where
  "encodeContactHello E sentAt = content_encode E (emptyContent\<lparr>pco_contactHello := Some sentAt\<rparr>)"

definition encodeContactAccept :: "env \<Rightarrow> int \<Rightarrow> bytes" where
  "encodeContactAccept E sentAt = content_encode E (emptyContent\<lparr>pco_contactAccept := Some sentAt\<rparr>)"

definition receiptName :: "receiptType \<Rightarrow> string" where
  "receiptName t = (case t of Delivered \<Rightarrow> ''delivered'' | Read \<Rightarrow> ''read'')"

definition encodeReceipt :: "env \<Rightarrow> bytes \<Rightarrow> receiptType \<Rightarrow> bytes" where
  "encodeReceipt E tokenId type = content_encode E
     (emptyContent\<lparr>pco_receipt := Some \<lparr>prc_tokenId = tokenId, prc_receiptType = receiptName type\<rparr>\<rparr>)"

record DecodedText =
  dt_body :: string
  dt_sentAt :: int

definition decodeText :: "env \<Rightarrow> bytes \<Rightarrow> error + DecodedText" where
  "decodeText E bs = bindE (content_decode E bs) (\<lambda>c.
     case pco_text c of
       None \<Rightarrow> Inl (JsError ''message is not a text message'')
     | Some t \<Rightarrow> Inr \<lparr>dt_body = ptx_body t, dt_sentAt = ptx_sentAt t\<rparr>)"

definition encodeFile :: "env \<Rightarrow> FileFields \<Rightarrow> ReceiptRequestWire option \<Rightarrow> bytes" where
  "encodeFile E f receipt = content_encode E
     (emptyContent\<lparr>pco_file := Some
        \<lparr>pfl_filenameEncrypted = ff_filenameEnc f, pfl_mimeTypeEncrypted = ff_mimeEnc f,
         pfl_totalSize = ff_totalSize f, pfl_sha256Plaintext = ff_sha256 f, pfl_chunkIds = ff_chunkIds f,
         pfl_wrappedCek = ff_wrappedCek f, pfl_cekEphPub = ff_ephPub f,
         pfl_thumbnailEncrypted = orElse (ff_thumbnailEnc f) [], pfl_sentAt = ff_sentAt f\<rparr>,
      pco_receiptRequest := map_option protoRequest receipt\<rparr>)"

record DecodedReceipt =
  dr_tokenId :: bytes
  dr_type :: receiptType

record DecodedContent =
  dc_text :: "DecodedText option"
  dc_file :: "FileFields option"
  dc_contactHello :: bool
  dc_contactAccept :: bool
  dc_receipt :: "DecodedReceipt option"
  dc_receiptRequest :: "ReceiptRequestWire option"

definition noContent :: DecodedContent where
  "noContent = \<lparr>dc_text = None, dc_file = None, dc_contactHello = False, dc_contactAccept = False,
     dc_receipt = None, dc_receiptRequest = None\<rparr>"

definition decodeRequest :: "ProtoReceiptRequest option \<Rightarrow> ReceiptRequestWire option" where
  "decodeRequest v = (case v of None \<Rightarrow> None | Some r \<Rightarrow>
     if prr_tokenId r = [] then None
     else Some \<lparr>rr_tokenId = prr_tokenId r, rr_requestDelivery = prr_requestDelivery r,
                rr_requestRead = prr_requestRead r\<rparr>)"

definition decodeFile :: "ProtoFile \<Rightarrow> FileFields" where
  "decodeFile f =
     \<lparr>ff_filenameEnc = pfl_filenameEncrypted f, ff_mimeEnc = pfl_mimeTypeEncrypted f,
      ff_totalSize = pfl_totalSize f, ff_sha256 = pfl_sha256Plaintext f, ff_chunkIds = pfl_chunkIds f,
      ff_wrappedCek = pfl_wrappedCek f, ff_ephPub = pfl_cekEphPub f,
      ff_thumbnailEnc = (if pfl_thumbnailEncrypted f \<noteq> [] then Some (pfl_thumbnailEncrypted f) else None),
      ff_sentAt = pfl_sentAt f\<rparr>"

definition decodeContent :: "env \<Rightarrow> bytes \<Rightarrow> error + DecodedContent" where
  "decodeContent E bs = bindE (content_decode E bs) (\<lambda>c.
     if pco_contactHello c \<noteq> None then Inr (noContent\<lparr>dc_contactHello := True\<rparr>)
     else if pco_contactAccept c \<noteq> None then Inr (noContent\<lparr>dc_contactAccept := True\<rparr>)
     else case pco_receipt c of
       Some r \<Rightarrow> Inr (noContent\<lparr>dc_receipt := Some \<lparr>dr_tokenId = prc_tokenId r,
                   dr_type = (if prc_receiptType r = ''read'' then Read else Delivered)\<rparr>\<rparr>)
     | None \<Rightarrow>
         (let receiptRequest = decodeRequest (pco_receiptRequest c) in
          case pco_text c of
            Some t \<Rightarrow> Inr (noContent\<lparr>dc_text := Some \<lparr>dt_body = ptx_body t, dt_sentAt = ptx_sentAt t\<rparr>,
                                     dc_receiptRequest := receiptRequest\<rparr>)
          | None \<Rightarrow>
              (case pco_file c of
                 Some f \<Rightarrow> Inr (noContent\<lparr>dc_file := Some (decodeFile f), dc_receiptRequest := receiptRequest\<rparr>)
               | None \<Rightarrow> Inr noContent)))"

section \<open>Transport envelope\<close>

definition encodeEnvelope :: "env \<Rightarrow> bytes \<Rightarrow> bytes \<Rightarrow> PqxdhInitWire option \<Rightarrow> bytes" where
  "encodeEnvelope E header ciphertext pqxdh = envelope_encode E
     \<lparr>pen_ratchetHeader = header, pen_ratchetCiphertext = ciphertext,
      pen_pqxdh = map_option (\<lambda>p. \<lparr>ppq_aliceIkPub = alice_ik_pub p, ppq_aliceEkPub = alice_ek_pub p,
         ppq_kyberCiphertext = kyber_ciphertext p, ppq_opkUsed = opk_used p, ppq_opkId = opk_id p\<rparr>) pqxdh,
      pen_deviceSync = None\<rparr>"

definition encodeDeviceSyncEnvelope :: "env \<Rightarrow> DeviceSyncWire \<Rightarrow> bytes" where
  "encodeDeviceSyncEnvelope E sync = envelope_encode E
     \<lparr>pen_ratchetHeader = [], pen_ratchetCiphertext = [], pen_pqxdh = None,
      pen_deviceSync = Some \<lparr>pds_toDevice = ds_toDevice sync, pds_fromDevice = ds_fromDevice sync,
                             pds_blob = ds_blob sync\<rparr>\<rparr>"

record DecodedEnvelope =
  de_header :: bytes
  de_ciphertext :: bytes
  de_pqxdh :: "PqxdhInitWire option"
  de_deviceSync :: "DeviceSyncWire option"

definition decodeEnvelope :: "env \<Rightarrow> bytes \<Rightarrow> error + DecodedEnvelope" where
  "decodeEnvelope E bs = bindE (envelope_decode E bs) (\<lambda>e. Inr
     \<lparr>de_header = pen_ratchetHeader e, de_ciphertext = pen_ratchetCiphertext e,
      de_pqxdh = map_option (\<lambda>p. \<lparr>alice_ik_pub = ppq_aliceIkPub p, alice_ek_pub = ppq_aliceEkPub p,
         kyber_ciphertext = ppq_kyberCiphertext p, opk_used = ppq_opkUsed p, opk_id = ppq_opkId p\<rparr>) (pen_pqxdh e),
      de_deviceSync = (case pen_deviceSync e of None \<Rightarrow> None | Some d \<Rightarrow>
         if pds_toDevice d = [] then None
         else Some \<lparr>ds_toDevice = pds_toDevice d, ds_fromDevice = pds_fromDevice d, ds_blob = pds_blob d\<rparr>)\<rparr>)"

section \<open>Round trips\<close>

definition safeInt :: "int \<Rightarrow> bool" where
  "safeInt n \<longleftrightarrow> 0 \<le> n \<and> n < 2 ^ 53"

definition contentInRange :: "ProtoContent \<Rightarrow> bool" where
  "contentInRange c \<longleftrightarrow>
     (\<forall>t. pco_text c = Some t \<longrightarrow> safeInt (ptx_sentAt t)) \<and>
     (\<forall>f. pco_file c = Some f \<longrightarrow> safeInt (pfl_totalSize f) \<and> safeInt (pfl_sentAt f)) \<and>
     (\<forall>n. pco_contactHello c = Some n \<longrightarrow> safeInt n) \<and> (\<forall>n. pco_contactAccept c = Some n \<longrightarrow> safeInt n)"

definition envelopeInRange :: "ProtoEnvelope \<Rightarrow> bool" where
  "envelopeInRange e \<longleftrightarrow> (\<forall>p. pen_pqxdh e = Some p \<longrightarrow> 0 \<le> ppq_opkId p \<and> ppq_opkId p < 2 ^ 32)"

text \<open>What is relied on of the generated codec.\<close>

definition codec_correct :: "env \<Rightarrow> bool" where
  "codec_correct E \<longleftrightarrow>
     (\<forall>c. contentInRange c \<longrightarrow> content_decode E (content_encode E c) = Inr c) \<and>
     (\<forall>e. envelopeInRange e \<longrightarrow> envelope_decode E (envelope_encode E e) = Inr e)"

lemma codecD:
  "codec_correct E \<Longrightarrow> contentInRange c \<Longrightarrow> content_decode E (content_encode E c) = Inr c"
  "codec_correct E \<Longrightarrow> envelopeInRange e \<Longrightarrow> envelope_decode E (envelope_encode E e) = Inr e"
  by (simp_all add: codec_correct_def)

text \<open>Every content the client sends is read back as exactly that kind of content by a
  peer: a text with its body, time and receipt request, a contact request, a contact accept,
  a receipt with its token and type.\<close>

theorem decodeContent_encode:
  assumes "codec_correct E" and "safeInt t" and "\<forall>r. receipt = Some r \<longrightarrow> rr_tokenId r \<noteq> []"
  shows "decodeContent E (encodeText E body t receipt)
           = Inr (noContent\<lparr>dc_text := Some \<lparr>dt_body = body, dt_sentAt = t\<rparr>, dc_receiptRequest := receipt\<rparr>) \<and>
         decodeContent E (encodeContactHello E t) = Inr (noContent\<lparr>dc_contactHello := True\<rparr>) \<and>
         decodeContent E (encodeContactAccept E t) = Inr (noContent\<lparr>dc_contactAccept := True\<rparr>) \<and>
         decodeContent E (encodeReceipt E tok ty)
           = Inr (noContent\<lparr>dc_receipt := Some \<lparr>dr_tokenId = tok, dr_type = ty\<rparr>\<rparr>)"
  using assms
  by (cases ty; cases receipt)
     (simp_all add: decodeContent_def encodeText_def encodeContactHello_def encodeContactAccept_def
       encodeReceipt_def codecD contentInRange_def emptyContent_def receiptName_def decodeRequest_def protoRequest_def)

text \<open>The envelope carries the ratchet message and the handshake unchanged, and a sync
  copy carries its addressee, origin and ciphertext unchanged and no handshake.\<close>

theorem decodeEnvelope_encode:
  assumes "codec_correct E" and "\<forall>p. pq = Some p \<longrightarrow> 0 \<le> opk_id p \<and> opk_id p < 2 ^ 32" and "ds_toDevice s \<noteq> []"
  shows "decodeEnvelope E (encodeEnvelope E h c pq)
           = Inr \<lparr>de_header = h, de_ciphertext = c, de_pqxdh = pq, de_deviceSync = None\<rparr> \<and>
         decodeEnvelope E (encodeDeviceSyncEnvelope E s)
           = Inr \<lparr>de_header = [], de_ciphertext = [], de_pqxdh = None, de_deviceSync = Some s\<rparr>"
  using assms
  by (cases pq) (simp_all add: decodeEnvelope_def encodeEnvelope_def encodeDeviceSyncEnvelope_def codecD envelopeInRange_def)

end
