(* ===== verification/Sample.thy ===== *)
theory Sample
  imports Codec Identity Envelope
begin

text \<open>
  A concrete environment and a concrete signed-in client, on which the properties with
  hypotheses are instantiated. The sample cipher is the identity, the sample hash a constant,
  the sample server answers every request with one object that has the fields the client
  reads, and the sample message codec is JSON.
\<close>

section \<open>A sample codec\<close>

text \<open>The generated byte codec is a parameter; the sample one writes each message as JSON.\<close>

definition jB :: "bytes \<Rightarrow> json" where "jB b = JStr (toHex b)"
definition unB :: "json option \<Rightarrow> bytes" where "unB v = fromHex (orElse (jstr v) [])"
definition jO :: "('a \<Rightarrow> json) \<Rightarrow> 'a option \<Rightarrow> json" where "jO f v = JArr (case v of None \<Rightarrow> [] | Some x \<Rightarrow> [f x])"
definition unO :: "(json \<Rightarrow> 'a) \<Rightarrow> json option \<Rightarrow> 'a option" where
  "unO f v = (case v of Some (JArr [x]) \<Rightarrow> Some (f x) | _ \<Rightarrow> None)"
definition unI :: "json option \<Rightarrow> int" where "unI v = orElse (jint v) 0"
definition unS :: "json option \<Rightarrow> string" where "unS v = orElse (jstr v) []"
definition unL :: "json option \<Rightarrow> bool" where "unL v = orElse (jbool v) False"
definition unA :: "json option \<Rightarrow> string list" where
  "unA v = (case v of Some (JArr xs) \<Rightarrow> map (\<lambda>x. orElse (jstr (Some x)) []) xs | _ \<Rightarrow> [])"

lemma codec_prims [simp]:
  "unB (Some (jB b)) = b" "unI (Some (JNum n)) = n" "unS (Some (JStr s)) = s" "unL (Some (JBool l)) = l"
  "unA (Some (JArr (map JStr xs))) = xs"
  by (simp_all add: unB_def jB_def unI_def unS_def unL_def unA_def o_def)

lemma unO_jO [simp]: "(\<And>x. v = Some x \<Longrightarrow> g (f x) = x) \<Longrightarrow> unO g (Some (jO f v)) = v"
  by (cases v) (simp_all add: unO_def jO_def)

definition jText :: "ProtoText \<Rightarrow> json" where
  "jText t = JObj [(''b'', JStr (ptx_body t)), (''t'', JNum (ptx_sentAt t))]"
definition unText :: "json \<Rightarrow> ProtoText" where
  "unText j = \<lparr>ptx_body = unS (jget ''b'' j), ptx_sentAt = unI (jget ''t'' j)\<rparr>"

definition jFile :: "ProtoFile \<Rightarrow> json" where
  "jFile f = JObj [(''n'', jB (pfl_filenameEncrypted f)), (''m'', jB (pfl_mimeTypeEncrypted f)),
     (''s'', JNum (pfl_totalSize f)), (''h'', jB (pfl_sha256Plaintext f)), (''c'', JArr (map JStr (pfl_chunkIds f))),
     (''w'', jB (pfl_wrappedCek f)), (''e'', jB (pfl_cekEphPub f)), (''i'', jB (pfl_thumbnailEncrypted f)),
     (''t'', JNum (pfl_sentAt f))]"
definition unFile :: "json \<Rightarrow> ProtoFile" where
  "unFile j = \<lparr>pfl_filenameEncrypted = unB (jget ''n'' j), pfl_mimeTypeEncrypted = unB (jget ''m'' j),
     pfl_totalSize = unI (jget ''s'' j), pfl_sha256Plaintext = unB (jget ''h'' j), pfl_chunkIds = unA (jget ''c'' j),
     pfl_wrappedCek = unB (jget ''w'' j), pfl_cekEphPub = unB (jget ''e'' j),
     pfl_thumbnailEncrypted = unB (jget ''i'' j), pfl_sentAt = unI (jget ''t'' j)\<rparr>"

definition jReceipt :: "ProtoReceipt \<Rightarrow> json" where
  "jReceipt r = JObj [(''k'', jB (prc_tokenId r)), (''y'', JStr (prc_receiptType r))]"
definition unReceipt :: "json \<Rightarrow> ProtoReceipt" where
  "unReceipt j = \<lparr>prc_tokenId = unB (jget ''k'' j), prc_receiptType = unS (jget ''y'' j)\<rparr>"

definition jRequest :: "ProtoReceiptRequest \<Rightarrow> json" where
  "jRequest r = JObj [(''k'', jB (prr_tokenId r)), (''d'', JBool (prr_requestDelivery r)), (''r'', JBool (prr_requestRead r))]"
definition unRequest :: "json \<Rightarrow> ProtoReceiptRequest" where
  "unRequest j = \<lparr>prr_tokenId = unB (jget ''k'' j), prr_requestDelivery = unL (jget ''d'' j), prr_requestRead = unL (jget ''r'' j)\<rparr>"

definition jContent :: "ProtoContent \<Rightarrow> json" where
  "jContent c = JObj [(''t'', jO jText (pco_text c)), (''f'', jO jFile (pco_file c)), (''h'', jO JNum (pco_contactHello c)),
     (''a'', jO JNum (pco_contactAccept c)), (''r'', jO jReceipt (pco_receipt c)), (''q'', jO jRequest (pco_receiptRequest c))]"
definition unContent :: "json \<Rightarrow> ProtoContent" where
  "unContent j = \<lparr>pco_text = unO unText (jget ''t'' j), pco_file = unO unFile (jget ''f'' j),
     pco_contactHello = unO (\<lambda>x. unI (Some x)) (jget ''h'' j), pco_contactAccept = unO (\<lambda>x. unI (Some x)) (jget ''a'' j),
     pco_receipt = unO unReceipt (jget ''r'' j), pco_receiptRequest = unO unRequest (jget ''q'' j)\<rparr>"

definition jPqxdh :: "ProtoPqxdh \<Rightarrow> json" where
  "jPqxdh p = JObj [(''i'', jB (ppq_aliceIkPub p)), (''e'', jB (ppq_aliceEkPub p)), (''c'', jB (ppq_kyberCiphertext p)),
     (''u'', JBool (ppq_opkUsed p)), (''n'', JNum (ppq_opkId p))]"
definition unPqxdh :: "json \<Rightarrow> ProtoPqxdh" where
  "unPqxdh j = \<lparr>ppq_aliceIkPub = unB (jget ''i'' j), ppq_aliceEkPub = unB (jget ''e'' j), ppq_kyberCiphertext = unB (jget ''c'' j),
     ppq_opkUsed = unL (jget ''u'' j), ppq_opkId = unI (jget ''n'' j)\<rparr>"

definition jSync :: "ProtoDeviceSync \<Rightarrow> json" where
  "jSync d = JObj [(''t'', jB (pds_toDevice d)), (''f'', jB (pds_fromDevice d)), (''b'', jB (pds_blob d))]"
definition unSync :: "json \<Rightarrow> ProtoDeviceSync" where
  "unSync j = \<lparr>pds_toDevice = unB (jget ''t'' j), pds_fromDevice = unB (jget ''f'' j), pds_blob = unB (jget ''b'' j)\<rparr>"

definition jEnvelope :: "ProtoEnvelope \<Rightarrow> json" where
  "jEnvelope e = JObj [(''h'', jB (pen_ratchetHeader e)), (''c'', jB (pen_ratchetCiphertext e)),
     (''p'', jO jPqxdh (pen_pqxdh e)), (''d'', jO jSync (pen_deviceSync e))]"
definition unEnvelope :: "json \<Rightarrow> ProtoEnvelope" where
  "unEnvelope j = \<lparr>pen_ratchetHeader = unB (jget ''h'' j), pen_ratchetCiphertext = unB (jget ''c'' j),
     pen_pqxdh = unO unPqxdh (jget ''p'' j), pen_deviceSync = unO unSync (jget ''d'' j)\<rparr>"

definition jsonWire :: "(json \<Rightarrow> 'a) \<Rightarrow> bytes \<Rightarrow> error + 'a" where
  "jsonWire f b = (case json_parse (textDecode b) of None \<Rightarrow> Inl (JsError ''bad'') | Some j \<Rightarrow> Inr (f j))"

lemma wire_parts [simp]:
  "unText (jText t) = t" "unFile (jFile f) = f" "unReceipt (jReceipt r) = r" "unRequest (jRequest q) = q"
  "unPqxdh (jPqxdh p) = p" "unSync (jSync d) = d"
  by (simp_all add: unText_def jText_def unFile_def jFile_def unReceipt_def jReceipt_def unRequest_def jRequest_def
      unPqxdh_def jPqxdh_def unSync_def jSync_def)

lemma wire_wholes [simp]: "unContent (jContent c) = c" "unEnvelope (jEnvelope e) = e"
  by (simp_all add: unContent_def jContent_def unEnvelope_def jEnvelope_def)

section \<open>The sample environment\<close>

definition wasm0 :: wasmModule where
  "wasm0 =
     \<lparr>w_generate_seed_phrase = (\<lambda>e. Inr ''abandon ability''),
      w_seed_phrase_to_master_seed = (\<lambda>m. Inr [1, 2, 3]),
      w_derive_keypairs_from_seed = (\<lambda>s. Inr \<lparr>ed25519_pub = s, ed25519_priv = s, dilithium3_pub = s,
         dilithium3_priv = s, kyber1024_pub = s, kyber1024_priv = s, x25519_pub = s, x25519_priv = s\<rparr>),
      w_user_id_from_ed25519 = (\<lambda>p. Inr (''px_'' @ toHex p)),
      w_generate_x25519_prekey = (\<lambda>t i. Inr \<lparr>kp_pub = [word_of_nat i], kp_priv = [word_of_nat i]\<rparr>),
      w_sign_hybrid = (\<lambda>t d e p. Inr \<lparr>sig_ed = d, sig_dil = d\<rparr>),
      w_verify_hybrid = (\<lambda>d a b c e. Inr True),
      w_kt_verify_root_sig = (\<lambda>m s p. Inr True),
      w_kt_bundle_hash = (\<lambda>bs. Inr (concat bs)),
      w_kt_leaf_hash = (\<lambda>u h t. Inr h),
      w_kt_verify_inclusion = (\<lambda>l p r. Inr True),
      w_ratchet_encrypt = (\<lambda>t s p. Inr \<lparr>wre_ciphertext = p, wre_message_header = [], wre_new_session_state = s @ [1]\<rparr>),
      w_ratchet_decrypt = (\<lambda>t s c h. Inr \<lparr>wrd_plaintext = c, wrd_new_session_state = s @ [1]\<rparr>),
      w_ratchet_init_alice = (\<lambda>t s b. Inr s),
      w_ratchet_init_bob = (\<lambda>t s p b. Inr s),
      w_generate_sender_cert = (\<lambda>t i a b c d x n v. Inr (textEncode i)),
      w_sealed_sender_encrypt = (\<lambda>t m c r. Inr m),
      w_sealed_sender_decrypt = (\<lambda>t b p n. Inr \<lparr>wop_plaintext = b, wop_sender_id = ''px_peer'',
         wop_sender_ed_pub = [9], wop_sender_x25519_pub = replicate 32 9, wop_sender_verified = True\<rparr>),
      w_pqxdh_initiate = (\<lambda>t p a b c d. Inr \<lparr>wpi_shared_secret = p, wpi_alice_ik_pub = p, wpi_alice_ek_pub = p,
         wpi_kyber_ciphertext = p, wpi_opk_used = False\<rparr>),
      w_pqxdh_respond = (\<lambda>t i a b c d. Inr [5]),
      w_opaque_register_start = (\<lambda>t p. Inr \<lparr>wos_message = [1], wos_client_state = [2]\<rparr>),
      w_opaque_register_finish = (\<lambda>t a b c p. Inr \<lparr>wof_upload_message = a, wof_envelope = b, wof_envelope_mac = c\<rparr>),
      w_opaque_login_start = (\<lambda>t p q. Inr \<lparr>wos_message = [1], wos_client_state = [2]\<rparr>),
      w_opaque_login_finish = (\<lambda>t a b p. Inr \<lparr>wol_key_material = buildKeyMaterial [7], wol_finalization = b\<rparr>),
      w_pow_solve = (\<lambda>t c d. Inr \<lparr>wpw_nonce = 1, wpw_solution_hash = c\<rparr>),
      w_pow_solve_hybrid = (\<lambda>t c d m n a. Inr \<lparr>wpw_nonce = 1, wpw_solution_hash = c\<rparr>),
      w_generate_cek = (\<lambda>t. Inr (replicate 32 3)),
      w_wrap_cek = (\<lambda>t c r. Inr \<lparr>wwr_wrapped = c, wwr_eph_pub = replicate 32 4\<rparr>),
      w_unwrap_cek = (\<lambda>c e p. Inr c),
      w_shamir_split = (\<lambda>t s k n. Inr (replicate (nat n) s)),
      w_shamir_reconstruct = (\<lambda>ss. Inr (hd ss)),
      w_applock_derive_key = (\<lambda>p s m t. Inr (replicate 32 6)),
      w_devlink_channel_key = (\<lambda>a b. Inr (replicate 32 8))\<rparr>"

definition reply0 :: json where
  "reply0 = JObj [(''message_id'', JStr ''srv-1''), (''stored'', JNum 1), (''deleted'', JNum 1),
     (''rotated'', JBool True), (''registered'', JBool True), (''session_token'', JStr ''tok2''),
     (''challenge'', JStr ''00''), (''ticket'', JStr ''tk'')]"

definition env0 :: env where
  "env0 =
     \<lparr>date_now = (\<lambda>t. 1700000000000 + int t), rand_byte = (\<lambda>t i. word_of_nat t), rand_unit = (\<lambda>t. 0),
      rand_uuid = (\<lambda>t. ''local-1''),
      fetch = (\<lambda>t r. Some \<lparr>rsp_status = 200, rsp_json = Some reply0, rsp_raw = []\<rparr>), api_base = [],
      aes_enc = (\<lambda>k iv p. p), aes_dec = (\<lambda>k iv c. Some c), sha256 = (\<lambda>b. replicate 32 0),
      hmac256 = (\<lambda>k b. b), hkdf256 = (\<lambda>k i. replicate 32 0),
      content_encode = (\<lambda>c. textEncode (stringify (jContent c))), content_decode = jsonWire unContent,
      envelope_encode = (\<lambda>e. textEncode (stringify (jEnvelope e))), envelope_decode = jsonWire unEnvelope,
      wasm = wasm0, kt_signing_pub = ''00'', time_signing_pub = ''00''\<rparr>"

definition keys0 :: IdentityKeys where
  "keys0 = \<lparr>ed25519_pub = [1], ed25519_priv = [2], dilithium3_pub = [3], dilithium3_priv = [4],
     kyber1024_pub = [5], kyber1024_priv = [6], x25519_pub = [7], x25519_priv = [8]\<rparr>"

definition bundle0 :: IdentityBundle where
  "bundle0 = \<lparr>b_userId = ''px_me'', b_mnemonic = ''abandon'', b_masterSeed = [1, 2], b_identity = keys0,
     b_spk = \<lparr>kp_pub = [10], kp_priv = [11]\<rparr>, b_spkSig = \<lparr>sig_ed = [12], sig_dil = [13]\<rparr>,
     b_opks = [\<lparr>pk_id = 1, pk_pub = [14], pk_priv = [15]\<rparr>], b_prevSpks = Some [], b_spkRotateAfter = None,
     b_spkPending = None, b_opkPending = None\<rparr>"

definition db0 :: privexDB where
  "db0 = \<lparr>identity_tbl = [], sessions_tbl = [], messages_tbl = [], contacts_tbl = [], groups_tbl = [],
     blobs_tbl = [], settings_tbl = [], outbox_tbl = [], receipt_tbl = [], linked_tbl = [],
     received_tbl = [], handshakes_tbl = [], outbox_next = 1, receipt_next = 1\<rparr>"

definition key0 :: cryptoKey where "key0 = replicate 32 1"

definition world0 :: world where
  "world0 = \<lparr>idb = db0, keystore = \<lparr>memKey = None, memKeyBytes = None, masterHandle = Some key0, lockMeta = None\<rparr>,
     auth = \<lparr>au_authenticated = True, au_userId = Some ''px_me'', au_sessionToken = Some ''tok''\<rparr>,
     bundleCache = Some bundle0, certCache = None, upkeepRunning = False, serverLowPending = False,
     flushing = False, draining = False, clockDrift = 0, clockWarning = False, keyCache = None,
     backedContacts = [], renewTimer = None, renewEnabled = False, renewBackoffMs = 0,
     netlog = [], events = [], tasks = [], tick = 0\<rparr>"

lemma aes0 [simp]: "aes_correct env0"
  by (simp add: aes_correct_def env0_def)

lemma key0_of [simp]: "keyOf world0 = Some key0"
  by (simp add: keyOf_def ksKey_def world0_def)

lemma sha0 [simp]: "sha256 env0 b = replicate 32 0"
  by (simp add: env0_def)

lemma db0_simps [simp]:
  "identity_tbl db0 = []" "sessions_tbl db0 = []" "messages_tbl db0 = []" "contacts_tbl db0 = []"
  "groups_tbl db0 = []" "blobs_tbl db0 = []" "settings_tbl db0 = []" "outbox_tbl db0 = []"
  "receipt_tbl db0 = []" "linked_tbl db0 = []" "received_tbl db0 = []" "handshakes_tbl db0 = []"
  "outbox_next db0 = 1" "receipt_next db0 = 1"
  by (simp_all add: db0_def)

lemma world0_simps [simp]:
  "idb world0 = db0" "bundleCache world0 = Some bundle0" "netlog world0 = []" "tick world0 = 0"
  "au_sessionToken (auth world0) = Some ''tok''" "flushing world0 = False" "draining world0 = False"
  by (simp_all add: world0_def)

lemma bundle0_simps [simp]:
  "b_userId bundle0 = ''px_me''" "b_spkPending bundle0 = None" "b_spkRotateAfter bundle0 = None"
  "b_identity bundle0 = keys0" "b_opks bundle0 = [\<lparr>pk_id = 1, pk_pub = [14], pk_priv = [15]\<rparr>]"
  "normBundle bundle0 = bundle0"
  by (simp_all add: bundle0_def normBundle_def)

lemma noDec_wire [simp]: "noDec (jContent c)" "noDec (jEnvelope e)"
proof -
  have o: "noDec (jO f v) \<longleftrightarrow> (\<forall>x. v = Some x \<longrightarrow> noDec (f x))" for f :: "'b \<Rightarrow> json" and v
    by (cases v) (simp_all add: jO_def)
  show "noDec (jContent c)" "noDec (jEnvelope e)"
    by (simp_all add: jContent_def jEnvelope_def o jText_def jFile_def jReceipt_def jRequest_def jPqxdh_def jSync_def jB_def
        list_all_iff)
qed

lemma codec0 [simp]: "codec_correct env0"
  by (simp add: codec_correct_def env0_def jsonWire_def)

lemma hkdf0 [simp]: "length (hkdf256 env0 a b) = 32"
  by (simp add: env0_def)

end
