(* ===== verification/Contacts.thy ===== *)
theory Contacts
  imports AtRest
begin

text \<open>
  Contacts (\<^verbatim>\<open>data/contacts.ts\<close>) and Double Ratchet sessions (\<^verbatim>\<open>data/sessions.ts\<close>).
  The status of a contact is the friend-request state machine; the session row holds the
  ratchet state and, until the first message is sent, the PQXDH handshake fields, both
  encrypted. The optional key argument of the sources exists for their tests; the model
  has the keystore key.
\<close>

section \<open>Verified bundles and handshakes (\<^verbatim>\<open>crypto/contact-crypto.ts\<close>)\<close>

record VerifiedBundle =
  vb_userId :: string
  vb_ik_ed25519 :: bytes
  vb_ik_dilithium3 :: bytes
  vb_ik_x25519 :: bytes
  vb_spk_x25519 :: bytes
  vb_kyber1024_pub :: bytes
  vb_opk :: "bytes option"
  vb_opk_id :: "int option"

record PqxdhInit =
  pi_shared_secret :: bytes
  pi_alice_ik_pub :: bytes
  pi_alice_ek_pub :: bytes
  pi_kyber_ciphertext :: bytes
  pi_opk_used :: bool

section \<open>Contacts\<close>

definition buildInitStash :: "VerifiedBundle \<Rightarrow> PqxdhInit \<Rightarrow> json" where
  "buildInitStash bundle pqx = JObj
     [(''v'', JNum 1), (''alice_ik_pub'', JStr (toHex (pi_alice_ik_pub pqx))),
      (''alice_ek_pub'', JStr (toHex (pi_alice_ek_pub pqx))),
      (''kyber_ciphertext'', JStr (toHex (pi_kyber_ciphertext pqx))),
      (''opk_id'', (case vb_opk_id bundle of None \<Rightarrow> JNull | Some i \<Rightarrow> JNum i)),
      (''opk_used'', JBool (pi_opk_used pqx))]"

definition addVerifiedContact :: "env \<Rightarrow> VerifiedBundle \<Rightarrow> PqxdhInit \<Rightarrow> bytes \<Rightarrow> unit act" where
  "addVerifiedContact E bundle pqx ratchetState =
     await (getMasterKey E) (\<lambda>k.
     andThen (contacts_add E (vb_userId bundle) (vb_ik_ed25519 bundle) (vb_ik_x25519 bundle) PendingOutbound) (
     await (encryptString E k (toHex ratchetState)) (\<lambda>rs.
     await (encryptString E k (stringify (buildInitStash bundle pqx))) (\<lambda>stash.
     await (nowSecs E) (\<lambda>t.
     andThen (dbModify (sessions_tbl_update (tput (vb_userId bundle)
       \<lparr>se_session_id = vb_userId bundle, se_peer_id = vb_userId bundle, se_ratchet_state_enc = rs,
        se_pqxdh_init_enc = Some stash, se_created_at = t, se_received_ok = Some False\<rparr>)))
     (emit EvContacts))))))"

definition upsertInboundContact :: "env \<Rightarrow> string \<Rightarrow> bytes \<Rightarrow> bytes \<Rightarrow> unit act" where
  "upsertInboundContact E senderId ikEd ikX =
     andThen (contactsStore E) (contacts_add E senderId ikEd ikX PendingInbound)"

definition restoreContact :: "env \<Rightarrow> string \<Rightarrow> bytes \<Rightarrow> bytes \<Rightarrow> ContactStatus \<Rightarrow> unit act" where
  "restoreContact E pxId ikEd ikX status =
     andThen (contactsStore E) (contacts_add E pxId ikEd ikX status)"

definition acceptContact :: "env \<Rightarrow> string \<Rightarrow> unit act" where
  "acceptContact E pxId =
     andThen (contactsStore E) (andThen (contacts_setStatus pxId Accepted) (emit EvContacts))"

definition blockContact :: "env \<Rightarrow> string \<Rightarrow> unit act" where
  "blockContact E pxId =
     andThen (contactsStore E) (andThen (contacts_setStatus pxId Blocked) (emit EvContacts))"

definition unblockContact :: "env \<Rightarrow> string \<Rightarrow> unit act" where
  "unblockContact E pxId =
     andThen (contactsStore E) (andThen (contacts_setStatus pxId Accepted) (emit EvContacts))"

definition getContact :: "env \<Rightarrow> string \<Rightarrow> PlainContact option act" where
  "getContact E pxId = await (contactsStore E) (\<lambda>k. contacts_get E k pxId)"

definition isBlocked :: "env \<Rightarrow> string \<Rightarrow> bool act" where
  "isBlocked E pxId = await (getContact E pxId) (\<lambda>c. ret (map_option pc_status c = Some Blocked))"

definition listContacts :: "env \<Rightarrow> PlainContact list act" where
  "listContacts E = await (contactsStore E) (contacts_list E)"

definition setDisplayName :: "env \<Rightarrow> string \<Rightarrow> string \<Rightarrow> unit act" where
  "setDisplayName E pxId name = await (contactsStore E) (\<lambda>k. contacts_setName E k pxId name)"

definition setVerified :: "string \<Rightarrow> string \<Rightarrow> unit act" where
  "setVerified pxId safety =
     dbModify (contacts_tbl_update (tupdate pxId (\<lambda>x. x\<lparr>c_verified_fingerprint := Some safety\<rparr>)))"

definition removeContact :: "string \<Rightarrow> unit act" where
  "removeContact pxId =
     andThen (dbModify (contacts_tbl_update (tdelete pxId))) (
     andThen (dbModify (sessions_tbl_update (tdelete pxId))) (
     andThen (dbModify (messages_tbl_update (tdeleteWhere (\<lambda>r. m_session_id r = pxId)))) (
     andThen (dbModify (outbox_tbl_update (tdeleteWhere (\<lambda>r. o_peer_id r = pxId)))) (
     emit EvContacts))))"

definition isKeyChanged :: "string \<Rightarrow> bytes \<Rightarrow> bool act" where
  "isKeyChanged pxId fetchedIkEd =
     dbGets (\<lambda>d. case Option.bind (tget (contacts_tbl d) pxId) c_ik_ed25519_pub of
                   None \<Rightarrow> False
                 | Some k \<Rightarrow> toHex k \<noteq> toHex fetchedIkEd)"

section \<open>Sessions\<close>

definition parseStash :: "string \<Rightarrow> PqxdhInitWire option" where
  "parseStash s = Option.bind (json_parse s) (\<lambda>j.
     case (jstr (jget ''alice_ik_pub'' j), jstr (jget ''alice_ek_pub'' j), jstr (jget ''kyber_ciphertext'' j)) of
       (Some a, Some b, Some c) \<Rightarrow>
         Some \<lparr>alice_ik_pub = fromHex a, alice_ek_pub = fromHex b, kyber_ciphertext = fromHex c,
               opk_used = orElse (jbool (jget ''opk_used'' j)) False,
               opk_id = orElse (jint (jget ''opk_id'' j)) 0\<rparr>
     | _ \<Rightarrow> None)"

definition loadSession :: "env \<Rightarrow> string \<Rightarrow> LoadedSession option act" where
  "loadSession E peerId =
     await (dbGets (\<lambda>d. tget (sessions_tbl d) peerId)) (\<lambda>row.
     case row of None \<Rightarrow> ret None
     | Some r \<Rightarrow>
         await (getMasterKey E) (\<lambda>k.
         await (decryptString E k (se_ratchet_state_enc r)) (\<lambda>hex.
         (case se_pqxdh_init_enc r of
            None \<Rightarrow> ret (Some \<lparr>ls_ratchetState = fromHex hex, ls_pqxdhInit = None,
                               ls_receivedOk = orElse (se_received_ok r) True\<rparr>)
          | Some b \<Rightarrow>
              await (decryptString E k b) (\<lambda>js.
              case parseStash js of
                None \<Rightarrow> throw (JsError ''SyntaxError'')
              | Some pq \<Rightarrow> ret (Some \<lparr>ls_ratchetState = fromHex hex, ls_pqxdhInit = Some pq,
                                      ls_receivedOk = orElse (se_received_ok r) True\<rparr>))))))"

definition hasSession :: "string \<Rightarrow> bool act" where
  "hasSession peerId = dbGets (\<lambda>d. tget (sessions_tbl d) peerId \<noteq> None)"

definition saveRatchetState :: "env \<Rightarrow> string \<Rightarrow> bytes \<Rightarrow> unit act" where
  "saveRatchetState E peerId state =
     await (getMasterKey E) (\<lambda>k. await (encryptString E k (toHex state)) (\<lambda>enc.
     dbModify (sessions_tbl_update (tupdate peerId (\<lambda>r. r\<lparr>se_ratchet_state_enc := enc\<rparr>)))))"

definition markSessionReceived :: "string \<Rightarrow> unit act" where
  "markSessionReceived peerId =
     dbModify (sessions_tbl_update (tupdate peerId (\<lambda>r. r\<lparr>se_received_ok := Some True\<rparr>)))"

definition clearPqxdhInit :: "string \<Rightarrow> unit act" where
  "clearPqxdhInit peerId =
     dbModify (sessions_tbl_update (tupdate peerId (\<lambda>r. r\<lparr>se_pqxdh_init_enc := None\<rparr>)))"

definition createInboundSession :: "env \<Rightarrow> string \<Rightarrow> bytes \<Rightarrow> unit act" where
  "createInboundSession E peerId state =
     await (getMasterKey E) (\<lambda>k. await (encryptString E k (toHex state)) (\<lambda>enc.
     await (nowSecs E) (\<lambda>t.
     dbModify (sessions_tbl_update (tput peerId
       \<lparr>se_session_id = peerId, se_peer_id = peerId, se_ratchet_state_enc = enc,
        se_pqxdh_init_enc = None, se_created_at = t, se_received_ok = Some True\<rparr>)))))"

section \<open>Frames\<close>

lemma keeps_getContact [keeps_intro]: "keeps quiet (getContact E px)"
  unfolding getContact_def by (intro q.keeps_rules keeps_intro)

lemma keeps_isBlocked [keeps_intro]: "keeps quiet (isBlocked E px)"
  unfolding isBlocked_def by (intro q.keeps_rules keeps_intro)

lemma keeps_listContacts [keeps_intro]: "keeps quiet (listContacts E)"
  unfolding listContacts_def contacts_list_def by (intro q.keeps_rules keeps_intro)

lemma keeps_isKeyChanged [keeps_intro]: "keeps quiet (isKeyChanged px k)"
  unfolding isKeyChanged_def by (intro keeps_intro)

lemma keeps_loadSession [keeps_intro]: "keeps quiet (loadSession E p)"
  unfolding loadSession_def by (intro q.keeps_rules keeps_intro)

section \<open>Contact status\<close>

text \<open>The status the app acts on: rows older than the field count as accepted.\<close>

definition effStatus :: "privexDB \<Rightarrow> string \<Rightarrow> ContactStatus option" where
  "effStatus d px = map_option (\<lambda>r. orElse (c_status r) Accepted) (tget (contacts_tbl d) px)"

lemma run_contacts_add:
  "contacts_add E px ed x st w =
     (Inr (), w\<lparr>tick := (if tget (contacts_tbl (idb w)) px = None then Suc (tick w) else tick w),
       idb := contacts_tbl_update (tput px (addedContact (tget (contacts_tbl (idb w)) px) px ed x st
         (case tget (contacts_tbl (idb w)) px of Some r \<Rightarrow> c_added_at r | None \<Rightarrow> date_now E (tick w) div 1000)))
         (idb w)\<rparr>)"
  by (cases "tget (contacts_tbl (idb w)) px") (simp_all add: contacts_add_def)

lemma addedContact_fields [simp]:
  "c_px_id (addedContact ex px ed x st t) = px" "c_added_at (addedContact ex px ed x st t) = t"
  "c_display_name_enc (addedContact ex px ed x st t) = Option.bind ex c_display_name_enc"
  "c_verified_fingerprint (addedContact ex px ed x st t) = Option.bind ex c_verified_fingerprint"
  "c_ik_ed25519_pub (addedContact ex px ed x st t) = (if ed \<noteq> [] then Some ed else Option.bind ex c_ik_ed25519_pub)"
  "c_ik_x25519_pub (addedContact ex px ed x st t) = (if x \<noteq> [] then Some x else Option.bind ex c_ik_x25519_pub)"
  by (simp_all add: addedContact_def Let_def)

lemma addedContact_status:
  "Some (orElse (c_status (addedContact ex px ed x st t)) Accepted) =
     (case map_option (\<lambda>r. orElse (c_status r) Accepted) ex of
        Some Blocked \<Rightarrow> Some Blocked | Some Accepted \<Rightarrow> Some Accepted | _ \<Rightarrow> Some st)"
  by (auto simp: addedContact_def Let_def split: option.splits ContactStatus.splits)

text \<open>Adding a contact again, whether by the user or by an inbound request, never
  unblocks or downgrades: a blocked contact stays blocked, an accepted one stays accepted,
  any other takes the new status; the display name, the verified safety code and the date
  stay, and no other contact changes.\<close>

theorem contacts_add_sticky:
  assumes "contacts_add E px ed x st w = (r, w')"
  shows "r = Inr () \<and>
    effStatus (idb w') px =
      (case effStatus (idb w) px of Some Blocked \<Rightarrow> Some Blocked | Some Accepted \<Rightarrow> Some Accepted | _ \<Rightarrow> Some st) \<and>
    (\<forall>row. tget (contacts_tbl (idb w)) px = Some row \<longrightarrow>
       (\<exists>row'. tget (contacts_tbl (idb w')) px = Some row' \<and> c_display_name_enc row' = c_display_name_enc row \<and>
          c_verified_fingerprint row' = c_verified_fingerprint row \<and> c_added_at row' = c_added_at row)) \<and>
    (\<forall>p. p \<noteq> px \<longrightarrow> tget (contacts_tbl (idb w')) p = tget (contacts_tbl (idb w)) p)"
  using assms addedContact_status [of "tget (contacts_tbl (idb w)) px"]
  by (auto simp: run_contacts_add effStatus_def)

text \<open>Removing a contact (or declining a request) leaves nothing of the conversation
  behind: no contact row, no session, no stored message and no queued message of that peer
  remains, while the rows of every other peer stay.\<close>

theorem removeContact_purges:
  assumes "twf (messages_tbl (idb w))" "twf (outbox_tbl (idb w))"
  shows "\<exists>w'. removeContact px w = (Inr (), w') \<and>
    tget (contacts_tbl (idb w')) px = None \<and> tget (sessions_tbl (idb w')) px = None \<and>
    (\<forall>m \<in> set (toArray (messages_tbl (idb w'))). m_session_id m \<noteq> px) \<and>
    (\<forall>r \<in> set (toArray (outbox_tbl (idb w'))). o_peer_id r \<noteq> px) \<and>
    (\<forall>p. p \<noteq> px \<longrightarrow> tget (contacts_tbl (idb w')) p = tget (contacts_tbl (idb w)) p \<and>
                     tget (sessions_tbl (idb w')) p = tget (sessions_tbl (idb w)) p) \<and>
    (\<forall>i m. tget (messages_tbl (idb w)) i = Some m \<and> m_session_id m \<noteq> px \<longrightarrow> tget (messages_tbl (idb w')) i = Some m) \<and>
    (\<forall>i r. tget (outbox_tbl (idb w)) i = Some r \<and> o_peer_id r \<noteq> px \<longrightarrow> tget (outbox_tbl (idb w')) i = Some r)"
  using assms
  by (simp add: removeContact_def tget_tdeleteWhere) (auto simp: toArray_def tdeleteWhere_def)

section \<open>Session storage\<close>

lemma parseStash_build:
  "parseStash (stringify (buildInitStash b p)) =
     Some \<lparr>alice_ik_pub = pi_alice_ik_pub p, alice_ek_pub = pi_alice_ek_pub p,
           kyber_ciphertext = pi_kyber_ciphertext p, opk_used = pi_opk_used p, opk_id = orElse (vb_opk_id b) 0\<rparr>"
  by (cases "vb_opk_id b") (simp_all add: parseStash_def buildInitStash_def)

text \<open>What a session row stands for, under the current key.\<close>

definition sessionOf :: "env \<Rightarrow> cryptoKey \<Rightarrow> SessionRow \<Rightarrow> LoadedSession option" where
  "sessionOf E k r =
     (case (reads E k (se_ratchet_state_enc r), se_pqxdh_init_enc r) of
        (None, _) \<Rightarrow> None
      | (Some h, None) \<Rightarrow> Some \<lparr>ls_ratchetState = fromHex (textDecode h), ls_pqxdhInit = None,
                                ls_receivedOk = orElse (se_received_ok r) True\<rparr>
      | (Some h, Some b) \<Rightarrow> (case Option.bind (reads E k b) (\<lambda>j. parseStash (textDecode j)) of
           None \<Rightarrow> None
         | Some pq \<Rightarrow> Some \<lparr>ls_ratchetState = fromHex (textDecode h), ls_pqxdhInit = Some pq,
                            ls_receivedOk = orElse (se_received_ok r) True\<rparr>))"

lemma loadSession_sessionOf:
  assumes "keyOf w = Some k" and "tget (sessions_tbl (idb w)) p = Some r" and "sessionOf E k r = Some s"
  shows "loadSession E p w = (Inr (Some s), w)"
  using assms getMasterKey_keyOf [OF assms(1), of E]
  by (auto simp: loadSession_def run_decryptString sessionOf_def split: option.splits bind_splits)

lemma loadSession_None: "tget (sessions_tbl (idb w)) p = None \<Longrightarrow> loadSession E p w = (Inr None, w)"
  by (simp add: loadSession_def)

text \<open>The session store gives back what was stored: after a contact was added with a
  fresh handshake, loading the session gives the ratchet state and the handshake fields, and
  that nothing was received on it; after the ratchet advanced and the handshake was sent,
  loading gives the new state and no handshake.\<close>

theorem session_roundtrip:
  assumes "aes_correct E" and "keyOf w = Some k"
  shows "\<exists>w1 w2 w3. addVerifiedContact E b pqx st w = (Inr (), w1) \<and>
    loadSession E (vb_userId b) w1 = (Inr (Some
      \<lparr>ls_ratchetState = st,
       ls_pqxdhInit = Some \<lparr>alice_ik_pub = pi_alice_ik_pub pqx, alice_ek_pub = pi_alice_ek_pub pqx,
          kyber_ciphertext = pi_kyber_ciphertext pqx, opk_used = pi_opk_used pqx, opk_id = orElse (vb_opk_id b) 0\<rparr>,
       ls_receivedOk = False\<rparr>), w1) \<and>
    saveRatchetState E (vb_userId b) st' w1 = (Inr (), w2) \<and>
    clearPqxdhInit (vb_userId b) w2 = (Inr (), w3) \<and>
    loadSession E (vb_userId b) w3 = (Inr (Some
      \<lparr>ls_ratchetState = st', ls_pqxdhInit = None, ls_receivedOk = False\<rparr>), w3)"
proof -
  note key = getMasterKey_keyOf [OF assms(2), of E]
  define w1 where "w1 = snd (addVerifiedContact E b pqx st w)"
  have add1: "addVerifiedContact E b pqx st w = (Inr (), w1)"
    and k1: "keyOf w1 = Some k"
    using assms(2) key by (simp_all add: addVerifiedContact_def w1_def run_contacts_add)
  have s1: "\<exists>r. tget (sessions_tbl (idb w1)) (vb_userId b) = Some r \<and> se_received_ok r = Some False \<and>
      sessionOf E k r = Some \<lparr>ls_ratchetState = st,
       ls_pqxdhInit = Some \<lparr>alice_ik_pub = pi_alice_ik_pub pqx, alice_ek_pub = pi_alice_ek_pub pqx,
          kyber_ciphertext = pi_kyber_ciphertext pqx, opk_used = pi_opk_used pqx, opk_id = orElse (vb_opk_id b) 0\<rparr>,
       ls_receivedOk = False\<rparr>"
    using assms(1) key by (simp add: addVerifiedContact_def w1_def sessionOf_def parseStash_build run_contacts_add)
  then obtain r where r: "tget (sessions_tbl (idb w1)) (vb_userId b) = Some r" "se_received_ok r = Some False"
    "sessionOf E k r = Some \<lparr>ls_ratchetState = st,
       ls_pqxdhInit = Some \<lparr>alice_ik_pub = pi_alice_ik_pub pqx, alice_ek_pub = pi_alice_ek_pub pqx,
          kyber_ciphertext = pi_kyber_ciphertext pqx, opk_used = pi_opk_used pqx, opk_id = orElse (vb_opk_id b) 0\<rparr>,
       ls_receivedOk = False\<rparr>" by blast
  note key1 = getMasterKey_keyOf [OF k1, of E]
  define w2 where "w2 = snd (saveRatchetState E (vb_userId b) st' w1)"
  have save: "saveRatchetState E (vb_userId b) st' w1 = (Inr (), w2)" and k2: "keyOf w2 = Some k"
    using key1 k1 by (simp_all add: saveRatchetState_def w2_def)
  define w3 where "w3 = snd (clearPqxdhInit (vb_userId b) w2)"
  have clear: "clearPqxdhInit (vb_userId b) w2 = (Inr (), w3)" and k3: "keyOf w3 = Some k"
    using k2 by (simp_all add: clearPqxdhInit_def w3_def)
  have "\<exists>r'. tget (sessions_tbl (idb w3)) (vb_userId b) = Some r' \<and>
      sessionOf E k r' = Some \<lparr>ls_ratchetState = st', ls_pqxdhInit = None, ls_receivedOk = False\<rparr>"
    using r key1 assms(1) by (simp add: w3_def w2_def clearPqxdhInit_def saveRatchetState_def sessionOf_def)
  then show ?thesis
    using add1 save clear loadSession_sessionOf [OF k1 r(1) r(3)] loadSession_sessionOf [OF k3] by blast
qed

end
