(* ===== verification/Api.thy ===== *)
theory Api
  imports Types
begin

text \<open>
  The typed server API (\<^verbatim>\<open>api/client.ts\<close>). Every request goes through
  \<open>fetchReq\<close>, which hands it to the environment and appends it to \<open>netlog\<close>
  together with the local database as it was when the request left; the theorems on
  what is stored before what is sent read that log. A network failure is a thrown error,
  a reply that is not \<open>ok\<close> an \<open>ApiError\<close>; a reply that is not of the declared type
  is a \<open>TypeError\<close>.
\<close>

definition fetchReq :: "env \<Rightarrow> httpRequest \<Rightarrow> httpResponse act" where
  "fetchReq E r = (\<lambda>w.
     ((case fetch E (tick w) r of
         None \<Rightarrow> Inl (JsError ''TypeError: Failed to fetch'')
       | Some res \<Rightarrow> Inr res),
      w\<lparr>tick := Suc (tick w), netlog := netlog w @ [(r, idb w)]\<rparr>))"

definition rspOk :: "httpResponse \<Rightarrow> bool" where
  "rspOk res \<longleftrightarrow> 200 \<le> rsp_status res \<and> rsp_status res \<le> 299"

definition authHeader :: "string option \<Rightarrow> string option" where
  "authHeader tok = (case tok of None \<Rightarrow> None | Some t \<Rightarrow> if t = [] then None else Some t)"

definition jsonReply :: "httpResponse \<Rightarrow> json act" where
  "jsonReply res =
     (if rspOk res then
        (case rsp_json res of None \<Rightarrow> throw (JsError ''SyntaxError'') | Some j \<Rightarrow> ret j)
      else throw (ApiError (rsp_status res)))"

definition post_req :: "env \<Rightarrow> string \<Rightarrow> json \<Rightarrow> string option \<Rightarrow> httpRequest" where
  "post_req E path body tok =
     \<lparr>rq_method = POST, rq_url = api_base E @ path, rq_token = authHeader tok, rq_body = BodyJson body\<rparr>"

definition get_req :: "env \<Rightarrow> string \<Rightarrow> string option \<Rightarrow> httpRequest" where
  "get_req E path tok =
     \<lparr>rq_method = GET, rq_url = api_base E @ path, rq_token = authHeader tok, rq_body = BodyNone\<rparr>"

definition del_req :: "env \<Rightarrow> string \<Rightarrow> string option \<Rightarrow> httpRequest" where
  "del_req E path tok =
     \<lparr>rq_method = DELETE, rq_url = api_base E @ path, rq_token = authHeader tok, rq_body = BodyNone\<rparr>"

definition post_api :: "env \<Rightarrow> string \<Rightarrow> json \<Rightarrow> string option \<Rightarrow> json act" where
  "post_api E path body tok = await (fetchReq E (post_req E path body tok)) jsonReply"

definition get_api :: "env \<Rightarrow> string \<Rightarrow> string option \<Rightarrow> json act" where
  "get_api E path tok = await (fetchReq E (get_req E path tok)) jsonReply"

definition del_api :: "env \<Rightarrow> string \<Rightarrow> string option \<Rightarrow> json act" where
  "del_api E path tok = await (fetchReq E (del_req E path tok)) jsonReply"

text \<open>Reading a reply as the type its caller declares.\<close>

definition typed :: "'a option \<Rightarrow> 'a act" where
  "typed v = (case v of None \<Rightarrow> throw (JsError ''TypeError'') | Some x \<Rightarrow> ret x)"

definition strField :: "string \<Rightarrow> json \<Rightarrow> string act" where
  "strField k j = typed (jstr (jget k j))"

definition intField :: "string \<Rightarrow> json \<Rightarrow> int act" where
  "intField k j = typed (jint (jget k j))"

definition boolField :: "string \<Rightarrow> json \<Rightarrow> bool act" where
  "boolField k j = typed (jbool (jget k j))"

text \<open>\<open>encodeURIComponent\<close> on UTF-8 bytes.\<close>

definition uriUnreserved :: "char \<Rightarrow> bool" where
  "uriUnreserved c \<longleftrightarrow> (let n = code c in
     48 \<le> n \<and> n \<le> 57 \<or> 65 \<le> n \<and> n \<le> 90 \<or> 97 \<le> n \<and> n \<le> 122 \<or>
     n \<in> {33, 39, 40, 41, 42, 45, 46, 95, 126})"

definition hexUpper :: "nat \<Rightarrow> char" where
  "hexUpper n = char_of (if n < 10 then 48 + n else 55 + n)"

definition encodeURIComponent :: "string \<Rightarrow> string" where
  "encodeURIComponent s =
     concat (map (\<lambda>c. if uriUnreserved c then [c]
                      else [CHR ''%'', hexUpper (code c div 16), hexUpper (code c mod 16)]) s)"

section \<open>Proof of work and registration\<close>

record PowArgon =
  pa_m_cost_kib :: int
  pa_t_cost :: int
  pa_difficulty :: int

record PowChallenge =
  ch_challenge_id :: string
  ch_challenge :: string
  ch_difficulty :: int
  ch_expires_at :: int
  ch_argon :: "PowArgon option"

record PowProof =
  pw_challenge_id :: string
  pw_nonce :: int
  pw_solution_hash :: string

definition parsePowArgon :: "json \<Rightarrow> PowArgon option" where
  "parsePowArgon j =
     (case (jint (jget ''m_cost_kib'' j), jint (jget ''t_cost'' j), jint (jget ''difficulty'' j)) of
        (Some m, Some t, Some d) \<Rightarrow> Some \<lparr>pa_m_cost_kib = m, pa_t_cost = t, pa_difficulty = d\<rparr>
      | _ \<Rightarrow> None)"

definition parsePowChallenge :: "json \<Rightarrow> PowChallenge option" where
  "parsePowChallenge j =
     (case (jstr (jget ''challenge_id'' j), jstr (jget ''challenge'' j),
            jint (jget ''difficulty'' j), jint (jget ''expires_at'' j)) of
        (Some i, Some c, Some d, Some x) \<Rightarrow>
          (case jget ''argon'' j of
             None \<Rightarrow> Some \<lparr>ch_challenge_id = i, ch_challenge = c, ch_difficulty = d, ch_expires_at = x, ch_argon = None\<rparr>
           | Some a \<Rightarrow> (case parsePowArgon a of None \<Rightarrow> None
               | Some pa \<Rightarrow> Some \<lparr>ch_challenge_id = i, ch_challenge = c, ch_difficulty = d,
                                  ch_expires_at = x, ch_argon = Some pa\<rparr>))
      | _ \<Rightarrow> None)"

definition powChallenge :: "env \<Rightarrow> PowChallenge act" where
  "powChallenge E = await (post_api E ''/auth/pow_challenge'' (JObj []) None) (\<lambda>j. typed (parsePowChallenge j))"

definition powJson :: "PowProof \<Rightarrow> json" where
  "powJson p = JObj [(''challenge_id'', JStr (pw_challenge_id p)), (''nonce'', JNum (pw_nonce p)),
                     (''solution_hash'', JStr (pw_solution_hash p))]"

definition opkJson :: "int \<times> string \<Rightarrow> json" where
  "opkJson o1 = JObj [(''opk_id'', JNum (fst o1)), (''opk_x25519_pub'', JStr (snd o1))]"

record RegisterReq =
  rg_user_id :: string
  rg_ik_ed25519_pub :: string
  rg_ik_dilithium3_pub :: string
  rg_ik_x25519_pub :: string
  rg_spk_x25519_pub :: string
  rg_spk_sig_ed :: string
  rg_spk_sig_dil :: string
  rg_kyber1024_pub :: string
  rg_opks :: "(int \<times> string) list"
  rg_pow :: PowProof

definition registerBody :: "RegisterReq \<Rightarrow> json" where
  "registerBody q = JObj
     [(''user_id'', JStr (rg_user_id q)), (''ik_ed25519_pub'', JStr (rg_ik_ed25519_pub q)),
      (''ik_dilithium3_pub'', JStr (rg_ik_dilithium3_pub q)), (''ik_x25519_pub'', JStr (rg_ik_x25519_pub q)),
      (''spk_x25519_pub'', JStr (rg_spk_x25519_pub q)), (''spk_sig_ed'', JStr (rg_spk_sig_ed q)),
      (''spk_sig_dil'', JStr (rg_spk_sig_dil q)), (''kyber1024_pub'', JStr (rg_kyber1024_pub q)),
      (''opks'', JArr (map opkJson (rg_opks q))), (''pow'', powJson (rg_pow q))]"

definition register :: "env \<Rightarrow> RegisterReq \<Rightarrow> bool act" where
  "register E q = await (post_api E ''/keys/register'' (registerBody q) None) (boolField ''registered'')"

section \<open>Key fetching\<close>

record KtProofNode =
  kn_left :: bool
  kn_hash :: string

record KtProof =
  kp_leaf :: string
  kp_path :: "KtProofNode list"
  kp_root :: string
  kp_root_sig_ed :: string
  kp_timestamp :: int

record KeyBundleResp =
  kb_user_id :: string
  kb_ik_ed25519 :: string
  kb_ik_dilithium3 :: string
  kb_ik_x25519 :: string
  kb_spk_x25519 :: string
  kb_spk_sig_ed :: string
  kb_spk_sig_dil :: string
  kb_kyber1024_pub :: string
  kb_opk :: "string option"
  kb_opk_id :: "int option"
  kb_kt_proof :: KtProof

definition parseNode :: "json \<Rightarrow> KtProofNode option" where
  "parseNode j = (case (jbool (jget ''left'' j), jstr (jget ''hash'' j)) of
     (Some l, Some h) \<Rightarrow> Some \<lparr>kn_left = l, kn_hash = h\<rparr> | _ \<Rightarrow> None)"

definition parseAll :: "(json \<Rightarrow> 'a option) \<Rightarrow> json list option \<Rightarrow> 'a list option" where
  "parseAll p js = (case js of None \<Rightarrow> None
     | Some xs \<Rightarrow> if list_all (\<lambda>x. p x \<noteq> None) xs then Some (map (\<lambda>x. the (p x)) xs) else None)"

definition parseKtProof :: "json \<Rightarrow> KtProof option" where
  "parseKtProof j =
     (case (jstr (jget ''leaf'' j), parseAll parseNode (jarr (jget ''path'' j)), jstr (jget ''root'' j),
            jstr (jget ''root_sig_ed'' j), jint (jget ''timestamp'' j)) of
        (Some l, Some p, Some r, Some s, Some t) \<Rightarrow>
          Some \<lparr>kp_leaf = l, kp_path = p, kp_root = r, kp_root_sig_ed = s, kp_timestamp = t\<rparr>
      | _ \<Rightarrow> None)"

definition parseKeyBundle :: "json \<Rightarrow> KeyBundleResp option" where
  "parseKeyBundle j =
     (case (jstr (jget ''user_id'' j), jstr (jget ''ik_ed25519'' j), jstr (jget ''ik_dilithium3'' j),
            jstr (jget ''ik_x25519'' j), jstr (jget ''spk_x25519'' j), jstr (jget ''spk_sig_ed'' j),
            jstr (jget ''spk_sig_dil'' j), jstr (jget ''kyber1024_pub'' j),
            Option.bind (jget ''kt_proof'' j) parseKtProof) of
        (Some u, Some e, Some d, Some x, Some sp, Some se, Some sd, Some k, Some kt) \<Rightarrow>
          Some \<lparr>kb_user_id = u, kb_ik_ed25519 = e, kb_ik_dilithium3 = d, kb_ik_x25519 = x,
                kb_spk_x25519 = sp, kb_spk_sig_ed = se, kb_spk_sig_dil = sd, kb_kyber1024_pub = k,
                kb_opk = jstr (jget ''opk'' j), kb_opk_id = jint (jget ''opk_id'' j), kb_kt_proof = kt\<rparr>
      | _ \<Rightarrow> None)"

definition fetchKeyBundle :: "env \<Rightarrow> string \<Rightarrow> PowProof \<Rightarrow> KeyBundleResp act" where
  "fetchKeyBundle E userId pow =
     await (post_api E (''/keys/'' @ encodeURIComponent userId) (JObj [(''pow'', powJson pow)]) None)
       (\<lambda>j. typed (parseKeyBundle j))"

section \<open>Authenticated calls\<close>

definition replenishBody :: "(int \<times> string) list \<Rightarrow> bool \<Rightarrow> json" where
  "replenishBody opks replace = JObj [(''opks'', JArr (map opkJson opks)), (''replace'', JBool replace)]"

definition replenishPrekeys :: "env \<Rightarrow> (int \<times> string) list \<Rightarrow> string \<Rightarrow> bool \<Rightarrow> int act" where
  "replenishPrekeys E opks token replace =
     await (post_api E ''/keys/prekeys/replenish'' (replenishBody opks replace) (Some token))
       (intField ''stored'')"

definition parseAccountSpk :: "json option \<Rightarrow> AccountSpk option" where
  "parseAccountSpk v = Option.bind v (\<lambda>j.
     (case (jstr (jget ''spk_x25519'' j), jstr (jget ''spk_sig_ed'' j), jstr (jget ''spk_sig_dil'' j)) of
        (Some x, Some e, Some d) \<Rightarrow> Some \<lparr>as_spk_x25519 = x, as_spk_sig_ed = e, as_spk_sig_dil = d\<rparr>
      | _ \<Rightarrow> None))"

definition wsTicket :: "env \<Rightarrow> string \<Rightarrow> (string \<times> AccountSpk option) act" where
  "wsTicket E token =
     await (post_api E ''/auth/ws_ticket'' (JObj []) (Some token)) (\<lambda>j.
     await (strField ''ticket'' j) (\<lambda>t. ret (t, parseAccountSpk (jget ''account_spk'' j))))"

definition DEFAULT_TTL_SECONDS :: int where
  "DEFAULT_TTL_SECONDS = 30 * 24 * 3600"

definition sendBody :: "string \<Rightarrow> string \<Rightarrow> int \<Rightarrow> json" where
  "sendBody recipientId contentB64 ttlSeconds =
     JObj [(''recipient_id'', JStr recipientId), (''content'', JStr contentB64), (''ttl_seconds'', JNum ttlSeconds)]"

text \<open>\<open>ttlSeconds\<close> has a default, which an explicit \<open>undefined\<close> also selects.\<close>

definition api_sendMessage :: "env \<Rightarrow> string \<Rightarrow> string \<Rightarrow> string \<Rightarrow> int option \<Rightarrow> string act" where
  "api_sendMessage E recipientId contentB64 token ttlSeconds =
     await (post_api E ''/messages/send''
              (sendBody recipientId contentB64 (orElse ttlSeconds DEFAULT_TTL_SECONDS)) (Some token))
       (strField ''message_id'')"

definition ackMessages :: "env \<Rightarrow> string list \<Rightarrow> string \<Rightarrow> int act" where
  "ackMessages E messageIds token =
     await (post_api E ''/messages/ack'' (JObj [(''message_ids'', JArr (map JStr messageIds))]) (Some token))
       (intField ''deleted'')"

definition putBlob :: "env \<Rightarrow> string \<Rightarrow> bytes \<Rightarrow> string \<Rightarrow> unit act" where
  "putBlob E chunkId bs token =
     await (fetchReq E \<lparr>rq_method = POST, rq_url = api_base E @ ''/blobs/'' @ encodeURIComponent chunkId,
                        rq_token = Some token, rq_body = BodyRaw bs\<rparr>)
       (\<lambda>res. if rspOk res then ret () else throw (ApiError (rsp_status res)))"

definition getBlob :: "env \<Rightarrow> string \<Rightarrow> string \<Rightarrow> bytes act" where
  "getBlob E chunkId token =
     await (fetchReq E \<lparr>rq_method = GET, rq_url = api_base E @ ''/blobs/'' @ encodeURIComponent chunkId,
                        rq_token = Some token, rq_body = BodyNone\<rparr>)
       (\<lambda>res. if rspOk res then ret (rsp_raw res) else throw (ApiError (rsp_status res)))"

section \<open>Signing in\<close>

definition authChallenge :: "env \<Rightarrow> string \<Rightarrow> string act" where
  "authChallenge E userId =
     await (post_api E ''/auth/challenge'' (JObj [(''user_id'', JStr userId)]) None) (strField ''challenge'')"

record VerifyReq =
  vr_user_id :: string
  vr_challenge :: string
  vr_sig_ed :: string
  vr_sig_dil :: string
  vr_timestamp :: int

record VerifyResp =
  vp_session_token :: string
  vp_account_spk :: "AccountSpk option"

definition authVerify :: "env \<Rightarrow> VerifyReq \<Rightarrow> VerifyResp act" where
  "authVerify E q =
     await (post_api E ''/auth/verify'' (JObj
         [(''user_id'', JStr (vr_user_id q)), (''challenge'', JStr (vr_challenge q)),
          (''sig_ed'', JStr (vr_sig_ed q)), (''sig_dil'', JStr (vr_sig_dil q)),
          (''timestamp'', JNum (vr_timestamp q))]) None) (\<lambda>j.
     await (strField ''session_token'' j) (\<lambda>t.
     ret \<lparr>vp_session_token = t, vp_account_spk = parseAccountSpk (jget ''account_spk'' j)\<rparr>))"

section \<open>Recovery\<close>

definition opaqueRegisterStart :: "env \<Rightarrow> string \<Rightarrow> string \<Rightarrow> string act" where
  "opaqueRegisterStart E registrationRequestHex token =
     await (post_api E ''/recovery/opaque/register/start''
              (JObj [(''registration_request'', JStr registrationRequestHex)]) (Some token))
       (strField ''registration_response'')"

definition opaqueRegisterFinish :: "env \<Rightarrow> string \<Rightarrow> string \<Rightarrow> string \<Rightarrow> string \<Rightarrow> bool act" where
  "opaqueRegisterFinish E registration_upload envelope envelope_mac token =
     await (post_api E ''/recovery/opaque/register/finish''
              (JObj [(''registration_upload'', JStr registration_upload), (''envelope'', JStr envelope),
                     (''envelope_mac'', JStr envelope_mac)]) (Some token))
       (boolField ''stored'')"

definition opaqueStatus :: "env \<Rightarrow> string \<Rightarrow> bool act" where
  "opaqueStatus E token = await (get_api E ''/recovery/opaque/status'' (Some token)) (boolField ''enabled'')"

definition opaqueDisable :: "env \<Rightarrow> string \<Rightarrow> bool act" where
  "opaqueDisable E token = await (del_api E ''/recovery/opaque'' (Some token)) (boolField ''enabled'')"

record OpaqueInit =
  oi_login_id :: string
  oi_credential_response :: string
  oi_envelope :: string
  oi_envelope_mac :: string

definition opaqueLoginInit :: "env \<Rightarrow> string \<Rightarrow> string \<Rightarrow> PowProof \<Rightarrow> OpaqueInit act" where
  "opaqueLoginInit E userId credentialRequestHex pow =
     await (post_api E ''/recovery/opaque/init''
              (JObj [(''user_id'', JStr userId), (''credential_request'', JStr credentialRequestHex),
                     (''pow'', powJson pow)]) None) (\<lambda>j.
     await (strField ''login_id'' j) (\<lambda>i.
     await (strField ''credential_response'' j) (\<lambda>c.
     await (strField ''envelope'' j) (\<lambda>e.
     await (strField ''envelope_mac'' j) (\<lambda>m.
     ret \<lparr>oi_login_id = i, oi_credential_response = c, oi_envelope = e, oi_envelope_mac = m\<rparr>)))))"

definition opaqueLoginComplete :: "env \<Rightarrow> string \<Rightarrow> string \<Rightarrow> string act" where
  "opaqueLoginComplete E loginId finalizationHex =
     await (post_api E ''/recovery/opaque/complete''
              (JObj [(''login_id'', JStr loginId), (''credential_finalization'', JStr finalizationHex)]) None)
       (strField ''session_token'')"

definition shareJson :: "int \<times> string \<Rightarrow> json" where
  "shareJson s = JObj [(''share_index'', JNum (fst s)), (''encrypted_share'', JStr (snd s))]"

definition storeShares :: "env \<Rightarrow> (int \<times> string) list \<Rightarrow> string \<Rightarrow> int act" where
  "storeShares E shares token =
     await (post_api E ''/recovery/shares/store'' (JObj [(''shares'', JArr (map shareJson shares))]) (Some token))
       (intField ''stored'')"

definition parseShare :: "json \<Rightarrow> (int \<times> string) option" where
  "parseShare j = (case (jint (jget ''share_index'' j), jstr (jget ''encrypted_share'' j)) of
     (Some i, Some s) \<Rightarrow> Some (i, s) | _ \<Rightarrow> None)"

definition sharesGet :: "env \<Rightarrow> string \<Rightarrow> PowProof \<Rightarrow> (int \<times> string) list act" where
  "sharesGet E userId pow =
     await (post_api E ''/recovery/shares/get'' (JObj [(''user_id'', JStr userId), (''pow'', powJson pow)]) None)
       (\<lambda>j. typed (parseAll parseShare (jarr (jget ''shares'' j))))"

definition rendezvousPost :: "env \<Rightarrow> string \<Rightarrow> string \<Rightarrow> PowProof \<Rightarrow> bool act" where
  "rendezvousPost E recoveryId blobHex pow =
     await (post_api E (''/recovery/rendezvous/'' @ recoveryId)
              (JObj [(''blob'', JStr blobHex), (''pow'', powJson pow)]) None)
       (boolField ''posted'')"

definition rendezvousPoll :: "env \<Rightarrow> string \<Rightarrow> string list act" where
  "rendezvousPoll E recoveryId =
     await (dateNow E) (\<lambda>t.
     await (get_api E (''/recovery/rendezvous/'' @ recoveryId @ ''?t='' @ showInt t) None)
       (\<lambda>j. typed (parseAll (\<lambda>b. jstr (Some b)) (jarr (jget ''blobs'' j)))))"

definition spkRotate :: "env \<Rightarrow> string \<Rightarrow> string \<Rightarrow> string \<Rightarrow> string \<Rightarrow> bool act" where
  "spkRotate E spk_x25519_pub spk_sig_ed spk_sig_dil token =
     await (post_api E ''/keys/spk/rotate''
              (JObj [(''spk_x25519_pub'', JStr spk_x25519_pub), (''spk_sig_ed'', JStr spk_sig_ed),
                     (''spk_sig_dil'', JStr spk_sig_dil)]) (Some token))
       (boolField ''rotated'')"

section \<open>Encrypted history backup\<close>

record HistoryBlobWire =
  hb_blob_id :: string
  hb_ciphertext :: string
  hb_created_at :: int

definition blobJson :: "string \<times> string \<Rightarrow> json" where
  "blobJson b = JObj [(''blob_id'', JStr (fst b)), (''ciphertext'', JStr (snd b))]"

definition uploadBody :: "(string \<times> string) list \<Rightarrow> json" where
  "uploadBody bs = JObj [(''blobs'', JArr (map blobJson bs))]"

definition uploadHistory :: "env \<Rightarrow> (string \<times> string) list \<Rightarrow> string \<Rightarrow> int act" where
  "uploadHistory E bs token =
     await (post_api E ''/history/blobs'' (uploadBody bs) (Some token)) (intField ''stored'')"

definition parseHistoryBlob :: "json \<Rightarrow> HistoryBlobWire option" where
  "parseHistoryBlob j =
     (case (jstr (jget ''blob_id'' j), jstr (jget ''ciphertext'' j), jint (jget ''created_at'' j)) of
        (Some i, Some c, Some t) \<Rightarrow> Some \<lparr>hb_blob_id = i, hb_ciphertext = c, hb_created_at = t\<rparr>
      | _ \<Rightarrow> None)"

definition listHistory :: "env \<Rightarrow> string \<Rightarrow> string option \<Rightarrow> (HistoryBlobWire list \<times> string option) act" where
  "listHistory E token after =
     await (get_api E (''/history/blobs?limit=200'' @
              (case after of None \<Rightarrow> [] | Some a \<Rightarrow> if a = [] then [] else ''&after='' @ encodeURIComponent a))
              (Some token)) (\<lambda>j.
     await (typed (parseAll parseHistoryBlob (jarr (jget ''blobs'' j)))) (\<lambda>bs.
     ret (bs, jstr (jget ''next'' j))))"

definition historyStatus :: "env \<Rightarrow> string \<Rightarrow> (int \<times> int) act" where
  "historyStatus E token =
     await (get_api E ''/history/status'' (Some token)) (\<lambda>j.
     await (intField ''count'' j) (\<lambda>c. await (intField ''bytes'' j) (\<lambda>b. ret (c, b))))"

definition deleteHistoryBlobs :: "env \<Rightarrow> string list \<Rightarrow> string \<Rightarrow> int act" where
  "deleteHistoryBlobs E ids token =
     await (post_api E ''/history/blobs/delete'' (JObj [(''blob_ids'', JArr (map JStr ids))]) (Some token))
       (intField ''deleted'')"

definition deleteHistory :: "env \<Rightarrow> string \<Rightarrow> int act" where
  "deleteHistory E token = await (del_api E ''/history/blobs'' (Some token)) (intField ''deleted'')"

section \<open>What a call leaves behind\<close>

text \<open>\<open>sent r w w'\<close>: between \<open>w\<close> and \<open>w'\<close> the client made exactly the one request
  \<open>r\<close>, and changed nothing else.\<close>

definition afterReq :: "httpRequest \<Rightarrow> world \<Rightarrow> world" where
  "afterReq r w = w\<lparr>tick := Suc (tick w), netlog := netlog w @ [(r, idb w)]\<rparr>"

lemma afterReq_simps [simp]:
  "idb (afterReq r w) = idb w" "tick (afterReq r w) = Suc (tick w)"
  "netlog (afterReq r w) = netlog w @ [(r, idb w)]" "auth (afterReq r w) = auth w"
  "keystore (afterReq r w) = keystore w" "bundleCache (afterReq r w) = bundleCache w"
  "events (afterReq r w) = events w" "tasks (afterReq r w) = tasks w"
  "certCache (afterReq r w) = certCache w"
  by (simp_all add: afterReq_def)

lemma run_fetchReq [run_simps]:
  "fetchReq E r w = ((case fetch E (tick w) r of
       None \<Rightarrow> Inl (JsError ''TypeError: Failed to fetch'') | Some res \<Rightarrow> Inr res), afterReq r w)"
  by (simp add: fetchReq_def afterReq_def)

lemma typed_pure: "snd (typed v w) = w"
  by (simp add: typed_def split: option.splits)

lemma jsonReply_pure: "snd (jsonReply res w) = w"
  by (simp add: jsonReply_def split: option.splits)

lemma field_pure [simp]:
  "snd (strField k j w) = w" "snd (intField k j w) = w" "snd (boolField k j w) = w"
  by (simp_all add: strField_def intField_def boolField_def typed_pure)

lemma snd_await: "snd (await m k w) = (case m w of (Inl e, w') \<Rightarrow> w' | (Inr x, w') \<Rightarrow> snd (k x w'))"
  by (simp add: await_def split: prod.splits sum.splits)

lemma post_api_state [simp]: "snd (post_api E path body tok w) = afterReq (post_req E path body tok) w"
  by (simp add: post_api_def snd_await run_fetchReq jsonReply_pure split: option.splits)

lemma get_api_state [simp]: "snd (get_api E path tok w) = afterReq (get_req E path tok) w"
  by (simp add: get_api_def snd_await run_fetchReq jsonReply_pure split: option.splits)

lemma del_api_state [simp]: "snd (del_api E path tok w) = afterReq (del_req E path tok) w"
  by (simp add: del_api_def snd_await run_fetchReq jsonReply_pure split: option.splits)

lemma await_pure_state:
  "(\<And>x w'. snd (k x w') = w') \<Longrightarrow> snd (await m k w) = snd (m w)"
  by (simp add: snd_await split: prod.splits sum.splits)

definition send_req :: "env \<Rightarrow> string \<Rightarrow> string \<Rightarrow> string \<Rightarrow> int option \<Rightarrow> httpRequest" where
  "send_req E recipientId contentB64 token ttl =
     post_req E ''/messages/send'' (sendBody recipientId contentB64 (orElse ttl DEFAULT_TTL_SECONDS)) (Some token)"

lemma api_sendMessage_state [simp]:
  "snd (api_sendMessage E rid c tok ttl w) = afterReq (send_req E rid c tok ttl) w"
  by (simp add: api_sendMessage_def await_pure_state send_req_def)

definition ack_req :: "env \<Rightarrow> string list \<Rightarrow> string \<Rightarrow> httpRequest" where
  "ack_req E ids tok =
     post_req E ''/messages/ack'' (JObj [(''message_ids'', JArr (map JStr ids))]) (Some tok)"

lemma ackMessages_state [simp]: "snd (ackMessages E ids tok w) = afterReq (ack_req E ids tok) w"
  by (simp add: ackMessages_def await_pure_state ack_req_def)

definition spk_req :: "env \<Rightarrow> string \<Rightarrow> string \<Rightarrow> string \<Rightarrow> string \<Rightarrow> httpRequest" where
  "spk_req E p e d tok = post_req E ''/keys/spk/rotate''
     (JObj [(''spk_x25519_pub'', JStr p), (''spk_sig_ed'', JStr e), (''spk_sig_dil'', JStr d)]) (Some tok)"

lemma spkRotate_state [simp]: "snd (spkRotate E p e d tok w) = afterReq (spk_req E p e d tok) w"
  by (simp add: spkRotate_def await_pure_state spk_req_def)

definition replenish_req :: "env \<Rightarrow> (int \<times> string) list \<Rightarrow> string \<Rightarrow> bool \<Rightarrow> httpRequest" where
  "replenish_req E os tok rep =
     post_req E ''/keys/prekeys/replenish'' (replenishBody os rep) (Some tok)"

lemma replenishPrekeys_state [simp]:
  "snd (replenishPrekeys E os tok rep w) = afterReq (replenish_req E os tok rep) w"
  by (simp add: replenishPrekeys_def await_pure_state replenish_req_def)

lemma uploadHistory_state [simp]:
  "snd (uploadHistory E bs tok w) = afterReq (post_req E ''/history/blobs'' (uploadBody bs) (Some tok)) w"
  by (simp add: uploadHistory_def await_pure_state)

end
