(* ===== verification/Prekeys.thy ===== *)
theory Prekeys
  imports Identity Api
begin

text \<open>
  Prekey upkeep (\<^verbatim>\<open>services/prekeys.ts\<close> and \<open>prekeyUpkeep\<close> of
  \<^verbatim>\<open>services/messaging.ts\<close>): one-time prekeys are topped up in batches, the signed
  prekey rotates every 30 days give or take 5, and retired signed prekeys are kept while a
  handshake against them can still be queued. The identity object these functions update is
  the one messaging caches: the cell \<open>bundleCache\<close>.
\<close>

definition OPK_LOW_WATER :: nat where "OPK_LOW_WATER = 20"
definition OPK_BATCH :: nat where "OPK_BATCH = 50"
definition DAY :: int where "DAY = 86400"
definition SPK_RETAIN_SECS :: int where "SPK_RETAIN_SECS = 61 * DAY"

record PrekeyCryptoApi =
  pc_generateOpks :: "nat \<Rightarrow> int \<Rightarrow> nat \<Rightarrow> error + PreKey list"
  pc_generateSignedSpk :: "nat \<Rightarrow> bytes \<Rightarrow> bytes \<Rightarrow> error + SignedSpk"

definition workerPrekeyCrypto :: "env \<Rightarrow> PrekeyCryptoApi" where
  "workerPrekeyCrypto E =
     \<lparr>pc_generateOpks = generateOpks (wasm E), pc_generateSignedSpk = generateSignedSpk (wasm E)\<rparr>"

section \<open>Identity cache and token (\<^verbatim>\<open>services/messaging.ts\<close>)\<close>

definition myBundle :: "env \<Rightarrow> IdentityBundle act" where
  "myBundle E = await (gets bundleCache) (\<lambda>c.
     case c of Some b \<Rightarrow> ret b | None \<Rightarrow>
     await (loadBundle E) (\<lambda>b.
     case b of None \<Rightarrow> throw (JsError ''identity not loaded'')
     | Some b \<Rightarrow> andThen (modify (\<lambda>w. w\<lparr>bundleCache := Some b\<rparr>)) (ret b)))"

definition token :: "string act" where
  "token = await (gets (\<lambda>w. au_sessionToken (auth w))) (\<lambda>t.
     if orElse t [] = [] then throw (JsError ''not authenticated'') else ret (the t))"

section \<open>Saving, then applying\<close>

text \<open>\<open>commit(me, changes)\<close>, with the changed bundle as argument.\<close>

definition commit :: "env \<Rightarrow> IdentityBundle \<Rightarrow> unit act" where
  "commit E me' = andThen (saveBundle E me') (modify (\<lambda>w. w\<lparr>bundleCache := Some me'\<rparr>))"

text \<open>A uniform 32-bit number \<open>r\<close> is scaled to \<open>u = r / 2 ^ 32\<close>; the due time is
  \<open>now\<close> plus the floor of \<open>(25 + 10 u)\<close> days in seconds.\<close>

definition nextSpkRotation :: "env \<Rightarrow> int \<Rightarrow> int act" where
  "nextSpkRotation E now =
     await (getRandomValues E 4) (\<lambda>r.
     ret (now + (25 * 2 ^ 32 + 10 * leVal r) * DAY div 2 ^ 32))"

definition retainSpks :: "RetiredSpk list \<Rightarrow> int \<Rightarrow> RetiredSpk list" where
  "retainSpks ks now =
     filter (\<lambda>k. now - orElse (rs_retiredAt k) now < SPK_RETAIN_SECS)
       (map (\<lambda>k. k\<lparr>rs_retiredAt := Some (orElse (rs_retiredAt k) now)\<rparr>) ks)"

definition opkUpload :: "PreKey \<Rightarrow> int \<times> string" where
  "opkUpload k = (pk_id k, toHex (pk_pub k))"

definition publishOpks :: "env \<Rightarrow> IdentityBundle \<Rightarrow> PreKey list \<Rightarrow> string \<Rightarrow> unit act" where
  "publishOpks E me batch tok =
     andThen (whenM (batch \<noteq> []) (andThen (replenishPrekeys E (map opkUpload batch) tok False) (ret ())))
       (commit E (me\<lparr>b_opkPending := None\<rparr>))"

definition nextOpkId :: "PreKey list \<Rightarrow> int" where
  "nextOpkId os = foldl (\<lambda>m k. max m (pk_id k)) 0 os + 1"

definition replenishOpks :: "env \<Rightarrow> PrekeyCryptoApi \<Rightarrow> IdentityBundle \<Rightarrow> string \<Rightarrow> bool \<Rightarrow> bool act" where
  "replenishOpks E pc me tok serverLow =
     (if orElse (b_opkPending me) [] \<noteq> [] then
        andThen (publishOpks E me (filter (\<lambda>k. pk_id k \<in> set (orElse (b_opkPending me) [])) (b_opks me)) tok) (ret True)
      else if \<not> serverLow \<and> OPK_LOW_WATER \<le> length (b_opks me) then ret False
      else await (ext (\<lambda>t. pc_generateOpks pc t (nextOpkId (b_opks me)) OPK_BATCH)) (\<lambda>fresh.
        (let me' = me\<lparr>b_opks := b_opks me @ fresh, b_opkPending := Some (map pk_id fresh)\<rparr>
         in andThen (commit E me') (andThen (publishOpks E me' fresh tok) (ret True)))))"

definition publishSpk :: "env \<Rightarrow> IdentityBundle \<Rightarrow> string \<Rightarrow> unit act" where
  "publishSpk E me tok =
     andThen (spkRotate E (toHex (kp_pub (b_spk me))) (toHex (sig_ed (b_spkSig me))) (toHex (sig_dil (b_spkSig me))) tok)
       (commit E (me\<lparr>b_spkPending := Some False\<rparr>))"

definition rotatedBundle :: "IdentityBundle \<Rightarrow> SignedSpk \<Rightarrow> int \<Rightarrow> int \<Rightarrow> IdentityBundle" where
  "rotatedBundle me spk due now =
     me\<lparr>b_prevSpks := Some (retainSpks
          (\<lparr>rs_pub = kp_pub (b_spk me), rs_priv = kp_priv (b_spk me), rs_retiredAt = Some now\<rparr>
           # orElse (b_prevSpks me) []) now),
        b_spk := \<lparr>kp_pub = ss_pub spk, kp_priv = ss_priv spk\<rparr>,
        b_spkSig := \<lparr>sig_ed = ss_sigEd spk, sig_dil = ss_sigDil spk\<rparr>,
        b_spkRotateAfter := Some due, b_spkPending := Some True\<rparr>"

definition rotateSpkIfDue :: "env \<Rightarrow> PrekeyCryptoApi \<Rightarrow> IdentityBundle \<Rightarrow> string \<Rightarrow> int \<Rightarrow> bool act" where
  "rotateSpkIfDue E pc me tok now =
     (if b_spkPending me = Some True then andThen (publishSpk E me tok) (ret True)
      else if (\<exists>t. b_spkRotateAfter me = Some t \<and> now < t) then
        (let prev = orElse (b_prevSpks me) []; kept = retainSpks prev now
         in andThen (whenM (length kept \<noteq> length prev \<or> list_ex (\<lambda>k. rs_retiredAt k = None) prev)
                (commit E (me\<lparr>b_prevSpks := Some kept\<rparr>))) (ret False))
      else await (ext (\<lambda>t. pc_generateSignedSpk pc t (ed25519_priv (b_identity me)) (dilithium3_priv (b_identity me)))) (\<lambda>spk.
        await (nextSpkRotation E now) (\<lambda>due.
        (let me' = rotatedBundle me spk due now
         in andThen (commit E me') (andThen (publishSpk E me' tok) (ret True))))))"

section \<open>One upkeep run\<close>

text \<open>\<open>me\<close> is a reference to the cached identity; each step works on its current
  value. While the run awaits, further calls \<open>prekeyUpkeep(true)\<close> only set
  \<open>serverLowPending\<close>: \<open>arrivals\<close> says after which rounds one came.\<close>

definition withMe :: "(IdentityBundle \<Rightarrow> 'a act) \<Rightarrow> 'a act" where
  "withMe f = await (gets bundleCache) (\<lambda>c.
     case c of None \<Rightarrow> throw (JsError ''identity not loaded'') | Some me \<Rightarrow> f me)"

fun upkeepRounds :: "env \<Rightarrow> PrekeyCryptoApi \<Rightarrow> string \<Rightarrow> bool list \<Rightarrow> unit act" where
  "upkeepRounds E pc tok arrivals =
     await (gets serverLowPending) (\<lambda>low.
     andThen (modify (\<lambda>w. w\<lparr>serverLowPending := False\<rparr>)) (
     andThen (ignoreErrors (andThen (withMe (\<lambda>me. replenishOpks E pc me tok low)) (ret ()))) (
     case arrivals of
       [] \<Rightarrow> ret ()
     | a # as \<Rightarrow>
         andThen (whenM a (modify (\<lambda>w. w\<lparr>serverLowPending := True\<rparr>))) (
         await (gets serverLowPending) (\<lambda>again. if again then upkeepRounds E pc tok as else ret ())))))"

declare upkeepRounds.simps [simp del]

definition prekeyUpkeep :: "env \<Rightarrow> PrekeyCryptoApi \<Rightarrow> bool \<Rightarrow> bool list \<Rightarrow> unit act" where
  "prekeyUpkeep E pc serverLow arrivals =
     andThen (whenM serverLow (modify (\<lambda>w. w\<lparr>serverLowPending := True\<rparr>))) (
     await (gets upkeepRunning) (\<lambda>running.
     if running then ret () else
     andThen (modify (\<lambda>w. w\<lparr>upkeepRunning := True\<rparr>)) (
     tryFinally (tryCatch
       (await (myBundle E) (\<lambda>_.
        await token (\<lambda>tok.
        await (nowSecs E) (\<lambda>now.
        andThen (ignoreErrors (andThen (withMe (\<lambda>me. rotateSpkIfDue E pc me tok now)) (ret ()))) (
        upkeepRounds E pc tok arrivals)))))
       (\<lambda>_. ret ()))
       (\<lambda>w. w\<lparr>upkeepRunning := False\<rparr>))))"

definition resetMessaging :: "unit act" where
  "resetMessaging = modify (\<lambda>w. w\<lparr>bundleCache := None, certCache := None\<rparr>)"

section \<open>Rotation dates and retention\<close>

lemma leVal_bounds: "0 \<le> leVal bs" "leVal bs < 256 ^ length bs"
proof (induction bs)
  case (Cons b bs)
  have b: "0 \<le> uint b" "uint b < 256" using uint_lt2p [of b] by simp_all
  { case 1 show ?case using Cons.IH(1) b by simp }
  { case 2
    have "leVal bs \<le> 256 ^ length bs - 1" using Cons.IH(2) by simp
    then have "256 * leVal bs \<le> 256 * (256 ^ length bs - 1)" by simp
    then show ?case using b by simp }
qed simp_all

lemma int_div_bounds:
  fixes x n c :: int
  assumes "0 < n"
  shows "c * n \<le> x \<Longrightarrow> c \<le> x div n" and "x < c * n \<Longrightarrow> x div n < c"
proof -
  show "c * n \<le> x \<Longrightarrow> c \<le> x div n"
    using zdiv_mono1 [of "c * n" x n] assms by simp
  have "x div n * n \<le> x"
    using assms by (simp flip: minus_mod_eq_div_mult)
  then show "x < c * n \<Longrightarrow> x div n < c"
    using mult_right_mono [of c "x div n" n] assms by linarith
qed

text \<open>The signed prekey is due again 25 to 35 days after a rotation, whatever the
  random number.\<close>

theorem nextSpkRotation_bounds:
  "\<exists>due. nextSpkRotation E now w = (Inr due, w\<lparr>tick := Suc (tick w)\<rparr>) \<and>
     now + 25 * 86400 \<le> due \<and> due < now + 35 * 86400"
proof -
  let ?r = "leVal (map (rand_byte E (tick w)) [0..<4])"
  have r: "0 \<le> ?r" "?r < 2 ^ 32"
    using leVal_bounds [of "map (rand_byte E (tick w)) [0..<4]"] by simp_all
  have "25 * 86400 * 2 ^ 32 \<le> (25 * 2 ^ 32 + 10 * ?r) * DAY" "(25 * 2 ^ 32 + 10 * ?r) * DAY < 35 * 86400 * 2 ^ 32"
    using r by (simp_all add: DAY_def)
  then have "25 * 86400 \<le> (25 * 2 ^ 32 + 10 * ?r) * DAY div 2 ^ 32"
    "(25 * 2 ^ 32 + 10 * ?r) * DAY div 2 ^ 32 < 35 * 86400"
    by (intro int_div_bounds; simp)+
  then show ?thesis by (simp add: nextSpkRotation_def)
qed

lemma retainSpks_member:
  "k \<in> set (retainSpks ks now) \<longleftrightarrow>
     (\<exists>k0 \<in> set ks. k = k0\<lparr>rs_retiredAt := Some (orElse (rs_retiredAt k0) now)\<rparr> \<and>
        now - orElse (rs_retiredAt k0) now < SPK_RETAIN_SECS)"
  by (auto simp: retainSpks_def)

section \<open>Keys are stored before they are published\<close>

text \<open>The stored bundle holds the cached one's signed prekey and all its one-time
  prekeys.\<close>

definition backed :: "env \<Rightarrow> cryptoKey \<Rightarrow> privexDB \<Rightarrow> IdentityBundle \<Rightarrow> bool" where
  "backed E k d me \<longleftrightarrow> (\<exists>b. storedBundle E k d (b_userId me) = Some b \<and> b_spk b = b_spk me \<and>
     set (b_opks me) \<subseteq> set (b_opks b))"

definition cacheBacked :: "env \<Rightarrow> cryptoKey \<Rightarrow> world \<Rightarrow> bool" where
  "cacheBacked E k w \<longleftrightarrow> (\<forall>me. bundleCache w = Some me \<longrightarrow> backed E k (idb w) me)"

text \<open>A logged request publishes only keys whose private halves are in the database it was
  sent from.\<close>

definition publishBacked :: "env \<Rightarrow> cryptoKey \<Rightarrow> httpRequest \<times> privexDB \<Rightarrow> bool" where
  "publishBacked E k e \<longleftrightarrow>
     (\<forall>p s1 s2 tok. fst e = spk_req E p s1 s2 tok \<longrightarrow>
        (\<exists>u b. storedBundle E k (snd e) u = Some b \<and> toHex (kp_pub (b_spk b)) = p)) \<and>
     (\<forall>os tok rep. fst e = replenish_req E os tok rep \<longrightarrow>
        (\<exists>u b. storedBundle E k (snd e) u = Some b \<and> set os \<subseteq> opkUpload ` set (b_opks b)))"

definition prekeyStep :: "env \<Rightarrow> cryptoKey \<Rightarrow> world \<Rightarrow> world \<Rightarrow> bool" where
  "prekeyStep E k w w' \<longleftrightarrow>
     (keyOf w = Some k \<and> cacheBacked E k w \<longrightarrow>
      keyOf w' = Some k \<and> cacheBacked E k w' \<and>
      (\<exists>xs. netlog w' = netlog w @ xs \<and> (\<forall>x \<in> set xs. publishBacked E k x)))"

interpretation pks: step_relation "prekeyStep E k" for E k
proof
  show "prekeyStep E k w w" for w by (simp add: prekeyStep_def)
  show "prekeyStep E k u w" if "prekeyStep E k u v" "prekeyStep E k v w" for u v w
    unfolding prekeyStep_def
  proof (intro impI)
    assume pre: "keyOf u = Some k \<and> cacheBacked E k u"
    with that(1) obtain xs where v: "keyOf v = Some k \<and> cacheBacked E k v"
      and xs: "netlog v = netlog u @ xs" "\<forall>x \<in> set xs. publishBacked E k x" by (auto simp: prekeyStep_def)
    with that(2) obtain ys where "keyOf w = Some k" "cacheBacked E k w" "netlog w = netlog v @ ys"
      "\<forall>x \<in> set ys. publishBacked E k x" by (auto simp: prekeyStep_def)
    with xs show "keyOf w = Some k \<and> cacheBacked E k w \<and>
        (\<exists>xs. netlog w = netlog u @ xs \<and> (\<forall>x \<in> set xs. publishBacked E k x))"
      by (intro conjI exI [where x = "xs @ ys"]) auto
  qed
qed

lemma prekeyStep_same:
  "netlog w' = netlog w \<Longrightarrow> idb w' = idb w \<Longrightarrow> bundleCache w' = bundleCache w \<Longrightarrow> keyOf w' = keyOf w \<Longrightarrow>
   prekeyStep E k w w'"
  by (simp add: prekeyStep_def cacheBacked_def)

lemma req_inject:
  "spk_req E p a b t = spk_req E p' a' b' t' \<longleftrightarrow> p = p' \<and> a = a' \<and> b = b' \<and> authHeader (Some t) = authHeader (Some t')"
  "spk_req E p a b t \<noteq> replenish_req E os t' rep" "replenish_req E os t' rep \<noteq> spk_req E p a b t"
  by (auto simp: spk_req_def replenish_req_def post_req_def)

lemma opkJson_inject: "map opkJson xs = map opkJson ys \<Longrightarrow> xs = ys"
  by (rule map_injective) (auto simp: inj_on_def opkJson_def prod_eq_iff)

lemma replenish_inject: "replenish_req E os t rep = replenish_req E os' t' rep' \<Longrightarrow> os = os'"
  by (auto simp: replenish_req_def post_req_def replenishBody_def dest: opkJson_inject)

lemma run_commit:
  assumes "aes_correct E" and "keyOf w = Some k"
  shows "\<exists>w'. commit E me' w = (Inr (), w') \<and> keyOf w' = Some k \<and> bundleCache w' = Some me' \<and>
           storedBundle E k (idb w') (b_userId me') = Some (normBundle me') \<and> netlog w' = netlog w"
  using assms by (simp add: commit_def run_saveBundle)

lemma commit_stays: "aes_correct E \<Longrightarrow> keyOf w = Some k \<Longrightarrow> stays (prekeyStep E k) (commit E me') w"
  using run_commit [of E w k me'] by (fastforce simp: stays_def prekeyStep_def cacheBacked_def backed_def normBundle_def)

lemma commit_result:
  assumes "aes_correct E" and "keyOf w = Some k" and "commit E me' w = (Inr x, w')"
  shows "keyOf w' = Some k" "bundleCache w' = Some me'" "backed E k (idb w') me'"
  using run_commit [OF assms(1,2), of me'] assms(3) by (auto simp: backed_def normBundle_def)

text \<open>Publishing what the cache holds.\<close>

lemma publishSpk_stays:
  assumes aes: "aes_correct E" and key: "keyOf w = Some k" and cache: "bundleCache w = Some me"
    and b: "backed E k (idb w) me"
  shows "stays (prekeyStep E k) (publishSpk E me tok) w"
proof -
  let ?r = "spk_req E (toHex (kp_pub (b_spk me))) (toHex (sig_ed (b_spkSig me))) (toHex (sig_dil (b_spkSig me))) tok"
  have pub: "publishBacked E k (?r, idb w)"
    using b unfolding publishBacked_def backed_def by (fastforce simp: req_inject)
  have k1: "keyOf (afterReq ?r w) = Some k" using key by (simp add: afterReq_def)
  have step: "prekeyStep E k w (afterReq ?r w)"
    using pub cache b k1 by (simp add: prekeyStep_def cacheBacked_def)
  show ?thesis
    unfolding publishSpk_def
  proof (rule pks.stays_andThen)
    show "stays (prekeyStep E k) (spkRotate E (toHex (kp_pub (b_spk me))) (toHex (sig_ed (b_spkSig me)))
        (toHex (sig_dil (b_spkSig me))) tok) w"
      using step by (simp add: stays_def)
    fix x w' assume "spkRotate E (toHex (kp_pub (b_spk me))) (toHex (sig_ed (b_spkSig me)))
        (toHex (sig_dil (b_spkSig me))) tok w = (Inr x, w')"
    then have "w' = afterReq ?r w" using spkRotate_state by (metis snd_conv)
    then show "stays (prekeyStep E k) (commit E (me\<lparr>b_spkPending := Some False\<rparr>)) w'"
      using k1 by (intro commit_stays aes) simp
  qed
qed

lemma publishOpks_stays:
  assumes aes: "aes_correct E" and key: "keyOf w = Some k" and cache: "bundleCache w = Some me"
    and b: "backed E k (idb w) me" and sub: "set batch \<subseteq> set (b_opks me)"
  shows "stays (prekeyStep E k) (publishOpks E me batch tok) w"
proof -
  let ?r = "replenish_req E (map opkUpload batch) tok False"
  have pub: "publishBacked E k (?r, idb w)"
    using b sub by (fastforce simp: publishBacked_def req_inject backed_def dest: replenish_inject)
  have k1: "keyOf (afterReq ?r w) = Some k" using key by (simp add: afterReq_def)
  have step: "prekeyStep E k w (afterReq ?r w)"
    using pub cache b k1 by (simp add: prekeyStep_def cacheBacked_def)
  let ?up = "whenM (batch \<noteq> []) (andThen (replenishPrekeys E (map opkUpload batch) tok False) (ret ()))"
  have up: "stays (prekeyStep E k) ?up w"
    by (intro pks.stays_whenM pks.stays_andThen pks.stays_ret) (use step in \<open>simp add: stays_def\<close>)
  have "keyOf w' = Some k" if "?up w = (Inr x, w')" for x w'
  proof (cases "batch = []")
    case False
    then have "snd (?up w) = afterReq ?r w" by (simp add: andThen_def snd_await split: prod.splits sum.splits)
        (metis replenishPrekeys_state snd_conv)
    then show ?thesis using that k1 by simp
  qed (use that key in simp)
  then show ?thesis
    unfolding publishOpks_def by (intro pks.stays_andThen up commit_stays aes)
qed

lemma replenishOpks_stays:
  assumes aes: "aes_correct E" and key: "keyOf w = Some k" and cache: "bundleCache w = Some me"
    and b: "backed E k (idb w) me"
  shows "stays (prekeyStep E k) (replenishOpks E pc me tok low) w"
proof -
  have gen: "stays (prekeyStep E k) (ext f) w" for f :: "nat \<Rightarrow> error + PreKey list"
    unfolding stays_def by (rule prekeyStep_same) simp_all
  have fresh: "stays (prekeyStep E k) (andThen (commit E me') (andThen (publishOpks E me' fresh tok) (ret True))) w'"
    if "keyOf w' = Some k" "set fresh \<subseteq> set (b_opks me')" for w' fresh me'
    using that commit_result [OF aes]
    by (intro pks.stays_andThen pks.stays_ret commit_stays aes publishOpks_stays) blast+
  show ?thesis
    unfolding replenishOpks_def Let_def
    by (intro pks.stays_rules gen publishOpks_stays [OF aes key cache b] fresh) (use key in auto)
qed

lemma rotateSpk_stays:
  assumes aes: "aes_correct E" and key: "keyOf w = Some k" and cache: "bundleCache w = Some me"
    and b: "backed E k (idb w) me"
  shows "stays (prekeyStep E k) (rotateSpkIfDue E pc me tok now) w"
proof -
  have gen: "stays (prekeyStep E k) (ext f) w" for f :: "nat \<Rightarrow> error + SignedSpk"
    unfolding stays_def by (rule prekeyStep_same) simp_all
  have due: "stays (prekeyStep E k) (nextSpkRotation E now) w'" for w'
    unfolding stays_def by (rule prekeyStep_same) (simp_all add: nextSpkRotation_def)
  have fresh: "stays (prekeyStep E k) (andThen (commit E me') (andThen (publishSpk E me' tok) (ret True))) w'"
    if "keyOf w' = Some k" for w' me'
    using that commit_result [OF aes]
    by (intro pks.stays_andThen pks.stays_ret commit_stays aes publishSpk_stays) blast+
  show ?thesis
    unfolding rotateSpkIfDue_def Let_def
    by (intro pks.stays_rules gen due publishSpk_stays [OF aes key cache b] commit_stays [OF aes key] fresh)
       (use key in \<open>auto simp: nextSpkRotation_def\<close>)
qed

text \<open>From a state outside the invariant nothing is claimed.\<close>

lemma keeps_withMe:
  assumes "\<And>w me. keyOf w = Some k \<Longrightarrow> bundleCache w = Some me \<Longrightarrow> backed E k (idb w) me \<Longrightarrow>
      stays (prekeyStep E k) (f me) w"
  shows "keeps (prekeyStep E k) (withMe f)"
proof (rule stays_keeps)
  fix w
  show "stays (prekeyStep E k) (withMe f) w"
  proof (cases "keyOf w = Some k \<and> cacheBacked E k w")
    case True
    then show ?thesis unfolding withMe_def
      by (intro pks.stays_rules assms) (auto simp: cacheBacked_def)
  qed (auto simp: stays_def prekeyStep_def)
qed

lemma keeps_prekey_modify:
  "(\<And>w. netlog (g w) = netlog w \<and> idb (g w) = idb w \<and> bundleCache (g w) = bundleCache w \<and> keystore (g w) = keystore w) \<Longrightarrow>
   keeps (prekeyStep E k) (modify g)"
  by (rule pks.keeps_modify) (simp add: prekeyStep_same keyOf_def)

lemma keeps_replenish: "aes_correct E \<Longrightarrow> keeps (prekeyStep E k) (withMe (\<lambda>me. replenishOpks E pc me tok low))"
  by (intro keeps_withMe replenishOpks_stays)

lemma keeps_rotate: "aes_correct E \<Longrightarrow> keeps (prekeyStep E k) (withMe (\<lambda>me. rotateSpkIfDue E pc me tok now))"
  by (intro keeps_withMe rotateSpk_stays)

lemma keeps_ignoreErrors: "keeps (prekeyStep E k) m \<Longrightarrow> keeps (prekeyStep E k) (ignoreErrors m)"
  unfolding ignoreErrors_def by (intro pks.keeps_rules)

lemma keeps_upkeepRounds: "aes_correct E \<Longrightarrow> keeps (prekeyStep E k) (upkeepRounds E pc tok arrivals)"
proof (induction arrivals)
  case Nil
  then show ?case
    by (subst upkeepRounds.simps)
       (auto intro!: pks.keeps_rules keeps_prekey_modify keeps_ignoreErrors keeps_replenish)
next
  case (Cons a as)
  then show ?case
    by (subst upkeepRounds.simps)
       (auto intro!: pks.keeps_rules keeps_prekey_modify keeps_ignoreErrors keeps_replenish)
qed

lemma keeps_now: "keeps (prekeyStep E k) (nowSecs E)"
  by (rule keepsI, rule prekeyStep_same) simp_all

lemma keeps_token: "keeps (prekeyStep E k) token"
  unfolding token_def by (intro pks.keeps_rules)

text \<open>C9. The server never hands out a public key whose private half this device does not
  hold: in a run of prekey upkeep, however the crypto worker and the server answer, every
  rotation request publishes the signed prekey of the bundle stored in the local database at
  that moment, and every top-up publishes only one-time prekeys of that stored bundle.\<close>

theorem prekeyUpkeep_stores_before_publishing:
  assumes aes: "aes_correct E" and key: "keyOf w = Some k"
    and cache: "bundleCache w = Some me" and b: "backed E k (idb w) me"
  shows "\<exists>w' xs. prekeyUpkeep E pc low arrivals w = (Inr (), w') \<and> netlog w' = netlog w @ xs \<and>
           (\<forall>x \<in> set xs. publishBacked E k x)"
proof -
  have my: "stays (prekeyStep E k) (myBundle E) w'" and my': "myBundle E w' = (Inr me', w'') \<Longrightarrow> w'' = w'"
    if "bundleCache w' \<noteq> None" for w' w'' me'
    using that by (auto simp: myBundle_def stays_def pks.step_refl)
  have body: "stays (prekeyStep E k) (await (myBundle E) (\<lambda>_. await token (\<lambda>tok. await (nowSecs E) (\<lambda>now.
        andThen (ignoreErrors (andThen (withMe (\<lambda>me. rotateSpkIfDue E pc me tok now)) (ret ()))) (
        upkeepRounds E pc tok arrivals))))) w'" if "bundleCache w' \<noteq> None" for w'
    by (rule pks.stays_await [OF my [OF that]])
       (intro keeps_stays pks.keeps_rules keeps_token keeps_now keeps_ignoreErrors keeps_rotate keeps_upkeepRounds aes)
  have step: "stays (prekeyStep E k) (prekeyUpkeep E pc low arrivals) w"
    unfolding prekeyUpkeep_def
    by (intro pks.stays_rules pks.stays_tryFinally pks.stays_modify body keeps_stays [OF keeps_prekey_modify])
       (use cache in \<open>auto simp: whenM_def prekeyStep_same keyOf_def split: if_splits\<close>)
  have "fst (prekeyUpkeep E pc low arrivals w) = Inr ()"
    by (auto simp: prekeyUpkeep_def andThen_def await_def whenM_def tryFinally_def tryCatch_def split: prod.splits sum.splits)
  then have "prekeyUpkeep E pc low arrivals w = (Inr (), snd (prekeyUpkeep E pc low arrivals w))"
    by (metis prod.collapse)
  moreover have "cacheBacked E k w" using cache b by (simp add: cacheBacked_def)
  ultimately show ?thesis
    using step key unfolding stays_def prekeyStep_def by blast
qed

lemma publishSpk_cache:
  assumes "keyOf w = Some k" and "bundleCache w = Some me"
  shows "\<exists>m. bundleCache (snd (publishSpk E me tok w)) = Some m \<and>
    b_spk m = b_spk me \<and> b_prevSpks m = b_prevSpks me"
proof -
  let ?r = "spk_req E (toHex (kp_pub (b_spk me))) (toHex (sig_ed (b_spkSig me))) (toHex (sig_dil (b_spkSig me))) tok"
  have k1: "keyOf (afterReq ?r w) = Some k" using assms(1) by (simp add: afterReq_def)
  obtain r where "spkRotate E (toHex (kp_pub (b_spk me))) (toHex (sig_ed (b_spkSig me)))
      (toHex (sig_dil (b_spkSig me))) tok w = (r, afterReq ?r w)"
    using spkRotate_state by (metis prod.collapse)
  then show ?thesis
    using assms(2) by (cases r) (simp_all add: publishSpk_def commit_def run_saveBundle [OF k1])
qed

text \<open>Rotation keeps every private key that can still be needed: after a rotation the
  previous signed prekey is among the retained ones, retired now, and every key retired less
  than 61 days ago is still retained with its date; no key is retained 61 days or more after
  its retirement.\<close>

theorem rotation_retains_keys:
  assumes key: "keyOf w = Some k"
    and due: "b_spkPending me \<noteq> Some True" "\<forall>t. b_spkRotateAfter me = Some t \<longrightarrow> t \<le> now"
    and gen: "pc_generateSignedSpk pc (tick w) (ed25519_priv (b_identity me)) (dilithium3_priv (b_identity me)) = Inr spk"
  shows "\<exists>me'. bundleCache (snd (rotateSpkIfDue E pc me tok now w)) = Some me' \<and>
    b_spk me' = \<lparr>kp_pub = ss_pub spk, kp_priv = ss_priv spk\<rparr> \<and>
    \<lparr>rs_pub = kp_pub (b_spk me), rs_priv = kp_priv (b_spk me), rs_retiredAt = Some now\<rparr> \<in> set (orElse (b_prevSpks me') []) \<and>
    (\<forall>old \<in> set (orElse (b_prevSpks me) []). \<forall>t. rs_retiredAt old = Some t \<and> now - t < 61 * 86400 \<longrightarrow>
       old \<in> set (orElse (b_prevSpks me') [])) \<and>
    (\<forall>old \<in> set (orElse (b_prevSpks me') []). \<exists>t. rs_retiredAt old = Some t \<and> now - t < 61 * 86400)"
proof -
  let ?old = "\<lparr>rs_pub = kp_pub (b_spk me), rs_priv = kp_priv (b_spk me), rs_retiredAt = Some now\<rparr>"
  let ?kept = "retainSpks (?old # orElse (b_prevSpks me) []) now"
  have nd: "\<not> (\<exists>t. b_spkRotateAfter me = Some t \<and> now < t)" using due(2) by auto
  define w1 where "w1 = w\<lparr>tick := Suc (Suc (tick w))\<rparr>"
  have k1: "keyOf w1 = Some k" using key by (simp add: w1_def)
  obtain t where run: "rotateSpkIfDue E pc me tok now w
      = andThen (commit E (rotatedBundle me spk t now)) (andThen (publishSpk E (rotatedBundle me spk t now) tok) (ret True)) w1"
    using due(1) nd gen by (simp add: rotateSpkIfDue_def nextSpkRotation_def Let_def w1_def)
  define me1 where "me1 = rotatedBundle me spk t now"
  have me1: "b_spk me1 = \<lparr>kp_pub = ss_pub spk, kp_priv = ss_priv spk\<rparr>" "b_prevSpks me1 = Some ?kept"
    by (simp_all add: me1_def rotatedBundle_def)
  note run = run [folded me1_def]
  obtain w2 where c: "commit E me1 w1 = (Inr (), w2)" and w2: "bundleCache w2 = Some me1" "keyOf w2 = Some k"
    using k1 by (simp add: commit_def run_saveBundle [OF k1])
  have "snd (andThen (publishSpk E me1 tok) (ret True) w2) = snd (publishSpk E me1 tok w2)"
    by (simp add: andThen_def await_pure_state)
  then obtain m where "bundleCache (snd (rotateSpkIfDue E pc me tok now w)) = Some m"
    "b_spk m = b_spk me1" "b_prevSpks m = b_prevSpks me1"
    using publishSpk_cache [OF w2(2,1), of E tok] c run by auto
  moreover have "?old \<in> set ?kept"
    unfolding retainSpks_member by (rule bexI [where x = ?old]) (simp_all add: SPK_RETAIN_SECS_def DAY_def)
  moreover have "old \<in> set ?kept"
    if "old \<in> set (orElse (b_prevSpks me) [])" "rs_retiredAt old = Some t" "now - t < 61 * 86400" for old t
    unfolding retainSpks_member by (rule bexI [where x = old]) (use that in \<open>simp_all add: SPK_RETAIN_SECS_def DAY_def\<close>)
  moreover have "\<exists>t. rs_retiredAt old = Some t \<and> now - t < 61 * 86400" if "old \<in> set ?kept" for old
    using that unfolding retainSpks_member by (auto simp: SPK_RETAIN_SECS_def DAY_def)
  ultimately show ?thesis using me1 by auto
qed

end
