(* ===== verification/Witnesses.thy ===== *)
theory Witnesses
  imports Sample Contacts Prekeys
begin

text \<open>
  Instances of the properties of storage, contacts, identity and prekeys, on the sample
  environment.
\<close>

section \<open>Instances\<close>

theorem safetyCode_symmetric_witness: "safetyCode env0 [1] [2] = safetyCode env0 [2] [1]"
  by (rule conjunct1 [OF safetyCode_symmetric]) simp

definition message0 :: MessageRow where
  "message0 = \<lparr>m_msg_id = ''m1'', m_session_id = ''px_peer'', m_content_enc = replicate 12 0 @ textEncode ''hi'',
     m_preview_enc = None, m_timestamp = 5, m_status = ''sent'', m_direction = DirOut, m_kind = Some KText,
     m_receipt_token = None, m_receipt_read_wanted = None, m_receipt_read_done = None,
     m_server_anchor = None, m_created_at = Some 5000\<rparr>"

definition dbMessage :: privexDB where
  "dbMessage = db0\<lparr>messages_tbl := [(''m1'', message0)]\<rparr>"


theorem contacts_add_sticky_witness:
  "effStatus (idb (snd (contacts_add env0 ''px_a'' [1] [2] PendingOutbound world0))) ''px_a'' = Some PendingOutbound"
proof -
  obtain r w' where "contacts_add env0 ''px_a'' [1] [2] PendingOutbound world0 = (r, w')" by fastforce
  from contacts_add_sticky [OF this] this show ?thesis by (simp add: effStatus_def [of db0])
qed

theorem removeContact_purges_witness:
  "\<exists>w'. removeContact ''px_peer'' (world0\<lparr>idb := dbMessage\<rparr>) = (Inr (), w') \<and>
     (\<forall>m \<in> set (toArray (messages_tbl (idb w'))). m_session_id m \<noteq> ''px_peer'')"
  using removeContact_purges [of "world0\<lparr>idb := dbMessage\<rparr>" "''px_peer''"]
  by (auto simp: dbMessage_def twf_def)

definition verified0 :: VerifiedBundle where
  "verified0 = \<lparr>vb_userId = ''px_peer'', vb_ik_ed25519 = [9], vb_ik_dilithium3 = [9], vb_ik_x25519 = [9],
     vb_spk_x25519 = [9], vb_kyber1024_pub = [9], vb_opk = None, vb_opk_id = None\<rparr>"

definition pqx0 :: PqxdhInit where
  "pqx0 = \<lparr>pi_shared_secret = [1], pi_alice_ik_pub = [2], pi_alice_ek_pub = [3], pi_kyber_ciphertext = [4],
     pi_opk_used = False\<rparr>"

theorem session_roundtrip_witness:
  "\<exists>w1. addVerifiedContact env0 verified0 pqx0 [6] world0 = (Inr (), w1) \<and>
     (\<exists>s. loadSession env0 ''px_peer'' w1 = (Inr (Some s), w1) \<and> ls_ratchetState s = [6])"
  using session_roundtrip [of env0 world0 key0 verified0 pqx0 "[6]" "[7]"] by (auto simp: verified0_def)

theorem persist_load_bundle_witness:
  "\<exists>w' w''. persistGeneratedIdentity env0 bundle0 world0 = (Inr (), w') \<and>
     loadBundle env0 w' = (Inr (Some bundle0), w'')"
  using persist_load_bundle [of env0 world0 key0 bundle0] by simp

definition dbIdentity :: privexDB where
  "dbIdentity = identity_tbl_update (tput ''px_me'' (savedRow env0 key0 bundle0 0)) db0"

lemma stored0: "storedBundle env0 key0 dbIdentity ''px_me'' = Some bundle0"
  using stored_savedRow [of env0 key0 bundle0 0 db0] by (simp add: dbIdentity_def)

theorem prekeyUpkeep_stores_before_publishing_witness:
  "\<exists>w' xs. prekeyUpkeep env0 (workerPrekeyCrypto env0) True [] (world0\<lparr>idb := dbIdentity\<rparr>) = (Inr (), w') \<and>
     netlog w' = xs \<and> (\<forall>x \<in> set xs. publishBacked env0 key0 x)"
  using prekeyUpkeep_stores_before_publishing
    [of env0 "world0\<lparr>idb := dbIdentity\<rparr>" key0 bundle0 "workerPrekeyCrypto env0" True "[]"] stored0
  by (auto simp: backed_def)

theorem rotation_retains_keys_witness:
  "\<exists>me'. bundleCache (snd (rotateSpkIfDue env0 (workerPrekeyCrypto env0) bundle0 ''tok'' 100 world0)) = Some me' \<and>
     \<lparr>rs_pub = [10], rs_priv = [11], rs_retiredAt = Some 100\<rparr> \<in> set (orElse (b_prevSpks me') [])"
proof -
  have "pc_generateSignedSpk (workerPrekeyCrypto env0) (tick world0) (ed25519_priv (b_identity bundle0))
      (dilithium3_priv (b_identity bundle0)) = Inr \<lparr>ss_pub = [0], ss_priv = [0], ss_sigEd = [0], ss_sigDil = [0]\<rparr>"
    by (simp add: workerPrekeyCrypto_def generateSignedSpk_def env0_def wasm0_def)
  from rotation_retains_keys [OF key0_of _ _ this, of 100 env0 "''tok''"] show ?thesis
    by (auto simp: bundle0_def)
qed

end
