(* ===== verification/Outbox.thy ===== *)
theory Outbox
  imports Api AtRest
begin

text \<open>
  The offline outbox (\<^verbatim>\<open>services/outbox.ts\<close>): sealed messages that could not be posted
  are parked and re-posted oldest first. \<open>SendFn\<close>, the post, is a parameter of
  \<open>flushOutbox\<close> as in the source; its default is \<open>api_sendMessage\<close>.
\<close>

type_synonym sendFn = "string \<Rightarrow> string \<Rightarrow> string \<Rightarrow> int option \<Rightarrow> string act"

definition PERMANENT :: "int set" where "PERMANENT = {400, 404, 413}"

definition permanentError :: "error \<Rightarrow> bool" where
  "permanentError e = (case e of ApiError s \<Rightarrow> s \<in> PERMANENT | JsError _ \<Rightarrow> False)"

definition enqueue :: "env \<Rightarrow> string \<Rightarrow> string \<Rightarrow> string \<Rightarrow> int option \<Rightarrow> unit act" where
  "enqueue E peerId sealedB64 localMsgId ttlSeconds =
     await (dateNow E) (\<lambda>t.
     andThen (dbModify (\<lambda>d. d\<lparr>outbox_next := Suc (outbox_next d), outbox_tbl := tput (outbox_next d)
        \<lparr>o_id = outbox_next d, o_peer_id = peerId, o_sealed_b64 = sealedB64, o_local_msg_id = localMsgId,
         o_created_at = t, o_attempts = 0, o_ttl_seconds = ttlSeconds\<rparr> (outbox_tbl d)\<rparr>)) (
     andThen (emit EvOutbox) (spawn TRequestBackgroundSync)))"

definition outboxCount :: "nat act" where
  "outboxCount = dbGets (\<lambda>d. length (outbox_tbl d))"

definition deleteOutbox :: "nat \<Rightarrow> unit act" where
  "deleteOutbox i = dbModify (outbox_tbl_update (tdelete i))"

definition setMessageStatus :: "string \<Rightarrow> string \<Rightarrow> unit act" where
  "setMessageStatus msgId s = dbModify (messages_tbl_update (tupdate msgId (\<lambda>m. m\<lparr>m_status := s\<rparr>)))"

text \<open>The row leaves the queue; the local message, if there is one, takes the status.\<close>

definition settleRow :: "OutboxRow \<Rightarrow> string \<Rightarrow> unit act" where
  "settleRow row s =
     andThen (deleteOutbox (o_id row))
       (whenM (o_local_msg_id row \<noteq> [])
          (andThen (setMessageStatus (o_local_msg_id row) s) (emit (EvMessage (o_peer_id row)))))"

definition elapsedSecs :: "int \<Rightarrow> OutboxRow \<Rightarrow> int" where
  "elapsedSecs t row = max 0 ((t - o_created_at row) div 1000)"

definition expired :: "OutboxRow \<Rightarrow> int \<Rightarrow> bool" where
  "expired row el = (case o_ttl_seconds row of None \<Rightarrow> False | Some ttl \<Rightarrow> ttl \<le> el)"

definition keepRow :: "OutboxRow \<Rightarrow> error \<Rightarrow> unit act" where
  "keepRow row e =
     andThen (dbModify (outbox_tbl_update (tupdate (o_id row) (\<lambda>r. r\<lparr>o_attempts := o_attempts row + 1\<rparr>))))
       (whenM (e = ApiError 401) (spawn TReauthFlush))"

fun flushRows :: "env \<Rightarrow> sendFn \<Rightarrow> string \<Rightarrow> OutboxRow list \<Rightarrow> unit act" where
  "flushRows E send tok [] = ret ()"
| "flushRows E send tok (row # rows) =
     await (dateNow E) (\<lambda>t.
     if expired row (elapsedSecs t row) then andThen (settleRow row ''failed'') (flushRows E send tok rows)
     else await (attempt (send (o_peer_id row) (o_sealed_b64 row) tok
                   (map_option (\<lambda>x. x - elapsedSecs t row) (o_ttl_seconds row)))) (\<lambda>r.
       case r of
         Inl e \<Rightarrow> if permanentError e then andThen (settleRow row ''failed'') (flushRows E send tok rows)
                  else keepRow row e
       | Inr _ \<Rightarrow> andThen (settleRow row ''sent'') (flushRows E send tok rows)))"

definition outboxRows :: "privexDB \<Rightarrow> OutboxRow list" where
  "outboxRows d = sort_key o_created_at (toArray (outbox_tbl d))"

definition flushOutbox :: "env \<Rightarrow> sendFn \<Rightarrow> string option \<Rightarrow> unit act" where
  "flushOutbox E send tok =
     await (gets flushing) (\<lambda>busy.
     if orElse tok [] = [] \<or> busy then ret () else
     andThen (modify (\<lambda>w. w\<lparr>flushing := True\<rparr>)) (
     tryFinally (await (dbGets outboxRows) (flushRows E send (the tok)))
       (\<lambda>w. w\<lparr>flushing := False, events := events w @ [EvOutbox]\<rparr>)))"

section \<open>What a flush does\<close>

text \<open>The fate of one queued message: posted and accepted, dropped because its own time to
  live had passed, refused for good by the server, or kept after a failure that may pass.\<close>

datatype fate = Sent | Expired | Refused | Kept

definition flushReq :: "env \<Rightarrow> string \<Rightarrow> OutboxRow \<Rightarrow> int \<Rightarrow> httpRequest" where
  "flushReq E tok row el =
     send_req E (o_peer_id row) (o_sealed_b64 row) tok (map_option (\<lambda>x. x - el) (o_ttl_seconds row))"

definition sendReply :: "env \<Rightarrow> nat \<Rightarrow> httpRequest \<Rightarrow> error + string" where
  "sendReply E t q =
     (case fetch E t q of None \<Rightarrow> Inl (JsError ''TypeError: Failed to fetch'')
      | Some res \<Rightarrow>
          if rspOk res then
            (case rsp_json res of None \<Rightarrow> Inl (JsError ''SyntaxError'')
             | Some j \<Rightarrow> (case jstr (jget ''message_id'' j) of None \<Rightarrow> Inl (JsError ''TypeError'') | Some m \<Rightarrow> Inr m))
          else Inl (ApiError (rsp_status res)))"

lemma run_api_sendMessage:
  "api_sendMessage E rid c tok ttl w
     = (sendReply E (tick w) (send_req E rid c tok ttl), afterReq (send_req E rid c tok ttl) w)"
  by (simp add: api_sendMessage_def post_api_def run_fetchReq jsonReply_def strField_def typed_def sendReply_def
      send_req_def await_def split: option.splits)

text \<open>What a fate means: the requests made for the message, each with the rest of its time
  to live, and the server's answer.\<close>

definition handled :: "env \<Rightarrow> string \<Rightarrow> OutboxRow \<Rightarrow> fate \<Rightarrow> httpRequest list \<Rightarrow> bool" where
  "handled E tok row f qs \<longleftrightarrow>
     (\<exists>el \<ge> 0. if f = Expired then expired row el \<and> qs = []
        else \<not> expired row el \<and> qs = [flushReq E tok row el] \<and>
          (\<exists>t. case sendReply E t (flushReq E tok row el) of
             Inr _ \<Rightarrow> f = Sent
           | Inl e \<Rightarrow> f = (if permanentError e then Refused else Kept)))"

fun flushed :: "env \<Rightarrow> string \<Rightarrow> OutboxRow list \<Rightarrow> fate list \<Rightarrow> httpRequest list \<Rightarrow> bool" where
  "flushed E tok [] fs qs \<longleftrightarrow> fs = [] \<and> qs = []"
| "flushed E tok (row # rows) fs qs \<longleftrightarrow>
     (\<exists>f fs' q1 q2. fs = f # fs' \<and> qs = q1 @ q2 \<and> handled E tok row f q1 \<and>
        (if f = Kept then fs' = [] \<and> q2 = [] else flushed E tok rows fs' q2))"

text \<open>The tables after the fates of the first rows are settled.\<close>

fun settledOutbox :: "OutboxRow list \<Rightarrow> fate list \<Rightarrow> (nat, OutboxRow) table \<Rightarrow> (nat, OutboxRow) table" where
  "settledOutbox (row # rows) (f # fs) t =
     settledOutbox rows fs
       (if f = Kept then tupdate (o_id row) (\<lambda>r. r\<lparr>o_attempts := o_attempts row + 1\<rparr>) t else tdelete (o_id row) t)"
| "settledOutbox rows fs t = t"

fun settledMessages :: "OutboxRow list \<Rightarrow> fate list \<Rightarrow> (string, MessageRow) table \<Rightarrow> (string, MessageRow) table" where
  "settledMessages (row # rows) (f # fs) t =
     settledMessages rows fs
       (if f = Kept \<or> o_local_msg_id row = [] then t
        else tupdate (o_local_msg_id row) (\<lambda>m. m\<lparr>m_status := (if f = Sent then ''sent'' else ''failed'')\<rparr>) t)"
| "settledMessages rows fs t = t"

definition outboxEffect :: "env \<Rightarrow> string \<Rightarrow> OutboxRow list \<Rightarrow> world \<Rightarrow> world \<Rightarrow> bool" where
  "outboxEffect E tok rows w w' \<longleftrightarrow>
     (\<exists>fs qs xs. flushed E tok rows fs qs \<and> netlog w' = netlog w @ xs \<and> map fst xs = qs \<and>
        idb w' = (idb w)\<lparr>outbox_tbl := settledOutbox rows fs (outbox_tbl (idb w)),
                         messages_tbl := settledMessages rows fs (messages_tbl (idb w))\<rparr>)"

lemma run_settleRow:
  "settleRow row s w = (Inr (), w\<lparr>
     events := (if o_local_msg_id row = [] then events w else events w @ [EvMessage (o_peer_id row)]),
     idb := (idb w)\<lparr>outbox_tbl := tdelete (o_id row) (outbox_tbl (idb w)),
       messages_tbl := (if o_local_msg_id row = [] then messages_tbl (idb w)
         else tupdate (o_local_msg_id row) (\<lambda>m. m\<lparr>m_status := s\<rparr>) (messages_tbl (idb w)))\<rparr>\<rparr>)"
  by (simp add: settleRow_def deleteOutbox_def setMessageStatus_def)

lemma elapsedSecs_ge0: "0 \<le> elapsedSecs t row"
  by (simp add: elapsedSecs_def)

lemma outboxEffect_settle:
  assumes step: "netlog w1 = netlog w @ xs" "map fst xs = q1" "f \<noteq> Kept" "handled E tok row f q1"
      "idb w1 = (idb w)\<lparr>outbox_tbl := tdelete (o_id row) (outbox_tbl (idb w)),
        messages_tbl := (if o_local_msg_id row = [] then messages_tbl (idb w)
          else tupdate (o_local_msg_id row) (\<lambda>m. m\<lparr>m_status := (if f = Sent then ''sent'' else ''failed'')\<rparr>)
            (messages_tbl (idb w)))\<rparr>"
    and rest: "outboxEffect E tok rows w1 w'"
  shows "outboxEffect E tok (row # rows) w w'"
proof -
  obtain fs qs ys where r: "flushed E tok rows fs qs" "netlog w' = netlog w1 @ ys" "map fst ys = qs"
    "idb w' = (idb w1)\<lparr>outbox_tbl := settledOutbox rows fs (outbox_tbl (idb w1)),
       messages_tbl := settledMessages rows fs (messages_tbl (idb w1))\<rparr>"
    using rest by (auto simp: outboxEffect_def)
  show ?thesis
    unfolding outboxEffect_def
    by (rule exI [where x = "f # fs"], rule exI [where x = "q1 @ qs"], rule exI [where x = "xs @ ys"])
       (use step r in auto)
qed

lemma flushRows_effect:
  "\<exists>w'. flushRows E (api_sendMessage E) tok rows w = (Inr (), w') \<and> outboxEffect E tok rows w w'"
proof (induction rows arbitrary: w)
  case Nil
  show ?case by (auto simp: outboxEffect_def)
next
  case (Cons row rows)
  let ?t = "date_now E (tick w)"
  let ?el = "elapsedSecs ?t row"
  let ?q = "flushReq E tok row ?el"
  define w0 where "w0 = w\<lparr>tick := Suc (tick w)\<rparr>"
  define wq where "wq = afterReq ?q w0"
  have wq: "idb wq = idb w" "netlog wq = netlog w @ [(?q, idb w)]"
    by (simp_all add: wq_def w0_def)
  show ?case
  proof (cases "expired row ?el")
    case True
    obtain w' where w': "flushRows E (api_sendMessage E) tok rows (snd (settleRow row ''failed'' w0)) = (Inr (), w')"
      and eff: "outboxEffect E tok rows (snd (settleRow row ''failed'' w0)) w'" using Cons.IH by blast
    have "flushRows E (api_sendMessage E) tok (row # rows) w = (Inr (), w')"
      using True w' by (simp add: run_settleRow w0_def)
    moreover have "handled E tok row Expired []"
      using True elapsedSecs_ge0 by (auto simp: handled_def)
    ultimately show ?thesis
      using outboxEffect_settle [OF _ _ _ _ _ eff, of w "[]" "[]" Expired] by (simp add: run_settleRow w0_def)
  next
    case False
    have post: "attempt (api_sendMessage E (o_peer_id row) (o_sealed_b64 row) tok
        (map_option (\<lambda>x. x - ?el) (o_ttl_seconds row))) w0 = (Inr (sendReply E (tick w0) ?q), wq)"
      by (simp add: attempt_def run_api_sendMessage flushReq_def wq_def)
    have hd: "handled E tok row f [?q]"
      if "case sendReply E (tick w0) ?q of Inr _ \<Rightarrow> f = Sent | Inl e \<Rightarrow> f = (if permanentError e then Refused else Kept)"
      for f
    proof -
      have "f \<noteq> Expired" using that by (auto split: sum.splits if_splits)
      then show ?thesis using that False elapsedSecs_ge0 unfolding handled_def
        by (intro exI [where x = ?el]) (auto intro!: exI [where x = "tick w0"] split: sum.splits)
    qed
    have settled: "\<exists>w'. andThen (settleRow row s) (flushRows E (api_sendMessage E) tok rows) wq = (Inr (), w') \<and>
        outboxEffect E tok (row # rows) w w'"
      if "handled E tok row f [?q]" "f \<noteq> Kept" "s = (if f = Sent then ''sent'' else ''failed'')" for f s
    proof -
      obtain w' where w': "flushRows E (api_sendMessage E) tok rows (snd (settleRow row s wq)) = (Inr (), w')"
        and eff: "outboxEffect E tok rows (snd (settleRow row s wq)) w'" using Cons.IH by blast
      then show ?thesis
        using outboxEffect_settle [OF _ _ that(2,1) _ eff, of w "[(?q, idb w)]"] that(3) wq
        by (simp add: run_settleRow)
    qed
    show ?thesis
    proof (cases "sendReply E (tick w0) ?q")
      case (Inr m)
      then show ?thesis
        using settled [of Sent "''sent''"] hd [of Sent] post False by (simp add: w0_def)
    next
      case (Inl e)
      show ?thesis
      proof (cases "permanentError e")
        case True
        then show ?thesis
          using settled [of Refused "''failed''"] hd [of Refused] post False Inl by (simp add: w0_def)
      next
        case kept: False
        have "flushed E tok (row # rows) [Kept] [?q]"
          using hd [of Kept] Inl kept by auto
        then have "outboxEffect E tok (row # rows) w (snd (keepRow row e wq))"
          unfolding outboxEffect_def
          by (intro exI [where x = "[Kept]"] exI [where x = "[?q]"] exI [where x = "[(?q, idb w)]"])
             (use wq in \<open>simp add: keepRow_def whenM_def\<close>)
        then show ?thesis
          using post False Inl kept by (cases "e = ApiError 401") (simp_all add: w0_def keepRow_def)
      qed
    qed
  qed
qed

section \<open>The tables after a flush\<close>

lemma flushed_length: "flushed E tok rows fs qs \<Longrightarrow> length fs \<le> length rows"
  by (induction rows arbitrary: fs qs) (auto split: if_splits)

lemma settledOutbox_other:
  "k \<notin> o_id ` set (take (length fs) rows) \<Longrightarrow> tget (settledOutbox rows fs t) k = tget t k"
  by (induction rows fs t rule: settledOutbox.induct) auto

lemma settledOutbox_at:
  "distinct (map o_id rows) \<Longrightarrow> i < length fs \<Longrightarrow> i < length rows \<Longrightarrow>
   tget (settledOutbox rows fs t) (o_id (rows ! i)) =
     (if fs ! i = Kept then map_option (\<lambda>r. r\<lparr>o_attempts := o_attempts (rows ! i) + 1\<rparr>) (tget t (o_id (rows ! i))) else None)"
proof (induction rows fs t arbitrary: i rule: settledOutbox.induct)
  case (1 row rows f fs t)
  show ?case
  proof (cases i)
    case 0
    have "o_id row \<notin> o_id ` set (take (length fs) rows)"
      using "1.prems"(1) by (auto dest: in_set_takeD)
    then show ?thesis using 0 by (simp add: settledOutbox_other)
  next
    case (Suc j)
    have "o_id (rows ! j) \<noteq> o_id row" using "1.prems" Suc by auto (metis imageI nth_mem)
    then show ?thesis using "1.IH" [of j] "1.prems" Suc by auto
  qed
qed simp_all

lemma settledMessages_other:
  "k \<notin> o_local_msg_id ` set (take (length fs) rows) \<Longrightarrow> tget (settledMessages rows fs t) k = tget t k"
  by (induction rows fs t rule: settledMessages.induct) auto

lemma settledMessages_at:
  "distinct (filter (\<lambda>x. x \<noteq> []) (map o_local_msg_id rows)) \<Longrightarrow> i < length fs \<Longrightarrow> i < length rows \<Longrightarrow>
   fs ! i \<noteq> Kept \<Longrightarrow> o_local_msg_id (rows ! i) \<noteq> [] \<Longrightarrow>
   tget (settledMessages rows fs t) (o_local_msg_id (rows ! i)) =
     map_option (\<lambda>m. m\<lparr>m_status := (if fs ! i = Sent then ''sent'' else ''failed'')\<rparr>) (tget t (o_local_msg_id (rows ! i)))"
proof (induction rows fs t arbitrary: i rule: settledMessages.induct)
  case (1 row rows f fs t)
  show ?case
  proof (cases i)
    case 0
    then have "o_local_msg_id row \<notin> o_local_msg_id ` set (take (length fs) rows)"
      using "1.prems" by (auto dest: in_set_takeD)
    then show ?thesis using 0 "1.prems" by (simp add: settledMessages_other)
  next
    case (Suc j)
    have "o_local_msg_id row \<noteq> [] \<Longrightarrow> o_local_msg_id (rows ! j) \<noteq> o_local_msg_id row"
      using "1.prems" Suc by auto (metis imageI nth_mem)
    then show ?thesis using "1.IH" [of j] "1.prems" Suc by (auto split: if_splits)
  qed
qed simp_all

definition outboxKeyed :: "privexDB \<Rightarrow> bool" where
  "outboxKeyed d \<longleftrightarrow> twf (outbox_tbl d) \<and> (\<forall>(k, r) \<in> set (outbox_tbl d). o_id r = k)"

lemma outboxRows_keyed:
  assumes "outboxKeyed d"
  shows "distinct (map o_id (outboxRows d))" "r \<in> set (outboxRows d) \<Longrightarrow> tget (outbox_tbl d) (o_id r) = Some r"
proof -
  have fst: "map o_id (toArray (outbox_tbl d)) = map fst (outbox_tbl d)"
    using assms by (auto simp: outboxKeyed_def toArray_def)
  have "distinct (map o_id (toArray (outbox_tbl d)))"
    unfolding fst using assms by (simp add: outboxKeyed_def twf_distinct)
  then show "distinct (map o_id (outboxRows d))"
    by (simp add: outboxRows_def distinct_map)
  show "tget (outbox_tbl d) (o_id r) = Some r" if r: "r \<in> set (outboxRows d)"
  proof -
    obtain k where k: "(k, r) \<in> set (outbox_tbl d)"
      using r unfolding outboxRows_def toArray_def set_sort set_map by force
    then show ?thesis
      using assms twf_distinct [of "outbox_tbl d"] by (auto simp: outboxKeyed_def tget_def)
  qed
qed

text \<open>C8. Flushing the outbox ends, and settles a first part of the queue in the order the
  messages were composed (rows \<open>fs\<close> long), posting each at most once. An expired message is
  dropped unsent; a posted one carries only the rest of its time to live; a row leaves the
  queue exactly when it was sent, had expired or was refused for good, and its message then
  reads sent or failed accordingly. At the first failure that may pass the flush stops: that
  row stays with one more attempt, and every later row stays as it was.\<close>

theorem flushOutbox_settles_in_order:
  assumes idle: "\<not> flushing w" "tok \<noteq> []" and keyed: "outboxKeyed (idb w)"
    and ids: "distinct (filter (\<lambda>x. x \<noteq> []) (map o_local_msg_id (outboxRows (idb w))))"
  shows "\<exists>w' fs xs. flushOutbox E (api_sendMessage E) (Some tok) w = (Inr (), w') \<and> \<not> flushing w' \<and>
    netlog w' = netlog w @ xs \<and> flushed E tok (outboxRows (idb w)) fs (map fst xs) \<and>
    (\<forall>i < length fs. let row = outboxRows (idb w) ! i in
       tget (outbox_tbl (idb w')) (o_id row) =
         (if fs ! i = Kept then Some (row\<lparr>o_attempts := o_attempts row + 1\<rparr>) else None) \<and>
       (fs ! i \<noteq> Kept \<and> o_local_msg_id row \<noteq> [] \<longrightarrow>
         map_option m_status (tget (messages_tbl (idb w')) (o_local_msg_id row)) =
         map_option (\<lambda>_. if fs ! i = Sent then ''sent'' else ''failed'') (tget (messages_tbl (idb w)) (o_local_msg_id row)))) \<and>
    (\<forall>row \<in> set (drop (length fs) (outboxRows (idb w))). tget (outbox_tbl (idb w')) (o_id row) = Some row)"
proof -
  let ?rows = "outboxRows (idb w)"
  obtain w1 fs qs xs where run: "flushRows E (api_sendMessage E) tok ?rows (w\<lparr>flushing := True\<rparr>) = (Inr (), w1)"
    and fl: "flushed E tok ?rows fs qs" and xs: "netlog w1 = netlog w @ xs" "map fst xs = qs"
    and d: "idb w1 = (idb w)\<lparr>outbox_tbl := settledOutbox ?rows fs (outbox_tbl (idb w)),
                         messages_tbl := settledMessages ?rows fs (messages_tbl (idb w))\<rparr>"
    using flushRows_effect [of E tok ?rows "w\<lparr>flushing := True\<rparr>"] by (auto simp: outboxEffect_def)
  note dist = outboxRows_keyed(1) [OF keyed] and get = outboxRows_keyed(2) [OF keyed]
  have len: "length fs \<le> length ?rows" by (rule flushed_length [OF fl])
  have later: "o_id row \<notin> o_id ` set (take (length fs) ?rows)" if "row \<in> set (drop (length fs) ?rows)" for row
  proof -
    have "distinct (map o_id (take (length fs) ?rows) @ map o_id (drop (length fs) ?rows))"
      using dist by (metis append_take_drop_id map_append)
    then show ?thesis using that by auto
  qed
  show ?thesis
    by (rule exI [where x = "w1\<lparr>flushing := False, events := events w1 @ [EvOutbox]\<rparr>"],
        rule exI [where x = fs], rule exI [where x = xs])
       (use idle run fl xs d len in \<open>auto simp: flushOutbox_def settledOutbox_at [OF dist] settledMessages_at [OF ids]
          settledOutbox_other [OF later] get in_set_dropD option.map_comp comp_def Let_def\<close>)
qed

end
