(* ===== verification/Receipts.thy ===== *)
theory Receipts
  imports Contacts Envelope
begin

text \<open>
  Delivery and read receipts (\<^verbatim>\<open>services/receipts.ts\<close>): one setting per type governs
  both directions; receipts are queued with a delay and leave on a cover-traffic tick, only to
  accepted contacts; an incoming receipt raises the status of one of our own messages.
\<close>

section \<open>Settings\<close>

definition DELIVERY_KEY :: string where "DELIVERY_KEY = ''receipts_delivery''"
definition READ_KEY :: string where "READ_KEY = ''receipts_read''"
definition DELAY_KEY :: string where "DELAY_KEY = ''receipts_privacy_delay''"

definition flag :: "string \<Rightarrow> bool \<Rightarrow> bool act" where
  "flag key dflt = await (settingGet key) (\<lambda>v.
     case v of None \<Rightarrow> ret dflt | Some x \<Rightarrow> ret (x = JBool True))"

definition deliveryReceiptsEnabled :: "bool act" where
  "deliveryReceiptsEnabled = flag DELIVERY_KEY False"

definition readReceiptsEnabled :: "bool act" where
  "readReceiptsEnabled = flag READ_KEY False"

definition receiptPrivacyDelayEnabled :: "bool act" where
  "receiptPrivacyDelayEnabled = flag DELAY_KEY False"

definition setDeliveryReceipts :: "bool \<Rightarrow> unit act" where
  "setDeliveryReceipts on = settingPut DELIVERY_KEY (JBool on)"

definition setReadReceipts :: "bool \<Rightarrow> unit act" where
  "setReadReceipts on = settingPut READ_KEY (JBool on)"

definition setReceiptPrivacyDelay :: "bool \<Rightarrow> unit act" where
  "setReceiptPrivacyDelay on = settingPut DELAY_KEY (JBool on)"

section \<open>Delays\<close>

text \<open>\<open>Math.log\<close> is the natural logarithm.\<close>

definition expSample :: "real \<Rightarrow> real \<Rightarrow> real" where
  "expSample meanMs r = - meanMs * ln (1 - r)"

definition PRIVACY_DELAY_MEAN_MS :: int where "PRIVACY_DELAY_MEAN_MS = 5 * 60 * 1000"
definition PRIVACY_DELAY_MAX_MS :: int where "PRIVACY_DELAY_MAX_MS = 20 * 60 * 1000"
definition MIN_RECEIPT_DELAY_MS :: int where "MIN_RECEIPT_DELAY_MS = 5000"

section \<open>Requesting receipts\<close>

definition buildReceiptRequest :: "env \<Rightarrow> (ReceiptRequestWire \<times> bytes) option act" where
  "buildReceiptRequest E =
     await deliveryReceiptsEnabled (\<lambda>delivery.
     await readReceiptsEnabled (\<lambda>rd.
     if \<not> delivery \<and> \<not> rd then ret None
     else await (getRandomValues E 32) (\<lambda>tok.
       ret (Some (\<lparr>rr_tokenId = tok, rr_requestDelivery = delivery, rr_requestRead = rd\<rparr>, tok)))))"

section \<open>Queueing receipts\<close>

definition queueReceipt :: "env \<Rightarrow> string \<Rightarrow> bytes \<Rightarrow> receiptType \<Rightarrow> unit act" where
  "queueReceipt E to tokenId type =
     await (getContact E to) (\<lambda>contact.
     if map_option pc_status contact \<noteq> Some Accepted then ret () else
     await (dbGets (\<lambda>d. List.find (\<lambda>r. r_token_hex r = toHex tokenId \<and> r_receipt_type r = type)
                          (toArray (receipt_tbl d)))) (\<lambda>dup.
     if dup \<noteq> None then ret () else
     await (dateNow E) (\<lambda>now.
     await receiptPrivacyDelayEnabled (\<lambda>delay.
     await (if delay then await (mathRandom E) (\<lambda>r.
              ret (min (expSample (of_int PRIVACY_DELAY_MEAN_MS) r) (of_int PRIVACY_DELAY_MAX_MS)))
            else ret 0) (\<lambda>extra.
     dbModify (\<lambda>d. d\<lparr>receipt_next := Suc (receipt_next d), receipt_tbl := tput (receipt_next d)
       \<lparr>r_id = receipt_next d, r_to = to, r_token_hex = toHex tokenId, r_receipt_type = type, r_queued_at = now,
        r_not_before = of_int now + max (of_int MIN_RECEIPT_DELAY_MS) extra\<rparr> (receipt_tbl d)\<rparr>))))))"

definition queueDeliveryReceipt :: "env \<Rightarrow> string \<Rightarrow> bytes \<Rightarrow> unit act" where
  "queueDeliveryReceipt E senderId tokenId =
     await deliveryReceiptsEnabled (\<lambda>on. if on then queueReceipt E senderId tokenId Delivered else ret ())"

definition queueReadReceipt :: "env \<Rightarrow> PlainMessage \<Rightarrow> unit act" where
  "queueReadReceipt E msg =
     (if p_direction msg \<noteq> DirIn \<or> p_receipt_read_wanted msg \<noteq> Some True \<or> p_receipt_read_done msg = Some True
      then ret ()
      else if orElse (p_receipt_token msg) [] = [] then ret ()
      else await readReceiptsEnabled (\<lambda>on.
        if \<not> on then ret () else
        andThen (dbModify (messages_tbl_update (tupdate (p_msg_id msg) (\<lambda>m. m\<lparr>m_receipt_read_done := Some True\<rparr>))))
          (queueReceipt E (p_session_id msg) (the (p_receipt_token msg)) Read)))"

section \<open>Sending due receipts\<close>

type_synonym sendReceiptFn = "string \<Rightarrow> bytes \<Rightarrow> receiptType \<Rightarrow> unit act"

definition deleteReceipt :: "nat \<Rightarrow> unit act" where
  "deleteReceipt i = dbModify (receipt_tbl_update (tdelete i))"

definition retryLater :: "error \<Rightarrow> bool" where
  "retryLater e = (case e of ApiError s \<Rightarrow> s = 429 \<or> 500 \<le> s | JsError _ \<Rightarrow> False)"

fun drainRows :: "env \<Rightarrow> sendReceiptFn \<Rightarrow> ReceiptOutboxRow list \<Rightarrow> unit act" where
  "drainRows E send [] = ret ()"
| "drainRows E send (r # rs) =
     await (getContact E (r_to r)) (\<lambda>contact.
     if map_option pc_status contact \<noteq> Some Accepted then andThen (deleteReceipt (r_id r)) (drainRows E send rs)
     else await (attempt (send (r_to r) (fromHex (r_token_hex r)) (r_receipt_type r))) (\<lambda>res.
       case res of
         Inr _ \<Rightarrow> andThen (deleteReceipt (r_id r)) (drainRows E send rs)
       | Inl e \<Rightarrow> if retryLater e then ret () else andThen (deleteReceipt (r_id r)) (drainRows E send rs)))"

definition dueReceipts :: "privexDB \<Rightarrow> int \<Rightarrow> ReceiptOutboxRow list" where
  "dueReceipts d now = filter (\<lambda>r. r_not_before r \<le> of_int now) (toArray (receipt_tbl d))"

definition drainReceipts :: "env \<Rightarrow> sendReceiptFn \<Rightarrow> unit act" where
  "drainReceipts E send =
     await (gets draining) (\<lambda>busy. if busy then ret () else
     andThen (modify (\<lambda>w. w\<lparr>draining := True\<rparr>)) (
     tryFinally (await (dateNow E) (\<lambda>now. await (dbGets (\<lambda>d. dueReceipts d now)) (drainRows E send)))
       (\<lambda>w. w\<lparr>draining := False\<rparr>)))"

section \<open>Applying receipts\<close>

definition STATUS_RANK :: "string \<Rightarrow> nat" where
  "STATUS_RANK s = (if s = ''delivered'' then 1 else if s = ''read'' then 2 else 0)"

definition applyIncomingReceipt :: "string \<Rightarrow> bytes \<Rightarrow> receiptType \<Rightarrow> bool act" where
  "applyIncomingReceipt senderId tokenId type =
     await (if type = Read then readReceiptsEnabled else deliveryReceiptsEnabled) (\<lambda>enabled.
     if \<not> enabled then ret False else
     await (dbGets (\<lambda>d. filter (\<lambda>r. m_session_id r = senderId) (toArray (messages_tbl d)))) (\<lambda>rows.
     case List.find (\<lambda>r. m_direction r = DirOut \<and>
            (\<exists>t. m_receipt_token r = Some t \<and> toHex t = toHex tokenId)) rows of
       None \<Rightarrow> ret False
     | Some match \<Rightarrow>
         if STATUS_RANK (receiptName type) \<le> STATUS_RANK (m_status match) then ret True
         else andThen (dbModify (messages_tbl_update (tupdate (m_msg_id match) (\<lambda>m. m\<lparr>m_status := receiptName type\<rparr>))))
           (andThen (emit (EvMessage senderId)) (ret True))))"

section \<open>Lemmas\<close>

definition flagOn :: "privexDB \<Rightarrow> string \<Rightarrow> bool" where
  "flagOn d key \<longleftrightarrow> map_option st_value (tget (settings_tbl d) key) = Some (JBool True)"

lemma run_flag [simp]: "flag key False w = (Inr (flagOn (idb w) key), w)"
  by (auto simp: flag_def flagOn_def split: option.splits)

lemma run_flags [simp, run_simps]:
  "deliveryReceiptsEnabled w = (Inr (flagOn (idb w) DELIVERY_KEY), w)"
  "readReceiptsEnabled w = (Inr (flagOn (idb w) READ_KEY), w)"
  "receiptPrivacyDelayEnabled w = (Inr (flagOn (idb w) DELAY_KEY), w)"
  by (simp_all add: deliveryReceiptsEnabled_def readReceiptsEnabled_def receiptPrivacyDelayEnabled_def)

lemma keeps_buildReceiptRequest [keeps_intro]: "keeps quiet (buildReceiptRequest E)"
  by (rule keepsI) (simp add: buildReceiptRequest_def)

text \<open>The status the contact list gives is the stored one.\<close>

lemma getContact_status:
  assumes "getContact E px w = (Inr c, w')"
  shows "map_option pc_status c = effStatus (idb w) px"
proof -
  have d: "idb w1 = idb w" if "contactsStore E w = (Inr k, w1)" for k w1
    using keepsD [OF keeps_contactsStore that] quietD(1) by blast
  from assms obtain k w1 where k: "contactsStore E w = (Inr k, w1)" and g: "contacts_get E k px w1 = (Inr c, w')"
    unfolding getContact_def by (elim await_Inr_cases)
  show ?thesis
    using g d [OF k]
    by (auto simp: contacts_get_def contacts_toPlain_def effStatus_def split: option.splits elim!: await_Inr_cases)
qed

lemma expSample_nonneg: "0 \<le> m \<Longrightarrow> 0 \<le> r \<Longrightarrow> r < 1 \<Longrightarrow> 0 \<le> expSample m r"
  by (simp add: expSample_def mult_nonneg_nonpos ln_le_zero_iff)

section \<open>Queued receipts\<close>

text \<open>What queueing a receipt may do to the database: add one row, for an accepted contact,
  the only one with its token and type, due between 5 seconds and 20 minutes later.\<close>

definition addsReceipt :: "privexDB \<Rightarrow> privexDB \<Rightarrow> string \<Rightarrow> bytes \<Rightarrow> receiptType \<Rightarrow> bool" where
  "addsReceipt d d' to tok ty \<longleftrightarrow>
     effStatus d to = Some Accepted \<and>
     (\<forall>r \<in> set (toArray (receipt_tbl d)). \<not> (r_token_hex r = toHex tok \<and> r_receipt_type r = ty)) \<and>
     (\<exists>row. r_to row = to \<and> r_token_hex row = toHex tok \<and> r_receipt_type row = ty \<and>
        of_int (r_queued_at row + 5000) \<le> r_not_before row \<and>
        r_not_before row \<le> of_int (r_queued_at row + 20 * 60 * 1000) \<and>
        d' = d\<lparr>receipt_next := Suc (receipt_next d), receipt_tbl := tput (receipt_next d) row (receipt_tbl d)\<rparr>)"

lemma queueReceipt_effect:
  assumes "queueReceipt E to tok ty w = (r, w')"
  shows "idb w' = idb w \<or> addsReceipt (idb w) (idb w') to tok ty"
proof -
  obtain rc w1 where c: "getContact E to w = (rc, w1)" by fastforce
  have d1: "idb w1 = idb w" using keepsD [OF keeps_getContact c] quietD(1) by blast
  show ?thesis
  proof (cases "\<exists>x. rc = Inr x \<and> map_option pc_status x = Some Accepted")
    case False
    then show ?thesis
      using assms c d1 by (cases rc) (auto simp: queueReceipt_def)
  next
    case True
    then obtain x where x: "rc = Inr (Some x)" "pc_status x = Accepted" by auto
    have eff: "effStatus (idb w) to = Some Accepted" using getContact_status [of E to w "Some x" w1] c x by simp
    let ?dup = "List.find (\<lambda>r. r_token_hex r = toHex tok \<and> r_receipt_type r = ty) (toArray (receipt_tbl (idb w)))"
    show ?thesis
    proof (cases ?dup)
      case (Some y)
      then show ?thesis using assms c x d1 by (simp add: queueReceipt_def)
    next
      case None
      have w': "\<exists>extra. extra \<le> of_int PRIVACY_DELAY_MAX_MS \<and> idb w' = (idb w)\<lparr>receipt_next := Suc (receipt_next (idb w)),
          receipt_tbl := tput (receipt_next (idb w))
          \<lparr>r_id = receipt_next (idb w), r_to = to, r_token_hex = toHex tok, r_receipt_type = ty,
           r_queued_at = date_now E (tick w1),
           r_not_before = of_int (date_now E (tick w1)) + max (of_int MIN_RECEIPT_DELAY_MS) extra\<rparr> (receipt_tbl (idb w))\<rparr>"
        by (rule exI [where x = "if flagOn (idb w) DELAY_KEY then min (expSample (of_int PRIVACY_DELAY_MEAN_MS)
              (rand_unit E (Suc (tick w1)))) (of_int PRIVACY_DELAY_MAX_MS) else 0"])
           (use assms c x d1 None in \<open>cases "flagOn (idb w) DELAY_KEY"; auto simp: queueReceipt_def PRIVACY_DELAY_MAX_MS_def\<close>)
      then obtain extra where x': "extra \<le> of_int PRIVACY_DELAY_MAX_MS"
        "idb w' = (idb w)\<lparr>receipt_next := Suc (receipt_next (idb w)), receipt_tbl := tput (receipt_next (idb w))
          \<lparr>r_id = receipt_next (idb w), r_to = to, r_token_hex = toHex tok, r_receipt_type = ty,
           r_queued_at = date_now E (tick w1),
           r_not_before = of_int (date_now E (tick w1)) + max (of_int MIN_RECEIPT_DELAY_MS) extra\<rparr> (receipt_tbl (idb w))\<rparr>"
        (is "_ = _\<lparr>receipt_next := _, receipt_tbl := tput _ ?row _\<rparr>") by blast
      then have "addsReceipt (idb w) (idb w') to tok ty"
        unfolding addsReceipt_def using eff None
        by (intro conjI exI [where x = ?row]) (auto simp: find_None_iff MIN_RECEIPT_DELAY_MS_def PRIVACY_DELAY_MAX_MS_def)
      then show ?thesis by simp
    qed
  qed
qed

text \<open>A delivery receipt is queued only when the user turned delivery receipts on and
  the sender is an accepted contact; then exactly one row is added, the only one for that token
  and type, due no earlier than 5 seconds and no later than 20 minutes after it was queued;
  nothing else in the database changes, and with receipts off nothing changes at all.\<close>

theorem queueDeliveryReceipt_guarded:
  assumes "queueDeliveryReceipt E s tok w = (r, w')"
  shows "idb w' = idb w \<or> flagOn (idb w) DELIVERY_KEY \<and> addsReceipt (idb w) (idb w') s tok Delivered"
proof (cases "flagOn (idb w) DELIVERY_KEY")
  case True
  then have "queueReceipt E s tok Delivered w = (r, w')"
    using assms by (simp add: queueDeliveryReceipt_def)
  then show ?thesis using queueReceipt_effect True by blast
next
  case False
  then show ?thesis using assms by (simp add: queueDeliveryReceipt_def)
qed

section \<open>Drained receipts\<close>

lemma drainRows_cong:
  assumes "\<And>r w. r \<in> set rs \<Longrightarrow> effStatus (idb w) (r_to r) = Some Accepted \<Longrightarrow>
      send (r_to r) (fromHex (r_token_hex r)) (r_receipt_type r) w = send' (r_to r) (fromHex (r_token_hex r)) (r_receipt_type r) w"
  shows "drainRows E send rs w = drainRows E send' rs w"
  using assms
proof (induction rs arbitrary: w)
  case (Cons r rs)
  have IH: "drainRows E send rs = drainRows E send' rs"
    using Cons by (intro ext) simp
  show ?case
  proof (cases "getContact E (r_to r) w")
    case (Pair rc w1)
    show ?thesis
    proof (cases "\<exists>x. rc = Inr x \<and> map_option pc_status x = Some Accepted")
      case False
      then show ?thesis using Pair IH by (cases rc) auto
    next
      case True
      then obtain x where x: "rc = Inr (Some x)" "pc_status x = Accepted" by auto
      have "idb w1 = idb w" using keepsD [OF keeps_getContact Pair] quietD(1) by blast
      then have "effStatus (idb w1) (r_to r) = Some Accepted"
        using getContact_status [of E "r_to r" w "Some x" w1] Pair x by simp
      then have "send (r_to r) (fromHex (r_token_hex r)) (r_receipt_type r) w1
          = send' (r_to r) (fromHex (r_token_hex r)) (r_receipt_type r) w1" using Cons.prems by simp
      then have "attempt (send (r_to r) (fromHex (r_token_hex r)) (r_receipt_type r)) w1
          = attempt (send' (r_to r) (fromHex (r_token_hex r)) (r_receipt_type r)) w1"
        by (simp add: attempt_def)
      then show ?thesis using Pair x IH by (auto simp: await_def split: prod.splits sum.splits)
    qed
  qed
qed simp

text \<open>A tick sends a queued receipt only if it is due, and only while its contact is an
  accepted one at the moment of sending: a block or removal after queueing stops it. (Stated by
  exchange: a sender that differs in any other call makes no difference to the run.)\<close>

theorem drainReceipts_only_due_to_accepted:
  assumes "\<And>r w1. r \<in> set (toArray (receipt_tbl (idb w))) \<Longrightarrow> r_not_before r \<le> of_int (date_now E (tick w)) \<Longrightarrow>
      effStatus (idb w1) (r_to r) = Some Accepted \<Longrightarrow>
      send (r_to r) (fromHex (r_token_hex r)) (r_receipt_type r) w1 = send' (r_to r) (fromHex (r_token_hex r)) (r_receipt_type r) w1"
  shows "drainReceipts E send w = drainReceipts E send' w"
proof -
  have "drainRows E send (dueReceipts (idb w) (date_now E (tick w)))
      = drainRows E send' (dueReceipts (idb w) (date_now E (tick w)))"
    by (intro ext drainRows_cong assms) (auto simp: dueReceipts_def)
  then show ?thesis
    by (auto simp: drainReceipts_def tryFinally_def)
qed

section \<open>Applied receipts\<close>

text \<open>An incoming receipt changes at most one thing: the status of a message we sent to
  exactly the sender of the receipt, with exactly the receipt's token, and only upwards, when
  this type of receipt is turned on. Nothing else in the database changes, and no request is
  made.\<close>

theorem applyIncomingReceipt_only_upgrades:
  assumes keyed: "keyedBy m_msg_id (messages_tbl (idb w))"
    and run: "applyIncomingReceipt s tok ty w = (r, w')"
  shows "(\<exists>b. r = Inr b) \<and> netlog w' = netlog w \<and>
    idb w' = (idb w)\<lparr>messages_tbl := messages_tbl (idb w')\<rparr> \<and>
    (\<forall>k. tget (messages_tbl (idb w')) k = tget (messages_tbl (idb w)) k \<or>
       (\<exists>m. tget (messages_tbl (idb w)) k = Some m \<and>
          tget (messages_tbl (idb w')) k = Some (m\<lparr>m_status := receiptName ty\<rparr>) \<and>
          flagOn (idb w) (if ty = Read then READ_KEY else DELIVERY_KEY) \<and>
          m_session_id m = s \<and> m_direction m = DirOut \<and> (\<exists>t. m_receipt_token m = Some t \<and> toHex t = toHex tok) \<and>
          STATUS_RANK (m_status m) < STATUS_RANK (receiptName ty)))"
proof -
  let ?P = "\<lambda>r. m_direction r = DirOut \<and> (\<exists>t. m_receipt_token r = Some t \<and> toHex t = toHex tok)"
  let ?rows = "filter (\<lambda>r. m_session_id r = s) (toArray (messages_tbl (idb w)))"
  let ?on = "flagOn (idb w) (if ty = Read then READ_KEY else DELIVERY_KEY)"
  have start: "applyIncomingReceipt s tok ty w = (if \<not> ?on then (Inr False, w) else
      case List.find ?P ?rows of None \<Rightarrow> (Inr False, w)
      | Some match \<Rightarrow> if STATUS_RANK (receiptName ty) \<le> STATUS_RANK (m_status match) then (Inr True, w)
         else (Inr True, w\<lparr>idb := messages_tbl_update (tupdate (m_msg_id match) (\<lambda>m. m\<lparr>m_status := receiptName ty\<rparr>)) (idb w),
                events := events w @ [EvMessage s]\<rparr>))"
    by (cases ty) (auto simp: applyIncomingReceipt_def split: option.splits)
  consider (off) "\<not> ?on" | (none) "?on" "List.find ?P ?rows = None"
    | (stale) m where "?on" "List.find ?P ?rows = Some m" "STATUS_RANK (receiptName ty) \<le> STATUS_RANK (m_status m)"
    | (up) m where "?on" "List.find ?P ?rows = Some m" "STATUS_RANK (m_status m) < STATUS_RANK (receiptName ty)"
    by (cases "List.find ?P ?rows") force+
  then show ?thesis
  proof cases
    case (up m)
    from find_Some_set [OF up(2)] have m: "m \<in> set (toArray (messages_tbl (idb w)))" "m_session_id m = s" "?P m"
      by auto
    then obtain k where k: "(k, m) \<in> set (messages_tbl (idb w))" by (auto simp: toArray_def)
    then have "k = m_msg_id m" "tget (messages_tbl (idb w)) k = Some m"
      using keyed by (auto simp: keyedBy_def tget_def)
    then show ?thesis
      using run up m by (auto simp: start)
  qed (use run in \<open>auto simp: start\<close>)
qed

end
