(* ===== verification/DeviceSync.thy ===== *)
theory DeviceSync
  imports Codec AtRest
begin

text \<open>
  Cross-device sync (\<^verbatim>\<open>services/device-sync.ts\<close>): a sent message is copied to each
  linked device under a pairwise key derived from the confirmed device-link channel, and the
  other device stores it as if it had sent it. The label of a device is cut to 64 characters,
  which are bytes here: labels are ASCII.
\<close>

definition ENABLED_KEY :: string where "ENABLED_KEY = ''device_sync_enabled''"
definition DEVICE_ID_KEY :: string where "DEVICE_ID_KEY = ''device_id''"
definition HKDF_INFO :: string where "HKDF_INFO = ''privex_device_sync_v1|''"

definition deviceSyncEnabled :: "bool act" where
  "deviceSyncEnabled = await (settingGet ENABLED_KEY) (\<lambda>v. ret (v = Some (JBool True)))"

definition setDeviceSyncEnabled :: "bool \<Rightarrow> unit act" where
  "setDeviceSyncEnabled on = settingPut ENABLED_KEY (JBool on)"

definition myDeviceId :: "env \<Rightarrow> string act" where
  "myDeviceId E =
     await (settingGet DEVICE_ID_KEY) (\<lambda>v.
     if orElse (jstr v) [] \<noteq> [] then ret (the (jstr v))
     else await (getRandomValues E 16) (\<lambda>r.
       andThen (settingPut DEVICE_ID_KEY (JStr (toHex r))) (ret (toHex r))))"

section \<open>Pairwise keys\<close>

definition deriveSyncKey :: "env \<Rightarrow> bytes \<Rightarrow> string \<Rightarrow> bytes" where
  "deriveSyncKey E channelSecret targetDeviceId = hkdf256 E channelSecret (textEncode (HKDF_INFO @ targetDeviceId))"

definition storeLinkedDevice :: "env \<Rightarrow> bytes \<Rightarrow> string \<Rightarrow> string \<Rightarrow> unit act" where
  "storeLinkedDevice E channelSecret peerDeviceId peerLabel =
     await (getMasterKey E) (\<lambda>mk.
     await (myDeviceId E) (\<lambda>me.
     await (aesEncrypt E mk (deriveSyncKey E channelSecret peerDeviceId)) (\<lambda>se.
     await (aesEncrypt E mk (deriveSyncKey E channelSecret me)) (\<lambda>re.
     await (nowSecs E) (\<lambda>t.
     dbModify (linked_tbl_update (tput peerDeviceId
       \<lparr>ld_device_id = peerDeviceId, ld_label = take 64 peerLabel, ld_send_key_enc = se, ld_recv_key_enc = re,
        ld_linked_at = t\<rparr>)))))))"

definition listLinkedDevices :: "(string \<times> string \<times> int) list act" where
  "listLinkedDevices = dbGets (\<lambda>d. map (\<lambda>r. (ld_device_id r, ld_label r, ld_linked_at r)) (toArray (linked_tbl d)))"

definition removeLinkedDevice :: "string \<Rightarrow> unit act" where
  "removeLinkedDevice deviceId = dbModify (linked_tbl_update (tdelete deviceId))"

section \<open>Sync records\<close>

definition kindName :: "kind \<Rightarrow> string" where
  "kindName k = (case k of KText \<Rightarrow> ''text'' | KFile \<Rightarrow> ''file'')"

definition parseKind :: "json option \<Rightarrow> kind option" where
  "parseKind v = (case jstr v of None \<Rightarrow> None
     | Some s \<Rightarrow> if s = ''text'' then Some KText else if s = ''file'' then Some KFile else None)"

definition syncJson :: "SyncRecord \<Rightarrow> json" where
  "syncJson rec = JObj
     ([(''v'', JNum 1), (''msg_id'', JStr (sr_msg_id rec)), (''peer_id'', JStr (sr_peer_id rec)),
       (''kind'', JStr (kindName (sr_kind rec))), (''content'', JStr (sr_content rec)), (''ts'', JNum (sr_ts rec))]
      @ jopt ''token_hex'' (map_option JStr (sr_token_hex rec)))"

text \<open>A record whose fields are not of the declared types is a \<open>TypeError\<close>.\<close>

definition parseSync :: "json \<Rightarrow> error + SyncRecord" where
  "parseSync j =
     (if jget ''v'' j \<noteq> Some (JNum 1) \<or> orElse (jstr (jget ''msg_id'' j)) [] = [] \<or>
         orElse (jstr (jget ''peer_id'' j)) [] = [] then Inl (JsError ''bad sync record'')
      else (case (parseKind (jget ''kind'' j), jstr (jget ''content'' j), jint (jget ''ts'' j)) of
          (Some k, Some c, Some t) \<Rightarrow>
            Inr \<lparr>sr_msg_id = the (jstr (jget ''msg_id'' j)), sr_peer_id = the (jstr (jget ''peer_id'' j)),
                 sr_kind = k, sr_content = c, sr_ts = t, sr_token_hex = jstr (jget ''token_hex'' j)\<rparr>
        | _ \<Rightarrow> Inl (JsError ''TypeError'')))"

definition encryptSyncRecord :: "env \<Rightarrow> SyncRecord \<Rightarrow> bytes \<Rightarrow> bytes act" where
  "encryptSyncRecord E rec rawKey =
     await (importDataKey rawKey) (\<lambda>key. aesEncrypt E key (pad (textEncode (stringify (syncJson rec)))))"

definition decryptSyncRecord :: "env \<Rightarrow> bytes \<Rightarrow> bytes \<Rightarrow> SyncRecord act" where
  "decryptSyncRecord E blob rawKey =
     await (importDataKey rawKey) (\<lambda>key.
     await (aesDecrypt E key blob) (\<lambda>p.
     await (liftE (unpad p)) (\<lambda>u.
     case json_parse (textDecode u) of
       None \<Rightarrow> throw (JsError ''SyntaxError'')
     | Some j \<Rightarrow> liftE (parseSync j))))"

section \<open>Sending and receiving copies\<close>

definition syncTargets :: "env \<Rightarrow> (string \<times> bytes) list act" where
  "syncTargets E =
     await deviceSyncEnabled (\<lambda>on. if \<not> on then ret [] else
     await (dbGets (\<lambda>d. toArray (linked_tbl d))) (\<lambda>rows.
     if rows = [] then ret [] else
     await (getMasterKey E) (\<lambda>mk.
     mapP (\<lambda>r. await (aesDecrypt E mk (ld_send_key_enc r)) (\<lambda>k. ret (ld_device_id r, k))) rows)))"

definition openSyncBlob :: "env \<Rightarrow> string \<Rightarrow> bytes \<Rightarrow> SyncRecord act" where
  "openSyncBlob E fromDeviceId blob =
     await (dbGets (\<lambda>d. tget (linked_tbl d) fromDeviceId)) (\<lambda>row.
     case row of None \<Rightarrow> throw (JsError ''sync from unlinked device'')
     | Some r \<Rightarrow>
         await (getMasterKey E) (\<lambda>mk.
         await (aesDecrypt E mk (ld_recv_key_enc r)) (\<lambda>recvKey.
         decryptSyncRecord E blob recvKey)))"

definition syncedMessage :: "SyncRecord \<Rightarrow> int \<Rightarrow> PlainMessage" where
  "syncedMessage rec t =
     \<lparr>p_msg_id = sr_msg_id rec, p_session_id = sr_peer_id rec, p_content = sr_content rec, p_timestamp = sr_ts rec,
      p_status = ''sent'', p_direction = DirOut, p_kind = sr_kind rec,
      p_receipt_token = (case sr_token_hex rec of None \<Rightarrow> None | Some h \<Rightarrow> if h = [] then None else Some (fromHex h)),
      p_receipt_read_wanted = None, p_receipt_read_done = None, p_server_anchor = None, p_created_at = t\<rparr>"

definition applySyncRecord :: "env \<Rightarrow> SyncRecord \<Rightarrow> unit act" where
  "applySyncRecord E rec =
     await (dateNow E) (\<lambda>t.
     andThen (messages_add E (syncedMessage rec t)) (emit (EvMessage (sr_peer_id rec))))"

section \<open>Lemmas\<close>

lemma keeps_syncTargets [keeps_intro]: "keeps quiet (syncTargets E)"
  unfolding syncTargets_def deviceSyncEnabled_def by (intro q.keeps_rules keeps_intro)

lemma keeps_encryptSyncRecord [keeps_intro]: "keeps quiet (encryptSyncRecord E rec k)"
  unfolding encryptSyncRecord_def by (intro q.keeps_rules keeps_intro)

lemma keeps_openSyncBlob [keeps_intro]: "keeps quiet (openSyncBlob E i b)"
  unfolding openSyncBlob_def decryptSyncRecord_def by (intro q.keeps_rules keeps_intro)

lemma parseSync_json:
  "sr_msg_id rec \<noteq> [] \<Longrightarrow> sr_peer_id rec \<noteq> [] \<Longrightarrow> parseSync (syncJson rec) = Inr rec"
  by (cases rec; cases "sr_token_hex rec"; cases "sr_kind rec")
     (simp_all add: parseSync_def syncJson_def jopt_def kindName_def parseKind_def)

lemma noDec_sync: "noDec (syncJson rec)"
  by (simp add: syncJson_def jopt_def split: option.splits)

lemma run_encryptSyncRecord:
  "length k = 32 \<Longrightarrow> encryptSyncRecord E rec k w =
     (Inr (ivAt E (tick w) @ aes_enc E k (ivAt E (tick w)) (pad (textEncode (stringify (syncJson rec))))),
      w\<lparr>tick := Suc (tick w)\<rparr>)"
  by (simp add: encryptSyncRecord_def importDataKey_def)

lemma run_decryptSyncRecord:
  assumes "aes_correct E" "length k = 32" "sr_msg_id rec \<noteq> []" "sr_peer_id rec \<noteq> []"
    "int (length (stringify (syncJson rec))) < 2 ^ 32"
  shows "decryptSyncRecord E (ivAt E t @ aes_enc E k (ivAt E t) (pad (textEncode (stringify (syncJson rec))))) k w = (Inr rec, w)"
proof -
  have "unpad (pad (textEncode (stringify (syncJson rec)))) = Inr (textEncode (stringify (syncJson rec)))"
    using assms(5) by (intro unpad_of_pad) simp
  then show ?thesis
    using assms by (simp add: decryptSyncRecord_def importDataKey_def run_aesDecrypt parseSync_json noDec_sync)
qed

text \<open>The row a link leaves.\<close>

lemma run_storeLinked:
  assumes "keyOf w = Some mk" and "jstr (map_option st_value (tget (settings_tbl (idb w)) DEVICE_ID_KEY)) = Some me" and "me \<noteq> []"
  shows "\<exists>t1 t2 t w'. storeLinkedDevice E cs peer lab w = (Inr (), w') \<and> keyOf w' = Some mk \<and>
    settings_tbl (idb w') = settings_tbl (idb w) \<and>
    linked_tbl (idb w') = tput peer \<lparr>ld_device_id = peer, ld_label = take 64 lab,
      ld_send_key_enc = ivAt E t1 @ aes_enc E mk (ivAt E t1) (deriveSyncKey E cs peer),
      ld_recv_key_enc = ivAt E t2 @ aes_enc E mk (ivAt E t2) (deriveSyncKey E cs me), ld_linked_at = t\<rparr> (linked_tbl (idb w))"
  using assms(1,3)
  by (intro exI [where x = "tick w"] exI [where x = "Suc (tick w)"]
        exI [where x = "date_now E (Suc (Suc (tick w))) div 1000"] exI [where x = "snd (storeLinkedDevice E cs peer lab w)"])
     (simp add: storeLinkedDevice_def getMasterKey_keyOf myDeviceId_def assms(2))

text \<open>C38. Two devices that store each other over the same confirmed channel can sync: after
  both sides linked, the sync targets of the first contain the second with a key under which
  every sync record it encrypts is opened by the second, as coming from the first, and gives
  back the record.\<close>

theorem linked_devices_sync:
  assumes aes: "aes_correct E" and hkdf: "\<And>a b. length (hkdf256 E a b) = 32"
    and keys: "keyOf wA = Some kA" "keyOf wB = Some kB"
    and ids: "map_option st_value (tget (settings_tbl (idb wA)) DEVICE_ID_KEY) = Some (JStr idA)"
      "map_option st_value (tget (settings_tbl (idb wB)) DEVICE_ID_KEY) = Some (JStr idB)" "idA \<noteq> []" "idB \<noteq> []"
    and opt_in: "map_option st_value (tget (settings_tbl (idb wA)) ENABLED_KEY) = Some (JBool True)"
    and fresh: "linked_tbl (idb wA) = []"
    and rec: "sr_msg_id rec \<noteq> []" "sr_peer_id rec \<noteq> []" "int (length (stringify (syncJson rec))) < 2 ^ 32"
  shows "\<exists>wA1 wB1 k blob wA2. storeLinkedDevice E secret idB labB wA = (Inr (), wA1) \<and>
    storeLinkedDevice E secret idA labA wB = (Inr (), wB1) \<and>
    syncTargets E wA1 = (Inr [(idB, k)], wA1) \<and> encryptSyncRecord E rec k wA1 = (Inr blob, wA2) \<and>
    openSyncBlob E idA blob wB1 = (Inr rec, wB1)"
proof -
  obtain s1 s2 s w1 where A: "storeLinkedDevice E secret idB labB wA = (Inr (), w1)" "keyOf w1 = Some kA"
    "settings_tbl (idb w1) = settings_tbl (idb wA)"
    "linked_tbl (idb w1) = [(idB, \<lparr>ld_device_id = idB, ld_label = take 64 labB,
      ld_send_key_enc = ivAt E s1 @ aes_enc E kA (ivAt E s1) (deriveSyncKey E secret idB),
      ld_recv_key_enc = ivAt E s2 @ aes_enc E kA (ivAt E s2) (deriveSyncKey E secret idA), ld_linked_at = s\<rparr>)]"
    using run_storeLinked [OF keys(1), of idA E secret idB labB] ids fresh by auto
  obtain t1 t2 t w2 where B: "storeLinkedDevice E secret idA labA wB = (Inr (), w2)" "keyOf w2 = Some kB"
    "linked_tbl (idb w2) = tput idA \<lparr>ld_device_id = idA, ld_label = take 64 labA,
      ld_send_key_enc = ivAt E t1 @ aes_enc E kB (ivAt E t1) (deriveSyncKey E secret idA),
      ld_recv_key_enc = ivAt E t2 @ aes_enc E kB (ivAt E t2) (deriveSyncKey E secret idB), ld_linked_at = t\<rparr> (linked_tbl (idb wB))"
    using run_storeLinked [OF keys(2), of idB E secret idA labA] ids by auto
  let ?k = "deriveSyncKey E secret idB"
  have len: "length ?k = 32" by (simp add: deriveSyncKey_def hkdf)
  have "syncTargets E w1 = (Inr [(idB, ?k)], w1)"
    using A aes opt_in by (simp add: syncTargets_def deviceSyncEnabled_def getMasterKey_keyOf toArray_def run_aesDecrypt)
  moreover have "openSyncBlob E idA (ivAt E (tick w1) @ aes_enc E ?k (ivAt E (tick w1))
      (pad (textEncode (stringify (syncJson rec))))) w2 = (Inr rec, w2)"
    using B aes run_decryptSyncRecord [OF aes len rec] by (simp add: openSyncBlob_def getMasterKey_keyOf run_aesDecrypt)
  ultimately show ?thesis
    using A(1) B(1) run_encryptSyncRecord [OF len] by metis
qed

end
