(* ===== verification/Files.thy ===== *)
theory Files
  imports Codec Api AtRest
begin

text \<open>
  Files (\<^verbatim>\<open>services/files.ts\<close>, \<^verbatim>\<open>crypto/file-crypto.ts\<close>): a file is cut into chunks,
  each encrypted under a key derived from the file's content key, and uploaded under the hash
  of its ciphertext; the manifest travels as a message. Progress callbacks are left out. The
  thumbnail is an argument of the upload; its size is in \<open>BrowserParts\<close>.
\<close>

definition CHUNK_SIZE :: nat where "CHUNK_SIZE = 4 * 1024 * 1024"

definition assertChunkId :: "string \<Rightarrow> unit act" where
  "assertChunkId chunkId = (if lowerHexN 64 chunkId then ret () else throw (JsError ''invalid chunk id in file manifest''))"

definition assertCek :: "string \<Rightarrow> unit act" where
  "assertCek cekHex = (if lowerHexN 64 cekHex then ret () else throw (JsError ''invalid file key''))"

record FileMeta =
  fm_name :: string
  fm_mime :: string
  fm_size :: int
  fm_sha256 :: string
  fm_chunks :: "string list"
  fm_cek :: string
  fm_thumb :: "string option"

definition metaJson :: "FileMeta \<Rightarrow> json" where
  "metaJson m = JObj
     ([(''name'', JStr (fm_name m)), (''mime'', JStr (fm_mime m)), (''size'', JNum (fm_size m)),
       (''sha256'', JStr (fm_sha256 m)), (''chunks'', JArr (map JStr (fm_chunks m))), (''cek'', JStr (fm_cek m))]
      @ jopt ''thumb'' (map_option JStr (fm_thumb m)))"

record WrappedCek =
  wc_wrapped :: bytes
  wc_ephPub :: bytes

record FileCryptoApi =
  fc_generateCek :: "nat \<Rightarrow> error + bytes"
  fc_wrapCek :: "nat \<Rightarrow> bytes \<Rightarrow> bytes \<Rightarrow> error + WrappedCek"
  fc_unwrapCek :: "nat \<Rightarrow> bytes \<Rightarrow> bytes \<Rightarrow> bytes \<Rightarrow> error + bytes"

definition generateCek :: "wasmModule \<Rightarrow> nat \<Rightarrow> error + bytes" where
  "generateCek W t = w_generate_cek W t"

definition wrapCek :: "wasmModule \<Rightarrow> nat \<Rightarrow> bytes \<Rightarrow> bytes \<Rightarrow> error + WrappedCek" where
  "wrapCek W t cek recipientIkX25519Pub =
     bindE (w_wrap_cek W t cek recipientIkX25519Pub) (\<lambda>r. Inr \<lparr>wc_wrapped = wwr_wrapped r, wc_ephPub = wwr_eph_pub r\<rparr>)"

definition unwrapCek :: "wasmModule \<Rightarrow> bytes \<Rightarrow> bytes \<Rightarrow> bytes \<Rightarrow> error + bytes" where
  "unwrapCek W wrapped ephPub myIkX25519Priv = w_unwrap_cek W wrapped ephPub myIkX25519Priv"

definition workerFileCrypto :: "env \<Rightarrow> FileCryptoApi" where
  "workerFileCrypto E = \<lparr>fc_generateCek = generateCek (wasm E), fc_wrapCek = wrapCek (wasm E),
     fc_unwrapCek = (\<lambda>t. unwrapCek (wasm E))\<rparr>"

definition files_token :: "string act" where
  "files_token = await (gets (\<lambda>w. au_sessionToken (auth w))) (\<lambda>t.
     if orElse t [] = [] then throw (JsError ''not authenticated'') else ret (the t))"

section \<open>Chunk crypto\<close>

definition chunkKey :: "env \<Rightarrow> bytes \<Rightarrow> nat \<Rightarrow> cryptoKey" where
  "chunkKey E cek i = hkdf256 E cek (textEncode ''chunk'' @ be 4 (int i))"

definition metaKey :: "env \<Rightarrow> bytes \<Rightarrow> cryptoKey" where
  "metaKey E cek = hkdf256 E cek (textEncode ''file_meta'')"

definition gcmEncrypt :: "env \<Rightarrow> cryptoKey \<Rightarrow> bytes \<Rightarrow> bytes act" where
  "gcmEncrypt E key d = await (getRandomValues E IV_LEN) (\<lambda>iv. ret (iv @ aes_enc E key iv d))"

definition gcmDecrypt :: "env \<Rightarrow> cryptoKey \<Rightarrow> bytes \<Rightarrow> bytes act" where
  "gcmDecrypt E key blob =
     (case aes_dec E key (take IV_LEN blob) (drop IV_LEN blob) of
        None \<Rightarrow> throw (JsError ''OperationError'') | Some p \<Rightarrow> ret p)"

definition sha256hex :: "env \<Rightarrow> bytes \<Rightarrow> string" where
  "sha256hex E d = toHex (sha256 E d)"

definition encMeta :: "env \<Rightarrow> bytes \<Rightarrow> string \<Rightarrow> bytes act" where
  "encMeta E cek txt = gcmEncrypt E (metaKey E cek) (textEncode txt)"

definition decMeta :: "env \<Rightarrow> bytes \<Rightarrow> bytes \<Rightarrow> string act" where
  "decMeta E cek bs = await (gcmDecrypt E (metaKey E cek) bs) (\<lambda>p. ret (textDecode p))"

definition chunkCount :: "bytes \<Rightarrow> nat" where
  "chunkCount buf = max 1 ((length buf + CHUNK_SIZE - 1) div CHUNK_SIZE)"

definition encryptChunk :: "env \<Rightarrow> bytes \<Rightarrow> bytes \<Rightarrow> nat \<Rightarrow> (string \<times> bytes) act" where
  "encryptChunk E buf cek i =
     await (gcmEncrypt E (chunkKey E cek i) (subarray buf (i * CHUNK_SIZE) ((i + 1) * CHUNK_SIZE))) (\<lambda>blob.
     ret (sha256hex E blob, blob))"

definition encryptFile :: "env \<Rightarrow> bytes \<Rightarrow> bytes \<Rightarrow> ((string \<times> bytes) list \<times> string) act" where
  "encryptFile E buf cek =
     await (mapP (encryptChunk E buf cek) [0..<chunkCount buf]) (\<lambda>chunks. ret (chunks, sha256hex E buf))"

definition reassembleAndVerify :: "env \<Rightarrow> bytes list \<Rightarrow> bytes \<Rightarrow> string \<Rightarrow> bytes act" where
  "reassembleAndVerify E blobs cek sha256Hex =
     await (mapP (\<lambda>i. gcmDecrypt E (chunkKey E cek i) (blobs ! i)) [0..<length blobs]) (\<lambda>parts.
     (let out = concat parts in
      if sha256hex E out \<noteq> sha256Hex
      then throw (JsError ''File integrity check failed - the download was tampered with.'')
      else ret out))"

definition dataUrl :: "bytes \<Rightarrow> string \<Rightarrow> string" where
  "dataUrl bs mime = ''data:'' @ mime @ '';base64,'' @ b64encode bs"

section \<open>Upload and download\<close>

record fileInput =
  fi_name :: string
  fi_type :: string
  fi_bytes :: bytes
  fi_thumbnail :: "bytes option"

definition fileMime :: "fileInput \<Rightarrow> string" where
  "fileMime f = (if fi_type f = [] then ''application/octet-stream'' else fi_type f)"

text \<open>The manifest, once the chunks are uploaded: the wire fields and the local record.\<close>

definition fileManifest ::
  "env \<Rightarrow> FileCryptoApi \<Rightarrow> fileInput \<Rightarrow> bytes \<Rightarrow> (string \<times> bytes) list \<Rightarrow> string \<Rightarrow> bytes \<Rightarrow> (FileFields \<times> FileMeta) act" where
  "fileManifest E fc f cek chunks sha recipientIkX25519 =
     await (ext (\<lambda>t. fc_wrapCek fc t cek recipientIkX25519)) (\<lambda>wrapped.
     await (encMeta E cek (fi_name f)) (\<lambda>nameEnc.
     await (encMeta E cek (fileMime f)) (\<lambda>mimeEnc.
     await (case fi_thumbnail f of None \<Rightarrow> ret None
            | Some b \<Rightarrow> await (gcmEncrypt E (metaKey E cek) b) (\<lambda>x. ret (Some x))) (\<lambda>thumbEnc.
     await (nowSecs E) (\<lambda>sentAt.
     ret (\<lparr>ff_filenameEnc = nameEnc, ff_mimeEnc = mimeEnc, ff_totalSize = int (length (fi_bytes f)),
           ff_sha256 = fromHex sha, ff_chunkIds = map fst chunks, ff_wrappedCek = wc_wrapped wrapped,
           ff_ephPub = wc_ephPub wrapped, ff_thumbnailEnc = thumbEnc, ff_sentAt = sentAt\<rparr>,
          \<lparr>fm_name = fi_name f, fm_mime = fileMime f, fm_size = int (length (fi_bytes f)), fm_sha256 = sha,
           fm_chunks = map fst chunks, fm_cek = toHex cek,
           fm_thumb = map_option (\<lambda>b. dataUrl b ''image/jpeg'') (fi_thumbnail f)\<rparr>))))))"

definition encryptAndUpload :: "env \<Rightarrow> FileCryptoApi \<Rightarrow> fileInput \<Rightarrow> bytes \<Rightarrow> (FileFields \<times> FileMeta) act" where
  "encryptAndUpload E fc f recipientIkX25519 =
     await (ext (fc_generateCek fc)) (\<lambda>cek.
     await (encryptFile E (fi_bytes f) cek) (\<lambda>enc.
     await files_token (\<lambda>tok.
     andThen (forEach (fst enc) (\<lambda>c. putBlob E (fst c) (snd c) tok))
       (fileManifest E fc f cek (fst enc) (snd enc) recipientIkX25519))))"

definition materializeIncoming :: "env \<Rightarrow> FileCryptoApi \<Rightarrow> FileFields \<Rightarrow> bytes \<Rightarrow> FileMeta act" where
  "materializeIncoming E fc f myIkX25519Priv =
     andThen (forEach (ff_chunkIds f) assertChunkId) (
     await (ext (\<lambda>t. fc_unwrapCek fc t (ff_wrappedCek f) (ff_ephPub f) myIkX25519Priv)) (\<lambda>cek.
     await (decMeta E cek (ff_mimeEnc f)) (\<lambda>mime.
     await (case ff_thumbnailEnc f of None \<Rightarrow> ret None
            | Some b \<Rightarrow> await (gcmDecrypt E (metaKey E cek) b) (\<lambda>x. ret (Some (dataUrl x ''image/jpeg'')))) (\<lambda>thumb.
     await (decMeta E cek (ff_filenameEnc f)) (\<lambda>name.
     ret \<lparr>fm_name = name, fm_mime = mime, fm_size = ff_totalSize f, fm_sha256 = toHex (ff_sha256 f),
          fm_chunks = ff_chunkIds f, fm_cek = toHex cek, fm_thumb = thumb\<rparr>)))))"

definition downloadAndDecrypt :: "env \<Rightarrow> FileMeta \<Rightarrow> (bytes \<times> string) act" where
  "downloadAndDecrypt E meta =
     andThen (assertCek (fm_cek meta)) (
     andThen (forEach (fm_chunks meta) assertChunkId) (
     await files_token (\<lambda>tok.
     await (mapP (\<lambda>c. getBlob E c tok) (fm_chunks meta)) (\<lambda>blobs.
     await (reassembleAndVerify E blobs (fromHex (fm_cek meta)) (fm_sha256 meta)) (\<lambda>bs.
     ret (bs, fm_mime meta))))))"

section \<open>Lemmas\<close>

lemma run_gcmEncrypt [simp, run_simps]:
  "gcmEncrypt E key p w = (Inr (ivAt E (tick w) @ aes_enc E key (ivAt E (tick w)) p), w\<lparr>tick := Suc (tick w)\<rparr>)"
  by (simp add: gcmEncrypt_def ivAt_def)

lemma run_gcmDecrypt [run_simps]:
  "gcmDecrypt E key blob w = ((case reads E key blob of None \<Rightarrow> Inl (JsError ''OperationError'') | Some p \<Rightarrow> Inr p), w)"
  by (simp add: gcmDecrypt_def reads_def split: option.splits)

lemma keeps_files [keeps_intro]:
  "keeps quiet (gcmEncrypt E k d)" "keeps quiet (gcmDecrypt E k b)" "keeps quiet (encMeta E cek s)"
  "keeps quiet (decMeta E cek b)" "keeps quiet (assertChunkId i)" "keeps quiet (assertCek c)" "keeps quiet files_token"
  unfolding gcmEncrypt_def gcmDecrypt_def encMeta_def decMeta_def assertChunkId_def assertCek_def files_token_def
  by (intro q.keeps_rules keeps_intro)+

lemma keeps_encryptFile [keeps_intro]: "keeps quiet (encryptFile E b c)"
  unfolding encryptFile_def encryptChunk_def by (intro q.keeps_rules keeps_intro)

lemma keeps_reassemble [keeps_intro]: "keeps quiet (reassembleAndVerify E bs c s)"
  unfolding reassembleAndVerify_def by (intro q.keeps_rules keeps_intro)

lemma keeps_materialize [keeps_intro]: "keeps quiet (materializeIncoming E fc f p)"
  unfolding materializeIncoming_def by (intro q.keeps_rules keeps_intro)

text \<open>The chunks of a file, put together, are the file.\<close>

lemma concat_chunks: "concat (map (\<lambda>i. subarray b (i * c) ((i + 1) * c)) [0..<n]) = take (n * c) b"
proof (induction n)
  case (Suc n)
  have "take (n * c) b @ take c (drop (n * c) b) = take (n * c + c) b" by (simp add: take_add)
  then show ?case using Suc by (simp add: subarray_def add.commute)
qed simp

lemma chunkCount_covers: "length b \<le> chunkCount b * CHUNK_SIZE"
proof -
  let ?n = "length b + CHUNK_SIZE - 1"
  have pos: "0 < CHUNK_SIZE" by (simp add: CHUNK_SIZE_def)
  have "?n div CHUNK_SIZE * CHUNK_SIZE + ?n mod CHUNK_SIZE = ?n" by (rule div_mult_mod_eq)
  moreover have "?n mod CHUNK_SIZE < CHUNK_SIZE" using pos by (rule mod_less_divisor)
  ultimately have "length b \<le> ?n div CHUNK_SIZE * CHUNK_SIZE" using pos by linarith
  also have "\<dots> \<le> chunkCount b * CHUNK_SIZE" unfolding chunkCount_def by (intro mult_le_mono1) simp
  finally show ?thesis .
qed

lemma all_chunks: "concat (map (\<lambda>i. subarray b (i * CHUNK_SIZE) ((i + 1) * CHUNK_SIZE)) [0..<chunkCount b]) = b"
  unfolding concat_chunks using chunkCount_covers by simp

lemma mapP_run:
  assumes "\<And>x w. x \<in> set xs \<Longrightarrow> \<exists>t. f x w = (Inr (g x (tick w)), w\<lparr>tick := t\<rparr>)"
  shows "\<exists>ts t. length ts = length xs \<and> mapP f xs w = (Inr (map2 g xs ts), w\<lparr>tick := t\<rparr>)"
  using assms
proof (induction xs arbitrary: w)
  case Nil
  show ?case by (rule exI [where x = "[]"], rule exI [where x = "tick w"]) simp
next
  case (Cons x xs)
  obtain t where t: "f x w = (Inr (g x (tick w)), w\<lparr>tick := t\<rparr>)" using Cons.prems by force
  obtain ts t' where "length ts = length xs" "mapP f xs (w\<lparr>tick := t\<rparr>) = (Inr (map2 g xs ts), w\<lparr>tick := t'\<rparr>)"
    using Cons.IH [of "w\<lparr>tick := t\<rparr>"] Cons.prems by auto
  then show ?case
    using t by (intro exI [where x = "tick w # ts"] exI [where x = t']) simp
qed

definition chunkBlob :: "env \<Rightarrow> bytes \<Rightarrow> bytes \<Rightarrow> nat \<Rightarrow> nat \<Rightarrow> bytes" where
  "chunkBlob E buf cek i t =
     ivAt E t @ aes_enc E (chunkKey E cek i) (ivAt E t) (subarray buf (i * CHUNK_SIZE) ((i + 1) * CHUNK_SIZE))"

lemma run_encryptFile:
  "\<exists>ts t. length ts = chunkCount buf \<and> encryptFile E buf cek w =
     (Inr (map2 (\<lambda>i t. (sha256hex E (chunkBlob E buf cek i t), chunkBlob E buf cek i t)) [0..<chunkCount buf] ts,
           sha256hex E buf), w\<lparr>tick := t\<rparr>)"
proof -
  let ?g = "\<lambda>i t. (sha256hex E (chunkBlob E buf cek i t), chunkBlob E buf cek i t)"
  have "\<exists>t. encryptChunk E buf cek i w = (Inr (?g i (tick w)), w\<lparr>tick := t\<rparr>)" for i w
    by (rule exI [where x = "Suc (tick w)"]) (simp add: encryptChunk_def chunkBlob_def)
  then have "\<exists>ts t. length ts = length [0..<chunkCount buf] \<and>
      mapP (encryptChunk E buf cek) [0..<chunkCount buf] w = (Inr (map2 ?g [0..<chunkCount buf] ts), w\<lparr>tick := t\<rparr>)"
    by (intro mapP_run)
  then obtain ts t where ts: "length ts = chunkCount buf"
    "mapP (encryptChunk E buf cek) [0..<chunkCount buf] w = (Inr (map2 ?g [0..<chunkCount buf] ts), w\<lparr>tick := t\<rparr>)" by auto
  show ?thesis
    by (rule exI [where x = ts], rule exI [where x = t]) (simp add: encryptFile_def ts)
qed

lemma mapP_pure: "(\<And>x. x \<in> set xs \<Longrightarrow> f x w = (Inr (g x), w)) \<Longrightarrow> mapP f xs w = (Inr (map g xs), w)"
  by (induction xs) auto

lemma run_reassemble:
  assumes aes: "aes_correct E" and len: "length ts = chunkCount buf"
  shows "reassembleAndVerify E (map2 (chunkBlob E buf cek) [0..<chunkCount buf] ts) cek (sha256hex E buf) w = (Inr buf, w)"
proof -
  let ?bs = "map2 (chunkBlob E buf cek) [0..<chunkCount buf] ts"
  have l: "length ?bs = chunkCount buf" using len by simp
  have "mapP (\<lambda>i. gcmDecrypt E (chunkKey E cek i) (?bs ! i)) [0..<chunkCount buf] w
      = (Inr (map (\<lambda>i. subarray buf (i * CHUNK_SIZE) ((i + 1) * CHUNK_SIZE)) [0..<chunkCount buf]), w)"
    using aes len by (intro mapP_pure) (simp add: run_gcmDecrypt chunkBlob_def)
  then show ?thesis
    unfolding reassembleAndVerify_def l by (simp only: run_await_Inr Let_def all_chunks) simp
qed

text \<open>C39. A file survives the round trip: encrypting any file under any content key and
  putting the resulting chunks, in order, back together under that key and the recorded hash
  gives exactly the file.\<close>

theorem file_roundtrip:
  assumes "aes_correct E"
  shows "\<exists>chunks sha w'. encryptFile E buf cek w = (Inr (chunks, sha), w') \<and>
    (\<forall>w''. reassembleAndVerify E (map snd chunks) cek sha w'' = (Inr buf, w''))"
proof -
  obtain ts t where ts: "length ts = chunkCount buf" "encryptFile E buf cek w =
     (Inr (map2 (\<lambda>i t. (sha256hex E (chunkBlob E buf cek i t), chunkBlob E buf cek i t)) [0..<chunkCount buf] ts,
           sha256hex E buf), w\<lparr>tick := t\<rparr>)" using run_encryptFile by blast
  let ?chunks = "map2 (\<lambda>i t. (sha256hex E (chunkBlob E buf cek i t), chunkBlob E buf cek i t)) [0..<chunkCount buf] ts"
  have "map snd ?chunks = map2 (chunkBlob E buf cek) [0..<chunkCount buf] ts" by (simp add: comp_def case_prod_beta')
  then have "reassembleAndVerify E (map snd ?chunks) cek (sha256hex E buf) w'' = (Inr buf, w'')" for w''
    by (simp only: run_reassemble [OF assms ts(1)])
  then show ?thesis using ts(2) by blast
qed

section \<open>Hostile manifests\<close>

definition blobGet :: "env \<Rightarrow> string \<Rightarrow> string \<Rightarrow> httpRequest" where
  "blobGet E c tok = \<lparr>rq_method = GET, rq_url = api_base E @ ''/blobs/'' @ c, rq_token = Some tok, rq_body = BodyNone\<rparr>"

lemma encodeURI_hex: "list_all isHexLower s \<Longrightarrow> encodeURIComponent s = s"
  by (induction s) (auto simp: encodeURIComponent_def uriUnreserved_def isHexLower_def Let_def)

lemma run_asserts: "forEach cs assertChunkId w = ((if list_all (lowerHexN 64) cs then Inr ()
    else Inl (JsError ''invalid chunk id in file manifest'')), w)"
  by (induction cs) (auto simp: assertChunkId_def)

lemma getBlob_state:
  "lowerHexN 64 c \<Longrightarrow> snd (getBlob E c tok w) = afterReq (blobGet E c tok) w"
  by (simp add: getBlob_def snd_await run_fetchReq blobGet_def encodeURI_hex lowerHexN_def split: option.splits)

lemma mapP_getBlob_log:
  assumes "list_all (lowerHexN 64) cs" and "mapP (\<lambda>c. getBlob E c tok) cs w = (r, w')"
  shows "\<exists>xs. netlog w' = netlog w @ xs \<and> (\<forall>x \<in> set xs. \<exists>c \<in> set cs. fst x = blobGet E c tok)"
  using assms
proof (induction cs arbitrary: w r w')
  case (Cons c cs)
  obtain r1 w1 where g: "getBlob E c tok w = (r1, w1)" by fastforce
  have w1: "w1 = afterReq (blobGet E c tok) w" using getBlob_state [of c E tok w] g Cons.prems(1) by simp
  show ?case
  proof (cases r1)
    case (Inl e)
    then have "w' = w1" using Cons.prems(2) g by simp
    then show ?thesis using w1 by auto
  next
    case (Inr b)
    obtain r2 w2 where m: "mapP (\<lambda>c. getBlob E c tok) cs w1 = (r2, w2)" by fastforce
    have "w' = w2" using Cons.prems(2) g Inr m by (cases r2) simp_all
    moreover obtain xs where "netlog w2 = netlog w1 @ xs" "\<forall>x \<in> set xs. \<exists>c \<in> set cs. fst x = blobGet E c tok"
      using Cons.IH [OF _ m] Cons.prems(1) by auto
    ultimately show ?thesis using w1 by (intro exI [where x = "(blobGet E c tok, idb w) # xs"]) auto
  qed
qed simp

lemma reassemble_hash: "reassembleAndVerify E bs cek sha w = (Inr out, w') \<Longrightarrow> sha256hex E out = sha"
  unfolding reassembleAndVerify_def by (erule await_Inr_cases) (auto simp: Let_def split: if_splits)

text \<open>A hostile manifest cannot steer the client: whatever chunk names and key a stored
  manifest holds, a download only ever requests blobs named by 64 lower-case hexadecimal
  digits from the manifest, makes no request at all if any name or the key is malformed, and
  returns data only if it has the manifest's SHA-256.\<close>

theorem download_is_confined:
  assumes run: "downloadAndDecrypt E meta w = (r, w')"
  shows "(\<exists>tok xs. netlog w' = netlog w @ xs \<and>
      (\<forall>x \<in> set xs. \<exists>c \<in> set (fm_chunks meta). lowerHexN 64 c \<and> fst x = blobGet E c tok)) \<and>
    (\<not> (lowerHexN 64 (fm_cek meta) \<and> list_all (lowerHexN 64) (fm_chunks meta)) \<longrightarrow> w' = w \<and> (\<exists>e. r = Inl e)) \<and>
    (\<forall>bs mime. r = Inr (bs, mime) \<longrightarrow> sha256hex E bs = fm_sha256 meta \<and> mime = fm_mime meta)"
proof (cases "lowerHexN 64 (fm_cek meta) \<and> list_all (lowerHexN 64) (fm_chunks meta)")
  case False
  then have "w' = w \<and> (\<exists>e. r = Inl e)"
    using run by (cases "lowerHexN 64 (fm_cek meta)") (auto simp: downloadAndDecrypt_def assertCek_def run_asserts)
  then show ?thesis using False by auto
next
  case True
  show ?thesis
  proof (cases "orElse (au_sessionToken (auth w)) [] = []")
    case no: True
    then have "w' = w \<and> (\<exists>e. r = Inl e)"
      using run True by (auto simp: downloadAndDecrypt_def assertCek_def run_asserts files_token_def)
    then show ?thesis using True by auto
  next
    case False
    let ?tok = "the (au_sessionToken (auth w))"
    obtain rb w1 where m: "mapP (\<lambda>c. getBlob E c ?tok) (fm_chunks meta) w = (rb, w1)" by fastforce
    have log: "\<exists>xs. netlog w1 = netlog w @ xs \<and> (\<forall>x \<in> set xs. \<exists>c \<in> set (fm_chunks meta). lowerHexN 64 c \<and> fst x = blobGet E c ?tok)"
      using mapP_getBlob_log [OF _ m] True by (fastforce simp: list_all_iff)
    have start: "downloadAndDecrypt E meta w = await (mapP (\<lambda>c. getBlob E c ?tok) (fm_chunks meta)) (\<lambda>blobs.
        await (reassembleAndVerify E blobs (fromHex (fm_cek meta)) (fm_sha256 meta)) (\<lambda>bs. ret (bs, fm_mime meta))) w"
      using True False by (simp add: downloadAndDecrypt_def assertCek_def run_asserts files_token_def)
    show ?thesis
    proof (cases rb)
      case (Inl e)
      then have "w' = w1" "r = Inl e" using run start m by simp_all
      then show ?thesis using log True by auto
    next
      case (Inr blobs)
      obtain rr w2 where v: "reassembleAndVerify E blobs (fromHex (fm_cek meta)) (fm_sha256 meta) w1 = (rr, w2)" by fastforce
      have n: "netlog w2 = netlog w1" using keepsD [OF keeps_reassemble v] quietD(5) by blast
      have "w' = w2" "r = (case rr of Inl e \<Rightarrow> Inl e | Inr bs \<Rightarrow> Inr (bs, fm_mime meta))"
        using run start m Inr v by (cases rr; simp)+
      then show ?thesis
        using log n True v reassemble_hash by (cases rr) auto
    qed
  qed
qed

section \<open>Sender and receiver\<close>

text \<open>What the receiver relies on: unwrapping with a private key gives the content key that was
  wrapped for its public half; SHA-256 digests have 32 bytes.\<close>

definition wrap_correct :: "FileCryptoApi \<Rightarrow> bytes \<Rightarrow> bytes \<Rightarrow> bool" where
  "wrap_correct fc pub priv \<longleftrightarrow>
     (\<forall>t t' cek x. fc_wrapCek fc t cek pub = Inr x \<longrightarrow> fc_unwrapCek fc t' (wc_wrapped x) (wc_ephPub x) priv = Inr cek)"

lemma lowerHexN_sha: "(\<And>b. length (sha256 E b) = 32) \<Longrightarrow> lowerHexN 64 (sha256hex E b)"
  by (auto simp: lowerHexN_def sha256hex_def list_all_iff dest: toHex_lower)

lemma manifest_materializes:
  assumes aes: "aes_correct E" and wrap: "wrap_correct fc pub priv"
    and ids: "list_all (lowerHexN 64) (map fst chunks)" and sha: "toHex (fromHex h) = h"
    and sent: "fileManifest E fc f cek chunks h pub w = (Inr (flds, meta), w')"
  shows "\<exists>w2. materializeIncoming E fc flds priv wr = (Inr meta, w2)"
proof -
  obtain x where x: "fc_wrapCek fc (tick w) cek pub = Inr x"
  proof (cases "fc_wrapCek fc (tick w) cek pub")
    case (Inl e)
    then have False using sent by (simp add: fileManifest_def)
    then show thesis ..
  qed (rule that)
  then have un: "fc_unwrapCek fc t (wc_wrapped x) (wc_ephPub x) priv = Inr cek" for t
    using wrap by (auto simp: wrap_correct_def)
  show ?thesis
    using sent x aes ids sha un
    by (cases "fi_thumbnail f")
       (clarsimp simp: fileManifest_def materializeIncoming_def encMeta_def decMeta_def run_asserts run_gcmDecrypt)+
qed

text \<open>Sender and receiver agree on the file: if a file was uploaded and its manifest fields
  arrive unchanged, the receiver reads the same name, type, size, hash, chunks, content key and
  preview that the sender kept.\<close>

theorem manifest_roundtrip:
  assumes aes: "aes_correct E" and sha: "\<And>b. length (sha256 E b) = 32" and wrap: "wrap_correct fc pub priv"
    and sent: "encryptAndUpload E fc f pub w = (Inr (flds, meta), w')"
  shows "\<exists>w2. materializeIncoming E fc flds priv wr = (Inr meta, w2)"
proof -
  obtain cek w1 where cek: "ext (fc_generateCek fc) w = (Inr cek, w1)" 
    using sent unfolding encryptAndUpload_def by (rule await_Inr_cases)
  obtain ts t where enc: "encryptFile E (fi_bytes f) cek w1 =
     (Inr (map2 (\<lambda>i t. (sha256hex E (chunkBlob E (fi_bytes f) cek i t), chunkBlob E (fi_bytes f) cek i t))
        [0..<chunkCount (fi_bytes f)] ts, sha256hex E (fi_bytes f)), w1\<lparr>tick := t\<rparr>)" (is "_ = (Inr (?chunks, ?h), ?w2)")
    using run_encryptFile by blast
  have start: "encryptAndUpload E fc f pub w = await files_token (\<lambda>tok.
     andThen (forEach ?chunks (\<lambda>c. putBlob E (fst c) (snd c) tok)) (fileManifest E fc f cek ?chunks ?h pub)) ?w2"
    unfolding encryptAndUpload_def by (simp only: run_await_Inr cek enc fst_conv snd_conv)
  obtain w3 where "fileManifest E fc f cek ?chunks ?h pub w3 = (Inr (flds, meta), w')"
    using sent [unfolded start andThen_def] by (elim await_Inr_cases) (rule that)
  moreover have "list_all (lowerHexN 64) (map fst ?chunks)"
    by (auto simp: list_all_iff intro: lowerHexN_sha [OF sha])
  ultimately show ?thesis
    by (intro manifest_materializes [OF aes wrap, of ?chunks ?h]) (simp_all add: sha256hex_def)
qed

end
