(* ===== verification/Handshake.thy ===== *)
theory Handshake
  imports Codec Contacts Identity Api
begin

text \<open>
  Starting a session with a peer: proof of work (\<^verbatim>\<open>services/pow.ts\<close>), the verification of a
  fetched key bundle and the PQXDH handshake (\<^verbatim>\<open>crypto/contact-crypto.ts\<close>), and
  \<open>startSession\<close> (\<^verbatim>\<open>contacts/handshake.ts\<close>).
\<close>

section \<open>Proof of work\<close>

record PowResult =
  pw_nonce_found :: int
  pw_solutionHash :: bytes

definition solvePow :: "wasmModule \<Rightarrow> nat \<Rightarrow> bytes \<Rightarrow> int \<Rightarrow> PowArgon option \<Rightarrow> error + PowResult" where
  "solvePow W t challenge difficulty argon =
     bindE (case argon of
         Some a \<Rightarrow> w_pow_solve_hybrid W t challenge difficulty (pa_m_cost_kib a) (pa_t_cost a) (pa_difficulty a)
       | None \<Rightarrow> w_pow_solve W t challenge difficulty) (\<lambda>sol.
     Inr \<lparr>pw_nonce_found = wpw_nonce sol, pw_solutionHash = wpw_solution_hash sol\<rparr>)"

type_synonym solvePowFn = "nat \<Rightarrow> bytes \<Rightarrow> int \<Rightarrow> PowArgon option \<Rightarrow> error + PowResult"

definition solveServerPow :: "env \<Rightarrow> solvePowFn \<Rightarrow> PowProof act" where
  "solveServerPow E solve =
     await (powChallenge E) (\<lambda>chal.
     await (ext (\<lambda>t. solve t (fromHex (ch_challenge chal)) (ch_difficulty chal) (ch_argon chal))) (\<lambda>sol.
     ret \<lparr>pw_challenge_id = ch_challenge_id chal, pw_nonce = pw_nonce_found sol,
          pw_solution_hash = toHex (pw_solutionHash sol)\<rparr>))"

section \<open>Verifying a key bundle\<close>

definition check :: "error + bool \<Rightarrow> string \<Rightarrow> error + unit" where
  "check r msg = bindE r (\<lambda>ok. if ok then Inr () else Inl (JsError msg))"

definition ktLeaf :: "wasmModule \<Rightarrow> KeyBundleResp \<Rightarrow> error + bytes" where
  "ktLeaf W resp =
     bindE (w_kt_bundle_hash W [fromHex (kb_ik_ed25519 resp), fromHex (kb_ik_dilithium3 resp), fromHex (kb_ik_x25519 resp),
        fromHex (kb_spk_x25519 resp), fromHex (kb_spk_sig_ed resp), fromHex (kb_spk_sig_dil resp),
        fromHex (kb_kyber1024_pub resp)]) (\<lambda>h.
     w_kt_leaf_hash W (kb_user_id resp) h (kp_timestamp (kb_kt_proof resp)))"

definition verifyBundle :: "wasmModule \<Rightarrow> string \<Rightarrow> KeyBundleResp \<Rightarrow> error + VerifiedBundle" where
  "verifyBundle W pinnedKtPubHex resp =
     (let kt = kb_kt_proof resp; root = fromHex (kp_root kt) in
      bindE (check (w_kt_verify_root_sig W root (fromHex (kp_root_sig_ed kt)) (fromHex pinnedKtPubHex))
               ''Key verification failed - KT root is not signed by the pinned key.'') (\<lambda>_.
      bindE (ktLeaf W resp) (\<lambda>leaf.
      bindE (flattenPath (map (\<lambda>n. (kn_left n, kn_hash n)) (kp_path kt))) (\<lambda>proofFlat.
      bindE (check (w_kt_verify_inclusion W leaf proofFlat root)
               ''Key verification failed - possible MITM attack. Contact not added.'') (\<lambda>_.
      bindE (check (w_verify_hybrid W (fromHex (kb_spk_x25519 resp)) (fromHex (kb_spk_sig_ed resp))
                 (fromHex (kb_ik_ed25519 resp)) (fromHex (kb_spk_sig_dil resp)) (fromHex (kb_ik_dilithium3 resp)))
               ''Key verification failed - signed prekey signature invalid.'') (\<lambda>_.
      Inr \<lparr>vb_userId = kb_user_id resp, vb_ik_ed25519 = fromHex (kb_ik_ed25519 resp),
           vb_ik_dilithium3 = fromHex (kb_ik_dilithium3 resp), vb_ik_x25519 = fromHex (kb_ik_x25519 resp),
           vb_spk_x25519 = fromHex (kb_spk_x25519 resp), vb_kyber1024_pub = fromHex (kb_kyber1024_pub resp),
           vb_opk = (case kb_opk resp of None \<Rightarrow> None | Some o1 \<Rightarrow> if o1 = [] then None else Some (fromHex o1)),
           vb_opk_id = kb_opk_id resp\<rparr>))))))"

section \<open>PQXDH\<close>

record PqxdhBundleInput =
  pb_ik_x25519 :: bytes
  pb_spk_x25519 :: bytes
  pb_opk :: "bytes option"
  pb_kyber1024_pub :: bytes

definition pqxdhInitiate :: "wasmModule \<Rightarrow> nat \<Rightarrow> bytes \<Rightarrow> PqxdhBundleInput \<Rightarrow> error + PqxdhInit" where
  "pqxdhInitiate W t myIkX25519Priv b =
     bindE (w_pqxdh_initiate W t myIkX25519Priv (pb_ik_x25519 b) (pb_spk_x25519 b) (orElse (pb_opk b) []) (pb_kyber1024_pub b)) (\<lambda>r.
     Inr \<lparr>pi_shared_secret = wpi_shared_secret r, pi_alice_ik_pub = wpi_alice_ik_pub r, pi_alice_ek_pub = wpi_alice_ek_pub r,
          pi_kyber_ciphertext = wpi_kyber_ciphertext r, pi_opk_used = wpi_opk_used r\<rparr>)"

section \<open>Starting a session\<close>

record ContactCryptoApi =
  cc_solvePow :: solvePowFn
  cc_verifyBundle :: "nat \<Rightarrow> string \<Rightarrow> KeyBundleResp \<Rightarrow> error + VerifiedBundle"
  cc_pqxdhInitiate :: "nat \<Rightarrow> bytes \<Rightarrow> PqxdhBundleInput \<Rightarrow> error + PqxdhInit"
  cc_ratchetInitAlice :: "nat \<Rightarrow> bytes \<Rightarrow> bytes \<Rightarrow> error + bytes"

definition workerContactCrypto :: "env \<Rightarrow> ContactCryptoApi" where
  "workerContactCrypto E = \<lparr>cc_solvePow = solvePow (wasm E), cc_verifyBundle = (\<lambda>t. verifyBundle (wasm E)),
     cc_pqxdhInitiate = pqxdhInitiate (wasm E), cc_ratchetInitAlice = w_ratchet_init_alice (wasm E)\<rparr>"

text \<open>From a verified bundle on: the key-change check, PQXDH, the ratchet and the stored
  session.\<close>

definition adoptVerified :: "env \<Rightarrow> ContactCryptoApi \<Rightarrow> string \<Rightarrow> IdentityBundle \<Rightarrow> VerifiedBundle \<Rightarrow> VerifiedBundle act" where
  "adoptVerified E cc pxId me verified =
     await (isKeyChanged pxId (vb_ik_ed25519 verified)) (\<lambda>changed.
     if changed then throw (JsError (pxId @ CHR 0x27 # ''s key has changed. Verify their identity before re-adding.'')) else
     await (ext (\<lambda>t. cc_pqxdhInitiate cc t (x25519_priv (b_identity me))
        \<lparr>pb_ik_x25519 = vb_ik_x25519 verified, pb_spk_x25519 = vb_spk_x25519 verified, pb_opk = vb_opk verified,
         pb_kyber1024_pub = vb_kyber1024_pub verified\<rparr>)) (\<lambda>pqx.
     await (ext (\<lambda>t. cc_ratchetInitAlice cc t (pi_shared_secret pqx) (vb_spk_x25519 verified))) (\<lambda>ratchetState.
     andThen (addVerifiedContact E verified pqx ratchetState) (ret verified))))"

definition startSession :: "env \<Rightarrow> ContactCryptoApi \<Rightarrow> string \<Rightarrow> VerifiedBundle act" where
  "startSession E cc pxId =
     await (loadBundle E) (\<lambda>b. case b of
       None \<Rightarrow> throw (JsError (''Your identity isn'' @ CHR 0x27 # ''t loaded. Finish onboarding first.''))
     | Some me \<Rightarrow>
         await (solveServerPow E (cc_solvePow cc)) (\<lambda>pow.
         await (fetchKeyBundle E pxId pow) (\<lambda>resp.
         await (ext (\<lambda>t. cc_verifyBundle cc t (kt_signing_pub E) resp)) (\<lambda>verified.
         adoptVerified E cc pxId me verified))))"

section \<open>What is stored is verified\<close>

text \<open>The three checks of the documentation: the transparency root is signed by the pinned key,
  the leaf recomputed from the received fields is included under it, and the signed prekey is
  signed by the bundle's own identity keys.\<close>

definition ktChecked :: "env \<Rightarrow> KeyBundleResp \<Rightarrow> bool" where
  "ktChecked E resp \<longleftrightarrow>
     (let W = wasm E; kt = kb_kt_proof resp; root = fromHex (kp_root kt) in
      w_kt_verify_root_sig W root (fromHex (kp_root_sig_ed kt)) (fromHex (kt_signing_pub E)) = Inr True \<and>
      (\<exists>leaf path. ktLeaf W resp = Inr leaf \<and> flattenPath (map (\<lambda>n. (kn_left n, kn_hash n)) (kp_path kt)) = Inr path \<and>
         w_kt_verify_inclusion W leaf path root = Inr True) \<and>
      w_verify_hybrid W (fromHex (kb_spk_x25519 resp)) (fromHex (kb_spk_sig_ed resp)) (fromHex (kb_ik_ed25519 resp))
        (fromHex (kb_spk_sig_dil resp)) (fromHex (kb_ik_dilithium3 resp)) = Inr True)"

lemma check_Inr: "check r msg = Inr x \<longleftrightarrow> r = Inr True"
  by (cases r) (auto simp: check_def)

lemma verifyBundle_sound:
  "verifyBundle (wasm E) (kt_signing_pub E) resp = Inr v \<Longrightarrow>
   ktChecked E resp \<and> vb_userId v = kb_user_id resp \<and> vb_ik_ed25519 v = fromHex (kb_ik_ed25519 resp)"
  unfolding verifyBundle_def ktChecked_def Let_def by (auto simp: bindE_Inr check_Inr)

text \<open>A step that stores nothing.\<close>

definition dbSame :: "world \<Rightarrow> world \<Rightarrow> bool" where
  "dbSame w w' \<longleftrightarrow> idb w' = idb w"

interpretation ds: step_relation dbSame
  by unfold_locales (auto simp: dbSame_def)

lemma keeps_ds_quiet: "keeps quiet m \<Longrightarrow> keeps dbSame m"
  by (rule keeps_mono, assumption) (simp add: dbSame_def quietD(1))

lemma keeps_ds_api:
  "keeps dbSame (post_api E p b t)" "keeps dbSame (get_api E p t)" "keeps dbSame (del_api E p t)"
  "keeps dbSame (typed v)" "keeps dbSame (strField k j)" "keeps dbSame (intField k j)" "keeps dbSame (boolField k j)"
  by (simp_all add: keeps_def dbSame_def typed_pure)

lemma keeps_ds_pow: "keeps dbSame (solveServerPow E s)"
  unfolding solveServerPow_def powChallenge_def
  by (intro ds.keeps_rules keeps_ds_api keeps_ds_quiet keeps_intro)

lemma keeps_ds_fetchKeyBundle: "keeps dbSame (fetchKeyBundle E p pow)"
  unfolding fetchKeyBundle_def by (intro ds.keeps_rules keeps_ds_api)

text \<open>What a stored handshake may change: the contact and session rows of the bundle's user.\<close>

definition storesOnly :: "string \<Rightarrow> privexDB \<Rightarrow> privexDB \<Rightarrow> bool" where
  "storesOnly u d d' \<longleftrightarrow>
     d' = d\<lparr>contacts_tbl := contacts_tbl d', sessions_tbl := sessions_tbl d'\<rparr> \<and>
     (\<forall>p. p \<noteq> u \<longrightarrow> tget (contacts_tbl d') p = tget (contacts_tbl d) p \<and> tget (sessions_tbl d') p = tget (sessions_tbl d) p)"

lemma addVerifiedContact_stores:
  assumes "addVerifiedContact E v pqx st w = (r, w')"
  shows "storesOnly (vb_userId v) (idb w) (idb w')"
proof -
  obtain rk w1 where k: "getMasterKey E w = (rk, w1)" by fastforce
  have d: "idb w1 = idb w" using keepsD [OF keeps_getMasterKey k] quietD(1) by blast
  show ?thesis
    using assms k d by (cases rk) (auto simp: addVerifiedContact_def run_contacts_add storesOnly_def)
qed

lemma adoptVerified_stores:
  assumes "adoptVerified E cc px me v w = (r, w')"
  shows "idb w' = idb w \<or>
    \<not> (\<exists>k. tget (contacts_tbl (idb w)) px \<noteq> None \<and> c_ik_ed25519_pub (the (tget (contacts_tbl (idb w)) px)) = Some k \<and>
          k \<noteq> vb_ik_ed25519 v) \<and>
    storesOnly (vb_userId v) (idb w) (idb w')"
proof -
  obtain b where c: "isKeyChanged px (vb_ik_ed25519 v) w = (Inr b, w)"
    and b: "b \<longleftrightarrow> (\<exists>k. tget (contacts_tbl (idb w)) px \<noteq> None \<and>
      c_ik_ed25519_pub (the (tget (contacts_tbl (idb w)) px)) = Some k \<and> k \<noteq> vb_ik_ed25519 v)"
    by (auto simp: isKeyChanged_def split: option.splits bind_splits)
  show ?thesis
  proof (cases b)
    case True
    then show ?thesis using assms c by (simp add: adoptVerified_def)
  next
    case False
    let ?m = "await (ext (\<lambda>t. cc_pqxdhInitiate cc t (x25519_priv (b_identity me))
        \<lparr>pb_ik_x25519 = vb_ik_x25519 v, pb_spk_x25519 = vb_spk_x25519 v, pb_opk = vb_opk v,
         pb_kyber1024_pub = vb_kyber1024_pub v\<rparr>)) (\<lambda>pqx.
     await (ext (\<lambda>t. cc_ratchetInitAlice cc t (pi_shared_secret pqx) (vb_spk_x25519 v))) (\<lambda>ratchetState.
     andThen (addVerifiedContact E v pqx ratchetState) (ret v)))"
    have run: "?m w = (r, w')" using assms c False by (simp add: adoptVerified_def)
    have "idb w' = idb w \<or> storesOnly (vb_userId v) (idb w) (idb w')"
      using run unfolding andThen_def
      by (elim await_cases) (auto dest!: addVerifiedContact_stores)
    then show ?thesis using False b by blast
  qed
qed


end
