(* ===== verification/Sending.thy ===== *)
theory Sending
  imports Prekeys Envelope Outbox Receipts DeviceSync Files Handshake
begin

text \<open>
  The sending half of \<^verbatim>\<open>services/messaging.ts\<close> with the crypto wrappers of
  \<^verbatim>\<open>crypto/message-crypto.ts\<close>: ratchet-encrypt, wrap, seal, store the advanced ratchet,
  post or park, store the local copy. \<open>MessageCryptoApi\<close> is the injectable crypto of the
  source; its worker instance is \<open>workerMessageCrypto\<close>.
\<close>

section \<open>Message crypto (\<^verbatim>\<open>crypto/message-crypto.ts\<close>)\<close>

record RatchetEncrypted =
  re_ciphertext :: bytes
  re_header :: bytes
  re_newState :: bytes

record RatchetDecrypted =
  rd_plaintext :: bytes
  rd_newState :: bytes

record SealedOpened =
  so_plaintext :: bytes
  so_senderId :: string
  so_senderEdPub :: bytes
  so_senderX25519Pub :: bytes
  so_senderVerified :: bool

record PqxdhInitFields =
  pq_alice_ik_pub :: bytes
  pq_alice_ek_pub :: bytes
  pq_kyber_ciphertext :: bytes
  pq_opk_used :: bool

definition ratchetEncrypt :: "wasmModule \<Rightarrow> nat \<Rightarrow> bytes \<Rightarrow> bytes \<Rightarrow> error + RatchetEncrypted" where
  "ratchetEncrypt W t state plaintext = bindE (w_ratchet_encrypt W t state plaintext) (\<lambda>r.
     Inr \<lparr>re_ciphertext = wre_ciphertext r, re_header = wre_message_header r, re_newState = wre_new_session_state r\<rparr>)"

definition ratchetDecrypt :: "wasmModule \<Rightarrow> nat \<Rightarrow> bytes \<Rightarrow> bytes \<Rightarrow> bytes \<Rightarrow> error + RatchetDecrypted" where
  "ratchetDecrypt W t state ciphertext header = bindE (w_ratchet_decrypt W t state ciphertext header) (\<lambda>r.
     Inr \<lparr>rd_plaintext = wrd_plaintext r, rd_newState = wrd_new_session_state r\<rparr>)"

definition ratchetInitBob :: "wasmModule \<Rightarrow> nat \<Rightarrow> bytes \<Rightarrow> bytes \<Rightarrow> bytes \<Rightarrow> error + bytes" where
  "ratchetInitBob W t sharedSecret spkPriv spkPub = w_ratchet_init_bob W t sharedSecret spkPriv spkPub"

definition generateSenderCert ::
  "wasmModule \<Rightarrow> nat \<Rightarrow> string \<Rightarrow> bytes \<Rightarrow> bytes \<Rightarrow> bytes \<Rightarrow> bytes \<Rightarrow> bytes \<Rightarrow> int \<Rightarrow> int \<Rightarrow> error + bytes" where
  "generateSenderCert W t senderId edPriv edPub dilPriv dilPub x25519Pub nowUnix validSeconds =
     w_generate_sender_cert W t senderId edPriv edPub dilPriv dilPub x25519Pub nowUnix validSeconds"

definition sealedSenderEncrypt :: "wasmModule \<Rightarrow> nat \<Rightarrow> bytes \<Rightarrow> bytes \<Rightarrow> bytes \<Rightarrow> error + bytes" where
  "sealedSenderEncrypt W t message senderCert recipientIkPub = w_sealed_sender_encrypt W t message senderCert recipientIkPub"

definition sealedSenderDecrypt :: "wasmModule \<Rightarrow> nat \<Rightarrow> bytes \<Rightarrow> bytes \<Rightarrow> int \<Rightarrow> error + SealedOpened" where
  "sealedSenderDecrypt W t blob recipientIkPriv nowUnix = bindE (w_sealed_sender_decrypt W t blob recipientIkPriv nowUnix) (\<lambda>r.
     Inr \<lparr>so_plaintext = wop_plaintext r, so_senderId = wop_sender_id r, so_senderEdPub = wop_sender_ed_pub r,
          so_senderX25519Pub = wop_sender_x25519_pub r, so_senderVerified = wop_sender_verified r\<rparr>)"

definition pqxdhRespond :: "wasmModule \<Rightarrow> nat \<Rightarrow> PqxdhInitFields \<Rightarrow> bytes \<Rightarrow> bytes \<Rightarrow> bytes \<Rightarrow> bytes \<Rightarrow> error + bytes" where
  "pqxdhRespond W t init ikPriv spkPriv opkPriv kyberPriv =
     w_pqxdh_respond W t (pq_alice_ik_pub init, pq_alice_ek_pub init, pq_kyber_ciphertext init, pq_opk_used init)
       ikPriv spkPriv opkPriv kyberPriv"

section \<open>The crypto the service calls\<close>

record MessageCryptoApi =
  mc_ratchetEncrypt :: "nat \<Rightarrow> bytes \<Rightarrow> bytes \<Rightarrow> error + RatchetEncrypted"
  mc_ratchetDecrypt :: "nat \<Rightarrow> bytes \<Rightarrow> bytes \<Rightarrow> bytes \<Rightarrow> error + RatchetDecrypted"
  mc_ratchetInitBob :: "nat \<Rightarrow> bytes \<Rightarrow> bytes \<Rightarrow> bytes \<Rightarrow> error + bytes"
  mc_generateSenderCert ::
    "nat \<Rightarrow> string \<Rightarrow> bytes \<Rightarrow> bytes \<Rightarrow> bytes \<Rightarrow> bytes \<Rightarrow> bytes \<Rightarrow> int \<Rightarrow> int \<Rightarrow> error + bytes"
  mc_sealedSenderEncrypt :: "nat \<Rightarrow> bytes \<Rightarrow> bytes \<Rightarrow> bytes \<Rightarrow> error + bytes"
  mc_sealedSenderDecrypt :: "nat \<Rightarrow> bytes \<Rightarrow> bytes \<Rightarrow> int \<Rightarrow> error + SealedOpened"
  mc_pqxdhRespond :: "nat \<Rightarrow> PqxdhInitFields \<Rightarrow> bytes \<Rightarrow> bytes \<Rightarrow> bytes \<Rightarrow> bytes \<Rightarrow> error + bytes"

definition workerMessageCrypto :: "env \<Rightarrow> MessageCryptoApi" where
  "workerMessageCrypto E = (let W = wasm E in
     \<lparr>mc_ratchetEncrypt = ratchetEncrypt W, mc_ratchetDecrypt = ratchetDecrypt W, mc_ratchetInitBob = ratchetInitBob W,
      mc_generateSenderCert = generateSenderCert W, mc_sealedSenderEncrypt = sealedSenderEncrypt W,
      mc_sealedSenderDecrypt = sealedSenderDecrypt W, mc_pqxdhRespond = pqxdhRespond W\<rparr>)"

definition CERT_VALID_SECONDS :: int where "CERT_VALID_SECONDS = 24 * 3600"

definition myCert :: "env \<Rightarrow> MessageCryptoApi \<Rightarrow> IdentityBundle \<Rightarrow> bytes act" where
  "myCert E mc me =
     await (nowSecs E) (\<lambda>t.
     await (gets certCache) (\<lambda>c.
     if (case c of None \<Rightarrow> False | Some (cert, expiresAt) \<Rightarrow> t < expiresAt - 300) then ret (fst (the c)) else
     await (ext (\<lambda>i. mc_generateSenderCert mc i (b_userId me) (ed25519_priv (b_identity me)) (ed25519_pub (b_identity me))
              (dilithium3_priv (b_identity me)) (dilithium3_pub (b_identity me)) (x25519_pub (b_identity me)) t CERT_VALID_SECONDS)) (\<lambda>cert.
     andThen (modify (\<lambda>w. w\<lparr>certCache := Some (cert, t + CERT_VALID_SECONDS)\<rparr>)) (ret cert))))"

section \<open>Sending\<close>

record StoreReq =
  sq_content :: string
  sq_kind :: kind
  sq_receiptToken :: "bytes option"

text \<open>The recipient, if this message may be sent to it.\<close>

definition sendTarget :: "env \<Rightarrow> string \<Rightarrow> StoreReq option \<Rightarrow> PlainContact act" where
  "sendTarget E peerId store =
     await (getContact E peerId) (\<lambda>c. case c of
       None \<Rightarrow> throw (JsError ''no recipient key - add this contact first'')
     | Some contact \<Rightarrow>
         if pc_ik_x25519 contact = [] then throw (JsError ''no recipient key - add this contact first'')
         else if store \<noteq> None \<and> pc_status contact = PendingInbound
         then throw (JsError (''Accept this contact'' @ CHR 0x27 # ''s request before messaging them.''))
         else if store \<noteq> None \<and> pc_status contact = PendingOutbound
         then throw (JsError ''Waiting for them to accept your request.'')
         else if store \<noteq> None \<and> pc_status contact = Blocked
         then throw (JsError ''Unblock this contact to message them.'')
         else ret contact)"

definition sessionFor :: "env \<Rightarrow> string \<Rightarrow> LoadedSession act" where
  "sessionFor E peerId =
     await (loadSession E peerId) (\<lambda>s1.
     await (case s1 of Some s \<Rightarrow> ret (Some s)
            | None \<Rightarrow> andThen (startSession E (workerContactCrypto E) peerId) (loadSession E peerId)) (\<lambda>s2.
     case s2 of None \<Rightarrow> throw (JsError ''no session - add this contact first'') | Some s \<Rightarrow> ret s))"

text \<open>A failed post is parked unless the server refused it for good. Gives the id and the
  status of the local message.\<close>

definition refused :: "error \<Rightarrow> bool" where
  "refused e = (case e of ApiError s \<Rightarrow> s \<noteq> 401 \<and> s \<noteq> 429 \<and> s < 500 | JsError _ \<Rightarrow> False)"

definition postOrPark :: "env \<Rightarrow> string \<Rightarrow> string \<Rightarrow> string \<Rightarrow> bool \<Rightarrow> int \<Rightarrow> (string \<times> string) act" where
  "postOrPark E peerId sealedB64 localId visible ttl =
     tryCatch
       (await token (\<lambda>tok. await (api_sendMessage E peerId sealedB64 tok (Some ttl)) (\<lambda>m. ret (m, ''sent''))))
       (\<lambda>e. if refused e then throw e else
          andThen (enqueue E peerId sealedB64 (if visible then localId else []) (Some ttl)) (
          andThen (whenM (e = ApiError 401) (spawn TReauth)) (ret (localId, ''queued''))))"

definition sentRow :: "string \<Rightarrow> string \<Rightarrow> string \<Rightarrow> int \<Rightarrow> int \<Rightarrow> StoreReq \<Rightarrow> PlainMessage" where
  "sentRow msgId peerId status ts created store =
     \<lparr>p_msg_id = msgId, p_session_id = peerId, p_content = sq_content store, p_timestamp = ts, p_status = status,
      p_direction = DirOut, p_kind = sq_kind store, p_receipt_token = sq_receiptToken store,
      p_receipt_read_wanted = None, p_receipt_read_done = None, p_server_anchor = None, p_created_at = created\<rparr>"

definition storeSent :: "env \<Rightarrow> IdentityBundle \<Rightarrow> string \<Rightarrow> string \<Rightarrow> string \<Rightarrow> int \<Rightarrow> StoreReq \<Rightarrow> unit act" where
  "storeSent E me msgId peerId status ts store =
     await (dateNow E) (\<lambda>created.
     (let row = sentRow msgId peerId status ts created store in
      andThen (messages_add E row) (
      andThen (spawn (TBackup row)) (
      andThen (spawn (TFanOut me \<lparr>sr_msg_id = msgId, sr_peer_id = peerId, sr_kind = sq_kind store, sr_content = sq_content store,
                                  sr_ts = ts, sr_token_hex = map_option toHex (sq_receiptToken store)\<rparr>))
        (emit (EvMessage peerId))))))"

text \<open>Seal one message for the recipient and store the advanced ratchet: after this the
  message exists only as the returned blob.\<close>

definition sealMessage :: "env \<Rightarrow> MessageCryptoApi \<Rightarrow> IdentityBundle \<Rightarrow> PlainContact \<Rightarrow> string \<Rightarrow> LoadedSession \<Rightarrow> bytes \<Rightarrow> string act" where
  "sealMessage E mc me contact peerId session contentBytes =
     await (ext (\<lambda>t. mc_ratchetEncrypt mc t (ls_ratchetState session) contentBytes)) (\<lambda>enc.
     await (myCert E mc me) (\<lambda>cert.
     await (ext (\<lambda>t. mc_sealedSenderEncrypt mc t (encodeEnvelope E (re_header enc) (re_ciphertext enc) (ls_pqxdhInit session))
                   cert (pc_ik_x25519 contact))) (\<lambda>sld.
     andThen (saveRatchetState E peerId (re_newState enc)) (
     andThen (whenM (ls_pqxdhInit session \<noteq> None) (clearPqxdhInit peerId)) (
     ret (b64encode sld))))))"

definition sealAndSend :: "env \<Rightarrow> MessageCryptoApi \<Rightarrow> string \<Rightarrow> bytes \<Rightarrow> StoreReq option \<Rightarrow> int option \<Rightarrow> string act" where
  "sealAndSend E mc peerId contentBytes store ttlSeconds =
     (let ttl = orElse ttlSeconds DEFAULT_TTL_SECONDS in
     await (myBundle E) (\<lambda>me.
     await (sendTarget E peerId store) (\<lambda>contact.
     await (sessionFor E peerId) (\<lambda>session.
     await (nowSecs E) (\<lambda>ts.
     await (sealMessage E mc me contact peerId session contentBytes) (\<lambda>sealedB64.
     await (randomUUID E) (\<lambda>localId.
     await (postOrPark E peerId sealedB64 localId (store \<noteq> None) ttl) (\<lambda>(msgId, status).
     andThen (case store of None \<Rightarrow> ret () | Some s \<Rightarrow> storeSent E me msgId peerId status ts s)
       (ret msgId)))))))))"

section \<open>Device sync\<close>

definition fanOutTo :: "env \<Rightarrow> MessageCryptoApi \<Rightarrow> IdentityBundle \<Rightarrow> SyncRecord \<Rightarrow> string \<Rightarrow> bytes \<Rightarrow> string \<times> bytes \<Rightarrow> unit act" where
  "fanOutTo E mc me rec myId cert t =
     await (encryptSyncRecord E rec (snd t)) (\<lambda>blob.
     await (ext (\<lambda>i. mc_sealedSenderEncrypt mc i
        (encodeDeviceSyncEnvelope E \<lparr>ds_toDevice = fromHex (fst t), ds_fromDevice = fromHex myId, ds_blob = blob\<rparr>)
        cert (x25519_pub (b_identity me)))) (\<lambda>sld.
     await token (\<lambda>tok. andThen (api_sendMessage E (b_userId me) (b64encode sld) tok None) (ret ()))))"

definition fanOutDeviceSync :: "env \<Rightarrow> MessageCryptoApi \<Rightarrow> IdentityBundle \<Rightarrow> SyncRecord \<Rightarrow> unit act" where
  "fanOutDeviceSync E mc me rec =
     await (syncTargets E) (\<lambda>targets. if targets = [] then ret () else
     await (myDeviceId E) (\<lambda>myId.
     await (myCert E mc me) (\<lambda>cert.
     forEach targets (fanOutTo E mc me rec myId cert))))"

section \<open>The kinds of messages\<close>

definition sendContactHello :: "env \<Rightarrow> MessageCryptoApi \<Rightarrow> string \<Rightarrow> unit act" where
  "sendContactHello E mc peerId =
     await (nowSecs E) (\<lambda>t. andThen (sealAndSend E mc peerId (encodeContactHello E t) None None) (ret ()))"

definition sendContactAccept :: "env \<Rightarrow> MessageCryptoApi \<Rightarrow> string \<Rightarrow> unit act" where
  "sendContactAccept E mc peerId =
     await (nowSecs E) (\<lambda>t. andThen (sealAndSend E mc peerId (encodeContactAccept E t) None None) (ret ()))"

definition acceptContactRequest :: "env \<Rightarrow> MessageCryptoApi \<Rightarrow> string \<Rightarrow> unit act" where
  "acceptContactRequest E mc peerId =
     andThen (acceptContact E peerId) (ignoreErrors (sendContactAccept E mc peerId))"

definition sendReceipt :: "env \<Rightarrow> MessageCryptoApi \<Rightarrow> string \<Rightarrow> bytes \<Rightarrow> receiptType \<Rightarrow> unit act" where
  "sendReceipt E mc to tokenId type =
     andThen (sealAndSend E mc to (encodeReceipt E tokenId type) None None) (ret ())"

definition sendCoverMessage :: "env \<Rightarrow> MessageCryptoApi \<Rightarrow> unit act" where
  "sendCoverMessage E mc = ignoreErrors
     (await (myBundle E) (\<lambda>me.
      await (myCert E mc me) (\<lambda>cert.
      await (getRandomValues E 16) (\<lambda>rid.
      await (getRandomValues E 32) (\<lambda>fakeKey.
      await (getRandomValues E 1024) (\<lambda>payload.
      await (ext (\<lambda>t. mc_sealedSenderEncrypt mc t payload cert fakeKey)) (\<lambda>sld.
      await token (\<lambda>tok. andThen (api_sendMessage E (''px_'' @ toHex rid) (b64encode sld) tok None) (ret ())))))))))"

definition sendMessage :: "env \<Rightarrow> MessageCryptoApi \<Rightarrow> string \<Rightarrow> string \<Rightarrow> int option \<Rightarrow> unit act" where
  "sendMessage E mc peerId plaintext ttlSeconds =
     await (buildReceiptRequest E) (\<lambda>receipt.
     await (nowSecs E) (\<lambda>t.
     andThen (sealAndSend E mc peerId (encodeText E plaintext t (map_option fst receipt))
        (Some \<lparr>sq_content = plaintext, sq_kind = KText, sq_receiptToken = map_option snd receipt\<rparr>) ttlSeconds) (ret ())))"

definition sendFile :: "env \<Rightarrow> MessageCryptoApi \<Rightarrow> string \<Rightarrow> fileInput \<Rightarrow> int option \<Rightarrow> unit act" where
  "sendFile E mc peerId file ttlSeconds =
     await (getContact E peerId) (\<lambda>c. case c of
       None \<Rightarrow> throw (JsError ''no recipient key - add this contact first'')
     | Some contact \<Rightarrow>
         if pc_ik_x25519 contact = [] then throw (JsError ''no recipient key - add this contact first'')
         else if pc_status contact = PendingInbound
         then throw (JsError (''Accept this contact'' @ CHR 0x27 # ''s request before messaging them.''))
         else await (encryptAndUpload E (workerFileCrypto E) file (pc_ik_x25519 contact)) (\<lambda>fm.
           await (buildReceiptRequest E) (\<lambda>receipt.
           andThen (sealAndSend E mc peerId (encodeFile E (fst fm) (map_option fst receipt))
              (Some \<lparr>sq_content = stringify (metaJson (snd fm)), sq_kind = KFile, sq_receiptToken = map_option snd receipt\<rparr>)
              ttlSeconds) (ret ()))))"

section \<open>Adding a contact (\<^verbatim>\<open>contacts/add.ts\<close>)\<close>

definition addContact :: "env \<Rightarrow> ContactCryptoApi \<Rightarrow> string \<Rightarrow> (string \<times> bytes) act" where
  "addContact E cc pxId =
     (if \<not> isValidPxId pxId then throw (JsError (''That doesn'' @ CHR 0x27 # ''t look like a Privex ID.'')) else
      await (loadBundle E) (\<lambda>b. case b of
        None \<Rightarrow> throw (JsError (''Your identity isn'' @ CHR 0x27 # ''t loaded. Finish onboarding first.''))
      | Some me \<Rightarrow>
        if pxId = b_userId me then throw (JsError (''You can'' @ CHR 0x27 # ''t add yourself as a contact.'')) else
        await (getContact E pxId) (\<lambda>existing.
        (let st = map_option pc_status existing; known = (pxId, pc_ik_ed25519 (the existing)) in
         if st = Some PendingInbound then andThen (acceptContactRequest E (workerMessageCrypto E) pxId) (ret known)
         else if st = Some PendingOutbound then ret known
         else await (if st = Some Accepted then loadSession E pxId else ret None) (\<lambda>s.
           if s \<noteq> None then ret known
           else if st = Some Blocked then throw (JsError (''You'' @ CHR 0x27 # ''ve blocked this contact. Unblock them first.''))
           else await (startSession E cc pxId) (\<lambda>verified.
             andThen (ignoreErrors (sendContactHello E (workerMessageCrypto E) pxId))
               (ret (vb_userId verified, vb_ik_ed25519 verified))))))))"

section \<open>Who may be sent to\<close>

text \<open>Steps that leave the database, the network, the session and the started tasks alone.\<close>

definition calm :: "world \<Rightarrow> world \<Rightarrow> bool" where
  "calm w w' \<longleftrightarrow> idb w' = idb w \<and> netlog w' = netlog w \<and> tasks w' = tasks w \<and> events w' = events w \<and> auth w' = auth w \<and>
     (\<forall>k. keyOf w = Some k \<longrightarrow> keyOf w' = Some k)"

interpretation cm: step_relation calm
  by unfold_locales (auto simp: calm_def)

lemma quiet_calm: "quiet w w' \<Longrightarrow> calm w w'"
  using quietD [of w w'] quiet_keyOf [of w w'] by (simp add: calm_def)

lemma keeps_cm_quiet: "keeps quiet m \<Longrightarrow> keeps calm m"
  by (erule keeps_mono) (rule quiet_calm)

lemma keeps_cm_modify:
  "(\<And>w. idb (g w) = idb w \<and> netlog (g w) = netlog w \<and> tasks (g w) = tasks w \<and> events (g w) = events w \<and>
     auth (g w) = auth w \<and> keystore (g w) = keystore w) \<Longrightarrow> keeps calm (modify g)"
  by (rule cm.keeps_modify) (simp add: calm_def keyOf_def)

lemma keeps_cm_myBundle: "keeps calm (myBundle E)"
  unfolding myBundle_def by (intro cm.keeps_rules keeps_cm_quiet keeps_cm_modify keeps_intro) simp

lemma keeps_cm_myCert: "keeps calm (myCert E mc me)"
  unfolding myCert_def by (intro cm.keeps_rules keeps_cm_quiet keeps_cm_modify keeps_intro) simp

lemma keeps_cm_token: "keeps calm token"
  unfolding token_def by (intro cm.keeps_rules)

lemma keeps_sendTarget [keeps_intro]: "keeps quiet (sendTarget E p st)"
  unfolding sendTarget_def by (intro q.keeps_rules keeps_intro)

lemma sendTarget_accepted:
  assumes "sendTarget E peer (Some s) w = (Inr c, w')"
  shows "effStatus (idb w) peer = Some Accepted"
proof -
  obtain c0 w1 where g: "getContact E peer w = (Inr c0, w1)"
    and t: "(case c0 of None \<Rightarrow> throw (JsError ''no recipient key - add this contact first'') | Some contact \<Rightarrow>
         if pc_ik_x25519 contact = [] then throw (JsError ''no recipient key - add this contact first'')
         else if Some s \<noteq> None \<and> pc_status contact = PendingInbound
         then throw (JsError (''Accept this contact'' @ CHR 0x27 # ''s request before messaging them.''))
         else if Some s \<noteq> None \<and> pc_status contact = PendingOutbound
         then throw (JsError ''Waiting for them to accept your request.'')
         else if Some s \<noteq> None \<and> pc_status contact = Blocked
         then throw (JsError ''Unblock this contact to message them.'')
         else ret contact) w1 = (Inr c, w')"
    using assms unfolding sendTarget_def by (rule await_Inr_cases)
  obtain contact where c0: "c0 = Some contact" using t by (cases c0) simp_all
  have "pc_status contact = Accepted" using t c0 by (cases "pc_status contact") (auto split: if_splits)
  then show ?thesis using getContact_status [OF g] c0 by simp
qed

text \<open>C17. A visible message goes only to an accepted contact, whatever the user interface does:
  for anyone else the send fails before anything happens - no request, no change to the
  database, no task, in particular no ratchet step.\<close>

theorem visible_message_needs_accepted:
  assumes status: "effStatus (idb w) peer \<noteq> Some Accepted"
    and run: "sealAndSend E mc peer c (Some s) ttl w = (r, w')"
  shows "(\<exists>e. r = Inl e) \<and> idb w' = idb w \<and> netlog w' = netlog w \<and> tasks w' = tasks w"
proof -
  obtain rb w1 where b: "myBundle E w = (rb, w1)" by fastforce
  have c1: "calm w w1" by (rule keepsD [OF keeps_cm_myBundle b])
  show ?thesis
  proof (cases rb)
    case (Inl e)
    then show ?thesis using run b c1 by (auto simp: sealAndSend_def Let_def calm_def)
  next
    case (Inr me)
    obtain rt w2 where t: "sendTarget E peer (Some s) w1 = (rt, w2)" by fastforce
    have c2: "calm w w2" using keepsD [OF keeps_cm_quiet [OF keeps_sendTarget] t] c1 cm.step_trans by blast
    obtain e where "rt = Inl e"
      using t sendTarget_accepted [of E peer s w1 _ w2] status c1 by (cases rt) (auto simp: calm_def)
    then show ?thesis using run b Inr t c2 by (auto simp: sealAndSend_def Let_def calm_def)
  qed
qed

section \<open>Sealed messages are never lost\<close>

definition parkedRow :: "nat \<Rightarrow> string \<Rightarrow> string \<Rightarrow> string \<Rightarrow> int \<Rightarrow> int \<Rightarrow> OutboxRow" where
  "parkedRow i peer b64 lid t ttl = \<lparr>o_id = i, o_peer_id = peer, o_sealed_b64 = b64, o_local_msg_id = lid,
     o_created_at = t, o_attempts = 0, o_ttl_seconds = Some ttl\<rparr>"

definition parkedDb :: "privexDB \<Rightarrow> string \<Rightarrow> string \<Rightarrow> string \<Rightarrow> int \<Rightarrow> int \<Rightarrow> privexDB" where
  "parkedDb d peer b64 lid t ttl = d\<lparr>outbox_next := Suc (outbox_next d),
     outbox_tbl := tput (outbox_next d) (parkedRow (outbox_next d) peer b64 lid t ttl) (outbox_tbl d)\<rparr>"

definition park :: "env \<Rightarrow> string \<Rightarrow> string \<Rightarrow> string \<Rightarrow> bool \<Rightarrow> int \<Rightarrow> error \<Rightarrow> (string \<times> string) act" where
  "park E peer b64 lid vis ttl e =
     andThen (enqueue E peer b64 (if vis then lid else []) (Some ttl)) (
     andThen (whenM (e = ApiError 401) (spawn TReauth)) (ret (lid, ''queued'')))"

lemma run_park:
  "park E peer b64 lid vis ttl e w = (Inr (lid, ''queued''), w\<lparr>tick := Suc (tick w),
     idb := parkedDb (idb w) peer b64 (if vis then lid else []) (date_now E (tick w)) ttl,
     events := events w @ [EvOutbox],
     tasks := tasks w @ TRequestBackgroundSync # (if e = ApiError 401 then [TReauth] else [])\<rparr>)"
  by (cases "e = ApiError 401") (simp_all add: park_def enqueue_def parkedDb_def parkedRow_def)

lemma run_token: "token w = ((if orElse (au_sessionToken (auth w)) [] = [] then Inl (JsError ''not authenticated'')
    else Inr (the (au_sessionToken (auth w)))), w)"
  by (simp add: token_def)

definition sendOutcome :: "env \<Rightarrow> string \<Rightarrow> string \<Rightarrow> int \<Rightarrow> world \<Rightarrow> (error + string) \<times> world" where
  "sendOutcome E peer b64 ttl w =
     (if orElse (au_sessionToken (auth w)) [] = [] then (Inl (JsError ''not authenticated''), w)
      else let q = send_req E peer b64 (the (au_sessionToken (auth w))) (Some ttl) in (sendReply E (tick w) q, afterReq q w))"

lemma run_postOrPark:
  "postOrPark E peer b64 lid vis ttl w =
     (case sendOutcome E peer b64 ttl w of
        (Inr m, w1) \<Rightarrow> (Inr (m, ''sent''), w1)
      | (Inl e, w1) \<Rightarrow> if refused e then (Inl e, w1) else park E peer b64 lid vis ttl e w1)"
proof -
  have "await token (\<lambda>tok. await (api_sendMessage E peer b64 tok (Some ttl)) (\<lambda>m. ret (m, ''sent''))) w
      = (case sendOutcome E peer b64 ttl w of (Inr m, w1) \<Rightarrow> (Inr (m, ''sent''), w1) | (Inl e, w1) \<Rightarrow> (Inl e, w1))"
    by (auto simp: await_def run_token run_api_sendMessage sendOutcome_def Let_def split: sum.splits)
  then show ?thesis
    by (auto simp: postOrPark_def tryCatch_def park_def split: sum.splits prod.splits)
qed

lemma sendOutcome_state:
  assumes "sendOutcome E peer b64 ttl w = (r, w1)"
  shows "idb w1 = idb w" "auth w1 = auth w" "keystore w1 = keystore w" "tasks w1 = tasks w"
    "\<exists>xs. netlog w1 = netlog w @ xs \<and> (\<forall>x \<in> set xs. snd x = idb w \<and> (\<exists>tok. fst x = send_req E peer b64 tok (Some ttl)))"
  using assms by (auto simp: sendOutcome_def Let_def split: if_splits)

text \<open>C6. Once sealed, a message is never lost: posting it ends in one of three ways. The server
  accepted it; or it is parked in the outbox, sealed exactly as it was, with its time to live,
  and the local message will read queued; or the server refused it for good (a client error other
  than an expired token or rate limiting) and the caller sees that error. At most one request is
  made.\<close>

theorem postOrPark_never_loses:
  assumes "postOrPark E peer b64 lid vis ttl w = (r, w')"
  shows "((\<exists>m t tok. r = Inr (m, ''sent'') \<and> idb w' = idb w \<and> sendReply E t (send_req E peer b64 tok (Some ttl)) = Inr m) \<or>
     (\<exists>t. r = Inr (lid, ''queued'') \<and> idb w' = parkedDb (idb w) peer b64 (if vis then lid else []) t ttl) \<or>
     (\<exists>s. r = Inl (ApiError s) \<and> s \<notin> {401, 429} \<and> s < 500 \<and> idb w' = idb w)) \<and>
    length (netlog w') \<le> length (netlog w) + 1"
proof -
  obtain rs w1 where o1: "sendOutcome E peer b64 ttl w = (rs, w1)" by fastforce
  have log: "length (netlog w1) \<le> length (netlog w) + 1"
    using o1 by (auto simp: sendOutcome_def Let_def split: if_splits)
  show ?thesis
  proof (cases rs)
    case (Inr m)
    then have "\<exists>t tok. sendReply E t (send_req E peer b64 tok (Some ttl)) = Inr m"
      using o1 by (auto simp: sendOutcome_def Let_def split: if_splits)
    then show ?thesis using assms o1 Inr sendOutcome_state(1) [OF o1] log by (auto simp: run_postOrPark)
  next
    case (Inl e)
    show ?thesis
    proof (cases "refused e")
      case True
      then show ?thesis
        using assms o1 Inl sendOutcome_state(1) [OF o1] log by (auto simp: run_postOrPark refused_def split: error.splits)
    next
      case False
      then have "r = Inr (lid, ''queued'')" "netlog w' = netlog w1"
        "idb w' = parkedDb (idb w) peer b64 (if vis then lid else []) (date_now E (tick w1)) ttl"
        using assms o1 Inl sendOutcome_state(1) [OF o1] by (auto simp: run_postOrPark run_park)
      then show ?thesis using log by auto
    qed
  qed
qed

section \<open>Ratchet and network\<close>

text \<open>Programs that make no request, and programs that only add to the log of requests.\<close>

definition offline :: "world \<Rightarrow> world \<Rightarrow> bool" where
  "offline w w' \<longleftrightarrow> netlog w' = netlog w"

definition grows :: "world \<Rightarrow> world \<Rightarrow> bool" where
  "grows w w' \<longleftrightarrow> (\<exists>xs. netlog w' = netlog w @ xs)"

interpretation off: step_relation offline
  by unfold_locales (auto simp: offline_def)

interpretation gr: step_relation grows
  by unfold_locales (auto simp: grows_def)

lemma offline_grows: "offline w w' \<Longrightarrow> grows w w'"
  by (simp add: offline_def grows_def)

lemma calm_offline: "calm w w' \<Longrightarrow> offline w w'"
  by (simp add: calm_def offline_def)

lemma keeps_off_calm: "keeps calm m \<Longrightarrow> keeps offline m"
  by (erule keeps_mono) (rule calm_offline)

lemma keeps_off_quiet: "keeps quiet m \<Longrightarrow> keeps offline m"
  by (intro keeps_off_calm keeps_cm_quiet)

lemma keeps_gr_off: "keeps offline m \<Longrightarrow> keeps grows m"
  by (erule keeps_mono) (rule offline_grows)

lemma keeps_off_prims:
  "keeps offline (dbModify f)" "keeps offline (emit ev)" "keeps offline (spawn t)" "keeps offline (settingPut k v)"
  "keeps offline (settingDelete k)"
  by (simp_all add: keeps_def offline_def)

lemma keeps_off_ignore: "keeps offline m \<Longrightarrow> keeps offline (ignoreErrors m)"
  unfolding ignoreErrors_def by (intro off.keeps_rules)

lemma keeps_off_contacts:
  "keeps offline (contacts_add E px ed x st)" "keeps offline (contacts_setStatus px st)"
  by (simp_all add: keeps_def offline_def run_contacts_add contacts_setStatus_def)

lemma keeps_off_accept: "keeps offline (acceptContact E px)" "keeps offline (upsertInboundContact E px ed x)"
  unfolding acceptContact_def upsertInboundContact_def
  by (intro off.keeps_rules keeps_off_prims keeps_off_contacts keeps_off_quiet keeps_intro)+

lemma keeps_off_sessions:
  "keeps offline (saveRatchetState E p st)" "keeps offline (clearPqxdhInit p)" "keeps offline (markSessionReceived p)"
  "keeps offline (createInboundSession E p st)" "keeps offline (addVerifiedContact E v pqx st)"
  unfolding saveRatchetState_def clearPqxdhInit_def markSessionReceived_def createInboundSession_def addVerifiedContact_def
  by (intro off.keeps_rules keeps_off_prims keeps_off_contacts keeps_off_quiet keeps_intro)+

lemma keeps_off_messages_add: "keeps offline (messages_add E m)"
  unfolding messages_add_def by (intro off.keeps_rules keeps_off_prims keeps_off_quiet keeps_intro)

lemma keeps_off_storeSent: "keeps offline (storeSent E me i p st ts s)"
  unfolding storeSent_def Let_def
  by (intro off.keeps_rules keeps_off_prims keeps_off_messages_add keeps_off_quiet keeps_intro)

lemma keeps_gr_api:
  "keeps grows (post_api E p b t)" "keeps grows (get_api E p t)" "keeps grows (del_api E p t)" "keeps grows (fetchReq E q)"
  by (simp_all add: keeps_def grows_def run_fetchReq)

lemma keeps_off_typed:
  "keeps offline (typed v)" "keeps offline (strField k j)" "keeps offline (intField k j)" "keeps offline (boolField k j)"
  by (simp_all add: keeps_def offline_def typed_pure)

text \<open>After the message is sealed, the stored session is the advanced one.\<close>

definition advanced :: "env \<Rightarrow> cryptoKey \<Rightarrow> MessageCryptoApi \<Rightarrow> string \<Rightarrow> LoadedSession \<Rightarrow> bytes \<Rightarrow> privexDB \<Rightarrow> bool" where
  "advanced E k mc peer s c d \<longleftrightarrow>
     (\<exists>enc t row. mc_ratchetEncrypt mc t (ls_ratchetState s) c = Inr enc \<and> tget (sessions_tbl d) peer = Some row \<and>
        sessionOf E k row = Some \<lparr>ls_ratchetState = re_newState enc, ls_pqxdhInit = None, ls_receivedOk = ls_receivedOk s\<rparr>)"

lemma run_saveRatchetState:
  "keyOf w = Some k \<Longrightarrow> saveRatchetState E peer st w = (Inr (), w\<lparr>tick := Suc (tick w),
     idb := sessions_tbl_update (tupdate peer (\<lambda>r. r\<lparr>se_ratchet_state_enc :=
       ivAt E (tick w) @ aes_enc E k (ivAt E (tick w)) (textEncode (toHex st))\<rparr>)) (idb w)\<rparr>)"
  by (simp add: saveRatchetState_def getMasterKey_keyOf)

lemma sealMessage_saves:
  assumes aes: "aes_correct E" and key: "keyOf w = Some k" and row: "tget (sessions_tbl (idb w)) peer = Some row"
    and s: "sessionOf E k row = Some s" and run: "sealMessage E mc me contact peer s c w = (Inr b, w')"
  shows "advanced E k mc peer s c (idb w')" "netlog w' = netlog w"
proof -
  obtain enc w1 where e: "ext (\<lambda>t. mc_ratchetEncrypt mc t (ls_ratchetState s) c) w = (Inr enc, w1)"
    and r1: "await (myCert E mc me) (\<lambda>cert.
     await (ext (\<lambda>t. mc_sealedSenderEncrypt mc t (encodeEnvelope E (re_header enc) (re_ciphertext enc) (ls_pqxdhInit s))
                   cert (pc_ik_x25519 contact))) (\<lambda>sld.
     andThen (saveRatchetState E peer (re_newState enc)) (
     andThen (whenM (ls_pqxdhInit s \<noteq> None) (clearPqxdhInit peer)) (ret (b64encode sld))))) w1 = (Inr b, w')"
    using run unfolding sealMessage_def by (rule await_Inr_cases)
  obtain cert w2 where c: "myCert E mc me w1 = (Inr cert, w2)"
    and r2: "await (ext (\<lambda>t. mc_sealedSenderEncrypt mc t (encodeEnvelope E (re_header enc) (re_ciphertext enc) (ls_pqxdhInit s))
                   cert (pc_ik_x25519 contact))) (\<lambda>sld.
     andThen (saveRatchetState E peer (re_newState enc)) (
     andThen (whenM (ls_pqxdhInit s \<noteq> None) (clearPqxdhInit peer)) (ret (b64encode sld)))) w2 = (Inr b, w')"
    using r1 by (rule await_Inr_cases)
  obtain sld w3 where x: "ext (\<lambda>t. mc_sealedSenderEncrypt mc t (encodeEnvelope E (re_header enc) (re_ciphertext enc) (ls_pqxdhInit s))
                   cert (pc_ik_x25519 contact)) w2 = (Inr sld, w3)"
    and r3: "andThen (saveRatchetState E peer (re_newState enc)) (
     andThen (whenM (ls_pqxdhInit s \<noteq> None) (clearPqxdhInit peer)) (ret (b64encode sld))) w3 = (Inr b, w')"
    using r2 by (rule await_Inr_cases)
  have "calm w w1" "calm w2 w3"
    using keepsD [OF keeps_cm_quiet [OF keeps_ext] e] keepsD [OF keeps_cm_quiet [OF keeps_ext] x] .
  moreover have "calm w1 w2" by (rule keepsD [OF keeps_cm_myCert c])
  ultimately have cl: "calm w w3" using cm.step_trans by blast
  then have w3: "keyOf w3 = Some k" "tget (sessions_tbl (idb w3)) peer = Some row" "netlog w3 = netlog w"
    using key row by (auto simp: calm_def)
  have enc: "mc_ratchetEncrypt mc (tick w) (ls_ratchetState s) c = Inr enc" using e by simp
  have pq: "ls_pqxdhInit s = None \<longleftrightarrow> se_pqxdh_init_enc row = None" "ls_receivedOk s = orElse (se_received_ok row) True"
    using s by (auto simp: sessionOf_def split: option.splits bind_splits)
  have "netlog w' = netlog w \<and> (\<exists>row'. tget (sessions_tbl (idb w')) peer = Some row' \<and>
      sessionOf E k row' = Some \<lparr>ls_ratchetState = re_newState enc, ls_pqxdhInit = None, ls_receivedOk = ls_receivedOk s\<rparr>)"
    using r3 w3 aes pq
    by (cases "ls_pqxdhInit s") (auto simp: run_saveRatchetState clearPqxdhInit_def sessionOf_def)
  then show "advanced E k mc peer s c (idb w')" "netlog w' = netlog w"
    using enc by (auto simp: advanced_def)
qed

lemma keeps_off_sealMessage: "keeps offline (sealMessage E mc me ct p s c)"
  unfolding sealMessage_def
  by (intro off.keeps_rules keeps_off_sessions keeps_off_calm [OF keeps_cm_myCert] keeps_off_quiet keeps_intro)

text \<open>C5. A ratchet state is never used twice, even across a crash: whenever sending to a peer with
  a session makes a request, the database the request left from already holds the ratchet state
  after this message and no longer the handshake.\<close>

theorem ratchet_saved_before_posting:
  assumes aes: "aes_correct E" and key: "keyOf w = Some k" and row: "tget (sessions_tbl (idb w)) peer = Some row"
    and s: "sessionOf E k row = Some s" and run: "sealAndSend E mc peer c store ttl w = (r, w')"
  shows "\<exists>xs. netlog w' = netlog w @ xs \<and> (\<forall>x \<in> set xs. advanced E k mc peer s c (snd x))"
proof -
  define t where "t = orElse ttl DEFAULT_TTL_SECONDS"
  have none: ?thesis if "offline w w'" using that by (intro exI [where x = "[]"]) (simp add: offline_def)
  from run [unfolded sealAndSend_def Let_def, folded t_def] show ?thesis
  proof (cases rule: await_cases)
    case (threw e)
    then show ?thesis using keepsD [OF keeps_off_calm [OF keeps_cm_myBundle]] none by blast
  next
    case me: (went_on me w1)
    have c1: "calm w w1" by (rule keepsD [OF keeps_cm_myBundle me(1)])
    from me(2) show ?thesis
    proof (cases rule: await_cases)
      case (threw e)
      then show ?thesis using keepsD [OF keeps_cm_quiet [OF keeps_sendTarget] threw(1)] c1 none cm.step_trans calm_offline by blast
    next
      case ct: (went_on contact w2)
      have c2: "calm w w2" using keepsD [OF keeps_cm_quiet [OF keeps_sendTarget] ct(1)] c1 cm.step_trans by blast
      then have w2: "keyOf w2 = Some k" "tget (sessions_tbl (idb w2)) peer = Some row" "netlog w2 = netlog w"
        using key row by (auto simp: calm_def)
      have ses: "sessionFor E peer w2 = (Inr s, w2)"
        by (simp add: sessionFor_def loadSession_sessionOf [OF w2(1,2) s])
      define w3 where "w3 = w2\<lparr>tick := Suc (tick w2)\<rparr>"
      have w3: "keyOf w3 = Some k" "tget (sessions_tbl (idb w3)) peer = Some row" "netlog w3 = netlog w"
        using w2 by (simp_all add: w3_def)
      let ?ts = "date_now E (tick w2) div 1000"
      have "await (sealMessage E mc me contact peer s c) (\<lambda>sealedB64.
         await (randomUUID E) (\<lambda>localId.
         await (postOrPark E peer sealedB64 localId (store \<noteq> None) t) (\<lambda>(msgId, status).
         andThen (case store of None \<Rightarrow> ret () | Some s \<Rightarrow> storeSent E me msgId peer status ?ts s) (ret msgId)))) w3 = (r, w')"
        using ct(2) ses by (simp add: w3_def)
      then show ?thesis
      proof (cases rule: await_cases)
        case (threw e)
        then show ?thesis using keepsD [OF keeps_off_sealMessage threw(1)] w3 none by (simp add: offline_def)
      next
        case sl: (went_on b w4)
        note adv = sealMessage_saves [OF aes w3(1,2) s sl(1)]
        define w5 where "w5 = w4\<lparr>tick := Suc (tick w4)\<rparr>"
        obtain rp w6 where pp: "postOrPark E peer b (rand_uuid E (tick w4)) (store \<noteq> None) t w5 = (rp, w6)" by fastforce
        have log: "\<exists>xs. netlog w6 = netlog w5 @ xs \<and> (\<forall>x \<in> set xs. snd x = idb w5)"
          using pp sendOutcome_state(5) [of E peer b t w5]
          by (fastforce simp: run_postOrPark run_park split: prod.splits sum.splits if_splits)
        have "offline w6 w'"
        proof (cases rp)
          case (Inl e)
          then show ?thesis using sl(2) pp by (simp add: w5_def offline_def)
        next
          case (Inr ms)
          obtain m st where ms: "ms = (m, st)" by fastforce
          have "andThen (case store of None \<Rightarrow> ret () | Some s \<Rightarrow> storeSent E me m peer st ?ts s) (ret m) w6 = (r, w')"
            using sl(2) pp Inr ms by (simp add: w5_def)
          moreover have "keeps offline (andThen (case store of None \<Rightarrow> ret () | Some s \<Rightarrow> storeSent E me m peer st ?ts s) (ret m))"
            by (intro off.keeps_rules keeps_off_storeSent)
          ultimately show ?thesis by (rule keepsD [rotated])
        qed
        then show ?thesis using log adv w3(3) by (auto simp: offline_def w5_def)
      qed
    qed
  qed
qed

end
