(* ===== verification/TimeSync.thy ===== *)
theory TimeSync
  imports Codec AtRest
begin

text \<open>
  Signed delivery times (\<^verbatim>\<open>services/time-sync.ts\<close>): the server's arrival time of a message
  becomes its ordering anchor only when its signature verifies under the pinned key; the
  drift of the local clock is recorded for a warning and never corrected.
\<close>

definition DRIFT_TOLERANCE_SECS :: int where "DRIFT_TOLERANCE_SECS = 90"

text \<open>\<open>VerifyEd25519\<close>: message, signature, public key.\<close>

type_synonym verifyEd25519 = "nat \<Rightarrow> bytes \<Rightarrow> bytes \<Rightarrow> bytes \<Rightarrow> error + bool"

definition workerVerify :: "env \<Rightarrow> verifyEd25519" where
  "workerVerify E = (\<lambda>t m s p. w_kt_verify_root_sig (wasm E) m s p)"

record TimeVerifyResult =
  tv_validSignature :: bool
  tv_withinTolerance :: bool
  tv_driftSeconds :: int
  tv_anchor :: "int option"

definition setDrift :: "int \<Rightarrow> bool \<Rightarrow> unit act" where
  "setDrift drift inTol = modify (\<lambda>w. w\<lparr>clockDrift := drift, clockWarning := \<not> inTol\<rparr>)"

definition clockStatus :: "(bool \<times> int) act" where
  "clockStatus = gets (\<lambda>w. (clockWarning w, clockDrift w))"

definition unanchored :: TimeVerifyResult where
  "unanchored = \<lparr>tv_validSignature = False, tv_withinTolerance = True, tv_driftSeconds = 0, tv_anchor = None\<rparr>"

definition checkDeliveryTime :: "env \<Rightarrow> WSMessage \<Rightarrow> verifyEd25519 \<Rightarrow> TimeVerifyResult act" where
  "checkDeliveryTime E fr verify =
     (case (ws_server_ts fr, ws_server_ts_sig fr) of
        (Some ts, Some (c # cs)) \<Rightarrow>
          await (tryCatch (ext (\<lambda>t. verify t (timeSigningInput ts (ws_queued_at fr) (ws_message_id fr))
                   (fromHex (c # cs)) (fromHex (time_signing_pub E)))) (\<lambda>_. ret False)) (\<lambda>valid.
          if \<not> valid then ret unanchored
          else await (nowSecs E) (\<lambda>localNow.
            (let drift = localNow - ts; inTol = (\<bar>drift\<bar> \<le> DRIFT_TOLERANCE_SECS) in
             andThen (setDrift drift inTol)
               (ret \<lparr>tv_validSignature = True, tv_withinTolerance = inTol, tv_driftSeconds = drift,
                     tv_anchor = Some (ws_queued_at fr)\<rparr>))))
      | _ \<Rightarrow> ret unanchored)"

text \<open>A step that only records the drift.\<close>

definition clockStep :: "world \<Rightarrow> world \<Rightarrow> bool" where
  "clockStep w w' \<longleftrightarrow> quiet w (w'\<lparr>clockDrift := clockDrift w, clockWarning := clockWarning w\<rparr>)"

lemma clockStepD:
  assumes "clockStep w w'"
  shows "idb w' = idb w" "auth w' = auth w" "bundleCache w' = bundleCache w" "certCache w' = certCache w"
    "netlog w' = netlog w" "events w' = events w" "tasks w' = tasks w"
  using quietD [of w "w'\<lparr>clockDrift := clockDrift w, clockWarning := clockWarning w\<rparr>"] assms
  by (simp_all add: clockStep_def)

lemma run_verify:
  "tryCatch (ext f) (\<lambda>_. ret False) w = (Inr (f (tick w) = Inr True), w\<lparr>tick := Suc (tick w)\<rparr>)"
  for f :: "nat \<Rightarrow> error + bool"
  by (cases "f (tick w)") (simp_all add: tryCatch_def)

lemma checkDeliveryTime_run:
  "\<exists>res w'. checkDeliveryTime E fr verify w = (Inr res, w') \<and> clockStep w w'"
  by (auto simp: checkDeliveryTime_def run_verify clockStep_def setDrift_def Let_def quiet_def strip_def
      split: option.splits list.splits)

definition timeVerifies :: "env \<Rightarrow> WSMessage \<Rightarrow> verifyEd25519 \<Rightarrow> nat \<Rightarrow> bool" where
  "timeVerifies E fr verify t \<longleftrightarrow>
     (\<exists>ts sig. ws_server_ts fr = Some ts \<and> ws_server_ts_sig fr = Some sig \<and> sig \<noteq> [] \<and>
        verify t (timeSigningInput ts (ws_queued_at fr) (ws_message_id fr)) (fromHex sig)
          (fromHex (time_signing_pub E)) = Inr True)"

text \<open>Checking a delivery's time never fails and never changes stored data. It yields an
  ordering anchor exactly when the server's signature over this frame's server time, queue
  time and message id verifies under the pinned key; then the anchor is the signed queue time,
  and the clock warning is shown exactly when the local clock is more than 90 seconds off.
  Without a valid signature nothing is recorded.\<close>

theorem checkDeliveryTime_spec:
  "\<exists>res w'. checkDeliveryTime E fr verify w = (Inr res, w') \<and> clockStep w w' \<and>
    tv_anchor res = (if timeVerifies E fr verify (tick w) then Some (ws_queued_at fr) else None) \<and>
    (if timeVerifies E fr verify (tick w) then clockDrift w' = date_now E (Suc (tick w)) div 1000 - the (ws_server_ts fr) \<and>
                   clockWarning w' = (\<bar>clockDrift w'\<bar> > 90)
     else clockDrift w' = clockDrift w \<and> clockWarning w' = clockWarning w)"
proof (cases "ws_server_ts fr = None \<or> orElse (ws_server_ts_sig fr) [] = []")
  case True
  then have "checkDeliveryTime E fr verify = ret unanchored"
    by (auto simp: checkDeliveryTime_def split: option.splits list.splits)
  moreover have "\<not> timeVerifies E fr verify (tick w)" using True by (auto simp: timeVerifies_def)
  ultimately show ?thesis by (simp add: unanchored_def clockStep_def)
next
  case False
  then obtain ts c cs where fr: "ws_server_ts fr = Some ts" "ws_server_ts_sig fr = Some (c # cs)"
    by (cases "ws_server_ts_sig fr") (auto simp: neq_Nil_conv)
  show ?thesis
    using fr by (auto simp: checkDeliveryTime_def run_verify timeVerifies_def unanchored_def clockStep_def setDrift_def Let_def
        DRIFT_TOLERANCE_SECS_def quiet_def strip_def)
qed

end
