(* ===== verification/Receiving.thy ===== *)
theory Receiving
  imports Sending TimeSync
begin

text \<open>
  The receiving half of \<^verbatim>\<open>services/messaging.ts\<close>: \<open>receiveMessage\<close> opens a delivered
  blob, picks or creates the session, decrypts, acts on the content and acknowledges. The
  function is cut at its stages; each stage either finishes the delivery or hands on.
\<close>

definition UNDECRYPTABLE :: string where "UNDECRYPTABLE = ''undecryptable''"
definition RECEIVED_RETENTION_SECS :: int where "RECEIVED_RETENTION_SECS = 61 * 24 * 3600"

section \<open>Acknowledging\<close>

definition ackDelivered :: "env \<Rightarrow> string \<Rightarrow> unit act" where
  "ackDelivered E messageId =
     await (nowSecs E) (\<lambda>t.
     andThen (dbModify (received_tbl_update (tput messageId \<lparr>rv_message_id = messageId, rv_at = t\<rparr>))) (
     await token (\<lambda>tok. andThen (ackMessages E [messageId] tok) (ret ()))))"

definition pruneReceived :: "env \<Rightarrow> unit act" where
  "pruneReceived E = await (nowSecs E) (\<lambda>t.
     dbModify (received_tbl_update (tdeleteWhere (\<lambda>r. rv_at r < t - RECEIVED_RETENTION_SECS))))"

definition cryptoEngineHealthy :: "env \<Rightarrow> MessageCryptoApi \<Rightarrow> IdentityBundle \<Rightarrow> bool act" where
  "cryptoEngineHealthy E mc me = tryCatch
     (await (myCert E mc me) (\<lambda>cert.
      await (ext (\<lambda>t. mc_sealedSenderEncrypt mc t [1] cert (x25519_pub (b_identity me)))) (\<lambda>probe.
      await (nowSecs E) (\<lambda>n.
      andThen (ext (\<lambda>t. mc_sealedSenderDecrypt mc t probe (x25519_priv (b_identity me)) n)) (ret True)))))
     (\<lambda>_. ret False)"

text \<open>\<open>sortBy("created_at")\<close> sorts by that column; rows without it come last.\<close>

definition createdOrder :: "MessageRow \<Rightarrow> bool \<times> int" where
  "createdOrder r = (m_created_at r = None, orElse (m_created_at r) 0)"

definition noticeRow :: "string \<Rightarrow> string \<Rightarrow> int option \<Rightarrow> int \<Rightarrow> int \<Rightarrow> PlainMessage" where
  "noticeRow messageId peerId anchor t created =
     \<lparr>p_msg_id = messageId, p_session_id = peerId, p_content = [], p_timestamp = t, p_status = UNDECRYPTABLE,
      p_direction = DirIn, p_kind = KText, p_receipt_token = None, p_receipt_read_wanted = None,
      p_receipt_read_done = None, p_server_anchor = anchor, p_created_at = created\<rparr>"

definition noteUndecryptable :: "env \<Rightarrow> string \<Rightarrow> string \<Rightarrow> int option \<Rightarrow> unit act" where
  "noteUndecryptable E peerId messageId anchor =
     await (dbGets (\<lambda>d. sort_key createdOrder (filter (\<lambda>r. m_session_id r = peerId) (toArray (messages_tbl d))))) (\<lambda>rows.
     if rows \<noteq> [] \<and> m_status (last rows) = UNDECRYPTABLE then ret () else
     await (nowSecs E) (\<lambda>t.
     await (dateNow E) (\<lambda>created.
     andThen (messages_add E (noticeRow messageId peerId anchor t created)) (emit (EvMessage peerId)))))"

section \<open>Opening\<close>

definition openSealed :: "env \<Rightarrow> MessageCryptoApi \<Rightarrow> IdentityBundle \<Rightarrow> bytes \<Rightarrow> int \<Rightarrow> (SealedOpened \<times> DecodedEnvelope) act" where
  "openSealed E mc me blob certCheckTime =
     await (ext (\<lambda>t. mc_sealedSenderDecrypt mc t blob (x25519_priv (b_identity me)) certCheckTime)) (\<lambda>opened.
     await (liftE (decodeEnvelope E (so_plaintext opened))) (\<lambda>env. ret (opened, env)))"

section \<open>Sync copies\<close>

definition receiveSync :: "env \<Rightarrow> IdentityBundle \<Rightarrow> string \<Rightarrow> SealedOpened \<Rightarrow> DeviceSyncWire \<Rightarrow> unit act" where
  "receiveSync E me messageId opened sync =
     (if so_senderId opened \<noteq> b_userId me \<or> \<not> so_senderVerified opened then ackDelivered E messageId else
      await (myDeviceId E) (\<lambda>myId.
      if toHex (ds_toDevice sync) \<noteq> myId then ret () else
      andThen (ignoreErrors (await (openSyncBlob E (toHex (ds_fromDevice sync)) (ds_blob sync)) (applySyncRecord E)))
        (ackDelivered E messageId)))"

section \<open>Sessions\<close>

datatype sessionStep = Finished | AdoptHandshake | Plain bytes

text \<open>Decrypting on the session we hold.\<close>

definition useSession ::
  "env \<Rightarrow> MessageCryptoApi \<Rightarrow> IdentityBundle \<Rightarrow> string \<Rightarrow> int option \<Rightarrow> string \<Rightarrow> bool \<Rightarrow> DecodedEnvelope \<Rightarrow>
   LoadedSession option \<Rightarrow> sessionStep act" where
  "useSession E mc me messageId anchor senderId verified env existing =
     (case existing of
        None \<Rightarrow> andThen (ackDelivered E messageId) (ret Finished)
      | Some s \<Rightarrow>
          await (attempt (ext (\<lambda>t. mc_ratchetDecrypt mc t (ls_ratchetState s) (de_ciphertext env) (de_header env)))) (\<lambda>d.
          case d of
            Inl e \<Rightarrow>
              if de_pqxdh env \<noteq> None \<and> ls_receivedOk s then ret AdoptHandshake
              else if de_pqxdh env \<noteq> None then andThen (ackDelivered E messageId) (ret Finished)
              else await (cryptoEngineHealthy E mc me) (\<lambda>ok. if \<not> ok then throw e else
                andThen (whenM verified (noteUndecryptable E senderId messageId anchor))
                  (andThen (ackDelivered E messageId) (ret Finished)))
          | Inr dec \<Rightarrow>
              andThen (saveRatchetState E senderId (rd_newState dec)) (
              andThen (whenM (\<not> ls_receivedOk s) (markSessionReceived senderId)) (
              ret (Plain (rd_plaintext dec))))))"

text \<open>The handshake may target our signed prekey or a retired one: try each.\<close>

fun tryPrekeys ::
  "MessageCryptoApi \<Rightarrow> IdentityBundle \<Rightarrow> PqxdhInitWire \<Rightarrow> bytes \<Rightarrow> DecodedEnvelope \<Rightarrow> error \<Rightarrow> (bytes \<times> bytes) list \<Rightarrow>
   (error + RatchetDecrypted) act" where
  "tryPrekeys mc me pq opkPriv env lastErr [] = ret (Inl lastErr)"
| "tryPrekeys mc me pq opkPriv env lastErr ((pub, priv) # spks) =
     await (attempt
       (await (ext (\<lambda>t. mc_pqxdhRespond mc t
          \<lparr>pq_alice_ik_pub = alice_ik_pub pq, pq_alice_ek_pub = alice_ek_pub pq, pq_kyber_ciphertext = kyber_ciphertext pq,
           pq_opk_used = opk_used pq\<rparr> (x25519_priv (b_identity me)) priv opkPriv (kyber1024_priv (b_identity me)))) (\<lambda>shared.
        await (ext (\<lambda>t. mc_ratchetInitBob mc t shared priv pub)) (\<lambda>bobState.
        ext (\<lambda>t. mc_ratchetDecrypt mc t bobState (de_ciphertext env) (de_header env)))))) (\<lambda>r.
     case r of Inr dec \<Rightarrow> ret (Inr dec) | Inl e \<Rightarrow> tryPrekeys mc me pq opkPriv env e spks)"

definition heldSpks :: "IdentityBundle \<Rightarrow> (bytes \<times> bytes) list" where
  "heldSpks me = (kp_pub (b_spk me), kp_priv (b_spk me)) #
     map (\<lambda>k. (rs_pub k, rs_priv k)) (orElse (b_prevSpks me) [])"

definition opkPrivFor :: "IdentityBundle \<Rightarrow> PqxdhInitWire \<Rightarrow> bytes" where
  "opkPrivFor me pq =
     (if opk_used pq \<and> opk_id pq \<noteq> 0
      then (case List.find (\<lambda>k. pk_id k = opk_id pq) (b_opks me) of None \<Rightarrow> [] | Some k \<Rightarrow> pk_priv k) else [])"

definition forgetOpk :: "env \<Rightarrow> IdentityBundle \<Rightarrow> PqxdhInitWire \<Rightarrow> unit act" where
  "forgetOpk E me pq =
     (let me' = me\<lparr>b_opks := filter (\<lambda>k. pk_id k \<noteq> opk_id pq) (b_opks me)\<rparr> in
      whenM (opk_used pq \<and> list_ex (\<lambda>k. pk_id k = opk_id pq) (b_opks me)) (
      andThen (modify (\<lambda>w. w\<lparr>bundleCache := Some me'\<rparr>)) (
      andThen (ignoreErrors (saveBundle E me')) (
      whenM (length (b_opks me') < OPK_LOW_WATER) (spawn (TPrekeyUpkeep False))))))"

definition adoptHandshake ::
  "env \<Rightarrow> MessageCryptoApi \<Rightarrow> IdentityBundle \<Rightarrow> string \<Rightarrow> int option \<Rightarrow> SealedOpened \<Rightarrow> bool \<Rightarrow> DecodedEnvelope \<Rightarrow>
   ContactStatus option \<Rightarrow> PqxdhInitWire \<Rightarrow> sessionStep act" where
  "adoptHandshake E mc me messageId anchor opened keyChanged env priorStatus pq =
     (let senderId = so_senderId opened; ek = toHex (alice_ek_pub pq) in
      await (dbGets (\<lambda>d. tget (handshakes_tbl d) ek)) (\<lambda>seen.
      if seen \<noteq> None then andThen (ackDelivered E messageId) (ret Finished) else
      await (tryPrekeys mc me pq (opkPrivFor me pq) env (JsError []) (heldSpks me)) (\<lambda>d.
      case d of
        Inl lastErr \<Rightarrow>
          await (cryptoEngineHealthy E mc me) (\<lambda>ok. if \<not> ok then throw lastErr else
          andThen (whenM (priorStatus \<noteq> None) (noteUndecryptable E senderId messageId anchor))
            (andThen (ackDelivered E messageId) (ret Finished)))
      | Inr dec \<Rightarrow>
          andThen (createInboundSession E senderId (rd_newState dec)) (
          andThen (upsertInboundContact E senderId (if keyChanged then [] else so_senderEdPub opened) (alice_ik_pub pq)) (
          andThen (emit EvContacts) (
          await (nowSecs E) (\<lambda>t.
          andThen (dbModify (handshakes_tbl_update (tput ek \<lparr>hs_ek = ek, hs_at = t\<rparr>))) (
          andThen (forgetOpk E me pq) (ret (Plain (rd_plaintext dec))))))))))) "

text \<open>Pick the session: adopt the handshake if there is no established session or the sender
  is the canonical initiator; else decrypt on the session we hold, which may find that the peer
  started over.\<close>

definition decryptDelivery ::
  "env \<Rightarrow> MessageCryptoApi \<Rightarrow> IdentityBundle \<Rightarrow> string \<Rightarrow> int option \<Rightarrow> SealedOpened \<Rightarrow> bool \<Rightarrow> bool \<Rightarrow> DecodedEnvelope \<Rightarrow>
   ContactStatus option \<Rightarrow> sessionStep act" where
  "decryptDelivery E mc me messageId anchor opened keyChanged verified env priorStatus =
     (let senderId = so_senderId opened in
      await (loadSession E senderId) (\<lambda>existing.
      (let established = (case existing of None \<Rightarrow> False | Some s \<Rightarrow> ls_pqxdhInit s = None);
           adopt = (de_pqxdh env \<noteq> None \<and> (\<not> established \<or> senderId < b_userId me)) in
       await (if adopt then ret AdoptHandshake else useSession E mc me messageId anchor senderId verified env existing) (\<lambda>st.
       if st = AdoptHandshake then adoptHandshake E mc me messageId anchor opened keyChanged env priorStatus (the (de_pqxdh env))
       else ret st))))"

section \<open>Content\<close>

definition incomingStatus :: "bool \<Rightarrow> bool \<Rightarrow> string" where
  "incomingStatus keyChanged verified =
     (if keyChanged then ''received-key-changed'' else if verified then ''received'' else ''received-unverified'')"

definition incomingRow ::
  "WSMessage \<Rightarrow> string \<Rightarrow> int \<Rightarrow> int option \<Rightarrow> int \<Rightarrow> string \<Rightarrow> string \<Rightarrow> kind \<Rightarrow> ReceiptRequestWire option \<Rightarrow> PlainMessage" where
  "incomingRow ws senderId ts anchor created stored status kd rr =
     \<lparr>p_msg_id = ws_message_id ws, p_session_id = senderId, p_content = stored, p_timestamp = ts, p_status = status,
      p_direction = DirIn, p_kind = kd, p_receipt_token = map_option rr_tokenId rr,
      p_receipt_read_wanted = Some (case rr of None \<Rightarrow> False | Some r \<Rightarrow> rr_requestRead r),
      p_receipt_read_done = Some False, p_server_anchor = anchor, p_created_at = created\<rparr>"

definition storeIncoming ::
  "env \<Rightarrow> WSMessage \<Rightarrow> int option \<Rightarrow> string \<Rightarrow> string \<Rightarrow> string \<Rightarrow> kind \<Rightarrow> int \<Rightarrow> ReceiptRequestWire option \<Rightarrow> unit act" where
  "storeIncoming E ws anchor senderId status stored kd sentAt rr =
     await (if sentAt \<noteq> 0 then ret sentAt else if ws_queued_at ws \<noteq> 0 then ret (ws_queued_at ws) else nowSecs E) (\<lambda>ts.
     await (dateNow E) (\<lambda>created.
     (let row = incomingRow ws senderId ts anchor created stored status kd rr in
      andThen (messages_add E row) (
      andThen (spawn (TBackup row)) (
      andThen (case rr of None \<Rightarrow> ret ()
               | Some r \<Rightarrow> whenM (rr_requestDelivery r) (queueDeliveryReceipt E senderId (rr_tokenId r))) (
      andThen (ackDelivered E (ws_message_id ws)) (emit (EvMessage senderId))))))))"

definition handleContent ::
  "env \<Rightarrow> MessageCryptoApi \<Rightarrow> IdentityBundle \<Rightarrow> WSMessage \<Rightarrow> int option \<Rightarrow> string \<Rightarrow> bool \<Rightarrow> bool \<Rightarrow> ContactStatus option \<Rightarrow>
   bytes \<Rightarrow> unit act" where
  "handleContent E mc me ws anchor senderId keyChanged verified priorStatus plaintextBytes =
     (case decodeContent E plaintextBytes of
        Inl _ \<Rightarrow> andThen (noteUndecryptable E senderId (ws_message_id ws) anchor) (ackDelivered E (ws_message_id ws))
      | Inr content \<Rightarrow>
        if dc_contactHello content then
          andThen (if priorStatus = Some PendingOutbound then acceptContactRequest E mc senderId
                   else if priorStatus = Some Accepted \<and> verified then ignoreErrors (sendContactAccept E mc senderId)
                   else ret ()) (
          andThen (ackDelivered E (ws_message_id ws)) (emit EvContacts))
        else if dc_contactAccept content then
          andThen (whenM (priorStatus = Some PendingOutbound) (acceptContact E senderId)) (
          andThen (ackDelivered E (ws_message_id ws)) (emit EvContacts))
        else case dc_receipt content of
          Some r \<Rightarrow> andThen (applyIncomingReceipt senderId (dr_tokenId r) (dr_type r)) (ackDelivered E (ws_message_id ws))
        | None \<Rightarrow>
          andThen (whenM ((dc_file content \<noteq> None \<or> dc_text content \<noteq> None) \<and> priorStatus = Some PendingOutbound \<and> verified)
                     (acceptContact E senderId)) (
          case (dc_file content, dc_text content) of
            (Some f, _) \<Rightarrow>
              await (attempt (materializeIncoming E (workerFileCrypto E) f (x25519_priv (b_identity me)))) (\<lambda>m.
              case m of
                Inl _ \<Rightarrow> andThen (noteUndecryptable E senderId (ws_message_id ws) anchor) (ackDelivered E (ws_message_id ws))
              | Inr meta \<Rightarrow> storeIncoming E ws anchor senderId (incomingStatus keyChanged verified)
                             (stringify (metaJson meta)) KFile (ff_sentAt f) (dc_receiptRequest content))
          | (None, Some t) \<Rightarrow> storeIncoming E ws anchor senderId (incomingStatus keyChanged verified)
                               (dt_body t) KText (dt_sentAt t) (dc_receiptRequest content)
          | (None, None) \<Rightarrow> ackDelivered E (ws_message_id ws)))"

section \<open>Receiving\<close>

definition bound :: "bool \<Rightarrow> SealedOpened \<Rightarrow> PqxdhInitWire \<Rightarrow> bool" where
  "bound verified opened pq \<longleftrightarrow> verified \<and> length (so_senderX25519Pub opened) = 32 \<and>
     toHex (so_senderX25519Pub opened) = toHex (alice_ik_pub pq)"

definition dispatch ::
  "env \<Rightarrow> MessageCryptoApi \<Rightarrow> IdentityBundle \<Rightarrow> WSMessage \<Rightarrow> int option \<Rightarrow> SealedOpened \<Rightarrow> DecodedEnvelope \<Rightarrow> unit act" where
  "dispatch E mc me ws anchor opened env =
     (let senderId = so_senderId opened; messageId = ws_message_id ws in
      await (isKeyChanged senderId (so_senderEdPub opened)) (\<lambda>keyChanged.
      (let verified = (so_senderVerified opened \<and> \<not> keyChanged) in
       case de_deviceSync env of Some sync \<Rightarrow> receiveSync E me messageId opened sync | None \<Rightarrow>
       await (isBlocked E senderId) (\<lambda>blocked. if blocked then ackDelivered E messageId else
       if (case de_pqxdh env of None \<Rightarrow> False | Some pq \<Rightarrow> \<not> bound verified opened pq) then ackDelivered E messageId else
       await (getContact E senderId) (\<lambda>prior.
       (let priorStatus = map_option pc_status prior in
        await (decryptDelivery E mc me messageId anchor opened keyChanged verified env priorStatus) (\<lambda>st.
        case st of
          Plain p \<Rightarrow> handleContent E mc me ws anchor senderId keyChanged verified priorStatus p
        | _ \<Rightarrow> ret ())))))))"

definition receiveMessage :: "env \<Rightarrow> MessageCryptoApi \<Rightarrow> verifyEd25519 \<Rightarrow> WSMessage \<Rightarrow> unit act" where
  "receiveMessage E mc verifyTime ws =
     await (dbGets (\<lambda>d. tget (received_tbl d) (ws_message_id ws))) (\<lambda>seen.
     if seen \<noteq> None then await token (\<lambda>tok. andThen (ackMessages E [ws_message_id ws] tok) (ret ())) else
     await (checkDeliveryTime E ws verifyTime) (\<lambda>time.
     await (myBundle E) (\<lambda>me.
     await (liftE (b64decode (ws_content ws))) (\<lambda>blob.
     await (case tv_anchor time of Some a \<Rightarrow> ret a | None \<Rightarrow> nowSecs E) (\<lambda>certCheckTime.
     await (attempt (openSealed E mc me blob certCheckTime)) (\<lambda>o1.
     case o1 of
       Inl e \<Rightarrow> await (cryptoEngineHealthy E mc me) (\<lambda>ok. if \<not> ok then throw e else ackDelivered E (ws_message_id ws))
     | Inr oe \<Rightarrow> dispatch E mc me ws (tv_anchor time) (fst oe) (snd oe)))))))"

section \<open>What each stage adds to the log\<close>

lemma keeps_off_tv: "keeps offline (checkDeliveryTime E ws v)"
proof (rule keepsI)
  fix w
  obtain res w' where "checkDeliveryTime E ws v w = (Inr res, w')" "clockStep w w'" using checkDeliveryTime_run by blast
  then show "offline w (snd (checkDeliveryTime E ws v w))" using clockStepD(5) [of w w'] by (simp add: offline_def)
qed

lemma keeps_cm_healthy: "keeps calm (cryptoEngineHealthy E mc me)"
  unfolding cryptoEngineHealthy_def by (intro cm.keeps_rules keeps_cm_myCert keeps_cm_quiet keeps_intro)

lemma keeps_off_note: "keeps offline (noteUndecryptable E p i a)"
  unfolding noteUndecryptable_def
  by (intro off.keeps_rules keeps_off_prims keeps_off_messages_add keeps_off_quiet keeps_intro)

lemma keeps_off_saveBundle: "keeps offline (saveBundle E b)"
  unfolding saveBundle_def writeBundle_def by (intro off.keeps_rules keeps_off_prims keeps_off_quiet keeps_intro)

lemma keeps_off_forgetOpk: "keeps offline (forgetOpk E me pq)"
  unfolding forgetOpk_def Let_def
  by (intro off.keeps_rules off.keeps_modify keeps_off_prims keeps_off_ignore keeps_off_saveBundle) (simp add: offline_def)

lemma keeps_off_apply: "keeps offline (applyIncomingReceipt s t ty)"
  unfolding applyIncomingReceipt_def deliveryReceiptsEnabled_def readReceiptsEnabled_def flag_def
  by (intro off.keeps_rules keeps_off_prims keeps_off_quiet keeps_intro)

lemma keeps_off_queue: "keeps offline (queueDeliveryReceipt E s t)"
  unfolding queueDeliveryReceipt_def queueReceipt_def deliveryReceiptsEnabled_def receiptPrivacyDelayEnabled_def flag_def
  by (intro off.keeps_rules keeps_off_prims keeps_off_quiet keeps_intro)

lemma keeps_off_deviceId: "keeps offline (myDeviceId E)"
  unfolding myDeviceId_def by (intro off.keeps_rules keeps_off_prims keeps_off_quiet keeps_intro)

lemma keeps_off_applySync: "keeps offline (applySyncRecord E r)"
  unfolding applySyncRecord_def by (intro off.keeps_rules keeps_off_prims keeps_off_messages_add keeps_off_quiet keeps_intro)

lemma keeps_off_attempt: "keeps offline m \<Longrightarrow> keeps offline (attempt m)"
  by (auto simp: keeps_def attempt_def split: prod.splits) (metis snd_conv)

lemma keeps_off_tryPrekeys: "keeps offline (tryPrekeys mc me pq opk env e spks)"
proof (induction mc me pq opk env e spks rule: tryPrekeys.induct)
  case (1 mc me pq opk env e)
  show ?case unfolding tryPrekeys.simps by (rule off.keeps_ret)
next
  case (2 mc me pq opk env e pub priv spks)
  have "keeps offline (case r of Inr dec \<Rightarrow> ret (Inr dec) | Inl e' \<Rightarrow> tryPrekeys mc me pq opk env e' spks)" for r
    by (cases r) (auto simp: off.keeps_ret intro: 2)
  then show ?case
    unfolding tryPrekeys.simps
    by (intro off.keeps_await keeps_off_attempt keeps_off_quiet [OF keeps_ext])
qed

lemma keeps_off_openSealed: "keeps offline (openSealed E mc me b t)"
  unfolding openSealed_def by (intro off.keeps_rules keeps_off_quiet keeps_intro)

text \<open>Sending a control message.\<close>

lemma keeps_gr_startSession: "keeps grows (startSession E cc px)"
proof -
  have p: "keeps grows (solveServerPow E s)" for s
    unfolding solveServerPow_def powChallenge_def
    by (intro gr.keeps_rules keeps_gr_api keeps_gr_off keeps_off_typed keeps_off_quiet keeps_intro)
  have f: "keeps grows (fetchKeyBundle E x y)" for x y
    unfolding fetchKeyBundle_def by (intro gr.keeps_rules keeps_gr_api keeps_gr_off keeps_off_typed)
  have a: "keeps grows (adoptVerified E cc px me v)" for me v
    unfolding adoptVerified_def by (intro keeps_gr_off off.keeps_rules keeps_off_sessions keeps_off_quiet keeps_intro)
  show ?thesis
    unfolding startSession_def
    by (intro gr.keeps_rules p f a keeps_gr_off [OF keeps_off_quiet [OF keeps_loadBundle]]
          keeps_gr_off [OF keeps_off_quiet [OF keeps_ext]])
qed

lemma keeps_gr_sessionFor: "keeps grows (sessionFor E p)"
  unfolding sessionFor_def
  by (intro gr.keeps_rules keeps_gr_startSession keeps_gr_off [OF keeps_off_quiet [OF keeps_loadSession]])

lemma keeps_gr_postOrPark: "keeps grows (postOrPark E p b l v t)"
proof (rule keepsI)
  fix w
  show "grows w (snd (postOrPark E p b l v t w))"
    using sendOutcome_state(5) [of E p b t w]
    by (fastforce simp: grows_def run_postOrPark run_park split: prod.splits sum.splits)
qed

lemma keeps_gr_sealAndSend: "keeps grows (sealAndSend E mc p c st ttl)"
  unfolding sealAndSend_def Let_def
  by (intro gr.keeps_rules keeps_gr_sessionFor keeps_gr_postOrPark keeps_gr_off [OF keeps_off_sealMessage]
        keeps_gr_off [OF keeps_off_storeSent] keeps_gr_off [OF keeps_off_calm [OF keeps_cm_myBundle]]
        keeps_gr_off [OF keeps_off_quiet [OF keeps_sendTarget]] keeps_gr_off [OF keeps_off_quiet [OF keeps_nowSecs]]
        keeps_gr_off [OF keeps_off_quiet [OF keeps_uuid]])

lemma keeps_gr_ignore: "keeps grows m \<Longrightarrow> keeps grows (ignoreErrors m)"
  unfolding ignoreErrors_def by (intro gr.keeps_rules)

lemma keeps_gr_accept: "keeps grows (sendContactAccept E mc p)" "keeps grows (acceptContactRequest E mc p)"
  unfolding acceptContactRequest_def sendContactAccept_def
  by (intro gr.keeps_rules keeps_gr_ignore keeps_gr_sealAndSend keeps_gr_off [OF keeps_off_quiet [OF keeps_nowSecs]]
        keeps_gr_off [OF keeps_off_accept(1)])+

section \<open>Every handled delivery is acknowledged, last\<close>

text \<open>The run made the acknowledgement as its last request, and the database it was sent from is
  the final one: nothing the delivery changed was stored only afterwards.\<close>

definition endsAcked :: "env \<Rightarrow> string \<Rightarrow> world \<Rightarrow> world \<Rightarrow> bool" where
  "endsAcked E i w w' \<longleftrightarrow>
     (\<exists>ys tok. netlog w' = netlog w @ ys @ [(ack_req E [i] tok, idb w')]) \<and> tget (received_tbl (idb w')) i \<noteq> None"

definition fin :: "env \<Rightarrow> string \<Rightarrow> 'a act \<Rightarrow> bool" where
  "fin E i m \<longleftrightarrow> (\<forall>w x w'. m w = (Inr x, w') \<longrightarrow> endsAcked E i w w')"

lemma grows_endsAcked: "grows w w1 \<Longrightarrow> endsAcked E i w1 w' \<Longrightarrow> endsAcked E i w w'"
  by (auto simp: grows_def endsAcked_def)

lemma fin_await: "keeps grows m \<Longrightarrow> (\<And>x. fin E i (k x)) \<Longrightarrow> fin E i (await m k)"
  unfolding fin_def by (auto elim!: await_Inr_cases dest: keepsD intro: grows_endsAcked)

lemma fin_andThen: "keeps grows m \<Longrightarrow> fin E i k \<Longrightarrow> fin E i (andThen m k)"
  unfolding andThen_def by (rule fin_await)

lemma fin_if: "(b \<Longrightarrow> fin E i m) \<Longrightarrow> (\<not> b \<Longrightarrow> fin E i m') \<Longrightarrow> fin E i (if b then m else m')"
  by simp

lemma fin_throw: "fin E i (throw e)"
  by (simp add: fin_def)

lemma ackMessages_log: "ackMessages E [i] tok w = (r, w') \<Longrightarrow> w' = afterReq (ack_req E [i] tok) w"
  using ackMessages_state by (metis snd_conv)

lemma fin_ack: "fin E i (ackDelivered E i)"
  unfolding fin_def
proof (intro allI impI)
  fix w w' :: world and x
  let ?w1 = "w\<lparr>tick := Suc (tick w), idb := received_tbl_update (tput i \<lparr>rv_message_id = i, rv_at = date_now E (tick w) div 1000\<rparr>) (idb w)\<rparr>"
  assume "ackDelivered E i w = (Inr x, w')"
  then have "await token (\<lambda>tok. andThen (ackMessages E [i] tok) (ret ())) ?w1 = (Inr x, w')"
    by (simp add: ackDelivered_def)
  then obtain tok where "andThen (ackMessages E [i] tok) (ret ()) ?w1 = (Inr x, w')"
    by (auto simp: run_token elim!: await_Inr_cases split: if_splits)
  then have "w' = afterReq (ack_req E [i] tok) ?w1"
    unfolding andThen_def by (auto dest: ackMessages_log elim!: await_Inr_cases)
  then show "endsAcked E i w w'" by (auto simp: endsAcked_def)
qed

lemma fin_ack_emit: "fin E i (andThen (ackDelivered E i) (emit ev))"
  using fin_ack [of E i] unfolding fin_def andThen_def endsAcked_def by (fastforce elim!: await_Inr_cases)

lemma fin_ack_ret: "fin E i (andThen (ackDelivered E i) (ret y))"
  using fin_ack [of E i] unfolding fin_def andThen_def endsAcked_def by (fastforce elim!: await_Inr_cases)

lemmas fin_rules = fin_await fin_andThen fin_if fin_throw fin_ack fin_ack_emit fin_ack_ret

lemma fin_storeIncoming: "fin E (ws_message_id ws) (storeIncoming E ws a s st c k sa rr)"
  unfolding storeIncoming_def Let_def
  by (intro fin_rules gr.keeps_rules keeps_gr_off off.keeps_rules keeps_off_prims keeps_off_messages_add keeps_off_queue
        keeps_off_quiet keeps_intro)

lemma fin_handleContent: "fin E (ws_message_id ws) (handleContent E mc me ws a s kc v p b)"
proof -
  let ?i = "ws_message_id ws"
  have note_ack: "fin E ?i (andThen (noteUndecryptable E s ?i a) (ackDelivered E ?i))"
    by (intro fin_andThen fin_ack keeps_gr_off keeps_off_note)
  have stored: "fin E ?i (await (attempt (materializeIncoming E fc f pr)) (\<lambda>m. case m of
       Inl _ \<Rightarrow> andThen (noteUndecryptable E s ?i a) (ackDelivered E ?i)
     | Inr meta \<Rightarrow> storeIncoming E ws a s st (stringify (metaJson meta)) KFile sa rr))" for fc f pr st sa rr
  proof (rule fin_await)
    show "keeps grows (attempt (materializeIncoming E fc f pr))"
      by (intro keeps_gr_off keeps_off_attempt keeps_off_quiet keeps_intro)
  qed (auto split: sum.split intro: note_ack fin_storeIncoming)
  have acc: "keeps grows (whenM c (acceptContact E s))" for c
    by (intro gr.keeps_whenM keeps_gr_off keeps_off_accept)
  have hello: "keeps grows (if p = Some PendingOutbound then acceptContactRequest E mc s
      else if p = Some Accepted \<and> v then ignoreErrors (sendContactAccept E mc s) else ret ())"
    by (intro gr.keeps_if gr.keeps_ret keeps_gr_accept keeps_gr_ignore)
  show ?thesis
  proof (cases "decodeContent E b")
    case (Inl e)
    then show ?thesis by (simp add: handleContent_def note_ack)
  next
    case (Inr c)
    show ?thesis
      unfolding handleContent_def Inr sum.case
      by (cases "dc_receipt c"; cases "dc_file c"; cases "dc_text c")
        (simp_all only: option.case prod.case, (intro fin_if fin_andThen hello acc keeps_gr_off [OF keeps_off_apply]
          fin_ack fin_ack_emit stored fin_storeIncoming)+)
  qed
qed

text \<open>A stage that hands on has only added to the log; a stage that finished has acknowledged.\<close>

definition finStep :: "env \<Rightarrow> string \<Rightarrow> sessionStep act \<Rightarrow> bool" where
  "finStep E i m \<longleftrightarrow> keeps grows m \<and> (\<forall>w w'. m w = (Inr Finished, w') \<longrightarrow> endsAcked E i w w')"

lemma finStep_await: "keeps grows m \<Longrightarrow> (\<And>x. finStep E i (k x)) \<Longrightarrow> finStep E i (await m k)"
  unfolding finStep_def by (auto elim!: await_Inr_cases dest: keepsD intro: grows_endsAcked gr.keeps_await)

lemma finStep_andThen: "keeps grows m \<Longrightarrow> finStep E i k \<Longrightarrow> finStep E i (andThen m k)"
  unfolding andThen_def by (rule finStep_await)

lemma finStep_if: "(b \<Longrightarrow> finStep E i m) \<Longrightarrow> (\<not> b \<Longrightarrow> finStep E i m') \<Longrightarrow> finStep E i (if b then m else m')"
  by simp

lemma finStep_ret: "st \<noteq> Finished \<Longrightarrow> finStep E i (ret st)"
  by (simp add: finStep_def gr.keeps_ret)

lemma finStep_throw: "finStep E i (throw e)"
  by (simp add: finStep_def gr.keeps_throw)

lemma keeps_gr_token: "keeps grows token"
  by (simp add: keeps_def grows_def run_token)

lemma keeps_gr_ack: "keeps grows (ackDelivered E i)"
proof -
  have "keeps grows (ackMessages E [i] tok)" for tok
    unfolding ackMessages_def by (intro gr.keeps_rules keeps_gr_api keeps_gr_off keeps_off_typed)
  then show ?thesis
    unfolding ackDelivered_def
    by (intro gr.keeps_rules keeps_gr_off [OF keeps_off_prims(1)] keeps_gr_off [OF keeps_off_quiet [OF keeps_nowSecs]]
          keeps_gr_token)
qed

lemma finStep_ack: "finStep E i (andThen (ackDelivered E i) (ret Finished))"
  using fin_ack_ret [of E i Finished] unfolding finStep_def fin_def
  by (auto intro: gr.keeps_andThen keeps_gr_ack gr.keeps_ret)

lemmas finStep_rules = finStep_await finStep_andThen finStep_if finStep_throw finStep_ack

lemma keeps_gr_healthy: "keeps grows (cryptoEngineHealthy E mc me)"
  by (intro keeps_gr_off keeps_off_calm keeps_cm_healthy)

lemma keeps_gr_note: "keeps grows (whenM c (noteUndecryptable E p i a))"
  by (intro gr.keeps_whenM keeps_gr_off keeps_off_note)

lemma finStep_useSession: "finStep E i (useSession E mc me i a s v env existing)"
proof (cases existing)
  case None
  then show ?thesis by (simp add: useSession_def finStep_ack)
next
  case (Some se)
  have "finStep E i (case d of
            Inl e \<Rightarrow>
              if de_pqxdh env \<noteq> None \<and> ls_receivedOk se then ret AdoptHandshake
              else if de_pqxdh env \<noteq> None then andThen (ackDelivered E i) (ret Finished)
              else await (cryptoEngineHealthy E mc me) (\<lambda>ok. if \<not> ok then throw e else
                andThen (whenM v (noteUndecryptable E s i a)) (andThen (ackDelivered E i) (ret Finished)))
          | Inr dec \<Rightarrow>
              andThen (saveRatchetState E s (rd_newState dec)) (
              andThen (whenM (\<not> ls_receivedOk se) (markSessionReceived s)) (ret (Plain (rd_plaintext dec)))))" for d
    by (cases d) (simp_all only: sum.case, (intro finStep_rules finStep_ret keeps_gr_healthy keeps_gr_note
          keeps_gr_off [OF keeps_off_sessions(1)] gr.keeps_whenM keeps_gr_off [OF keeps_off_sessions(3)] sessionStep.distinct)+)
  then show ?thesis
    unfolding useSession_def Some option.case
    by (intro finStep_await keeps_gr_off keeps_off_attempt keeps_off_quiet [OF keeps_ext])
qed

lemma finStep_adoptHandshake: "finStep E i (adoptHandshake E mc me i a opened kc env ps pq)"
proof -
  have "finStep E i (case d of
        Inl lastErr \<Rightarrow>
          await (cryptoEngineHealthy E mc me) (\<lambda>ok. if \<not> ok then throw lastErr else
          andThen (whenM (ps \<noteq> None) (noteUndecryptable E (so_senderId opened) i a))
            (andThen (ackDelivered E i) (ret Finished)))
      | Inr dec \<Rightarrow>
          andThen (createInboundSession E (so_senderId opened) (rd_newState dec)) (
          andThen (upsertInboundContact E (so_senderId opened) (if kc then [] else so_senderEdPub opened) (alice_ik_pub pq)) (
          andThen (emit EvContacts) (
          await (nowSecs E) (\<lambda>t.
          andThen (dbModify (handshakes_tbl_update (tput ek \<lparr>hs_ek = ek, hs_at = t\<rparr>))) (
          andThen (forgetOpk E me pq) (ret (Plain (rd_plaintext dec)))))))))" for d ek
    by (cases d) (simp_all only: sum.case, (intro finStep_rules finStep_ret keeps_gr_healthy keeps_gr_note
          keeps_gr_off [OF keeps_off_sessions(4)] keeps_gr_off [OF keeps_off_accept(2)] keeps_gr_off [OF keeps_off_prims(2)]
          keeps_gr_off [OF keeps_off_prims(1)] keeps_gr_off [OF keeps_off_forgetOpk]
          keeps_gr_off [OF keeps_off_quiet [OF keeps_nowSecs]] sessionStep.distinct)+)
  then show ?thesis
    unfolding adoptHandshake_def Let_def
    by (intro finStep_await finStep_if finStep_ack keeps_gr_off [OF keeps_off_tryPrekeys]
          keeps_gr_off [OF keeps_off_quiet [OF keeps_dbGets]])
qed

lemma finStep_decryptDelivery: "finStep E i (decryptDelivery E mc me i a opened kc v env ps)"
proof -
  have "finStep E i (await m (\<lambda>st. if st = AdoptHandshake then adoptHandshake E mc me i a opened kc env ps pq else ret st))"
    if "finStep E i m" for m pq
  proof -
    note adopt = finStep_adoptHandshake [of E i mc me a opened kc env ps pq]
    have "endsAcked E i w w'" if "m w = (Inr st, w1)"
      "(if st = AdoptHandshake then adoptHandshake E mc me i a opened kc env ps pq else ret st) w1 = (Inr Finished, w')"
      for w w1 w' st
      using that \<open>finStep E i m\<close> adopt grows_endsAcked keepsD [where R = grows and m = m, OF _ that(1)]
      by (cases "st = AdoptHandshake") (auto simp: finStep_def)
    then show ?thesis
      using \<open>finStep E i m\<close> adopt unfolding finStep_def
      by (auto elim!: await_Inr_cases intro!: gr.keeps_await gr.keeps_ret)
  qed
  then show ?thesis
    unfolding decryptDelivery_def Let_def
    by (intro finStep_await [OF keeps_gr_off [OF keeps_off_quiet [OF keeps_loadSession]]])
      (auto intro: finStep_useSession finStep_ret)
qed

end
