(* ===== verification/KeyWatch.thy ===== *)
theory KeyWatch
  imports Identity Api
begin

text \<open>
  The account-key watch (\<^verbatim>\<open>services/key-watch.ts\<close>): a signed prekey the server reports
  for this account that this device never made, but that carries the account's signature, means
  another device holds the account. \<open>Set\<close> is a list in insertion order.
\<close>

definition knownKey :: "string \<Rightarrow> string" where "knownKey userId = ''known_spks:'' @ userId"
definition alertKey :: "string \<Rightarrow> string" where "alertKey userId = ''key_alert:'' @ userId"

record KeyWatchDeps =
  kw_loadBundle :: "IdentityBundle option act"
  kw_verifyHybrid :: "nat \<Rightarrow> bytes \<Rightarrow> bytes \<Rightarrow> bytes \<Rightarrow> bytes \<Rightarrow> bytes \<Rightarrow> error + bool"

definition workerDeps :: "env \<Rightarrow> KeyWatchDeps" where
  "workerDeps E = \<lparr>kw_loadBundle = loadBundle E, kw_verifyHybrid = (\<lambda>t. w_verify_hybrid (wasm E))\<rparr>"

definition setAdd :: "'a list \<Rightarrow> 'a \<Rightarrow> 'a list" where
  "setAdd s x = (if x \<in> set s then s else s @ [x])"

definition newSet :: "json option \<Rightarrow> json list act" where
  "newSet v = (case v of None \<Rightarrow> ret [] | Some JNull \<Rightarrow> ret []
     | Some (JArr xs) \<Rightarrow> ret (foldl setAdd [] xs) | Some _ \<Rightarrow> throw (JsError ''TypeError''))"

definition knownKeys :: "string \<Rightarrow> json list act" where
  "knownKeys userId = await (settingGet (knownKey userId)) newSet"

definition ownSpks :: "IdentityBundle \<Rightarrow> json list" where
  "ownSpks me = map (\<lambda>k. JStr (toHex k)) (kp_pub (b_spk me) # map rs_pub (orElse (b_prevSpks me) []))"

text \<open>The key is not one of ours: is it signed by this account, and not yet reported?\<close>

definition alertForeign :: "KeyWatchDeps \<Rightarrow> IdentityBundle \<Rightarrow> AccountSpk \<Rightarrow> string \<Rightarrow> unit act" where
  "alertForeign deps me rep spk =
     await (ext (\<lambda>t. kw_verifyHybrid deps t (fromHex spk) (fromHex (as_spk_sig_ed rep)) (ed25519_pub (b_identity me))
              (fromHex (as_spk_sig_dil rep)) (dilithium3_pub (b_identity me)))) (\<lambda>signedByUs.
     if \<not> signedByUs then ret () else
     await (settingGet (alertKey (b_userId me))) (\<lambda>a.
     if a = Some (JStr spk) then ret () else
     andThen (settingPut (alertKey (b_userId me)) (JStr spk)) (emit EvKeyAlert)))"

definition checkAccountKeys :: "KeyWatchDeps \<Rightarrow> AccountSpk option \<Rightarrow> unit act" where
  "checkAccountKeys deps reply =
     (case reply of None \<Rightarrow> ret () | Some rep \<Rightarrow>
      ignoreErrors
        (await (kw_loadBundle deps) (\<lambda>b. case b of None \<Rightarrow> ret () | Some me \<Rightarrow>
         await (knownKeys (b_userId me)) (\<lambda>known0.
         (let mine = ownSpks me; known = foldl setAdd known0 mine; spk = toLower (as_spk_x25519 rep) in
          andThen (whenM (list_ex (\<lambda>k. k \<notin> set known0) mine) (settingPut (knownKey (b_userId me)) (JArr known)))
            (if JStr spk \<in> set known then ret () else alertForeign deps me rep spk))))))"

definition hasKeyAlert :: "string \<Rightarrow> bool act" where
  "hasKeyAlert userId = await (settingGet (alertKey userId)) (\<lambda>a. ret (jstr a \<noteq> None))"

definition dismissKeyAlert :: "string \<Rightarrow> unit act" where
  "dismissKeyAlert userId =
     await (settingGet (alertKey userId)) (\<lambda>a.
     andThen (case a of
         Some (JStr spk) \<Rightarrow>
           await (knownKeys userId) (\<lambda>known. settingPut (knownKey userId) (JArr (setAdd known (JStr spk))))
       | _ \<Rightarrow> ret ()) (
     andThen (settingDelete (alertKey userId)) (emit EvKeyAlert)))"

section \<open>Lemmas\<close>

lemma set_setAdd [simp]: "set (setAdd s x) = insert x (set s)"
  by (auto simp: setAdd_def)

lemma set_foldl_setAdd [simp]: "set (foldl setAdd s xs) = set s \<union> set xs"
  by (induction xs arbitrary: s) auto

lemma keys_distinct [simp]: "knownKey u \<noteq> alertKey v" "alertKey v \<noteq> knownKey u"
  by (auto simp: knownKey_def alertKey_def)

definition settingOf :: "privexDB \<Rightarrow> string \<Rightarrow> json option" where
  "settingOf d k = map_option st_value (tget (settings_tbl d) k)"

definition knownOf :: "privexDB \<Rightarrow> string \<Rightarrow> json set" where
  "knownOf d u = (case settingOf d (knownKey u) of Some (JArr xs) \<Rightarrow> set xs | _ \<Rightarrow> {})"

lemma settingOf_update [simp]: "settingOf (d\<lparr>settings_tbl := t\<rparr>) k = map_option st_value (tget t k)"
  by (simp add: settingOf_def)

lemma settingOf_fold: "map_option st_value (tget (settings_tbl d) k) = settingOf d k"
  by (simp add: settingOf_def)

lemma settingGet_settingOf: "settingGet k w = (Inr (settingOf (idb w) k), w)"
  by (simp add: settingOf_def)

lemma run_knownKeys:
  "knownKeys u w = (Inr ks, w') \<Longrightarrow> w' = w \<and> set ks = knownOf (idb w) u"
  by (auto simp: knownKeys_def newSet_def knownOf_def settingOf_def split: option.splits json.splits)

lemma knownKeys_state: "snd (knownKeys u w) = w"
  by (auto simp: knownKeys_def newSet_def split: option.splits json.splits)

text \<open>One run, after the identity was loaded. \<open>alarm\<close> is the condition of an alert.\<close>

definition alarm :: "KeyWatchDeps \<Rightarrow> nat \<Rightarrow> privexDB \<Rightarrow> IdentityBundle \<Rightarrow> AccountSpk \<Rightarrow> bool" where
  "alarm deps t d me rep \<longleftrightarrow>
     JStr (toLower (as_spk_x25519 rep)) \<notin> knownOf d (b_userId me) \<union> set (ownSpks me) \<and>
     kw_verifyHybrid deps t (fromHex (toLower (as_spk_x25519 rep))) (fromHex (as_spk_sig_ed rep)) (ed25519_pub (b_identity me))
       (fromHex (as_spk_sig_dil rep)) (dilithium3_pub (b_identity me)) = Inr True"

definition signedBy :: "KeyWatchDeps \<Rightarrow> nat \<Rightarrow> IdentityBundle \<Rightarrow> AccountSpk \<Rightarrow> string \<Rightarrow> bool" where
  "signedBy deps t me rep spk \<longleftrightarrow>
     kw_verifyHybrid deps t (fromHex spk) (fromHex (as_spk_sig_ed rep)) (ed25519_pub (b_identity me))
       (fromHex (as_spk_sig_dil rep)) (dilithium3_pub (b_identity me)) = Inr True"

lemma alertForeign_effect:
  assumes "alertForeign deps me rep spk w = (r, w')"
  shows "netlog w' = netlog w \<and> idb w' = (idb w)\<lparr>settings_tbl := settings_tbl (idb w')\<rparr> \<and>
    settingOf (idb w') (alertKey (b_userId me)) =
      (if signedBy deps (tick w) me rep spk then Some (JStr spk) else settingOf (idb w) (alertKey (b_userId me))) \<and>
    (\<forall>k. k \<noteq> alertKey (b_userId me) \<longrightarrow> settingOf (idb w') k = settingOf (idb w) k)"
proof (cases "kw_verifyHybrid deps (tick w) (fromHex spk) (fromHex (as_spk_sig_ed rep)) (ed25519_pub (b_identity me))
       (fromHex (as_spk_sig_dil rep)) (dilithium3_pub (b_identity me))")
  case (Inl e)
  then show ?thesis using assms by (auto simp: alertForeign_def signedBy_def)
next
  case (Inr b)
  show ?thesis
  proof (cases "b \<and> settingOf (idb w) (alertKey (b_userId me)) \<noteq> Some (JStr spk)")
    case True
    then show ?thesis using assms Inr by (auto simp: alertForeign_def signedBy_def settingGet_settingOf settingOf_fold simp del: run_settingGet)
  next
    case False
    have "(if \<not> b then ret () else await (settingGet (alertKey (b_userId me))) (\<lambda>a. if a = Some (JStr spk) then ret () else
        andThen (settingPut (alertKey (b_userId me)) (JStr spk)) (emit EvKeyAlert))) w1 = (Inr (), w1)"
      if "idb w1 = idb w" for w1
      using False that by (cases b) (simp_all add: settingGet_settingOf del: run_settingGet)
    then have "alertForeign deps me rep spk w = (Inr (), w\<lparr>tick := Suc (tick w)\<rparr>)"
      using Inr by (simp add: alertForeign_def del: run_settingGet)
    then have "w' = w\<lparr>tick := Suc (tick w)\<rparr>" using assms by simp
    then show ?thesis using False Inr by (cases b) (simp_all add: signedBy_def)
  qed
qed

lemma run_checkAccountKeys:
  assumes load: "kw_loadBundle deps w = (Inr (Some me), w0)" and known: "knownKeys (b_userId me) w0 = (Inr ks, w0)"
  shows "\<exists>w'. checkAccountKeys deps (Some rep) w = (Inr (), w') \<and> netlog w' = netlog w0 \<and>
     settingOf (idb w') (alertKey (b_userId me)) =
       (if alarm deps (tick w0) (idb w0) me rep then Some (JStr (toLower (as_spk_x25519 rep)))
        else settingOf (idb w0) (alertKey (b_userId me))) \<and>
     (\<forall>k. k \<noteq> alertKey (b_userId me) \<and> k \<noteq> knownKey (b_userId me) \<longrightarrow> settingOf (idb w') k = settingOf (idb w0) k) \<and>
     idb w' = (idb w0)\<lparr>settings_tbl := settings_tbl (idb w')\<rparr>"
proof -
  let ?u = "b_userId me" and ?spk = "toLower (as_spk_x25519 rep)"
  let ?ks = "foldl setAdd ks (ownSpks me)"
  define w1 where "w1 = (if list_ex (\<lambda>k. k \<notin> set ks) (ownSpks me) then snd (settingPut (knownKey ?u) (JArr ?ks) w0) else w0)"
  have put: "whenM (list_ex (\<lambda>k. k \<notin> set ks) (ownSpks me)) (settingPut (knownKey ?u) (JArr ?ks)) w0 = (Inr (), w1)"
    by (simp add: w1_def)
  have w1: "netlog w1 = netlog w0" "tick w1 = tick w0" "idb w1 = (idb w0)\<lparr>settings_tbl := settings_tbl (idb w1)\<rparr>"
    "\<And>k. k \<noteq> knownKey ?u \<Longrightarrow> settingOf (idb w1) k = settingOf (idb w0) k"
    by (simp_all add: w1_def settingOf_fold)
  have alarm: "alarm deps (tick w0) (idb w0) me rep \<longleftrightarrow> JStr ?spk \<notin> set ?ks \<and> signedBy deps (tick w1) me rep ?spk"
    using run_knownKeys [OF known] w1(2) by (auto simp: alarm_def signedBy_def)
  let ?tail = "if JStr ?spk \<in> set ?ks then ret () else alertForeign deps me rep ?spk"
  obtain r w' where tail: "?tail w1 = (r, w')" by fastforce
  have "checkAccountKeys deps (Some rep) w = (Inr (), w')"
    using load known put tail by (cases r) (simp_all add: checkAccountKeys_def ignoreErrors_def Let_def del: set_foldl_setAdd)
  moreover have "netlog w' = netlog w1" "idb w' = (idb w1)\<lparr>settings_tbl := settings_tbl (idb w')\<rparr>"
    "settingOf (idb w') (alertKey ?u) =
      (if JStr ?spk \<notin> set ?ks \<and> signedBy deps (tick w1) me rep ?spk then Some (JStr ?spk) else settingOf (idb w1) (alertKey ?u))"
    "\<And>k. k \<noteq> alertKey ?u \<Longrightarrow> settingOf (idb w') k = settingOf (idb w1) k"
    using tail alertForeign_effect [of deps me rep ?spk w1 r w'] by (auto split: if_splits simp del: set_foldl_setAdd)
  moreover have "idb w' = (idb w0)\<lparr>settings_tbl := settings_tbl (idb w')\<rparr>"
    using calculation(3) w1(3) by (metis privexDB.update_convs(7) privexDB.surjective)
  ultimately show ?thesis using w1 alarm by (auto simp del: set_foldl_setAdd)
qed

text \<open>Checking a reply never fails, makes no request, and touches only the account's own
  two settings. An alert is set exactly when the reported key is neither one this device holds
  or has held nor one the user confirmed, and it carries the hybrid signature of this very
  account; in particular a server can neither raise one with our own keys nor with a key it
  made up.\<close>

theorem checkAccountKeys_alerts_exactly:
  assumes load: "kw_loadBundle deps w = (Inr (Some me), w0)" "quiet w w0"
    and known: "\<exists>ks. settingOf (idb w) (knownKey (b_userId me)) \<in> {None, Some (JArr ks)}"
  shows "\<exists>w'. checkAccountKeys deps (Some rep) w = (Inr (), w') \<and> netlog w' = netlog w \<and>
     settingOf (idb w') (alertKey (b_userId me)) =
       (if alarm deps (tick w0) (idb w) me rep then Some (JStr (toLower (as_spk_x25519 rep)))
        else settingOf (idb w) (alertKey (b_userId me))) \<and>
     (\<forall>k. k \<noteq> alertKey (b_userId me) \<and> k \<noteq> knownKey (b_userId me) \<longrightarrow> settingOf (idb w') k = settingOf (idb w) k) \<and>
     idb w' = (idb w)\<lparr>settings_tbl := settings_tbl (idb w')\<rparr>"
proof -
  have d: "idb w0 = idb w" "netlog w0 = netlog w" using quietD [OF load(2)] by simp_all
  obtain ks where "knownKeys (b_userId me) w0 = (Inr ks, w0)"
    using known by (auto simp: knownKeys_def newSet_def d settingOf_def)
  from run_checkAccountKeys [OF load(1) this, of rep] show ?thesis unfolding d .
qed

text \<open>"That was me" is final: after the user dismissed the alert there is none, and the
  same key reported again raises none.\<close>

theorem dismissed_key_stays_silent:
  assumes alert: "settingOf (idb w) (alertKey u) = Some (JStr spk)"
    and known: "\<exists>ks. settingOf (idb w) (knownKey u) \<in> {None, Some (JArr ks)}"
    and load: "\<And>w1. kw_loadBundle deps w1 = (Inr (Some me), w1)" "b_userId me = u"
    and same: "toLower (as_spk_x25519 rep) = spk"
  shows "\<exists>w1 w2. dismissKeyAlert u w = (Inr (), w1) \<and> hasKeyAlert u w1 = (Inr False, w1) \<and>
     checkAccountKeys deps (Some rep) w1 = (Inr (), w2) \<and> hasKeyAlert u w2 = (Inr False, w2)"
proof -
  obtain ks where ks: "knownKeys u w = (Inr ks, w)"
    using known by (auto simp: knownKeys_def newSet_def settingOf_def)
  define w1 where "w1 = snd (dismissKeyAlert u w)"
  have w1: "dismissKeyAlert u w = (Inr (), w1)"
    "settingOf (idb w1) (alertKey u) = None" "settingOf (idb w1) (knownKey u) = Some (JArr (setAdd ks (JStr spk)))"
    using alert ks by (simp_all add: dismissKeyAlert_def w1_def settingGet_settingOf del: run_settingGet)
  obtain ks1 where ks1: "knownKeys u w1 = (Inr ks1, w1)"
    using w1(3) by (auto simp: knownKeys_def newSet_def settingOf_def)
  have "JStr spk \<in> knownOf (idb w1) u" using w1(3) by (simp add: knownOf_def)
  then have no: "\<not> alarm deps (tick w1) (idb w1) me rep" using load(2) same by (simp add: alarm_def)
  obtain w2 where "checkAccountKeys deps (Some rep) w1 = (Inr (), w2)" "settingOf (idb w2) (alertKey u) = None"
    using run_checkAccountKeys [OF load(1), of w1 ks1 rep] ks1 no load(2) w1(2) by auto
  then show ?thesis using w1 by (auto simp: hasKeyAlert_def settingGet_settingOf simp del: run_settingGet)
qed

end
