(* ===== verification/Delivery.thy ===== *)
theory Delivery
  imports Receiving KeyWatch
begin

text \<open>
  What \<open>receiveMessage\<close> promises of a delivery as a whole: it ends acknowledged and only
  after everything is stored, and a delivery that must be rejected leaves nothing behind.
\<close>

section \<open>Handled deliveries end acknowledged\<close>

text \<open>The one delivery that is left unacknowledged: our own sync copy for another device.\<close>

definition forOtherDevice :: "env \<Rightarrow> MessageCryptoApi \<Rightarrow> WSMessage \<Rightarrow> world \<Rightarrow> bool" where
  "forOtherDevice E mc ws w' \<longleftrightarrow>
     (\<exists>me blob t n opened env sync. bundleCache w' = Some me \<and> b64decode (ws_content ws) = Inr blob \<and>
        mc_sealedSenderDecrypt mc t blob (x25519_priv (b_identity me)) n = Inr opened \<and>
        decodeEnvelope E (so_plaintext opened) = Inr env \<and> de_deviceSync env = Some sync \<and>
        so_senderId opened = b_userId me \<and> so_senderVerified opened \<and>
        settingOf (idb w') DEVICE_ID_KEY \<noteq> Some (JStr (toHex (ds_toDevice sync))))"

text \<open>What receiving such a copy leaves as it was.\<close>

definition untouched :: "world \<Rightarrow> world \<Rightarrow> bool" where
  "untouched w w' \<longleftrightarrow> netlog w' = netlog w \<and> messages_tbl (idb w') = messages_tbl (idb w) \<and>
     sessions_tbl (idb w') = sessions_tbl (idb w) \<and> received_tbl (idb w') = received_tbl (idb w)"

lemma run_myDeviceId:
  assumes "myDeviceId E w = (Inr d, w')"
  shows "settingOf (idb w') DEVICE_ID_KEY = Some (JStr d) \<and> untouched w w' \<and> bundleCache w' = bundleCache w"
proof (cases "orElse (jstr (settingOf (idb w) DEVICE_ID_KEY)) [] = []")
  case True
  then show ?thesis using assms by (auto simp: myDeviceId_def settingOf_fold untouched_def)
next
  case False
  then obtain s where "settingOf (idb w) DEVICE_ID_KEY = Some (JStr s)"
    by (cases "settingOf (idb w) DEVICE_ID_KEY" rule: jstr.cases) auto
  then show ?thesis using assms False by (auto simp: myDeviceId_def settingOf_fold untouched_def)
qed

lemma receiveSync_acked:
  assumes "receiveSync E me i opened sync w = (Inr (), w')"
  shows "endsAcked E i w w' \<or> so_senderId opened = b_userId me \<and> so_senderVerified opened \<and>
     settingOf (idb w') DEVICE_ID_KEY \<noteq> Some (JStr (toHex (ds_toDevice sync))) \<and> untouched w w' \<and> bundleCache w' = bundleCache w"
proof (cases "so_senderId opened \<noteq> b_userId me \<or> \<not> so_senderVerified opened")
  case True
  then show ?thesis using assms fin_ack by (fastforce simp: receiveSync_def fin_def)
next
  case False
  with assms obtain d w1 where d: "myDeviceId E w = (Inr d, w1)" and
    r: "(if toHex (ds_toDevice sync) \<noteq> d then ret () else
      andThen (ignoreErrors (await (openSyncBlob E (toHex (ds_fromDevice sync)) (ds_blob sync)) (applySyncRecord E)))
        (ackDelivered E i)) w1 = (Inr (), w')"
    unfolding receiveSync_def by (auto elim: await_Inr_cases)
  have gr: "grows w w1" using keepsD [OF keeps_off_deviceId d] by (rule offline_grows)
  show ?thesis
  proof (cases "toHex (ds_toDevice sync) = d")
    case True
    have "keeps grows (ignoreErrors (await (openSyncBlob E x y) (applySyncRecord E)))" for x y
      by (intro keeps_gr_off keeps_off_ignore off.keeps_await keeps_off_applySync keeps_off_quiet keeps_openSyncBlob)
    then have "fin E i (andThen (ignoreErrors (await (openSyncBlob E (toHex (ds_fromDevice sync)) (ds_blob sync)) (applySyncRecord E)))
        (ackDelivered E i))" by (intro fin_andThen fin_ack)
    then show ?thesis using r True gr grows_endsAcked by (auto simp: fin_def)
  next
    case other: False
    then show ?thesis using r run_myDeviceId [OF d] False by (auto simp: untouched_def)
  qed
qed

text \<open>Picking the session always settles what to do with a handshake.\<close>

definition settled :: "sessionStep act \<Rightarrow> bool" where
  "settled m \<longleftrightarrow> (\<forall>w w'. m w \<noteq> (Inr AdoptHandshake, w'))"

lemma settled_rules:
  "(\<And>x. settled (k x)) \<Longrightarrow> settled (await m k)" "settled k' \<Longrightarrow> settled (andThen m' k')" "settled (throw e)"
  "st \<noteq> AdoptHandshake \<Longrightarrow> settled (ret st)"
  "(b \<Longrightarrow> settled n) \<Longrightarrow> (\<not> b \<Longrightarrow> settled n') \<Longrightarrow> settled (if b then n else n')"
  unfolding settled_def andThen_def by (auto elim!: await_Inr_cases)

lemma settled_adoptHandshake: "settled (adoptHandshake E mc me i a opened kc env ps pq)"
  unfolding adoptHandshake_def Let_def
  by (intro settled_rules sessionStep.distinct)
    (auto split: sum.split intro!: settled_rules)

lemma settled_decryptDelivery: "settled (decryptDelivery E mc me i a opened kc v env ps)"
  unfolding decryptDelivery_def Let_def by (intro settled_rules settled_adoptHandshake) simp

lemma finStep_grows: "finStep E i m \<Longrightarrow> m w = (r, w') \<Longrightarrow> grows w w'"
  unfolding finStep_def by (metis keepsD)

lemma calm_endsAcked: "calm w w1 \<Longrightarrow> endsAcked E i w1 w' \<Longrightarrow> endsAcked E i w w'"
  using grows_endsAcked offline_grows calm_offline by blast

lemma fin_session:
  "fin E (ws_message_id ws) (await (decryptDelivery E mc me (ws_message_id ws) a opened kc v env ps) (\<lambda>st.
     case st of Plain p \<Rightarrow> handleContent E mc me ws a s kc v ps p | _ \<Rightarrow> ret ()))"
proof -
  note d = finStep_decryptDelivery [of E "ws_message_id ws" mc me a opened kc v env ps]
  have "endsAcked E (ws_message_id ws) w w'"
    if "decryptDelivery E mc me (ws_message_id ws) a opened kc v env ps w = (Inr st, w1)"
      "(case st of Plain p \<Rightarrow> handleContent E mc me ws a s kc v ps p | _ \<Rightarrow> ret ()) w1 = (Inr (), w')" for st w w1 w'
  proof (cases st)
    case Finished
    then show ?thesis using that d by (simp add: finStep_def)
  next
    case AdoptHandshake
    then show ?thesis using that settled_decryptDelivery by (metis settled_def)
  next
    case (Plain p)
    then show ?thesis
      using that fin_handleContent [of E ws mc me a s kc v ps p] grows_endsAcked [OF finStep_grows [OF d that(1)]]
      by (simp add: fin_def)
  qed
  then show ?thesis by (auto simp: fin_def elim!: await_Inr_cases)
qed

lemma dispatch_acked:
  assumes "dispatch E mc me ws a opened env w = (Inr (), w')"
  shows "endsAcked E (ws_message_id ws) w w' \<or> (\<exists>sync. de_deviceSync env = Some sync \<and> so_senderId opened = b_userId me \<and>
     so_senderVerified opened \<and> settingOf (idb w') DEVICE_ID_KEY \<noteq> Some (JStr (toHex (ds_toDevice sync))) \<and>
     untouched w w' \<and> bundleCache w' = bundleCache w)"
proof (cases "de_deviceSync env")
  case (Some sync)
  then have "receiveSync E me (ws_message_id ws) opened sync w = (Inr (), w')"
    using assms by (simp add: dispatch_def Let_def isKeyChanged_def)
  then show ?thesis using receiveSync_acked Some by blast
next
  case None
  have "fin E (ws_message_id ws) (dispatch E mc me ws a opened env)"
    unfolding dispatch_def Let_def None option.case
    by (intro fin_await [OF keeps_gr_off [OF keeps_off_quiet]] fin_if fin_ack fin_session keeps_isKeyChanged
          keeps_isBlocked keeps_getContact)
  then show ?thesis using assms by (simp add: fin_def)
qed

lemma untouched_calm: "calm w w1 \<Longrightarrow> untouched w1 w' \<Longrightarrow> untouched w w'"
  by (simp add: calm_def untouched_def)

lemma keeps_cm_time: "keeps calm (checkDeliveryTime E ws v)"
proof (rule keepsI)
  fix w
  obtain res w' where "checkDeliveryTime E ws v w = (Inr res, w')" "clockStep w w'" using checkDeliveryTime_run by blast
  moreover have "\<forall>k. keyOf w = Some k \<longrightarrow> keyOf w' = Some k"
    using quiet_keyOf [of w "w'\<lparr>clockDrift := clockDrift w, clockWarning := clockWarning w\<rparr>"] \<open>clockStep w w'\<close>
    by (simp add: clockStep_def keyOf_def)
  ultimately show "calm w (snd (checkDeliveryTime E ws v w))" using clockStepD [of w w'] by (simp add: calm_def)
qed

lemma keeps_cm_openSealed: "keeps calm (attempt (openSealed E mc me b t))"
proof -
  have "keeps quiet (openSealed E mc me b t)" unfolding openSealed_def by (intro q.keeps_rules keeps_intro)
  then show ?thesis
    by (intro keeps_cm_quiet) (auto simp: keeps_def attempt_def split: prod.splits, metis snd_conv)
qed

lemma openSealed_Inr:
  assumes "attempt (openSealed E mc me blob n) w = (Inr (Inr oe), w')"
  shows "\<exists>t. mc_sealedSenderDecrypt mc t blob (x25519_priv (b_identity me)) n = Inr (fst oe) \<and>
    decodeEnvelope E (so_plaintext (fst oe)) = Inr (snd oe) \<and> bundleCache w' = bundleCache w"
proof -
  have "openSealed E mc me blob n w = (Inr oe, w')" using assms by (auto simp: attempt_def split: prod.splits)
  then have "mc_sealedSenderDecrypt mc (tick w) blob (x25519_priv (b_identity me)) n = Inr (fst oe) \<and>
    decodeEnvelope E (so_plaintext (fst oe)) = Inr (snd oe) \<and> bundleCache w' = bundleCache w"
    unfolding openSealed_def by (auto elim!: await_Inr_cases)
  then show ?thesis by blast
qed

lemma myBundle_cached: "myBundle E w = (Inr me, w') \<Longrightarrow> bundleCache w' = Some me"
  unfolding myBundle_def by (auto split: option.splits elim!: await_Inr_cases)

text \<open>The run of \<open>receiveMessage\<close> on a delivery not seen before, up to the opened blob.\<close>

lemma receiveMessage_cases:
  assumes "receiveMessage E mc v ws w = (r, w')" "tget (received_tbl (idb w)) (ws_message_id ws) = None"
  obtains (failed) e where "r = Inl e" "calm w w'"
  | (unopened) me e w1 where "calm w w1" "await (cryptoEngineHealthy E mc me) (\<lambda>ok. if \<not> ok then throw e
        else ackDelivered E (ws_message_id ws)) w1 = (r, w')"
  | (opened) me a blob t n oe w1 where "calm w w1" "bundleCache w1 = Some me" "\<forall>m. bundleCache w = Some m \<longrightarrow> me = m" "b64decode (ws_content ws) = Inr blob"
      "mc_sealedSenderDecrypt mc t blob (x25519_priv (b_identity me)) n = Inr (fst oe)"
      "decodeEnvelope E (so_plaintext (fst oe)) = Inr (snd oe)" "dispatch E mc me ws a (fst oe) (snd oe) w1 = (r, w')"
proof -
  obtain res w1 where t: "checkDeliveryTime E ws v w = (Inr res, w1)" and bc: "bundleCache w1 = bundleCache w"
    using checkDeliveryTime_run clockStepD(3) by blast
  have c1: "calm w w1" by (rule keepsD [OF keeps_cm_time t])
  from assms t have "await (myBundle E) (\<lambda>me.
     await (liftE (b64decode (ws_content ws))) (\<lambda>blob.
     await (case tv_anchor res of Some a \<Rightarrow> ret a | None \<Rightarrow> nowSecs E) (\<lambda>certCheckTime.
     await (attempt (openSealed E mc me blob certCheckTime)) (\<lambda>o1.
     case o1 of
       Inl e \<Rightarrow> await (cryptoEngineHealthy E mc me) (\<lambda>ok. if \<not> ok then throw e else ackDelivered E (ws_message_id ws))
     | Inr oe \<Rightarrow> dispatch E mc me ws (tv_anchor res) (fst oe) (snd oe))))) w1 = (r, w')"
    by (simp add: receiveMessage_def)
  then show thesis
  proof (cases rule: await_cases)
    case (threw e)
    then show ?thesis using failed keepsD [OF keeps_cm_myBundle threw(1)] c1 cm.step_trans by blast
  next
    case me: (went_on me w2)
    have c2: "calm w w2" using keepsD [OF keeps_cm_myBundle me(1)] c1 cm.step_trans by blast
    have same: "\<forall>m. bundleCache w = Some m \<longrightarrow> me = m"
      using me(1) bc by (auto simp: myBundle_def)
    show ?thesis
    proof (cases "b64decode (ws_content ws)")
      case (Inl e)
      then show ?thesis using me failed [of e] c2 by simp
    next
      case blob: (Inr blob)
      let ?k = "\<lambda>o1. case o1 of
          Inl e \<Rightarrow> await (cryptoEngineHealthy E mc me) (\<lambda>ok. if \<not> ok then throw e else ackDelivered E (ws_message_id ws))
        | Inr oe \<Rightarrow> dispatch E mc me ws (tv_anchor res) (fst oe) (snd oe)"
      obtain n w3 where n: "(case tv_anchor res of Some a \<Rightarrow> ret a | None \<Rightarrow> nowSecs E) w2 = (Inr n, w3)"
        "calm w2 w3" "bundleCache w3 = Some me"
        using myBundle_cached [OF me(1)] by (cases "tv_anchor res") (auto simp: calm_def)
      obtain o1 w4 where o1: "attempt (openSealed E mc me blob n) w3 = (Inr o1, w4)"
        by (cases "openSealed E mc me blob n w3") (auto simp: attempt_def)
      have c4: "calm w w4" using keepsD [OF keeps_cm_openSealed o1] n(2) c2 cm.step_trans by blast
      have k: "?k o1 w4 = (r, w')" using me(2) blob n(1) o1 by simp
      show ?thesis
      proof (cases o1)
        case (Inl e)
        then show ?thesis using unopened [OF c4] k by simp
      next
        case (Inr oe)
        then obtain t where "mc_sealedSenderDecrypt mc t blob (x25519_priv (b_identity me)) n = Inr (fst oe)"
          "decodeEnvelope E (so_plaintext (fst oe)) = Inr (snd oe)" "bundleCache w4 = Some me"
          using openSealed_Inr [of E mc me blob n w3 oe w4] o1 n(3) by auto
        moreover have "dispatch E mc me ws (tv_anchor res) (fst oe) (snd oe) w4 = (r, w')" using k Inr by simp
        ultimately show ?thesis using opened [OF c4 _ same blob] by blast
      qed
    qed
  qed
qed

lemma receive_again:
  assumes "tget (received_tbl (idb w)) (ws_message_id ws) \<noteq> None" "receiveMessage E mc v ws w = (Inr (), w')"
  shows "endsAcked E (ws_message_id ws) w w'"
proof -
  from assms have "await token (\<lambda>tok. andThen (ackMessages E [ws_message_id ws] tok) (ret ())) w = (Inr (), w')"
    by (simp add: receiveMessage_def)
  then obtain tok where "andThen (ackMessages E [ws_message_id ws] tok) (ret ()) w = (Inr (), w')"
    by (auto simp: run_token elim!: await_Inr_cases split: if_splits)
  then have "w' = afterReq (ack_req E [ws_message_id ws] tok) w"
    unfolding andThen_def by (auto dest: ackMessages_log elim!: await_Inr_cases)
  then show ?thesis using assms(1) by (auto simp: endsAcked_def)
qed

text \<open>C2. Nothing a peer sent is lost: whenever receiving a delivery completes, its last request is
  the acknowledgement (upon which the server deletes its copy), the database that request left
  from is the final one - the ratchet step, the message, the contact and the record of the
  processed id are stored by then - and the delivery will be recognised when it comes again. The
  one exception is the device's own sync copy for another linked device, which stays queued and
  touches neither messages nor sessions.\<close>

theorem receiveMessage_acks_last:
  assumes "receiveMessage E mc v ws w = (Inr (), w')"
  shows "endsAcked E (ws_message_id ws) w w' \<or> forOtherDevice E mc ws w' \<and> untouched w w'"
proof (cases "tget (received_tbl (idb w)) (ws_message_id ws)")
  case (Some r)
  then show ?thesis using receive_again assms by blast
next
  case None
  from assms None show ?thesis
  proof (cases rule: receiveMessage_cases)
    case (unopened me e w1)
    have "fin E (ws_message_id ws) (await (cryptoEngineHealthy E mc me) (\<lambda>ok. if \<not> ok then throw e
        else ackDelivered E (ws_message_id ws)))" by (intro fin_rules keeps_gr_healthy)
    then show ?thesis using unopened(2) calm_endsAcked [OF unopened(1)] by (auto simp only: fin_def)
  next
    case (opened me a blob t n oe w1)
    then show ?thesis
      using dispatch_acked [OF opened(7)] calm_endsAcked [OF opened(1)] untouched_calm [OF opened(1)]
      unfolding forOtherDevice_def by metis
  qed simp
qed

section \<open>Rejected deliveries leave nothing behind\<close>

text \<open>All that changed is the record of processed deliveries, and all that was sent is the
  acknowledgement.\<close>

definition ackOnly :: "env \<Rightarrow> string \<Rightarrow> world \<Rightarrow> world \<Rightarrow> bool" where
  "ackOnly E i w w' \<longleftrightarrow> (\<exists>f. idb w' = received_tbl_update f (idb w)) \<and> events w' = events w \<and> tasks w' = tasks w \<and>
     (\<exists>xs. netlog w' = netlog w @ xs \<and> (\<forall>x \<in> set xs. \<exists>tok. fst x = ack_req E [i] tok))"

interpretation ao: step_relation "ackOnly E i" for E i
proof
  show "ackOnly E i w w" for w
    by (auto simp: ackOnly_def intro!: exI [where x = "\<lambda>x. x"])
  show "ackOnly E i u w" if uv: "ackOnly E i u v" and vw: "ackOnly E i v w" for u v w
  proof -
    obtain f g where "idb v = received_tbl_update f (idb u)" "idb w = received_tbl_update g (idb v)"
      using uv vw by (auto simp: ackOnly_def)
    then have "idb w = received_tbl_update (g \<circ> f) (idb u)" by simp
    then show ?thesis using uv vw unfolding ackOnly_def by (auto simp del: fun_upd_apply)
  qed
qed

lemma calm_ackOnly: "calm w w' \<Longrightarrow> ackOnly E i w w'"
  by (auto simp: calm_def ackOnly_def intro!: exI [where x = "\<lambda>x. x"])

lemma keeps_ao_quiet: "keeps quiet m \<Longrightarrow> keeps (ackOnly E i) m"
  using calm_ackOnly keeps_cm_quiet keeps_mono by metis

lemma keeps_ao_reack: "keeps (ackOnly E i) (await token (\<lambda>tok. andThen (ackMessages E [i] tok) (ret ())))"
proof -
  have "keeps (ackOnly E i) token"
    by (simp add: keeps_def run_token ao.step_refl)
  moreover have "keeps (ackOnly E i) (ackMessages E [i] tok)" for tok
    by (rule keepsI) (auto simp: ackMessages_state ackOnly_def intro!: exI [where x = "\<lambda>x. x"])
  ultimately show ?thesis by (intro ao.keeps_rules)
qed

lemma keeps_ao_ack: "keeps (ackOnly E i) (ackDelivered E i)"
proof -
  have "keeps (ackOnly E i) (dbModify (received_tbl_update f))" for f
    by (auto simp: keeps_def ackOnly_def)
  then show ?thesis
    unfolding ackDelivered_def by (intro ao.keeps_await ao.keeps_andThen keeps_ao_reack keeps_ao_quiet [OF keeps_nowSecs])
qed

text \<open>The deliveries that must be rejected: a sync copy that is not our own; any message of a
  blocked sender; a handshake that its certificate does not bind.\<close>

definition keyChangedIn :: "privexDB \<Rightarrow> SealedOpened \<Rightarrow> bool" where
  "keyChangedIn d opened =
     (case Option.bind (tget (contacts_tbl d) (so_senderId opened)) c_ik_ed25519_pub of
        None \<Rightarrow> False | Some k \<Rightarrow> toHex k \<noteq> toHex (so_senderEdPub opened))"

definition rejected :: "privexDB \<Rightarrow> IdentityBundle \<Rightarrow> SealedOpened \<Rightarrow> DecodedEnvelope \<Rightarrow> bool" where
  "rejected d me opened env =
     (case de_deviceSync env of
        Some sync \<Rightarrow> so_senderId opened \<noteq> b_userId me \<or> \<not> so_senderVerified opened
      | None \<Rightarrow> effStatus d (so_senderId opened) = Some Blocked \<or>
          (\<exists>pq. de_pqxdh env = Some pq \<and> \<not> (so_senderVerified opened \<and> \<not> keyChangedIn d opened \<and>
             length (so_senderX25519Pub opened) = 32 \<and> toHex (so_senderX25519Pub opened) = toHex (alice_ik_pub pq))))"

lemma dispatch_rejected:
  assumes rej: "rejected (idb w) me opened env" and run: "dispatch E mc me ws a opened env w = (r, w')"
  shows "ackOnly E (ws_message_id ws) w w'"
proof -
  have kc: "isKeyChanged (so_senderId opened) (so_senderEdPub opened) w = (Inr (keyChangedIn (idb w) opened), w)"
    by (simp add: isKeyChanged_def keyChangedIn_def)
  let ?ack = "ackDelivered E (ws_message_id ws)"
  show ?thesis
  proof (cases "de_deviceSync env")
    case (Some sync)
    then have "?ack w = (r, w')" using run rej by (simp add: dispatch_def Let_def kc receiveSync_def rejected_def)
    then show ?thesis by (rule keepsD [OF keeps_ao_ack])
  next
    case None
    then have "await (isBlocked E (so_senderId opened)) (\<lambda>blocked. if blocked then ?ack else
       if (case de_pqxdh env of None \<Rightarrow> False
           | Some pq \<Rightarrow> \<not> bound (so_senderVerified opened \<and> \<not> keyChangedIn (idb w) opened) opened pq) then ?ack else
       await (getContact E (so_senderId opened)) (\<lambda>prior.
       (let priorStatus = map_option pc_status prior in
        await (decryptDelivery E mc me (ws_message_id ws) a opened (keyChangedIn (idb w) opened)
          (so_senderVerified opened \<and> \<not> keyChangedIn (idb w) opened) env priorStatus) (\<lambda>st.
        case st of
          Plain p \<Rightarrow> handleContent E mc me ws a (so_senderId opened) (keyChangedIn (idb w) opened)
            (so_senderVerified opened \<and> \<not> keyChangedIn (idb w) opened) priorStatus p
        | _ \<Rightarrow> ret ())))) w = (r, w')"
      using run by (simp add: dispatch_def Let_def kc)
    then show ?thesis
    proof (cases rule: await_cases)
      case (threw e)
      then show ?thesis using keepsD [OF keeps_ao_quiet [OF keeps_isBlocked]] by blast
    next
      case (went_on b w1)
      have a1: "ackOnly E (ws_message_id ws) w w1"
        by (rule keepsD [OF keeps_ao_quiet [OF keeps_isBlocked] went_on(1)])
      have "b = (effStatus (idb w) (so_senderId opened) = Some Blocked)"
        using went_on(1) unfolding isBlocked_def by (auto elim!: await_Inr_cases simp: getContact_status [symmetric])
      then have "?ack w1 = (r, w')"
        using went_on(2) rej None by (auto simp: rejected_def bound_def split: if_splits)
      then show ?thesis using keepsD [OF keeps_ao_ack] a1 ao.step_trans by blast
    qed
  qed
qed

text \<open>From the opened delivery to the whole run.\<close>

lemma receiveMessage_ackOnly:
  assumes run: "receiveMessage E mc v ws w = (r, w')" and cached: "bundleCache w = Some me"
    and opened: "\<And>blob t n a opened env w1. b64decode (ws_content ws) = Inr blob \<Longrightarrow>
        mc_sealedSenderDecrypt mc t blob (x25519_priv (b_identity me)) n = Inr opened \<Longrightarrow>
        decodeEnvelope E (so_plaintext opened) = Inr env \<Longrightarrow> calm w w1 \<Longrightarrow>
        dispatch E mc me ws a opened env w1 = (r, w') \<Longrightarrow> ackOnly E (ws_message_id ws) w1 w'"
  shows "ackOnly E (ws_message_id ws) w w'"
proof (cases "tget (received_tbl (idb w)) (ws_message_id ws)")
  case (Some row)
  then have "await token (\<lambda>tok. andThen (ackMessages E [ws_message_id ws] tok) (ret ())) w = (r, w')"
    using run by (simp add: receiveMessage_def)
  then show ?thesis by (rule keepsD [OF keeps_ao_reack])
next
  case None
  from run None show ?thesis
  proof (cases rule: receiveMessage_cases)
    case (failed e)
    then show ?thesis using calm_ackOnly by blast
  next
    case (unopened me' e w1)
    have "keeps (ackOnly E (ws_message_id ws)) (await (cryptoEngineHealthy E mc me') (\<lambda>ok. if \<not> ok then throw e
        else ackDelivered E (ws_message_id ws)))"
      using keeps_cm_healthy calm_ackOnly by (intro ao.keeps_rules keeps_ao_ack) (metis keeps_mono)
    then show ?thesis using unopened calm_ackOnly ao.step_trans keepsD by metis
  next
    case op: (opened me' a blob t n oe w1)
    then have "ackOnly E (ws_message_id ws) w1 w'" using opened cached by blast
    then show ?thesis using op(1) calm_ackOnly ao.step_trans by blast
  qed
qed

text \<open>C3. A delivery that must be rejected leaves no trace: if whatever the sealed blob opens to is
  a sync copy not sent by this account, comes from a blocked sender, or carries a handshake that
  the sender's certificate does not vouch for (unverified, changed identity key, or another
  X25519 key than the certificate's), then - however the run ends - no message, session,
  contact, prekey or receipt changed, no event was raised and no task started, and the server
  was told nothing but the acknowledgement.\<close>

theorem rejected_delivery_leaves_no_trace:
  assumes cached: "bundleCache w = Some me"
    and rej: "\<And>blob t n opened env. b64decode (ws_content ws) = Inr blob \<Longrightarrow>
        mc_sealedSenderDecrypt mc t blob (x25519_priv (b_identity me)) n = Inr opened \<Longrightarrow>
        decodeEnvelope E (so_plaintext opened) = Inr env \<Longrightarrow> rejected (idb w) me opened env"
    and run: "receiveMessage E mc v ws w = (r, w')"
  shows "ackOnly E (ws_message_id ws) w w'"
proof (rule receiveMessage_ackOnly [OF run cached])
  fix blob t n a opened env w1
  assume "b64decode (ws_content ws) = Inr blob"
    "mc_sealedSenderDecrypt mc t blob (x25519_priv (b_identity me)) n = Inr opened"
    "decodeEnvelope E (so_plaintext opened) = Inr env" "calm w w1" "dispatch E mc me ws a opened env w1 = (r, w')"
  then show "ackOnly E (ws_message_id ws) w1 w'"
    using rej dispatch_rejected [of w1 me opened env] by (simp add: calm_def)
qed

section \<open>Replayed handshakes\<close>

text \<open>A handshake already adopted, in a message the stored session cannot decrypt.\<close>

definition replayed :: "env \<Rightarrow> MessageCryptoApi \<Rightarrow> privexDB \<Rightarrow> SealedOpened \<Rightarrow> DecodedEnvelope \<Rightarrow> bool" where
  "replayed E mc d opened env \<longleftrightarrow> de_deviceSync env = None \<and>
     (\<exists>pq. de_pqxdh env = Some pq \<and> tget (handshakes_tbl d) (toHex (alice_ek_pub pq)) \<noteq> None) \<and>
     (\<forall>k row s t. tget (sessions_tbl d) (so_senderId opened) = Some row \<longrightarrow> sessionOf E k row = Some s \<longrightarrow>
        (\<exists>e. mc_ratchetDecrypt mc t (ls_ratchetState s) (de_ciphertext env) (de_header env) = Inl e))"

lemma loadSession_Some:
  assumes "loadSession E p w = (Inr (Some s), w')"
  shows "\<exists>k row. tget (sessions_tbl (idb w)) p = Some row \<and> sessionOf E k row = Some s"
proof (cases "tget (sessions_tbl (idb w)) p")
  case None
  then show ?thesis using assms by (simp add: loadSession_def)
next
  case (Some row)
  then obtain k w1 where "(await (decryptString E k (se_ratchet_state_enc row)) (\<lambda>hex.
         (case se_pqxdh_init_enc row of
            None \<Rightarrow> ret (Some \<lparr>ls_ratchetState = fromHex hex, ls_pqxdhInit = None,
                               ls_receivedOk = orElse (se_received_ok row) True\<rparr>)
          | Some b \<Rightarrow>
              await (decryptString E k b) (\<lambda>js.
              case parseStash js of
                None \<Rightarrow> throw (JsError ''SyntaxError'')
              | Some pq \<Rightarrow> ret (Some \<lparr>ls_ratchetState = fromHex hex, ls_pqxdhInit = Some pq,
                                      ls_receivedOk = orElse (se_received_ok row) True\<rparr>))))) w1 = (Inr (Some s), w')"
    using assms unfolding loadSession_def by (auto elim: await_Inr_cases)
  then have "sessionOf E k row = Some s"
    by (auto simp: sessionOf_def run_decryptString split: option.splits elim!: await_Inr_cases)
  then show ?thesis using Some by blast
qed

lemma decryptDelivery_replayed:
  assumes rep: "replayed E mc (idb w) opened env"
    and run: "decryptDelivery E mc me i a opened kc v env ps w = (r, w')"
  shows "ackOnly E i w w' \<and> (\<forall>p. r \<noteq> Inr (Plain p))"
proof -
  obtain pq row where pq: "de_pqxdh env = Some pq" and seen: "tget (handshakes_tbl (idb w)) (toHex (alice_ek_pub pq)) = Some row"
    using rep by (auto simp: replayed_def)
  have fin: "ackOnly E i u u' \<and> (\<forall>p. q \<noteq> Inr (Plain p))" if "andThen (ackDelivered E i) (ret Finished) u = (q, u')" for u u' q
    using that keepsD [OF keeps_ao_ack] unfolding andThen_def by (auto elim!: await_cases)
  have adopt: "ackOnly E i u u' \<and> (\<forall>p. q \<noteq> Inr (Plain p))"
    if "adoptHandshake E mc me i a opened kc env ps pq u = (q, u')" "idb u = idb w" for u u' q
    using fin that seen by (simp add: adoptHandshake_def Let_def)
  from run [unfolded decryptDelivery_def Let_def] show ?thesis
  proof (cases rule: await_cases)
    case (threw e)
    then show ?thesis using keepsD [OF keeps_ao_quiet [OF keeps_loadSession]] by auto
  next
    case ld: (went_on existing w1)
    have q1: "ackOnly E i w w1" by (rule keepsD [OF keeps_ao_quiet [OF keeps_loadSession] ld(1)])
    have d1: "idb w1 = idb w" using keepsD [OF keeps_loadSession ld(1)] quietD(1) by blast
    show ?thesis
    proof (cases "existing = None \<or> \<not> (ls_pqxdhInit (the existing) = None) \<or> so_senderId opened < b_userId me")
      case True
      then have "adoptHandshake E mc me i a opened kc env ps pq w1 = (r, w')"
        using ld(2) pq by (auto split: option.splits if_splits)
      then show ?thesis using adopt d1 q1 ao.step_trans by blast
    next
      case False
      then obtain s where s: "existing = Some s" "ls_pqxdhInit s = None" "\<not> so_senderId opened < b_userId me" by auto
      obtain e where bad: "mc_ratchetDecrypt mc (tick w1) (ls_ratchetState s) (de_ciphertext env) (de_header env) = Inl e"
        using loadSession_Some [of E "so_senderId opened" w s w1] ld(1) s(1) rep unfolding replayed_def by blast
      let ?w2 = "w1\<lparr>tick := Suc (tick w1)\<rparr>"
      have att: "attempt (ext (\<lambda>t. mc_ratchetDecrypt mc t (ls_ratchetState s) (de_ciphertext env) (de_header env))) w1
          = (Inr (Inl e), ?w2)" using bad by (simp add: attempt_def)
      have q2: "ackOnly E i w ?w2" using q1 by (simp add: ackOnly_def)
      let ?u = "useSession E mc me i a (so_senderId opened) v env existing"
      have run2: "await ?u (\<lambda>st. if st = AdoptHandshake then adoptHandshake E mc me i a opened kc env ps (the (de_pqxdh env)) else ret st) w1
          = (r, w')" using ld(2) s pq by simp
      show ?thesis
      proof (cases "ls_receivedOk s")
        case True
        then have "?u w1 = (Inr AdoptHandshake, ?w2)" using s pq by (simp add: useSession_def run_await_Inr [where m = "attempt m" for m, OF att])
        then have "adoptHandshake E mc me i a opened kc env ps pq ?w2 = (r, w')" using run2 pq by simp
        then show ?thesis using adopt [of ?w2] d1 q2 ao.step_trans by simp
      next
        case False
        then have u: "?u w1 = andThen (ackDelivered E i) (ret Finished) ?w2"
          using s pq by (simp add: useSession_def run_await_Inr [where m = "attempt m" for m, OF att])
        obtain q u' where f: "andThen (ackDelivered E i) (ret Finished) ?w2 = (q, u')" by fastforce
        then have "q = Inr Finished \<or> (\<exists>e. q = Inl e)" unfolding andThen_def by (auto elim!: await_cases)
        then have "w' = u' \<and> r = q" using run2 u f by auto
        then show ?thesis using fin [OF f] q2 ao.step_trans by blast
      qed
    qed
  qed
qed

lemma dispatch_replayed:
  assumes rep: "replayed E mc (idb w) opened env" and run: "dispatch E mc me ws a opened env w = (r, w')"
  shows "ackOnly E (ws_message_id ws) w w'"
proof -
  let ?i = "ws_message_id ws" and ?s = "so_senderId opened"
  have sess: "ackOnly E ?i u u'" if "await (decryptDelivery E mc me ?i a opened kc v env ps) (\<lambda>st.
        case st of Plain p \<Rightarrow> handleContent E mc me ws a ?s kc v ps p | _ \<Rightarrow> ret ()) u = (q, u')" "idb u = idb w" for u u' q kc v ps
    using that(1)
  proof (cases rule: await_cases)
    case (threw e)
    then show ?thesis using decryptDelivery_replayed that(2) rep by metis
  next
    case (went_on st u1)
    then show ?thesis using decryptDelivery_replayed [OF _ went_on(1)] that(2) rep by (cases st) auto
  qed
  have none: "de_deviceSync env = None" using rep by (simp add: replayed_def)
  obtain kc where kc: "isKeyChanged ?s (so_senderEdPub opened) w = (Inr kc, w)" by (simp add: isKeyChanged_def)
  define v where "v = (so_senderVerified opened \<and> \<not> kc)"
  have "await (isBlocked E ?s) (\<lambda>blocked. if blocked then ackDelivered E ?i else
       if (case de_pqxdh env of None \<Rightarrow> False | Some pq \<Rightarrow> \<not> bound v opened pq) then ackDelivered E ?i else
       await (getContact E ?s) (\<lambda>prior.
        await (decryptDelivery E mc me ?i a opened kc v env (map_option pc_status prior)) (\<lambda>st.
        case st of Plain p \<Rightarrow> handleContent E mc me ws a ?s kc v (map_option pc_status prior) p | _ \<Rightarrow> ret ()))) w = (r, w')"
    using run unfolding dispatch_def Let_def none option.case v_def by (simp only: run_await_Inr kc)
  then show ?thesis
  proof (cases rule: await_cases)
    case (threw e)
    then show ?thesis using keepsD [OF keeps_ao_quiet [OF keeps_isBlocked]] by blast
  next
    case b: (went_on b w1)
    have q1: "quiet w w1" by (rule keepsD [OF keeps_isBlocked b(1)])
    have a1: "ackOnly E ?i w w1" by (rule keepsD [OF keeps_ao_quiet [OF keeps_isBlocked] b(1)])
    consider "ackDelivered E ?i w1 = (r, w')"
      | "await (getContact E ?s) (\<lambda>prior.
        await (decryptDelivery E mc me ?i a opened kc v env (map_option pc_status prior)) (\<lambda>st.
        case st of Plain p \<Rightarrow> handleContent E mc me ws a ?s kc v (map_option pc_status prior) p | _ \<Rightarrow> ret ())) w1 = (r, w')"
      using b(2) by (auto split: if_splits)
    then have "ackOnly E ?i w1 w'"
    proof cases
      case 1
      then show ?thesis by (rule keepsD [OF keeps_ao_ack])
    next
      case 2
      then show ?thesis
      proof (cases rule: await_cases)
        case (threw e)
        then show ?thesis using keepsD [OF keeps_ao_quiet [OF keeps_getContact]] by blast
      next
        case (went_on c w2)
        have "idb w2 = idb w" using keepsD [OF keeps_getContact went_on(1)] q1 quietD(1) by metis
        then show ?thesis
          using sess [OF went_on(2)] keepsD [OF keeps_ao_quiet [OF keeps_getContact] went_on(1)] ao.step_trans by blast
      qed
    qed
    then show ?thesis using a1 ao.step_trans by blast
  qed
qed


end
