(* ===== verification/AuthSession.thy ===== *)
theory AuthSession
  imports KeyWatch
begin

text \<open>
  Signing in and renewing the session (\<^verbatim>\<open>store/auth.ts\<close>, \<^verbatim>\<open>services/auth-session.ts\<close>).
  While a renewal waits for the server, other handlers run: \<open>meanwhile\<close> is what they did to
  the client's state (a lock, a sign-out, an erase, a switch of identity). The two
  \<open>inFlight\<close> promises, which let a second call join a running one, are in \<open>SingleFlight\<close>.
  \<open>renewTimer\<close> holds the delay of the pending timer.
\<close>

section \<open>The session (\<^verbatim>\<open>store/auth.ts\<close>)\<close>

definition setSession :: "string \<Rightarrow> string \<Rightarrow> unit act" where
  "setSession tok userId = modify (\<lambda>w. w\<lparr>auth := (auth w)\<lparr>au_sessionToken := Some tok, au_userId := Some userId\<rparr>\<rparr>)"

definition setAuthenticated :: "string \<Rightarrow> unit act" where
  "setAuthenticated userId = modify (\<lambda>w. w\<lparr>auth := (auth w)\<lparr>au_authenticated := True, au_userId := Some userId\<rparr>\<rparr>)"

definition signOut :: "unit act" where
  "signOut = modify (\<lambda>w. w\<lparr>auth := \<lparr>au_authenticated = False, au_userId = None, au_sessionToken = None\<rparr>\<rparr>)"

section \<open>Signing in\<close>

definition authenticateBundle :: "env \<Rightarrow> IdentityBundle \<Rightarrow> VerifyResp act" where
  "authenticateBundle E bundle =
     await (authChallenge E (b_userId bundle)) (\<lambda>challenge.
     await (nowSecs E) (\<lambda>ts.
     await (ext (\<lambda>t. signChallenge (wasm E) t (fromHex challenge) (b_userId bundle) ts
                   (ed25519_priv (b_identity bundle)) (dilithium3_priv (b_identity bundle)))) (\<lambda>sig.
     authVerify E \<lparr>vr_user_id = b_userId bundle, vr_challenge = challenge, vr_sig_ed = toHex (sig_ed sig),
                   vr_sig_dil = toHex (sig_dil sig), vr_timestamp = ts\<rparr>)))"

definition doRestore :: "env \<Rightarrow> bool act" where
  "doRestore E =
     await loadProgress (\<lambda>progress. if pr_step progress \<noteq> ''done'' then ret False else
     await (loadBundle E) (\<lambda>b. case b of None \<Rightarrow> ret False | Some bundle \<Rightarrow>
     await (authenticateBundle E bundle) (\<lambda>res.
     andThen (setSession (vp_session_token res) (b_userId bundle)) (
     andThen (setAuthenticated (b_userId bundle)) (
     andThen (spawn (TCheckAccountKeys (vp_account_spk res))) (ret True))))))"

section \<open>Renewal\<close>

definition TOKEN_TTL_MS :: int where "TOKEN_TTL_MS = 24 * 3600 * 1000"
definition RENEW_LEAD_MS :: int where "RENEW_LEAD_MS = 2 * 3600 * 1000"
definition MAX_BACKOFF_MS :: int where "MAX_BACKOFF_MS = 15 * 60 * 1000"

definition doReauth :: "env \<Rightarrow> (world \<Rightarrow> world) \<Rightarrow> bool act" where
  "doReauth E meanwhile =
     tryCatch
       (await (loadBundle E) (\<lambda>b. case b of None \<Rightarrow> ret False | Some bundle \<Rightarrow>
        await (authenticateBundle E bundle) (\<lambda>res.
        andThen (modify meanwhile) (
        await (gets auth) (\<lambda>s.
        if \<not> au_authenticated s \<or> au_userId s \<noteq> Some (b_userId bundle) then ret False else
        andThen (setSession (vp_session_token res) (b_userId bundle)) (
        andThen (spawn (TCheckAccountKeys (vp_account_spk res))) (ret True)))))))
       (\<lambda>_. ret False)"

definition scheduleRenewal :: "int \<Rightarrow> unit act" where
  "scheduleRenewal delayMs = modify (\<lambda>w. w\<lparr>renewTimer := Some (max 60000 delayMs)\<rparr>)"

definition runRenewal :: "env \<Rightarrow> (world \<Rightarrow> world) \<Rightarrow> unit act" where
  "runRenewal E meanwhile =
     await (gets renewEnabled) (\<lambda>on. if \<not> on then ret () else
     await (doReauth E meanwhile) (\<lambda>ok.
     await (gets renewEnabled) (\<lambda>on. if \<not> on then ret () else
     if ok then andThen (modify (\<lambda>w. w\<lparr>renewBackoffMs := 0\<rparr>)) (scheduleRenewal (TOKEN_TTL_MS - RENEW_LEAD_MS))
     else andThen (modify (\<lambda>w. w\<lparr>renewBackoffMs :=
              (if renewBackoffMs w \<noteq> 0 then min (renewBackoffMs w * 2) MAX_BACKOFF_MS else 60000)\<rparr>))
            (await (gets renewBackoffMs) scheduleRenewal))))"

definition startTokenRenewal :: "unit act" where
  "startTokenRenewal =
     andThen (modify (\<lambda>w. w\<lparr>renewEnabled := True, renewBackoffMs := 0\<rparr>)) (scheduleRenewal (TOKEN_TTL_MS - RENEW_LEAD_MS))"

definition stopTokenRenewal :: "unit act" where
  "stopTokenRenewal = modify (\<lambda>w. w\<lparr>renewEnabled := False, renewTimer := None\<rparr>)"

section \<open>Lemmas\<close>

text \<open>Talking to the server and reading the identity leave the session state alone.\<close>

definition authKept :: "world \<Rightarrow> world \<Rightarrow> bool" where
  "authKept w w' \<longleftrightarrow> auth w' = auth w \<and> renewEnabled w' = renewEnabled w \<and> renewBackoffMs w' = renewBackoffMs w \<and>
     renewTimer w' = renewTimer w \<and> idb w' = idb w"

interpretation ak: step_relation authKept
  by unfold_locales (auto simp: authKept_def)

lemma quiet_authKept: "quiet w w' \<Longrightarrow> authKept w w'"
proof -
  assume "quiet w w'"
  then have "strip w' = strip w" by (simp add: quiet_def)
  then have "auth (strip w') = auth (strip w)" "renewEnabled (strip w') = renewEnabled (strip w)"
    "renewBackoffMs (strip w') = renewBackoffMs (strip w)" "renewTimer (strip w') = renewTimer (strip w)"
    "idb (strip w') = idb (strip w)" by simp_all
  then show ?thesis by (simp add: authKept_def strip_def)
qed

lemma keeps_ak_quiet: "keeps quiet m \<Longrightarrow> keeps authKept m"
  by (rule keeps_mono [OF _ quiet_authKept])

lemma keeps_ak_post: "keeps authKept (post_api E p b t)"
  by (rule keepsI) (simp add: authKept_def afterReq_def)

lemma keeps_ak_typed: "keeps authKept (typed v)"
  by (rule keepsI) (simp add: typed_pure ak.step_refl)

lemma keeps_ak_str: "keeps authKept (strField k j)"
  by (rule keepsI) (simp add: ak.step_refl)

lemma keeps_ak_authenticate: "keeps authKept (authenticateBundle E b)"
  unfolding authenticateBundle_def authChallenge_def authVerify_def
  by (intro ak.keeps_rules keeps_ak_post keeps_ak_str keeps_ak_quiet keeps_intro)

lemma keeps_ak_loadBundle: "keeps authKept (loadBundle E)"
  unfolding loadBundle_def loadProgress_def
  by (intro ak.keeps_rules keeps_ak_quiet keeps_intro)

text \<open>C37. A renewal that comes back late never revives a dead session: whatever session state
  \<open>a\<close> the client is in when the server answers, the renewal either leaves it alone or, only if
  that session is still authenticated and still belongs to the identity that was renewed,
  replaces its token. It never fails.\<close>

theorem doReauth_never_revives:
  assumes "doReauth E (\<lambda>w. w\<lparr>auth := a\<rparr>) w = (r, w')"
  shows "\<exists>ok. r = Inr ok \<and>
    (auth w' \<in> {a, auth w} \<and> \<not> ok \<or>
     ok \<and> au_authenticated a \<and> (\<exists>bundle tok. fst (loadBundle E w) = Inr (Some bundle) \<and>
       au_userId a = Some (b_userId bundle) \<and> auth w' = a\<lparr>au_sessionToken := Some tok\<rparr>))"
proof -
  obtain rb w1 where b: "loadBundle E w = (rb, w1)" by fastforce
  have a1: "auth w1 = auth w" using keepsD [OF keeps_ak_loadBundle b] by (simp add: authKept_def)
  show ?thesis
  proof (cases "\<exists>bundle. rb = Inr (Some bundle)")
    case False
    then show ?thesis using assms b a1
      by (cases rb) (auto simp: doReauth_def tryCatch_def split: option.splits)
  next
    case True
    then obtain bd where bu: "rb = Inr (Some bd)" by blast
    obtain rv w2 where v: "authenticateBundle E bd w1 = (rv, w2)" by fastforce
    have a2: "auth w2 = auth w" using keepsD [OF keeps_ak_authenticate v] a1 by (simp add: authKept_def)
    show ?thesis
    proof (cases rv)
      case (Inl e)
      then show ?thesis using assms b bu v a2 by (auto simp: doReauth_def)
    next
      case (Inr res)
      show ?thesis
      proof (cases "au_authenticated a \<and> au_userId a = Some (b_userId bd)")
        case True
        obtain t where a: "a = \<lparr>au_authenticated = True, au_userId = Some (b_userId bd), au_sessionToken = t\<rparr>"
          using True by (cases a) simp
        show ?thesis using assms b bu v Inr by (auto simp: doReauth_def setSession_def a)
      next
        case False
        then have "doReauth E (\<lambda>w. w\<lparr>auth := a\<rparr>) w = (Inr False, w2\<lparr>auth := a\<rparr>)"
          using b bu v Inr by (auto simp: doReauth_def)
        then show ?thesis using assms by auto
      qed
    qed
  qed
qed

definition renewKept :: "world \<Rightarrow> world \<Rightarrow> bool" where
  "renewKept w w' \<longleftrightarrow> renewBackoffMs w' = renewBackoffMs w \<and> renewTimer w' = renewTimer w"

interpretation rn: step_relation renewKept
  by unfold_locales (auto simp: renewKept_def)

lemma keeps_rn_ak: "keeps authKept m \<Longrightarrow> keeps renewKept m"
  by (erule keeps_mono) (simp add: authKept_def renewKept_def)

lemma keeps_rn_doReauth:
  assumes "\<And>w. renewKept w (g w)"
  shows "keeps renewKept (doReauth E g)"
proof -
  have "keeps renewKept (setSession t u)" "keeps renewKept (spawn k)" for t u k
    by (simp_all add: keeps_def setSession_def renewKept_def)
  note ss = this
  show ?thesis
    unfolding doReauth_def
    by (intro rn.keeps_rules rn.keeps_modify assms ss keeps_rn_ak [OF keeps_ak_loadBundle]
          keeps_rn_ak [OF keeps_ak_authenticate])
qed

text \<open>Renewal neither stops by itself nor spins: unless it was switched off while the
  server was asked (state \<open>wr\<close>), every run of the timer sets the next one, at 22 hours after a
  success and otherwise after a back-off of at least one and at most 15 minutes, which doubles
  from one failure to the next. Switched off, it sets none.\<close>

theorem runRenewal_reschedules:
  assumes on: "renewEnabled w" and backoff: "renewBackoffMs w = 0 \<or> 60000 \<le> renewBackoffMs w \<and> renewBackoffMs w \<le> 900000"
    and others: "\<And>w. renewBackoffMs (g w) = renewBackoffMs w \<and> renewTimer (g w) = renewTimer w"
    and asked: "doReauth E g w = (Inr ok, wr)"
  shows "\<exists>w'. runRenewal E g w = (Inr (), w') \<and>
    (if \<not> renewEnabled wr then renewTimer w' = renewTimer w
     else if ok then renewTimer w' = Some (22 * 3600 * 1000) \<and> renewBackoffMs w' = 0
     else (\<exists>d. renewTimer w' = Some d \<and> renewBackoffMs w' = d \<and> 60000 \<le> d \<and> d \<le> 900000 \<and>
             d = (if renewBackoffMs w = 0 then 60000 else min (2 * renewBackoffMs w) 900000)))"
proof -
  have kept: "renewBackoffMs wr = renewBackoffMs w" "renewTimer wr = renewTimer w"
    using keepsD [OF keeps_rn_doReauth asked] others by (simp_all add: renewKept_def)
  consider "\<not> renewEnabled wr" | "renewEnabled wr" ok | "renewEnabled wr" "\<not> ok" by blast
  then show ?thesis
  proof cases
    case 3
    then show ?thesis
      using on asked kept backoff
      by (auto simp: runRenewal_def scheduleRenewal_def MAX_BACKOFF_MS_def)
  qed (use on asked kept in \<open>auto simp: runRenewal_def scheduleRenewal_def TOKEN_TTL_MS_def RENEW_LEAD_MS_def\<close>)
qed

end
