(* ===== verification/MessagingWitnesses.thy ===== *)
theory MessagingWitnesses
  imports Witnesses Delivery AuthSession
begin

text \<open>
  Instances of the properties of messaging, receipts, files, sessions and devices, on the
  sample environment.
\<close>

section \<open>Wire format\<close>

theorem decodeContent_encode_witness:
  "decodeContent env0 (encodeText env0 ''hi'' 5 (Some \<lparr>rr_tokenId = [1], rr_requestDelivery = True, rr_requestRead = False\<rparr>))
     = Inr (noContent\<lparr>dc_text := Some \<lparr>dt_body = ''hi'', dt_sentAt = 5\<rparr>,
         dc_receiptRequest := Some \<lparr>rr_tokenId = [1], rr_requestDelivery = True, rr_requestRead = False\<rparr>\<rparr>)"
  using decodeContent_encode [of env0 5 "Some \<lparr>rr_tokenId = [1], rr_requestDelivery = True, rr_requestRead = False\<rparr>" "''hi''"]
  by (simp add: safeInt_def)

theorem decodeEnvelope_encode_witness:
  "decodeEnvelope env0 (encodeEnvelope env0 [1] [2] None)
     = Inr \<lparr>de_header = [1], de_ciphertext = [2], de_pqxdh = None, de_deviceSync = None\<rparr>"
  using decodeEnvelope_encode [of env0 None "\<lparr>ds_toDevice = [1], ds_fromDevice = [2], ds_blob = [3]\<rparr>" "[1]" "[2]"] by simp

section \<open>Outbox\<close>

definition outboxRow0 :: OutboxRow where
  "outboxRow0 = \<lparr>o_id = 1, o_peer_id = ''px_peer'', o_sealed_b64 = ''AA=='', o_local_msg_id = ''m1'', o_created_at = 0,
     o_attempts = 0, o_ttl_seconds = None\<rparr>"

definition dbOutbox :: privexDB where
  "dbOutbox = dbMessage\<lparr>outbox_tbl := [(1, outboxRow0)]\<rparr>"

theorem flushOutbox_settles_in_order_witness:
  "\<exists>w' fs xs. flushOutbox env0 (api_sendMessage env0) (Some ''tok'') (world0\<lparr>idb := dbOutbox\<rparr>) = (Inr (), w') \<and>
     \<not> flushing w' \<and> netlog w' = xs \<and> flushed env0 ''tok'' [outboxRow0] fs (map fst xs)"
proof -
  let ?w = "world0\<lparr>idb := dbOutbox\<rparr>"
  have rows: "outboxRows (idb ?w) = [outboxRow0]" by (simp add: dbOutbox_def outboxRows_def toArray_def)
  have keyed: "outboxKeyed (idb ?w)" by (simp add: dbOutbox_def outboxKeyed_def outboxRow0_def twf_def)
  have ids: "distinct (filter (\<lambda>x. x \<noteq> []) (map o_local_msg_id (outboxRows (idb ?w))))" unfolding rows by simp
  obtain w' fs xs where "flushOutbox env0 (api_sendMessage env0) (Some ''tok'') ?w = (Inr (), w')" "\<not> flushing w'"
    "netlog w' = netlog ?w @ xs" "flushed env0 ''tok'' (outboxRows (idb ?w)) fs (map fst xs)"
    using flushOutbox_settles_in_order [OF _ _ keyed ids, of "''tok''" env0] by (auto simp del: flushed.simps)
  then show ?thesis unfolding rows by (intro exI [where x = w'] exI [where x = fs] exI [where x = xs]) simp
qed

section \<open>Receipts\<close>

theorem queueDeliveryReceipt_guarded_witness:
  "idb (snd (queueDeliveryReceipt env0 ''px_peer'' [1] world0)) = db0"
proof -
  obtain r w' where "queueDeliveryReceipt env0 ''px_peer'' [1] world0 = (r, w')" by fastforce
  from queueDeliveryReceipt_guarded [OF this] this show ?thesis by (simp add: flagOn_def)
qed

definition receiptRow0 :: ReceiptOutboxRow where
  "receiptRow0 = \<lparr>r_id = 1, r_to = ''px_peer'', r_token_hex = ''01'', r_receipt_type = Delivered, r_queued_at = 0, r_not_before = 0\<rparr>"

theorem drainReceipts_only_due_to_accepted_witness:
  "drainReceipts env0 (\<lambda>to tok ty. if to = ''px_peer'' then ret () else throw (JsError ''wrong peer''))
       (world0\<lparr>idb := db0\<lparr>receipt_tbl := [(1, receiptRow0)]\<rparr>\<rparr>)
     = drainReceipts env0 (\<lambda>to tok ty. ret ()) (world0\<lparr>idb := db0\<lparr>receipt_tbl := [(1, receiptRow0)]\<rparr>\<rparr>)"
  by (rule drainReceipts_only_due_to_accepted) (simp add: toArray_def receiptRow0_def)

definition sentMessage0 :: MessageRow where
  "sentMessage0 = message0\<lparr>m_receipt_token := Some [7]\<rparr>"

theorem applyIncomingReceipt_only_upgrades_witness:
  "netlog (snd (applyIncomingReceipt ''px_peer'' [7] Read (world0\<lparr>idb := db0\<lparr>messages_tbl := [(''m1'', sentMessage0)]\<rparr>\<rparr>))) = []"
proof -
  let ?w = "world0\<lparr>idb := db0\<lparr>messages_tbl := [(''m1'', sentMessage0)]\<rparr>\<rparr>"
  obtain r w' where "applyIncomingReceipt ''px_peer'' [7] Read ?w = (r, w')" by fastforce
  moreover have "keyedBy m_msg_id (messages_tbl (idb ?w))" by (simp add: keyedBy_def sentMessage0_def message0_def)
  ultimately show ?thesis using applyIncomingReceipt_only_upgrades by fastforce
qed

section \<open>Linked devices\<close>

definition device0 :: "string \<Rightarrow> world" where
  "device0 d = world0\<lparr>idb := db0\<lparr>settings_tbl :=
     [(ENABLED_KEY, \<lparr>st_key = ENABLED_KEY, st_value = JBool True\<rparr>), (DEVICE_ID_KEY, \<lparr>st_key = DEVICE_ID_KEY, st_value = JStr d\<rparr>)]\<rparr>\<rparr>"

definition syncRecord0 :: SyncRecord where
  "syncRecord0 = \<lparr>sr_msg_id = ''m1'', sr_peer_id = ''px_peer'', sr_kind = KText, sr_content = ''hi'', sr_ts = 5, sr_token_hex = None\<rparr>"

lemma syncRecord0_short: "length (stringify (syncJson syncRecord0)) < 200"
  by code_simp

theorem linked_devices_sync_witness:
  "\<exists>wA1 wB1 k blob wA2. storeLinkedDevice env0 [1] ''0b'' ''B'' (device0 ''0a'') = (Inr (), wA1) \<and>
     storeLinkedDevice env0 [1] ''0a'' ''A'' (device0 ''0b'') = (Inr (), wB1) \<and>
     syncTargets env0 wA1 = (Inr [(''0b'', k)], wA1) \<and> encryptSyncRecord env0 syncRecord0 k wA1 = (Inr blob, wA2) \<and>
     openSyncBlob env0 ''0a'' blob wB1 = (Inr syncRecord0, wB1)"
proof (rule linked_devices_sync [OF aes0 hkdf0])
  show "keyOf (device0 ''0a'') = Some key0" "keyOf (device0 ''0b'') = Some key0"
    by (simp_all add: device0_def keyOf_def ksKey_def world0_def)
  show "int (length (stringify (syncJson syncRecord0))) < 2 ^ 32"
    using syncRecord0_short by simp
qed (simp_all add: device0_def syncRecord0_def ENABLED_KEY_def DEVICE_ID_KEY_def tget_def)

section \<open>Key watch\<close>

definition deps0 :: KeyWatchDeps where
  "deps0 = \<lparr>kw_loadBundle = ret (Some bundle0), kw_verifyHybrid = (\<lambda>t d a b c e. Inr True)\<rparr>"

definition spk0 :: AccountSpk where
  "spk0 = \<lparr>as_spk_x25519 = ''ff'', as_spk_sig_ed = ''01'', as_spk_sig_dil = ''02''\<rparr>"

theorem checkAccountKeys_alerts_exactly_witness:
  "\<exists>w'. checkAccountKeys deps0 (Some spk0) world0 = (Inr (), w') \<and> netlog w' = netlog world0 \<and>
     settingOf (idb w') (alertKey ''px_me'') =
       (if alarm deps0 (tick world0) db0 bundle0 spk0 then Some (JStr (toLower ''ff''))
        else settingOf db0 (alertKey ''px_me''))"
  using checkAccountKeys_alerts_exactly [of deps0 world0 bundle0 world0 spk0]
  by (auto simp: deps0_def settingOf_def spk0_def)

lemma deps0_load: "kw_loadBundle deps0 w = (Inr (Some bundle0), w)"
  by (simp add: deps0_def)

definition alerted0 :: world where
  "alerted0 = world0\<lparr>idb := db0\<lparr>settings_tbl :=
     [(alertKey ''px_me'', \<lparr>st_key = alertKey ''px_me'', st_value = JStr ''ff''\<rparr>)]\<rparr>\<rparr>"

theorem dismissed_key_stays_silent_witness:
  "\<exists>w1 w2. dismissKeyAlert ''px_me'' alerted0 = (Inr (), w1) \<and> hasKeyAlert ''px_me'' w1 = (Inr False, w1) \<and>
     checkAccountKeys deps0 (Some spk0) w1 = (Inr (), w2) \<and> hasKeyAlert ''px_me'' w2 = (Inr False, w2)"
proof (rule dismissed_key_stays_silent [OF _ _ deps0_load])
  show "settingOf (idb alerted0) (alertKey ''px_me'') = Some (JStr ''ff'')"
    by (simp add: alerted0_def settingOf_def tget_def)
  show "\<exists>ks. settingOf (idb alerted0) (knownKey ''px_me'') \<in> {None, Some (JArr ks)}"
    by (simp add: alerted0_def settingOf_def tget_def knownKey_def alertKey_def)
  show "toLower (as_spk_x25519 spk0) = ''ff''" by code_simp
qed simp

section \<open>Sign-in\<close>

theorem doReauth_never_revives_witness:
  "auth (snd (doReauth env0 (\<lambda>w. w\<lparr>auth := \<lparr>au_authenticated = False, au_userId = None, au_sessionToken = None\<rparr>\<rparr>) world0)) \<in>
     {\<lparr>au_authenticated = False, au_userId = None, au_sessionToken = None\<rparr>, auth world0}"
proof -
  let ?g = "\<lambda>w. w\<lparr>auth := \<lparr>au_authenticated = False, au_userId = None, au_sessionToken = None\<rparr>\<rparr>"
  obtain r w' where "doReauth env0 ?g world0 = (r, w')" by fastforce
  from doReauth_never_revives [OF this] this show ?thesis by auto
qed

theorem runRenewal_reschedules_witness:
  "\<exists>w'. runRenewal env0 (\<lambda>w. w) (world0\<lparr>renewEnabled := True\<rparr>) = (Inr (), w')"
proof -
  have "doReauth env0 (\<lambda>w. w) (world0\<lparr>renewEnabled := True\<rparr>) = (Inr False, world0\<lparr>renewEnabled := True\<rparr>)"
    by (simp add: doReauth_def loadBundle_def loadProgress_def)
  from runRenewal_reschedules [OF _ _ _ this] show ?thesis by (auto simp: world0_def)
qed

section \<open>Files\<close>

theorem file_roundtrip_witness:
  "\<exists>chunks sha w'. encryptFile env0 [1, 2, 3] [4] world0 = (Inr (chunks, sha), w') \<and>
     (\<forall>w''. reassembleAndVerify env0 (map snd chunks) [4] sha w'' = (Inr [1, 2, 3], w''))"
  by (rule file_roundtrip [OF aes0])

definition meta0 :: FileMeta where
  "meta0 = \<lparr>fm_name = ''a'', fm_mime = ''text/plain'', fm_size = 3, fm_sha256 = [], fm_chunks = [''../../etc''],
     fm_cek = toHex (replicate 32 1), fm_thumb = None\<rparr>"

theorem download_is_confined_witness: "snd (downloadAndDecrypt env0 meta0 world0) = world0"
proof -
  obtain r w' where "downloadAndDecrypt env0 meta0 world0 = (r, w')" by fastforce
  moreover have "\<not> list_all (lowerHexN 64) (fm_chunks meta0)" by (simp add: meta0_def lowerHexN_def)
  ultimately show ?thesis using download_is_confined by fastforce
qed

definition file0 :: fileInput where
  "file0 = \<lparr>fi_name = ''a.txt'', fi_type = ''text/plain'', fi_bytes = [], fi_thumbnail = None\<rparr>"

lemma uploaded0: "\<exists>x w'. encryptAndUpload env0 (workerFileCrypto env0) file0 [7] world0 = (Inr x, w')"
proof -
  have put: "\<exists>w'. putBlob env0 c b tok w = (Inr (), w')" for c b tok w
    by (simp add: putBlob_def run_fetchReq env0_def rspOk_def)
  have wrap: "fc_wrapCek (workerFileCrypto env0) t c r = Inr \<lparr>wc_wrapped = c, wc_ephPub = replicate 32 4\<rparr>" for t c r
    by (simp add: workerFileCrypto_def wrapCek_def env0_def wasm0_def)
  have man: "\<exists>x w'. fileManifest env0 (workerFileCrypto env0) file0 cek chunks sha [7] w = (Inr x, w')" for cek chunks sha w
    by (simp add: fileManifest_def wrap encMeta_def file0_def)
  have cek: "fc_generateCek (workerFileCrypto env0) t = Inr (replicate 32 3)" for t
    by (simp add: workerFileCrypto_def generateCek_def env0_def wasm0_def)
  have "chunkCount [] = 1" by (simp add: chunkCount_def CHUNK_SIZE_def)
  then have enc: "\<exists>c s w'. encryptFile env0 (fi_bytes file0) k w = (Inr ([c], s), w') \<and> auth w' = auth w" for k w
    by (simp add: encryptFile_def encryptChunk_def file0_def)
  obtain c s w1 where w1: "encryptFile env0 (fi_bytes file0) (replicate 32 3) (world0\<lparr>tick := 1\<rparr>) = (Inr ([c], s), w1)"
    "auth w1 = auth world0" using enc [of "replicate 32 3" "world0\<lparr>tick := 1\<rparr>"] by auto
  obtain w2 where w2: "putBlob env0 (fst c) (snd c) ''tok'' w1 = (Inr (), w2)" using put by blast
  have "encryptAndUpload env0 (workerFileCrypto env0) file0 [7] world0 =
      fileManifest env0 (workerFileCrypto env0) file0 (replicate 32 3) [c] s [7] w2"
    using w1 w2 by (simp add: encryptAndUpload_def cek files_token_def)
  then show ?thesis using man by metis
qed

theorem manifest_roundtrip_witness:
  "\<exists>flds meta w' w2. encryptAndUpload env0 (workerFileCrypto env0) file0 [7] world0 = (Inr (flds, meta), w') \<and>
     materializeIncoming env0 (workerFileCrypto env0) flds [8] world0 = (Inr meta, w2)"
proof -
  obtain flds meta w' where up: "encryptAndUpload env0 (workerFileCrypto env0) file0 [7] world0 = (Inr (flds, meta), w')"
    using uploaded0 by (metis surj_pair)
  have "wrap_correct (workerFileCrypto env0) [7] [8]"
    by (simp add: wrap_correct_def workerFileCrypto_def wrapCek_def unwrapCek_def env0_def wasm0_def bindE_Inr)
  from manifest_roundtrip [OF aes0 _ this up] up show ?thesis by simp
qed

section \<open>Sessions and messages\<close>


abbreviation mc0 :: MessageCryptoApi where "mc0 \<equiv> workerMessageCrypto env0"

theorem visible_message_needs_accepted_witness:
  "idb (snd (sealAndSend env0 mc0 ''px_peer'' [1] (Some \<lparr>sq_content = ''hi'', sq_kind = KText, sq_receiptToken = None\<rparr>) None world0)) = db0"
proof -
  let ?s = "\<lparr>sq_content = ''hi'', sq_kind = KText, sq_receiptToken = None\<rparr>"
  obtain r w' where "sealAndSend env0 mc0 ''px_peer'' [1] (Some ?s) None world0 = (r, w')" by fastforce
  from visible_message_needs_accepted [OF _ this] this show ?thesis by (simp add: effStatus_def)
qed

theorem postOrPark_never_loses_witness:
  "length (netlog (snd (postOrPark env0 ''px_peer'' ''AA=='' ''l1'' True 60 world0))) \<le> 1"
proof -
  obtain r w' where "postOrPark env0 ''px_peer'' ''AA=='' ''l1'' True 60 world0 = (r, w')" by fastforce
  from postOrPark_never_loses [OF this] this show ?thesis by simp
qed

definition session0 :: SessionRow where
  "session0 = \<lparr>se_session_id = ''px_peer'', se_peer_id = ''px_peer'',
     se_ratchet_state_enc = replicate 12 0 @ textEncode (toHex [4]), se_pqxdh_init_enc = None, se_created_at = 0,
     se_received_ok = Some True\<rparr>"

definition loaded0 :: LoadedSession where
  "loaded0 = \<lparr>ls_ratchetState = [4], ls_pqxdhInit = None, ls_receivedOk = True\<rparr>"

definition peerDb :: privexDB where
  "peerDb = db0\<lparr>sessions_tbl := [(''px_peer'', session0)], contacts_tbl := [(''px_peer'',
     \<lparr>c_px_id = ''px_peer'', c_ik_ed25519_pub = Some [9], c_ik_x25519_pub = Some (replicate 32 9), c_display_name_enc = None,
      c_verified_fingerprint = None, c_status = Some Accepted, c_added_at = 0\<rparr>)]\<rparr>"

lemma session0_of: "sessionOf env0 key0 session0 = Some loaded0"
  by (simp add: sessionOf_def session0_def loaded0_def reads_def env0_def IV_LEN_def del: toHex.simps)

theorem ratchet_saved_before_posting_witness:
  "\<exists>xs. netlog (snd (sealAndSend env0 mc0 ''px_peer'' [1] None None (world0\<lparr>idb := peerDb\<rparr>))) = xs \<and>
     (\<forall>x \<in> set xs. advanced env0 key0 mc0 ''px_peer'' loaded0 [1] (snd x))"
proof -
  let ?w = "world0\<lparr>idb := peerDb\<rparr>"
  obtain r w' where run: "sealAndSend env0 mc0 ''px_peer'' [1] None None ?w = (r, w')" by fastforce
  have key: "keyOf ?w = Some key0" by (simp add: keyOf_def ksKey_def world0_def)
  have row: "tget (sessions_tbl (idb ?w)) ''px_peer'' = Some session0" by (simp add: peerDb_def tget_def)
  from ratchet_saved_before_posting [OF aes0 key row session0_of run] run show ?thesis by simp
qed

section \<open>Deliveries\<close>

definition pqx1 :: PqxdhInitWire where
  "pqx1 = \<lparr>alice_ik_pub = [5], alice_ek_pub = [7], kyber_ciphertext = [6], opk_used = False, opk_id = 0\<rparr>"

definition delivery0 :: "PqxdhInitWire option \<Rightarrow> WSMessage" where
  "delivery0 pq = \<lparr>ws_message_id = ''d1'', ws_content = b64encode (encodeEnvelope env0 [1] [2] pq), ws_queued_at = 5,
     ws_server_ts = None, ws_server_ts_sig = None\<rparr>"

lemma pqx1_simps [simp]: "alice_ik_pub pqx1 = [5]" "alice_ek_pub pqx1 = [7]"
  by (simp_all add: pqx1_def)

definition sealed0 :: "bytes \<Rightarrow> SealedOpened" where
  "sealed0 b = \<lparr>so_plaintext = b, so_senderId = ''px_peer'', so_senderEdPub = [9], so_senderX25519Pub = replicate 32 9,
     so_senderVerified = True\<rparr>"

lemma sealed0_simps [simp]:
  "so_plaintext (sealed0 b) = b" "so_senderId (sealed0 b) = ''px_peer''" "so_senderEdPub (sealed0 b) = [9]"
  "so_senderX25519Pub (sealed0 b) = replicate 32 9" "so_senderVerified (sealed0 b)"
  by (simp_all add: sealed0_def)

lemma opened0: "mc_sealedSenderDecrypt mc0 t b k n = Inr (sealed0 b)"
  by (simp add: sealed0_def workerMessageCrypto_def sealedSenderDecrypt_def env0_def wasm0_def Let_def)

lemma envelope0:
  "decodeEnvelope env0 (encodeEnvelope env0 h c (Some pqx1)) =
     Inr \<lparr>de_header = h, de_ciphertext = c, de_pqxdh = Some pqx1, de_deviceSync = None\<rparr>"
  by (simp add: decodeEnvelope_def encodeEnvelope_def env0_def jsonWire_def pqx1_def)

theorem rejected_delivery_leaves_no_trace_witness:
  "ackOnly env0 ''d1'' world0 (snd (receiveMessage env0 mc0 (\<lambda>t a b c. Inr True) (delivery0 (Some pqx1)) world0))"
proof -
  obtain r w' where run: "receiveMessage env0 mc0 (\<lambda>t a b c. Inr True) (delivery0 (Some pqx1)) world0 = (r, w')" by fastforce
  have "ackOnly env0 (ws_message_id (delivery0 (Some pqx1))) world0 w'"
  proof (rule rejected_delivery_leaves_no_trace [OF _ _ run])
    fix blob t n opened env
    assume "b64decode (ws_content (delivery0 (Some pqx1))) = Inr blob"
      "mc_sealedSenderDecrypt mc0 t blob (x25519_priv (b_identity bundle0)) n = Inr opened"
      "decodeEnvelope env0 (so_plaintext opened) = Inr env"
    then show "rejected (idb world0) bundle0 opened env"
      by (auto simp: delivery0_def opened0 envelope0 rejected_def dest!: arg_cong [where f = length])
  qed simp
  then show ?thesis using run by (simp add: delivery0_def)
qed

definition dbAdopted :: privexDB where
  "dbAdopted = db0\<lparr>handshakes_tbl := [(toHex [7], \<lparr>hs_ek = toHex [7], hs_at = 0\<rparr>)]\<rparr>"


lemma ackMessages0: "ackMessages env0 [i] tok w = (Inr 1, afterReq (ack_req env0 [i] tok) w)"
  by (simp add: ackMessages_def post_api_def run_fetchReq jsonReply_def intField_def typed_def ack_req_def
      env0_def reply0_def rspOk_def)

lemma ack0: "au_sessionToken (auth w) = Some ''tok'' \<Longrightarrow> \<exists>w'. ackDelivered env0 i w = (Inr (), w')"
  using ackMessages0 [of i "''tok''"] by (simp add: ackDelivered_def run_token)

lemma received0:
  "\<exists>w'. receiveMessage env0 mc0 (\<lambda>t a b c. Inr True) (delivery0 (Some pqx1)) world0 = (Inr (), w')"
proof -
  let ?b = "encodeEnvelope env0 [1] [2] (Some pqx1)" and ?w1 = "world0\<lparr>tick := Suc (Suc 0)\<rparr>"
  let ?e = "\<lparr>de_header = [1], de_ciphertext = [2], de_pqxdh = Some pqx1, de_deviceSync = None\<rparr>"
  have blocked: "isBlocked env0 ''px_peer'' ?w1 = (Inr False, ?w1)"
  proof -
    have "getMasterKey env0 ?w1 = (Inr key0, ?w1)" by (rule getMasterKey_keyOf) (simp add: keyOf_def ksKey_def world0_def)
    then have "contactsStore env0 ?w1 = (Inr (Inr key0), ?w1)" by (simp add: contactsStore_def attempt_def)
    then show ?thesis by (simp add: isBlocked_def getContact_def contacts_get_def)
  qed
  have delivery_simps: "ws_message_id (delivery0 (Some pqx1)) = ''d1''" "ws_content (delivery0 (Some pqx1)) = b64encode ?b"
    by (simp_all add: delivery0_def)
  have time: "checkDeliveryTime env0 (delivery0 (Some pqx1)) v w = (Inr unanchored, w)" for v w
    by (simp add: checkDeliveryTime_def delivery0_def)
  have opn: "attempt (openSealed env0 mc0 bundle0 ?b n) w = (Inr (Inr (sealed0 ?b, ?e)), w\<lparr>tick := Suc (tick w)\<rparr>)" for n w
    by (simp add: attempt_def openSealed_def opened0 envelope0)
  have kc: "isKeyChanged ''px_peer'' [9] ?w1 = (Inr False, ?w1)" by (simp add: isKeyChanged_def)
  have unb: "\<not> bound True (sealed0 ?b) pqx1" by (auto simp: bound_def dest!: arg_cong [where f = length])
  have "dispatch env0 mc0 bundle0 (delivery0 (Some pqx1)) None (sealed0 ?b) ?e ?w1 = ackDelivered env0 ''d1'' ?w1"
    using kc unb by (simp add: dispatch_def Let_def blocked delivery0_def)
  then have "receiveMessage env0 mc0 (\<lambda>t a b c. Inr True) (delivery0 (Some pqx1)) world0 = ackDelivered env0 ''d1'' ?w1"
    using opn time by (simp add: receiveMessage_def myBundle_def unanchored_def delivery_simps del: b64encode.simps)
  then show ?thesis using ack0 [of ?w1] by simp
qed

theorem receiveMessage_acks_last_witness:
  "endsAcked env0 ''d1'' world0 (snd (receiveMessage env0 mc0 (\<lambda>t a b c. Inr True) (delivery0 (Some pqx1)) world0)) \<or>
   forOtherDevice env0 mc0 (delivery0 (Some pqx1)) (snd (receiveMessage env0 mc0 (\<lambda>t a b c. Inr True) (delivery0 (Some pqx1)) world0))"
proof -
  obtain w' where "receiveMessage env0 mc0 (\<lambda>t a b c. Inr True) (delivery0 (Some pqx1)) world0 = (Inr (), w')"
    using received0 by blast
  from receiveMessage_acks_last [OF this] this show ?thesis by (auto simp: delivery0_def)
qed

end
