(* ===== verification/Websocket.thy ===== *)
theory Websocket
  imports Delivery
begin

text \<open>
  The realtime socket (\<^verbatim>\<open>services/websocket.ts\<close>): a ticket is fetched, a socket opened
  with it, frames are handled one after the other, a lost socket is reopened after a growing
  delay. The module's variables are one record; a call of \<open>open\<close> that waits for its ticket, a
  pending \<open>setTimeout\<close> and the sockets with their ready state are part of it. Each callback is
  one operation, and the browser decides which callback runs next.
\<close>

definition MAX_BACKOFF :: int where "MAX_BACKOFF = 300000"
definition STALE_MS :: int where "STALE_MS = 90000"

datatype readyState = CONNECTING | OPEN | CLOSING | CLOSED

text \<open>A ticket request under way has its generation and the answer it will get; a socket has
  the generation of the attempt that made it.\<close>

record wsState =
  wk_ws :: "nat option"
  wk_socks :: "nat \<rightharpoonup> nat \<times> readyState"
  wk_next :: nat
  wk_token :: "string option"
  wk_stopped :: bool
  wk_retry :: nat
  wk_lastFrameAt :: int
  wk_gen :: nat
  wk_connected :: bool
  wk_frames :: "string list"
  wk_opening :: "(nat \<times> (error + string \<times> AccountSpk option)) list"
  wk_timers :: "(nat \<times> real) list"
  wk_sent :: "(nat \<times> json) list"

record app =
  ap_ws :: wsState
  ap_world :: world

type_synonym appAct = "app \<Rightarrow> app"

definition onWs :: "(wsState \<Rightarrow> wsState) \<Rightarrow> appAct" where
  "onWs f a = a\<lparr>ap_ws := f (ap_ws a)\<rparr>"

text \<open>Run a program of the core for its effect (its error is caught or the program has none).\<close>

definition onWorld :: "unit act \<Rightarrow> appAct" where
  "onWorld m a = a\<lparr>ap_world := snd (m (ap_world a))\<rparr>"

section \<open>Status and frames\<close>

definition setStatus :: "bool \<Rightarrow> appAct" where
  "setStatus s = onWs (\<lambda>k. k\<lparr>wk_connected := s\<rparr>)"

definition getWsStatus :: "app \<Rightarrow> bool" where
  "getWsStatus a = wk_connected (ap_ws a)"

definition wsSend :: "json \<Rightarrow> appAct" where
  "wsSend obj = onWs (\<lambda>k. case wk_ws k of None \<Rightarrow> k | Some i \<Rightarrow>
     if map_option snd (wk_socks k i) = Some OPEN then k\<lparr>wk_sent := wk_sent k @ [(i, obj)]\<rparr> else k)"

text \<open>Frames have the declared types; a field of another type counts as absent.\<close>

definition frameMessage :: "json \<Rightarrow> WSMessage option" where
  "frameMessage j =
     (case (jstr (jget ''message_id'' j), jstr (jget ''content'' j)) of
        (Some (c # cs), Some content) \<Rightarrow> Some
          \<lparr>ws_message_id = c # cs, ws_content = content, ws_queued_at = orElse (jint (jget ''queued_at'' j)) 0,
           ws_server_ts = jint (jget ''server_ts'' j), ws_server_ts_sig = jstr (jget ''server_ts_sig'' j)\<rparr>
      | _ \<Rightarrow> None)"

definition handleFrame :: "env \<Rightarrow> MessageCryptoApi \<Rightarrow> verifyEd25519 \<Rightarrow> string \<Rightarrow> appAct" where
  "handleFrame E mc v txt a =
     (case json_parse txt of None \<Rightarrow> a
      | Some j \<Rightarrow>
          (let type = jstr (jget ''type'' j) in
           if type = Some ''message'' then
             (case frameMessage j of None \<Rightarrow> a | Some m \<Rightarrow> onWorld (ignoreErrors (receiveMessage E mc v m)) a)
           else if type = Some ''ping'' then wsSend (JObj [(''type'', JStr ''pong'')]) a
           else if type = Some ''prekey_low'' then onWorld (spawn (TPrekeyUpkeep True)) a
           else a))"

text \<open>\<open>frameChain\<close>: the next frame is handled when the one before it has ended.\<close>

definition runFrame :: "env \<Rightarrow> MessageCryptoApi \<Rightarrow> verifyEd25519 \<Rightarrow> appAct" where
  "runFrame E mc v a =
     (case wk_frames (ap_ws a) of [] \<Rightarrow> a
      | f # fs \<Rightarrow> handleFrame E mc v f (onWs (\<lambda>k. k\<lparr>wk_frames := fs\<rparr>) a))"

section \<open>Connecting\<close>

definition scheduleReconnect :: "env \<Rightarrow> nat \<Rightarrow> appAct" where
  "scheduleReconnect E myGen a =
     (if wk_stopped (ap_ws a) \<or> myGen \<noteq> wk_gen (ap_ws a) then a
      else a\<lparr>ap_ws := (ap_ws a)\<lparr>wk_retry := Suc (wk_retry (ap_ws a)),
               wk_timers := wk_timers (ap_ws a) @
                 [(myGen, of_int (min MAX_BACKOFF (1000 * 2 ^ wk_retry (ap_ws a))) + rand_unit E (tick (ap_world a)) * 1000)]\<rparr>,
             ap_world := (ap_world a)\<lparr>tick := Suc (tick (ap_world a))\<rparr>\<rparr>)"

text \<open>\<open>open\<close> up to the request for the ticket.\<close>

definition openSocket :: "env \<Rightarrow> nat \<Rightarrow> appAct" where
  "openSocket E myGen a =
     (if wk_stopped (ap_ws a) \<or> orElse (wk_token (ap_ws a)) [] = [] \<or> myGen \<noteq> wk_gen (ap_ws a) then a
      else case wsTicket E (the (wk_token (ap_ws a))) (ap_world a) of
        (r, w) \<Rightarrow> a\<lparr>ap_ws := (ap_ws a)\<lparr>wk_opening := wk_opening (ap_ws a) @ [(myGen, r)]\<rparr>, ap_world := w\<rparr>)"

text \<open>\<open>open\<close> from the answer on.\<close>

definition ticketDone :: "env \<Rightarrow> nat \<Rightarrow> error + string \<times> AccountSpk option \<Rightarrow> appAct" where
  "ticketDone E myGen r a =
     (case r of
        Inl e \<Rightarrow> scheduleReconnect E myGen a
      | Inr t \<Rightarrow>
          (let a1 = onWorld (spawn (TCheckAccountKeys (snd t))) a in
           if wk_stopped (ap_ws a1) \<or> myGen \<noteq> wk_gen (ap_ws a1) then a1
           else onWs (\<lambda>k. k\<lparr>wk_socks := (wk_socks k)(wk_next k \<mapsto> (myGen, CONNECTING)), wk_next := Suc (wk_next k),
                            wk_ws := Some (wk_next k)\<rparr>) a1))"

definition closeSock :: "nat option \<Rightarrow> wsState \<Rightarrow> wsState" where
  "closeSock s k = (case s of None \<Rightarrow> k | Some i \<Rightarrow>
     (case wk_socks k i of None \<Rightarrow> k
      | Some (g, r) \<Rightarrow> if r = CLOSED then k else k\<lparr>wk_socks := (wk_socks k)(i \<mapsto> (g, CLOSING))\<rparr>))"

definition connectWebSocket :: "env \<Rightarrow> string \<Rightarrow> appAct" where
  "connectWebSocket E sessionToken a =
     (let a1 = onWs (\<lambda>k. k\<lparr>wk_token := Some sessionToken, wk_stopped := False\<rparr>) a;
          a2 = onWorld (spawn TPruneReceived) a1;
          a3 = onWs (\<lambda>k. k\<lparr>wk_gen := Suc (wk_gen k)\<rparr>) a2
      in openSocket E (wk_gen (ap_ws a3)) a3)"

definition disconnectWebSocket :: "appAct" where
  "disconnectWebSocket a =
     setStatus False (onWs (\<lambda>k. closeSock (wk_ws k) (k\<lparr>wk_stopped := True, wk_token := None, wk_gen := Suc (wk_gen k), wk_ws := None\<rparr>)) a)"

definition checkStaleness :: "env \<Rightarrow> bool \<Rightarrow> int \<Rightarrow> appAct" where
  "checkStaleness E visible now a =
     (let k = ap_ws a;
          stale = (case wk_ws k of None \<Rightarrow> True
             | Some i \<Rightarrow> map_option snd (wk_socks k i) = Some CLOSED \<or>
                 map_option snd (wk_socks k i) = Some OPEN \<and> now - wk_lastFrameAt k > STALE_MS) in
      if \<not> visible \<or> wk_stopped k \<or> orElse (wk_token k) [] = [] \<or> \<not> stale then a
      else (let a1 = setStatus False (onWs (\<lambda>k. closeSock (wk_ws k) (k\<lparr>wk_ws := None\<rparr>)) a);
                a2 = onWs (\<lambda>k. k\<lparr>wk_gen := Suc (wk_gen k)\<rparr>) a1
            in openSocket E (wk_gen (ap_ws a2)) a2))"

section \<open>Socket callbacks\<close>

definition onopen :: "nat \<Rightarrow> int \<Rightarrow> appAct" where
  "onopen i now a =
     onWorld (andThen (spawn TFlushOutbox) (spawn (TPrekeyUpkeep False))) (setStatus True
       (onWs (\<lambda>k. k\<lparr>wk_retry := 0, wk_lastFrameAt := now\<rparr>) a))"

definition onmessage :: "int \<Rightarrow> string \<Rightarrow> appAct" where
  "onmessage now txt = onWs (\<lambda>k. k\<lparr>wk_lastFrameAt := now, wk_frames := wk_frames k @ [txt]\<rparr>)"

definition onclose :: "env \<Rightarrow> nat \<Rightarrow> nat \<Rightarrow> appAct" where
  "onclose E i myGen a =
     (if wk_ws (ap_ws a) = Some i
      then scheduleReconnect E myGen (setStatus False (onWs (\<lambda>k. k\<lparr>wk_ws := None\<rparr>) a)) else a)"

section \<open>The state machine\<close>

text \<open>Which callback may run when. The app connects only from a disconnected state (the effect
  in \<^verbatim>\<open>App.tsx\<close> disconnects before it connects again); a closed socket delivers nothing;
  a frozen tab may lose a socket without hearing of it; anything else may happen to the core
  meanwhile.\<close>

inductive wsStep :: "env \<Rightarrow> MessageCryptoApi \<Rightarrow> verifyEd25519 \<Rightarrow> app \<Rightarrow> app \<Rightarrow> bool" for E mc v where
  connect: "wk_stopped (ap_ws a) \<or> wk_token (ap_ws a) = None \<Longrightarrow> tok \<noteq> [] \<Longrightarrow> wsStep E mc v a (connectWebSocket E tok a)"
| disconnect: "wsStep E mc v a (disconnectWebSocket a)"
| ticket: "wk_opening (ap_ws a) = xs @ (g, r) # ys \<Longrightarrow>
    wsStep E mc v a (ticketDone E g r (onWs (\<lambda>k. k\<lparr>wk_opening := xs @ ys\<rparr>) a))"
| timer: "wk_timers (ap_ws a) = xs @ (g, d) # ys \<Longrightarrow>
    wsStep E mc v a (openSocket E g (onWs (\<lambda>k. k\<lparr>wk_timers := xs @ ys\<rparr>) a))"
| opened: "wk_socks (ap_ws a) i = Some (g, CONNECTING) \<Longrightarrow>
    wsStep E mc v a (onopen i now (onWs (\<lambda>k. k\<lparr>wk_socks := (wk_socks k)(i \<mapsto> (g, OPEN))\<rparr>) a))"
| message: "wk_socks (ap_ws a) i = Some (g, OPEN) \<Longrightarrow> wsStep E mc v a (onmessage now txt a)"
| failed: "wsStep E mc v a (onWs (closeSock (Some i)) a)"
| closed: "wk_socks (ap_ws a) i = Some (g, r) \<Longrightarrow>
    wsStep E mc v a (onclose E i g (onWs (\<lambda>k. k\<lparr>wk_socks := (wk_socks k)(i \<mapsto> (g, CLOSED))\<rparr>) a))"
| lost: "wk_socks (ap_ws a) i = Some (g, r) \<Longrightarrow>
    wsStep E mc v a (onWs (\<lambda>k. k\<lparr>wk_socks := (wk_socks k)(i \<mapsto> (g, CLOSED))\<rparr>) a)"
| visible: "wsStep E mc v a (checkStaleness E vis now a)"
| frame: "wsStep E mc v a (runFrame E mc v a)"
| core: "wsStep E mc v a (a\<lparr>ap_world := w\<rparr>)"

inductive_cases wsStepE: "wsStep E mc v a a'"

definition wsInit :: wsState where
  "wsInit = \<lparr>wk_ws = None, wk_socks = (\<lambda>_. None), wk_next = 0, wk_token = None, wk_stopped = False, wk_retry = 0,
     wk_lastFrameAt = 0, wk_gen = 0, wk_connected = False, wk_frames = [], wk_opening = [], wk_timers = [], wk_sent = []\<rparr>"

inductive wsReach :: "env \<Rightarrow> MessageCryptoApi \<Rightarrow> verifyEd25519 \<Rightarrow> app \<Rightarrow> bool" for E mc v where
  start: "wsReach E mc v \<lparr>ap_ws = wsInit, ap_world = w\<rparr>"
| step: "wsReach E mc v a \<Longrightarrow> wsStep E mc v a a' \<Longrightarrow> wsReach E mc v a'"

section \<open>Exactly one connection attempt\<close>

definition active :: "wsState \<Rightarrow> bool" where
  "active k \<longleftrightarrow> \<not> wk_stopped k \<and> wk_token k \<noteq> None"

text \<open>What is under way for the current generation: a ticket request, a pending reconnect, or
  the socket itself.\<close>

definition attempts :: "wsState \<Rightarrow> nat" where
  "attempts k = length (filter (\<lambda>p. fst p = wk_gen k) (wk_opening k)) +
     length (filter (\<lambda>p. fst p = wk_gen k) (wk_timers k)) + (if wk_ws k = None then 0 else 1)"

definition live :: "wsState \<Rightarrow> nat \<Rightarrow> bool" where
  "live k i \<longleftrightarrow> (\<exists>g r. wk_socks k i = Some (g, r) \<and> r \<in> {CONNECTING, OPEN})"

definition wsCore :: "wsState \<Rightarrow> bool" where
  "wsCore k \<longleftrightarrow> (\<forall>i x. wk_socks k i = Some x \<longrightarrow> i < wk_next k) \<and>
     (\<forall>i. wk_ws k = Some i \<longrightarrow> (\<exists>r. wk_socks k i = Some (wk_gen k, r))) \<and>
     (\<forall>i. live k i \<longrightarrow> wk_ws k = Some i) \<and>
     (\<forall>p \<in> set (wk_opening k). fst p \<le> wk_gen k) \<and> (\<forall>p \<in> set (wk_timers k). fst p \<le> wk_gen k) \<and>
     (wk_connected k \<longrightarrow> wk_ws k \<noteq> None) \<and> wk_token k \<noteq> Some []"

definition wsInv :: "wsState \<Rightarrow> bool" where
  "wsInv k \<longleftrightarrow> wsCore k \<and> attempts k = (if active k then 1 else 0)"

lemma live_update [simp]:
  "live (k\<lparr>wk_ws := x1\<rparr>) = live k" "live (k\<lparr>wk_connected := x2\<rparr>) = live k" "live (k\<lparr>wk_next := x3\<rparr>) = live k"
  "live (k\<lparr>wk_opening := x4\<rparr>) = live k" "live (k\<lparr>wk_timers := x5\<rparr>) = live k" "live (k\<lparr>wk_gen := x6\<rparr>) = live k"
  "live (k\<lparr>wk_token := x7\<rparr>) = live k" "live (k\<lparr>wk_stopped := x8\<rparr>) = live k" "live (k\<lparr>wk_retry := x9\<rparr>) = live k"
  "live (k\<lparr>wk_lastFrameAt := x10\<rparr>) = live k" "live (k\<lparr>wk_frames := x11\<rparr>) = live k" "live (k\<lparr>wk_sent := x12\<rparr>) = live k"
  by (simp_all add: live_def fun_eq_iff)

lemma ws_access [simp]:
  "ap_ws (onWs f a) = f (ap_ws a)" "ap_world (onWs f a) = ap_world a" "ap_ws (onWorld m a) = ap_ws a"
  by (simp_all add: onWs_def onWorld_def)

lemma le_gen_filter: "\<forall>p \<in> set xs. fst p \<le> (g :: nat) \<Longrightarrow> filter (\<lambda>p. fst p = Suc g) xs = []"
  by (auto simp: filter_empty_conv)

lemma inv_openSocket:
  assumes "wsCore (ap_ws a)" "attempts (ap_ws a) = 0" "active (ap_ws a)" "g = wk_gen (ap_ws a)"
  shows "wsInv (ap_ws (openSocket E g a))"
proof -
  obtain r w where "wsTicket E (the (wk_token (ap_ws a))) (ap_world a) = (r, w)" by fastforce
  moreover have "orElse (wk_token (ap_ws a)) [] \<noteq> []" using assms(1,3) by (auto simp: wsCore_def active_def)
  ultimately show ?thesis
    using assms by (auto simp: openSocket_def wsInv_def wsCore_def attempts_def active_def)
qed

lemma openSocket_stale: "g \<noteq> wk_gen (ap_ws a) \<Longrightarrow> openSocket E g a = a"
  by (simp add: openSocket_def)

lemma inv_scheduleReconnect:
  assumes "wsCore (ap_ws a)" "attempts (ap_ws a) = 0"  "active (ap_ws a)" "g = wk_gen (ap_ws a)"
  shows "wsInv (ap_ws (scheduleReconnect E g a))"
  using assms by (auto simp: scheduleReconnect_def wsInv_def wsCore_def attempts_def active_def)

lemma scheduleReconnect_stale: "g \<noteq> wk_gen (ap_ws a) \<Longrightarrow> scheduleReconnect E g a = a"
  by (simp add: scheduleReconnect_def)

lemma not_active: "wsInv k \<Longrightarrow> \<not> active k \<Longrightarrow> wk_ws k = None \<and> (\<forall>p \<in> set (wk_opening k). fst p \<noteq> wk_gen k) \<and>
    (\<forall>p \<in> set (wk_timers k). fst p \<noteq> wk_gen k)"
  by (auto simp: wsInv_def attempts_def filter_empty_conv split: if_splits)

lemma inv_connect:
  assumes "wsInv (ap_ws a)" "\<not> active (ap_ws a)" "tok \<noteq> []"
  shows "wsInv (ap_ws (connectWebSocket E tok a))"
proof -
  have "wsCore (ap_ws a)" "wk_ws (ap_ws a) = None" using assms not_active by (auto simp: wsInv_def)
  then show ?thesis
    unfolding connectWebSocket_def Let_def using assms(3)
    by (intro inv_openSocket)
      (auto simp: wsCore_def attempts_def active_def le_gen_filter)
qed

lemma live_close: "live (closeSock (Some i) k) j \<Longrightarrow> live k j \<and> j \<noteq> i"
  by (auto simp: closeSock_def live_def split: option.splits if_splits)

lemma closeSock_simps [simp]:
  "wk_ws (closeSock s k) = wk_ws k" "wk_gen (closeSock s k) = wk_gen k" "wk_next (closeSock s k) = wk_next k"
  "wk_opening (closeSock s k) = wk_opening k" "wk_timers (closeSock s k) = wk_timers k" "wk_token (closeSock s k) = wk_token k"
  "wk_stopped (closeSock s k) = wk_stopped k" "wk_connected (closeSock s k) = wk_connected k"
  by (simp_all add: closeSock_def split: option.splits)

lemma closeSock_cur:
  assumes "\<forall>i. live k i \<longrightarrow> wk_ws k = Some i"
  shows "\<not> live (closeSock (wk_ws k) (k\<lparr>wk_stopped := b, wk_token := t, wk_gen := g, wk_ws := None\<rparr>)) i"
    "\<not> live (closeSock (wk_ws k) (k\<lparr>wk_ws := None\<rparr>)) i"
proof -
  have "\<not> live (closeSock (wk_ws k) k') i" if "wk_socks k' = wk_socks k" for k'
  proof (cases "wk_ws k")
    case None
    then show ?thesis using assms that by (auto simp: closeSock_def live_def)
  next
    case (Some j)
    then show ?thesis using assms that live_close [of j k' i] by (auto simp: live_def)
  qed
  then show "\<not> live (closeSock (wk_ws k) (k\<lparr>wk_stopped := b, wk_token := t, wk_gen := g, wk_ws := None\<rparr>)) i"
    "\<not> live (closeSock (wk_ws k) (k\<lparr>wk_ws := None\<rparr>)) i" by simp_all
qed

lemma closeSock_dom: "wk_socks (closeSock s k) i = Some x \<Longrightarrow> \<exists>y. wk_socks k i = Some y \<and> fst x = fst y"
  by (cases x) (auto simp: closeSock_def split: option.splits if_splits)

lemma closeSock_has: "wk_socks k i = Some (g, r) \<Longrightarrow> \<exists>r'. wk_socks (closeSock s k) i = Some (g, r')"
  by (auto simp: closeSock_def split: option.splits if_splits)

lemma inv_disconnect: "wsInv (ap_ws a) \<Longrightarrow> wsInv (ap_ws (disconnectWebSocket a))"
proof -
  assume inv: "wsInv (ap_ws a)"
  then have "\<forall>i. live (ap_ws a) i \<longrightarrow> wk_ws (ap_ws a) = Some i" by (auto simp: wsInv_def wsCore_def)
  from closeSock_cur(1) [OF this] inv show ?thesis
    unfolding disconnectWebSocket_def setStatus_def
    by (auto simp: wsInv_def wsCore_def attempts_def active_def le_gen_filter dest: closeSock_dom)
qed

lemma inv_socks:
  assumes "wsInv k" "wk_socks k i = Some (g, r)" "r' \<in> {CONNECTING, OPEN} \<Longrightarrow> wk_ws k = Some i"
  shows "wsInv (k\<lparr>wk_socks := (wk_socks k)(i \<mapsto> (g, r'))\<rparr>)"
proof -
  have "live (k\<lparr>wk_socks := (wk_socks k)(i \<mapsto> (g, r'))\<rparr>) j \<Longrightarrow> wk_ws k = Some j" for j
    using assms by (cases "j = i") (auto simp: live_def wsInv_def wsCore_def)
  then show ?thesis using assms by (auto simp: wsInv_def wsCore_def attempts_def active_def)
qed

lemma live_cur: "wsInv k \<Longrightarrow> wk_socks k i = Some (g, r) \<Longrightarrow> r \<in> {CONNECTING, OPEN} \<Longrightarrow> wk_ws k = Some i"
  unfolding wsInv_def wsCore_def live_def by blast

lemma inv_failed: "wsInv k \<Longrightarrow> wsInv (closeSock (Some i) k)"
  using inv_socks [of k i _ _ CLOSING] by (auto simp: closeSock_def split: option.split)

lemma inv_opened:
  assumes inv: "wsInv (ap_ws a)" and c: "wk_socks (ap_ws a) i = Some (g, CONNECTING)"
  shows "wsInv (ap_ws (onopen i now (onWs (\<lambda>k. k\<lparr>wk_socks := (wk_socks k)(i \<mapsto> (g, OPEN))\<rparr>) a)))"
proof -
  have cur: "wk_ws (ap_ws a) = Some i" using live_cur [OF inv c] by simp
  have "wsInv ((ap_ws a)\<lparr>wk_socks := (wk_socks (ap_ws a))(i \<mapsto> (g, OPEN))\<rparr>)" using inv_socks [OF inv c] cur by simp
  then show ?thesis using cur
    by (simp add: onopen_def setStatus_def wsInv_def wsCore_def attempts_def active_def)
qed

lemma inv_closed:
  assumes inv: "wsInv (ap_ws a)" and c: "wk_socks (ap_ws a) i = Some (g, r)"
  shows "wsInv (ap_ws (onclose E i g (onWs (\<lambda>k. k\<lparr>wk_socks := (wk_socks k)(i \<mapsto> (g, CLOSED))\<rparr>) a)))"
proof -
  let ?a1 = "onWs (\<lambda>k. k\<lparr>wk_socks := (wk_socks k)(i \<mapsto> (g, CLOSED))\<rparr>) a"
  have inv1: "wsInv (ap_ws ?a1)" using inv_socks [OF inv c, of CLOSED] by simp
  show ?thesis
  proof (cases "wk_ws (ap_ws a) = Some i")
    case True
    then have act: "active (ap_ws a)" "g = wk_gen (ap_ws a)"
      using inv c not_active [OF inv] by (auto simp: wsInv_def wsCore_def)
    have nl: "\<not> live (ap_ws ?a1) j" for j
    proof
      assume l: "live (ap_ws ?a1) j"
      then have "wk_ws (ap_ws ?a1) = Some j" using inv1 by (simp add: wsInv_def wsCore_def)
      then show False using l True by (simp add: live_def)
    qed
    then have "wsCore (ap_ws (setStatus False (onWs (\<lambda>k. k\<lparr>wk_ws := None\<rparr>) ?a1)))"
      "attempts (ap_ws (setStatus False (onWs (\<lambda>k. k\<lparr>wk_ws := None\<rparr>) ?a1))) = 0"
      using inv1 True act by (simp_all add: wsInv_def wsCore_def attempts_def setStatus_def active_def del: fun_upd_apply)
    then show ?thesis
      using True act by (auto simp: onclose_def active_def setStatus_def intro!: inv_scheduleReconnect)
  next
    case False
    then show ?thesis using inv1 by (simp add: onclose_def)
  qed
qed

lemma inv_stale:
  assumes inv: "wsInv (ap_ws a)"
  shows "wsInv (ap_ws (checkStaleness E vis now a))"
proof (cases "checkStaleness E vis now a = a")
  case False
  let ?a2 = "onWs (\<lambda>k. k\<lparr>wk_gen := Suc (wk_gen k)\<rparr>) (setStatus False (onWs (\<lambda>k. closeSock (wk_ws k) (k\<lparr>wk_ws := None\<rparr>)) a))"
  have eq: "checkStaleness E vis now a = openSocket E (wk_gen (ap_ws ?a2)) ?a2"
    using False by (auto simp: checkStaleness_def Let_def split: if_splits)
  have act: "active (ap_ws a)"
    using False by (cases "wk_token (ap_ws a)") (auto simp: checkStaleness_def Let_def active_def split: if_splits)
  have "\<forall>i. live (ap_ws a) i \<longrightarrow> wk_ws (ap_ws a) = Some i" using inv by (auto simp: wsInv_def wsCore_def)
  from closeSock_cur(2) [OF this] have "wsCore (ap_ws ?a2)" "attempts (ap_ws ?a2) = 0" "active (ap_ws ?a2)"
    using inv act
    by (auto simp: wsInv_def wsCore_def attempts_def active_def setStatus_def le_gen_filter dest: closeSock_dom)
  then show ?thesis unfolding eq by (intro inv_openSocket) simp_all
qed (use inv in simp)

lemma attempts_pop:
  assumes "wsInv k" "wk_opening k = xs @ (g, r) # ys"
  shows "wsCore (k\<lparr>wk_opening := xs @ ys\<rparr>)"
    "attempts (k\<lparr>wk_opening := xs @ ys\<rparr>) = (if active k \<and> g \<noteq> wk_gen k then 1 else 0)"
    "g = wk_gen k \<Longrightarrow> active k"
  using assms by (auto simp: wsInv_def wsCore_def attempts_def active_def split: if_splits)

lemma timers_pop:
  assumes "wsInv k" "wk_timers k = xs @ (g, d) # ys"
  shows "wsCore (k\<lparr>wk_timers := xs @ ys\<rparr>)"
    "attempts (k\<lparr>wk_timers := xs @ ys\<rparr>) = (if active k \<and> g \<noteq> wk_gen k then 1 else 0)"
    "g = wk_gen k \<Longrightarrow> active k"
  using assms by (auto simp: wsInv_def wsCore_def attempts_def active_def split: if_splits)

lemma inv_timer:
  assumes inv: "wsInv (ap_ws a)" and t: "wk_timers (ap_ws a) = xs @ (g, d) # ys"
  shows "wsInv (ap_ws (openSocket E g (onWs (\<lambda>k. k\<lparr>wk_timers := xs @ ys\<rparr>) a)))"
proof (cases "g = wk_gen (ap_ws a)")
  case True
  then show ?thesis using timers_pop [OF inv t] by (intro inv_openSocket) (auto simp: active_def)
next
  case False
  then show ?thesis using timers_pop [OF inv t] by (auto simp: openSocket_stale wsInv_def active_def)
qed

lemma inv_ticket:
  assumes inv: "wsInv (ap_ws a)" and t: "wk_opening (ap_ws a) = xs @ (g, r) # ys"
  shows "wsInv (ap_ws (ticketDone E g r (onWs (\<lambda>k. k\<lparr>wk_opening := xs @ ys\<rparr>) a)))"
proof -
  let ?a1 = "onWs (\<lambda>k. k\<lparr>wk_opening := xs @ ys\<rparr>) a"
  note pop = attempts_pop [OF inv t]
  show ?thesis
  proof (cases "g = wk_gen (ap_ws a)")
    case False
    then show ?thesis using pop by (cases r) (auto simp: ticketDone_def Let_def scheduleReconnect_stale wsInv_def active_def)
  next
    case True
    then have act: "active (ap_ws a)" using pop by simp
    show ?thesis
    proof (cases r)
      case (Inl e)
      then show ?thesis using pop True act
        by (auto simp: ticketDone_def active_def intro!: inv_scheduleReconnect)
    next
      case (Inr t)
      have ws: "wk_ws (ap_ws a) = None" using pop(2) True by (simp add: attempts_def split: if_splits)
      then have nl: "\<not> live (ap_ws a) i" for i using inv by (auto simp: wsInv_def wsCore_def)
      let ?k = "(ap_ws a)\<lparr>wk_opening := xs @ ys, wk_socks := (wk_socks (ap_ws a))(wk_next (ap_ws a) \<mapsto> (g, CONNECTING)),
        wk_next := Suc (wk_next (ap_ws a)), wk_ws := Some (wk_next (ap_ws a))\<rparr>"
      have "live ?k j \<Longrightarrow> j = wk_next (ap_ws a)" for j using nl [of j] by (auto simp: live_def split: if_splits)
      then have "wsInv ?k"
        using pop True act ws by (auto simp: wsInv_def wsCore_def attempts_def active_def less_Suc_eq)
      then show ?thesis using True act Inr by (simp add: ticketDone_def Let_def active_def)
    qed
  qed
qed

lemma inv_sent [simp]: "wsInv (k\<lparr>wk_sent := x\<rparr>) = wsInv k" "wsInv (k\<lparr>wk_frames := y\<rparr>) = wsInv k"
  by (simp_all add: wsInv_def wsCore_def attempts_def active_def)

lemma inv_wsSend [simp]: "wsInv (ap_ws (wsSend obj a)) = wsInv (ap_ws a)"
  by (simp add: wsSend_def split: option.split)

lemma handleFrame_ws: "wsInv (ap_ws (handleFrame E mc v f a)) = wsInv (ap_ws a)"
  by (simp add: handleFrame_def Let_def split: option.split)

lemma inv_frame: "wsInv (ap_ws a) \<Longrightarrow> wsInv (ap_ws (runFrame E mc v a))"
  by (simp add: runFrame_def handleFrame_ws split: list.split)

lemma inv_step: "wsStep E mc v a a' \<Longrightarrow> wsInv (ap_ws a) \<Longrightarrow> wsInv (ap_ws a')"
proof (induction rule: wsStep.induct)
  case (connect a tok)
  then show ?case by (intro inv_connect) (auto simp: active_def)
next
  case (message a i g now dat)
  then show ?case by (auto simp: onmessage_def wsInv_def wsCore_def attempts_def active_def)
next
  case (lost a i g r)
  then show ?case using inv_socks [of "ap_ws a" i g r CLOSED] by simp
qed (auto intro: inv_disconnect inv_ticket inv_timer inv_opened inv_failed inv_closed inv_stale inv_frame)

lemma inv_reach: "wsReach E mc v a \<Longrightarrow> wsInv (ap_ws a)"
proof (induction rule: wsReach.induct)
  case (start w)
  then show ?case by (simp add: wsInit_def wsInv_def wsCore_def attempts_def active_def live_def)
qed (rule inv_step)


text \<open>C11. Whatever the order in which tickets arrive, timers fire, sockets open, fail, close or are
  lost, and the app comes back to the foreground: while the app wants to be connected there is
  exactly one attempt under way (a ticket request, a pending reconnect, or the current socket), so
  it never gives up and never doubles its connection; at most one socket is live; and after a
  disconnect no socket is live and the app shows itself as offline.\<close>

theorem ws_single_connection:
  assumes "wsReach E mc v a"
  shows "attempts (ap_ws a) = (if active (ap_ws a) then 1 else 0) \<and>
    (\<forall>i j. live (ap_ws a) i \<and> live (ap_ws a) j \<longrightarrow> i = j) \<and>
    (\<not> active (ap_ws a) \<longrightarrow> (\<forall>i. \<not> live (ap_ws a) i) \<and> \<not> getWsStatus a)"
proof (intro conjI)
  have inv: "wsInv (ap_ws a)" by (rule inv_reach [OF assms])
  then have cur: "live (ap_ws a) k \<Longrightarrow> wk_ws (ap_ws a) = Some k" for k by (simp add: wsInv_def wsCore_def)
  show "attempts (ap_ws a) = (if active (ap_ws a) then 1 else 0)" using inv by (simp add: wsInv_def)
  show "\<forall>i j. live (ap_ws a) i \<and> live (ap_ws a) j \<longrightarrow> i = j" using cur by (metis option.inject)
  show "\<not> active (ap_ws a) \<longrightarrow> (\<forall>i. \<not> live (ap_ws a) i) \<and> \<not> getWsStatus a"
    using inv not_active [OF inv] cur by (auto simp: wsInv_def wsCore_def getWsStatus_def)
qed

section \<open>The delay before a reconnect\<close>

definition delaysOk :: "wsState \<Rightarrow> bool" where
  "delaysOk k \<longleftrightarrow> (\<forall>p \<in> set (wk_timers k). 1000 \<le> snd p \<and> snd p < 301000)"

lemma backoff_bounds: "1000 \<le> min MAX_BACKOFF (1000 * 2 ^ n)" "min MAX_BACKOFF (1000 * 2 ^ n) \<le> 300000"
  by (simp_all add: MAX_BACKOFF_def)

lemma delaysOk_schedule:
  assumes "\<forall>t. 0 \<le> rand_unit E t \<and> rand_unit E t < 1" "delaysOk (ap_ws a)"
  shows "delaysOk (ap_ws (scheduleReconnect E g a))"
proof -
  let ?b = "min MAX_BACKOFF (1000 * 2 ^ wk_retry (ap_ws a))"
  have "1000 \<le> real_of_int ?b" "real_of_int ?b \<le> 300000" using backoff_bounds [of "wk_retry (ap_ws a)"] by linarith+
  moreover have "0 \<le> rand_unit E (tick (ap_world a)) * 1000" "rand_unit E (tick (ap_world a)) * 1000 < 1000"
    using assms(1) by simp_all
  ultimately have "1000 \<le> real_of_int ?b + rand_unit E (tick (ap_world a)) * 1000"
    "real_of_int ?b + rand_unit E (tick (ap_world a)) * 1000 < 301000" by linarith+
  then show ?thesis using assms(2) by (auto simp: scheduleReconnect_def delaysOk_def simp del: of_int_min)
qed

lemma timers_same [simp]:
  "wk_timers (closeSock s k) = wk_timers k"
  "wk_timers (ap_ws (openSocket E g a)) = wk_timers (ap_ws a)"
  "wk_timers (ap_ws (wsSend obj a)) = wk_timers (ap_ws a)"
  "wk_timers (ap_ws (setStatus b a)) = wk_timers (ap_ws a)"
  by (auto simp: closeSock_def openSocket_def wsSend_def setStatus_def split: option.split prod.split)

lemma timers_frame [simp]: "wk_timers (ap_ws (handleFrame E mc v f a)) = wk_timers (ap_ws a)"
  by (simp add: handleFrame_def Let_def split: option.split)

lemma delays_step:
  assumes r: "\<forall>t. 0 \<le> rand_unit E t \<and> rand_unit E t < 1"
  shows "wsStep E mc v a a' \<Longrightarrow> delaysOk (ap_ws a) \<Longrightarrow> delaysOk (ap_ws a')"
proof (induction rule: wsStep.induct)
  case (ticket a xs g r ys)
  then show ?case
    by (cases r) (auto simp: ticketDone_def Let_def delaysOk_def intro!: delaysOk_schedule [OF assms, unfolded delaysOk_def])
next
  case (closed a i g r)
  then show ?case by (auto simp: onclose_def delaysOk_def intro!: delaysOk_schedule [OF assms, unfolded delaysOk_def])
qed (auto simp: delaysOk_def connectWebSocket_def disconnectWebSocket_def checkStaleness_def onopen_def onmessage_def runFrame_def
       Let_def split: list.split)

text \<open>C40. The client backs off politely: with \<open>Math.random()\<close> in \<open>[0, 1)\<close>, every reconnect
  that is ever scheduled waits at least one second and less than five minutes and one second.\<close>

theorem ws_backoff_bounds:
  assumes "\<forall>t. 0 \<le> rand_unit E t \<and> rand_unit E t < 1" "wsReach E mc v a" "(g, d) \<in> set (wk_timers (ap_ws a))"
  shows "1000 \<le> d \<and> d < 301000"
proof -
  from assms(2) have "delaysOk (ap_ws a)"
  proof (induction rule: wsReach.induct)
    case (start w)
    then show ?case by (simp add: delaysOk_def wsInit_def)
  qed (rule delays_step [OF assms(1)])
  then show ?thesis using assms(3) by (auto simp: delaysOk_def)
qed

end
