(* ===== verification/CoverTraffic.thy ===== *)
theory CoverTraffic
  imports Receipts Sending
begin

text \<open>
  The cover-traffic scheduler (\<^verbatim>\<open>services/cover-traffic.ts\<close>): a timer loop that drains
  queued receipts and sends a dummy message at exponentially distributed times. Starting the
  loop and each of its ticks wait for the database or the network in the middle; what is
  waiting there is part of the state, and other calls may come in between.
\<close>

definition COVER_KEY :: string where "COVER_KEY = ''cover_traffic''"

definition MEAN_MS :: "string \<Rightarrow> real" where
  "MEAN_MS level =
     (if level = ''low'' then 30000 else if level = ''medium'' then 10000 else if level = ''high'' then 3000
      else if level = ''off'' then 10000 else 10000)"

definition coverLevel :: "string act" where
  "coverLevel = await (settingGet COVER_KEY) (\<lambda>v. ret (orElse (jstr v) ''medium''))"

definition runCoverCycle :: "env \<Rightarrow> sendReceiptFn \<Rightarrow> unit act \<Rightarrow> string \<Rightarrow> unit act" where
  "runCoverCycle E send cover level = andThen (drainReceipts E send) (whenM (level \<noteq> ''off'') cover)"

text \<open>The module's variables, the timers that are set, the starts that wait for the level and
  the ticks (with the level they read) that wait for their work to end.\<close>

record coverState =
  cv_running :: bool
  cv_timer :: "nat option"
  cv_pending :: "(nat \<times> real) list"
  cv_next :: nat
  cv_starting :: nat
  cv_ticking :: "string list"

definition coverInit :: coverState where
  "coverInit = \<lparr>cv_running = False, cv_timer = None, cv_pending = [], cv_next = 0, cv_starting = 0, cv_ticking = []\<rparr>"

definition setTimer :: "real \<Rightarrow> coverState \<Rightarrow> coverState" where
  "setTimer delay c = c\<lparr>cv_timer := Some (cv_next c), cv_pending := cv_pending c @ [(cv_next c, delay)], cv_next := Suc (cv_next c)\<rparr>"

definition startCoverTraffic :: "coverState \<Rightarrow> coverState" where
  "startCoverTraffic c = (if cv_running c then c else c\<lparr>cv_running := True, cv_starting := Suc (cv_starting c)\<rparr>)"

text \<open>\<open>startCoverTraffic\<close> from the level on.\<close>

definition startedCoverTraffic :: "env \<Rightarrow> coverState \<times> world \<Rightarrow> coverState \<times> world" where
  "startedCoverTraffic E s =
     (case await coverLevel (\<lambda>level. await (mathRandom E) (\<lambda>r. ret (expSample (MEAN_MS level) r))) (snd s) of
        (Inr d, w) \<Rightarrow> (setTimer d ((fst s)\<lparr>cv_starting := cv_starting (fst s) - 1\<rparr>), w)
      | (Inl _, w) \<Rightarrow> ((fst s)\<lparr>cv_starting := cv_starting (fst s) - 1\<rparr>, w))"

definition stopCoverTraffic :: "coverState \<Rightarrow> coverState" where
  "stopCoverTraffic c = c\<lparr>cv_running := False,
     cv_pending := (case cv_timer c of None \<Rightarrow> cv_pending c | Some t \<Rightarrow> filter (\<lambda>p. fst p \<noteq> t) (cv_pending c)),
     cv_timer := None\<rparr>"

text \<open>\<open>tick\<close> up to the end of its work, and from there on.\<close>

definition coverTick :: "env \<Rightarrow> sendReceiptFn \<Rightarrow> unit act \<Rightarrow> coverState \<times> world \<Rightarrow> coverState \<times> world" where
  "coverTick E send cover s =
     (if \<not> cv_running (fst s) then s
      else case coverLevel (snd s) of
        (Inl _, w) \<Rightarrow> (fst s, w)
      | (Inr level, w) \<Rightarrow> ((fst s)\<lparr>cv_ticking := cv_ticking (fst s) @ [level]\<rparr>,
                          snd (ignoreErrors (runCoverCycle E send cover level) w)))"

definition coverTicked :: "env \<Rightarrow> string \<Rightarrow> coverState \<times> world \<Rightarrow> coverState \<times> world" where
  "coverTicked E level s =
     (if \<not> cv_running (fst s) then s
      else case mathRandom E (snd s) of
        (Inr r, w) \<Rightarrow> (setTimer (expSample (MEAN_MS level) r) (fst s), w)
      | (Inl _, w) \<Rightarrow> (fst s, w))"

section \<open>The state machine\<close>

inductive coverStep ::
  "env \<Rightarrow> sendReceiptFn \<Rightarrow> unit act \<Rightarrow> coverState \<times> world \<Rightarrow> coverState \<times> world \<Rightarrow> bool" for E send cover where
  start: "coverStep E send cover (c, w) (startCoverTraffic c, w)"
| started: "0 < cv_starting c \<Longrightarrow> coverStep E send cover (c, w) (startedCoverTraffic E (c, w))"
| stop: "coverStep E send cover (c, w) (stopCoverTraffic c, w)"
| fire: "cv_pending c = xs @ p # ys \<Longrightarrow> coverStep E send cover (c, w) (coverTick E send cover (c\<lparr>cv_pending := xs @ ys\<rparr>, w))"
| ticked: "cv_ticking c = xs @ level # ys \<Longrightarrow>
    coverStep E send cover (c, w) (coverTicked E level (c\<lparr>cv_ticking := xs @ ys\<rparr>, w))"

inductive coverReach :: "env \<Rightarrow> sendReceiptFn \<Rightarrow> unit act \<Rightarrow> coverState \<times> world \<Rightarrow> bool" for E send cover where
  init: "coverReach E send cover (coverInit, w)"
| step: "coverReach E send cover s \<Longrightarrow> coverStep E send cover s s' \<Longrightarrow> coverReach E send cover s'"

text \<open>The loops under way: each is a set timer, a start or a tick that is waiting.\<close>

definition loops :: "coverState \<Rightarrow> nat" where
  "loops c = length (cv_pending c) + cv_starting c + length (cv_ticking c)"

lemma run_coverLevel:
  "coverLevel w = (Inr (orElse (jstr (map_option st_value (tget (settings_tbl (idb w)) COVER_KEY))) ''medium''), w)"
  by (simp add: coverLevel_def)

lemma startedCoverTraffic_state:
  "\<exists>d. fst (startedCoverTraffic E (c, w)) = setTimer d (c\<lparr>cv_starting := cv_starting c - 1\<rparr>)"
  by (auto simp: startedCoverTraffic_def run_coverLevel)

lemma coverTick_state:
  "\<exists>level. fst (coverTick E send cover (c, w)) = (if cv_running c then c\<lparr>cv_ticking := cv_ticking c @ [level]\<rparr> else c)"
  by (auto simp: coverTick_def run_coverLevel)

lemma coverTicked_state:
  "\<exists>d. fst (coverTicked E level (c, w)) = (if cv_running c then setTimer d c else c)"
  by (auto simp: coverTicked_def)

section \<open>One loop\<close>

text \<open>As long as nobody stops the scheduler while a start or a tick is waiting, there is one loop.\<close>

inductive calmReach :: "env \<Rightarrow> sendReceiptFn \<Rightarrow> unit act \<Rightarrow> coverState \<times> world \<Rightarrow> bool" for E send cover where
  init: "calmReach E send cover (coverInit, w)"
| step: "calmReach E send cover s \<Longrightarrow> coverStep E send cover s s' \<Longrightarrow>
    cv_running (fst s') \<or> (cv_starting (fst s) = 0 \<and> cv_ticking (fst s) = []) \<Longrightarrow> calmReach E send cover s'"

definition coverInv :: "coverState \<Rightarrow> bool" where
  "coverInv c \<longleftrightarrow> loops c = (if cv_running c then 1 else 0) \<and> (\<forall>p \<in> set (cv_pending c). cv_timer c = Some (fst p))"

lemma coverInv_start: "coverInv c \<Longrightarrow> coverInv (startCoverTraffic c)"
  by (auto simp: coverInv_def loops_def startCoverTraffic_def)

lemma coverInv_stop:
  assumes "coverInv c" "cv_starting c = 0" "cv_ticking c = []"
  shows "coverInv (stopCoverTraffic c)"
proof -
  have "filter (\<lambda>p. fst p \<noteq> t) (cv_pending c) = []" if "cv_timer c = Some t" for t
    using assms(1) that by (auto simp: coverInv_def filter_empty_conv)
  moreover have "cv_pending c = []" if "cv_timer c = None"
    using assms(1) that by (cases "cv_pending c") (auto simp: coverInv_def)
  ultimately show ?thesis using assms(2,3) by (cases "cv_timer c") (auto simp: coverInv_def loops_def stopCoverTraffic_def)
qed

lemma coverInv_started:
  assumes "coverInv c" "0 < cv_starting c"
  shows "coverInv (setTimer d (c\<lparr>cv_starting := cv_starting c - Suc 0\<rparr>))"
proof -
  have n: "length (cv_pending c) + cv_starting c + length (cv_ticking c) = 1" and run: "cv_running c"
    using assms by (auto simp: coverInv_def loops_def split: if_splits)
  then have "length (cv_pending c) = 0" "cv_starting c = 1" "length (cv_ticking c) = 0" using assms(2) by linarith+
  with run have "cv_pending c = []" "cv_starting c = 1" "cv_ticking c = []" "cv_running c" by simp_all
  then show ?thesis by (simp add: coverInv_def loops_def setTimer_def)
qed

lemma coverInv_step:
  assumes "coverStep E send cover s s'" "coverInv (fst s)"
    "cv_running (fst s') \<or> (cv_starting (fst s) = 0 \<and> cv_ticking (fst s) = [])"
  shows "coverInv (fst s')"
  using assms
proof (induction rule: coverStep.induct)
  case (start c w)
  then show ?case by (simp add: coverInv_start)
next
  case (started c w)
  then show ?case using startedCoverTraffic_state [of E c w] by (auto intro: coverInv_started)
next
  case (stop c w)
  moreover have "\<not> cv_running (stopCoverTraffic c)" by (simp add: stopCoverTraffic_def)
  ultimately show ?case by (auto intro: coverInv_stop)
next
  case (fire c xs p ys w)
  then have "xs = []" "ys = []" "cv_running c" by (auto simp: coverInv_def loops_def split: if_splits)
  then show ?case using fire coverTick_state [of E send cover "c\<lparr>cv_pending := xs @ ys\<rparr>" w]
    by (auto simp: coverInv_def loops_def)
next
  case (ticked c xs level ys w)
  then have "xs = []" "ys = []" "cv_running c" by (auto simp: coverInv_def loops_def split: if_splits)
  then show ?case using ticked coverTicked_state [of E level "c\<lparr>cv_ticking := xs @ ys\<rparr>" w]
    by (auto simp: coverInv_def loops_def setTimer_def)
qed

text \<open>The cover-traffic loop neither dies nor doubles as long as it is not stopped in the
  middle of a start or a tick: while it is switched on there is exactly one loop (a set timer, a
  start or a tick at work), and none once it is stopped.\<close>

theorem cover_one_loop:
  assumes "calmReach E send cover s"
  shows "loops (fst s) = (if cv_running (fst s) then 1 else 0)"
proof -
  from assms have "coverInv (fst s)"
  proof (induction rule: calmReach.induct)
    case (init w)
    then show ?case by (simp add: coverInv_def loops_def coverInit_def)
  qed (rule coverInv_step)
  then show ?thesis by (simp add: coverInv_def)
qed

text \<open>The condition is needed. A stop that falls between a start and its reading of the level
  does not end that start: after a second start two loops run side by side, and dummy messages are
  sent at twice the chosen rate.\<close>

theorem cover_loops_can_double:
  "\<exists>c w'. coverReach E send cover (c, w') \<and> cv_running c \<and> loops c = 2 \<and> length (cv_pending c) = 2"
proof -
  fix w :: world
  let ?c1 = "startCoverTraffic coverInit"
  let ?c3 = "startCoverTraffic (stopCoverTraffic ?c1)"
  obtain s4 where s4: "startedCoverTraffic E (?c3, w) = s4" by blast
  obtain s5 where s5: "startedCoverTraffic E s4 = s5" by blast
  have "coverReach E send cover (?c3, w)"
    by (meson coverReach.init coverReach.step coverStep.start coverStep.stop)
  then have r4: "coverReach E send cover s4"
    using s4 coverReach.step [OF _ coverStep.started [of ?c3 E send cover w]]
    by (simp add: startCoverTraffic_def stopCoverTraffic_def coverInit_def)
  have f4: "cv_starting (fst s4) = 1" "cv_running (fst s4)" "cv_ticking (fst s4) = []" "length (cv_pending (fst s4)) = 1"
    using startedCoverTraffic_state [of E ?c3 w] s4
    by (auto simp: setTimer_def startCoverTraffic_def stopCoverTraffic_def coverInit_def)
  have "coverReach E send cover s5"
    using s5 f4(1) coverReach.step [OF r4, of s5] coverStep.started [of "fst s4" E send cover "snd s4"] by simp
  moreover have "cv_running (fst s5)" "loops (fst s5) = 2" "length (cv_pending (fst s5)) = 2"
    using startedCoverTraffic_state [of E "fst s4" "snd s4"] s5 f4 by (auto simp: setTimer_def loops_def)
  ultimately show ?thesis by (metis prod.collapse)
qed

end
