(* ===== verification/Session.thy ===== *)
theory Session
  imports Websocket CoverTraffic AuthSession
begin

text \<open>
  Locking the app and erasing the device (\<^verbatim>\<open>services/session.ts\<close>), over the state of the
  socket, of the core and of the cover-traffic scheduler.
\<close>

type_synonym shell = "app \<times> coverState"

definition lockApp :: "shell \<Rightarrow> shell" where
  "lockApp s =
     (let a1 = onWorld lockNow (fst s);
          c1 = stopCoverTraffic (snd s);
          a2 = disconnectWebSocket a1;
          a3 = onWorld resetMessaging a2;
          a4 = onWorld signOut a3
      in (a4, c1))"

text \<open>\<open>db.tables.map((t) => t.clear())\<close>: the rows go, the counters of the auto-incremented keys
  go on counting.\<close>

definition clearTables :: "unit act" where
  "clearTables = dbModify (\<lambda>d. d\<lparr>identity_tbl := [], sessions_tbl := [], messages_tbl := [], contacts_tbl := [],
     groups_tbl := [], blobs_tbl := [], settings_tbl := [], outbox_tbl := [], receipt_tbl := [], linked_tbl := [],
     received_tbl := [], handshakes_tbl := []\<rparr>)"

definition eraseThisDevice :: "shell \<Rightarrow> shell" where
  "eraseThisDevice s =
     (let c1 = stopCoverTraffic (snd s);
          a1 = disconnectWebSocket (fst s);
          a2 = onWorld resetMessaging a1;
          a3 = onWorld (andThen clearTables wipeKeystore) a2;
          a4 = onWorld signOut a3
      in (a4, c1))"

lemma world_onWs [simp]: "ap_world (setStatus b a) = ap_world a" "ap_world (disconnectWebSocket a) = ap_world a"
  by (simp_all add: setStatus_def disconnectWebSocket_def)

lemma world_onWorld [simp]: "ap_world (onWorld m a) = snd (m (ap_world a))"
  by (simp add: onWorld_def)

lemma disconnected [simp]:
  "wk_stopped (ap_ws (disconnectWebSocket a))" "wk_ws (ap_ws (disconnectWebSocket a)) = None"
  "wk_connected (ap_ws (disconnectWebSocket a)) = False" "wk_token (ap_ws (disconnectWebSocket a)) = None"
  by (auto simp: disconnectWebSocket_def setStatus_def closeSock_def split: option.split)

lemma lockApp_ws: "ap_ws (fst (lockApp (a, c))) = ap_ws (disconnectWebSocket (onWorld lockNow a))"
  by (simp add: lockApp_def Let_def)

lemma lockApp_world: "ap_world (fst (lockApp (a, c))) = snd (andThen lockNow (andThen resetMessaging signOut) (ap_world a))"
  by (simp add: lockApp_def Let_def lockNow_def resetMessaging_def signOut_def)

lemma wsReach_world: "wsReach E mc v a \<Longrightarrow> wsReach E mc v (onWorld m a)"
  using wsReach.step [OF _ wsStep.core] by (simp add: onWorld_def)

lemma wsReach_lockApp: "wsReach E mc v a \<Longrightarrow> wsReach E mc v (fst (lockApp (a, c)))"
  by (auto simp: lockApp_def Let_def intro!: wsReach_world wsReach.step [OF wsReach_world wsStep.disconnect])

text \<open>A disconnected client only gets connected again by connecting: nothing else that may still
  happen (a late ticket, a timer, a queued frame, the app coming to the foreground) opens a socket.\<close>

definition offline :: "wsState \<Rightarrow> bool" where
  "offline k \<longleftrightarrow> wk_stopped k \<and> wk_token k = None \<and> wk_ws k = None \<and> \<not> wk_connected k \<and> (\<forall>i. \<not> live k i)"

inductive lateStep :: "env \<Rightarrow> MessageCryptoApi \<Rightarrow> verifyEd25519 \<Rightarrow> app \<Rightarrow> app \<Rightarrow> bool" for E mc v where
  late: "wsStep E mc v a a' \<Longrightarrow> (\<And>tok. a' \<noteq> connectWebSocket E tok a) \<Longrightarrow> lateStep E mc v a a'"

lemma live_closed: "(\<And>j. \<not> live k j) \<Longrightarrow> \<not> live (k\<lparr>wk_socks := (wk_socks k)(i \<mapsto> (g, CLOSED))\<rparr>) j"
  "(\<And>j. \<not> live k j) \<Longrightarrow> \<not> live (k\<lparr>wk_socks := (wk_socks k)(i \<mapsto> (g, CLOSING))\<rparr>) j"
  by (auto simp: live_def split: if_splits)

lemma offline_simps [simp]:
  "offline (k\<lparr>wk_opening := x\<rparr>) = offline k" "offline (k\<lparr>wk_timers := y\<rparr>) = offline k" "offline (k\<lparr>wk_frames := z\<rparr>) = offline k"
  "offline (k\<lparr>wk_lastFrameAt := u\<rparr>) = offline k"
  by (simp_all add: offline_def)

lemma offline_frame: "offline (ap_ws a) \<Longrightarrow> offline (ap_ws (handleFrame E mc v f a))"
  by (auto simp: handleFrame_def Let_def wsSend_def offline_def split: option.split)

lemma offline_late:
  assumes "lateStep E mc v a a'" "offline (ap_ws a)"
  shows "offline (ap_ws a')"
proof -
  from assms(1) obtain "wsStep E mc v a a'" "\<And>tok. a' \<noteq> connectWebSocket E tok a" by (auto elim: lateStep.cases)
  then show ?thesis using assms(2)
  proof (induction rule: wsStep.induct)
    case (connect a tok)
    then show ?case by blast
  next
    case (disconnect a)
    then show ?case by (simp add: disconnectWebSocket_def setStatus_def offline_def closeSock_def)
  next
    case (ticket a xs g r ys)
    then show ?case by (cases r) (simp_all add: ticketDone_def Let_def scheduleReconnect_def offline_def)
  next
    case (timer a xs g d ys)
    then show ?case by (simp add: openSocket_def offline_def)
  next
    case (opened a i g now)
    then have "live (ap_ws a) i" by (auto simp: live_def)
    then show ?case using opened by (simp add: offline_def)
  next
    case (message a i g now dat)
    then show ?case by (simp add: onmessage_def)
  next
    case (failed a i)
    then show ?case by (auto simp: closeSock_def offline_def live_closed split: option.split)
  next
    case (closed a i g r)
    then show ?case by (auto simp: onclose_def offline_def live_closed)
  next
    case (lost a i g r)
    then show ?case by (auto simp: offline_def live_closed)
  next
    case (visible a vis now)
    then show ?case by (simp add: checkStaleness_def Let_def offline_def)
  next
    case (frame a)
    then show ?case by (auto simp: runFrame_def intro!: offline_frame split: list.split)
  next
    case (core a w)
    then show ?case by simp
  qed
qed

text \<open>A locked device is inert, whatever it was doing. The data key cannot be had, the identity
  and the sender certificate are no longer in memory, nobody is signed in, cover traffic is
  stopped; no socket is live, and none becomes live whatever happens afterwards short of
  connecting again. Nothing stored is touched.\<close>

theorem lockApp_leaves_device_inert:
  assumes "wsReach E mc v a" "lockMeta (keystore (ap_world a)) \<noteq> None"
  shows "let (a', c') = lockApp (a, c); w' = ap_world a' in
    getMasterKey E w' = (Inl (JsError ''locked''), w') \<and> bundleCache w' = None \<and> certCache w' = None \<and>
    \<not> au_authenticated (auth w') \<and> au_sessionToken (auth w') = None \<and> \<not> cv_running c' \<and> idb w' = idb (ap_world a) \<and>
    offline (ap_ws a') \<and> (\<forall>b. (lateStep E mc v)\<^sup>*\<^sup>* a' b \<longrightarrow> offline (ap_ws b))"
proof -
  obtain a' c' where s: "lockApp (a, c) = (a', c')" by fastforce
  then have a': "a' = fst (lockApp (a, c))" by simp
  have "wsInv (ap_ws a')" unfolding a' by (rule inv_reach [OF wsReach_lockApp [OF assms(1)]])
  then have "\<not> live (ap_ws a') i" for i
    using a' by (auto simp: wsInv_def wsCore_def lockApp_ws)
  then have off: "offline (ap_ws a')" using a' by (simp add: offline_def lockApp_ws)
  have later: "offline (ap_ws b)" if "(lateStep E mc v)\<^sup>*\<^sup>* a' b" for b
    using that by (induction rule: rtranclp_induct) (auto intro: off offline_late)
  have w': "ap_world a' = snd (andThen lockNow (andThen resetMessaging signOut) (ap_world a))"
    using a' by (simp add: lockApp_world)
  have "\<not> cv_running c'" using s by (auto simp: lockApp_def Let_def stopCoverTraffic_def)
  moreover have "let w' = ap_world a' in
    getMasterKey E w' = (Inl (JsError ''locked''), w') \<and> bundleCache w' = None \<and> certCache w' = None \<and>
    \<not> au_authenticated (auth w') \<and> au_sessionToken (auth w') = None \<and> idb w' = idb (ap_world a)"
    using assms(2) by (simp add: w' lockNow_def resetMessaging_def signOut_def run_getMasterKey)
  ultimately show ?thesis using off later by (simp add: s Let_def)
qed


text \<open>The history keys, which are derived from the identity, are not among what a lock clears.\<close>

lemma lockApp_keeps_history_keys: "keyCache (ap_world (fst (lockApp (a, c)))) = keyCache (ap_world a)"
  by (simp add: lockApp_world lockNow_def resetMessaging_def signOut_def)

end
