(* ===== verification/Applock.thy ===== *)
theory Applock
  imports DeviceSync KeyWatch
begin

text \<open>
  App lock (\<^verbatim>\<open>services/applock.ts\<close>): the data key is wrapped by a passphrase (Argon2id)
  and, optionally, a WebAuthn secret, and is held in memory only while the app is unlocked.
  Argon2id is a function of the crypto module; the WebAuthn calls of
  \<^verbatim>\<open>crypto/webauthn-prf.ts\<close> go to the browser's authenticator and are parameters.
\<close>

definition ARGON_M :: int where "ARGON_M = 32768"
definition ARGON_T :: int where "ARGON_T = 3"
definition MIN_PASSPHRASE :: nat where "MIN_PASSPHRASE = 8"
definition DEFAULT_IDLE_MS :: int where "DEFAULT_IDLE_MS = 5 * 60 * 1000"
definition IDLE_KEY :: string where "IDLE_KEY = ''app_lock_idle_ms''"
definition FAIL_KEY :: string where "FAIL_KEY = ''app_lock_fail''"

type_synonym AppLockKdf = "bytes \<Rightarrow> bytes \<Rightarrow> int \<Rightarrow> int \<Rightarrow> error + bytes"

definition workerKdf :: "env \<Rightarrow> AppLockKdf" where
  "workerKdf E = w_applock_derive_key (wasm E)"

record webauthnApi =
  wa_supported :: "nat \<Rightarrow> error + bool"
  wa_enroll :: "nat \<Rightarrow> string \<Rightarrow> error + (bytes \<times> bytes \<times> bytes)"
  wa_derivePrf :: "nat \<Rightarrow> bytes \<Rightarrow> bytes \<Rightarrow> error + bytes"

definition lock :: "unit act" where
  "lock = lockNow"

record LockStatus =
  lk_enabled :: bool
  lk_passphrase :: bool
  lk_biometric :: bool
  lk_biometricAvailable :: bool

definition lockStatus :: "webauthnApi \<Rightarrow> LockStatus act" where
  "lockStatus wa =
     await getLockMeta (\<lambda>meta.
     await (ext (wa_supported wa)) (\<lambda>sup.
     ret \<lparr>lk_enabled = (meta \<noteq> None), lk_passphrase = (Option.bind meta lm_passphrase \<noteq> None),
          lk_biometric = (Option.bind meta lm_webauthn \<noteq> None), lk_biometricAvailable = sup\<rparr>))"

section \<open>Failure backoff\<close>

definition failJson :: "int \<Rightarrow> int \<Rightarrow> json" where
  "failJson count until = JObj [(''count'', JNum count), (''until'', JNum until)]"

text \<open>The stored counter. The setting is written by this module only, so it has both numbers.\<close>

definition failState :: "(int \<times> int) act" where
  "failState = await (settingGet FAIL_KEY) (\<lambda>v. ret (case v of None \<Rightarrow> (0, 0)
     | Some j \<Rightarrow> (orElse (jint (jget ''count'' j)) 0, orElse (jint (jget ''until'' j)) 0)))"

definition throttle :: "env \<Rightarrow> unit act" where
  "throttle E =
     await failState (\<lambda>f.
     await (dateNow E) (\<lambda>t.
     (let wait = snd f - t in
      if 0 < wait then throw (JsError (''Too many attempts - wait '' @ showInt (- ((- wait) div 1000)) @ ''s.'')) else ret ())))"

definition failDelay :: "int \<Rightarrow> int" where
  "failDelay count = (if 5 \<le> count then min (5 * 60000) (2 ^ nat (count - 5) * 1000) else 0)"

definition recordFailure :: "env \<Rightarrow> unit act" where
  "recordFailure E =
     await failState (\<lambda>f.
     await (dateNow E) (\<lambda>t. settingPut FAIL_KEY (failJson (fst f + 1) (t + failDelay (fst f + 1)))))"

definition clearFailures :: "unit act" where
  "clearFailures = settingDelete FAIL_KEY"

section \<open>Passphrase\<close>

definition wrapPassphrase :: "env \<Rightarrow> AppLockKdf \<Rightarrow> bytes \<Rightarrow> string \<Rightarrow> PassphraseFactor act" where
  "wrapPassphrase E kdf dataKey passphrase =
     await (getRandomValues E 16) (\<lambda>salt.
     await (liftE (kdf (textEncode passphrase) salt ARGON_M ARGON_T)) (\<lambda>raw.
     await (importDataKey raw) (\<lambda>kek.
     await (aesEncrypt E kek dataKey) (\<lambda>b.
     ret \<lparr>pf_salt = toHex salt, pf_m_cost = ARGON_M, pf_t_cost = ARGON_T, pf_wrapped = toHex b\<rparr>))))"

definition tooShort :: error where
  "tooShort = JsError (''Use at least '' @ showNat MIN_PASSPHRASE @ '' characters.'')"

definition enableWithPassphrase :: "env \<Rightarrow> AppLockKdf \<Rightarrow> string \<Rightarrow> unit act" where
  "enableWithPassphrase E kdf passphrase =
     (if length passphrase < MIN_PASSPHRASE then throw tooShort else
      await (getMasterKey E) (\<lambda>oldKey.
      await (getRandomValues E 32) (\<lambda>newBytes.
      await (importDataKey newBytes) (\<lambda>newKey.
      andThen (rekeyAllEncryptedFields E oldKey newKey) (
      andThen (setUnlockedKey newBytes) (
      await (wrapPassphrase E kdf newBytes passphrase) (\<lambda>f.
      andThen (setLockMeta \<lparr>lm_passphrase = Some f, lm_webauthn = None\<rparr>) (
      andThen clearNoLockHandle clearFailures))))))))"

definition unlockWithPassphrase :: "env \<Rightarrow> AppLockKdf \<Rightarrow> string \<Rightarrow> unit act" where
  "unlockWithPassphrase E kdf passphrase =
     await getLockMeta (\<lambda>meta.
     case Option.bind meta lm_passphrase of
       None \<Rightarrow> throw (JsError ''No passphrase is set.'')
     | Some f \<Rightarrow>
         andThen (throttle E) (
         await (liftE (kdf (textEncode passphrase) (fromHex (pf_salt f)) (pf_m_cost f) (pf_t_cost f))) (\<lambda>raw.
         await (importDataKey raw) (\<lambda>kek.
         await (tryCatch (aesDecrypt E kek (fromHex (pf_wrapped f)))
                  (\<lambda>_. andThen (recordFailure E) (throw (JsError ''Wrong passphrase.'')))) (\<lambda>dataKey.
         andThen clearFailures (setUnlockedKey dataKey))))))"

definition changePassphrase :: "env \<Rightarrow> AppLockKdf \<Rightarrow> string \<Rightarrow> unit act" where
  "changePassphrase E kdf newPassphrase =
     await unlockedKeyBytes (\<lambda>b. case b of None \<Rightarrow> throw (JsError ''Unlock first.'') | Some bs \<Rightarrow>
     if length newPassphrase < MIN_PASSPHRASE then throw tooShort else
     await getLockMeta (\<lambda>meta.
     await (wrapPassphrase E kdf bs newPassphrase) (\<lambda>f.
     setLockMeta ((orElse meta \<lparr>lm_passphrase = None, lm_webauthn = None\<rparr>)\<lparr>lm_passphrase := Some f\<rparr>))))"

section \<open>Biometrics\<close>

definition prfKEK :: "env \<Rightarrow> bytes \<Rightarrow> cryptoKey" where
  "prfKEK E prfOutput = hkdf256 E prfOutput (textEncode ''privex_applock_prf_v1'')"

definition addBiometric :: "env \<Rightarrow> webauthnApi \<Rightarrow> string \<Rightarrow> unit act" where
  "addBiometric E wa userId =
     await unlockedKeyBytes (\<lambda>b. case b of None \<Rightarrow> throw (JsError ''Unlock first.'') | Some bs \<Rightarrow>
     await (ext (\<lambda>t. wa_enroll wa t userId)) (\<lambda>(credId, prfSalt, prfOutput).
     await getLockMeta (\<lambda>meta.
     await (aesEncrypt E (prfKEK E prfOutput) bs) (\<lambda>wrapped.
     setLockMeta ((orElse meta \<lparr>lm_passphrase = None, lm_webauthn = None\<rparr>)\<lparr>lm_webauthn := Some
       \<lparr>wf_cred_id = toHex credId, wf_prf_salt = toHex prfSalt, wf_wrapped = toHex wrapped\<rparr>\<rparr>)))))"

definition unlockWithBiometric :: "env \<Rightarrow> webauthnApi \<Rightarrow> unit act" where
  "unlockWithBiometric E wa =
     await getLockMeta (\<lambda>meta.
     case Option.bind meta lm_webauthn of
       None \<Rightarrow> throw (JsError ''No biometric is set.'')
     | Some f \<Rightarrow>
         await (ext (\<lambda>t. wa_derivePrf wa t (fromHex (wf_cred_id f)) (fromHex (wf_prf_salt f)))) (\<lambda>prf.
         await (aesDecrypt E (prfKEK E prf) (fromHex (wf_wrapped f))) setUnlockedKey))"

definition removeBiometric :: "unit act" where
  "removeBiometric = await getLockMeta (\<lambda>meta. case meta of None \<Rightarrow> ret ()
     | Some m \<Rightarrow> setLockMeta (m\<lparr>lm_webauthn := None\<rparr>))"

definition disableLock :: "unit act" where
  "disableLock =
     await unlockedKeyBytes (\<lambda>b. case b of None \<Rightarrow> throw (JsError ''Unlock first.'') | Some bs \<Rightarrow>
     andThen (setNoLockHandle bs) (andThen clearLockMeta clearFailures))"

section \<open>Idle time\<close>

definition getIdleMs :: "int act" where
  "getIdleMs = await (settingGet IDLE_KEY) (\<lambda>v. ret (orElse (jint v) DEFAULT_IDLE_MS))"

definition setIdleMs :: "int \<Rightarrow> unit act" where
  "setIdleMs ms = settingPut IDLE_KEY (JNum ms)"

section \<open>Locking and unlocking\<close>

text \<open>What is asked of the key derivation: it answers, with a key of 32 bytes.\<close>

definition kdf_answers :: "AppLockKdf \<Rightarrow> bool" where
  "kdf_answers kdf \<longleftrightarrow> (\<forall>p salt m t. \<exists>k. kdf p salt m t = Inr k \<and> length k = 32)"

lemma run_importDataKey [simp]: "length k = 32 \<Longrightarrow> importDataKey k w = (Inr k, w)"
  by (simp add: importDataKey_def)

lemma run_setUnlockedKey [simp]:
  "length k = 32 \<Longrightarrow> setUnlockedKey k w = (Inr (), w\<lparr>keystore := (keystore w)\<lparr>memKey := Some k, memKeyBytes := Some k\<rparr>\<rparr>)"
  by (simp add: setUnlockedKey_def)

text \<open>A wrapped data key comes back under the same passphrase.\<close>

definition wraps :: "env \<Rightarrow> AppLockKdf \<Rightarrow> string \<Rightarrow> PassphraseFactor \<Rightarrow> bytes \<Rightarrow> bool" where
  "wraps E kdf passphrase f dataKey \<longleftrightarrow>
     (\<exists>kek. kdf (textEncode passphrase) (fromHex (pf_salt f)) (pf_m_cost f) (pf_t_cost f) = Inr kek \<and> length kek = 32 \<and>
        reads E kek (fromHex (pf_wrapped f)) = Some dataKey)"

lemma wrapPassphrase_wraps:
  assumes "aes_correct E" "kdf_answers kdf"
  shows "\<exists>f t. wrapPassphrase E kdf dataKey passphrase w = (Inr f, w\<lparr>tick := t\<rparr>) \<and> wraps E kdf passphrase f dataKey"
proof -
  let ?salt = "map (rand_byte E (tick w)) [0..<16]"
  let ?t = "Suc (tick w)"
  obtain kek where k: "kdf (textEncode passphrase) ?salt ARGON_M ARGON_T = Inr kek" "length kek = 32"
    using assms(2) unfolding kdf_answers_def by blast
  show ?thesis
    by (intro exI [where x = "\<lparr>pf_salt = toHex ?salt, pf_m_cost = ARGON_M, pf_t_cost = ARGON_T,
          pf_wrapped = toHex (ivAt E ?t @ aes_enc E kek (ivAt E ?t) dataKey)\<rparr>"] exI [where x = "Suc ?t"])
       (use assms(1) k in \<open>simp add: wrapPassphrase_def wraps_def\<close>)
qed

definition failOf :: "privexDB \<Rightarrow> int \<times> int" where
  "failOf d = (case tget (settings_tbl d) FAIL_KEY of None \<Rightarrow> (0, 0)
     | Some r \<Rightarrow> (orElse (jint (jget ''count'' (st_value r))) 0, orElse (jint (jget ''until'' (st_value r))) 0))"

lemma run_failState [simp]: "failState w = (Inr (failOf (idb w)), w)"
  by (simp add: failState_def failOf_def split: option.split)

lemma run_throttle:
  "throttle E w = ((if date_now E (tick w) < snd (failOf (idb w))
     then Inl (JsError (''Too many attempts - wait '' @
       showInt (- ((- (snd (failOf (idb w)) - date_now E (tick w))) div 1000)) @ ''s.''))
     else Inr ()), w\<lparr>tick := Suc (tick w)\<rparr>)"
  by (simp add: throttle_def Let_def)

definition withoutFailures :: "privexDB \<Rightarrow> privexDB" where
  "withoutFailures d = d\<lparr>settings_tbl := tdelete FAIL_KEY (settings_tbl d)\<rparr>"

lemma run_clearFailures [simp]: "clearFailures w = (Inr (), w\<lparr>idb := withoutFailures (idb w)\<rparr>)"
  by (simp add: clearFailures_def withoutFailures_def)

lemma failOf_without [simp]: "failOf (withoutFailures d) = (0, 0)"
  by (simp add: failOf_def withoutFailures_def)

lemma withoutFailures_idem [simp]: "withoutFailures (withoutFailures d) = withoutFailures d"
  by (simp add: withoutFailures_def tdelete_def)

lemma dbView_without: "dbView E k (withoutFailures d) = (case dbView E k d of (a, b, c, e, f, g, r) \<Rightarrow> (a, b, c, e, f, g, withoutFailures r))"
  by (simp add: dbView_def withoutFailures_def)

lemma unlockWithPassphrase_right:
  assumes "lockMeta (keystore w) = Some m" "lm_passphrase m = Some f" "wraps E kdf passphrase f key" "length key = 32"
    "snd (failOf (idb w)) \<le> date_now E (tick w)"
  shows "unlockWithPassphrase E kdf passphrase w = (Inr (), w\<lparr>tick := Suc (tick w), idb := withoutFailures (idb w),
      keystore := (keystore w)\<lparr>memKey := Some key, memKeyBytes := Some key\<rparr>\<rparr>)"
  using assms by (auto simp: unlockWithPassphrase_def getLockMeta_def run_throttle wraps_def run_aesDecrypt)


text \<open>What enabling the lock leaves behind.\<close>

lemma enable_run:
  assumes "aes_correct E" "kdf_answers kdf" "MIN_PASSPHRASE \<le> length passphrase"
    "keyOf w = Some ok" "dbKeyed (idb w)" "dbReadable E ok (idb w)"
  shows "\<exists>t d f. enableWithPassphrase E kdf passphrase w = (Inr (), w\<lparr>tick := t, idb := withoutFailures d, keystore :=
      \<lparr>memKey = Some (map (rand_byte E (tick w)) [0..<32]), memKeyBytes = Some (map (rand_byte E (tick w)) [0..<32]),
       masterHandle = None, lockMeta = Some \<lparr>lm_passphrase = Some f, lm_webauthn = None\<rparr>\<rparr>\<rparr>) \<and>
    wraps E kdf passphrase f (map (rand_byte E (tick w)) [0..<32]) \<and>
    dbView E (map (rand_byte E (tick w)) [0..<32]) d = dbView E ok (idb w) \<and>
    linked_tbl d = linked_tbl (idb w) \<and> settings_tbl d = settings_tbl (idb w)"
proof -
  let ?nk = "map (rand_byte E (tick w)) [0..<32]"
  have mk: "getMasterKey E w = (Inr ok, w)" by (rule getMasterKey_keyOf [OF assms(4)])
  obtain t d where rk: "rekeyAllEncryptedFields E ok ?nk (w\<lparr>tick := Suc (tick w)\<rparr>) = (Inr (), w\<lparr>tick := t, idb := d\<rparr>)"
    and view: "dbView E ?nk d = dbView E ok (idb w)" "linked_tbl d = linked_tbl (idb w)" "settings_tbl d = settings_tbl (idb w)"
    using rekey_run [OF assms(1), of "w\<lparr>tick := Suc (tick w)\<rparr>" ok ?nk] assms(5,6) by auto
  let ?w1 = "w\<lparr>tick := t, idb := d, keystore := (keystore w)\<lparr>memKey := Some ?nk, memKeyBytes := Some ?nk\<rparr>\<rparr>"
  obtain f t' where wr: "wrapPassphrase E kdf ?nk passphrase ?w1 = (Inr f, ?w1\<lparr>tick := t'\<rparr>)"
    and f: "wraps E kdf passphrase f ?nk"
    using wrapPassphrase_wraps [OF assms(1,2)] by blast
  show ?thesis
    using assms(3) mk rk wr f view
    by (intro exI [where x = t'] exI [where x = d] exI [where x = f])
       (simp add: enableWithPassphrase_def setLockMeta_def clearNoLockHandle_def)
qed

text \<open>Turning the app lock on, locking, and unlocking with the same passphrase loses nothing.
  With a passphrase of at least eight characters and a readable database, enabling runs to its
  end. From then on the locked device does not hand out any key, and unlocking with that
  passphrase gives back a key under which the database reads exactly as it did before (only the
  counter of failed attempts is gone).\<close>

theorem applock_round_trip:
  assumes "aes_correct E" "kdf_answers kdf" "MIN_PASSPHRASE \<le> length passphrase"
    "keyOf w = Some ok" "dbKeyed (idb w)" "dbReadable E ok (idb w)" "\<forall>t. 0 \<le> date_now E t"
  shows "\<exists>w1 w2 nk. enableWithPassphrase E kdf passphrase w = (Inr (), w1) \<and>
    getMasterKey E (snd (lock w1)) = (Inl (JsError ''locked''), snd (lock w1)) \<and>
    unlockWithPassphrase E kdf passphrase (snd (lock w1)) = (Inr (), w2) \<and>
    getMasterKey E w2 = (Inr nk, w2) \<and> dbView E nk (idb w2) = dbView E ok (withoutFailures (idb w))"
proof -
  let ?nk = "map (rand_byte E (tick w)) [0..<32]"
  obtain t d f where en: "enableWithPassphrase E kdf passphrase w = (Inr (), w\<lparr>tick := t, idb := withoutFailures d, keystore :=
      \<lparr>memKey = Some ?nk, memKeyBytes = Some ?nk, masterHandle = None,
       lockMeta = Some \<lparr>lm_passphrase = Some f, lm_webauthn = None\<rparr>\<rparr>\<rparr>)" (is "_ = (_, ?w1)")
    and f: "wraps E kdf passphrase f ?nk" and view: "dbView E ?nk d = dbView E ok (idb w)"
    using enable_run [OF assms(1-6)] by blast
  let ?l = "?w1\<lparr>keystore := (keystore ?w1)\<lparr>memKey := None, memKeyBytes := None\<rparr>\<rparr>"
  have l: "snd (lock ?w1) = ?l" by (simp add: lock_def lockNow_def)
  have un: "unlockWithPassphrase E kdf passphrase ?l = (Inr (), ?l\<lparr>tick := Suc t, idb := withoutFailures d,
      keystore := (keystore ?l)\<lparr>memKey := Some ?nk, memKeyBytes := Some ?nk\<rparr>\<rparr>)"
    using unlockWithPassphrase_right [of ?l _ f E kdf passphrase ?nk] f assms(7) by simp
  have "dbView E ?nk (withoutFailures d) = dbView E ok (withoutFailures (idb w))"
    using view by (simp add: dbView_without)
  then show ?thesis
    using en un unfolding l by (intro exI [where x = ?w1] exI conjI) (auto simp: l run_getMasterKey)
qed

lemma failDelay_bounds: "0 \<le> failDelay n" "failDelay n \<le> 300000" "n < 5 \<Longrightarrow> failDelay n = 0" "5 \<le> n \<Longrightarrow> 1000 \<le> failDelay n"
  by (simp_all add: failDelay_def)

lemma failOf_put [simp]: "failOf (d\<lparr>settings_tbl := tput FAIL_KEY \<lparr>st_key = k, st_value = failJson a b\<rparr> t\<rparr>) = (a, b)"
  by (simp add: failOf_def failJson_def)

lemma run_recordFailure:
  "recordFailure E w = (Inr (), w\<lparr>tick := Suc (tick w), idb := (idb w)\<lparr>settings_tbl := tput FAIL_KEY
     \<lparr>st_key = FAIL_KEY, st_value = failJson (fst (failOf (idb w)) + 1)
       (date_now E (tick w) + failDelay (fst (failOf (idb w)) + 1))\<rparr> (settings_tbl (idb w))\<rparr>\<rparr>)"
  by (simp add: recordFailure_def)

text \<open>Guessing is slowed down. While the time stored with the counter has not come, an attempt
  is refused without trying the passphrase. A wrong passphrase leaves the keystore as it is, so
  the device stays locked, is counted, and from the fifth on puts off the next attempt by at
  least one second and at most five minutes.\<close>

theorem wrong_passphrase_is_counted:
  assumes "lockMeta (keystore w) = Some m" "lm_passphrase m = Some f"
    "kdf (textEncode guess) (fromHex (pf_salt f)) (pf_m_cost f) (pf_t_cost f) = Inr kek" "length kek = 32"
    "reads E kek (fromHex (pf_wrapped f)) = None"
  shows "let now = date_now E (tick w); n = fst (failOf (idb w)); (r, w') = unlockWithPassphrase E kdf guess w in
    keystore w' = keystore w \<and>
    (if now < snd (failOf (idb w)) then isl r \<and> w' = w\<lparr>tick := Suc (tick w)\<rparr>
     else r = Inl (JsError ''Wrong passphrase.'') \<and>
       failOf (idb w') = (n + 1, date_now E (Suc (tick w)) + failDelay (n + 1)) \<and>
       (if n + 1 < 5 then failDelay (n + 1) = 0 else failDelay (n + 1) \<in> {1000..300000}))"
  using assms failDelay_bounds [of "fst (failOf (idb w)) + 1"]
  by (cases "date_now E (tick w) < snd (failOf (idb w))")
     (simp_all add: unlockWithPassphrase_def getLockMeta_def run_throttle run_aesDecrypt run_recordFailure Let_def)

text \<open>C32. Enabling the app lock does not re-encrypt the device-sync keys. They stay under the old
  key, so that afterwards, with AES-GCM refusing a ciphertext of another key, a device with sync
  on and a linked device can no longer read them: collecting the sync targets throws.\<close>

theorem applock_loses_sync_keys:
  assumes "aes_correct E" "kdf_answers kdf" "MIN_PASSPHRASE \<le> length passphrase"
    "keyOf w = Some ok" "dbKeyed (idb w)" "dbReadable E ok (idb w)"
    "map_option st_value (tget (settings_tbl (idb w)) ENABLED_KEY) = Some (JBool True)"
    "linked_tbl (idb w) = (i, r) # ds" "\<forall>k. length k = 32 \<and> k \<noteq> ok \<longrightarrow> reads E k (ld_send_key_enc r) = None"
    "map (rand_byte E (tick w)) [0..<32] \<noteq> ok"
  shows "\<exists>w1. enableWithPassphrase E kdf passphrase w = (Inr (), w1) \<and>
    syncTargets E w1 = (Inl (JsError ''OperationError''), w1)"
proof -
  let ?nk = "map (rand_byte E (tick w)) [0..<32]"
  obtain t d f where en: "enableWithPassphrase E kdf passphrase w = (Inr (), w\<lparr>tick := t, idb := withoutFailures d, keystore :=
      \<lparr>memKey = Some ?nk, memKeyBytes = Some ?nk, masterHandle = None,
       lockMeta = Some \<lparr>lm_passphrase = Some f, lm_webauthn = None\<rparr>\<rparr>\<rparr>)" (is "_ = (_, ?w1)")
    and d: "linked_tbl d = linked_tbl (idb w)" "settings_tbl d = settings_tbl (idb w)"
    using enable_run [OF assms(1-6)] by blast
  have "reads E ?nk (ld_send_key_enc r) = None" using assms(9,10) by simp
  then have "syncTargets E ?w1 = (Inl (JsError ''OperationError''), ?w1)"
    using assms(7,8) d
    by (simp add: syncTargets_def deviceSyncEnabled_def withoutFailures_def FAIL_KEY_def ENABLED_KEY_def toArray_def
        run_getMasterKey run_aesDecrypt)
  then show ?thesis using en by blast
qed

end
