(* ===== verification/DeviceWitnesses.thy ===== *)
theory DeviceWitnesses
  imports MessagingWitnesses Session Applock
begin

text \<open>
  Instances of the properties of the app lock, the socket, cover traffic and the session
  actions, on the sample environment.
\<close>

section \<open>App lock\<close>

text \<open>An AES-GCM that refuses ciphertexts of another key: the ciphertext carries its key.\<close>

definition env1 :: env where
  "env1 = env0\<lparr>aes_enc := (\<lambda>k iv p. k @ p), aes_dec := (\<lambda>k iv c. if take (length k) c = k then Some (drop (length k) c) else None)\<rparr>"

definition kdf0 :: AppLockKdf where
  "kdf0 p salt m t = Inr (take 32 (p @ replicate 32 0))"

lemma env1_simps [simp]: "aes_correct env1" "date_now env1 = date_now env0" "rand_byte env1 = rand_byte env0"
  by (simp_all add: env1_def aes_correct_def)

lemma kdf0_answers [simp]: "kdf_answers kdf0"
  by (auto simp: kdf_answers_def kdf0_def)

definition dbSealed :: privexDB where
  "dbSealed = db0\<lparr>messages_tbl := [(''m1'', message0\<lparr>m_content_enc := replicate 12 0 @ key0 @ textEncode ''hi''\<rparr>)],
     settings_tbl := [(ENABLED_KEY, \<lparr>st_key = ENABLED_KEY, st_value = JBool True\<rparr>)],
     linked_tbl := [(''d2'', \<lparr>ld_device_id = ''d2'', ld_label = ''B'', ld_send_key_enc = replicate 12 0 @ key0,
       ld_recv_key_enc = replicate 12 0 @ key0, ld_linked_at = 0\<rparr>)]\<rparr>"

lemma dbSealed_ok: "dbKeyed dbSealed" "dbReadable env1 key0 dbSealed" "keyOf (world0\<lparr>idb := dbSealed\<rparr>) = Some key0"
  by (simp_all add: dbSealed_def dbKeyed_def keyedBy_def dbReadable_def messageReadable_def readableOpt_def message0_def reads_def
      env1_def IV_LEN_def key0_def keyOf_def ksKey_def world0_def)

theorem applock_round_trip_witness:
  "\<exists>w1 w2 nk. enableWithPassphrase env1 kdf0 ''correct horse'' (world0\<lparr>idb := dbSealed\<rparr>) = (Inr (), w1) \<and>
     getMasterKey env1 (snd (lock w1)) = (Inl (JsError ''locked''), snd (lock w1)) \<and>
     unlockWithPassphrase env1 kdf0 ''correct horse'' (snd (lock w1)) = (Inr (), w2) \<and>
     getMasterKey env1 w2 = (Inr nk, w2) \<and> dbView env1 nk (idb w2) = dbView env1 key0 (withoutFailures dbSealed)"
  using applock_round_trip [of env1 kdf0 "''correct horse''" "world0\<lparr>idb := dbSealed\<rparr>" key0] dbSealed_ok
  by (simp add: MIN_PASSPHRASE_def env0_def)

theorem applock_loses_sync_keys_witness:
  "\<exists>w1. enableWithPassphrase env1 kdf0 ''correct horse'' (world0\<lparr>idb := dbSealed\<rparr>) = (Inr (), w1) \<and>
     syncTargets env1 w1 = (Inl (JsError ''OperationError''), w1)"
proof (rule applock_loses_sync_keys [OF _ _ _ dbSealed_ok(3)])
  let ?r = "\<lparr>ld_device_id = ''d2'', ld_label = ''B'', ld_send_key_enc = replicate 12 0 @ key0,
       ld_recv_key_enc = replicate 12 0 @ key0, ld_linked_at = 0\<rparr>"
  show "linked_tbl (idb (world0\<lparr>idb := dbSealed\<rparr>)) = (''d2'', ?r) # []" by (simp add: dbSealed_def)
  show "map_option st_value (tget (settings_tbl (idb (world0\<lparr>idb := dbSealed\<rparr>))) ENABLED_KEY) = Some (JBool True)"
    by (simp add: dbSealed_def tget_def)
  show "map (rand_byte env1 (tick (world0\<lparr>idb := dbSealed\<rparr>))) [0..<32] \<noteq> key0"
    by (simp add: env0_def key0_def) (simp add: numeral_eq_Suc)
  show "\<forall>k. length k = 32 \<and> k \<noteq> key0 \<longrightarrow> reads env1 k (ld_send_key_enc ?r) = None"
    by (auto simp: reads_def env1_def IV_LEN_def key0_def)
qed (use dbSealed_ok in \<open>simp_all add: MIN_PASSPHRASE_def\<close>)

definition lockedWorld :: world where
  "lockedWorld = world0\<lparr>keystore := \<lparr>memKey = None, memKeyBytes = None, masterHandle = None,
     lockMeta = Some \<lparr>lm_passphrase = Some \<lparr>pf_salt = ''00'', pf_m_cost = 1, pf_t_cost = 1,
       pf_wrapped = toHex (replicate 12 0 @ replicate 32 7 @ key0)\<rparr>, lm_webauthn = None\<rparr>\<rparr>\<rparr>"

theorem wrong_passphrase_is_counted_witness:
  "fst (unlockWithPassphrase env1 kdf0 ''wrong guess'' lockedWorld) = Inl (JsError ''Wrong passphrase.'')"
proof -
  let ?f = "\<lparr>pf_salt = ''00'', pf_m_cost = 1, pf_t_cost = 1, pf_wrapped = toHex (replicate 12 0 @ replicate 32 7 @ key0)\<rparr>"
  let ?k = "take 32 (textEncode ''wrong guess'' @ replicate 32 0)"
  have d: "reads env1 ?k (fromHex (pf_wrapped ?f)) = None" by (simp add: reads_def env1_def IV_LEN_def) code_simp
  show ?thesis
    using wrong_passphrase_is_counted [of lockedWorld "\<lparr>lm_passphrase = Some ?f, lm_webauthn = None\<rparr>" ?f kdf0 "''wrong guess''" ?k env1] d
    by (simp add: lockedWorld_def kdf0_def failOf_def env0_def split: prod.splits)
qed

section \<open>Socket and cover traffic\<close>

definition online0 :: app where
  "online0 = connectWebSocket env0 ''tok'' \<lparr>ap_ws = wsInit, ap_world = world0\<rparr>"

lemma reach_online: "wsReach env0 mc v online0"
  unfolding online0_def by (rule wsReach.step [OF wsReach.start wsStep.connect]) (simp_all add: wsInit_def)

theorem ws_single_connection_witness: "attempts (ap_ws online0) = (if active (ap_ws online0) then 1 else 0)"
  using ws_single_connection [OF reach_online] by blast

definition unreachable :: env where
  "unreachable = env0\<lparr>fetch := (\<lambda>t r. None)\<rparr>"

lemma unreachable_ticket:
  "\<exists>w'. wsTicket unreachable ''tok'' w = (Inl (JsError ''TypeError: Failed to fetch''), w')"
  by (simp add: wsTicket_def post_api_def run_fetchReq unreachable_def)

lemma reach_waiting:
  obtains a where "wsReach unreachable mc v a" "wk_timers (ap_ws a) = [(1, 1000)]"
proof -
  let ?a0 = "\<lparr>ap_ws = wsInit, ap_world = world0\<rparr>"
  let ?a1 = "connectWebSocket unreachable ''tok'' ?a0"
  have r1: "wsReach unreachable mc v ?a1"
    by (rule wsReach.step [OF wsReach.start wsStep.connect]) (simp_all add: wsInit_def)
  let ?e = "Inl (JsError ''TypeError: Failed to fetch'')"
  have "wk_opening (ap_ws ?a1) = [] @ (1, ?e) # [] \<and> wk_timers (ap_ws ?a1) = [] \<and> wk_retry (ap_ws ?a1) = 0 \<and>
      \<not> wk_stopped (ap_ws ?a1) \<and> wk_gen (ap_ws ?a1) = 1"
    using unreachable_ticket [of "snd (spawn TPruneReceived world0)"]
    by (auto simp: connectWebSocket_def Let_def openSocket_def wsInit_def onWorld_def onWs_def)
  note f = this
  let ?a2 = "ticketDone unreachable 1 ?e (onWs (\<lambda>k. k\<lparr>wk_opening := [] @ []\<rparr>) ?a1)"
  have "wsReach unreachable mc v ?a2" by (rule wsReach.step [OF r1 wsStep.ticket]) (use f in simp)
  moreover have "wk_timers (ap_ws ?a2) = [(1, 1000)]"
    using f by (simp add: ticketDone_def scheduleReconnect_def MAX_BACKOFF_def unreachable_def env0_def)
  ultimately show ?thesis by (rule that)
qed

theorem ws_backoff_bounds_witness:
  "\<exists>a g d. wsReach unreachable (workerMessageCrypto unreachable) (workerVerify unreachable) a \<and>
     (g, d) \<in> set (wk_timers (ap_ws a)) \<and> 1000 \<le> d \<and> d < 301000"
proof -
  obtain a where a: "wsReach unreachable (workerMessageCrypto unreachable) (workerVerify unreachable) a"
    "wk_timers (ap_ws a) = [(1, 1000)]" by (rule reach_waiting)
  have r: "\<forall>t. 0 \<le> rand_unit unreachable t \<and> rand_unit unreachable t < 1" by (simp add: unreachable_def env0_def)
  have m: "(1, 1000) \<in> set (wk_timers (ap_ws a))" using a(2) by simp
  from ws_backoff_bounds [OF r a(1) m] a(1) m show ?thesis by blast
qed

theorem lockApp_leaves_device_inert_witness:
  "\<exists>a' c'. lockApp (connectWebSocket env0 ''tok'' \<lparr>ap_ws = wsInit, ap_world = lockedWorld\<rparr>, coverInit) = (a', c') \<and>
     offline (ap_ws a') \<and> bundleCache (ap_world a') = None"
proof -
  let ?a = "connectWebSocket env0 ''tok'' \<lparr>ap_ws = wsInit, ap_world = lockedWorld\<rparr>"
  obtain a' c' where s: "lockApp (?a, coverInit) = (a', c')" by fastforce
  have r: "wsReach env0 (workerMessageCrypto env0) (workerVerify env0) ?a"
    by (rule wsReach.step [OF wsReach.start wsStep.connect]) (simp_all add: wsInit_def)
  have "keystore (snd (wsTicket env0 ''tok'' w)) = keystore w" for w
    by (simp add: wsTicket_def await_pure_state)
  then have "wsTicket env0 ''tok'' w = (x, w') \<Longrightarrow> keystore w' = keystore w" for w x w' by (metis snd_conv)
  then have "lockMeta (keystore (ap_world ?a)) \<noteq> None"
    by (auto simp: connectWebSocket_def Let_def openSocket_def wsInit_def onWorld_def onWs_def lockedWorld_def split: prod.split)
  from lockApp_leaves_device_inert [OF r this, of coverInit] s show ?thesis by (simp add: Let_def)
qed

section \<open>Cover traffic\<close>

theorem cover_one_loop_witness:
  "loops (startCoverTraffic coverInit) = (if cv_running (startCoverTraffic coverInit) then 1 else 0)"
proof -
  have "calmReach env0 (\<lambda>to tok ty. ret ()) (ret ()) (startCoverTraffic coverInit, world0)"
    by (rule calmReach.step [OF calmReach.init coverStep.start]) (simp add: coverInit_def)
  from cover_one_loop [OF this] show ?thesis by simp
qed

end
