(* ===== verification/HistoryRecords.thy ===== *)
theory HistoryRecords
  imports Contacts DeviceSync
begin

text \<open>
  History records (\<^verbatim>\<open>services/history-records.ts\<close>) and their encryption under keys derived
  from the master seed (\<^verbatim>\<open>crypto/history-crypto.ts\<close>). A record is the plaintext unit of the
  server backup and of the device-to-device transfer; importing one overwrites by id.
\<close>

section \<open>Records\<close>

record MsgRecord =
  mr_msg_id :: string
  mr_peer_id :: string
  mr_direction :: direction
  mr_kind :: kind
  mr_content :: string
  mr_timestamp :: int
  mr_status :: string
  mr_created_at :: "int option"

record ContactRecord =
  cr_px_id :: string
  cr_name :: string
  cr_ik_ed25519 :: string
  cr_ik_x25519 :: string
  cr_verified :: "string option"
  cr_status :: "ContactStatus option"

datatype HistoryRecord = MsgRec MsgRecord | ContactRec ContactRecord

definition recordId :: "HistoryRecord \<Rightarrow> string" where
  "recordId rec = (case rec of ContactRec c \<Rightarrow> ''contact:'' @ cr_px_id c | MsgRec m \<Rightarrow> mr_msg_id m)"

subsection \<open>As JSON\<close>

definition dirName :: "direction \<Rightarrow> string" where
  "dirName d = (case d of DirIn \<Rightarrow> ''in'' | DirOut \<Rightarrow> ''out'')"

definition parseDir :: "json option \<Rightarrow> direction option" where
  "parseDir v = (if jstr v = Some ''in'' then Some DirIn else if jstr v = Some ''out'' then Some DirOut else None)"

definition statusName :: "ContactStatus \<Rightarrow> string" where
  "statusName s = (case s of Accepted \<Rightarrow> ''accepted'' | PendingInbound \<Rightarrow> ''pending_inbound''
     | PendingOutbound \<Rightarrow> ''pending_outbound'' | Blocked \<Rightarrow> ''blocked'')"

definition parseStatus :: "json option \<Rightarrow> ContactStatus option" where
  "parseStatus v =
     (if jstr v = Some ''accepted'' then Some Accepted else if jstr v = Some ''pending_inbound'' then Some PendingInbound
      else if jstr v = Some ''pending_outbound'' then Some PendingOutbound
      else if jstr v = Some ''blocked'' then Some Blocked else None)"

definition recordJson :: "HistoryRecord \<Rightarrow> json" where
  "recordJson rec = (case rec of
     MsgRec m \<Rightarrow> JObj ([(''v'', JNum 1), (''type'', JStr ''message''), (''msg_id'', JStr (mr_msg_id m)),
       (''peer_id'', JStr (mr_peer_id m)), (''direction'', JStr (dirName (mr_direction m))), (''kind'', JStr (kindName (mr_kind m))),
       (''content'', JStr (mr_content m)), (''timestamp'', JNum (mr_timestamp m)), (''status'', JStr (mr_status m))]
       @ jopt ''created_at'' (map_option JNum (mr_created_at m)))
   | ContactRec c \<Rightarrow> JObj ([(''v'', JNum 1), (''type'', JStr ''contact''), (''px_id'', JStr (cr_px_id c)),
       (''name'', JStr (cr_name c)), (''ik_ed25519'', JStr (cr_ik_ed25519 c)), (''ik_x25519'', JStr (cr_ik_x25519 c))]
       @ jopt ''verified'' (map_option JStr (cr_verified c))
       @ jopt ''status'' (map_option (\<lambda>s. JStr (statusName s)) (cr_status c))))"

text \<open>A record whose fields are not of the declared types is a \<open>TypeError\<close>.\<close>

definition parseRecord :: "json \<Rightarrow> error + HistoryRecord" where
  "parseRecord j =
     (if jstr (jget ''type'' j) = Some ''contact'' then
        (case (jstr (jget ''px_id'' j), jstr (jget ''name'' j), jstr (jget ''ik_ed25519'' j), jstr (jget ''ik_x25519'' j)) of
           (Some p, Some n, Some e, Some x) \<Rightarrow>
             Inr (ContactRec \<lparr>cr_px_id = p, cr_name = n, cr_ik_ed25519 = e, cr_ik_x25519 = x,
                   cr_verified = jstr (jget ''verified'' j), cr_status = parseStatus (jget ''status'' j)\<rparr>)
         | _ \<Rightarrow> Inl (JsError ''TypeError''))
      else
        (case (jstr (jget ''msg_id'' j), jstr (jget ''peer_id'' j), parseDir (jget ''direction'' j), parseKind (jget ''kind'' j),
               jstr (jget ''content'' j), jint (jget ''timestamp'' j), jstr (jget ''status'' j)) of
           (Some i, Some p, Some d, Some k, Some c, Some t, Some s) \<Rightarrow>
             Inr (MsgRec \<lparr>mr_msg_id = i, mr_peer_id = p, mr_direction = d, mr_kind = k, mr_content = c, mr_timestamp = t,
                   mr_status = s, mr_created_at = jint (jget ''created_at'' j)\<rparr>)
         | _ \<Rightarrow> Inl (JsError ''TypeError'')))"

lemma parseRecord_json [simp]: "parseRecord (recordJson rec) = Inr rec"
proof (cases rec)
  case (MsgRec m)
  then show ?thesis
    by (cases m; cases "mr_created_at m"; cases "mr_direction m"; cases "mr_kind m")
       (simp_all add: parseRecord_def recordJson_def jopt_def dirName_def parseDir_def kindName_def parseKind_def)
next
  case (ContactRec c)
  then show ?thesis
    by (cases c; cases "cr_verified c"; cases "cr_status c"; cases "the (cr_status c)")
       (simp_all add: parseRecord_def recordJson_def jopt_def statusName_def parseStatus_def)
qed

lemma noDec_record [simp]: "noDec (recordJson rec)"
  by (simp add: recordJson_def jopt_def split: HistoryRecord.split option.split)

section \<open>Keys and blobs (\<^verbatim>\<open>crypto/history-crypto.ts\<close>)\<close>

definition deriveHistoryKey :: "env \<Rightarrow> bytes \<Rightarrow> cryptoKey" where
  "deriveHistoryKey E masterSeed = hkdf256 E masterSeed (textEncode ''privex_history_v1'')"

definition deriveHistoryIdKey :: "env \<Rightarrow> bytes \<Rightarrow> cryptoKey" where
  "deriveHistoryIdKey E masterSeed = hkdf256 E masterSeed (textEncode ''privex_history_id_v1'')"

definition historyBlobId :: "env \<Rightarrow> cryptoKey \<Rightarrow> string \<Rightarrow> string" where
  "historyBlobId E idKey rid = toHex (hmac256 E idKey (textEncode rid))"

definition encryptRecord :: "env \<Rightarrow> cryptoKey \<Rightarrow> HistoryRecord \<Rightarrow> bytes act" where
  "encryptRecord E key rec = encryptString E key (stringify (recordJson rec))"

definition decryptRecord :: "env \<Rightarrow> cryptoKey \<Rightarrow> bytes \<Rightarrow> HistoryRecord act" where
  "decryptRecord E key blob =
     await (decryptString E key blob) (\<lambda>s.
     case json_parse s of None \<Rightarrow> throw (JsError ''SyntaxError'') | Some j \<Rightarrow> liftE (parseRecord j))"

section \<open>Collecting and importing\<close>

definition contactRecord :: "ContactRow \<Rightarrow> string \<Rightarrow> ContactRecord" where
  "contactRecord c name =
     \<lparr>cr_px_id = c_px_id c, cr_name = name, cr_ik_ed25519 = toHex (orElse (c_ik_ed25519_pub c) []),
      cr_ik_x25519 = toHex (orElse (c_ik_x25519_pub c) []), cr_verified = c_verified_fingerprint c,
      cr_status = Some (orElse (c_status c) Accepted)\<rparr>"

definition contactRecordFor :: "env \<Rightarrow> string \<Rightarrow> ContactRecord option act" where
  "contactRecordFor E pxId =
     await (dbGets (\<lambda>d. tget (contacts_tbl d) pxId)) (\<lambda>row. case row of None \<Rightarrow> ret None | Some c \<Rightarrow>
     await (getMasterKey E) (\<lambda>mk.
     await (case c_display_name_enc c of None \<Rightarrow> ret [] | Some b \<Rightarrow> decryptString E mk b) (\<lambda>name.
     ret (Some (contactRecord c name)))))"

definition msgRecord :: "MessageRow \<Rightarrow> string \<Rightarrow> MsgRecord" where
  "msgRecord r content =
     \<lparr>mr_msg_id = m_msg_id r, mr_peer_id = m_session_id r, mr_direction = m_direction r, mr_kind = orElse (m_kind r) KText,
      mr_content = content, mr_timestamp = m_timestamp r, mr_status = m_status r, mr_created_at = m_created_at r\<rparr>"

definition collectLocalRecords :: "env \<Rightarrow> HistoryRecord list act" where
  "collectLocalRecords E =
     await (getMasterKey E) (\<lambda>mk.
     await (dbGets (\<lambda>d. toArray (messages_tbl d))) (\<lambda>rows.
     await (mapP (\<lambda>r. await (decryptString E mk (m_content_enc r)) (\<lambda>c. ret (MsgRec (msgRecord r c)))) rows) (\<lambda>ms.
     await (dbGets (\<lambda>d. toArray (contacts_tbl d))) (\<lambda>cs.
     await (mapP (\<lambda>c. contactRecordFor E (c_px_id c)) cs) (\<lambda>rs.
     ret (ms @ map ContactRec (List.map_filter id rs)))))))"

definition importedMessage :: "MsgRecord \<Rightarrow> PlainMessage" where
  "importedMessage m =
     \<lparr>p_msg_id = mr_msg_id m, p_session_id = mr_peer_id m, p_content = mr_content m, p_timestamp = mr_timestamp m,
      p_status = mr_status m, p_direction = mr_direction m, p_kind = mr_kind m, p_receipt_token = None,
      p_receipt_read_wanted = None, p_receipt_read_done = None, p_server_anchor = None,
      p_created_at = orElse (mr_created_at m) (mr_timestamp m * 1000)\<rparr>"

definition importRecord :: "env \<Rightarrow> HistoryRecord \<Rightarrow> ContactStatus \<Rightarrow> unit act" where
  "importRecord E rec legacyStatus = (case rec of
     ContactRec c \<Rightarrow>
       andThen (restoreContact E (cr_px_id c)
           (if cr_ik_ed25519 c \<noteq> [] then fromHex (cr_ik_ed25519 c) else [])
           (if cr_ik_x25519 c \<noteq> [] then fromHex (cr_ik_x25519 c) else []) (orElse (cr_status c) legacyStatus)) (
       andThen (whenM (cr_name c \<noteq> []) (setDisplayName E (cr_px_id c) (cr_name c)))
         (case cr_verified c of None \<Rightarrow> ret () | Some v \<Rightarrow> whenM (v \<noteq> []) (setVerified (cr_px_id c) v)))
   | MsgRec m \<Rightarrow> messages_add E (importedMessage m))"

section \<open>What an import leaves\<close>

text \<open>A record occupies one row: a message under its id or a contact under its px id.\<close>

definition slot :: "HistoryRecord \<Rightarrow> string + string" where
  "slot rec = (case rec of MsgRec m \<Rightarrow> Inl (mr_msg_id m) | ContactRec c \<Rightarrow> Inr (cr_px_id c))"

definition rowAt :: "privexDB \<Rightarrow> string + string \<Rightarrow> MessageRow option + ContactRow option" where
  "rowAt d s = (case s of Inl i \<Rightarrow> Inl (tget (messages_tbl d) i) | Inr p \<Rightarrow> Inr (tget (contacts_tbl d) p))"

definition nameOf :: "env \<Rightarrow> cryptoKey \<Rightarrow> ContactRow \<Rightarrow> string option" where
  "nameOf E k r = (case c_display_name_enc r of None \<Rightarrow> Some [] | Some b \<Rightarrow> map_option textDecode (reads E k b))"

text \<open>The row of a record says what the record says; \<open>st\<close> is the status a contact got.\<close>

definition storedAs :: "env \<Rightarrow> cryptoKey \<Rightarrow> (ContactRecord \<Rightarrow> ContactStatus) \<Rightarrow> HistoryRecord \<Rightarrow> MessageRow option + ContactRow option \<Rightarrow> bool" where
  "storedAs E k st rec row = (case (rec, row) of
     (MsgRec m, Inl (Some r)) \<Rightarrow> reads E k (m_content_enc r) = Some (textEncode (mr_content m)) \<and>
       msgRecord r (mr_content m) = m\<lparr>mr_created_at := Some (orElse (mr_created_at m) (mr_timestamp m * 1000))\<rparr>
   | (ContactRec c, Inr (Some r)) \<Rightarrow> c_px_id r = cr_px_id c \<and> c_status r = Some (st c) \<and> nameOf E k r = Some (cr_name c) \<and>
       orElse (c_ik_ed25519_pub r) [] = fromHex (cr_ik_ed25519 c) \<and> orElse (c_ik_x25519_pub r) [] = fromHex (cr_ik_x25519 c) \<and>
       orElse (c_verified_fingerprint r) [] = orElse (cr_verified c) []
   | _ \<Rightarrow> False)"

definition stored :: "env \<Rightarrow> cryptoKey \<Rightarrow> (ContactRecord \<Rightarrow> ContactStatus) \<Rightarrow> privexDB \<Rightarrow> HistoryRecord \<Rightarrow> bool" where
  "stored E k st d rec \<longleftrightarrow> storedAs E k st rec (rowAt d (slot rec))"

lemma rowAt_update [simp]:
  "rowAt (messages_tbl_update f d) s = (case s of Inl i \<Rightarrow> Inl (tget (f (messages_tbl d)) i) | Inr p \<Rightarrow> rowAt d s)"
  "rowAt (contacts_tbl_update g d) s = (case s of Inl i \<Rightarrow> rowAt d s | Inr p \<Rightarrow> Inr (tget (g (contacts_tbl d)) p))"
  by (auto simp: rowAt_def split: sum.split)

lemma run_encryptRecord [simp]:
  "encryptRecord E key rec w = (Inr (ivAt E (tick w) @ aes_enc E key (ivAt E (tick w)) (textEncode (stringify (recordJson rec)))),
     w\<lparr>tick := Suc (tick w)\<rparr>)"
  by (simp add: encryptRecord_def)

text \<open>A blob that decrypts to the text of a record is read as that record.\<close>

lemma run_decryptRecord:
  "reads E key c = Some (textEncode (stringify (recordJson rec))) \<Longrightarrow> decryptRecord E key c w = (Inr rec, w)"
  by (simp add: decryptRecord_def run_decryptString)

lemma import_message:
  assumes "aes_correct E" "keyOf w = Some k"
  shows "\<exists>w'. importRecord E (MsgRec m) st w = (Inr (), w') \<and> keyOf w' = Some k \<and> stored E k sf (idb w') (MsgRec m) \<and>
    (\<forall>s. s \<noteq> slot (MsgRec m) \<longrightarrow> rowAt (idb w') s = rowAt (idb w) s)"
  using assms getMasterKey_keyOf [OF assms(2), of E]
  by (auto simp: importRecord_def messages_add_def stored_def storedAs_def slot_def importedMessage_def messageRow_def msgRecord_def
      rowAt_def split: sum.split)

lemma run_contactsStore: "keyOf w = Some k \<Longrightarrow> contactsStore E w = (Inr (Inr k), w)"
  by (simp add: contactsStore_def attempt_def getMasterKey_keyOf)

lemma run_setDisplayName:
  "keyOf w = Some k \<Longrightarrow> setDisplayName E px n w = (Inr (), w\<lparr>tick := Suc (tick w), idb := contacts_tbl_update (tupdate px (\<lambda>x.
     x\<lparr>c_display_name_enc := Some (ivAt E (tick w) @ aes_enc E k (ivAt E (tick w)) (textEncode n))\<rparr>)) (idb w)\<rparr>)"
  by (simp add: setDisplayName_def run_contactsStore contacts_setName_def)

lemma run_restoreContact:
  "keyOf w = Some k \<Longrightarrow> tget (contacts_tbl (idb w)) px = None \<Longrightarrow>
   restoreContact E px ed x st w = (Inr (), w\<lparr>tick := Suc (tick w),
     idb := contacts_tbl_update (tput px (addedContact None px ed x st (date_now E (tick w) div 1000))) (idb w)\<rparr>)"
  by (simp add: restoreContact_def run_contactsStore run_contacts_add)

lemma fromHex_Nil [simp]: "fromHex [] = []"
  using fromHex_toHex [of "[]"] by simp

lemma addedContact_new: "c_status (addedContact None px ed x st t) = Some st"
  by (simp add: addedContact_def)

lemma verified_case:
  "(case v of None \<Rightarrow> ret () | Some x \<Rightarrow> whenM (x \<noteq> []) (setVerified px x)) = whenM (orElse v [] \<noteq> []) (setVerified px (orElse v []))"
  by (cases v) simp_all

lemma import_contact:
  assumes "aes_correct E" "keyOf w = Some k" "tget (contacts_tbl (idb w)) (cr_px_id c) = None"
  shows "\<exists>w'. importRecord E (ContactRec c) st w = (Inr (), w') \<and> keyOf w' = Some k \<and>
    stored E k (\<lambda>c. orElse (cr_status c) st) (idb w') (ContactRec c) \<and>
    (\<forall>s. s \<noteq> slot (ContactRec c) \<longrightarrow> rowAt (idb w') s = rowAt (idb w) s)"
proof -
  have hex: "(if h \<noteq> [] then fromHex h else []) = fromHex h" for h by simp
  let ?row = "addedContact None (cr_px_id c) (fromHex (cr_ik_ed25519 c)) (fromHex (cr_ik_x25519 c))
    (orElse (cr_status c) st) (date_now E (tick w) div 1000)"
  let ?w1 = "w\<lparr>tick := Suc (tick w), idb := contacts_tbl_update (tput (cr_px_id c) ?row) (idb w)\<rparr>"
  have 1: "restoreContact E (cr_px_id c) (fromHex (cr_ik_ed25519 c)) (fromHex (cr_ik_x25519 c)) (orElse (cr_status c) st) w = (Inr (), ?w1)"
    by (rule run_restoreContact [OF assms(2,3)])
  show ?thesis unfolding importRecord_def HistoryRecord.case hex verified_case
    using assms 1
    by (cases "cr_name c = []"; cases "orElse (cr_verified c) [] = []")
       (auto simp: run_setDisplayName setVerified_def stored_def storedAs_def slot_def nameOf_def addedContact_new rowAt_def
         split: sum.split)
qed

text \<open>Records that can be imported one after the other: one per row, and no contact that is here.\<close>

definition freshFor :: "privexDB \<Rightarrow> HistoryRecord list \<Rightarrow> bool" where
  "freshFor d rs \<longleftrightarrow> distinct (map slot rs) \<and> (\<forall>c. ContactRec c \<in> set rs \<longrightarrow> tget (contacts_tbl d) (cr_px_id c) = None)"

lemma rowAt_Inr: "rowAt d (Inr p) = Inr (tget (contacts_tbl d) p)"
  by (simp add: rowAt_def)

lemma stored_keep: "stored E k st d rec \<Longrightarrow> rowAt d' (slot rec) = rowAt d (slot rec) \<Longrightarrow> stored E k st d' rec"
  by (simp add: stored_def)

lemma stored_status: "(\<And>c. rec = ContactRec c \<Longrightarrow> st c = st' c) \<Longrightarrow> stored E k st d rec = stored E k st' d rec"
  by (cases rec) (auto simp: stored_def storedAs_def split: sum.split option.split)

lemma import_run:
  assumes "aes_correct E" "keyOf w = Some k" "\<And>c. rec = ContactRec c \<Longrightarrow> tget (contacts_tbl (idb w)) (cr_px_id c) = None"
  shows "\<exists>w'. importRecord E rec st w = (Inr (), w') \<and> keyOf w' = Some k \<and>
    stored E k (\<lambda>c. orElse (cr_status c) st) (idb w') rec \<and> (\<forall>s. s \<noteq> slot rec \<longrightarrow> rowAt (idb w') s = rowAt (idb w) s)"
  using import_message [OF assms(1,2)] import_contact [OF assms(1,2)] assms(3) by (cases rec) blast+

text \<open>The status of an imported contact: its own or, if it has none, \<open>g\<close> of it.\<close>

abbreviation storedWith :: "env \<Rightarrow> cryptoKey \<Rightarrow> (ContactRecord \<Rightarrow> ContactStatus) \<Rightarrow> privexDB \<Rightarrow> HistoryRecord \<Rightarrow> bool" where
  "storedWith E k g \<equiv> stored E k (\<lambda>c. orElse (cr_status c) (g c))"

end
