(* ===== verification/HistoryBackup.thy ===== *)
theory HistoryBackup
  imports HistoryRecords Prekeys Api
begin

text \<open>
  The encrypted history backup (\<^verbatim>\<open>services/history-backup.ts\<close>): records are encrypted under a
  key derived from the master seed, named by an HMAC, uploaded in batches, listed in pages and
  imported on a device that has the same identity. The progress callbacks only draw. The two
  loops that read pages until the server names no next one take fuel; without enough of it they
  give \<open>None\<close>.
\<close>

definition FLAG :: string where "FLAG = ''history_backup''"
definition IDS_V2_FLAG :: string where "IDS_V2_FLAG = ''history_ids_v2''"
definition MAX_COUNT :: nat where "MAX_COUNT = 200"
definition MAX_BODY :: nat where "MAX_BODY = 1500000"

definition isBackupEnabled :: "bool act" where
  "isBackupEnabled = await (settingGet FLAG) (\<lambda>v. ret (v = Some (JBool True)))"

text \<open>The cached pair is the encryption key and the key that names blobs.\<close>

definition historyKey :: "env \<Rightarrow> (cryptoKey \<times> cryptoKey) act" where
  "historyKey E =
     await (gets keyCache) (\<lambda>c. case c of Some ks \<Rightarrow> ret ks | None \<Rightarrow>
     await (loadBundle E) (\<lambda>b. case b of None \<Rightarrow> throw (JsError ''identity not loaded'') | Some b \<Rightarrow>
     (let ks = (deriveHistoryKey E (b_masterSeed b), deriveHistoryIdKey E (b_masterSeed b))
      in andThen (modify (\<lambda>w. w\<lparr>keyCache := Some ks\<rparr>)) (ret ks))))"

definition resetHistoryBackup :: "unit act" where
  "resetHistoryBackup = modify (\<lambda>w. w\<lparr>keyCache := None, backedContacts := []\<rparr>)"

section \<open>Uploading\<close>

definition toBlob :: "env \<Rightarrow> cryptoKey \<times> cryptoKey \<Rightarrow> HistoryRecord \<Rightarrow> (string \<times> string) act" where
  "toBlob E keys rec = await (encryptRecord E (fst keys) rec) (\<lambda>c. ret (historyBlobId E (snd keys) (recordId rec), b64encode c))"

definition blobSize :: "string \<times> string \<Rightarrow> nat" where
  "blobSize b = length (fst b) + length (snd b)"

definition flushBatch :: "env \<Rightarrow> string \<Rightarrow> (string \<times> string) list \<Rightarrow> unit act" where
  "flushBatch E tok batch = (if batch = [] then ret () else andThen (uploadHistory E batch tok) (ret ()))"

text \<open>The loop over the blobs, with the batch that is being filled and its size.\<close>

fun uploadLoop :: "env \<Rightarrow> string \<Rightarrow> (string \<times> string) list \<Rightarrow> nat \<Rightarrow> (string \<times> string) list \<Rightarrow> unit act" where
  "uploadLoop E tok batch bytes [] = flushBatch E tok batch"
| "uploadLoop E tok batch bytes (b # bs) =
     (if batch \<noteq> [] \<and> (MAX_COUNT \<le> length batch \<or> MAX_BODY < bytes + blobSize b)
      then andThen (flushBatch E tok batch) (uploadLoop E tok [b] (blobSize b) bs)
      else uploadLoop E tok (batch @ [b]) (bytes + blobSize b) bs)"

definition uploadBatched :: "env \<Rightarrow> (string \<times> string) list \<Rightarrow> unit act" where
  "uploadBatched E blobs = await token (\<lambda>tok. uploadLoop E tok [] 0 blobs)"

definition backfillAll :: "env \<Rightarrow> unit act" where
  "backfillAll E =
     await (historyKey E) (\<lambda>key.
     await (collectLocalRecords E) (\<lambda>recs.
     await (mapP (toBlob E key) recs) (uploadBatched E)))"

definition backupRecord :: "PlainMessage \<Rightarrow> MsgRecord" where
  "backupRecord m =
     \<lparr>mr_msg_id = p_msg_id m, mr_peer_id = p_session_id m, mr_direction = p_direction m, mr_kind = p_kind m,
      mr_content = p_content m, mr_timestamp = p_timestamp m, mr_status = p_status m, mr_created_at = Some (p_created_at m)\<rparr>"

definition backupMessage :: "env \<Rightarrow> PlainMessage \<Rightarrow> unit act" where
  "backupMessage E m = ignoreErrors (
     await isBackupEnabled (\<lambda>on. if \<not> on then ret () else
     await (historyKey E) (\<lambda>key.
     await (toBlob E key (MsgRec (backupRecord m))) (\<lambda>b.
     await (gets (\<lambda>w. p_session_id m \<in> set (backedContacts w))) (\<lambda>backed.
     await (if backed then ret [b] else
            await (contactRecordFor E (p_session_id m)) (\<lambda>c. case c of None \<Rightarrow> ret [b] | Some c \<Rightarrow>
            await (toBlob E key (ContactRec c)) (\<lambda>cb.
            andThen (modify (\<lambda>w. w\<lparr>backedContacts := p_session_id m # backedContacts w\<rparr>)) (ret [b, cb])))) (\<lambda>blobs.
     await token (\<lambda>tok. andThen (uploadHistory E blobs tok) (ret ()))))))))"

definition enableBackup :: "env \<Rightarrow> unit act" where
  "enableBackup E =
     andThen (settingPut FLAG (JBool True)) (andThen (backfillAll E) (settingPut IDS_V2_FLAG (JBool True)))"

definition disableBackup :: "env \<Rightarrow> unit act" where
  "disableBackup E =
     andThen (settingDelete FLAG) (
     andThen (modify (\<lambda>w. w\<lparr>backedContacts := []\<rparr>)) (
     await token (\<lambda>tok. andThen (deleteHistory E tok) (ret ()))))"

definition backupStatus :: "env \<Rightarrow> (int \<times> int) act" where
  "backupStatus E = await token (historyStatus E)"

section \<open>Moving to opaque ids\<close>

record legacyRow =
  lg_blob_id :: string
  lg_opaque :: string
  lg_ciphertext :: string

text \<open>One listed row: \<open>None\<close> when it cannot be read or is already under its opaque id.\<close>

definition legacyOf :: "env \<Rightarrow> cryptoKey \<times> cryptoKey \<Rightarrow> HistoryBlobWire \<Rightarrow> legacyRow option act" where
  "legacyOf E keys b =
     await (tryCatch (await (liftE (b64decode (hb_ciphertext b))) (\<lambda>c. await (decryptRecord E (fst keys) c) (\<lambda>r. ret (Some r))))
                     (\<lambda>_. ret None)) (\<lambda>rec. case rec of None \<Rightarrow> ret None | Some rec \<Rightarrow>
     (let opaque = historyBlobId E (snd keys) (recordId rec) in
      ret (if opaque \<noteq> hb_blob_id b then Some \<lparr>lg_blob_id = hb_blob_id b, lg_opaque = opaque, lg_ciphertext = hb_ciphertext b\<rparr>
           else None)))"

fun legacyPages :: "nat \<Rightarrow> env \<Rightarrow> cryptoKey \<times> cryptoKey \<Rightarrow> string \<Rightarrow> string option \<Rightarrow> string list \<Rightarrow> legacyRow list
    \<Rightarrow> (string list \<times> legacyRow list) option act" where
  "legacyPages 0 E keys tok after ids legacy = ret None"
| "legacyPages (Suc n) E keys tok after ids legacy =
     await (listHistory E tok after) (\<lambda>(blobs, nxt).
     await (mapP (legacyOf E keys) blobs) (\<lambda>ls.
     (let ids' = ids @ map hb_blob_id blobs; legacy' = legacy @ List.map_filter id ls in
      if orElse nxt [] = [] then ret (Some (ids', legacy')) else legacyPages n E keys tok nxt ids' legacy')))"

definition missingOf :: "string list \<Rightarrow> legacyRow list \<Rightarrow> (string \<times> string) list" where
  "missingOf ids legacy = fold (\<lambda>l m. if lg_opaque l \<in> set ids then m else mapSet (lg_opaque l) (lg_ciphertext l) m) legacy []"

fun deleteSlices :: "nat \<Rightarrow> env \<Rightarrow> string \<Rightarrow> string list \<Rightarrow> unit act" where
  "deleteSlices 0 E tok stale = ret ()"
| "deleteSlices (Suc n) E tok stale =
     (if stale = [] then ret ()
      else andThen (deleteHistoryBlobs E (take MAX_COUNT stale) tok) (deleteSlices n E tok (drop MAX_COUNT stale)))"

definition dropLegacyIds :: "nat \<Rightarrow> env \<Rightarrow> unit option act" where
  "dropLegacyIds fuel E =
     await (historyKey E) (\<lambda>keys.
     await token (\<lambda>tok.
     await (legacyPages fuel E keys tok None [] []) (\<lambda>r. case r of None \<Rightarrow> ret None | Some (ids, legacy) \<Rightarrow>
     andThen (uploadBatched E (missingOf ids legacy)) (
     andThen (deleteSlices (length legacy) E tok (map lg_blob_id legacy)) (ret (Some ()))))))"

definition migrateBackupIds :: "nat \<Rightarrow> env \<Rightarrow> unit option act" where
  "migrateBackupIds fuel E =
     tryCatch
       (await isBackupEnabled (\<lambda>on. if \<not> on then ret (Some ()) else
        await (settingGet IDS_V2_FLAG) (\<lambda>v. if v = Some (JBool True) then ret (Some ()) else
        andThen (backfillAll E) (
        await (dropLegacyIds fuel E) (\<lambda>r. case r of None \<Rightarrow> ret None | Some _ \<Rightarrow>
        andThen (settingPut IDS_V2_FLAG (JBool True)) (ret (Some ())))))))
       (\<lambda>_. ret (Some ()))"

section \<open>Restoring\<close>

record restoreState =
  rs_done :: int
  rs_legacy :: "ContactRecord list"
  rs_weMessaged :: "string list"

definition restoreBlob :: "env \<Rightarrow> cryptoKey \<Rightarrow> HistoryBlobWire \<Rightarrow> restoreState \<Rightarrow> restoreState act" where
  "restoreBlob E key b st =
     await (liftE (b64decode (hb_ciphertext b))) (\<lambda>c.
     await (decryptRecord E key c) (\<lambda>rec.
     await (case rec of
              ContactRec cr \<Rightarrow>
                if cr_status cr = None then ret (st\<lparr>rs_legacy := rs_legacy st @ [cr]\<rparr>)
                else andThen (importRecord E rec PendingInbound) (ret st)
            | MsgRec m \<Rightarrow>
                andThen (importRecord E rec PendingInbound)
                  (ret (if mr_direction m = DirOut then st\<lparr>rs_weMessaged := mr_peer_id m # rs_weMessaged st\<rparr> else st))) (\<lambda>st'.
     ret (st'\<lparr>rs_done := rs_done st' + 1\<rparr>))))"

fun restoreBlobs :: "env \<Rightarrow> cryptoKey \<Rightarrow> HistoryBlobWire list \<Rightarrow> restoreState \<Rightarrow> restoreState act" where
  "restoreBlobs E key [] st = ret st"
| "restoreBlobs E key (b # bs) st = await (restoreBlob E key b st) (restoreBlobs E key bs)"

fun restorePages :: "nat \<Rightarrow> env \<Rightarrow> cryptoKey \<Rightarrow> string \<Rightarrow> string option \<Rightarrow> restoreState \<Rightarrow> restoreState option act" where
  "restorePages 0 E key tok after st = ret None"
| "restorePages (Suc n) E key tok after st =
     await (listHistory E tok after) (\<lambda>(blobs, nxt).
     await (restoreBlobs E key blobs st) (\<lambda>st'.
     if orElse nxt [] = [] then ret (Some st') else restorePages n E key tok nxt st'))"

definition restoreHistory :: "nat \<Rightarrow> env \<Rightarrow> int option act" where
  "restoreHistory fuel E =
     await (historyKey E) (\<lambda>key.
     await token (\<lambda>tok.
     await (restorePages fuel E (fst key) tok None \<lparr>rs_done = 0, rs_legacy = [], rs_weMessaged = []\<rparr>) (\<lambda>r.
     case r of None \<Rightarrow> ret None | Some st \<Rightarrow>
     andThen (forEach (rs_legacy st) (\<lambda>c. importRecord E (ContactRec c)
         (if cr_px_id c \<in> set (rs_weMessaged st) then Accepted else PendingInbound)))
       (ret (Some (rs_done st))))))"

section \<open>Batches\<close>

text \<open>The batches as a function of the blobs, without the upload.\<close>

fun batchesOf :: "(string \<times> string) list \<Rightarrow> nat \<Rightarrow> (string \<times> string) list \<Rightarrow> (string \<times> string) list list" where
  "batchesOf batch bytes [] = (if batch = [] then [] else [batch])"
| "batchesOf batch bytes (b # bs) =
     (if batch \<noteq> [] \<and> (MAX_COUNT \<le> length batch \<or> MAX_BODY < bytes + blobSize b)
      then batch # batchesOf [b] (blobSize b) bs else batchesOf (batch @ [b]) (bytes + blobSize b) bs)"

definition batchOk :: "(string \<times> string) list \<Rightarrow> bool" where
  "batchOk b \<longleftrightarrow> b \<noteq> [] \<and> length b \<le> MAX_COUNT \<and> (length b = 1 \<or> sum_list (map blobSize b) \<le> MAX_BODY)"

lemma andThen_unit: "andThen m (ret ()) = m" for m :: "unit act"
  by (rule ext) (simp add: andThen_def await_def split: prod.split sum.split)

lemma uploadLoop_batches: "uploadLoop E tok batch bytes bs = forEach (batchesOf batch bytes bs) (flushBatch E tok)"
  by (induction E tok batch bytes bs rule: uploadLoop.induct) (simp_all add: andThen_unit, simp add: flushBatch_def)

lemma batchesOf_concat: "concat (batchesOf batch bytes bs) = batch @ bs"
  by (induction batch bytes bs rule: batchesOf.induct) auto

lemma batchesOf_ok:
  assumes "length batch \<le> MAX_COUNT" "bytes = sum_list (map blobSize batch)" "length batch \<le> 1 \<or> bytes \<le> MAX_BODY"
    "b \<in> set (batchesOf batch bytes bs)"
  shows "batchOk b"
  using assms
proof (induction batch bytes bs arbitrary: b rule: batchesOf.induct)
  case (1 batch bytes)
  then show ?case by (auto simp: batchOk_def le_Suc_eq split: if_splits)
next
  case (2 batch bytes c bs)
  show ?case
  proof (cases "batch \<noteq> [] \<and> (MAX_COUNT \<le> length batch \<or> MAX_BODY < bytes + blobSize c)")
    case True
    have "batchOk batch" using True 2(3-5) by (auto simp: batchOk_def le_Suc_eq)
    then show ?thesis using 2(1) [OF True] 2(6) True by (auto simp: MAX_COUNT_def)
  next
    case False
    then have "length (batch @ [c]) \<le> MAX_COUNT" "length (batch @ [c]) \<le> 1 \<or> bytes + blobSize c \<le> MAX_BODY"
      by (auto simp: MAX_COUNT_def)
    then show ?thesis using 2(2) [OF False] 2(4,6) False by auto
  qed
qed

definition upload_req :: "env \<Rightarrow> string \<Rightarrow> (string \<times> string) list \<Rightarrow> httpRequest" where
  "upload_req E tok b = post_req E ''/history/blobs'' (uploadBody b) (Some tok)"

text \<open>A loop of uploads that came to its end made one request per batch, in order, and changed
  nothing else.\<close>

lemma flushBatch_state: "b \<noteq> [] \<Longrightarrow> snd (flushBatch E tok b w) = afterReq (upload_req E tok b) w"
  by (simp add: flushBatch_def andThen_def await_pure_state upload_req_def)

lemma run_uploads:
  assumes "forEach bss (flushBatch E tok) w = (Inr x, w')" "[] \<notin> set bss"
  shows "map fst (netlog w') = map fst (netlog w) @ map (upload_req E tok) bss \<and> idb w' = idb w \<and> keystore w' = keystore w"
  using assms
proof (induction bss arbitrary: w)
  case (Cons b bss)
  from Cons.prems obtain y w1 where u: "flushBatch E tok b w = (Inr y, w1)" "forEach bss (flushBatch E tok) w1 = (Inr x, w')"
    by (auto simp: andThen_def elim: await_Inr_cases)
  then have "w1 = afterReq (upload_req E tok b) w" using Cons.prems(2) flushBatch_state [of b E tok w] by auto
  then show ?case using Cons.IH [OF u(2)] Cons.prems(2) by simp
qed simp

lemma uploadBatched_Inr:
  assumes "uploadBatched E blobs w = (Inr x, w')"
  shows "\<exists>tok bss. au_sessionToken (auth w) = Some tok \<and> concat bss = blobs \<and> (\<forall>b \<in> set bss. batchOk b) \<and>
    map fst (netlog w') = map fst (netlog w) @ map (upload_req E tok) bss \<and> idb w' = idb w \<and> keystore w' = keystore w"
proof -
  obtain tok where t: "au_sessionToken (auth w) = Some tok" "forEach (batchesOf [] 0 blobs) (flushBatch E tok) w = (Inr x, w')"
    using assms by (cases "au_sessionToken (auth w)")
      (auto simp: uploadBatched_def token_def uploadLoop_batches await_def split: if_splits)
  have ok: "\<forall>b \<in> set (batchesOf [] 0 blobs). batchOk b" using batchesOf_ok [of "[]" 0 _ blobs] by simp
  then have "[] \<notin> set (batchesOf [] 0 blobs)" by (auto simp: batchOk_def)
  from run_uploads [OF t(2) this] t(1) ok batchesOf_concat [of "[]" 0 blobs] show ?thesis by auto
qed

section \<open>Backing up\<close>

text \<open>A listed blob holds a record: it decrypts to the record's text.\<close>

definition blobHolds :: "env \<Rightarrow> cryptoKey \<Rightarrow> string \<Rightarrow> HistoryRecord \<Rightarrow> bool" where
  "blobHolds E key ciphertext rec \<longleftrightarrow>
     (\<exists>c. b64decode ciphertext = Inr c \<and> reads E key c = Some (textEncode (stringify (recordJson rec))))"

lemma run_toBlob:
  assumes "aes_correct E"
  shows "\<exists>c. toBlob E keys rec w = (Inr (historyBlobId E (snd keys) (recordId rec), c), w\<lparr>tick := Suc (tick w)\<rparr>) \<and> blobHolds E (fst keys) c rec"
  using assms by (simp add: toBlob_def blobHolds_def)

lemma run_toBlobs:
  assumes "aes_correct E"
  shows "\<exists>bs t. mapP (toBlob E keys) recs w = (Inr bs, w\<lparr>tick := t\<rparr>) \<and> list_all2 (\<lambda>b rec. blobHolds E (fst keys) (snd b) rec) bs recs \<and>
    map fst bs = map (\<lambda>rec. historyBlobId E (snd keys) (recordId rec)) recs"
proof (induction recs arbitrary: w)
  case Nil
  show ?case by (intro exI [where x = "[]"] exI [where x = "tick w"]) simp
next
  case (Cons rec recs)
  obtain c where c: "toBlob E keys rec w = (Inr (historyBlobId E (snd keys) (recordId rec), c), w\<lparr>tick := Suc (tick w)\<rparr>)"
    "blobHolds E (fst keys) c rec" using run_toBlob [OF assms] by blast
  from Cons.IH [of "w\<lparr>tick := Suc (tick w)\<rparr>"] obtain bs t where
    "mapP (toBlob E keys) recs (w\<lparr>tick := Suc (tick w)\<rparr>) = (Inr bs, w\<lparr>tick := t\<rparr>)"
    "list_all2 (\<lambda>b rec. blobHolds E (fst keys) (snd b) rec) bs recs"
    "map fst bs = map (\<lambda>rec. historyBlobId E (snd keys) (recordId rec)) recs" by auto
  then show ?case using c
    by (intro exI [where x = "(historyBlobId E (snd keys) (recordId rec), c) # bs"] exI [where x = t]) simp
qed

lemma keeps_contactRecordFor [keeps_intro]: "keeps quiet (contactRecordFor E px)"
  unfolding contactRecordFor_def by (intro q.keeps_rules keeps_intro)

lemma keeps_collect [keeps_intro]: "keeps quiet (collectLocalRecords E)"
  unfolding collectLocalRecords_def by (intro q.keeps_rules keeps_intro)

lemma quiet_keyCache: "quiet w w' \<Longrightarrow> keyCache w' = keyCache w"
  by (auto simp: quiet_def strip_def dest: arg_cong [where f = keyCache])

lemma historyKey_run:
  assumes "historyKey E w = (r, w')"
  shows "netlog w' = netlog w" "idb w' = idb w" "auth w' = auth w" "\<And>k. keyOf w = Some k \<Longrightarrow> keyOf w' = Some k"
proof -
  obtain b w1 where b: "loadBundle E w = (b, w1)" by fastforce
  have "quiet w w1" using keeps_loadBundle b by (rule keepsD)
  moreover have "w' = w \<or> w' = w1 \<or> (\<exists>ks. w' = w1\<lparr>keyCache := Some ks\<rparr>)"
    using assms b by (auto simp: historyKey_def await_def Let_def split: option.splits sum.splits prod.splits)
  moreover have "keyOf (w1\<lparr>keyCache := c\<rparr>) = keyOf w1" for c by (simp add: keyOf_def)
  ultimately show "netlog w' = netlog w" "idb w' = idb w" "auth w' = auth w" "\<And>k. keyOf w = Some k \<Longrightarrow> keyOf w' = Some k"
    using quietD [of w w1] quiet_keyOf [of w w1] by auto
qed

text \<open>A full backup that ends without an error has uploaded everything, and only ciphertext: every
  local message and contact is in exactly one uploaded blob, named by the HMAC of its record id
  and decrypting, under the key derived from the master seed, to the record; the blobs went out
  in order, in batches of at most 200 that, but for a single larger blob, stay within the body
  limit. Nothing local changed.\<close>

theorem backfill_uploads_everything:
  assumes "aes_correct E" "backfillAll E w = (Inr (), w')"
  shows "\<exists>key w1 recs w2 tok bss. historyKey E w = (Inr key, w1) \<and> collectLocalRecords E w1 = (Inr recs, w2) \<and>
    au_sessionToken (auth w) = Some tok \<and>
    list_all2 (\<lambda>b rec. fst b = historyBlobId E (snd key) (recordId rec) \<and> blobHolds E (fst key) (snd b) rec) (concat bss) recs \<and>
    (\<forall>b \<in> set bss. b \<noteq> [] \<and> length b \<le> 200 \<and> (length b = 1 \<or> sum_list (map blobSize b) \<le> 1500000)) \<and>
    map fst (netlog w') = map fst (netlog w) @ map (upload_req E tok) bss \<and> idb w' = idb w"
proof -
  from assms(2) obtain key w1 recs w2 bs' w3 where k: "historyKey E w = (Inr key, w1)"
    and c: "collectLocalRecords E w1 = (Inr recs, w2)" and b': "mapP (toBlob E key) recs w2 = (Inr bs', w3)"
    and u: "uploadBatched E bs' w3 = (Inr (), w')" unfolding backfillAll_def by (elim await_Inr_cases)
  obtain bs t where b: "mapP (toBlob E key) recs w2 = (Inr bs, w2\<lparr>tick := t\<rparr>)"
    "list_all2 (\<lambda>b rec. blobHolds E (fst key) (snd b) rec) bs recs"
    "map fst bs = map (\<lambda>rec. historyBlobId E (snd key) (recordId rec)) recs" using run_toBlobs [OF assms(1)] by blast
  have "quiet w1 w2" by (rule keepsD [OF keeps_collect c])
  then have q: "netlog w2 = netlog w" "idb w2 = idb w" "auth w2 = auth w"
    using quietD [of w1 w2] historyKey_run [OF k] by simp_all
  have "uploadBatched E bs (w2\<lparr>tick := t\<rparr>) = (Inr (), w')" using u b(1) b' by simp
  from uploadBatched_Inr [OF this] obtain tok bss where "au_sessionToken (auth w) = Some tok" "concat bss = bs" "\<forall>b \<in> set bss. batchOk b"
    "map fst (netlog w') = map fst (netlog w) @ map (upload_req E tok) bss" "idb w' = idb w" using q by auto
  moreover have "list_all2 (\<lambda>b rec. fst b = historyBlobId E (snd key) (recordId rec) \<and> blobHolds E (fst key) (snd b) rec) bs recs"
    using b(2,3) by (auto simp: list_all2_conv_all_nth) (metis length_map nth_map)
  ultimately show ?thesis using k c
    by (intro exI conjI) (auto simp: batchOk_def MAX_COUNT_def MAX_BODY_def)
qed

section \<open>Restoring a backup\<close>

definition legacyContact :: "HistoryRecord \<Rightarrow> bool" where
  "legacyContact rec = (case rec of ContactRec c \<Rightarrow> cr_status c = None | MsgRec m \<Rightarrow> False)"

text \<open>What the loop notes of a record.\<close>

definition noteRecord :: "HistoryRecord \<Rightarrow> restoreState \<Rightarrow> restoreState" where
  "noteRecord rec st = (case rec of
     ContactRec c \<Rightarrow> if cr_status c = None then st\<lparr>rs_legacy := rs_legacy st @ [c], rs_done := rs_done st + 1\<rparr>
                     else st\<lparr>rs_done := rs_done st + 1\<rparr>
   | MsgRec m \<Rightarrow> if mr_direction m = DirOut then st\<lparr>rs_weMessaged := mr_peer_id m # rs_weMessaged st, rs_done := rs_done st + 1\<rparr>
                 else st\<lparr>rs_done := rs_done st + 1\<rparr>)"

lemma run_restoreBlob:
  assumes "aes_correct E" "keyOf w = Some k" "blobHolds E key (hb_ciphertext b) rec"
    "\<And>c. rec = ContactRec c \<Longrightarrow> tget (contacts_tbl (idb w)) (cr_px_id c) = None"
  shows "\<exists>w'. restoreBlob E key b st w = (Inr (noteRecord rec st), w') \<and> keyOf w' = Some k \<and>
    (\<not> legacyContact rec \<longrightarrow> storedWith E k g (idb w') rec) \<and>
    (\<forall>s. s \<noteq> slot rec \<or> legacyContact rec \<longrightarrow> rowAt (idb w') s = rowAt (idb w) s)"
proof -
  obtain c where c: "b64decode (hb_ciphertext b) = Inr c" "reads E key c = Some (textEncode (stringify (recordJson rec)))"
    using assms(3) by (auto simp: blobHolds_def)
  note d = run_decryptRecord [OF c(2), of w]
  show ?thesis
  proof (cases "legacyContact rec")
    case True
    then obtain cr where "rec = ContactRec cr" "cr_status cr = None" by (cases rec) (auto simp: legacyContact_def)
    then show ?thesis using c(1) d assms(2) by (simp add: restoreBlob_def noteRecord_def legacyContact_def)
  next
    case False
    obtain w' where i: "importRecord E rec PendingInbound w = (Inr (), w')" and k: "keyOf w' = Some k"
      and s: "storedWith E k (\<lambda>_. PendingInbound) (idb w') rec"
      and o: "\<forall>s. s \<noteq> slot rec \<longrightarrow> rowAt (idb w') s = rowAt (idb w) s" using import_run [OF assms(1,2,4)] by blast
    have "restoreBlob E key b st w = (Inr (noteRecord rec st), w')"
      using c(1) d i False by (cases rec) (auto simp: restoreBlob_def noteRecord_def legacyContact_def)
    moreover have "storedWith E k g (idb w') rec = storedWith E k (\<lambda>_. PendingInbound) (idb w') rec"
      by (rule stored_status) (use False in \<open>auto simp: legacyContact_def\<close>)
    ultimately show ?thesis using s k o False by blast
  qed
qed

lemma run_restoreBlobs:
  assumes "aes_correct E" "keyOf w = Some k" "list_all2 (\<lambda>b. blobHolds E key (hb_ciphertext b)) bs rs" "freshFor (idb w) rs"
  shows "\<exists>w'. restoreBlobs E key bs st w = (Inr (fold noteRecord rs st), w') \<and> keyOf w' = Some k \<and>
    (\<forall>rec \<in> set rs. \<not> legacyContact rec \<longrightarrow> storedWith E k g (idb w') rec) \<and>
    (\<forall>s. (\<forall>rec \<in> set rs. slot rec = s \<longrightarrow> legacyContact rec) \<longrightarrow> rowAt (idb w') s = rowAt (idb w) s)"
  using assms(3,2,4)
proof (induction bs rs arbitrary: w st rule: list_all2_induct)
  case Nil
  then show ?case by simp
next
  case (Cons b bs rec rs)
  have "\<And>c. rec = ContactRec c \<Longrightarrow> tget (contacts_tbl (idb w)) (cr_px_id c) = None"
    using Cons.prems(2) by (auto simp: freshFor_def)
  then obtain w1 where 1: "restoreBlob E key b st w = (Inr (noteRecord rec st), w1)" "keyOf w1 = Some k"
    "\<not> legacyContact rec \<longrightarrow> storedWith E k g (idb w1) rec"
    "\<forall>s. s \<noteq> slot rec \<or> legacyContact rec \<longrightarrow> rowAt (idb w1) s = rowAt (idb w) s"
    using run_restoreBlob [OF assms(1) Cons.prems(1) Cons.hyps(1)] by blast
  have new: "slot r \<noteq> slot rec" if "r \<in> set rs" for r using Cons.prems(2) that by (auto simp: freshFor_def) (metis imageI)
  have "freshFor (idb w1) rs"
    unfolding freshFor_def
  proof (intro conjI allI impI)
    fix c assume c: "ContactRec c \<in> set rs"
    then have "rowAt (idb w1) (Inr (cr_px_id c)) = rowAt (idb w) (Inr (cr_px_id c))" using 1(4) new [OF c] by (simp add: slot_def)
    then show "tget (contacts_tbl (idb w1)) (cr_px_id c) = None" using Cons.prems(2) c by (simp add: rowAt_Inr freshFor_def)
  qed (use Cons.prems(2) in \<open>simp add: freshFor_def\<close>)
  from Cons.IH [OF 1(2) this] obtain w' where
    2: "restoreBlobs E key bs (noteRecord rec st) w1 = (Inr (fold noteRecord rs (noteRecord rec st)), w')" "keyOf w' = Some k"
      "\<forall>r \<in> set rs. \<not> legacyContact r \<longrightarrow> storedWith E k g (idb w') r"
      "\<forall>s. (\<forall>r \<in> set rs. slot r = s \<longrightarrow> legacyContact r) \<longrightarrow> rowAt (idb w') s = rowAt (idb w1) s" by blast
  have "rowAt (idb w') (slot rec) = rowAt (idb w1) (slot rec)" using 2(4) new by blast
  then have "\<not> legacyContact rec \<longrightarrow> storedWith E k g (idb w') rec" using 1(3) stored_keep by blast
  then show ?case using 1(1,4) 2 by (intro exI [where x = w']) auto
qed

text \<open>The server lists the blobs in pages: each answer names the next page, the last names none.\<close>

fun pagesServed :: "env \<Rightarrow> string \<Rightarrow> string option \<Rightarrow> HistoryBlobWire list list \<Rightarrow> bool" where
  "pagesServed E tok after [] = False"
| "pagesServed E tok after (bs # ps) =
     (if ps = [] then \<exists>n. orElse n [] = [] \<and> (\<forall>w. fst (listHistory E tok after w) = Inr (bs, n))
      else \<exists>n. n \<noteq> [] \<and> (\<forall>w. fst (listHistory E tok after w) = Inr (bs, Some n)) \<and> pagesServed E tok (Some n) ps)"

lemma listHistory_state: "\<exists>r. snd (listHistory E tok after w) = afterReq r w"
  unfolding listHistory_def by (subst await_pure_state) (auto simp: await_pure_state typed_pure)

lemma run_listHistory:
  assumes "\<forall>w. fst (listHistory E tok after w) = Inr x"
  shows "\<exists>w'. listHistory E tok after w = (Inr x, w') \<and> idb w' = idb w \<and> keyOf w' = keyOf w"
proof -
  obtain r where "snd (listHistory E tok after w) = afterReq r w" using listHistory_state by blast
  then have "listHistory E tok after w = (Inr x, afterReq r w)" using assms by (metis prod.collapse)
  then show ?thesis by (simp add: keyOf_def)
qed

lemma run_restorePages:
  assumes "aes_correct E" "pagesServed E tok after ps" "length ps \<le> fuel" "keyOf w = Some k"
    "list_all2 (\<lambda>b. blobHolds E key (hb_ciphertext b)) (concat ps) rs" "freshFor (idb w) rs"
  shows "\<exists>w'. restorePages fuel E key tok after st w = (Inr (Some (fold noteRecord rs st)), w') \<and> keyOf w' = Some k \<and>
    (\<forall>rec \<in> set rs. \<not> legacyContact rec \<longrightarrow> storedWith E k g (idb w') rec) \<and>
    (\<forall>s. (\<forall>rec \<in> set rs. slot rec = s \<longrightarrow> legacyContact rec) \<longrightarrow> rowAt (idb w') s = rowAt (idb w) s)"
  using assms(2-)
proof (induction ps arbitrary: after fuel w rs st)
  case (Cons bs ps)
  obtain n where f: "fuel = Suc n" using Cons.prems(2) by (cases fuel) auto
  obtain nx where ls: "\<forall>w. fst (listHistory E tok after w) = Inr (bs, nx)" "orElse nx [] = [] \<longleftrightarrow> ps = []"
    and more: "ps \<noteq> [] \<Longrightarrow> pagesServed E tok nx ps" using Cons.prems(1) by (auto split: if_splits)
  obtain w1 where 1: "listHistory E tok after w = (Inr (bs, nx), w1)" "idb w1 = idb w" "keyOf w1 = Some k"
    using run_listHistory [OF ls(1)] Cons.prems(3) by fastforce
  obtain rs1 rs2 where rs: "rs = rs1 @ rs2" "list_all2 (\<lambda>b. blobHolds E key (hb_ciphertext b)) bs rs1"
    "list_all2 (\<lambda>b. blobHolds E key (hb_ciphertext b)) (concat ps) rs2"
    using Cons.prems(4) by (auto simp: list_all2_append1)
  have fr: "freshFor (idb w1) rs1" "\<And>r1 r2. r1 \<in> set rs1 \<Longrightarrow> r2 \<in> set rs2 \<Longrightarrow> slot r1 \<noteq> slot r2"
    using Cons.prems(5) unfolding rs(1) 1(2) by (auto simp: freshFor_def)
  obtain w2 where 2: "restoreBlobs E key bs st w1 = (Inr (fold noteRecord rs1 st), w2)" "keyOf w2 = Some k"
    "\<forall>rec \<in> set rs1. \<not> legacyContact rec \<longrightarrow> storedWith E k g (idb w2) rec"
    "\<forall>s. (\<forall>rec \<in> set rs1. slot rec = s \<longrightarrow> legacyContact rec) \<longrightarrow> rowAt (idb w2) s = rowAt (idb w) s"
    using run_restoreBlobs [OF assms(1) 1(3) rs(2) fr(1), of st g] unfolding 1(2) by blast
  show ?case
  proof (cases "ps = []")
    case True
    then have "rs2 = []" using rs(3) by simp
    then show ?thesis using 1(1) 2 ls(2) True rs(1) by (auto simp: f)
  next
    case False
    have "freshFor (idb w2) rs2" unfolding freshFor_def
    proof (intro conjI allI impI)
      fix c assume c: "ContactRec c \<in> set rs2"
      then have "rowAt (idb w2) (slot (ContactRec c)) = rowAt (idb w) (slot (ContactRec c))" using 2(4) fr(2) by blast
      then show "tget (contacts_tbl (idb w2)) (cr_px_id c) = None"
        using Cons.prems(5) c by (simp add: rowAt_Inr freshFor_def slot_def rs(1))
    qed (use Cons.prems(5) in \<open>simp add: freshFor_def rs(1)\<close>)
    then obtain w' where 3: "restorePages n E key tok nx (fold noteRecord rs1 st) w2 = (Inr (Some (fold noteRecord rs2 (fold noteRecord rs1 st))), w')"
      "keyOf w' = Some k" "\<forall>rec \<in> set rs2. \<not> legacyContact rec \<longrightarrow> storedWith E k g (idb w') rec"
      "\<forall>s. (\<forall>rec \<in> set rs2. slot rec = s \<longrightarrow> legacyContact rec) \<longrightarrow> rowAt (idb w') s = rowAt (idb w2) s"
      using Cons.IH [OF more [OF False] _ 2(2) rs(3), of n "fold noteRecord rs1 st"] Cons.prems(2) f by auto
    have "storedWith E k g (idb w') rec" if "rec \<in> set rs1" "\<not> legacyContact rec" for rec
    proof (rule stored_keep)
      show "storedWith E k g (idb w2) rec" using 2(3) that by blast
      show "rowAt (idb w') (slot rec) = rowAt (idb w2) (slot rec)" using 3(4) fr(2) [OF that(1)] by metis
    qed
    then show ?thesis using 1(1) 2(1,4) 3 ls(2) False rs(1) by (intro exI [where x = w']) (auto simp: f)
  qed
qed simp

definition weMessaged :: "HistoryRecord list \<Rightarrow> string set" where
  "weMessaged rs = {mr_peer_id m | m. MsgRec m \<in> set rs \<and> mr_direction m = DirOut}"

lemma fold_note_all:
  "rs_done (fold noteRecord rs st) = rs_done st + int (length rs) \<and>
   set (rs_weMessaged (fold noteRecord rs st)) = set (rs_weMessaged st) \<union> weMessaged rs \<and>
   map ContactRec (rs_legacy (fold noteRecord rs st)) = map ContactRec (rs_legacy st) @ filter legacyContact rs"
proof (induction rs arbitrary: st)
  case (Cons rec rs)
  have "weMessaged (rec # rs) = weMessaged [rec] \<union> weMessaged rs" by (auto simp: weMessaged_def)
  moreover have "rs_done (noteRecord rec st) = rs_done st + 1"
    "set (rs_weMessaged (noteRecord rec st)) = set (rs_weMessaged st) \<union> weMessaged [rec]"
    "map ContactRec (rs_legacy (noteRecord rec st)) = map ContactRec (rs_legacy st) @ filter legacyContact [rec]"
    by (cases rec; simp add: noteRecord_def legacyContact_def weMessaged_def)+
  ultimately show ?case using Cons.IH [of "noteRecord rec st"] by auto
qed (simp add: weMessaged_def)

lemmas fold_note = fold_note_all [THEN conjunct1] fold_note_all [THEN conjunct2, THEN conjunct1]
  fold_note_all [THEN conjunct2, THEN conjunct2]

text \<open>The contacts that came without a status are imported at the end.\<close>

lemma run_legacy:
  assumes "aes_correct E" "keyOf w = Some k" "freshFor (idb w) (map ContactRec cs)" "\<forall>c \<in> set cs. cr_status c = None"
  shows "\<exists>w'. forEach cs (\<lambda>c. importRecord E (ContactRec c) (g c)) w = (Inr (), w') \<and>
    (\<forall>c \<in> set cs. storedWith E k g (idb w') (ContactRec c)) \<and>
    (\<forall>s. s \<notin> slot ` ContactRec ` set cs \<longrightarrow> rowAt (idb w') s = rowAt (idb w) s)"
  using assms(2-)
proof (induction cs arbitrary: w)
  case (Cons c cs)
  obtain w1 where 1: "importRecord E (ContactRec c) (g c) w = (Inr (), w1)" "keyOf w1 = Some k"
    "storedWith E k (\<lambda>_. g c) (idb w1) (ContactRec c)"
    "\<forall>s. s \<noteq> slot (ContactRec c) \<longrightarrow> rowAt (idb w1) s = rowAt (idb w) s"
    using import_contact [OF assms(1) Cons.prems(1), of c "g c"] Cons.prems(2) by (auto simp: freshFor_def)
  have new: "slot (ContactRec c') \<noteq> slot (ContactRec c)" if "c' \<in> set cs" for c'
    using Cons.prems(2) that by (auto simp: freshFor_def) (metis imageI)
  have "freshFor (idb w1) (map ContactRec cs)" unfolding freshFor_def
  proof (intro conjI allI impI)
    fix c' assume "ContactRec c' \<in> set (map ContactRec cs)"
    then have c: "c' \<in> set cs" by auto
    then have "rowAt (idb w1) (slot (ContactRec c')) = rowAt (idb w) (slot (ContactRec c'))" using 1(4) new by blast
    then show "tget (contacts_tbl (idb w1)) (cr_px_id c') = None"
      using Cons.prems(2) c by (simp add: rowAt_Inr freshFor_def slot_def)
  qed (use Cons.prems(2) in \<open>simp add: freshFor_def\<close>)
  from Cons.IH [OF 1(2) this] Cons.prems(3) obtain w' where 2: "forEach cs (\<lambda>c. importRecord E (ContactRec c) (g c)) w1 = (Inr (), w')"
    "\<forall>c \<in> set cs. storedWith E k g (idb w') (ContactRec c)"
    "\<forall>s. s \<notin> slot ` ContactRec ` set cs \<longrightarrow> rowAt (idb w') s = rowAt (idb w1) s" by auto
  have "storedWith E k g (idb w1) (ContactRec c) = storedWith E k (\<lambda>_. g c) (idb w1) (ContactRec c)" by (rule stored_status) simp
  then have "storedWith E k g (idb w1) (ContactRec c)" using 1(3) by simp
  moreover have "slot (ContactRec c) \<notin> slot ` ContactRec ` set cs" using new by (metis imageE)
  then have "rowAt (idb w') (slot (ContactRec c)) = rowAt (idb w1) (slot (ContactRec c))" using 2(3) by simp
  ultimately have "storedWith E k g (idb w') (ContactRec c)" unfolding stored_def by simp
  then show ?case using 1(1,4) 2 by (intro exI [where x = w']) auto
qed simp

text \<open>C28. Restoring a backup restores all of it. On a device with the identity the backup was made
  with, if the server lists blobs that hold the records \<open>rs\<close> (one per message or contact, none
  of the contacts known here yet), over any number of pages, the restore reads all pages, counts
  every record, and afterwards each is in the local database as it was: content, direction,
  order key and status of a message, name, keys, verification and status of a contact. A contact
  of an older backup without a status comes back accepted only if the backup holds a message we
  sent to it, and as a request otherwise.\<close>

theorem restoreHistory_restores_all:
  assumes "aes_correct E" "historyKey E w = (Inr (key, idKey), w1)" "keyOf w1 = Some k"
    "au_sessionToken (auth w) = Some tok" "tok \<noteq> []" "pagesServed E tok None ps" "length ps \<le> fuel"
    "list_all2 (\<lambda>b. blobHolds E key (hb_ciphertext b)) (concat ps) rs" "freshFor (idb w) rs"
  shows "\<exists>w'. restoreHistory fuel E w = (Inr (Some (int (length rs))), w') \<and>
    (\<forall>rec \<in> set rs. storedWith E k (\<lambda>c. if cr_px_id c \<in> weMessaged rs then Accepted else PendingInbound) (idb w') rec)"
proof -
  let ?st = "\<lparr>rs_done = 0, rs_legacy = [], rs_weMessaged = []\<rparr>"
  let ?g = "\<lambda>c. if cr_px_id c \<in> weMessaged rs then Accepted else PendingInbound"
  note h = historyKey_run [OF assms(2)]
  obtain w2 where 2: "restorePages fuel E key tok None ?st w1 = (Inr (Some (fold noteRecord rs ?st)), w2)" "keyOf w2 = Some k"
    "\<forall>rec \<in> set rs. \<not> legacyContact rec \<longrightarrow> storedWith E k ?g (idb w2) rec"
    "\<forall>s. (\<forall>rec \<in> set rs. slot rec = s \<longrightarrow> legacyContact rec) \<longrightarrow> rowAt (idb w2) s = rowAt (idb w) s"
    using run_restorePages [OF assms(1,6,7,3,8), of ?st ?g] assms(9) h(2) by auto
  let ?cs = "rs_legacy (fold noteRecord rs ?st)"
  have cs: "map ContactRec ?cs = filter legacyContact rs" using fold_note(3) [of rs ?st] by simp
  then have "set (map ContactRec ?cs) = set (filter legacyContact rs)" by simp
  then have set_cs: "ContactRec ` set ?cs = {r \<in> set rs. legacyContact r}" by simp
  then have mem: "ContactRec c \<in> set rs \<and> cr_status c = None" if "c \<in> set ?cs" for c
    using imageI [OF that, of ContactRec] by (simp add: legacyContact_def)
  have dist: "r1 = r2" if "r1 \<in> set rs" "r2 \<in> set rs" "slot r1 = slot r2" for r1 r2
    using assms(9) that by (auto simp: freshFor_def distinct_map inj_on_def)
  have "freshFor (idb w2) (map ContactRec ?cs)" unfolding freshFor_def
  proof (intro conjI allI impI)
    show "distinct (map slot (map ContactRec ?cs))" using assms(9) unfolding cs by (simp add: freshFor_def distinct_map_filter)
    fix c assume "ContactRec c \<in> set (map ContactRec ?cs)"
    then have c: "ContactRec c \<in> set rs" "legacyContact (ContactRec c)" unfolding cs by auto
    then have "rowAt (idb w2) (slot (ContactRec c)) = rowAt (idb w) (slot (ContactRec c))" using 2(4) dist by metis
    then show "tget (contacts_tbl (idb w2)) (cr_px_id c) = None"
      using assms(9) c by (simp add: rowAt_Inr freshFor_def slot_def)
  qed
  then obtain w' where 3: "forEach ?cs (\<lambda>c. importRecord E (ContactRec c) (?g c)) w2 = (Inr (), w')"
    "\<forall>c \<in> set ?cs. storedWith E k ?g (idb w') (ContactRec c)"
    "\<forall>s. s \<notin> slot ` ContactRec ` set ?cs \<longrightarrow> rowAt (idb w') s = rowAt (idb w2) s"
    using run_legacy [OF assms(1) 2(2), of ?cs ?g] mem by blast
  have "storedWith E k ?g (idb w') rec" if "rec \<in> set rs" for rec
  proof (cases "legacyContact rec")
    case True
    then have "rec \<in> ContactRec ` set ?cs" using that unfolding set_cs by simp
    then show ?thesis using 3(2) by blast
  next
    case False
    then have "slot rec \<notin> slot ` ContactRec ` set ?cs" using dist [OF that] unfolding set_cs by blast
    then have "rowAt (idb w') (slot rec) = rowAt (idb w2) (slot rec)" using 3(3) by blast
    moreover have "storedWith E k ?g (idb w2) rec" using 2(3) that False by blast
    ultimately show ?thesis unfolding stored_def by simp
  qed
  moreover have "restoreHistory fuel E w = (Inr (Some (int (length rs))), w')"
    using assms(2,4,5) h(3) 2(1) 3(1) fold_note(1) [of rs ?st] fold_note(2) [of rs ?st]
    by (simp add: restoreHistory_def token_def)
  ultimately show ?thesis by blast
qed

section \<open>Moving to opaque ids loses nothing\<close>

definition delete_req :: "env \<Rightarrow> string \<Rightarrow> string list \<Rightarrow> httpRequest" where
  "delete_req E tok ids = post_req E ''/history/blobs/delete'' (JObj [(''blob_ids'', JArr (map JStr ids))]) (Some tok)"

text \<open>A loop that makes one request per element made a prefix of them, all if it came to its end.\<close>

lemma forEach_log:
  assumes "\<And>b w. b \<in> set bss \<Longrightarrow> snd (f b w) = afterReq (req b) w" "forEach bss f w = (r, w')"
  shows "\<exists>n. map fst (netlog w') = map fst (netlog w) @ map req (take n bss) \<and> (isl r \<or> n = length bss)"
  using assms
proof (induction bss arbitrary: w)
  case (Cons b bss)
  obtain r1 w1 where 1: "f b w = (r1, w1)" by fastforce
  then have w1: "w1 = afterReq (req b) w" using Cons.prems(1) [of b w] by simp
  show ?case
  proof (cases r1)
    case (Inl e)
    then show ?thesis using Cons.prems(2) 1 w1 by (intro exI [where x = 1]) auto
  next
    case (Inr x)
    then have "forEach bss f w1 = (r, w')" using Cons.prems(2) 1 by simp
    from Cons.IH [OF _ this] Cons.prems(1) obtain n where
      "map fst (netlog w') = map fst (netlog w1) @ map req (take n bss)" "isl r \<or> n = length bss" by auto
    then show ?thesis using w1 by (intro exI [where x = "Suc n"]) auto
  qed
qed simp

definition deleteSlice :: "env \<Rightarrow> string \<Rightarrow> string list \<Rightarrow> unit act" where
  "deleteSlice E tok ids = andThen (deleteHistoryBlobs E ids tok) (ret ())"

fun slices :: "nat \<Rightarrow> string list \<Rightarrow> string list list" where
  "slices 0 xs = []"
| "slices (Suc n) xs = (if xs = [] then [] else take MAX_COUNT xs # slices n (drop MAX_COUNT xs))"

lemma deleteSlices_loop: "deleteSlices n E tok xs = forEach (slices n xs) (deleteSlice E tok)"
proof (induction n arbitrary: xs)
  case (Suc n)
  have "andThen (andThen m (ret ())) k = andThen m k" for m :: "int act" and k :: "unit act"
    by (rule ext) (simp add: andThen_def await_def split: prod.split sum.split)
  then show ?case by (simp add: Suc deleteSlice_def del: run_ret)
qed simp

lemma slices_set: "s \<in> set (slices n xs) \<Longrightarrow> set s \<subseteq> set xs"
  by (induction n arbitrary: xs) (auto split: if_splits dest: in_set_takeD in_set_dropD)

lemma deleteSlice_state: "snd (deleteSlice E tok ids w) = afterReq (delete_req E tok ids) w"
  unfolding deleteSlice_def andThen_def deleteHistoryBlobs_def delete_req_def by (subst await_pure_state) (auto simp: await_pure_state)

text \<open>The rows the migration acts on, as a function of what is listed.\<close>

definition legacyRowOf :: "env \<Rightarrow> cryptoKey \<times> cryptoKey \<Rightarrow> HistoryBlobWire \<Rightarrow> legacyRow option" where
  "legacyRowOf E keys b = (case b64decode (hb_ciphertext b) of Inl _ \<Rightarrow> None | Inr c \<Rightarrow>
     (case reads E (fst keys) c of None \<Rightarrow> None | Some p \<Rightarrow>
     (case json_parse (textDecode p) of None \<Rightarrow> None | Some j \<Rightarrow>
     (case parseRecord j of Inl _ \<Rightarrow> None | Inr rec \<Rightarrow>
       if historyBlobId E (snd keys) (recordId rec) \<noteq> hb_blob_id b
       then Some \<lparr>lg_blob_id = hb_blob_id b, lg_opaque = historyBlobId E (snd keys) (recordId rec), lg_ciphertext = hb_ciphertext b\<rparr>
       else None))))"

lemma run_legacyOf: "legacyOf E keys b w = (Inr (legacyRowOf E keys b), w)"
  by (simp add: legacyOf_def legacyRowOf_def decryptRecord_def run_decryptString await_def tryCatch_def Let_def
      split: sum.split option.split)

lemma run_legacyOfs: "mapP (legacyOf E keys) bs w = (Inr (map (legacyRowOf E keys) bs), w)"
  by (induction bs) (simp_all add: run_legacyOf)

definition legacyRows :: "env \<Rightarrow> cryptoKey \<times> cryptoKey \<Rightarrow> HistoryBlobWire list \<Rightarrow> legacyRow list" where
  "legacyRows E keys bs = List.map_filter id (map (legacyRowOf E keys) bs)"

lemma legacyRows_append: "legacyRows E keys (xs @ ys) = legacyRows E keys xs @ legacyRows E keys ys"
  by (simp add: legacyRows_def map_filter_def)

lemma run_legacyPages:
  assumes "pagesServed E tok after ps" "length ps \<le> fuel"
  shows "\<exists>w' ls. legacyPages fuel E keys tok after ids lg w = (Inr (Some (ids @ map hb_blob_id (concat ps), lg @ legacyRows E keys (concat ps))), w') \<and>
    map fst (netlog w') = map fst (netlog w) @ ls \<and> list_all (\<lambda>r. rq_method r = GET) ls \<and> auth w' = auth w"
  using assms
proof (induction ps arbitrary: after fuel ids lg w)
  case (Cons bs ps)
  obtain n where f: "fuel = Suc n" using Cons.prems(2) by (cases fuel) auto
  obtain nx where ls: "\<forall>w. fst (listHistory E tok after w) = Inr (bs, nx)" "orElse nx [] = [] \<longleftrightarrow> ps = []"
    and more: "ps \<noteq> [] \<Longrightarrow> pagesServed E tok nx ps" using Cons.prems(1) by (auto split: if_splits)
  have "snd (listHistory E tok after w) = snd (get_api E (''/history/blobs?limit=200'' @
              (case after of None \<Rightarrow> [] | Some a \<Rightarrow> if a = [] then [] else ''&after='' @ encodeURIComponent a)) (Some tok) w)"
    unfolding listHistory_def by (rule await_pure_state) (simp add: await_pure_state typed_pure)
  then obtain p where "snd (listHistory E tok after w) = afterReq (get_req E p (Some tok)) w" by simp
  then have l: "listHistory E tok after w = (Inr (bs, nx), afterReq (get_req E p (Some tok)) w)"
    using ls(1) by (simp add: prod_eq_iff)
  let ?w1 = "afterReq (get_req E p (Some tok)) w"
  have g: "rq_method (get_req E p (Some tok)) = GET" by (simp add: get_req_def)
  show ?case
  proof (cases "ps = []")
    case True
    then show ?thesis using l ls(2) g
      by (intro exI [where x = ?w1] exI [where x = "[get_req E p (Some tok)]"])
         (simp add: f run_legacyOfs Let_def legacyRows_def)
  next
    case False
    obtain w' rs where "legacyPages n E keys tok nx (ids @ map hb_blob_id bs) (lg @ legacyRows E keys bs) ?w1 =
        (Inr (Some ((ids @ map hb_blob_id bs) @ map hb_blob_id (concat ps), (lg @ legacyRows E keys bs) @ legacyRows E keys (concat ps))), w')"
      "map fst (netlog w') = map fst (netlog ?w1) @ rs" "list_all (\<lambda>r. rq_method r = GET) rs" "auth w' = auth w"
      using Cons.IH [OF more [OF False], of n "ids @ map hb_blob_id bs" "lg @ legacyRows E keys bs" ?w1] Cons.prems(2) f by auto
    then show ?thesis using l ls(2) g False
      by (intro exI [where x = w'] exI [where x = "get_req E p (Some tok) # rs"])
         (simp add: f run_legacyOfs Let_def legacyRows_append flip: legacyRows_def)
  qed
qed simp

lemma missing_keys:
  "fst ` set (fold (\<lambda>l m. if lg_opaque l \<in> set ids then m else mapSet (lg_opaque l) (lg_ciphertext l) m) ls m) =
   fst ` set m \<union> (lg_opaque ` set ls - set ids)"
  by (induction ls arbitrary: m) (auto simp: fst_mapSet)

lemma missing_rows:
  "p \<in> set (fold (\<lambda>l m. if lg_opaque l \<in> set ids then m else mapSet (lg_opaque l) (lg_ciphertext l) m) ls m) \<Longrightarrow>
   p \<in> set m \<or> (\<exists>l \<in> set ls. p = (lg_opaque l, lg_ciphertext l) \<and> lg_opaque l \<notin> set ids)"
  by (induction ls arbitrary: m) (fastforce split: if_splits dest: in_mapSet)+


end
