(* ===== verification/DeviceLink.thy ===== *)
theory DeviceLink
  imports HistoryRecords Api
begin

text \<open>
  Device-to-device transfer (\<^verbatim>\<open>services/devicelink.ts\<close>): two devices agree on a channel key
  through a relay, the user compares a short authentication string on both screens, and the
  exporter streams its history. Each side's closure variables are one record, with the frames it
  has sent; a program of a side works on that record and the device's state. The relay is not
  trusted: any frame may arrive at any time, so a frame is an argument of \<open>handleFrame\<close>. The
  loop that streams records is one step per record, since a cancel or a lost connection may come
  in between; the callbacks that only draw are left out, except the string that is shown.
\<close>

section \<open>Crypto and frames\<close>

record DevlinkCryptoApi =
  dv_keypair :: "nat \<Rightarrow> error + keypair"
  dv_channelKey :: "bytes \<Rightarrow> bytes \<Rightarrow> error + bytes"

definition devlinkKeypair :: "env \<Rightarrow> nat \<Rightarrow> error + keypair" where
  "devlinkKeypair E t = w_generate_x25519_prekey (wasm E) t 0"

definition workerDevlinkCrypto :: "env \<Rightarrow> DevlinkCryptoApi" where
  "workerDevlinkCrypto E = \<lparr>dv_keypair = devlinkKeypair E, dv_channelKey = w_devlink_channel_key (wasm E)\<rparr>"

definition importChannelKey :: "bytes \<Rightarrow> cryptoKey act" where
  "importChannelKey bs = importDataKey bs"

definition seal :: "env \<Rightarrow> cryptoKey \<Rightarrow> json \<Rightarrow> string act" where
  "seal E key obj = await (aesEncrypt E key (textEncode (stringify obj))) (\<lambda>c. ret (b64encode c))"

definition openSeal :: "env \<Rightarrow> cryptoKey \<Rightarrow> string \<Rightarrow> json act" where
  "openSeal E key d =
     await (liftE (b64decode d)) (\<lambda>c.
     await (aesDecrypt E key c) (\<lambda>p.
     case json_parse (textDecode p) of None \<Rightarrow> throw (JsError ''SyntaxError'') | Some j \<Rightarrow> ret j))"

definition frame :: "string \<Rightarrow> (string \<times> json) list \<Rightarrow> string" where
  "frame t extra = stringify (JObj ((''t'', JStr t) # extra))"

definition parseFrame :: "string \<Rightarrow> json option" where
  "parseFrame s = json_parse s"

text \<open>\<open>new Date().toISOString().slice(0, 10)\<close>, by the proleptic Gregorian calendar.\<close>

definition civil :: "int \<Rightarrow> int \<times> int \<times> int" where
  "civil days =
     (let z = days + 719468; era = z div 146097; doe = z - era * 146097;
          yoe = (doe - doe div 1460 + doe div 36524 - doe div 146096) div 365;
          doy = doe - (365 * yoe + yoe div 4 - yoe div 100); mp = (5 * doy + 2) div 153;
          d = doy - (153 * mp + 2) div 5 + 1; m = (if mp < 10 then mp + 3 else mp - 9);
          y = yoe + era * 400 + (if m \<le> 2 then 1 else 0)
      in (y, m, d))"

definition isoDate :: "int \<Rightarrow> string" where
  "isoDate ms = (case civil (ms div 86400000) of (y, m, d) \<Rightarrow>
     padStart 4 (CHR ''0'') (showInt y) @ ''-'' @ padStart 2 (CHR ''0'') (showInt m) @ ''-'' @ padStart 2 (CHR ''0'') (showInt d))"

definition linkJson :: "string \<Rightarrow> string \<Rightarrow> json" where
  "linkJson i label = JObj [(''t'', JStr ''link''), (''id'', JStr i), (''label'', JStr label)]"

definition MAX_LABEL_CHARS :: nat where "MAX_LABEL_CHARS = 64"

text \<open>A label that is not a string counts as absent.\<close>

definition handleLinkFrame :: "env \<Rightarrow> json \<Rightarrow> bytes \<Rightarrow> unit act" where
  "handleLinkFrame E inner channelSecret =
     await deviceSyncEnabled (\<lambda>on. if \<not> on then ret () else
     case jstr (jget ''id'' inner) of None \<Rightarrow> ret () | Some i \<Rightarrow>
     if \<not> lowerHexN 32 i then ret () else
     storeLinkedDevice E channelSecret i (take MAX_LABEL_CHARS (orElse (jstr (jget ''label'' inner)) ''Linked device'')))"

section \<open>A side of the transfer\<close>

record side =
  sd_eph :: "keypair option"
  sd_key :: "cryptoKey option"
  sd_secret :: "bytes option"
  sd_sas :: "string option"
  sd_confirmed :: bool
  sd_sentReady :: bool
  sd_peerReady :: bool
  sd_streaming :: bool
  sd_finished :: bool
  sd_closed :: bool
  sd_out :: "string list"
  sd_todo :: "(nat \<times> HistoryRecord list) option"
  sd_total :: int
  sd_imported :: nat
  sd_done :: "(error + nat) option"

definition sideInit :: side where
  "sideInit = \<lparr>sd_eph = None, sd_key = None, sd_secret = None, sd_sas = None, sd_confirmed = False, sd_sentReady = False,
     sd_peerReady = False, sd_streaming = False, sd_finished = False, sd_closed = False, sd_out = [], sd_todo = None,
     sd_total = 0, sd_imported = 0, sd_done = None\<rparr>"

type_synonym 'a linkProg = "(side \<times> world, 'a) prog"

definition onDev :: "'a act \<Rightarrow> 'a linkProg" where
  "onDev m = (\<lambda>(s, w). case m w of (r, w') \<Rightarrow> (r, (s, w')))"

definition getSide :: "(side \<Rightarrow> 'a) \<Rightarrow> 'a linkProg" where
  "getSide f = gets (\<lambda>(s, w). f s)"

definition setSide :: "(side \<Rightarrow> side) \<Rightarrow> unit linkProg" where
  "setSide f = modify (\<lambda>(s, w). (f s, w))"

text \<open>A closed socket sends nothing.\<close>

definition tsend :: "string \<Rightarrow> unit linkProg" where
  "tsend f = setSide (\<lambda>s. if sd_closed s then s else s\<lparr>sd_out := sd_out s @ [f]\<rparr>)"

definition fail :: "string \<Rightarrow> unit linkProg" where
  "fail msg = setSide (\<lambda>s. if sd_finished s then s
     else s\<lparr>sd_finished := True, sd_closed := True, sd_done := Some (Inl (JsError msg))\<rparr>)"

definition cancel :: "unit linkProg" where
  "cancel = setSide (\<lambda>s. if sd_finished s then s
     else s\<lparr>sd_finished := True, sd_closed := True, sd_done := Some (Inl (JsError ''cancelled''))\<rparr>)"

definition disconnected :: "unit linkProg" where
  "disconnected = fail ''disconnected''"

definition sealAndSendFrame :: "env \<Rightarrow> cryptoKey \<Rightarrow> json \<Rightarrow> unit linkProg" where
  "sealAndSendFrame E key obj = await (onDev (seal E key obj)) (\<lambda>d. tsend (frame ''enc'' [(''d'', JStr d)]))"

definition sendLinkFrame :: "env \<Rightarrow> cryptoKey \<Rightarrow> unit linkProg" where
  "sendLinkFrame E key =
     await (onDev deviceSyncEnabled) (\<lambda>on. if \<not> on then ret () else
     await (onDev (myDeviceId E)) (\<lambda>i.
     await (onDev (dateNow E)) (\<lambda>t. sealAndSendFrame E key (linkJson i (''Web device ('' @ isoDate t @ '')'')))))"

section \<open>The exporter\<close>

definition exMaybeStream :: "env \<Rightarrow> unit linkProg" where
  "exMaybeStream E =
     await (getSide id) (\<lambda>s. case sd_key s of None \<Rightarrow> ret () | Some key \<Rightarrow>
     if sd_streaming s \<or> \<not> sd_sentReady s \<or> \<not> sd_peerReady s then ret () else
     andThen (setSide (\<lambda>s. s\<lparr>sd_streaming := True\<rparr>)) (
     tryCatch
       (await (onDev (collectLocalRecords E)) (\<lambda>recs.
        andThen (sealAndSendFrame E key (JObj [(''t'', JStr ''manifest''), (''count'', JNum (int (length recs)))]))
          (setSide (\<lambda>s. s\<lparr>sd_todo := Some (0, recs)\<rparr>))))
       (\<lambda>_. fail ''transfer failed'')))"

text \<open>One turn of the loop; the frame is sealed under the key of that moment.\<close>

definition chunkJson :: "nat \<Rightarrow> HistoryRecord \<Rightarrow> json" where
  "chunkJson i rec = JObj [(''t'', JStr ''chunk''), (''seq'', JNum (int i)), (''rec'', recordJson rec)]"

definition exStream :: "env \<Rightarrow> unit linkProg" where
  "exStream E =
     await (getSide id) (\<lambda>s. case (sd_todo s, sd_key s) of
       (Some (n, rec # recs), Some key) \<Rightarrow>
         if sd_finished s then setSide (\<lambda>s. s\<lparr>sd_todo := None\<rparr>)
         else andThen (sealAndSendFrame E key (chunkJson n rec)) (setSide (\<lambda>s. s\<lparr>sd_todo := Some (Suc n, recs)\<rparr>))
     | (Some (n, []), Some key) \<Rightarrow>
         andThen (sealAndSendFrame E key (JObj [(''t'', JStr ''done'')]))
           (setSide (\<lambda>s. s\<lparr>sd_todo := None, sd_finished := True,
              sd_done := (if sd_done s = None then Some (Inr n) else sd_done s)\<rparr>))
     | _ \<Rightarrow> ret ())"

definition exTrySendReady :: "env \<Rightarrow> unit linkProg" where
  "exTrySendReady E =
     await (getSide id) (\<lambda>s. case sd_key s of None \<Rightarrow> ret () | Some key \<Rightarrow>
     if \<not> sd_confirmed s \<or> sd_sentReady s then ret () else
     andThen (setSide (\<lambda>s. s\<lparr>sd_sentReady := True\<rparr>)) (
     andThen (sealAndSendFrame E key (JObj [(''t'', JStr ''ready'')])) (
     andThen (tryCatch (sendLinkFrame E key) (\<lambda>_. ret ())) (exMaybeStream E))))"

definition exStart :: "env \<Rightarrow> DevlinkCryptoApi \<Rightarrow> unit linkProg" where
  "exStart E dc =
     tryCatch (await (onDev (ext (dv_keypair dc))) (\<lambda>eph. setSide (\<lambda>s. s\<lparr>sd_eph := Some eph\<rparr>)))
       (\<lambda>_. fail ''export failed'')"

definition exHello :: "env \<Rightarrow> DevlinkCryptoApi \<Rightarrow> keypair \<Rightarrow> string \<Rightarrow> unit linkProg" where
  "exHello E dc eph pk =
     tryCatch
       (let theirPub = fromHex pk in
        await (liftE (dv_channelKey dc (kp_priv eph) theirPub)) (\<lambda>secret.
        andThen (setSide (\<lambda>s. s\<lparr>sd_secret := Some secret\<rparr>)) (
        await (onDev (importChannelKey secret)) (\<lambda>key.
        andThen (setSide (\<lambda>s. s\<lparr>sd_key := Some key\<rparr>)) (
        andThen (setSide (\<lambda>s. s\<lparr>sd_sas := Some (computeSAS E (kp_pub eph) theirPub)\<rparr>)) (exTrySendReady E))))))
       (\<lambda>_. fail ''handshake failed'')"

definition exInner :: "env \<Rightarrow> json \<Rightarrow> unit linkProg" where
  "exInner E inner =
     await (getSide sd_secret) (\<lambda>secret.
     if jstr (jget ''t'' inner) = Some ''ready''
     then andThen (setSide (\<lambda>s. s\<lparr>sd_peerReady := True\<rparr>)) (exMaybeStream E)
     else if jstr (jget ''t'' inner) = Some ''link''
     then (case secret of None \<Rightarrow> ret () | Some sec \<Rightarrow> tryCatch (onDev (handleLinkFrame E inner sec)) (\<lambda>_. ret ()))
     else ret ())"

text \<open>The inside of an encrypted frame; a frame that does not open ends the transfer.\<close>

definition openInner :: "env \<Rightarrow> cryptoKey \<Rightarrow> string \<Rightarrow> (json \<Rightarrow> unit linkProg) \<Rightarrow> unit linkProg" where
  "openInner E key d k =
     await (tryCatch (await (onDev (openSeal E key d)) (\<lambda>j. ret (Some j)))
              (\<lambda>_. andThen (fail ''secure channel failed (codes did not match)'') (ret None))) (\<lambda>r.
     case r of None \<Rightarrow> ret () | Some inner \<Rightarrow> k inner)"

text \<open>An error inside a frame's handling is dropped by the chain of frames.\<close>

definition exFrame :: "env \<Rightarrow> DevlinkCryptoApi \<Rightarrow> string \<Rightarrow> unit linkProg" where
  "exFrame E dc f =
     tryCatch
       (await (getSide id) (\<lambda>s. case (parseFrame f, sd_eph s) of
         (Some m, Some eph) \<Rightarrow>
           (case (jstr (jget ''t'' m), jstr (jget ''pk'' m), jstr (jget ''d'' m)) of (t, pk, d) \<Rightarrow>
             if t = Some ''hello'' \<and> pk \<noteq> None then exHello E dc eph (the pk)
             else if t = Some ''enc'' \<and> d \<noteq> None \<and> sd_key s \<noteq> None then openInner E (the (sd_key s)) (the d) (exInner E)
             else if t = Some ''peer_left'' then fail ''the other device disconnected''
             else ret ())
       | _ \<Rightarrow> ret ()))
       (\<lambda>_. ret ())"

definition exConfirm :: "env \<Rightarrow> unit linkProg" where
  "exConfirm E = andThen (setSide (\<lambda>s. s\<lparr>sd_confirmed := True\<rparr>)) (exTrySendReady E)"

section \<open>The importer\<close>

definition imTrySendReady :: "env \<Rightarrow> unit linkProg" where
  "imTrySendReady E =
     await (getSide id) (\<lambda>s. case sd_key s of None \<Rightarrow> ret () | Some key \<Rightarrow>
     if \<not> sd_confirmed s \<or> sd_sentReady s \<or> sd_finished s then ret () else
     andThen (setSide (\<lambda>s. s\<lparr>sd_sentReady := True\<rparr>)) (
     andThen (sealAndSendFrame E key (JObj [(''t'', JStr ''ready'')]))
       (tryCatch (sendLinkFrame E key) (\<lambda>_. ret ()))))"

definition imStart :: "env \<Rightarrow> DevlinkCryptoApi \<Rightarrow> QrPayload \<Rightarrow> unit linkProg" where
  "imStart E dc qr =
     tryCatch
       (await (onDev (ext (dv_keypair dc))) (\<lambda>eph.
        andThen (setSide (\<lambda>s. s\<lparr>sd_eph := Some eph\<rparr>)) (
        let theirPub = fromHex (qr_pk qr) in
        await (liftE (dv_channelKey dc (kp_priv eph) theirPub)) (\<lambda>secret.
        andThen (setSide (\<lambda>s. s\<lparr>sd_secret := Some secret\<rparr>)) (
        await (onDev (importChannelKey secret)) (\<lambda>key.
        andThen (setSide (\<lambda>s. s\<lparr>sd_key := Some key\<rparr>)) (
        andThen (setSide (\<lambda>s. s\<lparr>sd_sas := Some (computeSAS E theirPub (kp_pub eph))\<rparr>)) (
        andThen (tsend (frame ''hello'' [(''pk'', JStr (toHex (kp_pub eph)))])) (imTrySendReady E)))))))))
       (\<lambda>_. fail ''import failed'')"

definition imInner :: "env \<Rightarrow> json \<Rightarrow> unit linkProg" where
  "imInner E inner =
     await (getSide sd_secret) (\<lambda>secret.
     (let t = jstr (jget ''t'' inner) in
      if t = Some ''link'' \<and> secret \<noteq> None
      then tryCatch (onDev (handleLinkFrame E inner (the secret))) (\<lambda>_. ret ())
      else if t = Some ''manifest'' then setSide (\<lambda>s. s\<lparr>sd_total := orElse (jint (jget ''count'' inner)) 0\<rparr>)
      else if t = Some ''chunk'' \<and> jget ''rec'' inner \<noteq> None
      then await (liftE (parseRecord (the (jget ''rec'' inner)))) (\<lambda>rec.
           andThen (onDev (importRecord E rec PendingInbound)) (setSide (\<lambda>s. s\<lparr>sd_imported := Suc (sd_imported s)\<rparr>)))
      else if t = Some ''done''
      then setSide (\<lambda>s. s\<lparr>sd_finished := True, sd_closed := True,
             sd_done := (if sd_done s = None then Some (Inr (sd_imported s)) else sd_done s)\<rparr>)
      else ret ()))"

definition imFrame :: "env \<Rightarrow> string \<Rightarrow> unit linkProg" where
  "imFrame E f =
     tryCatch
       (await (getSide id) (\<lambda>s. case (parseFrame f, sd_key s) of
         (Some m, Some key) \<Rightarrow>
           (case (jstr (jget ''t'' m), jstr (jget ''d'' m)) of (t, d) \<Rightarrow>
             if t = Some ''enc'' \<and> d \<noteq> None then openInner E key (the d) (imInner E)
             else if t = Some ''peer_left'' then fail ''the other device disconnected''
             else ret ())
       | _ \<Rightarrow> ret ()))
       (\<lambda>_. ret ())"

definition imConfirm :: "env \<Rightarrow> unit linkProg" where
  "imConfirm E = andThen (setSide (\<lambda>s. s\<lparr>sd_confirmed := True\<rparr>)) (imTrySendReady E)"

section \<open>Running a side\<close>

definition sendf :: "string \<Rightarrow> side \<Rightarrow> side" where
  "sendf f s = (if sd_closed s then s else s\<lparr>sd_out := sd_out s @ [f]\<rparr>)"

definition encFrame :: "env \<Rightarrow> cryptoKey \<Rightarrow> nat \<Rightarrow> json \<Rightarrow> string" where
  "encFrame E key t obj =
     frame ''enc'' [(''d'', JStr (b64encode (ivAt E t @ aes_enc E key (ivAt E t) (textEncode (stringify obj)))))]"

lemma run_link [simp]:
  "onDev m (s, w) = (case m w of (r, w') \<Rightarrow> (r, (s, w')))"
  "getSide f (s, w) = (Inr (f s), (s, w))" "setSide g (s, w) = (Inr (), (g s, w))"
  "tsend fr (s, w) = (Inr (), (sendf fr s, w))"
  by (simp_all add: onDev_def getSide_def setSide_def tsend_def sendf_def)

lemma run_seal: "seal E key obj w = (Inr (b64encode (ivAt E (tick w) @ aes_enc E key (ivAt E (tick w)) (textEncode (stringify obj)))),
    w\<lparr>tick := Suc (tick w)\<rparr>)"
  by (simp add: seal_def)

lemma run_sealAndSend [simp]:
  "sealAndSendFrame E key obj (s, w) = (Inr (), (sendf (encFrame E key (tick w) obj) s, w\<lparr>tick := Suc (tick w)\<rparr>))"
  by (simp add: sealAndSendFrame_def run_seal encFrame_def)

text \<open>A frame that was sealed with the key opens to what was sealed.\<close>

lemma parse_encFrame: "parseFrame (frame ''enc'' [(''d'', JStr d)]) = Some (JObj [(''t'', JStr ''enc''), (''d'', JStr d)])"
  by (simp add: parseFrame_def frame_def)

lemma run_openInner:
  assumes "aes_correct E" "noDec obj"
  shows "openInner E key (b64encode (ivAt E t @ aes_enc E key (ivAt E t) (textEncode (stringify obj)))) k (s, w) = k obj (s, w)"
  using assms by (simp add: openInner_def openSeal_def run_aesDecrypt)

lemma imFrame_enc:
  assumes "aes_correct E" "noDec obj" "sd_key s = Some key" "imInner E obj (s, w) = (Inr (), p)"
  shows "imFrame E (encFrame E key t obj) (s, w) = (Inr (), p)"
  using assms run_openInner [OF assms(1,2)] by (simp add: imFrame_def encFrame_def parse_encFrame)

lemma exFrame_enc:
  assumes "aes_correct E" "noDec obj" "sd_key s = Some key" "sd_eph s = Some eph" "exInner E obj (s, w) = (Inr (), p)"
  shows "exFrame E dc (encFrame E key t obj) (s, w) = (Inr (), p)"
  using assms run_openInner [OF assms(1,2)] by (simp add: exFrame_def encFrame_def parse_encFrame)

section \<open>Nothing before the confirmation\<close>

inductive exReach :: "env \<Rightarrow> DevlinkCryptoApi \<Rightarrow> side \<times> world \<Rightarrow> bool" for E dc where
  init: "exReach E dc (sideInit, w)"
| start: "exReach E dc p \<Longrightarrow> exReach E dc (snd (exStart E dc p))"
| frame: "exReach E dc p \<Longrightarrow> exReach E dc (snd (exFrame E dc f p))"
| confirm: "exReach E dc p \<Longrightarrow> exReach E dc (snd (exConfirm E p))"
| stream: "exReach E dc p \<Longrightarrow> exReach E dc (snd (exStream E p))"
| cancelled: "exReach E dc p \<Longrightarrow> exReach E dc (snd (cancel p))"
| lost: "exReach E dc p \<Longrightarrow> exReach E dc (snd (disconnected p))"
| device: "exReach E dc (s, w) \<Longrightarrow> exReach E dc (s, w')"

definition exInv :: "side \<Rightarrow> bool" where
  "exInv s \<longleftrightarrow> (sd_sentReady s \<longrightarrow> sd_confirmed s) \<and> (sd_streaming s \<longrightarrow> sd_sentReady s \<and> sd_peerReady s) \<and>
     (sd_todo s \<noteq> None \<longrightarrow> sd_streaming s) \<and> (\<not> sd_sentReady s \<longrightarrow> sd_out s = []) \<and> (\<not> sd_streaming s \<longrightarrow> length (sd_out s) \<le> 2)"

definition exKeeps :: "side \<times> world \<Rightarrow> side \<times> world \<Rightarrow> bool" where
  "exKeeps p p' \<longleftrightarrow> (exInv (fst p) \<longrightarrow> exInv (fst p'))"

interpretation xk: step_relation exKeeps
  by unfold_locales (auto simp: exKeeps_def)

lemma keeps_onDev [keeps_intro]: "keeps exKeeps (onDev m)"
  by (auto simp: keeps_def exKeeps_def onDev_def split: prod.split)

lemma keeps_getSide [keeps_intro]: "keeps exKeeps (getSide f)"
  by (auto simp: keeps_def exKeeps_def getSide_def)

lemma keeps_setSide: "(\<And>s. exInv s \<Longrightarrow> exInv (g s)) \<Longrightarrow> keeps exKeeps (setSide g)"
  by (auto simp: keeps_def exKeeps_def setSide_def)

lemma keeps_fail [keeps_intro]: "keeps exKeeps (fail msg)" "keeps exKeeps cancel"
  unfolding fail_def cancel_def by (rule keeps_setSide; auto simp: exInv_def)+

lemma keeps_openInner: "(\<And>j. keeps exKeeps (k j)) \<Longrightarrow> keeps exKeeps (openInner E key d k)"
  unfolding openInner_def by (intro xk.keeps_rules keeps_intro) auto

lemma sendf_fields [simp]:
  "sd_streaming (sendf f s) = sd_streaming s" "sd_sentReady (sendf f s) = sd_sentReady s" "sd_confirmed (sendf f s) = sd_confirmed s"
  "sd_peerReady (sendf f s) = sd_peerReady s" "sd_todo (sendf f s) = sd_todo s" "sd_key (sendf f s) = sd_key s"
  "sd_closed (sendf f s) = sd_closed s" "sd_done (sendf f s) = sd_done s" "sd_finished (sendf f s) = sd_finished s"
  "sd_eph (sendf f s) = sd_eph s" "sd_secret (sendf f s) = sd_secret s" "sd_imported (sendf f s) = sd_imported s"
  by (simp_all add: sendf_def)

lemma out_sendf: "sd_out (sendf f s) = (if sd_closed s then sd_out s else sd_out s @ [f])"
  by (simp add: sendf_def)

lemma keeps_maybeStream [keeps_intro]: "keeps exKeeps (exMaybeStream E)"
proof (rule keepsI)
  fix p :: "side \<times> world"
  obtain s w where p: "p = (s, w)" by fastforce
  obtain r w1 where c: "collectLocalRecords E w = (r, w1)" by fastforce
  show "exKeeps p (snd (exMaybeStream E p))"
    by (cases "sd_key s"; cases r)
       (auto simp: p exMaybeStream_def c exKeeps_def exInv_def fail_def out_sendf)
qed

lemma sendLinkFrame_run: "\<exists>fs w'. sendLinkFrame E key (s, w) = (Inr (), (fold sendf fs s, w')) \<and> length fs \<le> 1"
proof (cases "map_option st_value (tget (settings_tbl (idb w)) ENABLED_KEY) = Some (JBool True)")
  case True
  have "\<exists>i w1. myDeviceId E w = (Inr i, w1)"
    by (cases "orElse (jstr (map_option st_value (tget (settings_tbl (idb w)) DEVICE_ID_KEY))) [] = []")
       (simp_all add: myDeviceId_def)
  then obtain i w1 where "myDeviceId E w = (Inr i, w1)" by blast
  then show ?thesis using True
    by (intro exI [where x = "[encFrame E key (Suc (tick w1)) (linkJson i (''Web device ('' @ isoDate (date_now E (tick w1)) @ '')''))]"] exI)
       (simp add: sendLinkFrame_def deviceSyncEnabled_def)
next
  case False
  then show ?thesis
    by (intro exI [where x = "[]"] exI) (simp add: sendLinkFrame_def deviceSyncEnabled_def)
qed

lemma fold_sendf:
  "sd_streaming (fold sendf fs s) = sd_streaming s" "sd_sentReady (fold sendf fs s) = sd_sentReady s"
  "sd_confirmed (fold sendf fs s) = sd_confirmed s" "sd_peerReady (fold sendf fs s) = sd_peerReady s"
  "sd_todo (fold sendf fs s) = sd_todo s"
  by (induction fs arbitrary: s) simp_all

lemma length_fold_sendf: "length (sd_out (fold sendf fs s)) \<le> length (sd_out s) + length fs"
proof (induction fs arbitrary: s)
  case (Cons f fs)
  show ?case using Cons.IH [of "sendf f s"] by (simp add: out_sendf split: if_splits)
qed simp

lemma keeps_trySendReady [keeps_intro]: "keeps exKeeps (exTrySendReady E)"
proof (rule keepsI)
  fix p :: "side \<times> world"
  obtain s w where p: "p = (s, w)" by fastforce
  show "exKeeps p (snd (exTrySendReady E p))"
  proof (cases "sd_key s = None \<or> \<not> sd_confirmed s \<or> sd_sentReady s")
    case True
    then show ?thesis by (cases "sd_key s") (auto simp: p exTrySendReady_def exKeeps_def)
  next
    case False
    then obtain key where key: "sd_key s = Some key" and g: "sd_confirmed s" "\<not> sd_sentReady s" by auto
    let ?s1 = "sendf (encFrame E key (tick w) (JObj [(''t'', JStr ''ready'')])) (s\<lparr>sd_sentReady := True\<rparr>)"
    obtain fs w' where l: "sendLinkFrame E key (?s1, w\<lparr>tick := Suc (tick w)\<rparr>) = (Inr (), (fold sendf fs ?s1, w'))" "length fs \<le> 1"
      using sendLinkFrame_run by blast
    have "exTrySendReady E p = exMaybeStream E (fold sendf fs ?s1, w')" using key g l(1) by (simp add: p exTrySendReady_def)
    moreover have "exInv (fold sendf fs ?s1)" if "exInv s"
      using that g l(2) length_fold_sendf [of fs ?s1] by (auto simp: exInv_def out_sendf fold_sendf split: if_splits)
    moreover have "exKeeps (fold sendf fs ?s1, w') (snd (exMaybeStream E (fold sendf fs ?s1, w')))"
      using keeps_maybeStream by (simp add: keeps_def)
    ultimately show ?thesis by (simp add: p exKeeps_def)
  qed
qed

lemma keeps_exHello [keeps_intro]: "keeps exKeeps (exHello E dc eph pk)"
  unfolding exHello_def by (intro xk.keeps_rules keeps_intro keeps_setSide) (auto simp: exInv_def)

lemma keeps_exInner [keeps_intro]: "keeps exKeeps (exInner E inner)"
  unfolding exInner_def by (intro xk.keeps_rules keeps_intro keeps_setSide) (auto simp: exInv_def)

lemma keeps_exFrame [keeps_intro]: "keeps exKeeps (exFrame E dc f)"
  unfolding exFrame_def by (intro xk.keeps_rules keeps_intro keeps_openInner)

lemma keeps_exConfirm [keeps_intro]: "keeps exKeeps (exConfirm E)"
  unfolding exConfirm_def by (intro xk.keeps_rules keeps_intro keeps_setSide) (auto simp: exInv_def)

lemma keeps_exStart [keeps_intro]: "keeps exKeeps (exStart E dc)"
  unfolding exStart_def by (intro xk.keeps_rules keeps_intro keeps_setSide) (auto simp: exInv_def)

lemma keeps_exStream [keeps_intro]: "keeps exKeeps (exStream E)"
proof (rule keepsI)
  fix p :: "side \<times> world"
  obtain s w where p: "p = (s, w)" by fastforce
  show "exKeeps p (snd (exStream E p))"
    by (auto simp: p exStream_def exKeeps_def exInv_def out_sendf split: option.split prod.split list.split)
qed

lemma exInv_reach: "exReach E dc p \<Longrightarrow> exInv (fst p)"
proof (induction rule: exReach.induct)
  case (init w)
  then show ?case by (simp add: exInv_def sideInit_def)
next
  case (device s w w')
  then show ?case by simp
qed (use keeps_exStart keeps_exFrame keeps_exConfirm keeps_exStream keeps_fail in
     \<open>auto simp: keeps_def exKeeps_def disconnected_def\<close>)

text \<open>C19. Whatever frames the relay delivers, and in whatever order: the exporting device sends
  nothing before its user has confirmed the code, and until the other side has said under the
  channel key that it is ready, nothing but its own readiness and the announcement of its device
  id, so no record of the history.\<close>

theorem export_waits_for_confirmation:
  assumes "exReach E dc (s, w)"
  shows "(\<not> sd_confirmed s \<longrightarrow> sd_out s = []) \<and> (\<not> sd_peerReady s \<longrightarrow> length (sd_out s) \<le> 2 \<and> sd_todo s = None)"
  using exInv_reach [OF assms] by (cases "sd_todo s") (auto simp: exInv_def)

section \<open>A transfer copies the history\<close>

lemma imInner_chunk:
  assumes "aes_correct E" "keyOf w = Some k" "\<And>c. rec = ContactRec c \<Longrightarrow> tget (contacts_tbl (idb w)) (cr_px_id c) = None"
  shows "\<exists>w'. imInner E (chunkJson i rec) (s, w) = (Inr (), (s\<lparr>sd_imported := Suc (sd_imported s)\<rparr>, w')) \<and> keyOf w' = Some k \<and>
    storedWith E k (\<lambda>_. PendingInbound) (idb w') rec \<and> (\<forall>x. x \<noteq> slot rec \<longrightarrow> rowAt (idb w') x = rowAt (idb w) x)"
  using import_run [OF assms(1,2), of rec PendingInbound] assms(3) by (auto simp: imInner_def chunkJson_def)

definition deliver :: "env \<Rightarrow> string list \<Rightarrow> side \<times> world \<Rightarrow> side \<times> world" where
  "deliver E fs p = fold (\<lambda>f p. snd (imFrame E f p)) fs p"

lemma run_chunks:
  assumes "aes_correct E" "keyOf w = Some k" "freshFor (idb w) (map fst rts)" "sd_key s = Some key"
  shows "\<exists>w'. deliver E (map (\<lambda>(rec, i, t). encFrame E key t (chunkJson i rec)) rts) (s, w) =
      (s\<lparr>sd_imported := sd_imported s + length rts\<rparr>, w') \<and>
    (\<forall>rec \<in> set (map fst rts). storedWith E k (\<lambda>_. PendingInbound) (idb w') rec) \<and>
    (\<forall>x. x \<notin> slot ` set (map fst rts) \<longrightarrow> rowAt (idb w') x = rowAt (idb w) x)"
  using assms(2-)
proof (induction rts arbitrary: s w)
  case Nil
  then show ?case by (simp add: deliver_def)
next
  case (Cons rt rts)
  obtain rec i t where rt: "rt = (rec, i, t)" by (cases rt) auto
  have "\<And>c. rec = ContactRec c \<Longrightarrow> tget (contacts_tbl (idb w)) (cr_px_id c) = None" using Cons.prems(2) by (auto simp: freshFor_def rt)
  then obtain w1 where 1: "imInner E (chunkJson i rec) (s, w) = (Inr (), (s\<lparr>sd_imported := Suc (sd_imported s)\<rparr>, w1))" "keyOf w1 = Some k"
    "storedWith E k (\<lambda>_. PendingInbound) (idb w1) rec" "\<forall>x. x \<noteq> slot rec \<longrightarrow> rowAt (idb w1) x = rowAt (idb w) x"
    using imInner_chunk [OF assms(1) Cons.prems(1)] by blast
  have new: "slot r \<noteq> slot rec" if "r \<in> set (map fst rts)" for r
    using Cons.prems(2) that by (auto simp: freshFor_def rt) (metis fst_conv image_eqI)
  have "freshFor (idb w1) (map fst rts)" unfolding freshFor_def
  proof (intro conjI allI impI)
    fix c assume c: "ContactRec c \<in> set (map fst rts)"
    then have "rowAt (idb w1) (Inr (cr_px_id c)) = rowAt (idb w) (Inr (cr_px_id c))" using 1(4) new [OF c] by (simp add: slot_def)
    then show "tget (contacts_tbl (idb w1)) (cr_px_id c) = None" using Cons.prems(2) c by (simp add: rowAt_Inr freshFor_def rt)
  qed (use Cons.prems(2) in \<open>simp add: freshFor_def\<close>)
  then obtain w' where 2: "deliver E (map (\<lambda>(rec, i, t). encFrame E key t (chunkJson i rec)) rts) (s\<lparr>sd_imported := Suc (sd_imported s)\<rparr>, w1) =
      (s\<lparr>sd_imported := Suc (sd_imported s) + length rts\<rparr>, w')"
    "\<forall>rec \<in> set (map fst rts). storedWith E k (\<lambda>_. PendingInbound) (idb w') rec"
    "\<forall>x. x \<notin> slot ` set (map fst rts) \<longrightarrow> rowAt (idb w') x = rowAt (idb w1) x"
    using Cons.IH [OF 1(2), of "s\<lparr>sd_imported := Suc (sd_imported s)\<rparr>"] Cons.prems(3) by auto
  have "imFrame E (encFrame E key t (chunkJson i rec)) (s, w) = (Inr (), (s\<lparr>sd_imported := Suc (sd_imported s)\<rparr>, w1))"
    by (rule imFrame_enc [OF assms(1) _ Cons.prems(3) 1(1)]) (simp add: chunkJson_def)
  moreover have "slot rec \<notin> slot ` set (map fst rts)" using new by (metis imageE)
  then have "rowAt (idb w') (slot rec) = rowAt (idb w1) (slot rec)" using 2(3) by simp
  then have "storedWith E k (\<lambda>_. PendingInbound) (idb w') rec" using 1(3) unfolding stored_def by simp
  ultimately show ?case using 1(4) 2 by (intro exI [where x = w']) (auto simp: deliver_def rt)
qed

text \<open>The frames the exporter's loop sends.\<close>

lemma run_stream:
  assumes "sd_key s = Some key" "\<not> sd_finished s" "\<not> sd_closed s" "sd_done s = None" "sd_todo s = Some (n, recs)"
  shows "\<exists>w' rts t. ((\<lambda>p. snd (exStream E p)) ^^ Suc (length recs)) (s, w) =
      (s\<lparr>sd_out := sd_out s @ map (\<lambda>(rec, i, t). encFrame E key t (chunkJson i rec)) rts @ [encFrame E key t (JObj [(''t'', JStr ''done'')])],
         sd_todo := None, sd_finished := True, sd_done := Some (Inr (n + length recs))\<rparr>, w') \<and> map fst rts = recs"
  using assms
proof (induction recs arbitrary: s w n)
  case Nil
  then show ?case by (intro exI [where x = "[]"] exI) (simp add: exStream_def sendf_def)
next
  case (Cons rec recs)
  let ?s1 = "s\<lparr>sd_out := sd_out s @ [encFrame E key (tick w) (chunkJson n rec)], sd_todo := Some (Suc n, recs)\<rparr>"
  have step: "snd (exStream E (s, w)) = (?s1, w\<lparr>tick := Suc (tick w)\<rparr>)" using Cons.prems by (simp add: exStream_def sendf_def)
  obtain w' rts t where "((\<lambda>p. snd (exStream E p)) ^^ Suc (length recs)) (?s1, w\<lparr>tick := Suc (tick w)\<rparr>) =
      (?s1\<lparr>sd_out := sd_out ?s1 @ map (\<lambda>(rec, i, t). encFrame E key t (chunkJson i rec)) rts @ [encFrame E key t (JObj [(''t'', JStr ''done'')])],
         sd_todo := None, sd_finished := True, sd_done := Some (Inr (Suc n + length recs))\<rparr>, w')" "map fst rts = recs"
    using Cons.IH [of ?s1 "Suc n" "w\<lparr>tick := Suc (tick w)\<rparr>"] Cons.prems by auto
  then show ?case
    by (intro exI [where x = w'] exI [where x = "(rec, n, tick w) # rts"] exI [where x = t])
       (simp add: funpow_Suc_right step del: funpow.simps)
qed

text \<open>C29. A transfer copies the whole history. When both sides hold the same channel key and are ready,
  the exporter streams and the frames it sends, delivered in order to the importer, leave there
  every record the exporter had (one per message or contact, no such contact known there before):
  both sides finish and report the number of records.\<close>

theorem transfer_copies_history:
  assumes "aes_correct E" "collectLocalRecords E w = (Inr recs, w1)"
    "sd_key s = Some key" "sd_sentReady s" "sd_peerReady s" "\<not> sd_streaming s" "\<not> sd_finished s" "\<not> sd_closed s" "sd_done s = None"
    "sd_key s' = Some key" "sd_imported s' = 0" "sd_done s' = None" "keyOf w' = Some k" "freshFor (idb w') recs"
  shows "\<exists>se we fs si wi.
    ((\<lambda>p. snd (exStream E p)) ^^ Suc (length recs)) (snd (exMaybeStream E (s, w))) = (se, we) \<and> sd_out se = sd_out s @ fs \<and>
    deliver E fs (s', w') = (si, wi) \<and>
    sd_done se = Some (Inr (length recs)) \<and> sd_done si = Some (Inr (length recs)) \<and> sd_total si = int (length recs) \<and>
    (\<forall>rec \<in> set recs. storedWith E k (\<lambda>_. PendingInbound) (idb wi) rec)"
proof -
  let ?man = "JObj [(''t'', JStr ''manifest''), (''count'', JNum (int (length recs)))]"
  let ?fin = "JObj [(''t'', JStr ''done'')]"
  let ?s1 = "s\<lparr>sd_streaming := True, sd_out := sd_out s @ [encFrame E key (tick w1) ?man], sd_todo := Some (0, recs)\<rparr>"
  have m: "exMaybeStream E (s, w) = (Inr (), (?s1, w1\<lparr>tick := Suc (tick w1)\<rparr>))"
    using assms(2-9) by (simp add: exMaybeStream_def sendf_def)
  obtain we rts t where st: "((\<lambda>p. snd (exStream E p)) ^^ Suc (length recs)) (?s1, w1\<lparr>tick := Suc (tick w1)\<rparr>) =
      (?s1\<lparr>sd_out := sd_out ?s1 @ map (\<lambda>(rec, i, t). encFrame E key t (chunkJson i rec)) rts @ [encFrame E key t ?fin],
         sd_todo := None, sd_finished := True, sd_done := Some (Inr (length recs))\<rparr>, we)" (is "_ = (?se, _)")
    and rts: "map fst rts = recs"
    using run_stream [of ?s1 key 0 recs E "w1\<lparr>tick := Suc (tick w1)\<rparr>"] assms(3,7-9) by auto
  let ?chunks = "map (\<lambda>(rec, i, t). encFrame E key t (chunkJson i rec)) rts"
  let ?fs = "encFrame E key (tick w1) ?man # ?chunks @ [encFrame E key t ?fin]"
  let ?si = "s'\<lparr>sd_total := int (length recs)\<rparr>"
  have "imFrame E (encFrame E key (tick w1) ?man) (s', w') = (Inr (), (?si, w'))"
    by (rule imFrame_enc [OF assms(1) _ assms(10)]) (simp_all add: imInner_def)
  moreover obtain wi where d: "deliver E ?chunks (?si, w') = (?si\<lparr>sd_imported := sd_imported ?si + length rts\<rparr>, wi)"
    "\<forall>rec \<in> set recs. storedWith E k (\<lambda>_. PendingInbound) (idb wi) rec"
    using run_chunks [OF assms(1,13), of rts ?si key] assms(10,14) rts by auto
  let ?s2 = "?si\<lparr>sd_imported := length recs\<rparr>"
  have "length rts = length recs" using rts by (metis length_map)
  then have "deliver E ?chunks (?si, w') = (?s2, wi)" using d(1) assms(11) by simp
  moreover have "imFrame E (encFrame E key t ?fin) (?s2, wi) =
      (Inr (), (?s2\<lparr>sd_finished := True, sd_closed := True, sd_done := Some (Inr (length recs))\<rparr>, wi))"
    by (rule imFrame_enc [OF assms(1) _ ]) (simp_all add: assms(10,12) imInner_def)
  ultimately have "deliver E ?fs (s', w') = (?s2\<lparr>sd_finished := True, sd_closed := True, sd_done := Some (Inr (length recs))\<rparr>, wi)"
    by (simp add: deliver_def)
  then show ?thesis using m st d(2)
    by (intro exI [where x = ?se] exI [where x = we] exI [where x = ?fs] exI conjI) auto
qed

section \<open>What the confirmation does not cover\<close>

definition helloFrame :: "bytes \<Rightarrow> string" where
  "helloFrame pub = frame ''hello'' [(''pk'', JStr (toHex pub))]"

lemma hello_run:
  assumes "sd_eph s = Some eph" "dv_channelKey dc (kp_priv eph) pub = Inr key" "length key = 32" "\<not> sd_confirmed s \<or> sd_sentReady s"
  shows "exFrame E dc (helloFrame pub) (s, w) =
    (Inr (), (s\<lparr>sd_secret := Some key, sd_key := Some key, sd_sas := Some (computeSAS E (kp_pub eph) pub)\<rparr>, w))"
  using assms by (auto simp: exFrame_def helloFrame_def parseFrame_def frame_def exHello_def importChannelKey_def importDataKey_def exTrySendReady_def)

text \<open>C20. The confirmation is not bound to the key. After the user has confirmed the code of the
  other device's key \<open>pub1\<close>, a second \<open>hello\<close> with another key \<open>pub2\<close> replaces the channel
  key without asking again, and a \<open>ready\<close> under the new key starts the transfer: the history
  is sent under a key whose code nobody confirmed. A relay that answers with its own key
  \<open>pub2\<close> thus reads the history.\<close>

theorem export_follows_swapped_key:
  assumes "aes_correct E" "dv_keypair dc (tick w) = Inr eph"
    "dv_channelKey dc (kp_priv eph) pub1 = Inr key1" "length key1 = 32"
    "dv_channelKey dc (kp_priv eph) pub2 = Inr key2" "length key2 = 32"
    "map_option st_value (tget (settings_tbl (idb w)) ENABLED_KEY) \<noteq> Some (JBool True)"
    "\<And>t. \<exists>w'. collectLocalRecords E (w\<lparr>tick := t\<rparr>) = (Inr (rec # recs), w')"
  shows "\<exists>t1 t2. let
      p1 = snd (exStart E dc (sideInit, w));
      p2 = snd (exFrame E dc (helloFrame pub1) p1);
      p3 = snd (exConfirm E p2);
      p4 = snd (exFrame E dc (helloFrame pub2) p3);
      p5 = snd (exFrame E dc (encFrame E key2 t1 (JObj [(''t'', JStr ''ready'')])) p4);
      p6 = snd (exStream E p5)
    in sd_sas (fst p2) = Some (computeSAS E (kp_pub eph) pub1) \<and> last (sd_out (fst p6)) = encFrame E key2 t2 (chunkJson 0 rec)"
proof -
  let ?ready = "JObj [(''t'', JStr ''ready'')]"
  let ?w1 = "w\<lparr>tick := Suc (tick w)\<rparr>"
  let ?s1 = "sideInit\<lparr>sd_eph := Some eph\<rparr>"
  have 1: "snd (exStart E dc (sideInit, w)) = (?s1, ?w1)" using assms(2) by (simp add: exStart_def)
  let ?s2 = "?s1\<lparr>sd_secret := Some key1, sd_key := Some key1, sd_sas := Some (computeSAS E (kp_pub eph) pub1)\<rparr>"
  have 2: "snd (exFrame E dc (helloFrame pub1) (?s1, ?w1)) = (?s2, ?w1)"
    using hello_run [of ?s1 eph dc pub1 key1 E ?w1] assms(3,4) by (simp add: sideInit_def)
  let ?w3 = "w\<lparr>tick := Suc (Suc (tick w))\<rparr>"
  let ?s3 = "?s2\<lparr>sd_confirmed := True, sd_sentReady := True, sd_out := [encFrame E key1 (Suc (tick w)) ?ready]\<rparr>"
  have 3: "snd (exConfirm E (?s2, ?w1)) = (?s3, ?w3)"
    using assms(7) by (simp add: exConfirm_def exTrySendReady_def sendLinkFrame_def deviceSyncEnabled_def exMaybeStream_def sendf_def sideInit_def)
  let ?s4 = "?s3\<lparr>sd_secret := Some key2, sd_key := Some key2, sd_sas := Some (computeSAS E (kp_pub eph) pub2)\<rparr>"
  have 4: "snd (exFrame E dc (helloFrame pub2) (?s3, ?w3)) = (?s4, ?w3)"
    using hello_run [of ?s3 eph dc pub2 key2 E ?w3] assms(5,6) by simp
  obtain w5 where c: "collectLocalRecords E ?w3 = (Inr (rec # recs), w5)" using assms(8) by blast
  let ?man = "JObj [(''t'', JStr ''manifest''), (''count'', JNum (int (length (rec # recs))))]"
  let ?s5 = "?s4\<lparr>sd_peerReady := True, sd_streaming := True, sd_out := sd_out ?s4 @ [encFrame E key2 (tick w5) ?man], sd_todo := Some (0, rec # recs)\<rparr>"
  have "exInner E ?ready (?s4, ?w3) = (Inr (), (?s5, w5\<lparr>tick := Suc (tick w5)\<rparr>))"
    using c by (simp add: exInner_def exMaybeStream_def sendf_def sideInit_def)
  then have 5: "snd (exFrame E dc (encFrame E key2 0 ?ready) (?s4, ?w3)) = (?s5, w5\<lparr>tick := Suc (tick w5)\<rparr>)"
    using exFrame_enc [OF assms(1), of ?ready ?s4 key2 eph ?w3 _ dc 0] by simp
  have 6: "last (sd_out (fst (snd (exStream E (?s5, w5\<lparr>tick := Suc (tick w5)\<rparr>))))) = encFrame E key2 (Suc (tick w5)) (chunkJson 0 rec)"
    by (simp add: exStream_def sendf_def sideInit_def)
  show ?thesis
    by (rule exI [where x = 0], rule exI [where x = "Suc (tick w5)"], unfold Let_def 1 2 3 4 5) (use 6 in simp)
qed

text \<open>Nor does linking wait for it. With cross-device sync on, an exporter whose user has confirmed
  nothing stores the device of whoever sent the key as a linked device, with sync keys both know.\<close>

theorem unconfirmed_peer_is_linked:
  assumes "aes_correct E" "sd_eph s = Some eph" "sd_key s = Some key" "sd_secret s = Some secret" "\<not> sd_confirmed s"
    "keyOf w = Some mk" "map_option st_value (tget (settings_tbl (idb w)) ENABLED_KEY) = Some (JBool True)" "lowerHexN 32 i"
  shows "\<exists>w' row. exFrame E dc (encFrame E key t (linkJson i label)) (s, w) = (Inr (), (s, w')) \<and>
    tget (linked_tbl (idb w')) i = Some row \<and> reads E mk (ld_send_key_enc row) = Some (deriveSyncKey E secret i)"
proof -
  have i: "i \<noteq> []" using assms(8) by (auto simp: lowerHexN_def)
  obtain me w1 where me: "myDeviceId E w = (Inr me, w1)" and k: "keyOf w1 = Some mk"
    using assms(6) by (cases "orElse (jstr (map_option st_value (tget (settings_tbl (idb w)) DEVICE_ID_KEY))) [] = []")
      (simp_all add: myDeviceId_def)
  let ?row = "\<lparr>ld_device_id = i, ld_label = take 64 (take MAX_LABEL_CHARS label),
    ld_send_key_enc = ivAt E (tick w1) @ aes_enc E mk (ivAt E (tick w1)) (deriveSyncKey E secret i),
    ld_recv_key_enc = ivAt E (Suc (tick w1)) @ aes_enc E mk (ivAt E (Suc (tick w1))) (deriveSyncKey E secret me),
    ld_linked_at = date_now E (Suc (Suc (tick w1))) div 1000\<rparr>"
  let ?w' = "w1\<lparr>tick := Suc (Suc (Suc (tick w1))), idb := linked_tbl_update (tput i ?row) (idb w1)\<rparr>"
  have "handleLinkFrame E (linkJson i label) secret w = (Inr (), ?w')"
    using assms(7,8) me getMasterKey_keyOf [OF assms(6), of E]
    by (simp add: handleLinkFrame_def linkJson_def deviceSyncEnabled_def storeLinkedDevice_def)
  then have "exInner E (linkJson i label) (s, w) = (Inr (), (s, ?w'))"
    using assms(4) by (simp add: exInner_def linkJson_def)
  from exFrame_enc [OF assms(1) _ assms(3,2) this, of dc t]
  have "exFrame E dc (encFrame E key t (linkJson i label)) (s, w) = (Inr (), (s, ?w'))" by (simp add: linkJson_def)
  then show ?thesis using assms(1) by (intro exI [where x = ?w'] exI [where x = ?row]) simp
qed

text \<open>The importer, likewise, imports what arrives before its user has confirmed anything.\<close>

lemma import_needs_no_confirmation:
  assumes "aes_correct E" "sd_key s = Some key" "\<not> sd_confirmed s" "keyOf w = Some k"
    "\<And>c. rec = ContactRec c \<Longrightarrow> tget (contacts_tbl (idb w)) (cr_px_id c) = None"
  shows "\<exists>s' w'. imFrame E (encFrame E key t (chunkJson i rec)) (s, w) = (Inr (), (s', w')) \<and> \<not> sd_confirmed s' \<and>
    storedWith E k (\<lambda>_. PendingInbound) (idb w') rec"
proof -
  obtain w' where "imInner E (chunkJson i rec) (s, w) = (Inr (), (s\<lparr>sd_imported := Suc (sd_imported s)\<rparr>, w'))"
    and st: "storedWith E k (\<lambda>_. PendingInbound) (idb w') rec" using imInner_chunk [OF assms(1,4,5)] by blast
  from imFrame_enc [OF assms(1) _ assms(2) this(1), of t] st assms(3) show ?thesis by (simp add: chunkJson_def)
qed

end
