(* ===== verification/Recovery.thy ===== *)
theory Recovery
  imports AuthSession Handshake Files Prekeys
begin

text \<open>
  Account recovery (\<^verbatim>\<open>services/recovery.ts\<close>): by password, by seed phrase, and through
  contacts that each hold a share of the master seed. The worker's crypto is a parameter, as in
  the source. The map of collected shares, which the caller keeps between polls and which a poll
  changes even when it fails later, is part of the state a poll works on.
\<close>

record RecoveryCryptoApi =
  ry_opaqueRegStart :: "nat \<Rightarrow> string \<Rightarrow> error + OpaqueStart"
  ry_opaqueRegFinish :: "nat \<Rightarrow> bytes \<Rightarrow> bytes \<Rightarrow> bytes \<Rightarrow> string \<Rightarrow> error + OpaqueFinish"
  ry_opaqueLoginStart :: "nat \<Rightarrow> string \<Rightarrow> error + OpaqueStart"
  ry_opaqueLoginFinish :: "nat \<Rightarrow> bytes \<Rightarrow> bytes \<Rightarrow> string \<Rightarrow> error + OpaqueLoginResult"
  ry_recoverBundleFromSeed :: "nat \<Rightarrow> bytes \<Rightarrow> error + IdentityBundle"
  ry_seedToMasterSeed :: "string \<Rightarrow> error + bytes"
  ry_solvePow :: solvePowFn

definition workerRecoveryCrypto :: "env \<Rightarrow> RecoveryCryptoApi" where
  "workerRecoveryCrypto E =
     \<lparr>ry_opaqueRegStart = opaqueRegStart (wasm E), ry_opaqueRegFinish = opaqueRegFinish (wasm E),
      ry_opaqueLoginStart = opaqueLoginStart (wasm E), ry_opaqueLoginFinish = opaqueLoginFinish (wasm E),
      ry_recoverBundleFromSeed = recoverBundleFromSeed (wasm E),
      ry_seedToMasterSeed = w_seed_phrase_to_master_seed (wasm E), ry_solvePow = solvePow (wasm E)\<rparr>"

definition provisionPrekeys :: "env \<Rightarrow> IdentityBundle \<Rightarrow> string \<Rightarrow> unit act" where
  "provisionPrekeys E bundle tok =
     andThen (spkRotate E (toHex (kp_pub (b_spk bundle))) (toHex (sig_ed (b_spkSig bundle))) (toHex (sig_dil (b_spkSig bundle))) tok) (
     andThen (replenishPrekeys E (map (\<lambda>p. (pk_id p, toHex (pk_pub p))) (b_opks bundle)) tok True) (ret ()))"

definition completeRecovery :: "env \<Rightarrow> IdentityBundle \<Rightarrow> string option \<Rightarrow> unit act" where
  "completeRecovery E bundle tokenOpt =
     await (case tokenOpt of Some t \<Rightarrow> ret t
            | None \<Rightarrow> await (authenticateBundle E bundle) (\<lambda>r. ret (vp_session_token r))) (\<lambda>tok.
     await (nowSecs E) (\<lambda>now.
     await (nextSpkRotation E now) (\<lambda>rot.
     (let b = bundle\<lparr>b_spkRotateAfter := Some rot\<rparr> in
      andThen (persistGeneratedIdentity E b) (
      andThen (setSession tok (b_userId b)) (
      andThen (provisionPrekeys E b tok) (
      andThen (finalizeIdentity E b) (setAuthenticated (b_userId b)))))))))"

section \<open>By password\<close>

definition recoverWithPassword :: "env \<Rightarrow> RecoveryCryptoApi \<Rightarrow> string \<Rightarrow> string \<Rightarrow> string act" where
  "recoverWithPassword E cr pxId password =
     (if \<not> isValidPxId pxId then throw (JsError ''That doesn't look like a Privex ID.'') else
      await (ext (\<lambda>t. ry_opaqueLoginStart cr t password)) (\<lambda>start.
      await (solveServerPow E (ry_solvePow cr)) (\<lambda>pow.
      await (opaqueLoginInit E pxId (toHex (os_message start)) pow) (\<lambda>init.
      (let lsr = bincodeLoginServerResponse (fromHex (oi_credential_response init)) (fromHex (oi_envelope init))
                   (fromHex (oi_envelope_mac init)) in
       await (tryCatch (ext (\<lambda>t. ry_opaqueLoginFinish cr t (os_clientState start) lsr password))
                (\<lambda>_. throw (JsError ''Wrong password, or no account with that ID.''))) (\<lambda>fin.
       await (opaqueLoginComplete E (oi_login_id init) (toHex (ol_finalization fin))) (\<lambda>tok.
       await (liftE (masterSeedFromKeyMaterial (ol_keyMaterial fin))) (\<lambda>seed.
       await (ext (\<lambda>t. ry_recoverBundleFromSeed cr t seed)) (\<lambda>bundle.
       andThen (completeRecovery E bundle (Some tok)) (ret (b_userId bundle)))))))))))"

definition requireRecoverySession :: "env \<Rightarrow> (IdentityBundle \<times> string) act" where
  "requireRecoverySession E =
     await (loadBundle E) (\<lambda>b. case b of None \<Rightarrow> throw (JsError ''Your identity isn't loaded on this device.'') | Some bundle \<Rightarrow>
     await (gets (\<lambda>w. au_sessionToken (auth w))) (\<lambda>t.
     if orElse t [] \<noteq> [] then ret (bundle, the t) else
     await (authenticateBundle E bundle) (\<lambda>r.
     andThen (setSession (vp_session_token r) (b_userId bundle)) (ret (bundle, vp_session_token r)))))"

definition opaqueRecoveryStatus :: "env \<Rightarrow> bool act" where
  "opaqueRecoveryStatus E = await (gets (\<lambda>w. au_sessionToken (auth w))) (\<lambda>t.
     if orElse t [] = [] then throw (JsError ''not authenticated'') else opaqueStatus E (the t))"

definition enableOpaqueRecovery :: "env \<Rightarrow> RecoveryCryptoApi \<Rightarrow> string \<Rightarrow> unit act" where
  "enableOpaqueRecovery E cr password =
     await (requireRecoverySession E) (\<lambda>(bundle, tok).
     await (ext (\<lambda>t. ry_opaqueRegStart cr t password)) (\<lambda>start.
     await (opaqueRegisterStart E (toHex (os_message start)) tok) (\<lambda>res1.
     await (ext (\<lambda>t. ry_opaqueRegFinish cr t (os_clientState start) (fromHex res1) (buildKeyMaterial (b_masterSeed bundle)) password)) (\<lambda>fin.
     andThen (opaqueRegisterFinish E (toHex (of_uploadMessage fin)) (toHex (of_envelope fin)) (toHex (of_envelopeMac fin)) tok)
       (ret ())))))"

definition disableOpaqueRecovery :: "env \<Rightarrow> unit act" where
  "disableOpaqueRecovery E = await (requireRecoverySession E) (\<lambda>(bundle, tok). andThen (opaqueDisable E tok) (ret ()))"

section \<open>By seed phrase\<close>

text \<open>\<open>replace(/\s+/g, " ")\<close>\<close>

function collapseSpaces :: "string \<Rightarrow> string" where
  "collapseSpaces [] = []"
| "collapseSpaces (c # cs) =
     (if is_space c then CHR '' '' # collapseSpaces (dropWhile is_space cs) else c # collapseSpaces cs)"
  by pat_completeness auto
termination
  by (relation "measure length") (auto simp: le_imp_less_Suc length_dropWhile_le)

definition recoverWithSeed :: "env \<Rightarrow> RecoveryCryptoApi \<Rightarrow> string \<Rightarrow> string act" where
  "recoverWithSeed E cr mnemonic =
     await (liftE (ry_seedToMasterSeed cr (collapseSpaces (trim mnemonic)))) (\<lambda>masterSeed.
     await (ext (\<lambda>t. ry_recoverBundleFromSeed cr t masterSeed)) (\<lambda>bundle.
     andThen (completeRecovery E bundle None) (ret (b_userId bundle))))"

section \<open>Sharing the seed with contacts\<close>

definition RECOVERY_CONTACTS_KEY :: string where "RECOVERY_CONTACTS_KEY = ''recovery_contacts''"

definition shareBlob :: "WrappedCek \<Rightarrow> string" where
  "shareBlob w = toHex (wc_ephPub w @ wc_wrapped w)"

text \<open>The loop over the contacts; \<open>shares[i]\<close> out of range would be \<open>undefined\<close>, on which the
  worker's call throws.\<close>

fun sealShares :: "FileCryptoApi \<Rightarrow> int \<Rightarrow> PlainContact list \<Rightarrow> bytes list \<Rightarrow> (int \<times> string) list act" where
  "sealShares fc i [] shares = ret []"
| "sealShares fc i (c # cs) [] = throw (JsError ''TypeError'')"
| "sealShares fc i (c # cs) (s # shares) =
     await (ext (\<lambda>t. fc_wrapCek fc t s (pc_ik_x25519 c))) (\<lambda>w.
     await (sealShares fc (i + 1) cs shares) (\<lambda>rest. ret ((i, shareBlob w) # rest)))"

definition setupEmergencyContacts :: "env \<Rightarrow> FileCryptoApi \<Rightarrow> PlainContact list \<Rightarrow> int act" where
  "setupEmergencyContacts E fc contacts =
     (if length contacts < 2 \<or> 3 < length contacts then throw (JsError ''Choose 2 or 3 recovery contacts.'')
      else if list_ex (\<lambda>c. pc_ik_x25519 c = []) contacts
      then throw (JsError ''A selected contact is missing a key - message them first.'')
      else await (loadBundle E) (\<lambda>b. case b of None \<Rightarrow> throw (JsError ''Your identity isn't loaded.'') | Some bundle \<Rightarrow>
      if list_ex (\<lambda>c. pc_px_id c = b_userId bundle) contacts
      then throw (JsError ''You can't choose yourself as a recovery contact.'')
      else await (gets (\<lambda>w. au_sessionToken (auth w))) (\<lambda>tk.
      if orElse tk [] = [] then throw (JsError ''not authenticated'') else
      await (ext (\<lambda>t. w_shamir_split (wasm E) t (b_masterSeed bundle) 2 (int (length contacts)))) (\<lambda>shares.
      await (sealShares fc 1 contacts shares) (\<lambda>wire.
      await (storeShares E wire (the tk)) (\<lambda>stored.
      andThen (settingPut RECOVERY_CONTACTS_KEY (JArr (map (\<lambda>c. JStr (pc_px_id c)) contacts))) (ret stored)))))))"

section \<open>Recovering through contacts\<close>

record ContactRecoveryCryptoApi =
  cr_ephKeypair :: "nat \<Rightarrow> error + keypair"
  cr_wrapCek :: "nat \<Rightarrow> bytes \<Rightarrow> bytes \<Rightarrow> error + WrappedCek"
  cr_unwrapCek :: "bytes \<Rightarrow> bytes \<Rightarrow> bytes \<Rightarrow> error + bytes"
  cr_shamirReconstruct :: "bytes list \<Rightarrow> error + bytes"
  cr_recoverBundleFromSeed :: "nat \<Rightarrow> bytes \<Rightarrow> error + IdentityBundle"
  cr_solvePow :: solvePowFn

definition workerContactRecoveryCrypto :: "env \<Rightarrow> ContactRecoveryCryptoApi" where
  "workerContactRecoveryCrypto E =
     \<lparr>cr_ephKeypair = (\<lambda>t. w_generate_x25519_prekey (wasm E) t 0), cr_wrapCek = wrapCek (wasm E),
      cr_unwrapCek = unwrapCek (wasm E), cr_shamirReconstruct = w_shamir_reconstruct (wasm E),
      cr_recoverBundleFromSeed = recoverBundleFromSeed (wasm E), cr_solvePow = solvePow (wasm E)\<rparr>"

record RecoverySession =
  rc_recoveryId :: string
  rc_rk :: keypair
  rc_code :: string
  rc_sas :: string

text \<open>\<open>codeBytes.set(rk.pub, RECOVERY_ID_LEN)\<close>: a longer key is a \<open>RangeError\<close>, a shorter one
  leaves zeros.\<close>

definition startContactRecovery :: "env \<Rightarrow> ContactRecoveryCryptoApi \<Rightarrow> RecoverySession act" where
  "startContactRecovery E cr =
     await (ext (cr_ephKeypair cr)) (\<lambda>rk.
     await (getRandomValues E RECOVERY_ID_LEN) (\<lambda>rid.
     if RK_PUB_LEN < length (kp_pub rk) then throw (JsError ''RangeError'') else
     (let codeBytes = rid @ kp_pub rk @ replicate (RK_PUB_LEN - length (kp_pub rk)) 0 in
      ret \<lparr>rc_recoveryId = toHex rid, rc_rk = rk, rc_code = toHex codeBytes, rc_sas = sas6 E codeBytes\<rparr>)))"

text \<open>The pairs \<open>(i, j)\<close>, \<open>i < j\<close>, in the order of the two loops.\<close>

fun pairsOf :: "'a list \<Rightarrow> ('a \<times> 'a) list" where
  "pairsOf [] = []"
| "pairsOf (x # xs) = map (\<lambda>y. (x, y)) xs @ pairsOf xs"

fun firstRight :: "(error + 'a) list \<Rightarrow> 'a option" where
  "firstRight [] = None"
| "firstRight (Inl e # rs) = firstRight rs"
| "firstRight (Inr x # rs) = Some x"

definition tryReconstruct :: "ContactRecoveryCryptoApi \<Rightarrow> bytes list \<Rightarrow> bytes option" where
  "tryReconstruct cr shares = firstRight (map (\<lambda>(a, b). cr_shamirReconstruct cr [a, b]) (pairsOf shares))"

definition unsealBlob :: "ContactRecoveryCryptoApi \<Rightarrow> string \<Rightarrow> bytes \<Rightarrow> bytes option" where
  "unsealBlob cr hex myPriv =
     (let blob = fromHex hex in
      if length blob \<le> RK_PUB_LEN then None
      else case cr_unwrapCek cr (drop RK_PUB_LEN blob) (take RK_PUB_LEN blob) myPriv of Inl _ \<Rightarrow> None | Inr x \<Rightarrow> Some x)"

definition collectShares :: "ContactRecoveryCryptoApi \<Rightarrow> bytes \<Rightarrow> string list \<Rightarrow> (string \<times> bytes) list \<Rightarrow> (string \<times> bytes) list" where
  "collectShares cr rkPriv blobs collected =
     fold (\<lambda>hex m. case unsealBlob cr hex rkPriv of None \<Rightarrow> m | Some share \<Rightarrow> mapSet (toHex share) share m) blobs collected"

definition unsealAndReconstruct ::
  "ContactRecoveryCryptoApi \<Rightarrow> bytes \<Rightarrow> string list \<Rightarrow> (string \<times> bytes) list \<Rightarrow> bytes option \<times> (string \<times> bytes) list" where
  "unsealAndReconstruct cr rkPriv blobs collected =
     (let m = collectShares cr rkPriv blobs collected in (tryReconstruct cr (map snd m), m))"

type_synonym 'a pollProg = "((string \<times> bytes) list \<times> world, 'a) prog"

definition onDevice :: "'a act \<Rightarrow> 'a pollProg" where
  "onDevice m = (\<lambda>(c, w). case m w of (r, w') \<Rightarrow> (r, (c, w')))"

definition pollContactRecovery :: "env \<Rightarrow> ContactRecoveryCryptoApi \<Rightarrow> RecoverySession \<Rightarrow> (string option \<times> nat) pollProg" where
  "pollContactRecovery E cr session =
     await (onDevice (rendezvousPoll E (rc_recoveryId session))) (\<lambda>blobs.
     await (gets fst) (\<lambda>collected.
     (case unsealAndReconstruct cr (kp_priv (rc_rk session)) blobs collected of (seed, collected') \<Rightarrow>
      andThen (modify (\<lambda>(c, w). (collected', w))) (
      case seed of None \<Rightarrow> ret (None, length blobs)
      | Some s \<Rightarrow>
          await (onDevice (ext (\<lambda>t. cr_recoverBundleFromSeed cr t s))) (\<lambda>bundle.
          andThen (onDevice (completeRecovery E bundle None)) (ret (Some (b_userId bundle), length blobs)))))))"

fun firstShare :: "ContactRecoveryCryptoApi \<Rightarrow> bytes \<Rightarrow> (int \<times> string) list \<Rightarrow> bytes option" where
  "firstShare cr priv [] = None"
| "firstShare cr priv (s # ss) = (case unsealBlob cr (snd s) priv of Some x \<Rightarrow> Some x | None \<Rightarrow> firstShare cr priv ss)"

definition approveRecovery :: "env \<Rightarrow> ContactRecoveryCryptoApi \<Rightarrow> string \<Rightarrow> string \<Rightarrow> unit act" where
  "approveRecovery E cr recoveryCode ownerPxId =
     (if \<not> isValidPxId ownerPxId then throw (JsError ''That doesn't look like a Privex ID.'') else
      await (liftE (parseRecoveryCode recoveryCode)) (\<lambda>(recoveryId, rkPub).
      await (loadBundle E) (\<lambda>b. case b of None \<Rightarrow> throw (JsError ''Your identity isn't loaded on this device.'') | Some me \<Rightarrow>
      await (solveServerPow E (cr_solvePow cr)) (\<lambda>pow1.
      await (sharesGet E ownerPxId pow1) (\<lambda>shares.
      case firstShare cr (x25519_priv (b_identity me)) shares of
        None \<Rightarrow> throw (JsError ''You don't hold a recovery share for this contact.'')
      | Some myShare \<Rightarrow>
          await (ext (\<lambda>t. cr_wrapCek cr t myShare rkPub)) (\<lambda>w.
          await (solveServerPow E (cr_solvePow cr)) (\<lambda>pow2.
          andThen (rendezvousPost E recoveryId (shareBlob w) pow2) (ret ()))))))))"

section \<open>The account proves itself before anything is stored\<close>

text \<open>Talking to the server changes neither the database nor the keys nor the session.\<close>

definition onlyTalks :: "world \<Rightarrow> world \<Rightarrow> bool" where
  "onlyTalks w w' \<longleftrightarrow> idb w' = idb w \<and> keystore w' = keystore w \<and> auth w' = auth w \<and> (\<exists>log. netlog w' = netlog w @ log)"

interpretation ot: step_relation onlyTalks
  by unfold_locales (auto simp: onlyTalks_def)

lemma keeps_ot_post: "keeps onlyTalks (post_api E p b t)"
  by (rule keepsI) (simp add: onlyTalks_def)

lemma keeps_ot_field: "keeps onlyTalks (strField k j)" "keeps onlyTalks (typed v)"
  by (rule keepsI, simp add: ot.step_refl typed_pure)+

lemma keeps_ot_ext: "keeps onlyTalks (ext f)" "keeps onlyTalks (nowSecs E)"
  by (rule keepsI, simp add: onlyTalks_def)+

lemma keeps_ot_authenticate: "keeps onlyTalks (authenticateBundle E b)"
  unfolding authenticateBundle_def authChallenge_def authVerify_def
  by (intro ot.keeps_rules keeps_ot_post keeps_ot_field keeps_ot_ext)

lemma persist_run:
  assumes "aes_correct E" "keyOf w = Some k"
  shows "\<exists>t d. persistGeneratedIdentity E b w = (Inr (), w\<lparr>tick := t, idb := d\<rparr>) \<and> storedBundle E k d (b_userId b) = Some (normBundle b)"
  using getMasterKey_keyOf [OF assms(2), of E] stored_savedRow [OF assms(1), of k b]
  by (intro exI [where x = "Suc (tick w)"] exI [where x = "idb (snd (persistGeneratedIdentity E b w))"])
     (simp add: persistGeneratedIdentity_def run_writeBundle saveProgress_def storedBundle_def)

lemma finalize_run:
  assumes "aes_correct E" "keyOf w = Some k"
  shows "\<exists>t d. finalizeIdentity E b w = (Inr (), w\<lparr>tick := t, idb := d\<rparr>) \<and> storedBundle E k d (b_userId b) = Some (normBundle b) \<and>
    map_option st_value (tget (settings_tbl d) PROGRESS_KEY) = Some (JObj [(''step'', JStr ''done''), (''userId'', JStr (b_userId b))])"
  using getMasterKey_keyOf [OF assms(2), of E] stored_savedRow [OF assms(1), of k b]
  by (intro exI [where x = "Suc (tick w)"] exI [where x = "idb (snd (finalizeIdentity E b w))"])
     (simp add: finalizeIdentity_def run_writeBundle saveProgress_def storedBundle_def jopt_def)

lemma run_stateE: "snd x = y \<Longrightarrow> \<exists>r. x = (r, y)"
  by (cases x) simp

lemma provision_run:
  assumes "provisionPrekeys E b tok w = (r, w')"
  shows "\<exists>qs. netlog w' = netlog w @ map (\<lambda>q. (q, idb w)) qs \<and> idb w' = idb w \<and> keystore w' = keystore w \<and> auth w' = auth w \<and>
    (r = Inr () \<longrightarrow> length qs = 2)"
proof -
  let ?p = "toHex (kp_pub (b_spk b))" and ?e = "toHex (sig_ed (b_spkSig b))" and ?d = "toHex (sig_dil (b_spkSig b))"
  let ?o = "map (\<lambda>p. (pk_id p, toHex (pk_pub p))) (b_opks b)"
  obtain r1 where 1: "spkRotate E ?p ?e ?d tok w = (r1, afterReq (spk_req E ?p ?e ?d tok) w)"
    using run_stateE [OF spkRotate_state] by blast
  let ?w1 = "afterReq (spk_req E ?p ?e ?d tok) w"
  obtain r2 where 2: "replenishPrekeys E ?o tok True ?w1 = (r2, afterReq (replenish_req E ?o tok True) ?w1)"
    using run_stateE [OF replenishPrekeys_state] by blast
  show ?thesis
  proof (cases r1)
    case (Inl e)
    then show ?thesis using assms 1 by (intro exI [where x = "[spk_req E ?p ?e ?d tok]"]) (auto simp: provisionPrekeys_def)
  next
    case (Inr x)
    then show ?thesis using assms 1 2
      by (intro exI [where x = "[spk_req E ?p ?e ?d tok, replenish_req E ?o tok True]"])
         (cases r2; auto simp: provisionPrekeys_def)
  qed
qed

text \<open>C7. Recovery proves the account, then saves, then publishes. If the server does not accept the
  recovered keys, nothing is stored and nobody is signed in. If it does, every request that
  follows is made with the recovered identity already in the database, so no prekey is published
  whose private half could be lost; and when recovery ends without an error, that identity is
  stored, both prekey requests were made, onboarding counts as done and the user is signed in.\<close>

theorem recovery_proves_saves_publishes:
  assumes "aes_correct E" "keyOf w = Some k" "completeRecovery E bundle None w = (r, w')"
    "authenticateBundle E bundle w = (ra, wa)"
  shows "case ra of
      Inl e \<Rightarrow> r = Inl e \<and> idb w' = idb w \<and> auth w' = auth w
    | Inr v \<Rightarrow> \<exists>rot log. netlog w' = netlog wa @ log \<and>
        (\<forall>(q, d) \<in> set log. storedBundle E k d (b_userId bundle) = Some (normBundle (bundle\<lparr>b_spkRotateAfter := Some rot\<rparr>))) \<and>
        (r = Inr () \<longrightarrow> length log = 2 \<and> storedBundle E k (idb w') (b_userId bundle) = Some (normBundle (bundle\<lparr>b_spkRotateAfter := Some rot\<rparr>)) \<and>
           loadProgress w' = (Inr \<lparr>pr_step = ''done'', pr_userId = Some (b_userId bundle)\<rparr>, w') \<and>
           auth w' = \<lparr>au_authenticated = True, au_userId = Some (b_userId bundle), au_sessionToken = Some (vp_session_token v)\<rparr>)"
proof (cases ra)
  case (Inl e)
  then show ?thesis using assms(3,4) keepsD [OF keeps_ot_authenticate assms(4)] by (auto simp: completeRecovery_def onlyTalks_def)
next
  case (Inr v)
  have ka: "keyOf wa = Some k" using keepsD [OF keeps_ot_authenticate assms(4)] assms(2) by (simp add: onlyTalks_def keyOf_def)
  define rot where "rot = date_now E (tick wa) div 1000 + (25 * 2 ^ 32 + 10 * leVal (map (rand_byte E (Suc (tick wa))) [0..<4])) * DAY div 2 ^ 32"
  let ?b = "bundle\<lparr>b_spkRotateAfter := Some rot\<rparr>" and ?w2 = "wa\<lparr>tick := Suc (Suc (tick wa))\<rparr>"
  obtain t d where p: "persistGeneratedIdentity E ?b ?w2 = (Inr (), ?w2\<lparr>tick := t, idb := d\<rparr>)"
    and d: "storedBundle E k d (b_userId bundle) = Some (normBundle ?b)" using persist_run [OF assms(1), of ?w2 k ?b] ka by auto
  let ?w3 = "wa\<lparr>tick := t, idb := d, auth := (auth wa)\<lparr>au_sessionToken := Some (vp_session_token v), au_userId := Some (b_userId bundle)\<rparr>\<rparr>"
  obtain rp w4 where pr: "provisionPrekeys E ?b (vp_session_token v) ?w3 = (rp, w4)" by fastforce
  from provision_run [OF pr] obtain qs where q: "netlog w4 = netlog wa @ map (\<lambda>q. (q, d)) qs" "idb w4 = d" "keystore w4 = keystore wa"
    "auth w4 = auth ?w3" "rp = Inr () \<longrightarrow> length qs = 2" by auto
  have k4: "keyOf w4 = Some k" using q(3) ka by (simp add: keyOf_def)
  obtain t5 d5 where f: "finalizeIdentity E ?b w4 = (Inr (), w4\<lparr>tick := t5, idb := d5\<rparr>)" "storedBundle E k d5 (b_userId bundle) = Some (normBundle ?b)"
    "map_option st_value (tget (settings_tbl d5) PROGRESS_KEY) = Some (JObj [(''step'', JStr ''done''), (''userId'', JStr (b_userId bundle))])"
    using finalize_run [OF assms(1) k4, of ?b] by auto
  let ?tail = "andThen (finalizeIdentity E ?b) (setAuthenticated (b_userId bundle))"
  have tok: "await (authenticateBundle E bundle) (\<lambda>r. ret (vp_session_token r)) w = (Inr (vp_session_token v), wa)"
    using assms(4) Inr by simp
  have rt: "nextSpkRotation E (date_now E (tick wa) div 1000) (wa\<lparr>tick := Suc (tick wa)\<rparr>) = (Inr rot, ?w2)"
    by (simp add: nextSpkRotation_def rot_def Let_def)
  have "completeRecovery E bundle None w = andThen (persistGeneratedIdentity E ?b) (
      andThen (setSession (vp_session_token v) (b_userId bundle)) (andThen (provisionPrekeys E ?b (vp_session_token v)) ?tail)) ?w2"
    by (simp add: completeRecovery_def Let_def tok rt)
  also have "\<dots> = andThen (provisionPrekeys E ?b (vp_session_token v)) ?tail ?w3"
    using p by (simp add: setSession_def)
  finally have run: "completeRecovery E bundle None w = andThen (provisionPrekeys E ?b (vp_session_token v)) ?tail ?w3" .
  show ?thesis
  proof (cases rp)
    case (Inl e)
    then have "r = Inl e" "w' = w4" using run pr assms(3) by auto
    then show ?thesis using Inr q(1) d by (auto intro!: exI [where x = rot])
  next
    case rp: (Inr x)
    then have w': "w' = w4\<lparr>tick := t5, idb := d5, auth := (auth w4)\<lparr>au_authenticated := True, au_userId := Some (b_userId bundle)\<rparr>\<rparr>"
      using run pr assms(3) f(1) by (auto simp: setAuthenticated_def)
    have "loadProgress w' = (Inr \<lparr>pr_step = ''done'', pr_userId = Some (b_userId bundle)\<rparr>, w')"
      using f(3) by (auto simp: loadProgress_def w')
    then show ?thesis using Inr rp q d f(2) by (auto simp: w' intro!: exI [where x = rot])
  qed
qed

section \<open>The seed phrase brings the same identity back\<close>

text \<open>What a user may type for a phrase: its words in order, each followed by some white space.\<close>

definition typedWords :: "(string \<times> string) list \<Rightarrow> string" where
  "typedWords ws = concat (map (\<lambda>(word, gap). word @ gap) ws)"

fun joinWords :: "string list \<Rightarrow> string" where
  "joinWords [] = []"
| "joinWords [x] = x"
| "joinWords (x # y # xs) = x @ '' '' @ joinWords (y # xs)"

definition isWord :: "string \<Rightarrow> bool" where
  "isWord x \<longleftrightarrow> x \<noteq> [] \<and> (\<forall>c \<in> set x. \<not> is_space c)"

lemma collapse_word: "\<forall>c \<in> set x. \<not> is_space c \<Longrightarrow> collapseSpaces (x @ s) = x @ collapseSpaces s"
  by (induction x) auto

lemma collapse_gap:
  "g \<noteq> [] \<Longrightarrow> \<forall>c \<in> set g. is_space c \<Longrightarrow> s = [] \<or> \<not> is_space (hd s) \<Longrightarrow> collapseSpaces (g @ s) = CHR '' '' # collapseSpaces s"
  by (cases g) (auto simp: dropWhile_append, metis dropWhile.simps(2) list.exhaust_sel dropWhile_eq_Nil_conv dropWhile_eq_self_iff)

lemma typed_hd:
  assumes "\<forall>(x, g) \<in> set ws. isWord x" "isWord l"
  shows "typedWords ws @ l \<noteq> [] \<and> \<not> is_space (hd (typedWords ws @ l))"
proof (cases ws)
  case Nil
  then show ?thesis using assms(2) by (cases l) (auto simp: typedWords_def isWord_def)
next
  case (Cons q qs)
  then have "isWord (fst q)" using assms(1) by auto
  then show ?thesis using Cons by (cases q; cases "fst q") (auto simp: typedWords_def isWord_def)
qed

definition gapsOk :: "(string \<times> string) list \<Rightarrow> bool" where
  "gapsOk ws \<longleftrightarrow> (\<forall>(x, g) \<in> set ws. isWord x \<and> g \<noteq> [] \<and> (\<forall>c \<in> set g. is_space c))"

lemma collapse_typed:
  assumes "gapsOk ws" "isWord l"
  shows "collapseSpaces (typedWords ws @ l) = joinWords (map fst ws @ [l])"
  using assms(1)
proof (induction ws)
  case Nil
  then show ?case using collapse_word [of l "[]"] assms(2) by (simp add: typedWords_def isWord_def)
next
  case (Cons p ws)
  obtain x g where p: "p = (x, g)" by fastforce
  let ?s = "typedWords ws @ l"
  have "?s \<noteq> [] \<and> \<not> is_space (hd ?s)"
    using Cons.prems assms(2) by (intro typed_hd) (auto simp: gapsOk_def)
  then have "collapseSpaces (x @ g @ ?s) = x @ '' '' @ collapseSpaces ?s"
    using Cons.prems p by (simp add: collapse_word collapse_gap isWord_def gapsOk_def)
  moreover have "typedWords (p # ws) @ l = x @ g @ ?s" by (simp add: typedWords_def p)
  ultimately show ?case using Cons p by (cases "map fst ws @ [l]") (auto simp: gapsOk_def)
qed

lemma trim_spaces:
  assumes "\<forall>c \<in> set a. is_space c" "\<forall>c \<in> set b. is_space c" "s \<noteq> []" "\<not> is_space (hd s)" "\<not> is_space (last s)"
  shows "trim (a @ s @ b) = s"
proof -
  have "dropWhile is_space (a @ s @ b) = s @ b" using assms(1,3,4) by (simp add: dropWhile_append, cases s, auto)
  moreover have "dropWhile is_space (rev b @ rev s) = rev s"
    using assms(2,3,5) by (simp add: dropWhile_append, cases s rule: rev_cases, auto)
  ultimately show ?thesis by (simp add: trim_def)
qed

lemma phrase_normalised:
  assumes "gapsOk ws" "isWord l" "\<forall>c \<in> set lead. is_space c" "\<forall>c \<in> set trail. is_space c"
  shows "collapseSpaces (trim (lead @ typedWords ws @ l @ trail)) = joinWords (map fst ws @ [l])"
proof -
  have "typedWords ws @ l \<noteq> [] \<and> \<not> is_space (hd (typedWords ws @ l))"
    using assms(1,2) by (intro typed_hd) (auto simp: gapsOk_def)
  moreover have "\<not> is_space (last (typedWords ws @ l))" using assms(2) by (auto simp: isWord_def)
  ultimately have "trim (lead @ (typedWords ws @ l) @ trail) = typedWords ws @ l" using assms(3,4) by (intro trim_spaces) auto
  then show ?thesis using collapse_typed [OF assms(1,2)] by simp
qed

text \<open>Generating prekeys and signing do not fail.\<close>

definition keygen_total :: "wasmModule \<Rightarrow> bool" where
  "keygen_total W \<longleftrightarrow> (\<forall>t i. \<exists>kp. w_generate_x25519_prekey W t i = Inr kp) \<and>
     (\<forall>t m e d. \<exists>sg. w_sign_hybrid W t m e d = Inr sg)"

lemma mapE_total: "(\<And>x. \<exists>y. f x = Inr y) \<Longrightarrow> \<exists>ys. mapE f xs = Inr ys"
proof (induction xs)
  case (Cons x xs)
  obtain y ys where "f x = Inr y" "mapE f xs = Inr ys" using Cons by blast
  then show ?case by simp
qed simp

lemma makeOpk_total: "keygen_total W \<Longrightarrow> \<exists>k. makeOpk W t s j i = Inr k"
  unfolding makeOpk_def keygen_total_def by (metis bindE_simps(2))

lemma bundleFrom_again:
  assumes "keygen_total W" "bundleFrom W t m seed = Inr b"
  shows "\<exists>b'. bundleFrom W t' m' seed = Inr b' \<and> b_userId b' = b_userId b \<and> b_identity b' = b_identity b \<and>
    b_masterSeed b = seed \<and> b_masterSeed b' = seed \<and> b_mnemonic b = m"
proof -
  obtain ik u where i: "w_derive_keypairs_from_seed W seed = Inr ik" "w_user_id_from_ed25519 W (ed25519_pub ik) = Inr u"
    and b: "b_userId b = u" "b_identity b = ik" "b_masterSeed b = seed" "b_mnemonic b = m"
    using assms(2) by (auto simp: bundleFrom_def bindE_Inr)
  obtain spk where s: "w_generate_x25519_prekey W t' 0 = Inr spk" using assms(1) unfolding keygen_total_def by blast
  obtain sg where g: "w_sign_hybrid W t' (kp_pub spk) (ed25519_priv ik) (dilithium3_priv ik) = Inr sg"
    using assms(1) unfolding keygen_total_def by blast
  obtain opks where "mapE (makeOpk W t' 1 1) [0..<OPK_COUNT] = Inr opks" using mapE_total makeOpk_total [OF assms(1)] by metis
  then show ?thesis using i s g b by (auto simp: bundleFrom_def)
qed

lemma recoverWithSeed_same:
  assumes "keygen_total (wasm E)" "genIdentityBundle (wasm E) t entropy = Inr b" "collapseSpaces (trim phrase) = b_mnemonic b"
  shows "\<exists>b'. b_userId b' = b_userId b \<and> b_identity b' = b_identity b \<and> b_masterSeed b' = b_masterSeed b \<and>
    recoverWithSeed E (workerRecoveryCrypto E) phrase w =
      andThen (completeRecovery E b' None) (ret (b_userId b)) (w\<lparr>tick := Suc (tick w)\<rparr>)"
proof -
  obtain m seed where g: "w_seed_phrase_to_master_seed (wasm E) m = Inr seed" "bundleFrom (wasm E) t m seed = Inr b"
    using assms(2) by (auto simp: genIdentityBundle_def bindE_Inr)
  from bundleFrom_again [OF assms(1) g(2), of "tick w" "[]"] obtain b' where
    b': "recoverBundleFromSeed (wasm E) (tick w) seed = Inr b'" "b_userId b' = b_userId b" "b_identity b' = b_identity b"
      "b_masterSeed b = seed" "b_masterSeed b' = seed" "b_mnemonic b = m" by (auto simp: recoverBundleFromSeed_def)
  then show ?thesis using g(1) assms(3) by (intro exI [where x = b']) (simp add: recoverWithSeed_def workerRecoveryCrypto_def)
qed

text \<open>The seed phrase brings the same account back: whoever types the words of the phrase
  an identity was generated with, in order and with whatever white space before, between and
  after them, goes on to recover with keys of the same user id, identity keys and master seed;
  only the prekeys are new.\<close>

theorem seed_phrase_recovers_identity:
  assumes "keygen_total (wasm E)" "genIdentityBundle (wasm E) t entropy = Inr b"
    "b_mnemonic b = joinWords (map fst ws @ [l])" "gapsOk ws" "isWord l"
    "\<forall>c \<in> set lead. is_space c" "\<forall>c \<in> set trail. is_space c"
  shows "\<exists>b'. b_userId b' = b_userId b \<and> b_identity b' = b_identity b \<and> b_masterSeed b' = b_masterSeed b \<and>
    recoverWithSeed E (workerRecoveryCrypto E) (lead @ typedWords ws @ l @ trail) w =
      andThen (completeRecovery E b' None) (ret (b_userId b)) (w\<lparr>tick := Suc (tick w)\<rparr>)"
proof -
  have "collapseSpaces (trim (lead @ typedWords ws @ l @ trail)) = b_mnemonic b"
    using phrase_normalised [OF assms(4-7)] assms(3) by simp
  then show ?thesis by (rule recoverWithSeed_same [OF assms(1,2)])
qed

section \<open>Two contacts are enough, one is not\<close>

text \<open>The shares a poll may use: those of earlier polls and those the posted blobs open to.\<close>

definition sharesSeen :: "ContactRecoveryCryptoApi \<Rightarrow> bytes \<Rightarrow> string list \<Rightarrow> (string \<times> bytes) list \<Rightarrow> bytes set" where
  "sharesSeen cr priv blobs collected = snd ` set collected \<union> {x. \<exists>h \<in> set blobs. unsealBlob cr h priv = Some x}"

text \<open>The map of collected shares: every share under its own hex text.\<close>

definition shareMap :: "(string \<times> bytes) list \<Rightarrow> bool" where
  "shareMap m \<longleftrightarrow> distinct (map fst m) \<and> (\<forall>(h, x) \<in> set m. h = toHex x)"

lemma collectShares_Cons:
  "collectShares cr priv (h # hs) m =
     collectShares cr priv hs (case unsealBlob cr h priv of None \<Rightarrow> m | Some x \<Rightarrow> mapSet (toHex x) x m)"
  by (simp add: collectShares_def)

lemma shareMap_mapSet: "shareMap m \<Longrightarrow> shareMap (mapSet (toHex x) x m) \<and> snd ` set (mapSet (toHex x) x m) = insert x (snd ` set m)"
proof (induction m)
  case (Cons p m)
  obtain k v where p: "p = (k, v)" by fastforce
  have "shareMap m" "k = toHex v" "k \<notin> fst ` set m" using Cons.prems by (auto simp: shareMap_def p)
  moreover have "toHex x = toHex v \<Longrightarrow> x = v" by (metis fromHex_toHex)
  ultimately show ?case using Cons fst_mapSet [of "toHex x" x m] by (auto simp: p shareMap_def)
qed (simp add: shareMap_def)

lemma collectShares_collects:
  "shareMap m \<Longrightarrow> shareMap (collectShares cr priv blobs m) \<and> snd ` set (collectShares cr priv blobs m) = sharesSeen cr priv blobs m"
proof (induction blobs arbitrary: m)
  case Nil
  then show ?case by (simp add: collectShares_def sharesSeen_def)
next
  case (Cons h hs)
  show ?case
  proof (cases "unsealBlob cr h priv")
    case None
    then show ?thesis using Cons by (simp add: collectShares_Cons sharesSeen_def)
  next
    case (Some x)
    then show ?thesis using Cons.IH shareMap_mapSet [OF Cons.prems, of x] by (auto simp: collectShares_Cons sharesSeen_def)
  qed
qed

lemma shareMap_distinct: "shareMap m \<Longrightarrow> distinct (map snd m)"
proof -
  assume m: "shareMap m"
  then have "map fst m = map toHex (map snd m)" by (auto simp: shareMap_def)
  then show ?thesis using m by (metis shareMap_def distinct_map)
qed

lemma pairsOf_distinct: "distinct xs \<Longrightarrow> (a, b) \<in> set (pairsOf xs) \<Longrightarrow> a \<noteq> b \<and> a \<in> set xs \<and> b \<in> set xs"
  by (induction xs) auto

lemma firstRight_all: "rs \<noteq> [] \<Longrightarrow> \<forall>r \<in> set rs. r = Inr s \<Longrightarrow> firstRight rs = Some s"
  by (cases rs) auto

lemma tryReconstruct_spec:
  assumes "distinct xs" "\<And>a b. a \<in> set xs \<Longrightarrow> b \<in> set xs \<Longrightarrow> a \<noteq> b \<Longrightarrow> cr_shamirReconstruct cr [a, b] = Inr s"
  shows "tryReconstruct cr xs = (if 2 \<le> length xs then Some s else None)"
proof (cases "2 \<le> length xs")
  case True
  then obtain x y zs where "xs = x # y # zs" by (cases xs; cases "tl xs") auto
  then have "pairsOf xs \<noteq> []" by simp
  then show ?thesis using True assms by (auto simp: tryReconstruct_def intro!: firstRight_all dest!: pairsOf_distinct [OF assms(1)])
next
  case False
  then show ?thesis by (cases xs; cases "tl xs") (auto simp: tryReconstruct_def)
qed

lemma unsealAndReconstruct_spec:
  assumes "shareMap collected" "sharesSeen cr priv blobs collected \<subseteq> set shares"
    "\<And>a b. a \<in> set shares \<Longrightarrow> b \<in> set shares \<Longrightarrow> a \<noteq> b \<Longrightarrow> cr_shamirReconstruct cr [a, b] = Inr seed"
  shows "unsealAndReconstruct cr priv blobs collected =
    (if 2 \<le> card (sharesSeen cr priv blobs collected) then Some seed else None, collectShares cr priv blobs collected)"
proof -
  let ?m = "collectShares cr priv blobs collected"
  have m: "shareMap ?m" "snd ` set ?m = sharesSeen cr priv blobs collected" using collectShares_collects [OF assms(1)] by auto
  have d: "distinct (map snd ?m)" by (rule shareMap_distinct [OF m(1)])
  have "length (map snd ?m) = card (sharesSeen cr priv blobs collected)"
    using distinct_card [OF d] m(2) by simp
  moreover have "tryReconstruct cr (map snd ?m) = (if 2 \<le> length (map snd ?m) then Some seed else None)"
    using assms(2) m(2) by (intro tryReconstruct_spec [OF d] assms(3)) auto
  ultimately show ?thesis by (simp add: unsealAndReconstruct_def Let_def)
qed

lemma run_onDevice: "m w = (r, w') \<Longrightarrow> onDevice m (c, w) = (r, (c, w'))"
  by (simp add: onDevice_def)

lemma onDevice_await: "onDevice (await a f) = await (onDevice a) (\<lambda>x. onDevice (f x))"
  by (rule ext) (auto simp: onDevice_def await_def split: prod.splits sum.splits)

lemma onDevice_andThen: "onDevice (andThen a (ret x)) = andThen (onDevice a) (ret x)"
  by (rule ext) (auto simp: onDevice_def andThen_def await_def ret_def split: prod.splits sum.splits)

text \<open>Two contacts are enough and one is not: as long as everything that opens under the
  recovery key is a share of the split seed, a poll that has seen two different shares, in the
  bucket now or in an earlier poll, goes on to recover the account of that seed; with fewer, no
  matter how often one contact posted its share and what else lies in the bucket, it reports
  that there is nothing yet and remembers the share.\<close>

theorem two_contacts_recover:
  assumes "rendezvousPoll E (rc_recoveryId session) w = (Inr blobs, w1)" "shareMap collected"
    "sharesSeen cr (kp_priv (rc_rk session)) blobs collected \<subseteq> set shares"
    "\<And>a b. a \<in> set shares \<Longrightarrow> b \<in> set shares \<Longrightarrow> a \<noteq> b \<Longrightarrow> cr_shamirReconstruct cr [a, b] = Inr seed"
  shows "\<exists>m. shareMap m \<and> snd ` set m = sharesSeen cr (kp_priv (rc_rk session)) blobs collected \<and>
    pollContactRecovery E cr session (collected, w) =
      (if 2 \<le> card (sharesSeen cr (kp_priv (rc_rk session)) blobs collected)
       then onDevice (await (ext (\<lambda>t. cr_recoverBundleFromSeed cr t seed)) (\<lambda>b.
              andThen (completeRecovery E b None) (ret (Some (b_userId b), length blobs)))) (m, w1)
       else (Inr (None, length blobs), (m, w1)))"
proof -
  let ?m = "collectShares cr (kp_priv (rc_rk session)) blobs collected"
  note spec = unsealAndReconstruct_spec [OF assms(2-4)]
  show ?thesis
    using collectShares_collects [OF assms(2), of cr "kp_priv (rc_rk session)" blobs] assms(1)
    by (intro exI [where x = ?m]) (simp add: pollContactRecovery_def run_onDevice spec onDevice_await onDevice_andThen)
qed

section \<open>From the owner's seed to the contacts and back\<close>

text \<open>What the code relies on of the sealing of a short secret to an X25519 key: a blob sealed to
  contact \<open>i\<close> has a 32-byte ephemeral key and a non-empty body, and opens with that contact's
  private key and with no other contact's.\<close>

definition sealsApart :: "(nat \<Rightarrow> bytes \<Rightarrow> bytes \<Rightarrow> error + WrappedCek) \<Rightarrow> ContactRecoveryCryptoApi \<Rightarrow> bytes list \<Rightarrow> bytes list \<Rightarrow> bool" where
  "sealsApart wrap cr pubs privs \<longleftrightarrow>
     (\<forall>t x i w. i < length pubs \<and> wrap t x (pubs ! i) = Inr w \<longrightarrow>
        length (wc_ephPub w) = RK_PUB_LEN \<and> wc_wrapped w \<noteq> [] \<and>
        cr_unwrapCek cr (wc_wrapped w) (wc_ephPub w) (privs ! i) = Inr x \<and>
        (\<forall>j < length pubs. j \<noteq> i \<longrightarrow> (\<exists>e. cr_unwrapCek cr (wc_wrapped w) (wc_ephPub w) (privs ! j) = Inl e)))"

lemma unseal_shareBlob:
  assumes "length (wc_ephPub w) = RK_PUB_LEN" "wc_wrapped w \<noteq> []"
  shows "unsealBlob cr (shareBlob w) priv =
    (case cr_unwrapCek cr (wc_wrapped w) (wc_ephPub w) priv of Inl _ \<Rightarrow> None | Inr x \<Rightarrow> Some x)"
  using assms by (simp add: unsealBlob_def shareBlob_def Let_def)

lemma unseal_sealed:
  assumes "sealsApart wrap cr pubs privs" "i < length pubs" "j < length pubs" "wrap t x (pubs ! i) = Inr w"
  shows "unsealBlob cr (shareBlob w) (privs ! j) = (if i = j then Some x else None)"
proof -
  have *: "length (wc_ephPub w) = RK_PUB_LEN" "wc_wrapped w \<noteq> []" "cr_unwrapCek cr (wc_wrapped w) (wc_ephPub w) (privs ! i) = Inr x"
    "j \<noteq> i \<longrightarrow> (\<exists>e. cr_unwrapCek cr (wc_wrapped w) (wc_ephPub w) (privs ! j) = Inl e)"
    using assms unfolding sealsApart_def by blast+
  show ?thesis unfolding unseal_shareBlob [OF *(1,2)] using *(3,4) by auto
qed

text \<open>The blobs the owner uploads, in the order of the contacts.\<close>

lemma sealShares_run:
  assumes "sealShares fc n cs shares w = (Inr wire, w')"
  shows "length wire = length cs \<and> length cs \<le> length shares \<and>
    (\<forall>i < length cs. \<exists>t v. fc_wrapCek fc t (shares ! i) (pc_ik_x25519 (cs ! i)) = Inr v \<and> wire ! i = (n + int i, shareBlob v))"
  using assms
proof (induction fc n cs shares arbitrary: w wire rule: sealShares.induct)
  case (3 fc n c cs s shares)
  from "3.prems" obtain v rest where v: "fc_wrapCek fc (tick w) s (pc_ik_x25519 c) = Inr v" and wire: "wire = (n, shareBlob v) # rest"
    and r: "sealShares fc (n + 1) cs shares (w\<lparr>tick := Suc (tick w)\<rparr>) = (Inr rest, w')"
    by (auto elim!: await_Inr_cases)
  have i: "\<exists>t u. fc_wrapCek fc t ((s # shares) ! i) (pc_ik_x25519 ((c # cs) ! i)) = Inr u \<and> wire ! i = (n + int i, shareBlob u)"
    if "i < length (c # cs)" for i
    using that v "3.IH" [OF r] wire by (cases i) (auto simp: algebra_simps)
  then show ?case using "3.IH" [OF r] wire by auto
qed auto

lemma firstShare_nth:
  assumes "i < length wire" "unsealBlob cr (snd (wire ! i)) priv = Some x" "\<And>j. j < i \<Longrightarrow> unsealBlob cr (snd (wire ! j)) priv = None"
  shows "firstShare cr priv wire = Some x"
  using assms
proof (induction wire arbitrary: i)
  case (Cons s ss)
  show ?case
  proof (cases i)
    case (Suc k)
    have "unsealBlob cr (snd s) priv = None" using Cons.prems(3) [of 0] Suc by simp
    moreover have "unsealBlob cr (snd (ss ! j)) priv = None" if "j < k" for j
      using Cons.prems(3) [of "Suc j"] Suc that by simp
    then have "firstShare cr priv ss = Some x"
      using Cons.prems(1,2) Suc by (intro Cons.IH [of k]) auto
    ultimately show ?thesis by simp
  qed (use Cons.prems in simp)
qed simp

text \<open>C30. Any two chosen contacts can bring the seed back. Take the blobs the owner uploaded when
  it chose its contacts: each contact finds its own share among them, and once two different
  contacts have sealed the shares they found to the recovery key and posted them, the owner's
  next poll reconstructs the seed, whatever else that does not open lies in the bucket.\<close>

theorem emergency_contacts_return_seed:
  assumes "sealShares fc 1 cs shares w = (Inr wire, w')"
    and "sealsApart (fc_wrapCek fc) cr (map pc_ik_x25519 cs) privs"
    and "sealsApart (cr_wrapCek cr) cr [kp_pub rk] [kp_priv rk]"
    and "\<And>a b. a \<in> set shares \<Longrightarrow> b \<in> set shares \<Longrightarrow> a \<noteq> b \<Longrightarrow> cr_shamirReconstruct cr [a, b] = Inr seed"
    and "distinct shares" "i < length cs" "j < length cs" "i \<noteq> j"
    and "cr_wrapCek cr t (the (firstShare cr (privs ! i) wire)) (kp_pub rk) = Inr wi"
    and "cr_wrapCek cr t' (the (firstShare cr (privs ! j) wire)) (kp_pub rk) = Inr wj"
    and "{shareBlob wi, shareBlob wj} \<subseteq> set blobs"
    and "\<And>h. h \<in> set blobs \<Longrightarrow> h \<notin> {shareBlob wi, shareBlob wj} \<Longrightarrow> unsealBlob cr h (kp_priv rk) = None"
  shows "firstShare cr (privs ! i) wire = Some (shares ! i) \<and> firstShare cr (privs ! j) wire = Some (shares ! j) \<and>
    fst (unsealAndReconstruct cr (kp_priv rk) blobs []) = Some seed"
proof -
  note run = sealShares_run [OF assms(1)]
  have found: "firstShare cr (privs ! m) wire = Some (shares ! m)" if "m < length cs" for m
  proof (rule firstShare_nth)
    show "m < length wire" using run that by simp
    have "unsealBlob cr (snd (wire ! l)) (privs ! m) = (if l = m then Some (shares ! l) else None)" if "l < length cs" for l
      using run that \<open>m < length cs\<close> unseal_sealed [OF assms(2), of l m] by fastforce
    then show "unsealBlob cr (snd (wire ! m)) (privs ! m) = Some (shares ! m)"
      and "\<And>l. l < m \<Longrightarrow> unsealBlob cr (snd (wire ! l)) (privs ! m) = None" using that by auto
  qed
  have opens: "unsealBlob cr (shareBlob wi) (kp_priv rk) = Some (shares ! i)" "unsealBlob cr (shareBlob wj) (kp_priv rk) = Some (shares ! j)"
    using unseal_sealed [OF assms(3), of 0 0] assms(9,10) found assms(6,7) by auto
  have seen: "sharesSeen cr (kp_priv rk) blobs [] = {shares ! i, shares ! j}"
    using opens assms(11,12) by (fastforce simp: sharesSeen_def)
  have ij: "shares ! i \<noteq> shares ! j" "shares ! i \<in> set shares" "shares ! j \<in> set shares"
    using run assms(5-8) by (auto simp: nth_eq_iff_index_eq)
  have "unsealAndReconstruct cr (kp_priv rk) blobs [] = (Some seed, collectShares cr (kp_priv rk) blobs [])"
    using unsealAndReconstruct_spec [of "[]" cr "kp_priv rk" blobs shares seed] assms(4) seen ij by (simp add: shareMap_def)
  then show ?thesis using found assms(6,7) by simp
qed

end
