(* ===== verification/Onboarding.thy ===== *)
theory Onboarding
  imports Recovery
begin

text \<open>
  Registration (\<^verbatim>\<open>onboarding/flow.ts\<close>): generate and store an identity, register its public
  keys, sign in, mark onboarding as done. The progress callback of the proof of work only draws.
\<close>

record CryptoApi =
  cy_genIdentity :: "nat \<Rightarrow> bytes \<Rightarrow> error + IdentityBundle"
  cy_solvePow :: solvePowFn
  cy_signChallenge :: "nat \<Rightarrow> bytes \<Rightarrow> string \<Rightarrow> int \<Rightarrow> bytes \<Rightarrow> bytes \<Rightarrow> error + HybridSig"

definition workerCrypto :: "env \<Rightarrow> CryptoApi" where
  "workerCrypto E = \<lparr>cy_genIdentity = genIdentityBundle (wasm E), cy_solvePow = solvePow (wasm E),
     cy_signChallenge = signChallenge (wasm E)\<rparr>"

definition generateIdentity :: "env \<Rightarrow> CryptoApi \<Rightarrow> string act" where
  "generateIdentity E cy =
     await (getRandomValues E 32) (\<lambda>entropy.
     await (ext (\<lambda>t. cy_genIdentity cy t entropy)) (\<lambda>bundle.
     await (nowSecs E) (\<lambda>now.
     await (nextSpkRotation E now) (\<lambda>rot.
     (let b = bundle\<lparr>b_spkRotateAfter := Some rot\<rparr> in
      andThen (persistGeneratedIdentity E b) (ret (b_userId b)))))))"

definition authenticate :: "env \<Rightarrow> CryptoApi \<Rightarrow> IdentityBundle \<Rightarrow> string act" where
  "authenticate E cy bundle =
     await (authChallenge E (b_userId bundle)) (\<lambda>challenge.
     await (nowSecs E) (\<lambda>ts.
     await (ext (\<lambda>t. cy_signChallenge cy t (fromHex challenge) (b_userId bundle) ts
                   (ed25519_priv (b_identity bundle)) (dilithium3_priv (b_identity bundle)))) (\<lambda>sig.
     await (authVerify E \<lparr>vr_user_id = b_userId bundle, vr_challenge = challenge, vr_sig_ed = toHex (sig_ed sig),
                          vr_sig_dil = toHex (sig_dil sig), vr_timestamp = ts\<rparr>) (\<lambda>res.
     ret (vp_session_token res)))))"

definition registerReq :: "IdentityBundle \<Rightarrow> PowChallenge \<Rightarrow> PowResult \<Rightarrow> RegisterReq" where
  "registerReq b chal pow =
     \<lparr>rg_user_id = b_userId b, rg_ik_ed25519_pub = toHex (ed25519_pub (b_identity b)),
      rg_ik_dilithium3_pub = toHex (dilithium3_pub (b_identity b)), rg_ik_x25519_pub = toHex (x25519_pub (b_identity b)),
      rg_spk_x25519_pub = toHex (kp_pub (b_spk b)), rg_spk_sig_ed = toHex (sig_ed (b_spkSig b)),
      rg_spk_sig_dil = toHex (sig_dil (b_spkSig b)), rg_kyber1024_pub = toHex (kyber1024_pub (b_identity b)),
      rg_opks = map (\<lambda>p. (pk_id p, toHex (pk_pub p))) (b_opks b),
      rg_pow = \<lparr>pw_challenge_id = ch_challenge_id chal, pw_nonce = pw_nonce_found pow, pw_solution_hash = toHex (pw_solutionHash pow)\<rparr>\<rparr>"

definition completeRegistration :: "env \<Rightarrow> CryptoApi \<Rightarrow> unit act" where
  "completeRegistration E cy =
     await (loadBundle E) (\<lambda>b. case b of None \<Rightarrow> throw (JsError ''no identity to register'') | Some bundle \<Rightarrow>
     await (powChallenge E) (\<lambda>chal.
     await (ext (\<lambda>t. cy_solvePow cy t (fromHex (ch_challenge chal)) (ch_difficulty chal) (ch_argon chal))) (\<lambda>pow.
     andThen (tryCatch (andThen (register E (registerReq bundle chal pow)) (ret ()))
                (\<lambda>e. if e = ApiError 409 then ret () else throw e)) (
     await (authenticate E cy bundle) (\<lambda>tok.
     andThen (saveProgress ''registered'' (Some (b_userId bundle))) (setSession tok (b_userId bundle)))))))"

definition finishOnboarding :: "env \<Rightarrow> CryptoApi \<Rightarrow> unit act" where
  "finishOnboarding E cy =
     await (loadBundle E) (\<lambda>b. case b of None \<Rightarrow> throw (JsError ''no identity to finalize'') | Some bundle \<Rightarrow>
     await (gets (\<lambda>w. au_sessionToken (auth w))) (\<lambda>t.
     andThen (if orElse t [] \<noteq> [] then ret ()
              else await (authenticate E cy bundle) (\<lambda>tok. setSession tok (b_userId bundle))) (
     andThen (finalizeIdentity E bundle) (setAuthenticated (b_userId bundle)))))"

section \<open>The identity survives a resumed onboarding\<close>

text \<open>The bundle \<open>b\<close> is stored under the key \<open>k\<close>, and the progress names it.\<close>

definition holds :: "env \<Rightarrow> cryptoKey \<Rightarrow> IdentityBundle \<Rightarrow> world \<Rightarrow> bool" where
  "holds E k b w \<longleftrightarrow> keyOf w = Some k \<and> storedBundle E k (idb w) (b_userId b) = Some b \<and>
     (\<exists>step. map_option st_value (tget (settings_tbl (idb w)) PROGRESS_KEY) =
        Some (JObj [(''step'', JStr step), (''userId'', JStr (b_userId b))]))"

lemma load_holds:
  assumes "holds E k b w" "b_userId b \<noteq> []"
  shows "loadBundle E w = (Inr (Some b), w)"
proof -
  obtain step where "loadProgress w = (Inr \<lparr>pr_step = step, pr_userId = Some (b_userId b)\<rparr>, w)"
    using assms(1) by (auto simp: holds_def loadProgress_def)
  then show ?thesis
    using assms getMasterKey_keyOf [of w k E]
    by (auto simp: loadBundle_def holds_def storedBundle_def run_aesDecrypt run_decryptString Option.bind_eq_Some_conv)
qed

definition keepsIdentity :: "env \<Rightarrow> cryptoKey \<Rightarrow> IdentityBundle \<Rightarrow> world \<Rightarrow> world \<Rightarrow> bool" where
  "keepsIdentity E k b w w' \<longleftrightarrow> (holds E k b w \<longrightarrow> holds E k b w')"

interpretation ki: step_relation "keepsIdentity E k b"
  by unfold_locales (auto simp: keepsIdentity_def)

lemma keeps_ki_ot: "keeps onlyTalks m \<Longrightarrow> keeps (keepsIdentity E k b) m"
  by (erule keeps_mono) (simp add: onlyTalks_def keepsIdentity_def holds_def keyOf_def)

lemma keeps_ot_authenticate': "keeps onlyTalks (authenticate E cy b)"
  unfolding authenticate_def authChallenge_def authVerify_def
  by (intro ot.keeps_rules keeps_ot_post keeps_ot_field keeps_ot_ext)

lemma keeps_ot_register: "keeps onlyTalks (register E q)" "keeps onlyTalks (powChallenge E)"
  unfolding register_def powChallenge_def boolField_def
  by (intro ot.keeps_rules keeps_ot_post keeps_ot_field)+

lemma keeps_ki_session: "keeps (keepsIdentity E k b) (setSession t u)" "keeps (keepsIdentity E k b) (setAuthenticated u)"
  by (rule keepsI, simp add: setSession_def setAuthenticated_def keepsIdentity_def holds_def keyOf_def)+

lemma keeps_ki_progress: "keeps (keepsIdentity E k b) (saveProgress step (Some (b_userId b)))"
  by (rule keepsI) (auto simp: saveProgress_def keepsIdentity_def holds_def keyOf_def storedBundle_def jopt_def)

lemma completeRegistration_keeps:
  assumes "holds E k b w" "b_userId b \<noteq> []" "completeRegistration E cy w = (r, w')"
  shows "holds E k b w'"
proof -
  have "stays (keepsIdentity E k b) (completeRegistration E cy) w"
    unfolding completeRegistration_def
    by (rule ki.stays_await, simp add: load_holds [OF assms(1,2)] stays_def ki.step_refl,
        simp add: load_holds [OF assms(1,2)], rule keeps_stays,
        intro ki.keeps_rules keeps_ki_progress keeps_ki_session
          keeps_ki_ot [OF keeps_ot_register(1)] keeps_ki_ot [OF keeps_ot_register(2)]
          keeps_ki_ot [OF keeps_ot_ext(1)] keeps_ki_ot [OF keeps_ot_authenticate'])
  then show ?thesis using assms(1,3) by (simp add: stays_def keepsIdentity_def)
qed

lemma finishOnboarding_run:
  assumes "aes_correct E" "holds E k b w" "b_userId b \<noteq> []" "normBundle b = b" "finishOnboarding E cy w = (r, w')"
  shows "holds E k b w' \<and> (r = Inr () \<longrightarrow>
    loadProgress w' = (Inr \<lparr>pr_step = ''done'', pr_userId = Some (b_userId b)\<rparr>, w') \<and>
    au_authenticated (auth w') \<and> au_userId (auth w') = Some (b_userId b))"
proof -
  let ?session = "if orElse (au_sessionToken (auth w)) [] \<noteq> [] then ret ()
              else await (authenticate E cy b) (\<lambda>tok. setSession tok (b_userId b))"
  have run: "finishOnboarding E cy w = andThen ?session (andThen (finalizeIdentity E b) (setAuthenticated (b_userId b))) w"
    by (simp add: finishOnboarding_def load_holds [OF assms(2,3)])
  obtain rs ws where s: "?session w = (rs, ws)" by fastforce
  have "keeps (keepsIdentity E k b) ?session"
    by (intro ki.keeps_rules keeps_ki_session keeps_ki_ot [OF keeps_ot_authenticate'])
  then have h: "holds E k b ws" using keepsD s assms(2) by (metis keepsIdentity_def)
  show ?thesis
  proof (cases rs)
    case (Inl e)
    then show ?thesis using run s h assms(5) by auto
  next
    case (Inr x)
    obtain t d where f: "finalizeIdentity E b ws = (Inr (), ws\<lparr>tick := t, idb := d\<rparr>)" "storedBundle E k d (b_userId b) = Some b"
      "map_option st_value (tget (settings_tbl d) PROGRESS_KEY) = Some (JObj [(''step'', JStr ''done''), (''userId'', JStr (b_userId b))])"
      using finalize_run [OF assms(1), of ws k b] h assms(4) by (auto simp: holds_def)
    have w': "r = Inr ()" "w' = ws\<lparr>tick := t, idb := d, auth := (auth ws)\<lparr>au_authenticated := True, au_userId := Some (b_userId b)\<rparr>\<rparr>"
      using run s Inr f(1) assms(5) by (auto simp: setAuthenticated_def)
    have "keyOf w' = Some k" using h by (simp add: w' holds_def keyOf_def)
    then show ?thesis using f(2,3) by (auto simp: w' holds_def loadProgress_def)
  qed
qed

text \<open>What may happen between generating an identity and entering the app, in any order and any
  number of times: an attempt to register, an attempt to finish, each with whatever outcome, and
  a reload of the page, which forgets the session.\<close>

inductive onboardingStep :: "env \<Rightarrow> CryptoApi \<Rightarrow> world \<Rightarrow> world \<Rightarrow> bool" for E cy where
  register: "completeRegistration E cy w = (r, w') \<Longrightarrow> onboardingStep E cy w w'"
| finish: "finishOnboarding E cy w = (r, w') \<Longrightarrow> onboardingStep E cy w w'"
| reload: "onboardingStep E cy w (w\<lparr>auth := \<lparr>au_authenticated = False, au_userId = None, au_sessionToken = None\<rparr>\<rparr>)"

lemma onboarding_holds:
  assumes "(onboardingStep E cy)\<^sup>*\<^sup>* w w'" "aes_correct E" "holds E k b w" "b_userId b \<noteq> []" "normBundle b = b"
  shows "holds E k b w'"
  using assms(1)
proof (induction rule: rtranclp_induct)
  case (step u v)
  from step.hyps(2) show ?case
  proof cases
    case register
    then show ?thesis using completeRegistration_keeps step.IH assms(4) by blast
  next
    case finish
    then show ?thesis using finishOnboarding_run [OF assms(2) step.IH assms(4,5)] by blast
  next
    case reload
    then show ?thesis using step.IH by (simp add: holds_def keyOf_def)
  qed
qed (rule assms(3))

lemma normBundle_idem [simp]: "normBundle (normBundle b) = normBundle b" "b_userId (normBundle b) = b_userId b"
  by (simp_all add: normBundle_def)

lemma generateIdentity_holds:
  assumes "aes_correct E" "keyOf w = Some k" "generateIdentity E cy w = (Inr u, w')"
  shows "\<exists>b. b_userId b = u \<and> normBundle b = b \<and> holds E k b w'"
proof -
  from assms(3) obtain b0 rot w1 where p: "andThen (persistGeneratedIdentity E (b0\<lparr>b_spkRotateAfter := Some rot\<rparr>)) (ret (b_userId b0)) w1 = (Inr u, w')"
    and w1: "keystore w1 = keystore w" "idb w1 = idb w"
    by (auto simp: generateIdentity_def nextSpkRotation_def Let_def elim!: await_Inr_cases)
  let ?b = "b0\<lparr>b_spkRotateAfter := Some rot\<rparr>"
  have k1: "keyOf w1 = Some k" using assms(2) w1 by (simp add: keyOf_def)
  from persist_run [OF assms(1) k1, of ?b] obtain t d where
    r: "persistGeneratedIdentity E ?b w1 = (Inr (), w1\<lparr>tick := t, idb := d\<rparr>)" "storedBundle E k d (b_userId ?b) = Some (normBundle ?b)"
    by blast
  have u: "u = b_userId ?b" "w' = w1\<lparr>tick := t, idb := d\<rparr>" using p r(1) by auto
  have d: "d = idb (snd (persistGeneratedIdentity E ?b w1))" using r(1) by simp
  have "map_option st_value (tget (settings_tbl d) PROGRESS_KEY) = Some (JObj [(''step'', JStr ''keys''), (''userId'', JStr u)])"
    unfolding d using u getMasterKey_keyOf [OF k1, of E]
    by (simp add: persistGeneratedIdentity_def run_writeBundle saveProgress_def jopt_def)
  then have "holds E k (normBundle ?b) w'" using r(2) u k1 by (auto simp: holds_def keyOf_def)
  then show ?thesis using u(1) by (intro exI [where x = "normBundle ?b"]) simp
qed

text \<open>C10. Onboarding resumes with the identity it generated. After an identity was generated and
  stored, no sequence of registration attempts, attempts to finish and page reloads, successful or
  not, loses or replaces it; and when an attempt to finish succeeds, the user is signed in under
  that identity's id, onboarding counts as done, and the identity is still the one that loads.\<close>

theorem onboarding_resumes_identity:
  assumes "aes_correct E" "keyOf w = Some k" "generateIdentity E cy w = (Inr u, w1)" "u \<noteq> []"
    and "(onboardingStep E cy)\<^sup>*\<^sup>* w1 w2"
  shows "\<exists>b. b_userId b = u \<and> loadBundle E w1 = (Inr (Some b), w1) \<and> loadBundle E w2 = (Inr (Some b), w2) \<and>
    (\<forall>w3. finishOnboarding E cy w2 = (Inr (), w3) \<longrightarrow>
       loadBundle E w3 = (Inr (Some b), w3) \<and> loadProgress w3 = (Inr \<lparr>pr_step = ''done'', pr_userId = Some u\<rparr>, w3) \<and>
       au_authenticated (auth w3) \<and> au_userId (auth w3) = Some u)"
proof -
  obtain b where b: "b_userId b = u" "normBundle b = b" "holds E k b w1" using generateIdentity_holds [OF assms(1-3)] by blast
  have u: "b_userId b \<noteq> []" using b(1) assms(4) by simp
  have h2: "holds E k b w2" by (rule onboarding_holds [OF assms(5,1) b(3) u b(2)])
  show ?thesis
  proof (intro exI [where x = b] conjI allI impI)
    fix w3 assume f: "finishOnboarding E cy w2 = (Inr (), w3)"
    note r = finishOnboarding_run [OF assms(1) h2 u b(2) f]
    show "loadBundle E w3 = (Inr (Some b), w3)" using r load_holds [OF _ u] by blast
    show "loadProgress w3 = (Inr \<lparr>pr_step = ''done'', pr_userId = Some u\<rparr>, w3)" "au_authenticated (auth w3)" "au_userId (auth w3) = Some u"
      using r b(1) by simp_all
  qed (use b h2 load_holds [OF _ u] in auto)
qed

end
