(* ===== verification/SeedWords.thy ===== *)
theory SeedWords
  imports Recovery
begin

text \<open>
  The recovery phrase as text: the file that is saved and the reader of pasted or opened text
  (\<^verbatim>\<open>services/seed-file.ts\<close>), and the quiz on the phrase (\<^verbatim>\<open>onboarding/seed-confirm.ts\<close>).
  The Unicode normalisation of \<^verbatim>\<open>String.prototype.normalize\<close> is an argument; the properties
  only use its result. Saving the file is the browser's business.
\<close>

section \<open>The file\<close>

definition SEED_FILE_NAME :: string where "SEED_FILE_NAME = ''privex-recovery-phrase.txt''"

abbreviation newline :: string where
  "newline \<equiv> [char_of (10 :: nat)]"

definition seedHead :: "string list" where
  "seedHead =
     [''PRIVEX RECOVERY PHRASE'', [],
      ''Anyone who has these words can take over your Privex account.'',
      ''Safest: print this or copy it onto paper, keep that somewhere safe, and delete this file.'',
      ''Never keep it in cloud-synced folders, email, chats or screenshots.'',
      ''Privex will never ask you for these words.'', []]"

definition seedTail :: "string list" where
  "seedTail =
     [[], ''To recover: open Privex, choose Recover your account, then Seed phrase,'',
      ''and open this file or paste the words.'', []]"

definition wordLine :: "nat \<Rightarrow> string \<Rightarrow> string" where
  "wordLine i x = showNat (i + 1) @ ''. '' @ x"

fun joinLines :: "string list \<Rightarrow> string" where
  "joinLines [] = []"
| "joinLines [x] = x"
| "joinLines (x # y # xs) = x @ newline @ joinLines (y # xs)"

definition seedFileText :: "string list \<Rightarrow> string" where
  "seedFileText ws = joinLines (seedHead @ map (\<lambda>i. wordLine i (ws ! i)) [0..<length ws] @ seedTail)"

section \<open>Reading words\<close>

definition isLetter :: "char \<Rightarrow> bool" where
  "isLetter c \<longleftrightarrow> 97 \<le> code c \<and> code c \<le> 122"

text \<open>The matches of \<open>/\d+|[a-z]+/g\<close>.\<close>

function tokens :: "string \<Rightarrow> string list" where
  "tokens [] = []"
| "tokens (c # cs) =
     (if isDigit c then (c # takeWhile isDigit cs) # tokens (dropWhile isDigit cs)
      else if isLetter c then (c # takeWhile isLetter cs) # tokens (dropWhile isLetter cs)
      else tokens cs)"
  by pat_completeness auto
termination
  by (relation "measure length") (auto simp: le_imp_less_Suc length_dropWhile_le)

definition isWordToken :: "string \<Rightarrow> bool" where
  "isWordToken t \<longleftrightarrow> t \<noteq> [] \<and> isLetter (hd t)"

text \<open>The loop over adjacent tokens; \<open>numbered\<close> is an array with holes, \<open>None\<close> a conflict.\<close>

fun numberPairs :: "string list \<Rightarrow> (nat \<rightharpoonup> string) \<Rightarrow> (nat \<rightharpoonup> string) option" where
  "numberPairs (t # x # ts) m =
     (let n = digitsVal t in
      if isWordToken t \<or> \<not> isWordToken x \<or> n < 1 \<or> 24 < n then numberPairs (x # ts) m
      else if m (nat n - 1) \<noteq> None \<and> m (nat n - 1) \<noteq> Some x then None
      else numberPairs (x # ts) (m(nat n - 1 \<mapsto> x)))"
| "numberPairs ts m = Some m"

definition parseSeedText :: "(string \<Rightarrow> string) \<Rightarrow> string \<Rightarrow> string list" where
  "parseSeedText nfkd txt0 =
     (let ts = tokens (toLower (nfkd txt0)) in
      case numberPairs ts Map.empty of None \<Rightarrow> []
      | Some numbered \<Rightarrow>
          (let byNumber = List.map_filter numbered [0..<24] in
           if 12 \<le> length byNumber then byNumber else filter isWordToken ts))"

section \<open>The quiz\<close>

text \<open>The set of positions, in the order of insertion; \<open>k\<close> counts the draws. Without enough fuel,
  \<open>None\<close>: the source's loop draws until it has enough different positions.\<close>

definition drawn :: "(nat \<Rightarrow> real) \<Rightarrow> nat \<Rightarrow> nat \<Rightarrow> nat" where
  "drawn rng wordCount k = nat \<lfloor>rng k * real wordCount\<rfloor> + 1"

fun pickLoop :: "nat \<Rightarrow> (nat \<Rightarrow> real) \<Rightarrow> nat \<Rightarrow> nat \<Rightarrow> nat \<Rightarrow> nat list \<Rightarrow> nat list option" where
  "pickLoop 0 rng wordCount count k idxs = None"
| "pickLoop (Suc fuel) rng wordCount count k idxs =
     (if length idxs < count \<and> length idxs < wordCount
      then pickLoop fuel rng wordCount count (Suc k)
             (if drawn rng wordCount k \<in> set idxs then idxs else idxs @ [drawn rng wordCount k])
      else Some idxs)"

definition pickConfirmIndices :: "nat \<Rightarrow> nat \<Rightarrow> nat \<Rightarrow> (nat \<Rightarrow> real) \<Rightarrow> nat list option" where
  "pickConfirmIndices fuel wordCount count rng = map_option sort (pickLoop fuel rng wordCount count 0 [])"

text \<open>\<open>split(/\s+/)\<close>\<close>

function splitSpaces :: "string \<Rightarrow> string list" where
  "splitSpaces s =
     (let r = dropWhile (\<lambda>c. \<not> is_space c) s in
      if r = [] then [s] else takeWhile (\<lambda>c. \<not> is_space c) s # splitSpaces (dropWhile is_space r))"
  by pat_completeness auto
termination
proof (relation "measure length", simp, goal_cases)
  case (1 s)
  then obtain c cs where r: "dropWhile (\<lambda>c. \<not> is_space c) s = c # cs" "is_space c"
    by (metis dropWhile_eq_Cons_conv list.exhaust)
  have "length (dropWhile is_space (c # cs)) \<le> length cs" using r(2) by (simp add: length_dropWhile_le)
  also have "length cs < length s" using length_dropWhile_le [of "\<lambda>c. \<not> is_space c" s] r(1) by simp
  finally show ?case using r(1) 1 by simp
qed

declare splitSpaces.simps [simp del]

definition checkConfirm :: "string \<Rightarrow> nat list \<Rightarrow> string list \<Rightarrow> bool" where
  "checkConfirm mnemonic indices answers =
     (let ws = splitSpaces (trim mnemonic) in
      list_all (\<lambda>i. let pos = indices ! i;
                    expected = (if 1 \<le> pos \<and> pos \<le> length ws then Some (ws ! (pos - 1)) else None);
                    given = toLower (trim (if i < length answers then answers ! i else []))
                in given \<noteq> [] \<and> expected = Some given)
        [0..<length indices])"

section \<open>A numbered list is read by number\<close>

definition noise :: "string \<Rightarrow> bool" where
  "noise s \<longleftrightarrow> (\<forall>c \<in> set s. \<not> isDigit c \<and> \<not> isLetter c)"

lemma digit_not_letter: "isDigit c \<Longrightarrow> \<not> isLetter c"
  by (simp add: isDigit_def isLetter_def)

lemma tokens_noise: "noise s \<Longrightarrow> tokens (s @ r) = tokens r"
  by (induction s) (auto simp: noise_def)

lemma take_drop_stop:
  assumes "\<forall>c \<in> set s. P c" "r = [] \<or> \<not> P (hd r)"
  shows "takeWhile P (s @ r) = s" "dropWhile P (s @ r) = r"
  using assms by (cases r; simp add: takeWhile_append dropWhile_append)+

lemma tokens_number: "r = [] \<or> \<not> isDigit (hd r) \<Longrightarrow> tokens (showNat n @ r) = showNat n # tokens r"
proof -
  assume r: "r = [] \<or> \<not> isDigit (hd r)"
  obtain c cs where n: "showNat n = c # cs" by (cases "showNat n") simp_all
  then have "isDigit c" "\<forall>c \<in> set cs. isDigit c" using showNat_digits [of _ n] by auto
  then show ?thesis using take_drop_stop [of cs isDigit r] r by (simp add: n)
qed

lemma tokens_word:
  assumes "x \<noteq> []" "\<forall>c \<in> set x. isLetter c" "r = [] \<or> \<not> isLetter (hd r)"
  shows "tokens (x @ r) = x # tokens r"
proof -
  obtain c cs where x: "x = c # cs" using assms(1) by (cases x) simp_all
  then have "\<not> isDigit c" using assms(2) digit_not_letter [of c] by auto
  then show ?thesis using take_drop_stop [of cs isLetter r] assms(2,3) by (simp add: x)
qed

lemma last_dropWhile: "x \<in> set xs \<Longrightarrow> \<not> P x \<Longrightarrow> last (dropWhile P xs) = last xs \<and> dropWhile P xs \<noteq> []"
  by (induction xs) auto

lemma tokens_append: "s = [] \<or> \<not> isDigit (last s) \<and> \<not> isLetter (last s) \<Longrightarrow> tokens (s @ r) = tokens s @ tokens r"
proof (induction s rule: tokens.induct)
  case (2 c cs)
  then have l: "\<not> isDigit (last (c # cs))" "\<not> isLetter (last (c # cs))" by auto
  have run: "takeWhile P (cs @ r) = takeWhile P cs \<and> dropWhile P (cs @ r) = dropWhile P cs @ r \<and>
      (dropWhile P cs = [] \<or> last (dropWhile P cs) = last (c # cs))" if "P c" "\<not> P (last (c # cs))" for P
  proof -
    have "cs \<noteq> []" "last cs \<in> set cs" "\<not> P (last cs)" using that by (auto split: if_splits)
    then show ?thesis using last_dropWhile [of "last cs" cs P] by (auto simp: takeWhile_append1 dropWhile_append1)
  qed
  show ?case
  proof (cases "isDigit c")
    case True
    then show ?thesis using run [of isDigit] l "2.IH"(1) by auto
  next
    case nd: False
    show ?thesis
    proof (cases "isLetter c")
      case True
      then show ?thesis using nd run [of isLetter] l "2.IH"(2) by auto
    next
      case False
      then show ?thesis using nd l "2.IH"(3) by (cases cs) auto
    qed
  qed
qed simp

lemma tokens_words: "\<forall>c \<in> set s. \<not> isDigit c \<Longrightarrow> t \<in> set (tokens s) \<Longrightarrow> isWordToken t"
proof (induction s rule: tokens.induct)
  case (2 c cs)
  then show ?case using set_dropWhileD [of _ isLetter cs] by (fastforce simp: isWordToken_def split: if_splits)
qed simp

definition isSeedWord :: "string \<Rightarrow> bool" where
  "isSeedWord x \<longleftrightarrow> x \<noteq> [] \<and> (\<forall>c \<in> set x. isLetter c)"

text \<open>An item of a list: the number of word \<open>i\<close>, anything but digits and letters, the word, and
  again anything.\<close>

definition itemText :: "string list \<Rightarrow> nat \<times> string \<times> string \<Rightarrow> string" where
  "itemText ws = (\<lambda>(i, s1, s2). showNat (i + 1) @ s1 @ (ws ! i) @ s2)"

lemma hd_showNat: "isDigit (hd (showNat n @ r))" "\<not> isWordToken (showNat n)"
  using showNat_digits [of "hd (showNat n)" n] digit_not_letter by (auto simp: isWordToken_def)

lemma tokens_items:
  assumes "trail = [] \<or> \<not> isLetter (hd trail)" "\<forall>(i, s1, s2) \<in> set items. i < length ws \<and> noise s1 \<and> noise s2" "\<forall>x \<in> set ws. isSeedWord x"
  shows "tokens (concat (map (itemText ws) items) @ trail) = concat (map (\<lambda>p. [showNat (fst p + 1), ws ! fst p]) items) @ tokens trail"
  using assms(2)
proof (induction items)
  case (Cons p items)
  obtain i s1 s2 where p: "p = (i, s1, s2)" by (cases p) auto
  let ?rest = "concat (map (itemText ws) items) @ trail"
  have w: "isSeedWord (ws ! i)" and n: "noise s1" "noise s2" using Cons.prems assms(3) by (auto simp: p)
  have r: "?rest = [] \<or> \<not> isLetter (hd ?rest)"
  proof (cases items)
    case (Cons q qs)
    then have "isDigit (hd ?rest)" using hd_showNat(1) by (cases q) (simp add: itemText_def)
    then show ?thesis by (simp add: digit_not_letter)
  qed (use assms(1) in simp)
  have "s2 @ ?rest = [] \<or> \<not> isLetter (hd (s2 @ ?rest))" using r n(2) by (cases s2) (auto simp: noise_def)
  then have 1: "tokens ((ws ! i) @ s2 @ ?rest) = (ws ! i) # tokens ?rest"
    using w tokens_word tokens_noise [OF n(2)] by (simp add: isSeedWord_def)
  have "\<not> isDigit (hd (s1 @ (ws ! i) @ s2 @ ?rest))"
    using w n(1) digit_not_letter by (cases s1; cases "ws ! i") (auto simp: noise_def isSeedWord_def)
  then have "tokens (showNat (i + 1) @ s1 @ (ws ! i) @ s2 @ ?rest) = showNat (i + 1) # (ws ! i) # tokens ?rest"
    using tokens_number tokens_noise [OF n(1)] 1 by simp
  then show ?case using Cons by (simp add: p itemText_def)
qed simp

lemma numberPairs_words: "\<forall>t \<in> set ts. isWordToken t \<Longrightarrow> numberPairs (ts @ rest) m = numberPairs rest m"
proof (induction ts)
  case (Cons t ts)
  then show ?case by (cases "ts @ rest") (auto simp: Let_def)
qed simp

lemma seedWord_token: "isSeedWord x \<Longrightarrow> isWordToken x"
  by (auto simp: isSeedWord_def isWordToken_def)

lemma numberPairs_items:
  assumes "distinct is" "\<forall>i \<in> set is. i < 24 \<and> m i = None \<and> isSeedWord (ws ! i)" "\<forall>t \<in> set ts. isWordToken t"
  shows "numberPairs (concat (map (\<lambda>i. [showNat (i + 1), ws ! i]) is) @ ts) m = Some (\<lambda>j. if j \<in> set is then Some (ws ! j) else m j)"
  using assms(1,2)
proof (induction "is" arbitrary: m)
  case Nil
  then show ?case using numberPairs_words [OF assms(3), of "[]"] by simp
next
  case (Cons i "is")
  let ?r = "concat (map (\<lambda>i. [showNat (i + 1), ws ! i]) is) @ ts"
  have w: "isWordToken (ws ! i)" using Cons.prems seedWord_token by simp
  have "numberPairs (showNat (i + 1) # (ws ! i) # ?r) m = numberPairs ((ws ! i) # ?r) (m(i \<mapsto> ws ! i))"
    using Cons.prems(2) w hd_showNat(2) [of "i + 1"] by (simp add: digitsVal_showNat Let_def) (simp add: nat_add_distrib)
  also have "\<dots> = numberPairs ?r (m(i \<mapsto> ws ! i))" using numberPairs_words [of "[ws ! i]"] w by simp
  also have "\<dots> = Some (\<lambda>j. if j \<in> set is then Some (ws ! j) else (m(i \<mapsto> ws ! i)) j)"
    using Cons.prems by (intro Cons.IH) auto
  also have "(\<lambda>j. if j \<in> set is then Some (ws ! j) else (m(i \<mapsto> ws ! i)) j) = (\<lambda>j. if j \<in> set (i # is) then Some (ws ! j) else m j)"
    by (rule ext) auto
  finally show ?case by simp
qed

lemma map_filter_prefix:
  assumes "length ws \<le> k"
  shows "List.map_filter (\<lambda>j. if j < length ws then Some (ws ! j) else None) [0..<k] = ws"
proof -
  have "[0..<k] = [0..<length ws] @ [length ws..<k]" using assms by (metis le_add_diff_inverse upt_add_eq_append zero_le)
  then have "filter (\<lambda>j. j < length ws) [0..<k] = [0..<length ws]" by simp
  moreover have "List.map_filter (\<lambda>j. if j < length ws then Some (ws ! j) else None) [0..<k] = map (\<lambda>j. ws ! j) (filter (\<lambda>j. j < length ws) [0..<k])"
    by (simp add: List.map_filter_def o_def if_distrib cong: map_cong filter_cong)
  ultimately show ?thesis by (simp add: map_nth)
qed

lemma parse_items:
  assumes "toLower (nfkd txt0) = lead @ concat (map (itemText ws) items) @ trail"
    and "12 \<le> length ws" "length ws \<le> 24" "\<forall>x \<in> set ws. isSeedWord x"
    and "distinct (map fst items)" "set (map fst items) = {..<length ws}" "\<forall>(i, s1, s2) \<in> set items. noise s1 \<and> noise s2"
    and "\<forall>c \<in> set lead. \<not> isDigit c" "lead = [] \<or> \<not> isLetter (last lead)"
    and "\<forall>c \<in> set trail. \<not> isDigit c" "trail = [] \<or> \<not> isLetter (hd trail)"
  shows "parseSeedText nfkd txt0 = ws"
proof -
  have it: "\<forall>(i, s1, s2) \<in> set items. i < length ws \<and> noise s1 \<and> noise s2" using assms(6,7) by force
  have "tokens (lead @ concat (map (itemText ws) items) @ trail) = tokens lead @ tokens (concat (map (itemText ws) items) @ trail)"
    using assms(8,9) by (intro tokens_append) auto
  then have ts: "tokens (toLower (nfkd txt0)) = tokens lead @ concat (map (\<lambda>i. [showNat (i + 1), ws ! i]) (map fst items)) @ tokens trail"
    using tokens_items [OF assms(11) it assms(4)] assms(1) by (simp add: o_def)
  have "numberPairs (concat (map (\<lambda>i. [showNat (i + 1), ws ! i]) (map fst items)) @ tokens trail) Map.empty =
      Some (\<lambda>j. if j \<in> set (map fst items) then Some (ws ! j) else Map.empty j)"
    unfolding assms(6) [symmetric] using assms(3-6) tokens_words [OF assms(10)]
    by (intro numberPairs_items) auto
  then have "numberPairs (tokens (toLower (nfkd txt0))) Map.empty =
      Some (\<lambda>j. if j \<in> set (map fst items) then Some (ws ! j) else Map.empty j)"
    using numberPairs_words [of "tokens lead"] tokens_words [OF assms(8)] by (simp add: ts)
  then have "numberPairs (tokens (toLower (nfkd txt0))) Map.empty = Some (\<lambda>j. if j < length ws then Some (ws ! j) else None)"
    unfolding assms(6) by (simp only: lessThan_iff)
  then show ?thesis using map_filter_prefix [OF assms(3)] assms(2) by (simp add: parseSeedText_def Let_def)
qed

text \<open>A numbered list is read by number. Whatever order its items are in, whatever stands between
  a number, its word and the next number (nothing at all included), and whatever digit-free text
  stands around the list, in any case, the reader finds the 12 to 24 words in the order of their
  numbers.\<close>

theorem parseSeedText_reads_by_number:
  assumes "toLower (nfkd txt0) = lead @ concat (map (itemText ws) items) @ trail"
    and "12 \<le> length ws" "length ws \<le> 24" "\<forall>x \<in> set ws. isSeedWord x"
    and "distinct (map fst items)" "set (map fst items) = {..<length ws}" "\<forall>(i, s1, s2) \<in> set items. noise s1 \<and> noise s2"
    and "\<forall>c \<in> set lead. \<not> isDigit c" "lead = [] \<or> \<not> isLetter (last lead)"
    and "\<forall>c \<in> set trail. \<not> isDigit c" "trail = [] \<or> \<not> isLetter (hd trail)"
  shows "parseSeedText nfkd txt0 = ws"
  using assms by (rule parse_items)

text \<open>The saved file is such a list, so opening it gives the words back.\<close>

lemma joinLines_append: "xs \<noteq> [] \<Longrightarrow> ys \<noteq> [] \<Longrightarrow> joinLines (xs @ ys) = joinLines xs @ newline @ joinLines ys"
proof (induction xs rule: joinLines.induct)
  case (2 x)
  then show ?case by (cases ys) simp_all
qed auto

lemma joinLines_concat: "xs \<noteq> [] \<Longrightarrow> joinLines xs @ newline = concat (map (\<lambda>x. x @ newline) xs)"
  by (induction xs rule: joinLines.induct) auto

lemma toLower_append: "toLower (a @ b) = toLower a @ toLower b"
  by (simp add: toLower_def)

lemma toLower_same: "\<forall>c \<in> set s. isDigit c \<or> isLetter c \<or> noise [c] \<and> \<not> (65 \<le> code c \<and> code c \<le> 90) \<Longrightarrow> toLower s = s"
  by (induction s) (auto simp: toLower_def isDigit_def isLetter_def)

lemma seed_frame:
  "\<forall>c \<in> set (toLower (joinLines seedHead) @ newline). \<not> isDigit c" "\<forall>c \<in> set (toLower (joinLines seedTail)). \<not> isDigit c"
  "\<not> isLetter (hd (toLower (joinLines seedTail)))"
  by (simp_all add: seedHead_def seedTail_def toLower_def isDigit_def isLetter_def)

lemma seed_file_reads_back:
  assumes "nfkd (seedFileText ws) = seedFileText ws" "12 \<le> length ws" "length ws \<le> 24" "\<forall>x \<in> set ws. isSeedWord x"
  shows "parseSeedText nfkd (seedFileText ws) = ws"
proof -
  let ?items = "map (\<lambda>i. (i, ''. '', newline)) [0..<length ws]"
  let ?lines = "map (\<lambda>i. wordLine i (ws ! i)) [0..<length ws]"
  have lines: "?lines \<noteq> []" using assms(2) by auto
  have "seedFileText ws = joinLines seedHead @ newline @ joinLines (?lines @ seedTail)"
    unfolding seedFileText_def by (rule joinLines_append) (simp_all add: seedHead_def seedTail_def)
  also have "joinLines (?lines @ seedTail) = (joinLines ?lines @ newline) @ joinLines seedTail"
    using joinLines_append [OF lines, of seedTail] by (simp add: seedTail_def)
  also have "joinLines ?lines @ newline = concat (map (itemText ws) ?items)"
    unfolding joinLines_concat [OF lines] by (simp add: itemText_def wordLine_def o_def)
  finally have f: "seedFileText ws = joinLines seedHead @ newline @ concat (map (itemText ws) ?items) @ joinLines seedTail" by simp
  have "toLower (concat (map (itemText ws) ?items)) = concat (map (itemText ws) ?items)"
  proof (rule toLower_same, rule ballI)
    fix c assume "c \<in> set (concat (map (itemText ws) ?items))"
    then obtain i where i: "i < length ws" "c \<in> set (showNat (i + 1)) \<or> c \<in> set ''. '' \<or> c \<in> set (ws ! i) \<or> c \<in> set newline"
      by (fastforce simp: itemText_def split: if_splits)
    then show "isDigit c \<or> isLetter c \<or> noise [c] \<and> \<not> (65 \<le> code c \<and> code c \<le> 90)"
      using assms(4) showNat_digits by (auto simp: isSeedWord_def noise_def isDigit_def isLetter_def)
  qed
  then have "toLower (nfkd (seedFileText ws)) =
      (toLower (joinLines seedHead) @ newline) @ concat (map (itemText ws) ?items) @ toLower (joinLines seedTail)"
    unfolding assms(1) unfolding f toLower_append by (simp add: toLower_def [of newline] del: concat_map_singleton)
  then show ?thesis
    by (rule parse_items) (use assms(2-4) seed_frame in \<open>auto simp: noise_def isDigit_def isLetter_def o_def\<close>)
qed

section \<open>The quiz picks enough positions\<close>

definition hits :: "(nat \<Rightarrow> real) \<Rightarrow> nat \<Rightarrow> nat \<Rightarrow> nat \<Rightarrow> nat set" where
  "hits rng wordCount k n = drawn rng wordCount ` {k..<k + n}"

lemma drawn_range: "0 \<le> rng k \<Longrightarrow> rng k < 1 \<Longrightarrow> 0 < wordCount \<Longrightarrow> 1 \<le> drawn rng wordCount k \<and> drawn rng wordCount k \<le> wordCount"
proof -
  assume "0 \<le> rng k" "rng k < 1" "0 < wordCount"
  then have "rng k * real wordCount < 1 * real wordCount" by (intro mult_strict_right_mono) auto
  then have "\<lfloor>rng k * real wordCount\<rfloor> < int wordCount" by (simp add: floor_less_iff)
  then show ?thesis using \<open>0 < wordCount\<close> by (simp add: drawn_def Suc_le_eq)
qed

lemma pickLoop_ends:
  assumes "distinct idxs" "length idxs \<le> min count wordCount" "min count wordCount \<le> card (set idxs \<union> hits rng wordCount k fuel)"
  shows "\<exists>ps. pickLoop (Suc fuel) rng wordCount count k idxs = Some ps \<and> distinct ps \<and> length ps = min count wordCount \<and>
    set ps \<subseteq> set idxs \<union> hits rng wordCount k fuel"
  using assms
proof (induction fuel arbitrary: k idxs)
  case 0
  then have "min count wordCount \<le> length idxs" by (simp add: hits_def distinct_card)
  then show ?case using 0 by auto
next
  case (Suc fuel)
  let ?d = "drawn rng wordCount k"
  let ?idxs = "if ?d \<in> set idxs then idxs else idxs @ [?d]"
  have h: "hits rng wordCount k (Suc fuel) = insert ?d (hits rng wordCount (Suc k) fuel)"
proof -
    have "{k..<k + Suc fuel} = insert k {Suc k..<Suc k + fuel}" by auto
    then show ?thesis by (simp only: hits_def image_insert)
  qed
  show ?case
  proof (cases "length idxs < count \<and> length idxs < wordCount")
    case True
    have s: "set ?idxs \<union> hits rng wordCount (Suc k) fuel = set idxs \<union> hits rng wordCount k (Suc fuel)" unfolding h by auto
    have "\<exists>ps. pickLoop (Suc fuel) rng wordCount count (Suc k) ?idxs = Some ps \<and> distinct ps \<and> length ps = min count wordCount \<and>
        set ps \<subseteq> set ?idxs \<union> hits rng wordCount (Suc k) fuel"
      by (rule Suc.IH) (use Suc.prems True s in auto)
    then show ?thesis unfolding s using True by simp
  next
    case False
    then show ?thesis using Suc.prems by auto
  qed
qed

text \<open>Drawing the positions to ask for ends as soon as the random numbers have hit enough of
  them: if the first \<open>fuel\<close> draws name at least as many different positions as are wanted (or as
  there are words), the loop has stopped by then, with that many different positions in
  ascending order, each of which names a word. It never asks for more.\<close>

theorem pickConfirmIndices_ends:
  assumes "\<forall>k. 0 \<le> rng k \<and> rng k < 1" "min count wordCount \<le> card (drawn rng wordCount ` {0..<fuel})"
  shows "\<exists>ps. pickConfirmIndices (Suc fuel) wordCount count rng = Some ps \<and> sorted ps \<and> distinct ps \<and>
    length ps = min count wordCount \<and> (\<forall>p \<in> set ps. 1 \<le> p \<and> p \<le> wordCount)"
proof -
  obtain ps where ps: "pickLoop (Suc fuel) rng wordCount count 0 [] = Some ps" "distinct ps" "length ps = min count wordCount"
    "set ps \<subseteq> hits rng wordCount 0 fuel"
    using pickLoop_ends [of "[]" count wordCount rng 0 fuel] assms(2) by (auto simp: hits_def)
  have "1 \<le> p \<and> p \<le> wordCount" if p: "p \<in> set ps" for p
  proof -
    obtain k where "p = drawn rng wordCount k" using subsetD [OF ps(4) p] by (auto simp: hits_def)
    moreover have "0 < wordCount" using p ps(3) by (cases ps) auto
    ultimately show ?thesis using drawn_range assms(1) by blast
  qed
  then show ?thesis using ps by (auto simp: pickConfirmIndices_def)
qed

end
