(* ===== verification/CryptoRpc.thy ===== *)
theory CryptoRpc
  imports Prelude "HOL-Library.Multiset"
begin

text \<open>
  Calls to the crypto worker: the client on the page (\<^verbatim>\<open>workers/crypto-client.ts\<close>), which
  matches answers to calls by number, and the worker's dispatch (\<^verbatim>\<open>workers/crypto.worker.ts\<close>).
  A port keeps the order of messages; the worker may finish the calls it has received in any
  order. The functions it dispatches to are arguments; \<open>str\<close> is how JavaScript prints an error.
\<close>

section \<open>The worker\<close>

text \<open>A handler answers with the progress numbers it emits and its result.\<close>

type_synonym 'v handler = "'v list \<Rightarrow> nat list \<times> (error + 'v)"

definition workerHandle :: "(string \<Rightarrow> 'v handler option) \<Rightarrow> (string \<Rightarrow> ('v list \<Rightarrow> error + 'v) option) \<Rightarrow> string \<Rightarrow> 'v handler" where
  "workerHandle handlers wasmFn m args =
     (case handlers m of Some h \<Rightarrow> h args
      | None \<Rightarrow> (case wasmFn m of
          None \<Rightarrow> ([], Inl (JsError (''unknown crypto method: '' @ m)))
        | Some f \<Rightarrow> ([], f args)))"

datatype 'v reply = Progress nat nat | Done nat 'v | Failed nat string

definition settle :: "(error \<Rightarrow> string) \<Rightarrow> error + 'v \<Rightarrow> string + 'v" where
  "settle str r = (case r of Inl e \<Rightarrow> Inl (str e) | Inr v \<Rightarrow> Inr v)"

definition workerReplies :: "(error \<Rightarrow> string) \<Rightarrow> (string \<Rightarrow> 'v handler) \<Rightarrow> nat \<times> string \<times> 'v list \<Rightarrow> 'v reply list" where
  "workerReplies str H = (\<lambda>(i, m, args). case H m args of (ps, r) \<Rightarrow>
     map (Progress i) ps @ [case settle str r of Inl e \<Rightarrow> Failed i e | Inr v \<Rightarrow> Done i v])"

section \<open>The client\<close>

text \<open>The client's counter and table of pending calls, the two directions of the port, the calls the
  worker is working on, and what the callers have seen: progress and settled promises.
  \<open>rp_calls\<close> remembers what was called.\<close>

record 'v rpc =
  rp_nextId :: nat
  rp_pending :: "nat set"
  rp_toWorker :: "(nat \<times> string \<times> 'v list) list"
  rp_running :: "(nat \<times> string \<times> 'v list) list"
  rp_toTab :: "'v reply list"
  rp_settled :: "(nat \<times> (string + 'v)) list"
  rp_progress :: "(nat \<times> nat) list"
  rp_calls :: "(nat \<times> string \<times> 'v list) list"

definition rpcInit :: "'v rpc" where
  "rpcInit = \<lparr>rp_nextId = 1, rp_pending = {}, rp_toWorker = [], rp_running = [], rp_toTab = [], rp_settled = [],
     rp_progress = [], rp_calls = []\<rparr>"

definition cryptoCall :: "string \<Rightarrow> 'v list \<Rightarrow> 'v rpc \<Rightarrow> 'v rpc" where
  "cryptoCall m args s = s\<lparr>rp_nextId := Suc (rp_nextId s), rp_pending := insert (rp_nextId s) (rp_pending s),
     rp_toWorker := rp_toWorker s @ [(rp_nextId s, m, args)], rp_calls := rp_calls s @ [(rp_nextId s, m, args)]\<rparr>"

fun onReply :: "'v reply \<Rightarrow> 'v rpc \<Rightarrow> 'v rpc" where
  "onReply (Progress i n) s = (if i \<in> rp_pending s then s\<lparr>rp_progress := rp_progress s @ [(i, n)]\<rparr> else s)"
| "onReply (Done i v) s = (if i \<in> rp_pending s
     then s\<lparr>rp_pending := rp_pending s - {i}, rp_settled := rp_settled s @ [(i, Inr v)]\<rparr> else s)"
| "onReply (Failed i e) s = (if i \<in> rp_pending s
     then s\<lparr>rp_pending := rp_pending s - {i}, rp_settled := rp_settled s @ [(i, Inl e)]\<rparr> else s)"

section \<open>The state machine\<close>

inductive rpcStep :: "(error \<Rightarrow> string) \<Rightarrow> (string \<Rightarrow> 'v handler) \<Rightarrow> 'v rpc \<Rightarrow> 'v rpc \<Rightarrow> bool" for str H where
  call: "rpcStep str H s (cryptoCall m args s)"
| start: "rp_toWorker s = q # qs \<Longrightarrow> rpcStep str H s (s\<lparr>rp_toWorker := qs, rp_running := rp_running s @ [q]\<rparr>)"
| finish: "rp_running s = as @ q # bs \<Longrightarrow>
    rpcStep str H s (s\<lparr>rp_running := as @ bs, rp_toTab := rp_toTab s @ workerReplies str H q\<rparr>)"
| answer: "rp_toTab s = r # rs \<Longrightarrow> rpcStep str H s (onReply r (s\<lparr>rp_toTab := rs\<rparr>))"

inductive rpcReach :: "(error \<Rightarrow> string) \<Rightarrow> (string \<Rightarrow> 'v handler) \<Rightarrow> 'v rpc \<Rightarrow> bool" for str H where
  init: "rpcReach str H rpcInit"
| step: "rpcReach str H s \<Longrightarrow> rpcStep str H s s' \<Longrightarrow> rpcReach str H s'"

text \<open>The answers under way, without the progress.\<close>

fun finals :: "'v reply list \<Rightarrow> (nat \<times> (string + 'v)) list" where
  "finals [] = []"
| "finals (Progress i n # rs) = finals rs"
| "finals (Done i v # rs) = (i, Inr v) # finals rs"
| "finals (Failed i e # rs) = (i, Inl e) # finals rs"

definition outcome :: "(error \<Rightarrow> string) \<Rightarrow> (string \<Rightarrow> 'v handler) \<Rightarrow> nat \<times> string \<times> 'v list \<Rightarrow> nat \<times> (string + 'v)" where
  "outcome str H = (\<lambda>(i, m, args). (i, settle str (snd (H m args))))"

text \<open>Every call is at exactly one place on its way, with its own outcome from the worker on.\<close>

definition rpcInv :: "(error \<Rightarrow> string) \<Rightarrow> (string \<Rightarrow> 'v handler) \<Rightarrow> 'v rpc \<Rightarrow> bool" where
  "rpcInv str H s \<longleftrightarrow>
     map fst (rp_calls s) = [1..<rp_nextId s] \<and> 1 \<le> rp_nextId s \<and>
     image_mset (outcome str H) (mset (rp_calls s)) =
       image_mset (outcome str H) (mset (rp_toWorker s @ rp_running s)) + mset (finals (rp_toTab s) @ rp_settled s) \<and>
     rp_pending s = fst ` set (rp_toWorker s @ rp_running s) \<union> fst ` set (finals (rp_toTab s))"

lemma finals_append: "finals (as @ bs) = finals as @ finals bs"
  by (induction as rule: finals.induct) auto

lemma finals_replies: "finals (workerReplies str H q) = [outcome str H q]"
proof -
  have p: "finals (map (Progress i) ps @ rs) = finals rs" for i ps and rs :: "'a reply list"
    by (induction ps) auto
  show ?thesis by (auto simp: workerReplies_def outcome_def p split: prod.split sum.split)
qed

lemma fst_outcome [simp]: "fst (outcome str H q) = fst q"
  by (simp add: outcome_def split: prod.split)

lemma inv_ids:
  assumes "rpcInv str H s"
  shows "distinct (map fst (rp_toWorker s @ rp_running s) @ map fst (finals (rp_toTab s) @ rp_settled s))"
proof -
  have "image_mset fst (image_mset (outcome str H) (mset (rp_calls s))) = mset (map fst (rp_calls s))"
    by (simp add: image_mset.compositionality o_def)
  also have "image_mset fst (image_mset (outcome str H) (mset (rp_calls s))) =
      mset (map fst (rp_toWorker s @ rp_running s) @ map fst (finals (rp_toTab s) @ rp_settled s))"
    using assms by (simp add: rpcInv_def image_mset.compositionality o_def)
  finally have "mset (map fst (rp_toWorker s @ rp_running s) @ map fst (finals (rp_toTab s) @ rp_settled s)) = mset (map fst (rp_calls s))" by simp
  moreover have "distinct (map fst (rp_calls s))" using assms by (simp add: rpcInv_def)
  ultimately show ?thesis by (metis mset_eq_imp_distinct_iff)
qed

lemma rpcInv_step:
  assumes "rpcStep str H s s'" "rpcInv str H s"
  shows "rpcInv str H s'"
  using assms
proof cases
  case (call m args)
  then show ?thesis using assms(2) by (simp add: rpcInv_def cryptoCall_def)
next
  case (start q qs)
  then show ?thesis using assms(2) by (auto simp: rpcInv_def)
next
  case (finish as q bs)
  then show ?thesis using assms(2) by (auto simp: rpcInv_def finals_append finals_replies)
next
  case (answer r rs)
  note d = inv_ids [OF assms(2)]
  show ?thesis
  proof (cases r)
    case (Progress i n)
    then show ?thesis using answer assms(2) by (auto simp: rpcInv_def)
  next
    case (Done i v)
    then show ?thesis using answer assms(2) d by (auto simp: rpcInv_def)
  next
    case (Failed i e)
    then show ?thesis using answer assms(2) d by (auto simp: rpcInv_def)
  qed
qed

lemma rpcInv_reach: "rpcReach str H s \<Longrightarrow> rpcInv str H s"
proof (induction rule: rpcReach.induct)
  case init
  then show ?case by (simp add: rpcInv_def rpcInit_def)
qed (rule rpcInv_step)

text \<open>A number belongs to one call, and what is settled under it is the outcome of that call.\<close>

lemma settled_outcome:
  assumes "rpcReach str H s" "(i, r) \<in> set (rp_settled s)"
  shows "\<exists>m args. (i, m, args) \<in> set (rp_calls s) \<and> r = settle str (snd (H m args)) \<and>
    (\<forall>m' args'. (i, m', args') \<in> set (rp_calls s) \<longrightarrow> m' = m \<and> args' = args)"
proof -
  note i = rpcInv_reach [OF assms(1)]
  have "(i, r) \<in># image_mset (outcome str H) (mset (rp_calls s))" using i assms(2) by (simp add: rpcInv_def)
  then obtain m args where q: "(i, m, args) \<in> set (rp_calls s)" "r = settle str (snd (H m args))"
    by (auto simp: outcome_def)
  have "distinct (map fst (rp_calls s))" using i by (simp add: rpcInv_def)
  then have "m' = m \<and> args' = args" if "(i, m', args') \<in> set (rp_calls s)" for m' args'
    using eq_key_imp_eq_value [OF _ that q(1)] by simp
  with q show ?thesis by blast
qed

text \<open>C35. Every call to the worker is answered with its own result. Whatever the order in which calls
  are made, worked on and answered, a promise settles at most once, with the result (or the
  printed error) of the method and the arguments of that very call; and once nothing is under
  way any more, every call has been settled and none is left pending.\<close>

theorem cryptoCall_answers_its_own:
  assumes "rpcReach str H s"
  shows "distinct (map fst (rp_settled s)) \<and>
    (\<forall>(i, r) \<in> set (rp_settled s). \<exists>m args. (i, m, args) \<in> set (rp_calls s) \<and> r = settle str (snd (H m args)) \<and>
       (\<forall>m' args'. (i, m', args') \<in> set (rp_calls s) \<longrightarrow> m' = m \<and> args' = args)) \<and>
    (rp_toWorker s = [] \<and> rp_running s = [] \<and> rp_toTab s = [] \<longrightarrow>
       rp_pending s = {} \<and> fst ` set (rp_settled s) = fst ` set (rp_calls s))"
proof -
  note i = rpcInv_reach [OF assms]
  note d = inv_ids [OF i]
  have quiet: "rp_pending s = {} \<and> fst ` set (rp_settled s) = fst ` set (rp_calls s)"
    if "rp_toWorker s = [] \<and> rp_running s = [] \<and> rp_toTab s = []"
  proof -
    have "mset (map (outcome str H) (rp_calls s)) = mset (rp_settled s)" using i that by (simp add: rpcInv_def)
    then have "outcome str H ` set (rp_calls s) = set (rp_settled s)" by (metis set_map set_mset_mset)
    then have "fst ` set (rp_settled s) = (fst \<circ> outcome str H) ` set (rp_calls s)" by (metis image_comp)
    then show ?thesis using i that by (simp add: rpcInv_def o_def)
  qed
  have "distinct (map fst (rp_settled s))" using d by simp
  then show ?thesis using settled_outcome [OF assms] quiet by blast
qed

end
