(* ===== verification/Timeline.thy ===== *)
theory Timeline
  imports Prelude
begin

text \<open>
  The rows of a chat (\<^verbatim>\<open>services/chat-timeline.ts\<close>): messages in ascending order, with a row
  before the first message of each day and flags that mark the ends of a run of messages from
  one side. The local calendar (start of the local day, year, the printed date) is the browser's
  and an argument; times are integers, messages in seconds and the calendar in milliseconds.
\<close>

definition GROUP_GAP_SECONDS :: int where "GROUP_GAP_SECONDS = 5 * 60"

record msgLike =
  ml_timestamp :: int
  ml_direction :: string
  ml_msg_id :: string

datatype 'm TimelineRow =
    DayRow string string
  | MsgRow string 'm bool bool

record calendar =
  ca_startOfLocalDay :: "int \<Rightarrow> int"
  ca_year :: "int \<Rightarrow> int"
  ca_format :: "int \<Rightarrow> bool \<Rightarrow> string"

text \<open>\<open>Math.round\<close> of the quotient: half a day counts up.\<close>

definition dayLabel :: "calendar \<Rightarrow> int \<Rightarrow> int \<Rightarrow> string" where
  "dayLabel ca timestampSeconds now =
     (let d = timestampSeconds * 1000;
          diffDays = (2 * (ca_startOfLocalDay ca now - ca_startOfLocalDay ca d) + 86400000) div (2 * 86400000)
      in if diffDays = 0 then ''Today'' else if diffDays = 1 then ''Yesterday''
         else ca_format ca d (ca_year ca d \<noteq> ca_year ca now))"

definition dayOf :: "calendar \<Rightarrow> ('a msgLike_scheme) \<Rightarrow> int" where
  "dayOf ca m = ca_startOfLocalDay ca (ml_timestamp m * 1000)"

definition newDay :: "calendar \<Rightarrow> ('a msgLike_scheme) option \<Rightarrow> 'a msgLike_scheme \<Rightarrow> bool" where
  "newDay ca prev m = (case prev of None \<Rightarrow> True | Some p \<Rightarrow> dayOf ca m \<noteq> dayOf ca p)"

definition firstOfGroup :: "calendar \<Rightarrow> ('a msgLike_scheme) option \<Rightarrow> 'a msgLike_scheme \<Rightarrow> bool" where
  "firstOfGroup ca prev m = (newDay ca prev m \<or> (case prev of None \<Rightarrow> True | Some p \<Rightarrow>
     ml_direction p \<noteq> ml_direction m \<or> GROUP_GAP_SECONDS < ml_timestamp m - ml_timestamp p))"

definition lastOfGroup :: "calendar \<Rightarrow> 'a msgLike_scheme \<Rightarrow> ('a msgLike_scheme) option \<Rightarrow> bool" where
  "lastOfGroup ca m nxt = (case nxt of None \<Rightarrow> True | Some n \<Rightarrow>
     dayOf ca m \<noteq> dayOf ca n \<or> ml_direction n \<noteq> ml_direction m \<or> GROUP_GAP_SECONDS < ml_timestamp n - ml_timestamp m)"

text \<open>\<open>msgs[i]\<close> is \<open>undefined\<close> out of range.\<close>

definition at :: "'a list \<Rightarrow> int \<Rightarrow> 'a option" where
  "at xs i = (if 0 \<le> i \<and> i < int (length xs) then Some (xs ! nat i) else None)"

definition rowsOf :: "calendar \<Rightarrow> int \<Rightarrow> ('a msgLike_scheme) list \<Rightarrow> nat \<Rightarrow> ('a msgLike_scheme) TimelineRow list" where
  "rowsOf ca now msgs i =
     (let m = msgs ! i; prev = at msgs (int i - 1); nxt = at msgs (int i + 1) in
      (if newDay ca prev m then [DayRow (''day-'' @ ml_msg_id m) (dayLabel ca (ml_timestamp m) now)] else []) @
      [MsgRow (ml_msg_id m) m (firstOfGroup ca prev m) (lastOfGroup ca m nxt)])"

definition buildChatTimeline :: "calendar \<Rightarrow> int \<Rightarrow> ('a msgLike_scheme) list \<Rightarrow> ('a msgLike_scheme) TimelineRow list" where
  "buildChatTimeline ca now msgs = concat (map (rowsOf ca now msgs) [0..<length msgs])"

section \<open>What the view shows\<close>

fun msgRows :: "'m TimelineRow list \<Rightarrow> ('m \<times> bool \<times> bool) list" where
  "msgRows [] = []"
| "msgRows (DayRow k l # rs) = msgRows rs"
| "msgRows (MsgRow k m a b # rs) = (m, a, b) # msgRows rs"

text \<open>The messages under each day row, in order; what stands before the first one comes first.\<close>

fun days :: "'m TimelineRow list \<Rightarrow> 'm list \<times> (string \<times> 'm list) list" where
  "days [] = ([], [])"
| "days (DayRow k l # rs) = (case days rs of (ms, ds) \<Rightarrow> ([], (l, ms) # ds))"
| "days (MsgRow k m a b # rs) = (case days rs of (ms, ds) \<Rightarrow> (m # ms, ds))"

lemma msgRows_append: "msgRows (as @ bs) = msgRows as @ msgRows bs"
  by (induction as rule: msgRows.induct) auto

lemma msgRows_build:
  "msgRows (buildChatTimeline ca now msgs) =
     map (\<lambda>i. (msgs ! i, firstOfGroup ca (at msgs (int i - 1)) (msgs ! i), lastOfGroup ca (msgs ! i) (at msgs (int i + 1)))) [0..<length msgs]"
proof -
  have "msgRows (concat (map (rowsOf ca now msgs) is)) =
      map (\<lambda>i. (msgs ! i, firstOfGroup ca (at msgs (int i - 1)) (msgs ! i), lastOfGroup ca (msgs ! i) (at msgs (int i + 1)))) is" for "is"
    by (induction "is") (auto simp: rowsOf_def Let_def msgRows_append)
  then show ?thesis by (simp add: buildChatTimeline_def)
qed

lemma flags_agree: "Suc i < length msgs \<Longrightarrow>
  lastOfGroup ca (msgs ! i) (at msgs (int i + 1)) = firstOfGroup ca (at msgs (int (Suc i) - 1)) (msgs ! Suc i)"
  by (auto simp: at_def lastOfGroup_def firstOfGroup_def newDay_def nat_add_distrib)

text \<open>The same rows by recursion, with the message before.\<close>

fun rowsAfter :: "calendar \<Rightarrow> int \<Rightarrow> ('a msgLike_scheme) option \<Rightarrow> ('a msgLike_scheme) list \<Rightarrow> ('a msgLike_scheme) TimelineRow list" where
  "rowsAfter ca now prev [] = []"
| "rowsAfter ca now prev (m # ms) =
     (if newDay ca prev m then [DayRow (''day-'' @ ml_msg_id m) (dayLabel ca (ml_timestamp m) now)] else []) @
     [MsgRow (ml_msg_id m) m (firstOfGroup ca prev m) (lastOfGroup ca m (at ms 0))] @ rowsAfter ca now (Some m) ms"

lemma build_rowsAfter: "buildChatTimeline ca now msgs = rowsAfter ca now None msgs"
proof -
  have "concat (map (rowsOf ca now (ps @ ms)) [length ps..<length ps + length ms]) = rowsAfter ca now (at ps (int (length ps) - 1)) ms" for ps ms
  proof (induction ms arbitrary: ps)
    case (Cons m ms)
    have l: "[length ps..<length ps + length (m # ms)] = length ps # [length (ps @ [m])..<length (ps @ [m]) + length ms]"
      by (subst upt_conv_Cons) simp_all
    have prev: "at (ps @ m # ms) (int (length ps) - 1) = at ps (int (length ps) - 1)"
      by (cases ps rule: rev_cases) (auto simp: at_def nth_append)
    have nxt: "at (ps @ m # ms) (int (length ps) + 1) = at ms 0"
      by (cases ms) (auto simp: at_def nth_append nat_add_distrib)
    have "at (ps @ [m]) (int (length (ps @ [m])) - 1) = Some m" by (simp add: at_def)
    then have "concat (map (rowsOf ca now (ps @ m # ms)) [length (ps @ [m])..<length (ps @ [m]) + length ms]) = rowsAfter ca now (Some m) ms"
      using Cons.IH [of "ps @ [m]"] by simp
    moreover have "rowsOf ca now (ps @ m # ms) (length ps) =
        (if newDay ca (at ps (int (length ps) - 1)) m then [DayRow (''day-'' @ ml_msg_id m) (dayLabel ca (ml_timestamp m) now)] else []) @
        [MsgRow (ml_msg_id m) m (firstOfGroup ca (at ps (int (length ps) - 1)) m) (lastOfGroup ca m (at ms 0))]"
      by (simp add: rowsOf_def Let_def prev nxt)
    ultimately show ?case unfolding l list.map concat.simps by (simp only: rowsAfter.simps append_assoc)
  qed simp
  from this [of "[]" msgs] show ?thesis by (simp add: buildChatTimeline_def at_def)
qed

lemma days_rowsAfter:
  "case days (rowsAfter ca now prev ms) of (as, ds) \<Rightarrow>
     as @ concat (map snd ds) = ms \<and> (\<forall>m \<in> set as. \<exists>p. prev = Some p \<and> dayOf ca m = dayOf ca p) \<and>
     (\<forall>(l, xs) \<in> set ds. xs \<noteq> [] \<and> l = dayLabel ca (ml_timestamp (hd xs)) now \<and> (\<forall>m \<in> set xs. dayOf ca m = dayOf ca (hd xs)))"
proof (induction ms arbitrary: prev)
  case (Cons m ms)
  obtain as ds where d: "days (rowsAfter ca now (Some m) ms) = (as, ds)" by fastforce
  have ih: "as @ concat (map snd ds) = ms" "\<forall>x \<in> set as. dayOf ca x = dayOf ca m"
    "\<forall>(l, xs) \<in> set ds. xs \<noteq> [] \<and> l = dayLabel ca (ml_timestamp (hd xs)) now \<and> (\<forall>x \<in> set xs. dayOf ca x = dayOf ca (hd xs))"
    using Cons.IH [of "Some m"] d by simp_all
  show ?case
  proof (cases "newDay ca prev m")
    case True
    then show ?thesis using ih d by simp
  next
    case False
    then obtain p where "prev = Some p" "dayOf ca m = dayOf ca p" by (auto simp: newDay_def split: option.splits)
    then show ?thesis using False ih d by simp
  qed
qed simp

text \<open>The chat view shows every message once and in order; every message stands under a day row,
  the messages under a row are all of one day, and the row's label is that of the first of them.
  The group flags fit together: the first message opens a group and the last closes one, and a
  message closes its group exactly when the next one opens a new one, which is when the day
  changes, the side changes, or more than five minutes lie between the two.\<close>

theorem buildChatTimeline_groups:
  "days (buildChatTimeline ca now msgs) = ([], snd (days (buildChatTimeline ca now msgs))) \<and>
   concat (map snd (snd (days (buildChatTimeline ca now msgs)))) = msgs \<and>
   (\<forall>(l, xs) \<in> set (snd (days (buildChatTimeline ca now msgs))).
      xs \<noteq> [] \<and> l = dayLabel ca (ml_timestamp (hd xs)) now \<and> (\<forall>m \<in> set xs. dayOf ca m = dayOf ca (hd xs))) \<and>
   map fst (msgRows (buildChatTimeline ca now msgs)) = msgs \<and>
   (msgs \<noteq> [] \<longrightarrow> fst (snd (hd (msgRows (buildChatTimeline ca now msgs)))) \<and> snd (snd (last (msgRows (buildChatTimeline ca now msgs))))) \<and>
   (\<forall>i. Suc i < length msgs \<longrightarrow>
      (let closes = snd (snd (msgRows (buildChatTimeline ca now msgs) ! i)) in
       closes = fst (snd (msgRows (buildChatTimeline ca now msgs) ! Suc i)) \<and>
       closes = (dayOf ca (msgs ! i) \<noteq> dayOf ca (msgs ! Suc i) \<or> ml_direction (msgs ! i) \<noteq> ml_direction (msgs ! Suc i) \<or>
                 300 < ml_timestamp (msgs ! Suc i) - ml_timestamp (msgs ! i))))"
proof -
  let ?r = "buildChatTimeline ca now msgs"
  obtain as ds where d: "days ?r = (as, ds)" by fastforce
  have "\<forall>m \<in> set as. \<exists>p. None = Some p \<and> dayOf ca m = dayOf ca p"
    and fs: "as @ concat (map snd ds) = msgs"
    "\<forall>(l, xs) \<in> set ds. xs \<noteq> [] \<and> l = dayLabel ca (ml_timestamp (hd xs)) now \<and> (\<forall>m \<in> set xs. dayOf ca m = dayOf ca (hd xs))"
    using days_rowsAfter [where ca = ca and now = now and prev = None and ms = msgs] d unfolding build_rowsAfter by auto
  then have nil: "as = []" by (cases as) auto
  have days: "as = []" "concat (map snd ds) = msgs"
    "\<forall>(l, xs) \<in> set ds. xs \<noteq> [] \<and> l = dayLabel ca (ml_timestamp (hd xs)) now \<and> (\<forall>m \<in> set xs. dayOf ca m = dayOf ca (hd xs))"
    using fs nil by simp_all
  have all: "map fst (msgRows ?r) = msgs" by (simp add: msgRows_build o_def map_nth)
  have ends: "msgs \<noteq> [] \<longrightarrow> fst (snd (hd (msgRows ?r))) \<and> snd (snd (last (msgRows ?r)))"
  proof
    assume "msgs \<noteq> []"
    then obtain n where n: "length msgs = Suc n" by (cases msgs) auto
    then have "[0..<length msgs] \<noteq> []" "hd [0..<length msgs] = 0" "last [0..<length msgs] = n"
      by (simp_all del: upt_Suc add: hd_upt)
    then show "fst (snd (hd (msgRows ?r))) \<and> snd (snd (last (msgRows ?r)))"
      using n by (simp add: msgRows_build hd_map last_map at_def firstOfGroup_def lastOfGroup_def newDay_def del: upt_Suc)
  qed
  have flags: "\<forall>i. Suc i < length msgs \<longrightarrow>
      (let closes = snd (snd (msgRows ?r ! i)) in
       closes = fst (snd (msgRows ?r ! Suc i)) \<and>
       closes = (dayOf ca (msgs ! i) \<noteq> dayOf ca (msgs ! Suc i) \<or> ml_direction (msgs ! i) \<noteq> ml_direction (msgs ! Suc i) \<or>
                 300 < ml_timestamp (msgs ! Suc i) - ml_timestamp (msgs ! i)))"
  proof (intro allI impI)
    fix i assume i: "Suc i < length msgs"
    then have "at msgs (int i + 1) = Some (msgs ! Suc i)" by (simp add: at_def nat_add_distrib)
    then show "let closes = snd (snd (msgRows ?r ! i)) in
       closes = fst (snd (msgRows ?r ! Suc i)) \<and>
       closes = (dayOf ca (msgs ! i) \<noteq> dayOf ca (msgs ! Suc i) \<or> ml_direction (msgs ! i) \<noteq> ml_direction (msgs ! Suc i) \<or>
                 300 < ml_timestamp (msgs ! Suc i) - ml_timestamp (msgs ! i))"
      using i flags_agree [OF i, where ca = ca] by (auto simp: msgRows_build Let_def lastOfGroup_def GROUP_GAP_SECONDS_def)
  qed
  show ?thesis using days all ends flags unfolding d by simp
qed

end
