(* ===== verification/TransferWitnesses.thy ===== *)
theory TransferWitnesses
  imports DeviceWitnesses HistoryBackup DeviceLink Onboarding SeedWords CryptoRpc Timeline
begin

text \<open>
  Instances of the properties of the history backup, the transfer between devices, recovery,
  onboarding and the small services, on the sample environment.
\<close>

section \<open>History backup\<close>

definition rec0 :: HistoryRecord where
  "rec0 = MsgRec \<lparr>mr_msg_id = ''m9'', mr_peer_id = ''px_peer'', mr_direction = DirOut, mr_kind = KText, mr_content = ''hi'',
     mr_timestamp = 5, mr_status = ''sent'', mr_created_at = Some 5000\<rparr>"

definition blob0 :: HistoryBlobWire where
  "blob0 = \<lparr>hb_blob_id = ''m9'', hb_ciphertext = b64encode (replicate 12 0 @ textEncode (stringify (recordJson rec0))), hb_created_at = 0\<rparr>"

text \<open>A server that lists that blob, on one page.\<close>

definition replyH :: json where
  "replyH = JObj [(''stored'', JNum 1), (''deleted'', JNum 1), (''blobs'', JArr [JObj [(''blob_id'', JStr (hb_blob_id blob0)),
     (''ciphertext'', JStr (hb_ciphertext blob0)), (''created_at'', JNum 0)]])]"

definition envH :: env where
  "envH = env0\<lparr>fetch := (\<lambda>t r. Some \<lparr>rsp_status = 200, rsp_json = Some replyH, rsp_raw = []\<rparr>)\<rparr>"

definition worldH :: world where
  "worldH = world0\<lparr>keyCache := Some (key0, key0)\<rparr>"

lemma envH_simps [simp]: "aes_correct envH" "aes_enc envH k iv p = p" "aes_dec envH k iv p = Some p" "reads envH k b = Some (drop 12 b)"
  "fetch envH t r = Some \<lparr>rsp_status = 200, rsp_json = Some replyH, rsp_raw = []\<rparr>"
  by (simp_all add: envH_def env0_def aes_correct_def reads_def IV_LEN_def)

lemma worldH_simps [simp]: "keyCache worldH = Some (key0, key0)" "au_sessionToken (auth worldH) = Some ''tok''" "idb worldH = db0"
  "keyOf worldH = Some key0"
  by (simp_all add: worldH_def world0_def keyOf_def ksKey_def)

lemma historyKey_worldH: "keyCache w = Some ks \<Longrightarrow> historyKey E w = (Inr ks, w)"
  by (simp add: historyKey_def)

lemma lists_blob0: "fst (listHistory envH tok after w) = Inr ([blob0], None)"
  by (simp add: listHistory_def get_api_def run_fetchReq jsonReply_def rspOk_def replyH_def typed_def parseAll_def
      parseHistoryBlob_def blob0_def)

lemma served0: "pagesServed envH tok None [[blob0]]"
  using lists_blob0 by auto

lemma holds_blob0: "blobHolds envH key0 (hb_ciphertext blob0) rec0"
  by (simp add: blobHolds_def blob0_def)

lemma fresh0: "freshFor db0 [rec0]"
  by (simp add: freshFor_def rec0_def)

theorem restoreHistory_restores_all_witness:
  "\<exists>w'. restoreHistory 1 envH worldH = (Inr (Some 1), w') \<and> stored envH key0 (\<lambda>c. orElse (cr_status c) Accepted) (idb w') rec0"
proof -
  obtain w' where "restoreHistory 1 envH worldH = (Inr (Some 1), w')"
    "storedWith envH key0 (\<lambda>c. if cr_px_id c \<in> weMessaged [rec0] then Accepted else PendingInbound) (idb w') rec0"
    using restoreHistory_restores_all [of envH worldH key0 key0 worldH key0 "''tok''" "[[blob0]]" 1 "[rec0]"]
      served0 holds_blob0 fresh0 historyKey_worldH [of worldH] by auto
  then show ?thesis by (intro exI [where x = w']) (simp add: stored_def storedAs_def rec0_def slot_def split: sum.splits)
qed

definition worldB :: world where
  "worldB = worldH\<lparr>idb := dbMessage\<rparr>"

lemma worldB_simps [simp]: "keyCache worldB = Some (key0, key0)" "auth worldB = auth world0" "idb worldB = dbMessage"
  "keyOf worldB = Some key0"
  using worldH_simps(4) by (simp_all add: worldB_def keyOf_def) (simp add: worldH_def)

lemma collect_dbMessage:
  "idb w = dbMessage \<Longrightarrow> keyOf w = Some key0 \<Longrightarrow> \<forall>b. reads E key0 b = Some (drop 12 b) \<Longrightarrow>
   collectLocalRecords E w = (Inr [MsgRec (msgRecord message0 ''hi'')], w)"
  using getMasterKey_keyOf [of w key0 E]
  by (simp add: collectLocalRecords_def dbMessage_def toArray_def message0_def run_decryptString List.map_filter_def)

lemma uploads_ok: "\<exists>w'. uploadHistory envH bs tok w = (Inr 1, w')"
  by (simp add: uploadHistory_def post_api_def run_fetchReq jsonReply_def rspOk_def replyH_def typed_def intField_def)

theorem backfill_uploads_everything_witness:
  "\<exists>w' tok bss. backfillAll envH worldB = (Inr (), w') \<and> map fst (netlog w') = map (upload_req envH tok) bss \<and>
     list_all2 (\<lambda>b rec. blobHolds envH key0 (snd b) rec) (concat bss) [MsgRec (msgRecord message0 ''hi'')]"
proof -
  have c: "collectLocalRecords envH worldB = (Inr [MsgRec (msgRecord message0 ''hi'')], worldB)"
    by (rule collect_dbMessage) simp_all
  have h: "historyKey envH worldB = (Inr (key0, key0), worldB)" by (rule historyKey_worldH) simp
  obtain cph w1 where t: "toBlob envH (key0, key0) (MsgRec (msgRecord message0 ''hi'')) worldB =
      (Inr (historyBlobId envH key0 ''m1'', cph), w1)" "auth w1 = auth world0"
    using run_toBlob [of envH "(key0, key0)" "MsgRec (msgRecord message0 ''hi'')" worldB]
    by (auto simp: recordId_def msgRecord_def message0_def)
  obtain w' where "uploadHistory envH [(historyBlobId envH key0 ''m1'', cph)] ''tok'' w1 = (Inr 1, w')" using uploads_ok by blast
  then have run: "backfillAll envH worldB = (Inr (), w')"
    using c h t by (simp add: backfillAll_def uploadBatched_def token_def flushBatch_def)
  obtain key w1 recs w2 tok bss where "historyKey envH worldB = (Inr key, w1)" "collectLocalRecords envH w1 = (Inr recs, w2)"
    "list_all2 (\<lambda>b rec. fst b = historyBlobId envH (snd key) (recordId rec) \<and> blobHolds envH (fst key) (snd b) rec) (concat bss) recs"
    "map fst (netlog w') = map fst (netlog worldB) @ map (upload_req envH tok) bss"
    using backfill_uploads_everything [OF envH_simps(1) run] by blast
  then show ?thesis using c h run
    by (intro exI [where x = w'] exI [where x = tok] exI [where x = bss]) (auto simp: worldB_def worldH_def elim: list_all2_mono)
qed


section \<open>Transfer between devices\<close>

definition dc0 :: DevlinkCryptoApi where
  "dc0 = \<lparr>dv_keypair = (\<lambda>t. Inr \<lparr>kp_pub = [1], kp_priv = [2]\<rparr>), dv_channelKey = (\<lambda>a b. Inr (take 32 (b @ replicate 32 0)))\<rparr>"

theorem export_waits_for_confirmation_witness:
  "sd_out (fst (snd (exFrame env0 dc0 (helloFrame [3]) (snd (exStart env0 dc0 (sideInit, world0)))))) = []"
proof -
  let ?p = "snd (exFrame env0 dc0 (helloFrame [3]) (snd (exStart env0 dc0 (sideInit, world0))))"
  obtain s w where p: "?p = (s, w)" by fastforce
  have r: "exReach env0 dc0 ?p" by (intro exReach.frame exReach.start exReach.init)
  have "\<not> sd_confirmed (fst ?p)"
    using hello_run [of "sideInit\<lparr>sd_eph := Some \<lparr>kp_pub = [1], kp_priv = [2]\<rparr>\<rparr>" "\<lparr>kp_pub = [1], kp_priv = [2]\<rparr>" dc0 "[3]" "[3] @ replicate 31 0" env0]
    by (simp add: exStart_def dc0_def sideInit_def numeral_eq_Suc)
  then show ?thesis using export_waits_for_confirmation [of env0 dc0 s w] r p by simp
qed

text \<open>An exporter and an importer with one channel key, both ready.\<close>

definition readySide :: side where
  "readySide = sideInit\<lparr>sd_key := Some key0, sd_confirmed := True, sd_sentReady := True, sd_peerReady := True\<rparr>"

lemma collect_worldB: "collectLocalRecords envH (worldB\<lparr>tick := t\<rparr>) = (Inr [MsgRec (msgRecord message0 ''hi'')], worldB\<lparr>tick := t\<rparr>)"
  using worldB_simps(4) by (intro collect_dbMessage) (simp_all add: keyOf_def)

theorem transfer_copies_history_witness:
  "\<exists>fs si wi. deliver envH fs (readySide, world0) = (si, wi) \<and> sd_done si = Some (Inr 1) \<and>
     stored envH key0 (\<lambda>c. orElse (cr_status c) PendingInbound) (idb wi) (MsgRec (msgRecord message0 ''hi''))"
proof -
  have c: "collectLocalRecords envH worldB = (Inr [MsgRec (msgRecord message0 ''hi'')], worldB)"
    by (rule collect_dbMessage) simp_all
  have "\<exists>se we fs si wi.
    ((\<lambda>p. snd (exStream envH p)) ^^ Suc (length [MsgRec (msgRecord message0 ''hi'')])) (snd (exMaybeStream envH (readySide, worldB))) = (se, we) \<and>
    sd_out se = sd_out readySide @ fs \<and> deliver envH fs (readySide, world0) = (si, wi) \<and>
    sd_done se = Some (Inr (length [MsgRec (msgRecord message0 ''hi'')])) \<and> sd_done si = Some (Inr (length [MsgRec (msgRecord message0 ''hi'')])) \<and>
    sd_total si = int (length [MsgRec (msgRecord message0 ''hi'')]) \<and>
    (\<forall>rec \<in> set [MsgRec (msgRecord message0 ''hi'')]. storedWith envH key0 (\<lambda>_. PendingInbound) (idb wi) rec)"
    by (rule transfer_copies_history [OF envH_simps(1) c, of readySide key0 readySide])
       (simp_all add: readySide_def sideInit_def freshFor_def)
  then show ?thesis by auto
qed

theorem export_follows_swapped_key_witness:
  "\<exists>t1 t2. let
      p1 = snd (exStart envH dc0 (sideInit, worldB));
      p2 = snd (exFrame envH dc0 (helloFrame [3]) p1);
      p3 = snd (exConfirm envH p2);
      p4 = snd (exFrame envH dc0 (helloFrame [4]) p3);
      p5 = snd (exFrame envH dc0 (encFrame envH ([4] @ replicate 31 0) t1 (JObj [(''t'', JStr ''ready'')])) p4);
      p6 = snd (exStream envH p5)
    in sd_sas (fst p2) = Some (computeSAS envH [1] [3]) \<and>
       last (sd_out (fst p6)) = encFrame envH ([4] @ replicate 31 0) t2 (chunkJson 0 (MsgRec (msgRecord message0 ''hi'')))"
  using export_follows_swapped_key [of envH dc0 worldB "\<lparr>kp_pub = [1], kp_priv = [2]\<rparr>" "[3]" "[3] @ replicate 31 0" "[4]" "[4] @ replicate 31 0"
      "MsgRec (msgRecord message0 ''hi'')" "[]"] collect_worldB
  by (simp add: dc0_def dbMessage_def numeral_eq_Suc)

theorem unconfirmed_peer_is_linked_witness:
  "\<exists>w' row. exFrame envH dc0 (encFrame envH key0 0 (linkJson (replicate 32 (CHR ''a'')) ''X''))
       (sideInit\<lparr>sd_eph := Some \<lparr>kp_pub = [1], kp_priv = [2]\<rparr>, sd_key := Some key0, sd_secret := Some [5]\<rparr>,
        worldB\<lparr>idb := dbSealed\<rparr>) =
     (Inr (), (sideInit\<lparr>sd_eph := Some \<lparr>kp_pub = [1], kp_priv = [2]\<rparr>, sd_key := Some key0, sd_secret := Some [5]\<rparr>, w')) \<and>
     tget (linked_tbl (idb w')) (replicate 32 (CHR ''a'')) = Some row"
proof -
  let ?s = "sideInit\<lparr>sd_eph := Some \<lparr>kp_pub = [1], kp_priv = [2]\<rparr>, sd_key := Some key0, sd_secret := Some [5]\<rparr>"
  have "keyOf (worldB\<lparr>idb := dbSealed\<rparr>) = Some key0" using worldB_simps(4) by (simp add: keyOf_def)
  moreover have "map_option st_value (tget (settings_tbl dbSealed) ENABLED_KEY) = Some (JBool True)"
    by (simp add: dbSealed_def tget_def)
  moreover have "lowerHexN 32 (replicate 32 (CHR ''a''))" by (simp add: lowerHexN_def list_all_iff isHexLower_def)
  ultimately show ?thesis
    using unconfirmed_peer_is_linked [of envH ?s "\<lparr>kp_pub = [1], kp_priv = [2]\<rparr>" key0 "[5]" "worldB\<lparr>idb := dbSealed\<rparr>" key0
        "replicate 32 (CHR ''a'')" dc0 0 "''X''"] by (auto simp: sideInit_def)
qed

section \<open>Recovery and onboarding\<close>

theorem recovery_proves_saves_publishes_witness:
  "\<exists>r w' ra wa. completeRecovery env0 bundle0 None world0 = (r, w') \<and> authenticateBundle env0 bundle0 world0 = (ra, wa) \<and>
     (case ra of Inl e \<Rightarrow> r = Inl e \<and> idb w' = db0
      | Inr v \<Rightarrow> r = Inr () \<longrightarrow> au_userId (auth w') = Some ''px_me'')"
proof -
  obtain r w' ra wa where c: "completeRecovery env0 bundle0 None world0 = (r, w')" "authenticateBundle env0 bundle0 world0 = (ra, wa)"
    by fastforce
  from recovery_proves_saves_publishes [OF aes0 key0_of c]
  show ?thesis unfolding c by (cases ra) auto
qed

lemma gen0: "genIdentityBundle (wasm env0) 0 [] = bundleFrom wasm0 0 ''abandon ability'' [1, 2, 3]"
  by (simp add: genIdentityBundle_def env0_def wasm0_def)

lemma keygen0: "keygen_total (wasm env0)"
  by (simp add: keygen_total_def env0_def wasm0_def)

theorem seed_phrase_recovers_identity_witness:
  "\<exists>b. genIdentityBundle (wasm env0) 0 [] = Inr b \<and> (\<exists>b'. b_identity b' = b_identity b \<and>
     recoverWithSeed env0 (workerRecoveryCrypto env0) ''  abandon   ability '' world0 =
       andThen (completeRecovery env0 b' None) (ret (b_userId b)) (world0\<lparr>tick := 1\<rparr>))"
proof -
  have "\<exists>ys. mapE (makeOpk wasm0 0 1 1) [0..<OPK_COUNT] = Inr ys"
    using keygen0 by (intro mapE_total makeOpk_total) (simp add: env0_def)
  then obtain b where b: "genIdentityBundle (wasm env0) 0 [] = Inr b" "b_mnemonic b = ''abandon ability''"
    unfolding gen0 by (auto simp: bundleFrom_def wasm0_def)
  have "gapsOk [(''abandon'', ''   '')]" "isWord ''ability''" by (simp_all add: gapsOk_def isWord_def is_space_def)
  then show ?thesis
    using seed_phrase_recovers_identity [OF keygen0 b(1), of "[(''abandon'', ''   '')]" "''ability''" "''  ''" "'' ''" world0] b
    by (auto simp: typedWords_def is_space_def)
qed

text \<open>Sealing that names the key it seals to, and shares of which any two differ.\<close>

definition wrap0 :: "nat \<Rightarrow> bytes \<Rightarrow> bytes \<Rightarrow> error + WrappedCek" where
  "wrap0 t x pub = Inr \<lparr>wc_wrapped = hd (pub @ [0]) # x, wc_ephPub = replicate 32 4\<rparr>"

definition cr0 :: ContactRecoveryCryptoApi where
  "cr0 = \<lparr>cr_ephKeypair = (\<lambda>t. Inr \<lparr>kp_pub = replicate 32 9, kp_priv = [9]\<rparr>), cr_wrapCek = wrap0,
     cr_unwrapCek = (\<lambda>c e p. if take 1 c = take 1 p then Inr (drop 1 c) else Inl (JsError ''bad'')),
     cr_shamirReconstruct = (\<lambda>ss. Inr [42]), cr_recoverBundleFromSeed = (\<lambda>t s. Inr bundle0),
     cr_solvePow = (\<lambda>t c d a. Inl (JsError ''unused''))\<rparr>"

definition fc0 :: FileCryptoApi where
  "fc0 = \<lparr>fc_generateCek = (\<lambda>t. Inr []), fc_wrapCek = wrap0, fc_unwrapCek = (\<lambda>t c e p. Inr c)\<rparr>"

definition contact0 :: "bytes \<Rightarrow> PlainContact" where
  "contact0 k = \<lparr>pc_px_id = toHex k, pc_name = [], pc_verified = True, pc_status = Accepted, pc_ik_ed25519 = [], pc_ik_x25519 = k, pc_added_at = 0\<rparr>"

definition blobTo9 :: "bytes \<Rightarrow> string" where
  "blobTo9 x = shareBlob \<lparr>wc_wrapped = 9 # x, wc_ephPub = replicate 32 4\<rparr>"

lemma cr0_simps [simp]: "cr_unwrapCek cr0 c e p = (if take 1 c = take 1 p then Inr (drop 1 c) else Inl (JsError ''bad''))"
  "cr_shamirReconstruct cr0 ss = Inr [42]" "cr_wrapCek cr0 = wrap0" "cr_recoverBundleFromSeed cr0 t s' = Inr bundle0"
  by (simp_all add: cr0_def)

lemma seals0: "sealsApart wrap0 cr0 [[7], [8]] [[7], [8]]" "sealsApart wrap0 cr0 [replicate 32 9] [[9]]"
  by (auto simp: sealsApart_def wrap0_def RK_PUB_LEN_def less_Suc_eq numeral_eq_Suc nth_Cons' split: if_splits)

lemma opens9: "unsealBlob cr0 (blobTo9 x) [9] = Some x"
  by (simp add: blobTo9_def unseal_shareBlob RK_PUB_LEN_def)

theorem emergency_contacts_return_seed_witness:
  "fst (unsealAndReconstruct cr0 [9] [blobTo9 [50], blobTo9 [60]] []) = Some [42]"
proof -
  let ?cs = "[contact0 [7], contact0 [8]]" and ?sh = "[[50], [60]] :: bytes list"
  let ?wire = "[(1, shareBlob \<lparr>wc_wrapped = [7, 50], wc_ephPub = replicate 32 4\<rparr>), (2, shareBlob \<lparr>wc_wrapped = [8, 60], wc_ephPub = replicate 32 4\<rparr>)]"
  obtain w1 where run: "sealShares fc0 1 ?cs ?sh world0 = (Inr ?wire, w1)"
    by (simp add: fc0_def wrap0_def contact0_def)
  have f: "firstShare cr0 [7] ?wire = Some [50]" "firstShare cr0 [8] ?wire = Some [60]"
    by (simp_all add: unseal_shareBlob RK_PUB_LEN_def)
  have "firstShare cr0 ([[7], [8]] ! 0) ?wire = Some (?sh ! 0) \<and> firstShare cr0 ([[7], [8]] ! 1) ?wire = Some (?sh ! 1) \<and>
    fst (unsealAndReconstruct cr0 (kp_priv \<lparr>kp_pub = replicate 32 9, kp_priv = [9]\<rparr>) [blobTo9 [50], blobTo9 [60]] []) = Some [42]"
    by (rule emergency_contacts_return_seed [OF run, where t = 0 and t' = 0 and wi = "\<lparr>wc_wrapped = [9, 50], wc_ephPub = replicate 32 4\<rparr>"
          and wj = "\<lparr>wc_wrapped = [9, 60], wc_ephPub = replicate 32 4\<rparr>"])
       (use seals0 f in \<open>auto simp: fc0_def contact0_def blobTo9_def\<close>, simp_all add: wrap0_def)
  then show ?thesis by simp
qed

text \<open>A server whose bucket holds what one contact posted, twice, and something that does not open.\<close>

definition envR :: env where
  "envR = env0\<lparr>fetch := (\<lambda>t r. Some \<lparr>rsp_status = 200,
     rsp_json = Some (JObj [(''blobs'', JArr [JStr (blobTo9 [50]), JStr ''00'', JStr (blobTo9 [50])])]), rsp_raw = []\<rparr>)\<rparr>"

definition session0 :: RecoverySession where
  "session0 = \<lparr>rc_recoveryId = ''00'', rc_rk = \<lparr>kp_pub = replicate 32 9, kp_priv = [9]\<rparr>, rc_code = [], rc_sas = []\<rparr>"

lemma poll0: "\<exists>w'. rendezvousPoll envR ''00'' world0 = (Inr [blobTo9 [50], ''00'', blobTo9 [50]], w')"
  by (simp add: rendezvousPoll_def get_api_def run_fetchReq jsonReply_def rspOk_def typed_def parseAll_def envR_def)

theorem two_contacts_recover_witness:
  "\<exists>m w'. pollContactRecovery envR cr0 session0 ([], world0) = (Inr (None, 3), (m, w')) \<and> snd ` set m = {[50]}"
proof -
  obtain w' where p: "rendezvousPoll envR (rc_recoveryId session0) world0 = (Inr [blobTo9 [50], ''00'', blobTo9 [50]], w')"
    using poll0 by (auto simp: session0_def)
  have u: "unsealBlob cr0 ''00'' [9] = None" by (simp add: unsealBlob_def RK_PUB_LEN_def)
  have seen: "sharesSeen cr0 (kp_priv (rc_rk session0)) [blobTo9 [50], ''00'', blobTo9 [50]] [] = {[50]}"
    by (auto simp: sharesSeen_def session0_def opens9 u)
  from two_contacts_recover [OF p, of "[]" cr0 "[[50]]" "[42]"] seen show ?thesis by (auto simp: shareMap_def)
qed

lemma genIdentity0: "\<exists>b. cy_genIdentity (workerCrypto env0) t e = Inr b \<and> b_userId b \<noteq> []"
proof -
  have "\<exists>ys. mapE (makeOpk wasm0 t 1 1) [0..<OPK_COUNT] = Inr ys"
    using keygen0 by (intro mapE_total makeOpk_total) (simp add: env0_def)
  then show ?thesis by (auto simp: workerCrypto_def genIdentityBundle_def bundleFrom_def env0_def wasm0_def)
qed

lemma generate0:
  assumes "cy_genIdentity (workerCrypto env0) (Suc 0) (map (rand_byte env0 0) [0..<32]) = Inr b"
  shows "\<exists>w1. generateIdentity env0 (workerCrypto env0) world0 = (Inr (b_userId b), w1)"
proof -
  have "keyOf (world0\<lparr>tick := t\<rparr>) = Some key0" for t using key0_of by (simp add: keyOf_def)
  then show ?thesis using assms getMasterKey_keyOf [of "world0\<lparr>tick := _\<rparr>" key0 env0]
    by (simp add: generateIdentity_def nextSpkRotation_def persistGeneratedIdentity_def run_writeBundle saveProgress_def)
qed

theorem onboarding_resumes_identity_witness:
  "\<exists>u w1. generateIdentity env0 (workerCrypto env0) world0 = (Inr u, w1) \<and>
     (\<exists>b. b_userId b = u \<and> fst (loadBundle env0 (w1\<lparr>auth := \<lparr>au_authenticated = False, au_userId = None, au_sessionToken = None\<rparr>\<rparr>)) = Inr (Some b))"
proof -
  obtain b where b: "cy_genIdentity (workerCrypto env0) (Suc 0) (map (rand_byte env0 0) [0..<32]) = Inr b" "b_userId b \<noteq> []"
    using genIdentity0 by blast
  obtain w1 where g: "generateIdentity env0 (workerCrypto env0) world0 = (Inr (b_userId b), w1)" using generate0 [OF b(1)] by blast
  let ?w2 = "w1\<lparr>auth := \<lparr>au_authenticated = False, au_userId = None, au_sessionToken = None\<rparr>\<rparr>"
  have "(onboardingStep env0 (workerCrypto env0))\<^sup>*\<^sup>* w1 ?w2" by (rule r_into_rtranclp, rule onboardingStep.reload)
  from onboarding_resumes_identity [OF aes0 key0_of g b(2) this] g show ?thesis by auto
qed

section \<open>Seed words, the worker and the chat view\<close>

definition words12 :: "string list" where
  "words12 = [''abandon'', ''ability'', ''able'', ''about'', ''above'', ''absent'', ''absorb'', ''abstract'', ''absurd'', ''abuse'', ''access'', ''zoo'']"

text \<open>The list as it is copied from the screen, last word first and in capitals at the start.\<close>

theorem parseSeedText_reads_by_number_witness:
  "parseSeedText (\<lambda>s. s) (''12ZOO11access10abuse9absurd8abstract7absorb6absent5above4about3able2ability1abandon'') = words12"
proof (rule parseSeedText_reads_by_number [where lead = "[]" and trail = "[]" and items = "map (\<lambda>i. (i, [], [])) (rev [0..<12])"])
  show "toLower ''12ZOO11access10abuse9absurd8abstract7absorb6absent5above4about3able2ability1abandon'' =
    [] @ concat (map (itemText words12) (map (\<lambda>i. (i, [], [])) (rev [0..<12]))) @ []"
    by code_simp
  show "\<forall>x \<in> set words12. isSeedWord x" by (simp add: words12_def isSeedWord_def isLetter_def)
qed (auto simp: words12_def noise_def o_def)

theorem pickConfirmIndices_ends_witness:
  "\<exists>ps. pickConfirmIndices 4 12 3 (\<lambda>k. if k < 3 then real k / 3 else 0) = Some ps \<and> sorted ps \<and> length ps = 3"
proof -
  let ?rng = "\<lambda>k::nat. if k < 3 then real k / 3 else 0"
  have r: "\<forall>k. 0 \<le> ?rng k \<and> ?rng k < 1" by auto
  have "drawn ?rng 12 0 = 1" "drawn ?rng 12 1 = 5" "drawn ?rng 12 2 = 9" by (simp_all add: drawn_def)
  then have "drawn ?rng 12 ` {0..<3} = {1, 5, 9}" by (simp add: numeral_3_eq_3 atLeast0_lessThan_Suc insert_commute numeral_2_eq_2)
  then have "min 3 12 \<le> card (drawn ?rng 12 ` {0..<3})" by simp
  from pickConfirmIndices_ends [OF r this] show ?thesis by auto
qed

text \<open>Two calls, of which the second is finished first.\<close>

definition echo0 :: "string \<Rightarrow> nat handler" where
  "echo0 m args = ([1], Inr (length args))"

theorem cryptoCall_answers_its_own_witness:
  "\<exists>s. rpcReach (\<lambda>e. ''Error'') echo0 s \<and> map fst (rp_settled s) = [2] \<and> distinct (map fst (rp_settled s))"
proof -
  let ?str = "\<lambda>e :: error. ''Error''"
  let ?q1 = "(1::nat, ''a'', [7::nat])" and ?q2 = "(2::nat, ''b'', [8::nat, 9])"
  let ?s2 = "cryptoCall ''b'' [8, 9] (cryptoCall ''a'' [7] rpcInit)"
  let ?s3 = "?s2\<lparr>rp_toWorker := [?q2], rp_running := [?q1]\<rparr>"
  let ?s4 = "?s3\<lparr>rp_toWorker := [], rp_running := [?q1, ?q2]\<rparr>"
  let ?s5 = "?s4\<lparr>rp_running := [?q1], rp_toTab := [Progress 2 1, Done 2 2]\<rparr>"
  let ?s6 = "onReply (Progress 2 1) (?s5\<lparr>rp_toTab := [Done 2 2]\<rparr>)"
  let ?s7 = "onReply (Done 2 2) (?s6\<lparr>rp_toTab := []\<rparr>)"
  have r2: "rpcReach ?str echo0 ?s2" by (rule rpcReach.step [OF rpcReach.step [OF rpcReach.init rpcStep.call] rpcStep.call])
  have "rpcStep ?str echo0 ?s2 ?s3"
    using rpcStep.start [of ?s2 ?q1 "[?q2]" ?str echo0] by (simp add: cryptoCall_def rpcInit_def)
  with r2 have r3: "rpcReach ?str echo0 ?s3" by (rule rpcReach.step)
  have "rpcStep ?str echo0 ?s3 ?s4" using rpcStep.start [of ?s3 ?q2 "[]" ?str echo0] by simp
  with r3 have r4: "rpcReach ?str echo0 ?s4" by (rule rpcReach.step)
  have "workerReplies ?str echo0 ?q2 = [Progress 2 1, Done 2 2]" by (simp add: workerReplies_def echo0_def settle_def)
  then have "rpcStep ?str echo0 ?s4 ?s5"
    using rpcStep.finish [of ?s4 "[?q1]" ?q2 "[]" ?str echo0] by (simp add: cryptoCall_def rpcInit_def)
  with r4 have r5: "rpcReach ?str echo0 ?s5" by (rule rpcReach.step)
  have "rpcStep ?str echo0 ?s5 ?s6" using rpcStep.answer [of ?s5 "Progress 2 1" "[Done 2 2]" ?str echo0] by simp
  with r5 have r6: "rpcReach ?str echo0 ?s6" by (rule rpcReach.step)
  have "rp_toTab ?s6 = [Done 2 2]" by (simp add: cryptoCall_def rpcInit_def)
  then have "rpcStep ?str echo0 ?s6 ?s7" by (rule rpcStep.answer)
  with r6 have r: "rpcReach ?str echo0 ?s7" by (rule rpcReach.step)
  have "map fst (rp_settled ?s7) = [2]" by (simp add: cryptoCall_def rpcInit_def)
  moreover have "distinct (map fst (rp_settled ?s7))" using cryptoCall_answers_its_own [OF r] by (rule conjunct1)
  ultimately show ?thesis using r by (intro exI [where x = ?s7] conjI)
qed

definition calendar0 :: calendar where
  "calendar0 = \<lparr>ca_startOfLocalDay = (\<lambda>t. t div 86400000 * 86400000), ca_year = (\<lambda>t. 1970), ca_format = (\<lambda>t y. ''Jan 1'')\<rparr>"

definition chat0 :: "msgLike list" where
  "chat0 = [\<lparr>ml_timestamp = 10, ml_direction = ''in'', ml_msg_id = ''a''\<rparr>, \<lparr>ml_timestamp = 20, ml_direction = ''in'', ml_msg_id = ''b''\<rparr>,
     \<lparr>ml_timestamp = 90000, ml_direction = ''in'', ml_msg_id = ''c''\<rparr>]"

theorem buildChatTimeline_groups_witness:
  "map fst (msgRows (buildChatTimeline calendar0 0 chat0)) = chat0 \<and>
   \<not> snd (snd (msgRows (buildChatTimeline calendar0 0 chat0) ! 0)) \<and> snd (snd (msgRows (buildChatTimeline calendar0 0 chat0) ! 1))"
proof -
  let ?g = "\<lambda>i. let closes = snd (snd (msgRows (buildChatTimeline calendar0 0 chat0) ! i)) in
       closes = fst (snd (msgRows (buildChatTimeline calendar0 0 chat0) ! Suc i)) \<and>
       closes = (dayOf calendar0 (chat0 ! i) \<noteq> dayOf calendar0 (chat0 ! Suc i) \<or> ml_direction (chat0 ! i) \<noteq> ml_direction (chat0 ! Suc i) \<or>
                 300 < ml_timestamp (chat0 ! Suc i) - ml_timestamp (chat0 ! i))"
  have g: "?g 0" "?g 1" "map fst (msgRows (buildChatTimeline calendar0 0 chat0)) = chat0"
    using buildChatTimeline_groups [of calendar0 0 chat0] by (simp_all only: chat0_def list.size)
  have d: "dayOf calendar0 (chat0 ! 0) = 0" "dayOf calendar0 (chat0 ! Suc 0) = 0" "dayOf calendar0 (chat0 ! Suc (Suc 0)) = 86400000"
    "ml_direction (chat0 ! 0) = ''in''" "ml_direction (chat0 ! Suc 0) = ''in''" "ml_timestamp (chat0 ! Suc 0) - ml_timestamp (chat0 ! 0) = 10"
    by (simp_all add: chat0_def calendar0_def dayOf_def)
  show ?thesis using g unfolding Let_def One_nat_def d by auto
qed

end
