(* ===== verification/UiServices.thy ===== *)
theory UiServices
  imports Applock Recovery
begin

text \<open>
  The small services beside the screens: the announcement banner
  (\<^verbatim>\<open>services/announcement.ts\<close>, \<^verbatim>\<open>components/AnnouncementBanner.tsx\<close>), the server's client
  configuration (\<^verbatim>\<open>services/client-config.ts\<close>), the event bus that refreshes the screens of
  every tab (\<^verbatim>\<open>services/events.ts\<close>), the two setting stores (\<^verbatim>\<open>store/theme.ts\<close>,
  \<^verbatim>\<open>store/screenRecord.ts\<close>), the checklist of the home screen
  (\<^verbatim>\<open>components/FinishSetup.tsx\<close>) and the copy button (\<^verbatim>\<open>hooks/useCopyToClipboard.ts\<close>).
\<close>

text \<open>\<open>e instanceof Error ? e.message : fallback\<close>; what is thrown is always an \<open>Error\<close> here.\<close>

definition errorMessage :: "string \<Rightarrow> error \<Rightarrow> string" where
  "errorMessage fallback e = (case e of JsError m \<Rightarrow> m | ApiError n \<Rightarrow> ''api '' @ showInt n)"

section \<open>Announcements\<close>

definition MAX_MESSAGE_CHARS :: nat where "MAX_MESSAGE_CHARS = 500"
definition ANNOUNCEMENT_URL :: string where "ANNOUNCEMENT_URL = ''/announcement.json''"
definition DISMISSED_KEY :: string where "DISMISSED_KEY = ''privex_announcement_dismissed''"
definition SEVERITIES :: "string list" where "SEVERITIES = [''info'', ''warning'', ''error'']"

record Announcement =
  an_version :: int
  an_message :: string
  an_severity :: string
  an_dismissible :: bool

text \<open>A field of another type counts as absent; versions are integers.\<close>

definition parseAnnouncement :: "json \<Rightarrow> Announcement option" where
  "parseAnnouncement j =
     (case (jint (jget ''version'' j), jstr (jget ''message'' j), jstr (jget ''severity'' j), jbool (jget ''dismissible'' j)) of
        (Some v, Some m, Some s, Some d) \<Rightarrow>
          if MAX_MESSAGE_CHARS < length m \<or> s \<notin> set SEVERITIES then None
          else Some \<lparr>an_version = v, an_message = m, an_severity = s, an_dismissible = d\<rparr>
      | _ \<Rightarrow> None)"

definition plainGet :: "string \<Rightarrow> httpRequest" where
  "plainGet url = \<lparr>rq_method = GET, rq_url = url, rq_token = None, rq_body = BodyNone\<rparr>"

definition fetchAnnouncement :: "env \<Rightarrow> Announcement option act" where
  "fetchAnnouncement E =
     tryCatch
       (await (fetchReq E (plainGet ANNOUNCEMENT_URL)) (\<lambda>res.
        if \<not> rspOk res then ret None
        else case rsp_json res of None \<Rightarrow> throw (JsError ''SyntaxError'') | Some j \<Rightarrow> ret (parseAnnouncement j)))
       (\<lambda>_. ret None)"

text \<open>\<open>localStorage\<close> of the browser; \<open>None\<close> where it may not be used.\<close>

type_synonym localStorage = "(string \<rightharpoonup> string) option"

definition getDismissedVersion :: "localStorage \<Rightarrow> int" where
  "getDismissedVersion ls = orElse (jint (Option.bind (Option.bind ls (\<lambda>m. m DISMISSED_KEY)) json_parse)) 0"

definition dismissAnnouncement :: "int \<Rightarrow> localStorage \<Rightarrow> localStorage" where
  "dismissAnnouncement version ls = map_option (\<lambda>m. m(DISMISSED_KEY \<mapsto> showInt version)) ls"

text \<open>What the banner shows of a fetched announcement.\<close>

definition bannerFor :: "localStorage \<Rightarrow> Announcement option \<Rightarrow> Announcement option" where
  "bannerFor ls a = (case a of None \<Rightarrow> None
     | Some a \<Rightarrow> if an_dismissible a \<and> an_version a \<le> getDismissedVersion ls then None else Some a)"

section \<open>Client configuration\<close>

text \<open>The reply is kept as it is; a flag is on when it is truthy.\<close>

definition truthy :: "json option \<Rightarrow> bool" where
  "truthy v = (case v of None \<Rightarrow> False | Some JNull \<Rightarrow> False | Some (JBool b) \<Rightarrow> b | Some (JNum i) \<Rightarrow> i \<noteq> 0
     | Some (JStr s) \<Rightarrow> s \<noteq> [] | _ \<Rightarrow> True)"

definition FALLBACK :: json where "FALLBACK = JObj [(''file_uploads_enabled'', JBool False)]"

definition getClientConfig :: "env \<Rightarrow> json option \<Rightarrow> (json \<times> json option) act" where
  "getClientConfig E cached =
     (if truthy cached then ret (the cached, cached) else
      tryCatch
        (await (fetchReq E (plainGet ''/config/client'')) (\<lambda>res.
         if \<not> rspOk res then ret (FALLBACK, cached)
         else case rsp_json res of None \<Rightarrow> throw (JsError ''SyntaxError'') | Some j \<Rightarrow> ret (j, Some j)))
        (\<lambda>_. ret (FALLBACK, cached)))"

definition uploadsEnabled :: "json \<Rightarrow> bool" where
  "uploadsEnabled c = truthy (jget ''file_uploads_enabled'' c)"

section \<open>The event bus\<close>

text \<open>A tab is the list of its subscriptions: the kind that is listened to (an event of that kind
  with any payload) and the listener. Emitting calls the listeners of the emitting tab and posts
  the event to the channel, which calls those of every other tab. Without a channel the other
  tabs hear nothing.\<close>

datatype evKind = KMessage | KContacts | KOutbox | KKeyAlert

fun kindOf :: "uiEvent \<Rightarrow> evKind" where
  "kindOf (EvMessage p) = KMessage"
| "kindOf EvContacts = KContacts"
| "kindOf EvOutbox = KOutbox"
| "kindOf EvKeyAlert = KKeyAlert"

type_synonym tab = "(evKind \<times> nat) list"

definition subscribe :: "evKind \<Rightarrow> nat \<Rightarrow> tab \<Rightarrow> tab" where
  "subscribe k l t = (if (k, l) \<in> set t then t else t @ [(k, l)])"

definition unsubscribe :: "evKind \<Rightarrow> nat \<Rightarrow> tab \<Rightarrow> tab" where
  "unsubscribe k l t = filter (\<lambda>p. p \<noteq> (k, l)) t"

definition fireIn :: "uiEvent \<Rightarrow> tab \<Rightarrow> (nat \<times> uiEvent) list" where
  "fireIn e t = map (\<lambda>p. (snd p, e)) (filter (\<lambda>p. fst p = kindOf e) t)"

definition emitFrom :: "bool \<Rightarrow> nat \<Rightarrow> uiEvent \<Rightarrow> tab list \<Rightarrow> (nat \<times> nat \<times> uiEvent) list" where
  "emitFrom channel i e tabs =
     map (Pair i) (fireIn e (tabs ! i)) @
     (if channel then concat (map (\<lambda>j. map (Pair j) (fireIn e (tabs ! j))) (filter (\<lambda>j. j \<noteq> i) [0..<length tabs])) else [])"

section \<open>Settings of the look\<close>

definition THEME_KEY :: string where "THEME_KEY = ''theme''"

definition themeInit :: "string \<Rightarrow> (bool \<times> string) act" where
  "themeInit mode =
     await (settingGet THEME_KEY) (\<lambda>v. case jstr v of
       Some stored \<Rightarrow> if stored \<in> {''dark'', ''light'', ''amoled''} then ret (True, stored) else ret (False, mode)
     | None \<Rightarrow> ret (False, mode))"

definition setMode :: "string \<Rightarrow> string act" where
  "setMode m = andThen (settingPut THEME_KEY (JStr m)) (ret m)"

definition SCREEN_RECORD_KEY :: string where "SCREEN_RECORD_KEY = ''screen_record_protection''"

definition screenRecordInit :: "bool act" where
  "screenRecordInit = await (settingGet SCREEN_RECORD_KEY) (\<lambda>v. ret (v = Some (JBool True)))"

definition setScreenRecord :: "bool \<Rightarrow> bool act" where
  "setScreenRecord v = andThen (settingPut SCREEN_RECORD_KEY (JBool v)) (ret v)"

section \<open>The checklist of the home screen\<close>

definition DISMISS_KEY :: string where "DISMISS_KEY = ''finish_setup_dismissed''"
definition SEED_SAVED_KEY :: string where "SEED_SAVED_KEY = ''recovery_seed_saved''"

record finishSetup =
  fs_recovery :: bool
  fs_lock :: bool
  fs_dismissed :: bool

definition finishRefresh :: "env \<Rightarrow> webauthnApi \<Rightarrow> finishSetup act" where
  "finishRefresh E wa =
     await (tryCatch (opaqueRecoveryStatus E) (\<lambda>_. ret False)) (\<lambda>opq.
     await (settingGet RECOVERY_CONTACTS_KEY) (\<lambda>contactsRow.
     await (settingGet SEED_SAVED_KEY) (\<lambda>seedRow.
     await (lockStatus wa) (\<lambda>lk.
     await (settingGet DISMISS_KEY) (\<lambda>dis.
     ret \<lparr>fs_recovery = (opq \<or> contactsRow \<noteq> None \<or> seedRow = Some (JBool True)), fs_lock = lk_enabled lk,
          fs_dismissed = (dis = Some (JBool True))\<rparr>)))))"

definition finishVisible :: "finishSetup option \<Rightarrow> bool" where
  "finishVisible st = (case st of None \<Rightarrow> False | Some s \<Rightarrow> \<not> (fs_dismissed s \<or> fs_recovery s \<and> fs_lock s))"

definition finishDismiss :: "finishSetup \<Rightarrow> finishSetup act" where
  "finishDismiss s = andThen (settingPut DISMISS_KEY (JBool True)) (ret (s\<lparr>fs_dismissed := True\<rparr>))"

section \<open>The copy button\<close>

text \<open>Writes to the clipboard that are under way and timers that are set carry the id of their
  request.\<close>

record copyState =
  cp_copied :: bool
  cp_requestId :: nat
  cp_writes :: "nat list"
  cp_timer :: "nat option"

definition copyInit :: copyState where
  "copyInit = \<lparr>cp_copied = False, cp_requestId = 0, cp_writes = [], cp_timer = None\<rparr>"

definition copyText :: "bool \<Rightarrow> copyState \<Rightarrow> copyState" where
  "copyText clipboard s =
     (let i = Suc (cp_requestId s); s1 = s\<lparr>cp_timer := None, cp_requestId := i\<rparr> in
      if \<not> clipboard then s1\<lparr>cp_copied := False\<rparr> else s1\<lparr>cp_writes := cp_writes s1 @ [i]\<rparr>)"

definition copyWritten :: "nat \<Rightarrow> bool \<Rightarrow> copyState \<Rightarrow> copyState" where
  "copyWritten i ok s =
     (let s1 = s\<lparr>cp_writes := remove1 i (cp_writes s)\<rparr> in
      if i \<noteq> cp_requestId s then s1 else if ok then s1\<lparr>cp_copied := True, cp_timer := Some i\<rparr> else s1\<lparr>cp_copied := False\<rparr>)"

definition copyTimeout :: "copyState \<Rightarrow> copyState" where
  "copyTimeout s = (case cp_timer s of None \<Rightarrow> s
     | Some i \<Rightarrow> if i \<noteq> cp_requestId s then s\<lparr>cp_timer := None\<rparr> else s\<lparr>cp_timer := None, cp_copied := False\<rparr>)"

definition copyUnmount :: "copyState \<Rightarrow> copyState" where
  "copyUnmount s = s\<lparr>cp_timer := None, cp_requestId := Suc (cp_requestId s)\<rparr>"

section \<open>Lemmas\<close>

lemma getDismissed_dismiss: "getDismissedVersion (dismissAnnouncement v (Some m)) = v"
proof -
  have "json_parse (showInt v) = Some (JNum v)" using json_parse_stringify [of "JNum v"] unfolding stringify.simps by simp
  then show ?thesis by (simp add: getDismissedVersion_def dismissAnnouncement_def)
qed

text \<open>A dismissed announcement stays away until a newer version is published.\<close>

lemma dismissed_until_newer:
  "bannerFor (dismissAnnouncement v (Some m)) (Some a) = None \<longleftrightarrow> an_dismissible a \<and> an_version a \<le> v"
  by (simp add: bannerFor_def getDismissed_dismiss)

lemma distinct_subscribe: "distinct t \<Longrightarrow> distinct (subscribe k l t)"
  by (simp add: subscribe_def)

text \<open>Every listener of the event's kind, in whichever tab, is called exactly once.\<close>

lemma distinct_tagged:
  "distinct js \<Longrightarrow> (\<And>j. j \<in> set js \<Longrightarrow> distinct (g j)) \<Longrightarrow> distinct (concat (map (\<lambda>j. map (Pair j) (g j)) js))"
  by (induction js) (auto simp: distinct_map inj_on_def)

lemma emit_reaches_all_once:
  assumes "i < length tabs" "\<forall>t \<in> set tabs. distinct t"
  shows "distinct (emitFrom True i e tabs) \<and>
    set (emitFrom True i e tabs) = {(j, l, e) |j l. j < length tabs \<and> (kindOf e, l) \<in> set (tabs ! j)}"
proof
  have d: "distinct (fireIn e (tabs ! j))" if "j < length tabs" for j
    using assms(2) that by (auto simp: fireIn_def distinct_map inj_on_def prod_eq_iff)
  have "distinct (concat (map (\<lambda>j. map (Pair j) (fireIn e (tabs ! j))) (i # filter (\<lambda>j. j \<noteq> i) [0..<length tabs])))"
    using assms(1) d by (intro distinct_tagged) auto
  then show "distinct (emitFrom True i e tabs)" by (simp add: emitFrom_def)
  show "set (emitFrom True i e tabs) = {(j, l, e) |j l. j < length tabs \<and> (kindOf e, l) \<in> set (tabs ! j)}"
  proof -
    have f: "(l, e') \<in> set (fireIn e t) \<longleftrightarrow> e' = e \<and> (kindOf e, l) \<in> set t" for l e' t
      by (force simp: fireIn_def)
    show ?thesis using assms(1) by (auto simp: emitFrom_def f)
  qed
qed

text \<open>A missing or broken configuration keeps uploads off.\<close>

lemma config_fails_closed:
  assumes "getClientConfig E cached w = (r, w')" "\<forall>q. fetch E (tick w) q = None" "\<not> truthy cached"
  shows "\<exists>c. r = Inr (c, cached) \<and> \<not> uploadsEnabled c"
  using assms by (auto simp: getClientConfig_def fetchReq_def uploadsEnabled_def FALLBACK_def await_def tryCatch_def truthy_def [of "Some _"])

end
