(* ===== verification/AppBoot.thy ===== *)
theory AppBoot
  imports Session UiServices
begin

text \<open>
  The root of the app (\<^verbatim>\<open>App.tsx\<close>), the guard that locks it again
  (\<^verbatim>\<open>components/AppLockGuard.tsx\<close>) and the unlock screen (\<^verbatim>\<open>screens/UnlockScreen.tsx\<close>).

  The component's state, its refs, the promises and timers it waits for and the two effects
  that depend on the state are one record, beside the state of the socket, the core and the
  cover-traffic scheduler (\<open>shell\<close>). Each callback is one function on it. Restoring the session
  waits for the server, so an attempt and its end are two steps; the other calls only read or
  write the device and are one step. Reading and drawing are left out: of a rendered view only
  the choice of the screen is kept. The flags \<open>busy\<close> only disable buttons.
\<close>

section \<open>State\<close>

datatype boot = BLoading | BReady | BOffline | BLocked

record bootState =
  bt_boot :: boot
  bt_retries :: nat
  bt_restoring :: nat
  bt_timers :: "int list"
  bt_deps :: "(boot \<times> bool \<times> string option) option"
  bt_live :: bool
  bt_guard :: "(int \<times> int) option"
  bt_pass :: string
  bt_error :: "string option"
  bt_autoTried :: bool
  bt_shell :: shell

definition bootWorld :: "bootState \<Rightarrow> world" where
  "bootWorld s = ap_world (fst (bt_shell s))"

definition onShell :: "(shell \<Rightarrow> shell) \<Rightarrow> bootState \<Rightarrow> bootState" where
  "onShell f s = s\<lparr>bt_shell := f (bt_shell s)\<rparr>"

definition onApp :: "appAct \<Rightarrow> bootState \<Rightarrow> bootState" where
  "onApp f = onShell (\<lambda>(a, c). (f a, c))"

definition onCover :: "(coverState \<Rightarrow> coverState) \<Rightarrow> bootState \<Rightarrow> bootState" where
  "onCover f = onShell (\<lambda>(a, c). (a, f c))"

text \<open>Run a program of the core and continue with its result.\<close>

definition runCore :: "'a act \<Rightarrow> (error + 'a \<Rightarrow> bootState \<Rightarrow> bootState) \<Rightarrow> bootState \<Rightarrow> bootState" where
  "runCore m k s = (case m (bootWorld s) of (r, w) \<Rightarrow> k r (onApp (\<lambda>a. a\<lparr>ap_world := w\<rparr>) s))"

section \<open>Restoring with retries\<close>

definition MAX_BOOT_RETRIES :: nat where "MAX_BOOT_RETRIES = 6"

definition retryDelay :: "nat \<Rightarrow> int" where
  "retryDelay n = min 15000 (1500 * 2 ^ (n - 1))"

definition bootAttempt :: "bootState \<Rightarrow> bootState" where
  "bootAttempt s = s\<lparr>bt_boot := BLoading, bt_restoring := Suc (bt_restoring s)\<rparr>"

text \<open>\<open>attempt\<close> from the answer of \<open>restoreSession\<close> on.\<close>

definition restored :: "env \<Rightarrow> bootState \<Rightarrow> bootState" where
  "restored E =
     runCore (doRestore E) (\<lambda>r s.
       let s1 = s\<lparr>bt_restoring := bt_restoring s - 1\<rparr> in
       case r of
         Inr _ \<Rightarrow> s1\<lparr>bt_boot := BReady\<rparr>
       | Inl _ \<Rightarrow>
           (let n = Suc (bt_retries s) in
            if n \<le> MAX_BOOT_RETRIES then s1\<lparr>bt_retries := n, bt_timers := bt_timers s @ [retryDelay n]\<rparr>
            else s1\<lparr>bt_retries := n, bt_boot := BOffline\<rparr>))"

definition tryRestore :: "bootState \<Rightarrow> bootState" where
  "tryRestore s = bootAttempt (s\<lparr>bt_retries := 0\<rparr>)"

definition startBoot :: "bootState \<Rightarrow> bootState" where
  "startBoot =
     runCore (await isLockEnabled (\<lambda>e. await isUnlocked (\<lambda>u. ret (e \<and> \<not> u)))) (\<lambda>r s.
       if r = Inr True then s\<lparr>bt_boot := BLocked\<rparr> else bootAttempt s)"

definition onUnlocked :: "bootState \<Rightarrow> bootState" where
  "onUnlocked s = (if au_authenticated (auth (bootWorld s)) then s\<lparr>bt_boot := BReady\<rparr> else bootAttempt (s\<lparr>bt_retries := 0\<rparr>))"

section \<open>The unlock screen\<close>

definition unlockPass :: "env \<Rightarrow> AppLockKdf \<Rightarrow> bootState \<Rightarrow> bootState" where
  "unlockPass E kdf s =
     runCore (unlockWithPassphrase E kdf (bt_pass s)) (\<lambda>r s.
       case r of
         Inr _ \<Rightarrow> onUnlocked (s\<lparr>bt_pass := []\<rparr>)
       | Inl e \<Rightarrow> s\<lparr>bt_error := Some (errorMessage (''Couldn'' @ CHR 0x27 # ''t unlock.'') e)\<rparr>) (s\<lparr>bt_error := None\<rparr>)"

definition unlockBio :: "env \<Rightarrow> webauthnApi \<Rightarrow> bool \<Rightarrow> bootState \<Rightarrow> bootState" where
  "unlockBio E wa auto s =
     runCore (unlockWithBiometric E wa) (\<lambda>r s.
       case r of
         Inr _ \<Rightarrow> onUnlocked s
       | Inl e \<Rightarrow> if auto then s else s\<lparr>bt_error := Some (errorMessage ''Biometric unlock failed.'' e)\<rparr>) (s\<lparr>bt_error := None\<rparr>)"

text \<open>The effect of the mounted screen: biometrics are tried once without a tap.\<close>

definition unlockMounted :: "env \<Rightarrow> webauthnApi \<Rightarrow> bootState \<Rightarrow> bootState" where
  "unlockMounted E wa =
     runCore (lockStatus wa) (\<lambda>r s.
       case r of
         Inr st \<Rightarrow> if lk_biometric st \<and> lk_biometricAvailable st \<and> \<not> bt_autoTried s
                   then unlockBio E wa True (s\<lparr>bt_autoTried := True\<rparr>) else s
       | Inl _ \<Rightarrow> s)"

section \<open>What runs while the app is open\<close>

definition bootDeps :: "bootState \<Rightarrow> boot \<times> bool \<times> string option" where
  "bootDeps s = (bt_boot s, au_authenticated (auth (bootWorld s)), au_sessionToken (auth (bootWorld s)))"

definition tearDown :: "bootState \<Rightarrow> bootState" where
  "tearDown s = onApp (onWorld stopTokenRenewal) (onApp disconnectWebSocket (onCover stopCoverTraffic s))"

definition setUp :: "env \<Rightarrow> string \<Rightarrow> bootState \<Rightarrow> bootState" where
  "setUp E tok s =
     onApp (onWorld startTokenRenewal) (onApp (onWorld (spawn TMigrateBackupIds))
       (onCover startCoverTraffic (onApp (connectWebSocket E tok) s)))"

text \<open>The effect on \<open>[boot, authenticated, token]\<close>: when one of them changed since it last ran, the
  old cleanup runs, then the body.\<close>

definition connectionEffect :: "env \<Rightarrow> bootState \<Rightarrow> bootState" where
  "connectionEffect E s =
     (if bt_deps s = Some (bootDeps s) then s
      else (let s1 = (if bt_live s then tearDown s else s);
                tok = orElse (au_sessionToken (auth (bootWorld s))) []
            in if bt_boot s = BReady \<and> au_authenticated (auth (bootWorld s)) \<and> tok \<noteq> []
               then (setUp E tok s1)\<lparr>bt_live := True, bt_deps := Some (bootDeps s)\<rparr>
               else s1\<lparr>bt_live := False, bt_deps := Some (bootDeps s)\<rparr>))"

text \<open>The app drains the outbox when the network returns or the service worker wakes it.\<close>

definition flushIfActive :: "bootState \<Rightarrow> bootState" where
  "flushIfActive s = (if au_authenticated (auth (bootWorld s)) then onApp (onWorld (spawn TFlushOutbox)) s else s)"

datatype homeScreen = ScreenUnlock | ScreenLoading | ScreenOffline | ScreenConversations | ScreenOnboarding

definition homeRoute :: "bootState \<Rightarrow> homeScreen" where
  "homeRoute s = (case bt_boot s of BLocked \<Rightarrow> ScreenUnlock | BLoading \<Rightarrow> ScreenLoading | BOffline \<Rightarrow> ScreenOffline
     | BReady \<Rightarrow> if au_authenticated (auth (bootWorld s)) then ScreenConversations else ScreenOnboarding)"

section \<open>Locking again\<close>

definition doLock :: "bootState \<Rightarrow> bootState" where
  "doLock = runCore isLockEnabled (\<lambda>r s. if r \<noteq> Inr True then s else onShell lockApp (s\<lparr>bt_boot := BLocked\<rparr>))"

text \<open>The guard is mounted while the app is ready; its refs are the time of the last activity and
  the idle window.\<close>

definition mountGuard :: "int \<Rightarrow> bootState \<Rightarrow> bootState" where
  "mountGuard now s =
     (if bt_boot s \<noteq> BReady then s\<lparr>bt_guard := None\<rparr>
      else s\<lparr>bt_guard := Some (orElse (bt_guard s) (now, DEFAULT_IDLE_MS))\<rparr>)"

definition idleLoaded :: "bootState \<Rightarrow> bootState" where
  "idleLoaded = runCore getIdleMs (\<lambda>r s. case (r, bt_guard s) of
     (Inr ms, Some (since, _)) \<Rightarrow> s\<lparr>bt_guard := Some (since, ms)\<rparr> | _ \<Rightarrow> s)"

definition bump :: "int \<Rightarrow> bootState \<Rightarrow> bootState" where
  "bump now s = s\<lparr>bt_guard := map_option (\<lambda>(_, idle). (now, idle)) (bt_guard s)\<rparr>"

datatype lockEvent = IdleInterval int | VisibilityChange bool int | PageShow bool | Freeze

fun lockDue :: "lockEvent \<Rightarrow> int \<times> int \<Rightarrow> bool" where
  "lockDue (IdleInterval now) (since, idle) \<longleftrightarrow> idle \<le> now - since"
| "lockDue (VisibilityChange visible now) (since, idle) \<longleftrightarrow> visible \<and> idle \<le> now - since"
| "lockDue (PageShow persisted) g \<longleftrightarrow> persisted"
| "lockDue Freeze g \<longleftrightarrow> True"

definition onLockEvent :: "lockEvent \<Rightarrow> bootState \<Rightarrow> bootState" where
  "onLockEvent ev s = (case bt_guard s of None \<Rightarrow> s | Some g \<Rightarrow> if lockDue ev g then doLock s else s)"

text \<open>A render is committed: its effects run.\<close>

definition commitBoot :: "env \<Rightarrow> int \<Rightarrow> bootState \<Rightarrow> bootState" where
  "commitBoot E now s = mountGuard now (connectionEffect E s)"

section \<open>The state machine\<close>

text \<open>Only restoring, and the screens of the ready app, sign in; the lock is opened by the unlock
  screen alone; renewal is switched on by the effect alone. This is what \<open>aside\<close> asks of
  whatever else runs in the meantime, as long as the app is not ready.\<close>

definition aside :: "world \<Rightarrow> world \<Rightarrow> bool" where
  "aside w w' \<longleftrightarrow> (au_authenticated (auth w') \<longrightarrow> au_authenticated (auth w)) \<and>
     (memKey (keystore w) = None \<longrightarrow> memKey (keystore w') = None)"

definition background :: "bootState \<Rightarrow> shell \<Rightarrow> bool" where
  "background s t \<longleftrightarrow> (bt_boot s = BReady \<or> aside (bootWorld s) (ap_world (fst t))) \<and>
     (renewEnabled (ap_world (fst t)) \<longrightarrow> renewEnabled (bootWorld s))"

text \<open>Everything but unlocking.\<close>

inductive bootStep ::
  "env \<Rightarrow> MessageCryptoApi \<Rightarrow> verifyEd25519 \<Rightarrow> sendReceiptFn \<Rightarrow> unit act \<Rightarrow> bootState \<Rightarrow> bootState \<Rightarrow> bool"
  for E mc v send cover where
  restored: "0 < bt_restoring s \<Longrightarrow> bootStep E mc v send cover s (restored E s)"
| timer: "bt_timers s = xs @ d # ys \<Longrightarrow> bootStep E mc v send cover s (bootAttempt (s\<lparr>bt_timers := xs @ ys\<rparr>))"
| retry: "bt_boot s = BOffline \<Longrightarrow> bootStep E mc v send cover s (tryRestore s)"
| commit: "bootStep E mc v send cover s (commitBoot E now s)"
| typed: "bootStep E mc v send cover s (s\<lparr>bt_pass := p\<rparr>)"
| lockEvent: "bt_boot s = BReady \<Longrightarrow> bootStep E mc v send cover s (onLockEvent ev s)"
| activity: "bootStep E mc v send cover s (bump now s)"
| idle: "bootStep E mc v send cover s (idleLoaded s)"
| flush: "bootStep E mc v send cover s (flushIfActive s)"
| socket: "lateStep E mc v (fst (bt_shell s)) a \<Longrightarrow> background s (a, snd (bt_shell s)) \<Longrightarrow>
    bootStep E mc v send cover s (s\<lparr>bt_shell := (a, snd (bt_shell s))\<rparr>)"
| cover: "coverStep E send cover (snd (bt_shell s), bootWorld s) (c, w) \<Longrightarrow> (cv_running c \<Longrightarrow> cv_running (snd (bt_shell s))) \<Longrightarrow>
    background s ((fst (bt_shell s))\<lparr>ap_world := w\<rparr>, c) \<Longrightarrow>
    bootStep E mc v send cover s (s\<lparr>bt_shell := ((fst (bt_shell s))\<lparr>ap_world := w\<rparr>, c)\<rparr>)"

inductive unlockStep :: "env \<Rightarrow> AppLockKdf \<Rightarrow> webauthnApi \<Rightarrow> bootState \<Rightarrow> bootState \<Rightarrow> bool" for E kdf wa where
  pass: "bt_boot s = BLocked \<Longrightarrow> unlockStep E kdf wa s (unlockPass E kdf s)"
| bio: "bt_boot s = BLocked \<Longrightarrow> unlockStep E kdf wa s (unlockBio E wa auto s)"
| mounted: "bt_boot s = BLocked \<Longrightarrow> unlockStep E kdf wa s (unlockMounted E wa s)"

definition bootInit :: "world \<Rightarrow> bootState" where
  "bootInit w = \<lparr>bt_boot = BLoading, bt_retries = 0, bt_restoring = 0, bt_timers = [], bt_deps = None, bt_live = False,
     bt_guard = None, bt_pass = [], bt_error = None, bt_autoTried = False, bt_shell = (\<lparr>ap_ws = wsInit, ap_world = w\<rparr>, coverInit)\<rparr>"

text \<open>A fresh page: no session, no renewal.\<close>

inductive bootReach ::
  "env \<Rightarrow> MessageCryptoApi \<Rightarrow> verifyEd25519 \<Rightarrow> sendReceiptFn \<Rightarrow> unit act \<Rightarrow> AppLockKdf \<Rightarrow> webauthnApi \<Rightarrow> bootState \<Rightarrow> bool"
  for E mc v send cover kdf wa where
  start: "\<not> au_authenticated (auth w) \<Longrightarrow> \<not> renewEnabled w \<Longrightarrow> bootReach E mc v send cover kdf wa (startBoot (bootInit w))"
| step: "bootReach E mc v send cover kdf wa s \<Longrightarrow> bootStep E mc v send cover s s' \<Longrightarrow> bootReach E mc v send cover kdf wa s'"
| unlock: "bootReach E mc v send cover kdf wa s \<Longrightarrow> unlockStep E kdf wa s s' \<Longrightarrow> bootReach E mc v send cover kdf wa s'"

section \<open>Access\<close>

lemma bootWorld_simps [simp]:
  "bootWorld (s\<lparr>bt_boot := b\<rparr>) = bootWorld s" "bootWorld (s\<lparr>bt_retries := n\<rparr>) = bootWorld s"
  "bootWorld (s\<lparr>bt_restoring := m\<rparr>) = bootWorld s" "bootWorld (s\<lparr>bt_timers := ts\<rparr>) = bootWorld s"
  "bootWorld (s\<lparr>bt_deps := d\<rparr>) = bootWorld s" "bootWorld (s\<lparr>bt_live := l\<rparr>) = bootWorld s"
  "bootWorld (s\<lparr>bt_guard := g\<rparr>) = bootWorld s" "bootWorld (s\<lparr>bt_pass := p\<rparr>) = bootWorld s"
  "bootWorld (s\<lparr>bt_error := e\<rparr>) = bootWorld s" "bootWorld (s\<lparr>bt_autoTried := t\<rparr>) = bootWorld s"
  by (simp_all add: bootWorld_def)

lemma onApp_simps [simp]:
  "bt_boot (onApp f s) = bt_boot s" "bt_retries (onApp f s) = bt_retries s" "bt_restoring (onApp f s) = bt_restoring s"
  "bt_timers (onApp f s) = bt_timers s" "bt_deps (onApp f s) = bt_deps s" "bt_live (onApp f s) = bt_live s"
  "bt_guard (onApp f s) = bt_guard s" "bt_pass (onApp f s) = bt_pass s" "bt_autoTried (onApp f s) = bt_autoTried s"
  "bt_shell (onApp f s) = (f (fst (bt_shell s)), snd (bt_shell s))" "bootWorld (onApp f s) = ap_world (f (fst (bt_shell s)))"
  by (simp_all add: onApp_def onShell_def bootWorld_def split: prod.splits)

lemma onCover_simps [simp]:
  "bt_boot (onCover f s) = bt_boot s" "bt_retries (onCover f s) = bt_retries s" "bt_restoring (onCover f s) = bt_restoring s"
  "bt_timers (onCover f s) = bt_timers s" "bt_deps (onCover f s) = bt_deps s" "bt_live (onCover f s) = bt_live s"
  "bt_guard (onCover f s) = bt_guard s" "bt_pass (onCover f s) = bt_pass s" "bt_autoTried (onCover f s) = bt_autoTried s"
  "bt_shell (onCover f s) = (fst (bt_shell s), f (snd (bt_shell s)))" "bootWorld (onCover f s) = bootWorld s"
  by (simp_all add: onCover_def onShell_def bootWorld_def split: prod.splits)

lemma onShell_simps [simp]:
  "bt_boot (onShell f s) = bt_boot s" "bt_retries (onShell f s) = bt_retries s" "bt_restoring (onShell f s) = bt_restoring s"
  "bt_timers (onShell f s) = bt_timers s" "bt_deps (onShell f s) = bt_deps s" "bt_live (onShell f s) = bt_live s"
  "bt_shell (onShell f s) = f (bt_shell s)" "bootWorld (onShell f s) = ap_world (fst (f (bt_shell s)))"
  by (simp_all add: onShell_def bootWorld_def)

section \<open>What the calls leave alone\<close>

definition sessionKept :: "world \<Rightarrow> world \<Rightarrow> bool" where
  "sessionKept w w' \<longleftrightarrow> auth w' = auth w \<and> renewEnabled w' = renewEnabled w"

interpretation sk: step_relation sessionKept
  by unfold_locales (auto simp: sessionKept_def)

lemma keeps_sk_ak: "keeps authKept m \<Longrightarrow> keeps sessionKept m"
  by (erule keeps_mono) (simp add: authKept_def sessionKept_def)

lemmas keeps_sk_quiet = keeps_sk_ak [OF keeps_ak_quiet]

lemma keeps_sk_simple: "keeps sessionKept (setUnlockedKey k)" "keeps sessionKept (settingPut key v)" "keeps sessionKept (settingDelete key)"
  by (rule keepsI, simp add: sessionKept_def setUnlockedKey_def settingPut_def settingDelete_def await_def importDataKey_def)+

lemma keeps_sk_unlock: "keeps sessionKept (unlockWithPassphrase E kdf p)" "keeps sessionKept (unlockWithBiometric E wa)"
  "keeps sessionKept (lockStatus wa)"
  unfolding unlockWithPassphrase_def unlockWithBiometric_def lockStatus_def recordFailure_def clearFailures_def throttle_def failState_def
    getLockMeta_def
  by (intro sk.keeps_rules keeps_sk_simple keeps_sk_quiet keeps_intro)+

definition renewKept :: "world \<Rightarrow> world \<Rightarrow> bool" where
  "renewKept w w' \<longleftrightarrow> renewEnabled w' = renewEnabled w"

interpretation rk: step_relation renewKept
  by unfold_locales (auto simp: renewKept_def)

lemma keeps_rk_ak: "keeps authKept m \<Longrightarrow> keeps renewKept m"
  by (erule keeps_mono) (simp add: authKept_def renewKept_def)

lemma keeps_rk_simple: "keeps renewKept (setSession t u)" "keeps renewKept (setAuthenticated u)" "keeps renewKept (spawn k)"
  by (rule keepsI, simp add: renewKept_def setSession_def setAuthenticated_def spawn_def)+

lemma keeps_rk_doRestore: "keeps renewKept (doRestore E)"
  unfolding doRestore_def loadProgress_def
  by (intro rk.keeps_rules keeps_rk_simple keeps_rk_ak [OF keeps_ak_authenticate] keeps_rk_ak [OF keeps_ak_loadBundle]
      keeps_rk_ak [OF keeps_ak_quiet] keeps_intro)

text \<open>Only \<open>connectWebSocket\<close> makes the client want a connection.\<close>

lemma active_openSocket [simp]: "active (ap_ws (openSocket E g a)) = active (ap_ws a)"
  by (auto simp: openSocket_def active_def split: prod.split)

lemma active_frame [simp]: "active (ap_ws (handleFrame E mc v f a)) = active (ap_ws a)"
  by (auto simp: handleFrame_def Let_def wsSend_def active_def split: option.split)

lemma active_onWs [simp]:
  "active (k\<lparr>wk_opening := x1\<rparr>) = active k" "active (k\<lparr>wk_timers := x2\<rparr>) = active k" "active (k\<lparr>wk_frames := x3\<rparr>) = active k"
  "active (k\<lparr>wk_socks := x4\<rparr>) = active k" "active (k\<lparr>wk_ws := x5\<rparr>) = active k" "active (k\<lparr>wk_gen := x6\<rparr>) = active k"
  "active (k\<lparr>wk_connected := x7\<rparr>) = active k" "active (k\<lparr>wk_retry := x8\<rparr>) = active k" "active (k\<lparr>wk_lastFrameAt := x9\<rparr>) = active k"
  "active (k\<lparr>wk_next := x10\<rparr>) = active k" "active (closeSock i k) = active k"
  by (simp_all add: active_def)

lemma active_late:
  assumes "lateStep E mc v a a'" "active (ap_ws a')"
  shows "active (ap_ws a)"
proof -
  from assms(1) obtain "wsStep E mc v a a'" "\<And>tok. a' \<noteq> connectWebSocket E tok a" by (auto elim: lateStep.cases)
  then show ?thesis using assms(2)
    by (induction rule: wsStep.induct)
       (auto simp: ticketDone_def scheduleReconnect_def Let_def onopen_def onmessage_def onclose_def setStatus_def
          checkStaleness_def runFrame_def active_def [of "ap_ws (disconnectWebSocket _)"] split: sum.splits list.splits if_splits)
qed

lemma active_disconnect [simp]: "\<not> active (ap_ws (disconnectWebSocket a))"
  by (simp add: active_def)

lemma stopped_cover [simp]: "\<not> cv_running (stopCoverTraffic c)"
  by (simp add: stopCoverTraffic_def)

section \<open>The invariant\<close>

definition running :: "bootState \<Rightarrow> bool" where
  "running s \<longleftrightarrow> active (ap_ws (fst (bt_shell s))) \<or> cv_running (snd (bt_shell s)) \<or> renewEnabled (bootWorld s)"

definition chain :: "bootState \<Rightarrow> bool" where
  "chain s \<longleftrightarrow> bt_restoring s + length (bt_timers s) = (if bt_boot s = BLoading then 1 else 0)"

definition bootInv :: "env \<Rightarrow> MessageCryptoApi \<Rightarrow> verifyEd25519 \<Rightarrow> bootState \<Rightarrow> bool" where
  "bootInv E mc v s \<longleftrightarrow> chain s \<and> (bt_boot s = BLocked \<longrightarrow> \<not> au_authenticated (auth (bootWorld s))) \<and>
     (running s \<longrightarrow> bt_live s) \<and> (bt_live s \<longrightarrow> (\<exists>tok. bt_deps s = Some (BReady, True, tok))) \<and>
     wsReach E mc v (fst (bt_shell s))"

lemma wsReach_setWorld: "wsReach E mc v a \<Longrightarrow> wsReach E mc v (a\<lparr>ap_world := w\<rparr>)"
  by (rule wsReach.step [OF _ wsStep.core])

lemma bootWorld_app: "bootWorld s = ap_world (fst (bt_shell s))"
  by (simp add: bootWorld_def)

lemma runCore_run: "m (bootWorld s) = (r, w) \<Longrightarrow> runCore m k s = k r (onApp (\<lambda>a. a\<lparr>ap_world := w\<rparr>) s)"
  by (simp add: runCore_def)

text \<open>A call that keeps the session kept the invariant.\<close>

lemma inv_setWorld:
  assumes "bootInv E mc v s" "sessionKept (bootWorld s) w"
  shows "bootInv E mc v (onApp (\<lambda>a. a\<lparr>ap_world := w\<rparr>) s)"
  using assms by (simp add: bootInv_def chain_def running_def sessionKept_def wsReach_setWorld)

lemma inv_runCore:
  assumes "bootInv E mc v s" "keeps sessionKept m"
    and "\<And>r s'. bootInv E mc v s' \<Longrightarrow> bt_boot s' = bt_boot s \<Longrightarrow> bt_guard s' = bt_guard s \<Longrightarrow> bootInv E mc v (k r s')"
  shows "bootInv E mc v (runCore m k s)"
proof -
  obtain r w where m: "m (bootWorld s) = (r, w)" by fastforce
  have "bootInv E mc v (onApp (\<lambda>a. a\<lparr>ap_world := w\<rparr>) s)" by (rule inv_setWorld [OF assms(1) keepsD [OF assms(2) m]])
  moreover have "runCore m k s = k r (onApp (\<lambda>a. a\<lparr>ap_world := w\<rparr>) s)" using m by (rule runCore_run)
  ultimately show ?thesis using assms(3) by simp
qed

lemma inv_onWorld:
  assumes "bootInv E mc v s" "keeps sessionKept m"
  shows "bootInv E mc v (onApp (onWorld m) s)"
proof -
  obtain r w where m: "m (bootWorld s) = (r, w)" by fastforce
  then have "onApp (onWorld m) s = onApp (\<lambda>a. a\<lparr>ap_world := w\<rparr>) s"
    by (cases "bt_shell s") (simp add: onApp_def onShell_def onWorld_def bootWorld_def)
  then show ?thesis using inv_setWorld [OF assms(1) keepsD [OF assms(2) m]] by simp
qed

lemma inv_fields:
  "bootInv E mc v (s\<lparr>bt_pass := p\<rparr>) = bootInv E mc v s" "bootInv E mc v (s\<lparr>bt_error := e\<rparr>) = bootInv E mc v s"
  "bootInv E mc v (s\<lparr>bt_guard := g\<rparr>) = bootInv E mc v s" "bootInv E mc v (s\<lparr>bt_autoTried := t\<rparr>) = bootInv E mc v s"
  "bootInv E mc v (s\<lparr>bt_retries := n\<rparr>) = bootInv E mc v s"
  by (simp_all add: bootInv_def chain_def running_def)

lemma inv_attempt:
  assumes "bootInv E mc v s" "bt_boot s \<noteq> BLoading"
  shows "bootInv E mc v (bootAttempt s)"
  using assms by (simp add: bootInv_def chain_def running_def bootAttempt_def)

lemma inv_onUnlocked: "bootInv E mc v s \<Longrightarrow> bt_boot s = BLocked \<Longrightarrow> bootInv E mc v (onUnlocked s)"
  using inv_attempt [of E mc v "s\<lparr>bt_retries := 0\<rparr>"]
  by (auto simp: onUnlocked_def inv_fields) (simp add: bootInv_def)

lemma inv_restored:
  assumes "bootInv E mc v s" "0 < bt_restoring s"
  shows "bootInv E mc v (restored E s)"
proof -
  obtain r w where r: "doRestore E (bootWorld s) = (r, w)" by fastforce
  have w: "renewEnabled w = renewEnabled (bootWorld s)" using keepsD [OF keeps_rk_doRestore r] by (simp add: renewKept_def)
  have "bt_boot s = BLoading" "bt_restoring s + length (bt_timers s) = 1"
    using assms by (auto simp: bootInv_def chain_def split: if_splits)
  then have c: "bt_boot s = BLoading" "bt_restoring s = 1" "bt_timers s = []"
    using assms(2) by (cases "bt_timers s", simp_all)+
  let ?t = "onApp (\<lambda>a. a\<lparr>ap_world := w\<rparr>) s"
  have t: "running ?t = running s" "wsReach E mc v (fst (bt_shell ?t))"
    using assms(1) w by (simp_all add: running_def bootInv_def wsReach_setWorld)
  show ?thesis
    unfolding restored_def runCore_run [where m = "doRestore E", OF r]
    using assms(1) c w by (cases r) (auto simp: Let_def bootInv_def chain_def running_def wsReach_setWorld)
qed

lemma tearDown_simps [simp]:
  "bt_boot (tearDown s) = bt_boot s" "bt_restoring (tearDown s) = bt_restoring s" "bt_timers (tearDown s) = bt_timers s"
  "auth (bootWorld (tearDown s)) = auth (bootWorld s)" "\<not> running (tearDown s)"
  by (simp_all add: tearDown_def running_def stopTokenRenewal_def bootWorld_app)

lemma tearDown_reach: "wsReach E mc v (fst (bt_shell s)) \<Longrightarrow> wsReach E mc v (fst (bt_shell (tearDown s)))"
  by (simp add: tearDown_def wsReach_world wsReach.step [OF _ wsStep.disconnect])

lemma setUp_simps [simp]:
  "bt_boot (setUp E tok s) = bt_boot s" "bt_restoring (setUp E tok s) = bt_restoring s" "bt_timers (setUp E tok s) = bt_timers s"
  by (simp_all add: setUp_def)

text \<open>The effect connects only when the client does not want a connection already.\<close>

lemma setUp_reach:
  assumes "wsReach E mc v (fst (bt_shell s))" "\<not> active (ap_ws (fst (bt_shell s)))" "tok \<noteq> []"
  shows "wsReach E mc v (fst (bt_shell (setUp E tok s)))"
proof -
  have "wk_stopped (ap_ws (fst (bt_shell s))) \<or> wk_token (ap_ws (fst (bt_shell s))) = None"
    using assms(2) by (auto simp: active_def)
  then have "wsReach E mc v (connectWebSocket E tok (fst (bt_shell s)))"
    using assms(1,3) by (intro wsReach.step [OF _ wsStep.connect])
  then show ?thesis by (simp add: setUp_def wsReach_world)
qed

lemma inv_effect:
  assumes "bootInv E mc v s"
  shows "bootInv E mc v (connectionEffect E s)"
proof (cases "bt_deps s = Some (bootDeps s)")
  case True
  then show ?thesis using assms by (simp add: connectionEffect_def)
next
  case False
  let ?s1 = "if bt_live s then tearDown s else s"
  have 1: "\<not> running ?s1" "wsReach E mc v (fst (bt_shell ?s1))" "bt_boot ?s1 = bt_boot s" "chain ?s1"
    "auth (bootWorld ?s1) = auth (bootWorld s)"
    using assms tearDown_reach by (auto simp: bootInv_def chain_def)
  then have na: "\<not> active (ap_ws (fst (bt_shell ?s1)))" by (simp add: running_def)
  let ?tok = "orElse (au_sessionToken (auth (bootWorld s))) []"
  show ?thesis
  proof (cases "bt_boot s = BReady \<and> au_authenticated (auth (bootWorld s)) \<and> ?tok \<noteq> []")
    case True
    then have "connectionEffect E s = (setUp E ?tok ?s1)\<lparr>bt_live := True, bt_deps := Some (bootDeps s)\<rparr>"
      using False by (simp add: connectionEffect_def Let_def)
    then show ?thesis using setUp_reach [OF 1(2) na] True 1
      by (simp add: bootInv_def chain_def bootDeps_def)
  next
    case f: False
    then have "connectionEffect E s = ?s1\<lparr>bt_live := False, bt_deps := Some (bootDeps s)\<rparr>"
      using False by (auto simp: connectionEffect_def Let_def)
    then show ?thesis using 1 assms by (simp add: bootInv_def chain_def running_def)
  qed
qed

lemma wsReach_late: "wsReach E mc v a \<Longrightarrow> lateStep E mc v a a' \<Longrightarrow> wsReach E mc v a'"
  by (auto elim: lateStep.cases intro: wsReach.step)

lemma inv_background:
  assumes "bootInv E mc v s" "background s (a, c)" "wsReach E mc v a"
    and "active (ap_ws a) \<Longrightarrow> active (ap_ws (fst (bt_shell s)))" "cv_running c \<Longrightarrow> cv_running (snd (bt_shell s))"
  shows "bootInv E mc v (s\<lparr>bt_shell := (a, c)\<rparr>)"
  using assms by (auto simp: bootInv_def chain_def running_def background_def aside_def bootWorld_def)

lemma lockApp_simps [simp]:
  "\<not> active (ap_ws (fst (lockApp p)))" "\<not> cv_running (snd (lockApp p))" "\<not> au_authenticated (auth (ap_world (fst (lockApp p))))"
  "memKey (keystore (ap_world (fst (lockApp p)))) = None"
  "renewEnabled (ap_world (fst (lockApp p))) = renewEnabled (ap_world (fst p))"
  by (cases p, simp add: lockApp_def Let_def lockApp_ws lockApp_world signOut_def resetMessaging_def lockNow_def)+

lemma inv_lock:
  assumes "bootInv E mc v s" "bt_boot s = BReady"
  shows "bootInv E mc v (onShell lockApp (s\<lparr>bt_boot := BLocked\<rparr>))"
proof -
  have "wsReach E mc v (fst (lockApp (bt_shell s)))"
    using assms(1) wsReach_lockApp [of E mc v "fst (bt_shell s)" "snd (bt_shell s)"] by (simp add: bootInv_def)
  then show ?thesis using assms by (auto simp: bootInv_def chain_def running_def bootWorld_app)
qed

lemma isLockEnabled_run: "isLockEnabled w = (Inr (lockMeta (keystore w) \<noteq> None), w)"
  by (simp add: isLockEnabled_def ksGets_def)

lemma onApp_same: "onApp (\<lambda>a. a\<lparr>ap_world := bootWorld s\<rparr>) s = s"
  by (simp add: onApp_def onShell_def bootWorld_def split: prod.split)

lemma doLock_run:
  "doLock s = (if lockMeta (keystore (bootWorld s)) = None then s else onShell lockApp (s\<lparr>bt_boot := BLocked\<rparr>))"
  by (simp add: doLock_def runCore_def isLockEnabled_run onApp_same)

lemma keeps_sk_idle: "keeps sessionKept getIdleMs"
  unfolding getIdleMs_def by (intro sk.keeps_rules keeps_sk_quiet keeps_intro)

lemma inv_bootStep:
  assumes "bootStep E mc v send cover s s'" "bootInv E mc v s"
  shows "bootInv E mc v s'"
  using assms
proof (induction rule: bootStep.induct)
  case (restored s)
  then show ?case by (rule inv_restored [rotated])
next
  case (timer s xs d ys)
  then have "bt_boot s = BLoading" "length xs = 0" "length ys = 0" "bt_restoring s = 0"
    by (auto simp: bootInv_def chain_def split: if_splits)
  then show ?case using timer by (simp add: bootInv_def chain_def running_def bootAttempt_def)
next
  case (retry s)
  then show ?case by (simp add: tryRestore_def inv_attempt inv_fields)
next
  case (commit s now)
  then show ?case by (simp add: commitBoot_def mountGuard_def inv_fields inv_effect)
next
  case (lockEvent s ev)
  then show ?case by (auto simp: onLockEvent_def doLock_run inv_lock split: option.split)
next
  case (activity s now)
  then show ?case by (simp add: bump_def inv_fields)
next
  case (idle s)
  then show ?case unfolding idleLoaded_def
    by (intro inv_runCore keeps_sk_idle) (auto simp: inv_fields split: sum.split option.split)
next
  case (flush s)
  have "keeps sessionKept (spawn TFlushOutbox)" by (rule keepsI) (simp add: sessionKept_def spawn_def)
  then show ?case using flush by (simp add: flushIfActive_def inv_onWorld)
next
  case (socket s a)
  have "wsReach E mc v (fst (bt_shell s))" using socket.prems by (simp add: bootInv_def)
  then show ?case
    by (intro inv_background [OF socket.prems socket.hyps(2)] wsReach_late [OF _ socket.hyps(1)] active_late [OF socket.hyps(1)])
next
  case (cover s c w)
  have "wsReach E mc v (fst (bt_shell s))" using cover.prems by (simp add: bootInv_def)
  then show ?case
    by (intro inv_background [OF cover.prems cover.hyps(3)] wsReach_setWorld cover.hyps(2)) simp_all
qed (simp add: inv_fields)

lemma inv_unlock:
  assumes "unlockStep E kdf wa s s'" "bootInv E mc v s"
  shows "bootInv E mc v s'"
  using assms
proof (induction rule: unlockStep.induct)
  case (pass s)
  then show ?case unfolding unlockPass_def
    by (intro inv_runCore keeps_sk_unlock) (auto simp: inv_fields inv_onUnlocked split: sum.split)
next
  case (bio s auto)
  then show ?case unfolding unlockBio_def
    by (intro inv_runCore keeps_sk_unlock) (auto simp: inv_fields inv_onUnlocked split: sum.split)
next
  case (mounted s)
  have bio: "bootInv E mc v s \<Longrightarrow> bt_boot s = BLocked \<Longrightarrow> bootInv E mc v (unlockBio E wa auto s)" for s auto
    unfolding unlockBio_def by (intro inv_runCore keeps_sk_unlock) (auto simp: inv_fields inv_onUnlocked split: sum.split)
  show ?case using mounted unfolding unlockMounted_def
    by (intro inv_runCore keeps_sk_unlock) (auto simp: inv_fields bio split: sum.split)
qed

lemma inv_start:
  assumes "\<not> au_authenticated (auth w)" "\<not> renewEnabled w"
  shows "bootInv E mc v (startBoot (bootInit w))"
proof -
  have "runCore (await isLockEnabled (\<lambda>e. await isUnlocked (\<lambda>u. ret (e \<and> \<not> u)))) k s =
      k (Inr (lockMeta (keystore (bootWorld s)) \<noteq> None \<and> memKey (keystore (bootWorld s)) = None)) s" for k s
    by (simp add: runCore_def isLockEnabled_run isUnlocked_def ksGets_def onApp_same)
  then show ?thesis using assms wsReach.start [of E mc v w]
    by (simp add: startBoot_def bootInit_def bootAttempt_def bootInv_def chain_def running_def bootWorld_def active_def wsInit_def coverInit_def)
qed

lemma inv_bootReach: "bootReach E mc v send cover kdf wa s \<Longrightarrow> bootInv E mc v s"
  by (induction rule: bootReach.induct) (auto intro: inv_start inv_bootStep inv_unlock)

lemma keeps_ak_wsTicket: "keeps authKept (wsTicket E tok)"
  unfolding wsTicket_def by (intro ak.keeps_rules keeps_ak_post keeps_ak_str)

lemma auth_openSocket [simp]: "auth (ap_world (openSocket E g a)) = auth (ap_world a)"
proof -
  obtain r w where t: "wsTicket E (the (wk_token (ap_ws a))) (ap_world a) = (r, w)" by fastforce
  show ?thesis using keepsD [OF keeps_ak_wsTicket t] by (simp add: openSocket_def t authKept_def)
qed

lemma auth_setUp [simp]: "auth (bootWorld (setUp E tok s)) = auth (bootWorld s)"
  by (simp add: setUp_def bootWorld_app connectWebSocket_def Let_def spawn_def startTokenRenewal_def scheduleRenewal_def)

lemma effect_simps [simp]:
  "bt_boot (connectionEffect E s) = bt_boot s" "auth (bootWorld (connectionEffect E s)) = auth (bootWorld s)"
  by (simp_all add: connectionEffect_def Let_def)

lemma effect_deps: "bt_deps (connectionEffect E s) = Some (bootDeps (connectionEffect E s))"
  using effect_simps [of E s] unfolding bootDeps_def
  by (simp add: connectionEffect_def Let_def bootDeps_def)

lemma commit_simps [simp]:
  "bt_boot (commitBoot E now s) = bt_boot s" "bootWorld (commitBoot E now s) = bootWorld (connectionEffect E s)"
  "bt_deps (commitBoot E now s) = bt_deps (connectionEffect E s)"
  by (simp_all add: commitBoot_def mountGuard_def)

section \<open>What a user can rely on\<close>

definition silent :: "bootState \<Rightarrow> bool" where
  "silent s \<longleftrightarrow> \<not> running s \<and> (\<forall>i. \<not> live (ap_ws (fst (bt_shell s))) i)"

lemma not_running_silent:
  assumes "wsReach E mc v (fst (bt_shell s))" "\<not> running s"
  shows "silent s"
proof -
  have i: "wsInv (ap_ws (fst (bt_shell s)))" by (rule inv_reach [OF assms(1)])
  then show ?thesis using assms(2) not_active [OF i] by (auto simp: silent_def running_def wsInv_def wsCore_def)
qed

lemma inv_commit: "bootInv E mc v s \<Longrightarrow> bootInv E mc v (commitBoot E now s)"
  by (simp add: commitBoot_def mountGuard_def inv_fields inv_effect)

text \<open>C12. The app talks to the server in the background only while it shows the signed-in
  screens. In every reachable state exactly one restore attempt or retry timer is pending while
  the app is loading and none otherwise, and the socket was used as its module expects; and
  once the effects of a render have run, an app that is locked, loading, offline or signed out
  has no live socket and wants none, sends no cover traffic and renews no token.\<close>

theorem app_talks_only_when_ready:
  assumes "bootReach E mc v send cover kdf wa s"
  shows "bt_restoring s + length (bt_timers s) = (if bt_boot s = BLoading then 1 else 0) \<and>
    wsReach E mc v (fst (bt_shell s)) \<and>
    (homeRoute s \<noteq> ScreenConversations \<longrightarrow> silent (commitBoot E now s))"
proof -
  note inv = inv_bootReach [OF assms]
  note t = inv_commit [OF inv, of now]
  have "silent (commitBoot E now s)" if h: "homeRoute s \<noteq> ScreenConversations"
  proof -
    have "\<not> bt_live (commitBoot E now s)"
    proof
      assume "bt_live (commitBoot E now s)"
      then obtain tok where "bootDeps (connectionEffect E s) = (BReady, True, tok)"
        using t by (auto simp: bootInv_def effect_deps)
      then show False using h by (auto simp: bootDeps_def homeRoute_def split: boot.splits if_splits)
    qed
    then show ?thesis using t by (intro not_running_silent) (auto simp: bootInv_def)
  qed
  then show ?thesis using inv by (auto simp: bootInv_def chain_def)
qed

definition locked :: "bootState \<Rightarrow> bool" where
  "locked s \<longleftrightarrow> bt_boot s = BLocked \<and> \<not> au_authenticated (auth (bootWorld s)) \<and> memKey (keystore (bootWorld s)) = None"

lemma locked_background: "locked s \<Longrightarrow> background s p \<Longrightarrow> locked (s\<lparr>bt_shell := p\<rparr>)"
  by (auto simp: locked_def background_def aside_def bootWorld_def)

lemma keystore_tearDown [simp]: "keystore (bootWorld (tearDown s)) = keystore (bootWorld s)"
  by (simp add: tearDown_def stopTokenRenewal_def bootWorld_app)

lemma locked_step:
  assumes "bootStep E mc v send cover s s'" "bootInv E mc v s" "locked s"
  shows "locked s'"
  using assms
proof (induction rule: bootStep.induct)
  case (commit s now)
  then show ?case by (auto simp: locked_def connectionEffect_def Let_def)
next
  case (idle s)
  have "getIdleMs w = (Inr (orElse (jint (map_option st_value (tget (settings_tbl (idb w)) IDLE_KEY))) DEFAULT_IDLE_MS), w)" for w
    by (simp add: getIdleMs_def)
  then show ?case using idle by (auto simp: idleLoaded_def runCore_def onApp_same locked_def split: option.split)
next
  case (socket s a)
  then show ?case by (intro locked_background)
next
  case (cover s c w)
  then show ?case by (intro locked_background)
qed (auto simp: locked_def bootInv_def chain_def flushIfActive_def bump_def)

lemma locked_steps:
  assumes "(bootStep E mc v send cover)\<^sup>*\<^sup>* s t" "bootInv E mc v s" "locked s"
  shows "bootInv E mc v t \<and> locked t"
  using assms by (induction rule: rtranclp_induct) (auto intro: inv_bootStep locked_step)

text \<open>C13. A locked app stays locked and silent until it is unlocked. When the guard of an app whose
  lock is enabled decides to lock it, then whatever happens afterwards short of unlocking (late
  frames and tickets, timers, cover ticks, renders, wake-ups), the unlock screen is shown, nobody
  is signed in and the data key is not in memory; and with the next render nothing runs.\<close>

theorem locked_app_stays_silent:
  assumes "bootReach E mc v send cover kdf wa s" "bt_boot s = BReady" "bt_guard s = Some g" "lockDue ev g"
    "lockMeta (keystore (bootWorld s)) \<noteq> None" "(bootStep E mc v send cover)\<^sup>*\<^sup>* (onLockEvent ev s) t"
  shows "homeRoute t = ScreenUnlock \<and> \<not> au_authenticated (auth (bootWorld t)) \<and> memKey (keystore (bootWorld t)) = None \<and>
    silent (commitBoot E now t)"
proof -
  have l: "onLockEvent ev s = onShell lockApp (s\<lparr>bt_boot := BLocked\<rparr>)"
    using assms(3,5) assms(4) by (auto simp: onLockEvent_def doLock_run)
  have "bootInv E mc v (onLockEvent ev s)" unfolding l by (rule inv_lock [OF inv_bootReach [OF assms(1)] assms(2)])
  moreover have "locked (onLockEvent ev s)" by (simp add: l locked_def)
  ultimately have t: "bootInv E mc v t" "locked t" using locked_steps [OF assms(6)] by auto
  have "\<not> bt_live (commitBoot E now t)"
    using inv_commit [OF t(1), of now] t(2) by (auto simp: bootInv_def effect_deps bootDeps_def locked_def)
  then have "silent (commitBoot E now t)"
    using inv_commit [OF t(1), of now] by (intro not_running_silent) (auto simp: bootInv_def)
  then show ?thesis using t(2) by (simp add: locked_def homeRoute_def)
qed

section \<open>Booting ends\<close>

definition fireTimer :: "bootState \<Rightarrow> bootState" where
  "fireTimer s = (case bt_timers s of [] \<Rightarrow> s | d # ds \<Rightarrow> bootAttempt (s\<lparr>bt_timers := ds\<rparr>))"

text \<open>The next attempt, answered when the rest of the device is in the state \<open>w\<close>.\<close>

definition bootTry :: "env \<Rightarrow> world \<Rightarrow> bootState \<Rightarrow> bootState" where
  "bootTry E w s = restored E (onApp (\<lambda>a. a\<lparr>ap_world := w\<rparr>) (fireTimer s))"

definition triedTimes :: "nat \<Rightarrow> bootState \<Rightarrow> bool" where
  "triedTimes n t \<longleftrightarrow> bt_retries t = n \<and>
     (if n \<le> MAX_BOOT_RETRIES then bt_boot t = BLoading \<and> bt_restoring t = (if n = 0 then 1 else 0) \<and>
        bt_timers t = (if n = 0 then [] else [retryDelay n])
      else bt_boot t = BOffline \<and> bt_restoring t = 0 \<and> bt_timers t = [])"

lemma fire_tried:
  assumes "triedTimes n t" "n \<le> MAX_BOOT_RETRIES"
  shows "bt_retries (fireTimer t) = n" "bt_restoring (fireTimer t) = 1" "bt_timers (fireTimer t) = []" "bt_boot (fireTimer t) = BLoading"
  using assms by (auto simp: triedTimes_def fireTimer_def bootAttempt_def split: if_splits)

lemma bootTry_failed:
  assumes "triedTimes n t" "n \<le> MAX_BOOT_RETRIES" "doRestore E w = (Inl e, w')"
  shows "triedTimes (Suc n) (bootTry E w t)"
  using fire_tried [OF assms(1,2)] assms(3)
  by (simp add: bootTry_def restored_def runCore_def Let_def triedTimes_def bootWorld_app)

lemma bootTry_restored:
  assumes "triedTimes n t" "n \<le> MAX_BOOT_RETRIES" "doRestore E w = (Inr b, w')"
  shows "bt_boot (bootTry E w t) = BReady" "bootWorld (bootTry E w t) = w'"
  using fire_tried [OF assms(1,2)] assms(3)
  by (simp_all add: bootTry_def restored_def runCore_def Let_def bootWorld_app)

text \<open>C14. Booting ends. From a press of Retry (or an unlock, or the start) the app tries at most
  seven times: after the \<open>n\<close>-th failure the next try is set \<open>min 15 s (1.5 s * 2^(n-1))\<close> ahead,
  the first try that is answered shows the app, and after seven failures it is offline with
  nothing pending, 52.5 seconds of waiting in all. While it tries, neither the conversations nor
  the onboarding are shown.\<close>

theorem boot_ends:
  assumes "chain s" "bt_boot s \<noteq> BLoading" "length ws \<le> Suc MAX_BOOT_RETRIES"
    "\<forall>w \<in> set ws. \<exists>e w'. doRestore E w = (Inl e, w')"
  shows "let t = fold (bootTry E) ws (tryRestore s) in
    triedTimes (length ws) t \<and> homeRoute t \<in> {ScreenLoading, ScreenOffline} \<and>
    (length ws \<le> MAX_BOOT_RETRIES \<longrightarrow> (\<forall>w b w'. doRestore E w = (Inr b, w') \<longrightarrow>
       bt_boot (bootTry E w t) = BReady \<and> bootWorld (bootTry E w t) = w')) \<and>
    sum_list (map retryDelay [1..<Suc MAX_BOOT_RETRIES]) = 52500"
proof -
  have "triedTimes (length ws) (fold (bootTry E) ws (tryRestore s))" using assms(3,4)
  proof (induction ws rule: rev_induct)
    case Nil
    have "bt_restoring s = 0" "bt_timers s = []" using assms(1,2) by (auto simp: chain_def)
    then show ?case by (simp add: triedTimes_def tryRestore_def bootAttempt_def)
  next
    case (snoc w ws)
    then show ?case by (auto intro: bootTry_failed)
  qed
  moreover have "triedTimes n t \<Longrightarrow> homeRoute t \<in> {ScreenLoading, ScreenOffline}" for n t
    by (auto simp: triedTimes_def homeRoute_def split: if_splits)
  moreover have "sum_list (map retryDelay [1..<Suc MAX_BOOT_RETRIES]) = 52500" by code_simp
  ultimately show ?thesis using bootTry_restored by (simp add: Let_def)
qed

section \<open>Who is shown the onboarding\<close>

lemma doRestore_cases:
  assumes "doRestore E w = (Inr b, w')"
  shows "b \<and> au_authenticated (auth w') \<or>
    (\<exists>p w1. loadProgress w = (Inr p, w1) \<and> (pr_step p \<noteq> ''done'' \<or> fst (loadBundle E w1) = Inr None))"
  using assms unfolding doRestore_def
  by (elim await_Inr_cases) (auto simp: setSession_def setAuthenticated_def spawn_def split: if_splits option.splits elim!: await_Inr_cases)

text \<open>C15. The app never puts an onboarded user into a new onboarding. If restoring the session
  leads to the onboarding screen, then the stored progress is not done or there is no stored
  identity; a server that cannot be reached, or a sign-in that fails, never does.\<close>

theorem boot_never_reonboards:
  assumes "bootReach E mc v send cover kdf wa s" "0 < bt_restoring s" "homeRoute (restored E s) = ScreenOnboarding"
  shows "\<exists>p w1. loadProgress (bootWorld s) = (Inr p, w1) \<and> (pr_step p \<noteq> ''done'' \<or> fst (loadBundle E w1) = Inr None)"
proof -
  have l: "bt_boot s = BLoading" using inv_bootReach [OF assms(1)] assms(2) by (auto simp: bootInv_def chain_def split: if_splits)
  obtain r w where r: "doRestore E (bootWorld s) = (r, w)" by fastforce
  then have "restored E s = (case r of Inr _ \<Rightarrow> (onApp (\<lambda>a. a\<lparr>ap_world := w\<rparr>) s)\<lparr>bt_restoring := bt_restoring s - 1, bt_boot := BReady\<rparr>
      | Inl _ \<Rightarrow> restored E s)"
    by (auto simp: restored_def runCore_def Let_def split: sum.split)
  moreover have "bt_boot (restored E s) \<in> {BLoading, BOffline}" if "r = Inl e" for e
    using r l that by (simp add: restored_def runCore_def Let_def)
  ultimately obtain b where "r = Inr b" "\<not> au_authenticated (auth w)"
    using assms(3) by (cases r) (auto simp: homeRoute_def bootWorld_app split: if_splits)
  then show ?thesis using doRestore_cases r by blast
qed

section \<open>A renewed token doubles the cover traffic\<close>

text \<open>The effect depends on the token, so every renewal stops and starts the cover traffic; a tick
  that is waiting for its message at that moment goes on beside the loop that is started.\<close>

lemma token_change_doubles_cover:
  assumes "bt_live s" "bt_boot s = BReady" "au_authenticated (auth (bootWorld s))"
    "au_sessionToken (auth (bootWorld s)) = Some tok" "tok \<noteq> []" "bt_deps s \<noteq> Some (bootDeps s)"
    "cv_ticking (snd (bt_shell s)) = [level]"
  shows "2 \<le> loops (snd (bt_shell (connectionEffect E s)))"
  using assms by (simp add: connectionEffect_def Let_def setUp_def tearDown_def loops_def startCoverTraffic_def stopCoverTraffic_def)

end
