(* ===== verification/ChatScreen.thy ===== *)
theory ChatScreen
  imports UiServices Sending Receiving Timeline
begin

text \<open>
  The conversation screen (\<^verbatim>\<open>screens/Chat.tsx\<close>): the component's state is a record, each
  handler a function on it and on the core. A handler that waits for the service is split at
  that point, and what waits is part of the state, so that the user may type, switch or press
  again in between. Drawing, scrolling and the progress of a transfer are left out; of the view
  the footer, the ticks and the texts are kept.
\<close>

section \<open>Texts\<close>

datatype tick = TickQueued | TickDelivered | TickRead | TickFailed | TickSent

definition StatusTicks :: "string \<Rightarrow> tick" where
  "StatusTicks status =
     (if status = ''queued'' then TickQueued else if status = ''delivered'' then TickDelivered
      else if status = ''read'' then TickRead else if status = ''failed'' then TickFailed else TickSent)"

text \<open>\<open>x.toFixed(1)\<close> of \<open>n / d\<close>, for the powers of two it is used with, where the quotient is
  exact: the nearest tenth, the larger one in the middle.\<close>

definition toFixed1 :: "nat \<Rightarrow> nat \<Rightarrow> string" where
  "toFixed1 n d = (let tenths = (20 * n + d) div (2 * d) in showNat (tenths div 10) @ ''.'' @ showNat (tenths mod 10))"

definition formatSize :: "nat \<Rightarrow> string" where
  "formatSize n =
     (if n < 1024 then showNat n @ '' B''
      else if n < 1024 * 1024 then toFixed1 n 1024 @ '' KB''
      else toFixed1 n (1024 * 1024) @ '' MB'')"

text \<open>The metadata of a file message; a member of another type counts as missing.\<close>

definition parseFileMeta :: "string \<Rightarrow> FileMeta option" where
  "parseFileMeta content =
     Option.bind (json_parse content) (\<lambda>j.
       case (jstr (jget ''name'' j), jstr (jget ''mime'' j), jint (jget ''size'' j), jstr (jget ''sha256'' j), jget ''chunks'' j, jstr (jget ''cek'' j)) of
         (Some n, Some m, Some sz, Some h, Some (JArr cs), Some k) \<Rightarrow>
           Some \<lparr>fm_name = n, fm_mime = m, fm_size = sz, fm_sha256 = h, fm_chunks = map (\<lambda>c. orElse (jstr (Some c)) []) cs,
                 fm_cek = k, fm_thumb = jstr (jget ''thumb'' j)\<rparr>
       | _ \<Rightarrow> None)"

definition DEFAULT_TTL :: int where "DEFAULT_TTL = 30 * 24 * 3600"

definition TTL_OPTIONS :: "(string \<times> string \<times> int) list" where
  "TTL_OPTIONS =
     [(''1 hour'', ''1h'', 3600), (''6 hours'', ''6h'', 6 * 3600), (''24 hours'', ''24h'', 24 * 3600),
      (''7 days'', ''7d'', 7 * 24 * 3600), (''30 days (default)'', ''30d'', DEFAULT_TTL), (''60 days'', ''60d'', 60 * 24 * 3600)]"

definition MAX_FILE_BYTES :: nat where "MAX_FILE_BYTES = 100 * 1024 * 1024"

section \<open>State\<close>

record chatState =
  ch_peer :: string
  ch_contact :: "PlainContact option"
  ch_msgs :: "PlainMessage list"
  ch_draft :: string
  ch_sending :: bool
  ch_uploading :: bool
  ch_downloads :: "string list"
  ch_dragging :: bool
  ch_error :: "string option"
  ch_uploadsOn :: bool
  ch_ttl :: int
  ch_ttlOpen :: bool
  ch_menuOpen :: bool
  ch_confirmDelete :: bool
  ch_left :: bool
  ch_saved :: "(string \<times> bytes \<times> string) list"
  ch_sends :: "(string \<times> string \<times> int) list"
  ch_uploads :: "(string \<times> fileInput \<times> int) list"

definition chatInit :: "string \<Rightarrow> chatState" where
  "chatInit peer = \<lparr>ch_peer = peer, ch_contact = None, ch_msgs = [], ch_draft = [], ch_sending = False, ch_uploading = False,
     ch_downloads = [], ch_dragging = False, ch_error = None, ch_uploadsOn = False, ch_ttl = DEFAULT_TTL, ch_ttlOpen = False,
     ch_menuOpen = False, ch_confirmDelete = False, ch_left = False, ch_saved = [], ch_sends = [], ch_uploads = []\<rparr>"

type_synonym chatAct = "chatState \<times> world \<Rightarrow> chatState \<times> world"

text \<open>A call of the core whose result the handler waits for.\<close>

definition chatRun :: "'a act \<Rightarrow> (error + 'a \<Rightarrow> chatState \<Rightarrow> chatState) \<Rightarrow> chatAct" where
  "chatRun m k p = (case m (snd p) of (r, w) \<Rightarrow> (k r (fst p), w))"

section \<open>Loading\<close>

text \<open>A promise whose rejection nobody handles leaves the state as it is.\<close>

definition loadContact :: "env \<Rightarrow> string \<Rightarrow> chatAct" where
  "loadContact E peer = chatRun (getContact E peer) (\<lambda>r s. case r of Inr c \<Rightarrow> s\<lparr>ch_contact := c\<rparr> | Inl _ \<Rightarrow> s)"

definition reloadMessages :: "env \<Rightarrow> string \<Rightarrow> chatAct" where
  "reloadMessages E peer = chatRun (listBySession E peer 50) (\<lambda>r s. case r of Inr ms \<Rightarrow> s\<lparr>ch_msgs := ms\<rparr> | Inl _ \<Rightarrow> s)"

text \<open>The effect on the peer: it runs on mount and whenever the route names another peer.\<close>

definition openPeer :: "env \<Rightarrow> string \<Rightarrow> chatAct" where
  "openPeer E peer p =
     reloadMessages E peer (loadContact E peer ((fst p)\<lparr>ch_peer := peer, ch_ttl := DEFAULT_TTL, ch_menuOpen := False, ch_ttlOpen := False\<rparr>, snd p))"

definition onChatEvent :: "env \<Rightarrow> uiEvent \<Rightarrow> chatAct" where
  "onChatEvent E e p =
     (case e of EvMessage peer \<Rightarrow> if peer = ch_peer (fst p) then reloadMessages E (ch_peer (fst p)) p else p
      | EvContacts \<Rightarrow> loadContact E (ch_peer (fst p)) p
      | _ \<Rightarrow> p)"

definition configLoaded :: "json \<Rightarrow> chatState \<Rightarrow> chatState" where
  "configLoaded c s = s\<lparr>ch_uploadsOn := uploadsEnabled c\<rparr>"

section \<open>Sending\<close>

definition typeDraft :: "string \<Rightarrow> chatState \<Rightarrow> chatState" where
  "typeDraft t s = s\<lparr>ch_draft := t\<rparr>"

definition sendStart :: "chatState \<Rightarrow> chatState" where
  "sendStart s =
     (if trim (ch_draft s) = [] then s
      else s\<lparr>ch_draft := [], ch_sending := True, ch_error := None,
             ch_sends := ch_sends s @ [(ch_peer s, trim (ch_draft s), ch_ttl s)]\<rparr>)"

definition sendEnd :: "env \<Rightarrow> MessageCryptoApi \<Rightarrow> string \<times> string \<times> int \<Rightarrow> chatAct" where
  "sendEnd E mc q =
     (case q of (peer, body, ttl) \<Rightarrow>
        chatRun (sendMessage E mc peer body (Some ttl)) (\<lambda>r s.
          let s1 = s\<lparr>ch_sends := remove1 q (ch_sends s)\<rparr> in
          (case r of Inl e \<Rightarrow> s1\<lparr>ch_error := Some (errorMessage ''Failed to send.'' e), ch_draft := body\<rparr> | Inr _ \<Rightarrow> s1)
            \<lparr>ch_sending := False\<rparr>))"

section \<open>The composer\<close>

definition statusIs :: "chatState \<Rightarrow> ContactStatus \<Rightarrow> bool" where
  "statusIs s st \<longleftrightarrow> map_option pc_status (ch_contact s) = Some st"

definition canMessage :: "chatState \<Rightarrow> bool" where
  "canMessage s \<longleftrightarrow> \<not> statusIs s PendingInbound \<and> \<not> statusIs s PendingOutbound \<and> \<not> statusIs s Blocked"

datatype footer = FooterBlocked | FooterWaiting | FooterRequest | FooterComposer bool

definition chatFooter :: "chatState \<Rightarrow> footer" where
  "chatFooter s =
     (if statusIs s Blocked then FooterBlocked else if statusIs s PendingOutbound then FooterWaiting
      else if statusIs s PendingInbound then FooterRequest else FooterComposer (ch_uploadsOn s))"

section \<open>Files\<close>

definition uploadStart :: "fileInput \<Rightarrow> chatState \<Rightarrow> chatState" where
  "uploadStart f s =
     (if MAX_FILE_BYTES < length (fi_bytes f) \<or> fi_bytes f = [] then s\<lparr>ch_error := Some ''File too large or empty (max 100 MB).''\<rparr>
      else if ch_peer s = [] \<or> \<not> canMessage s then s
      else s\<lparr>ch_error := None, ch_uploading := True, ch_uploads := ch_uploads s @ [(ch_peer s, f, ch_ttl s)]\<rparr>)"

definition uploadEnd :: "env \<Rightarrow> MessageCryptoApi \<Rightarrow> string \<times> fileInput \<times> int \<Rightarrow> chatAct" where
  "uploadEnd E mc q =
     (case q of (peer, f, ttl) \<Rightarrow>
        chatRun (sendFile E mc peer f (Some ttl)) (\<lambda>r s.
          let s1 = s\<lparr>ch_uploads := remove1 q (ch_uploads s)\<rparr> in
          (case r of Inl e \<Rightarrow> s1\<lparr>ch_error := Some (errorMessage ''Upload failed.'' e)\<rparr> | Inr _ \<Rightarrow> s1)\<lparr>ch_uploading := False\<rparr>))"

definition onDrop :: "fileInput option \<Rightarrow> chatState \<Rightarrow> chatState" where
  "onDrop f s =
     (let s1 = s\<lparr>ch_dragging := False\<rparr> in
      if \<not> canMessage s \<or> \<not> ch_uploadsOn s then s1
      else case f of None \<Rightarrow> s1 | Some f \<Rightarrow> if fi_bytes f = [] then s1 else uploadStart f s1)"

definition downloadStart :: "PlainMessage \<Rightarrow> chatState \<Rightarrow> chatState" where
  "downloadStart m s = s\<lparr>ch_error := None, ch_downloads := List.insert (p_msg_id m) (ch_downloads s)\<rparr>"

definition downloadEnd :: "env \<Rightarrow> PlainMessage \<Rightarrow> FileMeta \<Rightarrow> chatAct" where
  "downloadEnd E m meta =
     chatRun (downloadAndDecrypt E meta) (\<lambda>r s.
       (case r of Inr blob \<Rightarrow> s\<lparr>ch_saved := ch_saved s @ [(fm_name meta, blob)]\<rparr>
          | Inl e \<Rightarrow> s\<lparr>ch_error := Some (errorMessage ''Download failed.'' e)\<rparr>)
         \<lparr>ch_downloads := removeAll (p_msg_id m) (ch_downloads s)\<rparr>)"

section \<open>The relationship\<close>

definition acceptRequest :: "env \<Rightarrow> MessageCryptoApi \<Rightarrow> chatAct" where
  "acceptRequest E mc p = (if ch_peer (fst p) = [] then p else chatRun (acceptContactRequest E mc (ch_peer (fst p))) (\<lambda>_ s. s) p)"

definition declineRequest :: chatAct where
  "declineRequest p = (if ch_peer (fst p) = [] then p else
     chatRun (removeContact (ch_peer (fst p))) (\<lambda>r s. case r of Inr _ \<Rightarrow> s\<lparr>ch_left := True\<rparr> | Inl _ \<Rightarrow> s) p)"

definition blockPeer :: "env \<Rightarrow> chatAct" where
  "blockPeer E p = (if ch_peer (fst p) = [] then p else
     chatRun (blockContact E (ch_peer (fst p))) (\<lambda>r s. case r of Inr _ \<Rightarrow> s
       | Inl e \<Rightarrow> s\<lparr>ch_error := Some (errorMessage (''Couldn'' @ CHR 0x27 # ''t block this contact.'') e)\<rparr>) p)"

definition unblockPeer :: "env \<Rightarrow> chatAct" where
  "unblockPeer E p = (if ch_peer (fst p) = [] then p else
     chatRun (unblockContact E (ch_peer (fst p))) (\<lambda>r s. case r of Inr _ \<Rightarrow> s
       | Inl e \<Rightarrow> s\<lparr>ch_error := Some (errorMessage (''Couldn'' @ CHR 0x27 # ''t unblock this contact.'') e)\<rparr>) p)"

definition doDeleteChat :: chatAct where
  "doDeleteChat p = (if ch_peer (fst p) = [] then p else
     chatRun (removeContact (ch_peer (fst p))) (\<lambda>r s. case r of Inr _ \<Rightarrow> s\<lparr>ch_left := True\<rparr>
       | Inl e \<Rightarrow> s\<lparr>ch_error := Some (errorMessage (''Couldn'' @ CHR 0x27 # ''t delete this chat.'') e)\<rparr>)
       ((fst p)\<lparr>ch_confirmDelete := False\<rparr>, snd p))"

section \<open>Read receipts\<close>

text \<open>The intersection observer: which element shows which message, and the timers of the visible
  ones with the time they are due and the message they captured.\<close>

record observer =
  ob_byEl :: "nat \<rightharpoonup> PlainMessage"
  ob_timers :: "nat \<rightharpoonup> int \<times> PlainMessage"

definition obsInit :: observer where
  "obsInit = \<lparr>ob_byEl = (\<lambda>_. None), ob_timers = (\<lambda>_. None)\<rparr>"

definition readWanted :: "PlainMessage \<Rightarrow> bool" where
  "readWanted m \<longleftrightarrow> p_direction m = DirIn \<and> p_receipt_read_wanted m = Some True \<and> p_receipt_read_done m \<noteq> Some True"

definition observeForRead :: "nat \<Rightarrow> PlainMessage \<Rightarrow> observer \<Rightarrow> observer" where
  "observeForRead el m s = (if \<not> readWanted m then s else s\<lparr>ob_byEl := (ob_byEl s)(el \<mapsto> m)\<rparr>)"

definition onIntersect :: "nat \<Rightarrow> bool \<Rightarrow> int \<Rightarrow> observer \<Rightarrow> observer" where
  "onIntersect el visible now s =
     (case ob_byEl s el of None \<Rightarrow> s
      | Some m \<Rightarrow>
          if visible then
            (if ob_timers s el = None then s\<lparr>ob_timers := (ob_timers s)(el \<mapsto> (now + 1000, m))\<rparr> else s)
          else s\<lparr>ob_timers := (ob_timers s)(el := None)\<rparr>)"

text \<open>A timer fires at its time or later; its message is handed to \<open>queueReadReceipt\<close>.\<close>

definition readTimer :: "nat \<Rightarrow> int \<Rightarrow> observer \<Rightarrow> observer \<times> PlainMessage option" where
  "readTimer el now s =
     (case ob_timers s el of None \<Rightarrow> (s, None)
      | Some (due, m) \<Rightarrow>
          if now < due then (s, None)
          else (s\<lparr>ob_timers := (ob_timers s)(el := None), ob_byEl := (ob_byEl s)(el := None)\<rparr>, Some m))"

definition disconnectObserver :: "observer \<Rightarrow> observer" where
  "disconnectObserver s = obsInit"

datatype obsEvent = Attach nat PlainMessage | Intersect nat bool int | Fire nat int | SwitchPeer

fun obsStep :: "obsEvent \<Rightarrow> observer \<times> (PlainMessage \<times> int) list \<Rightarrow> observer \<times> (PlainMessage \<times> int) list" where
  "obsStep (Attach el m) (s, q) = (observeForRead el m s, q)"
| "obsStep (Intersect el visible now) (s, q) = (onIntersect el visible now s, q)"
| "obsStep (Fire el now) (s, q) =
     (case readTimer el now s of (s', None) \<Rightarrow> (s', q) | (s', Some m) \<Rightarrow> (s', q @ [(m, now)]))"
| "obsStep SwitchPeer (s, q) = (disconnectObserver s, q)"

definition obsRun :: "obsEvent list \<Rightarrow> observer \<times> (PlainMessage \<times> int) list" where
  "obsRun es = fold obsStep es (obsInit, [])"

definition queueReads :: "env \<Rightarrow> (PlainMessage \<times> int) list \<Rightarrow> unit act" where
  "queueReads E q = forEach q (\<lambda>(m, now). ignoreErrors (queueReadReceipt E m))"

text \<open>The element stays in view and the conversation is not left.\<close>

definition staysInView :: "nat \<Rightarrow> obsEvent list \<Rightarrow> bool" where
  "staysInView el es \<longleftrightarrow> SwitchPeer \<notin> set es \<and> (\<forall>t. Intersect el False t \<notin> set es)"

definition inView :: "obsEvent list \<Rightarrow> nat \<Rightarrow> int \<Rightarrow> bool" where
  "inView es el t \<longleftrightarrow> (\<exists>pre post. es = pre @ Intersect el True t # post \<and> staysInView el post)"

definition timersOk :: "obsEvent list \<Rightarrow> observer \<Rightarrow> bool" where
  "timersOk es s \<longleftrightarrow> (\<forall>el m. ob_byEl s el = Some m \<longrightarrow> readWanted m) \<and>
     (\<forall>el due m. ob_timers s el = Some (due, m) \<longrightarrow> ob_byEl s el \<noteq> None \<and> readWanted m \<and> inView es el (due - 1000))"

definition queuedOk :: "obsEvent list \<Rightarrow> PlainMessage \<times> int \<Rightarrow> bool" where
  "queuedOk es = (\<lambda>(m, now). readWanted m \<and> (\<exists>el t pre mid post.
     es = pre @ Intersect el True t # mid @ Fire el now # post \<and> t + 1000 \<le> now \<and> staysInView el mid))"

lemma queuedOk_snoc: "queuedOk es x \<Longrightarrow> queuedOk (es @ [e]) x"
  by (cases x) (fastforce simp: queuedOk_def)

lemma staysInView_snoc [simp]:
  "staysInView el (es @ [e]) \<longleftrightarrow> staysInView el es \<and> e \<noteq> SwitchPeer \<and> (\<forall>t. e \<noteq> Intersect el False t)"
  by (auto simp: staysInView_def)

lemma inView_snoc: "inView es el t \<Longrightarrow> e \<noteq> SwitchPeer \<Longrightarrow> (\<And>u. e \<noteq> Intersect el False u) \<Longrightarrow> inView (es @ [e]) el t"
  unfolding inView_def
proof (elim exE conjE)
  fix pre post
  assume "e \<noteq> SwitchPeer" "\<And>u. e \<noteq> Intersect el False u" "es = pre @ Intersect el True t # post" "staysInView el post"
  then show "\<exists>pre post. es @ [e] = pre @ Intersect el True t # post \<and> staysInView el post"
    by (intro exI [where x = pre] exI [where x = "post @ [e]"]) simp
qed

lemma inView_new: "inView (es @ [Intersect el True t]) el t"
  unfolding inView_def by (intro exI [where x = es] exI [where x = "[]"]) (simp add: staysInView_def)

lemma obsStep_timers:
  assumes "timersOk es s" "obsStep e (s, q) = (s', q')"
  shows "timersOk (es @ [e]) s'"
proof (cases e)
  case (Attach el m)
  then show ?thesis using assms by (auto simp: timersOk_def observeForRead_def intro: inView_snoc split: if_splits)
next
  case (Intersect el visible now)
  show ?thesis
  proof (cases visible)
    case True
    have "inView es el' t \<Longrightarrow> inView (es @ [Intersect el True now]) el' t" for el' t by (rule inView_snoc) auto
    then show ?thesis using assms Intersect True inView_new [of es el now]
      by (auto simp: timersOk_def onIntersect_def split: option.splits if_splits)
  next
    case False
    have "ob_byEl s el = None \<Longrightarrow> ob_timers s el = None"
      using assms(1) by (cases "ob_timers s el") (fastforce simp: timersOk_def)+
    then have "(ob_timers s)(el := None) = ob_timers s" if "ob_byEl s el = None" using that by (simp add: fun_upd_idem)
    with False have "ob_timers s' = (ob_timers s)(el := None)" "ob_byEl s' = ob_byEl s"
      using assms(2) Intersect by (auto simp: onIntersect_def split: option.splits)
    then show ?thesis using assms(1) Intersect by (auto simp: timersOk_def intro: inView_snoc split: if_splits)
  qed
next
  case (Fire el now)
  have "inView es el' t \<Longrightarrow> inView (es @ [Fire el now]) el' t" for el' t by (rule inView_snoc) auto
  then show ?thesis using assms Fire
    by (auto simp: timersOk_def readTimer_def split: option.splits if_splits)
next
  case SwitchPeer
  then show ?thesis using assms by (auto simp: timersOk_def disconnectObserver_def obsInit_def)
qed

lemma obsStep_queue:
  assumes "timersOk es s" "\<forall>x \<in> set q. queuedOk es x" "obsStep e (s, q) = (s', q')" "x \<in> set q'"
  shows "queuedOk (es @ [e]) x"
proof (cases "x \<in> set q")
  case True
  then show ?thesis using assms(2) by (simp add: queuedOk_snoc)
next
  case False
  then obtain el now m due where f: "e = Fire el now" "x = (m, now)" "ob_timers s el = Some (due, m)" "due \<le> now"
    using assms(3,4) by (cases e) (auto simp: readTimer_def split: option.splits if_splits)
  have "readWanted m" "inView es el (due - 1000)" using assms(1) f(3) by (auto simp: timersOk_def)
  moreover from this(2) obtain pre post where "es = pre @ Intersect el True (due - 1000) # post" "staysInView el post"
    by (auto simp: inView_def)
  ultimately show ?thesis using f
    by (simp add: queuedOk_def) (intro exI [where x = el] exI [where x = "due - 1000"] exI [where x = pre] exI [where x = post]
      exI [where x = "[]"], simp)
qed

lemma obsRun_ok: "timersOk es (fst (obsRun es)) \<and> (\<forall>x \<in> set (snd (obsRun es)). queuedOk es x)"
proof (induction es rule: rev_induct)
  case Nil
  then show ?case by (simp add: obsRun_def timersOk_def obsInit_def)
next
  case (snoc e es)
  obtain s q where r: "obsRun es = (s, q)" by fastforce
  obtain s' q' where r': "obsStep e (s, q) = (s', q')" by fastforce
  have "obsRun (es @ [e]) = (s', q')" using r r' by (simp add: obsRun_def)
  moreover have "timersOk (es @ [e]) s'" using snoc r by (auto intro: obsStep_timers [OF _ r'])
  moreover have "\<forall>x \<in> set q'. queuedOk (es @ [e]) x" using snoc r by (auto intro: obsStep_queue [OF _ _ r'])
  ultimately show ?case by simp
qed


section \<open>Sending from the composer\<close>

lemma storeSent_stores:
  assumes "aes_correct E" "storeSent E me i peer st ts q w = (Inr (), w')"
  shows "\<exists>k r. keyOf w' = Some k \<and> tget (messages_tbl (idb w')) i = Some r \<and> m_session_id r = peer \<and> m_direction r = DirOut \<and>
    reads E k (m_content_enc r) = Some (textEncode (sq_content q))"
proof -
  obtain created w1 where d: "dateNow E w = (Inr created, w1)" by (simp add: dateNow_def)
  let ?row = "sentRow i peer st ts created q"
  obtain w2 where a: "messages_add E ?row w1 = (Inr (), w2)" and w': "idb w' = idb w2" "keystore w' = keystore w2"
    using assms(2) d by (auto simp: storeSent_def Let_def andThen_def spawn_def emit_def elim!: await_Inr_cases)
  obtain k w3 where k: "getMasterKey E w1 = (Inr k, w3)"
    and w2: "w2 = w3\<lparr>tick := Suc (tick w3), idb := messages_tbl_update (tput i (messageRow ?row
       (ivAt E (tick w3) @ aes_enc E k (ivAt E (tick w3)) (textEncode (sq_content q))))) (idb w3)\<rparr>"
    using a by (auto simp: messages_add_def sentRow_def dbModify_def elim!: await_Inr_cases)
  have "keyOf w' = Some k" using getMasterKey_result(1) [OF k] w' w2 by (simp add: keyOf_def)
  moreover have "reads E k (ivAt E t @ aes_enc E k (ivAt E t) p) = Some p" for t p using assms(1) by (simp add: reads_fresh)
  ultimately show ?thesis using w' w2 by (simp add: messageRow_def sentRow_def)
qed

lemma sendMessage_stores:
  assumes "aes_correct E" "sendMessage E mc peer body ttl w = (Inr (), w')"
  shows "\<exists>k i r. keyOf w' = Some k \<and> tget (messages_tbl (idb w')) i = Some r \<and> m_session_id r = peer \<and> m_direction r = DirOut \<and>
    reads E k (m_content_enc r) = Some (textEncode body)"
proof -
  obtain me i st ts w1 q where "storeSent E me i peer st ts q w1 = (Inr (), w')" "sq_content q = body"
    using assms(2) by (auto simp: sendMessage_def sealAndSend_def andThen_def Let_def elim!: await_Inr_cases split: prod.splits)
  then show ?thesis using storeSent_stores [OF assms(1)] by metis
qed

text \<open>C24. Pressing Send loses nothing. When the send ends, either the text is kept as an outgoing
  message of that conversation, readable under the device's key, or the draft holds it again and
  an error is shown; the composer is free again in both cases.\<close>

theorem composer_loses_nothing:
  assumes "aes_correct E" "sendEnd E mc (peer, body, ttl) (s, w) = (s', w')"
  shows "\<not> ch_sending s' \<and>
    ((\<exists>k i r. keyOf w' = Some k \<and> tget (messages_tbl (idb w')) i = Some r \<and> m_session_id r = peer \<and> m_direction r = DirOut \<and>
        reads E k (m_content_enc r) = Some (textEncode body)) \<and> ch_draft s' = ch_draft s \<and> ch_error s' = ch_error s \<or>
     ch_draft s' = body \<and> ch_error s' \<noteq> None)"
proof -
  obtain r w1 where m: "sendMessage E mc peer body (Some ttl) w = (r, w1)" by fastforce
  show ?thesis
  proof (cases r)
    case (Inl e)
    then show ?thesis using assms(2) m by (auto simp: sendEnd_def chatRun_def Let_def)
  next
    case (Inr u)
    then show ?thesis using assms(2) m sendMessage_stores [OF assms(1), of mc peer body "Some ttl" w w1]
      by (auto simp: sendEnd_def chatRun_def Let_def)
  qed
qed

text \<open>The screen and the service agree on who may be written to. With the stored contact shown
  and its key known, the composer is offered, and a dropped file accepted, exactly when the
  service would not turn the message down.\<close>

theorem composer_matches_service:
  assumes "getContact E (ch_peer s) w = (Inr (Some c), w1)" "ch_contact s = Some c" "pc_ik_x25519 c \<noteq> []"
  shows "(chatFooter s = FooterComposer (ch_uploadsOn s)) = canMessage s \<and>
    canMessage s = (sendTarget E (ch_peer s) (Some q) w = (Inr c, w1))"
  using assms by (cases "pc_status c") (auto simp: chatFooter_def canMessage_def statusIs_def sendTarget_def)

text \<open>What the footer says while the contact is not loaded yet, or is not known.\<close>

lemma composer_before_contact: "ch_contact s = None \<Longrightarrow> chatFooter s = FooterComposer (ch_uploadsOn s)"
  by (simp add: chatFooter_def statusIs_def)

text \<open>The offered lifetimes are those the service keeps messages for, and the default is its own.\<close>

lemma ttl_options_in_bounds:
  "DEFAULT_TTL = DEFAULT_TTL_SECONDS \<and> (\<forall>(l, sh, v) \<in> set TTL_OPTIONS. 3600 \<le> v \<and> v \<le> 60 * 24 * 3600)"
  by (simp add: DEFAULT_TTL_def DEFAULT_TTL_SECONDS_def TTL_OPTIONS_def)

end
