(* ===== verification/OnboardingScreen.thy ===== *)
theory OnboardingScreen
  imports Onboarding SeedWords UiServices
begin

text \<open>
  The onboarding screens (\<^verbatim>\<open>screens/Onboarding.tsx\<close>): the shown step and the state of the step
  components, with one function per handler. \<open>onbStep\<close> gathers the handlers with the conditions
  under which the screen offers them. The strength score of a password is that of a package and
  an argument; drawing is left out. A call of the core is one step.
\<close>

section \<open>State\<close>

datatype uiStep = UiLoading | UiWelcome | UiKeys | UiRegister | UiPassword | UiRecovery | UiSafety

record onbState =
  on_step :: uiStep
  on_userId :: string
  on_error :: "string option"
  on_left :: bool
  kg_userId :: string
  rv_mnemonic :: "string option"
  rv_hasPassword :: bool
  rv_seedMode :: bool
  rv_revealed :: bool
  rv_confirming :: bool
  rv_seedDone :: bool
  rv_indices :: "nat list"
  rv_answers :: "string list"
  rv_confirmError :: "string option"

definition onbInit :: onbState where
  "onbInit = \<lparr>on_step = UiLoading, on_userId = [], on_error = None, on_left = False, kg_userId = [], rv_mnemonic = None,
     rv_hasPassword = False, rv_seedMode = False, rv_revealed = False, rv_confirming = False, rv_seedDone = False,
     rv_indices = [], rv_answers = [[], [], []], rv_confirmError = None\<rparr>"

type_synonym onbAct = "onbState \<times> world \<Rightarrow> onbState \<times> world"

definition onbRun :: "'a act \<Rightarrow> (error + 'a \<Rightarrow> onbState \<Rightarrow> onbState) \<Rightarrow> onbAct" where
  "onbRun m k p = (case m (snd p) of (r, w) \<Rightarrow> (k r (fst p), w))"

definition onUi :: "(onbState \<Rightarrow> onbState) \<Rightarrow> onbAct" where
  "onUi f p = (f (fst p), snd p)"

section \<open>The steps\<close>

definition resumeStep :: "string \<Rightarrow> uiStep" where
  "resumeStep step = (if step = ''registered'' then UiRecovery else if step = ''keys'' then UiRegister else UiWelcome)"

definition resumeOnboarding :: onbAct where
  "resumeOnboarding =
     onbRun loadProgress (\<lambda>r s. case r of Inl _ \<Rightarrow> s
       | Inr p \<Rightarrow>
           (let s1 = (if orElse (pr_userId p) [] = [] then s else s\<lparr>on_userId := the (pr_userId p)\<rparr>) in
            if pr_step p = ''done'' then s1\<lparr>on_left := True\<rparr> else s1\<lparr>on_step := resumeStep (pr_step p)\<rparr>))"

text \<open>\<open>KeyGen\<close> keeps an identity that is already there.\<close>

definition mountKeyGen :: "env \<Rightarrow> CryptoApi \<Rightarrow> onbAct" where
  "mountKeyGen E cy =
     onbRun (await (loadBundle E) (\<lambda>b. case b of Some b \<Rightarrow> ret (b_userId b) | None \<Rightarrow> generateIdentity E cy)) (\<lambda>r s. case r of
         Inr u \<Rightarrow> s\<lparr>kg_userId := u\<rparr>
       | Inl _ \<Rightarrow> s\<lparr>kg_userId := [], on_error := Some ''Key generation failed. Please reload and try again.''\<rparr>)"

definition keysDone :: "onbState \<Rightarrow> onbState" where
  "keysDone s = s\<lparr>on_userId := kg_userId s, on_step := UiRegister\<rparr>"

definition registering :: "env \<Rightarrow> CryptoApi \<Rightarrow> onbAct" where
  "registering E cy =
     onbRun (completeRegistration E cy) (\<lambda>r s. case r of
         Inr _ \<Rightarrow> s\<lparr>on_step := UiRecovery\<rparr>
       | Inl _ \<Rightarrow> s\<lparr>on_error := Some ''Registration failed. Check your connection and try again.''\<rparr>)"

definition backToKeys :: "onbState \<Rightarrow> onbState" where
  "backToKeys s = s\<lparr>on_error := None, on_step := UiKeys\<rparr>"

definition mountRecovery :: "env \<Rightarrow> onbAct" where
  "mountRecovery E p =
     onbRun (opaqueRecoveryStatus E) (\<lambda>r s. s\<lparr>rv_hasPassword := (r = Inr True)\<rparr>)
       (onbRun (loadBundle E) (\<lambda>r s. case r of Inr b \<Rightarrow> s\<lparr>rv_mnemonic := Some (case b of None \<Rightarrow> [] | Some b \<Rightarrow> b_mnemonic b)\<rparr> | Inl _ \<Rightarrow> s)
         ((fst p)\<lparr>rv_mnemonic := None, rv_hasPassword := False, rv_seedMode := False, rv_revealed := False, rv_confirming := False,
            rv_seedDone := False, rv_indices := [], rv_answers := [[], [], []], rv_confirmError := None\<rparr>, snd p))"

definition openPassword :: "onbState \<Rightarrow> onbState" where
  "openPassword s = s\<lparr>on_error := None, on_step := UiPassword\<rparr>"

definition passwordReady :: "(string \<Rightarrow> nat) option \<Rightarrow> string \<Rightarrow> string \<Rightarrow> bool" where
  "passwordReady scorer pw confirmed \<longleftrightarrow>
     (case scorer of None \<Rightarrow> False | Some score \<Rightarrow> pw \<noteq> [] \<and> 3 \<le> score pw) \<and> pw \<noteq> [] \<and> pw = confirmed"

definition submitPassword :: "env \<Rightarrow> RecoveryCryptoApi \<Rightarrow> string \<Rightarrow> onbAct" where
  "submitPassword E cr pw p =
     onbRun (enableOpaqueRecovery E cr pw) (\<lambda>r s. case r of
         Inr _ \<Rightarrow> s\<lparr>on_step := UiRecovery\<rparr>
       | Inl _ \<Rightarrow> s\<lparr>on_error := Some ''Could not enable password recovery. Please try again.''\<rparr>)
       ((fst p)\<lparr>on_error := None\<rparr>, snd p)"

definition passwordBack :: "onbState \<Rightarrow> onbState" where
  "passwordBack s = s\<lparr>on_error := None, on_step := UiRecovery\<rparr>"

definition finishStep :: "env \<Rightarrow> CryptoApi \<Rightarrow> onbAct" where
  "finishStep E cy =
     onbRun (finishOnboarding E cy) (\<lambda>r s. case r of
         Inr _ \<Rightarrow> s\<lparr>on_step := UiSafety\<rparr>
       | Inl _ \<Rightarrow> s\<lparr>on_error := Some ''Could not complete sign-in. Please try again.''\<rparr>)"

section \<open>Confirming the seed phrase\<close>

definition startConfirm :: "nat list \<Rightarrow> onbState \<Rightarrow> onbState" where
  "startConfirm idxs s = s\<lparr>rv_indices := idxs, rv_answers := [[], [], []], rv_confirmError := None, rv_confirming := True\<rparr>"

definition setAnswer :: "nat \<Rightarrow> string \<Rightarrow> onbState \<Rightarrow> onbState" where
  "setAnswer i a s = s\<lparr>rv_answers := (rv_answers s)[i := a]\<rparr>"

definition seedBack :: "onbState \<Rightarrow> onbState" where
  "seedBack s = s\<lparr>rv_seedMode := False, rv_revealed := False, rv_confirming := False\<rparr>"

definition submitConfirm :: "env \<Rightarrow> CryptoApi \<Rightarrow> onbAct" where
  "submitConfirm E cy p =
     (case p of (s, w) \<Rightarrow>
        if orElse (rv_mnemonic s) [] \<noteq> [] \<and> checkConfirm (the (rv_mnemonic s)) (rv_indices s) (rv_answers s)
        then finishStep E cy (onbRun (settingPut SEED_SAVED_KEY (JBool True)) (\<lambda>_ s. s) (s\<lparr>rv_seedDone := True\<rparr>, w))
        else (s\<lparr>rv_confirmError := Some ''Those words don't match. Check your saved copy.''\<rparr>, w))"

definition hasAnyRecovery :: "onbState \<Rightarrow> bool" where
  "hasAnyRecovery s \<longleftrightarrow> rv_hasPassword s \<or> rv_seedDone s"

definition enterApp :: "onbState \<Rightarrow> onbState" where
  "enterApp s = s\<lparr>on_left := True\<rparr>"

section \<open>What the screen offers\<close>

datatype onbInput = OReload | OStart | OMountKeys | OKeysDone | ORegister | OBackToKeys | OMountRecovery | OOpenPassword
  | OSubmitPassword string string | OPasswordBack | OSeedMode | OReveal | OStartConfirm "nat list" | OAnswer nat string
  | OSubmitConfirm | OSeedBack | OFinish | OEnter

fun onbStep :: "env \<Rightarrow> CryptoApi \<Rightarrow> RecoveryCryptoApi \<Rightarrow> (string \<Rightarrow> nat) option \<Rightarrow> onbInput \<Rightarrow> onbAct" where
  "onbStep E cy cr scorer OReload p = resumeOnboarding (onbInit, snd (signOut (snd p)))"
| "onbStep E cy cr scorer OStart p = (if on_step (fst p) = UiWelcome then onUi (\<lambda>s. s\<lparr>on_step := UiKeys\<rparr>) p else p)"
| "onbStep E cy cr scorer OMountKeys p = (if on_step (fst p) = UiKeys then mountKeyGen E cy p else p)"
| "onbStep E cy cr scorer OKeysDone p = (if on_step (fst p) = UiKeys \<and> kg_userId (fst p) \<noteq> [] then onUi keysDone p else p)"
| "onbStep E cy cr scorer ORegister p = (if on_step (fst p) = UiRegister then registering E cy p else p)"
| "onbStep E cy cr scorer OBackToKeys p =
     (if on_step (fst p) = UiRegister \<and> on_error (fst p) \<noteq> None then onUi backToKeys p else p)"
| "onbStep E cy cr scorer OMountRecovery p = (if on_step (fst p) = UiRecovery then mountRecovery E p else p)"
| "onbStep E cy cr scorer OOpenPassword p =
     (if on_step (fst p) = UiRecovery \<and> \<not> rv_seedMode (fst p) \<and> \<not> rv_hasPassword (fst p) then onUi openPassword p else p)"
| "onbStep E cy cr scorer (OSubmitPassword pw confirmed) p =
     (if on_step (fst p) = UiPassword \<and> passwordReady scorer pw confirmed then submitPassword E cr pw p else p)"
| "onbStep E cy cr scorer OPasswordBack p = (if on_step (fst p) = UiPassword then onUi passwordBack p else p)"
| "onbStep E cy cr scorer OSeedMode p = (if on_step (fst p) = UiRecovery then onUi (\<lambda>s. s\<lparr>rv_seedMode := True\<rparr>) p else p)"
| "onbStep E cy cr scorer OReveal p =
     (if on_step (fst p) = UiRecovery \<and> rv_seedMode (fst p) then onUi (\<lambda>s. s\<lparr>rv_revealed := True\<rparr>) p else p)"
| "onbStep E cy cr scorer (OStartConfirm idxs) p =
     (if on_step (fst p) = UiRecovery \<and> rv_seedMode (fst p) \<and> rv_revealed (fst p) then onUi (startConfirm idxs) p else p)"
| "onbStep E cy cr scorer (OAnswer i a) p =
     (if on_step (fst p) = UiRecovery \<and> rv_confirming (fst p) then onUi (setAnswer i a) p else p)"
| "onbStep E cy cr scorer OSubmitConfirm p =
     (if on_step (fst p) = UiRecovery \<and> rv_confirming (fst p) then submitConfirm E cy p else p)"
| "onbStep E cy cr scorer OSeedBack p = (if on_step (fst p) = UiRecovery \<and> rv_seedMode (fst p) then onUi seedBack p else p)"
| "onbStep E cy cr scorer OFinish p = (if on_step (fst p) = UiRecovery \<and> \<not> rv_seedMode (fst p) then finishStep E cy p else p)"
| "onbStep E cy cr scorer OEnter p = (if on_step (fst p) = UiSafety then onUi enterApp p else p)"

definition onbSteps :: "env \<Rightarrow> CryptoApi \<Rightarrow> RecoveryCryptoApi \<Rightarrow> (string \<Rightarrow> nat) option \<Rightarrow> onbInput list \<Rightarrow> onbAct" where
  "onbSteps E cy cr scorer = fold (onbStep E cy cr scorer)"

section \<open>One identity, whatever the user presses\<close>

definition onbInv :: "env \<Rightarrow> cryptoKey \<Rightarrow> IdentityBundle \<Rightarrow> onbState \<times> world \<Rightarrow> bool" where
  "onbInv E k b p \<longleftrightarrow> holds E k b (snd p) \<and> kg_userId (fst p) \<in> {[], b_userId b} \<and>
     (on_step (fst p) = UiSafety \<longrightarrow> loadProgress (snd p) = (Inr \<lparr>pr_step = ''done'', pr_userId = Some (b_userId b)\<rparr>, snd p) \<and>
        au_authenticated (auth (snd p)) \<and> au_userId (auth (snd p)) = Some (b_userId b))"

lemma keeps_ki_quiet: "keeps quiet m \<Longrightarrow> keeps (keepsIdentity E k b) m"
  by (erule keeps_mono) (auto simp: keepsIdentity_def holds_def quietD(1) dest: quiet_keyOf)

lemma keeps_ki_loadBundle: "keeps (keepsIdentity E k b) (loadBundle E)"
  unfolding loadBundle_def loadProgress_def by (intro keeps_ki_quiet q.keeps_rules keeps_intro)

lemma keeps_ot_get: "keeps onlyTalks (get_api E q t)"
  by (rule keepsI) (simp add: onlyTalks_def)

lemma keeps_ot_opaque: "keeps onlyTalks (opaqueStatus E tok)" "keeps onlyTalks (opaqueRegisterStart E m tok)"
  "keeps onlyTalks (opaqueRegisterFinish E x e em tok)"
  unfolding opaqueStatus_def opaqueRegisterStart_def opaqueRegisterFinish_def boolField_def
  by (intro ot.keeps_rules keeps_ot_get keeps_ot_post keeps_ot_field)+

lemma keeps_ki_status: "keeps (keepsIdentity E k b) (opaqueRecoveryStatus E)"
  unfolding opaqueRecoveryStatus_def by (intro ki.keeps_rules keeps_ki_ot [OF keeps_ot_opaque(1)])

lemma keeps_ki_enable: "keeps (keepsIdentity E k b) (enableOpaqueRecovery E cr pw)"
  unfolding enableOpaqueRecovery_def requireRecoverySession_def
  by (intro ki.keeps_rules keeps_ki_loadBundle keeps_ki_session keeps_ki_ot [OF keeps_ot_authenticate]
      keeps_ki_ot [OF keeps_ot_opaque(2)] keeps_ki_ot [OF keeps_ot_opaque(3)] keeps_ki_ot [OF keeps_ot_ext(1)])

lemma inv_run:
  assumes "onbInv E k b (s, w)" "keeps (keepsIdentity E k b) m" "on_step s \<noteq> UiSafety"
    and "\<And>r. on_step (g r s) \<noteq> UiSafety \<and> kg_userId (g r s) \<in> {[], b_userId b}"
  shows "onbInv E k b (onbRun m g (s, w))"
proof -
  obtain r w' where m: "m w = (r, w')" by fastforce
  then have "holds E k b w'" using assms(1) keepsD [OF assms(2) m] by (simp add: onbInv_def keepsIdentity_def)
  then show ?thesis using assms(4) m by (auto simp: onbInv_def onbRun_def)
qed

lemma inv_ui:
  assumes "onbInv E k b p" "on_step (f (fst p)) \<noteq> UiSafety" "kg_userId (f (fst p)) \<in> {[], b_userId b}"
  shows "onbInv E k b (onUi f p)"
  using assms by (simp add: onbInv_def onUi_def)

lemma inv_finish:
  assumes "aes_correct E" "onbInv E k b p" "b_userId b \<noteq> []" "normBundle b = b" "on_step (fst p) \<noteq> UiSafety"
  shows "onbInv E k b (finishStep E cy p)"
proof -
  obtain r w' where f: "finishOnboarding E cy (snd p) = (r, w')" by fastforce
  note run = finishOnboarding_run [OF assms(1) _ assms(3,4) f]
  show ?thesis using assms(2,5) run by (cases r) (auto simp: finishStep_def onbRun_def f onbInv_def)
qed

lemma inv_confirm:
  assumes "aes_correct E" "onbInv E k b p" "b_userId b \<noteq> []" "normBundle b = b" "on_step (fst p) \<noteq> UiSafety"
  shows "onbInv E k b (submitConfirm E cy p)"
proof -
  obtain s w where p: "p = (s, w)" by fastforce
  have "keeps (keepsIdentity E k b) (settingPut SEED_SAVED_KEY (JBool True))"
    by (rule keepsI) (auto simp: settingPut_def keepsIdentity_def holds_def storedBundle_def SEED_SAVED_KEY_def PROGRESS_KEY_def)
  then have "onbInv E k b (onbRun (settingPut SEED_SAVED_KEY (JBool True)) (\<lambda>_ s. s) (s\<lparr>rv_seedDone := True\<rparr>, w))"
    using assms(2,5) p by (intro inv_run) (auto simp: onbInv_def)
  moreover have "on_step (fst (onbRun (settingPut SEED_SAVED_KEY (JBool True)) (\<lambda>_ s. s) (s\<lparr>rv_seedDone := True\<rparr>, w))) \<noteq> UiSafety"
    using assms(5) p by (simp add: onbRun_def split: prod.split)
  ultimately have "onbInv E k b (finishStep E cy (onbRun (settingPut SEED_SAVED_KEY (JBool True)) (\<lambda>_ s. s) (s\<lparr>rv_seedDone := True\<rparr>, w)))"
    using assms(1,3,4) by (intro inv_finish)
  moreover have "onbInv E k b (s\<lparr>rv_confirmError := Some ''Those words don't match. Check your saved copy.''\<rparr>, w)"
    using assms(2) p by (simp add: onbInv_def)
  ultimately show ?thesis by (simp add: submitConfirm_def p)
qed

lemma inv_keyGen:
  assumes "onbInv E k b p" "b_userId b \<noteq> []" "on_step (fst p) \<noteq> UiSafety"
  shows "onbInv E k b (mountKeyGen E cy p)"
proof -
  have "loadBundle E (snd p) = (Inr (Some b), snd p)" by (rule load_holds) (use assms in \<open>auto simp: onbInv_def\<close>)
  then show ?thesis using assms by (simp add: mountKeyGen_def onbRun_def onbInv_def)
qed

lemma inv_register:
  assumes "onbInv E k b p" "b_userId b \<noteq> []" "on_step (fst p) \<noteq> UiSafety"
  shows "onbInv E k b (registering E cy p)"
proof -
  obtain r w' where m: "completeRegistration E cy (snd p) = (r, w')" by fastforce
  have "holds E k b w'" by (rule completeRegistration_keeps [OF _ assms(2) m]) (use assms(1) in \<open>simp add: onbInv_def\<close>)
  then show ?thesis using assms by (cases r) (auto simp: registering_def onbRun_def m onbInv_def)
qed

lemma inv_mountRecovery:
  assumes "onbInv E k b p" "on_step (fst p) \<noteq> UiSafety"
  shows "onbInv E k b (mountRecovery E p)"
proof -
  let ?s = "(fst p)\<lparr>rv_mnemonic := None, rv_hasPassword := False, rv_seedMode := False, rv_revealed := False, rv_confirming := False,
    rv_seedDone := False, rv_indices := [], rv_answers := [[], [], []], rv_confirmError := None\<rparr>"
  let ?g = "\<lambda>r s. case r of Inr b \<Rightarrow> s\<lparr>rv_mnemonic := Some (case b of None \<Rightarrow> [] | Some b \<Rightarrow> b_mnemonic b)\<rparr> | Inl (_ :: error) \<Rightarrow> s"
  have "onbInv E k b (onbRun (loadBundle E) ?g (?s, snd p))"
    using assms by (intro inv_run keeps_ki_loadBundle) (auto simp: onbInv_def split: sum.split)
  moreover obtain s' w' where l: "onbRun (loadBundle E) ?g (?s, snd p) = (s', w')" by fastforce
  moreover have "on_step s' = on_step (fst p)" using l by (auto simp: onbRun_def split: prod.splits sum.splits)
  ultimately show ?thesis using assms(2) unfolding mountRecovery_def l
    by (intro inv_run keeps_ki_status) (auto simp: onbInv_def)
qed

lemma inv_resume:
  assumes "onbInv E k b p"
  shows "onbInv E k b (resumeOnboarding (onbInit, snd (signOut (snd p))))"
proof -
  obtain r w' where m: "loadProgress (snd (signOut (snd p))) = (r, w')" by fastforce
  have "w' = snd (signOut (snd p))" using m by (auto simp: loadProgress_def await_def split: prod.splits sum.splits)
  then have "holds E k b w'" using assms by (simp add: onbInv_def signOut_def holds_def keyOf_def)
  then show ?thesis by (auto simp: resumeOnboarding_def onbRun_def m onbInv_def onbInit_def resumeStep_def Let_def split: sum.split)
qed

lemma inv_submit:
  assumes "onbInv E k b p" "on_step (fst p) \<noteq> UiSafety"
  shows "onbInv E k b (submitPassword E cr pw p)"
proof -
  have "onbInv E k b ((fst p)\<lparr>on_error := None\<rparr>, snd p)" using assms(1) by (simp add: onbInv_def)
  then show ?thesis using assms unfolding submitPassword_def
    by (intro inv_run keeps_ki_enable) (auto simp: onbInv_def split: sum.split)
qed

lemma inv_onbStep:
  assumes "aes_correct E" "onbInv E k b p" "b_userId b \<noteq> []" "normBundle b = b"
  shows "onbInv E k b (onbStep E cy cr scorer i p)"
proof -
  have kg: "kg_userId (fst p) = [] \<or> kg_userId (fst p) = b_userId b" using assms(2) by (simp add: onbInv_def)
  have en: "onbInv E k b (onUi enterApp p)" using assms(2) by (simp add: onUi_def enterApp_def onbInv_def)
  show ?thesis
    by (cases i; simp add: assms en inv_resume inv_finish inv_confirm inv_keyGen inv_register inv_mountRecovery inv_submit)
       (use assms(2) kg in \<open>auto intro!: inv_ui simp: keysDone_def backToKeys_def openPassword_def passwordBack_def startConfirm_def
          setAnswer_def seedBack_def\<close>)
qed

text \<open>C16. Onboarding never changes the identity it showed. Once the keys screen of a new device has
  generated an identity, then whatever the user presses afterwards, in any order and with any
  outcome (registering, going back to the keys screen, the recovery options, finishing, reloading
  the page), that identity is the one stored and loaded and the only one the keys screen shows;
  and whoever stands on the last screen is signed in under it, with onboarding recorded as done.\<close>

theorem onboarding_screen_keeps_identity:
  assumes "aes_correct E" "keyOf w = Some k" "fst (loadBundle E w) = Inr None"
    "mountKeyGen E cy (s, w) = (s1, w1)" "on_step s = UiKeys" "kg_userId s1 \<noteq> []"
    "onbSteps E cy cr scorer inputs (s1, w1) = (s2, w2)"
  shows "\<exists>b. b_userId b = kg_userId s1 \<and> loadBundle E w2 = (Inr (Some b), w2) \<and> kg_userId s2 \<in> {[], kg_userId s1} \<and>
    (on_step s2 = UiSafety \<longrightarrow> loadProgress w2 = (Inr \<lparr>pr_step = ''done'', pr_userId = Some (kg_userId s1)\<rparr>, w2) \<and>
       au_authenticated (auth w2) \<and> au_userId (auth w2) = Some (kg_userId s1))"
proof -
  obtain w0 where l: "loadBundle E w = (Inr None, w0)" using assms(3) by (metis prod.collapse)
  have "keeps quiet (loadBundle E)" unfolding loadBundle_def loadProgress_def by (intro q.keeps_rules keeps_intro)
  then have "quiet w w0" using l by (rule keepsD)
  then have k0: "keyOf w0 = Some k" using assms(2) by (rule quiet_keyOf)
  have "generateIdentity E cy w0 = (Inr (kg_userId s1), w1) \<and> on_step s1 = UiKeys"
    using assms(4,5,6) l by (auto simp: mountKeyGen_def onbRun_def split: prod.splits sum.splits)
  then obtain b where b: "b_userId b = kg_userId s1" "normBundle b = b" "holds E k b w1" "on_step s1 = UiKeys"
    using generateIdentity_holds [OF assms(1) k0] by blast
  have u: "b_userId b \<noteq> []" using b(1) assms(6) by simp
  have "onbInv E k b (s1, w1)" using b by (simp add: onbInv_def)
  then have "onbInv E k b (fold (onbStep E cy cr scorer) inputs (s1, w1))"
    by (induction inputs arbitrary: s1 w1 rule: rev_induct) (simp_all add: inv_onbStep [OF assms(1) _ u b(2)])
  then have inv: "onbInv E k b (s2, w2)" using assms(7) by (simp add: onbSteps_def)
  then have "holds E k b w2" by (simp add: onbInv_def)
  then have "loadBundle E w2 = (Inr (Some b), w2)" using u by (rule load_holds)
  then show ?thesis using inv b(1) by (intro exI [where x = b]) (auto simp: onbInv_def)
qed

end
