(* ===== verification/RecoveryScreen.thy ===== *)
theory RecoveryScreen
  imports Recovery HistoryBackup SeedWords UiServices
begin

text \<open>
  The recovery screen (\<^verbatim>\<open>screens/Recovery.tsx\<close>): its three tabs, the offer to restore the
  encrypted backup, the seed file and the loop that polls for the shares of emergency contacts.
  One record holds the state of the screen and of its tab components, one function models each
  handler; a call of the core is one step. Whether the ten-second timer beats the answer, and
  whether a component was left while it waited, are arguments. The dash of two messages is
  written as a hyphen.
\<close>

section \<open>State\<close>

datatype recTab = TabPassword | TabSeed | TabContacts

record recScreen =
  sc_tab :: recTab
  sc_busy :: bool
  sc_error :: "string option"
  sc_offer :: bool
  sc_left :: bool
  sc_phrase :: string
  sc_fileError :: "string option"
  sc_restored :: "int option"
  sc_restoreError :: "string option"
  ct_session :: "RecoverySession option"
  ct_collected :: "(string \<times> bytes) list"
  ct_received :: nat
  ct_posted :: nat
  ct_pollError :: "string option"
  ct_error :: "string option"
  ct_stopped :: bool
  ct_timer :: "int option"

definition recScreenInit :: recScreen where
  "recScreenInit = \<lparr>sc_tab = TabPassword, sc_busy = False, sc_error = None, sc_offer = False, sc_left = False, sc_phrase = [],
     sc_fileError = None, sc_restored = None, sc_restoreError = None, ct_session = None, ct_collected = [], ct_received = 0,
     ct_posted = 0, ct_pollError = None, ct_error = None, ct_stopped = False, ct_timer = None\<rparr>"

type_synonym recAct = "recScreen \<times> world \<Rightarrow> recScreen \<times> world"

definition setTab :: "recTab \<Rightarrow> recScreen \<Rightarrow> recScreen" where
  "setTab t s = s\<lparr>sc_tab := t, sc_error := None\<rparr>"

section \<open>Back in\<close>

definition recovered :: "env \<Rightarrow> bool \<Rightarrow> recAct" where
  "recovered E timedOut p =
     (case backupStatus E (snd p) of (r, w) \<Rightarrow>
        (let count = (if timedOut then 0 else case r of Inr (c, _) \<Rightarrow> c | Inl _ \<Rightarrow> 0) in
         (if 0 < count then (fst p)\<lparr>sc_offer := True\<rparr> else (fst p)\<lparr>sc_left := True\<rparr>, w)))"

definition runRecovery :: "env \<Rightarrow> bool \<Rightarrow> 'a act \<Rightarrow> recAct" where
  "runRecovery E timedOut m p =
     (let s = (fst p)\<lparr>sc_busy := True, sc_error := None\<rparr> in
      case m (snd p) of
        (Inl e, w) \<Rightarrow> (s\<lparr>sc_error := Some (errorMessage ''Recovery failed.'' e), sc_busy := False\<rparr>, w)
      | (Inr _, w) \<Rightarrow> recovered E timedOut (s, w))"

section \<open>Password\<close>

definition passwordSubmit :: "env \<Rightarrow> RecoveryCryptoApi \<Rightarrow> bool \<Rightarrow> string \<Rightarrow> string \<Rightarrow> recAct" where
  "passwordSubmit E cr timedOut pxId password p =
     (let i = toLower (trim pxId) in
      if \<not> sc_busy (fst p) \<and> i \<noteq> [] \<and> password \<noteq> [] then runRecovery E timedOut (recoverWithPassword E cr i password) p else p)"

section \<open>Seed phrase\<close>

definition MAX_SEED_FILE :: nat where "MAX_SEED_FILE = 16 * 1024"

fun contains :: "string \<Rightarrow> string \<Rightarrow> bool" where
  "contains pat [] = (pat = [])"
| "contains pat (c # cs) = (take (length pat) (c # cs) = pat \<or> contains pat cs)"

text \<open>\<open>/unknown word \(word (\d+)\)/\<close>: the leftmost match.\<close>

definition unknownWordAt :: "string \<Rightarrow> int option" where
  "unknownWordAt s =
     (let pat = ''unknown word (word ''; r = drop (length pat) s; ds = takeWhile isDigit r in
      if take (length pat) s = pat \<and> ds \<noteq> [] \<and> take 1 (dropWhile isDigit r) = '')'' then Some (digitsVal ds) else None)"

fun unknownWord :: "string \<Rightarrow> int option" where
  "unknownWord [] = None"
| "unknownWord (c # cs) = (case unknownWordAt (c # cs) of Some n \<Rightarrow> Some n | None \<Rightarrow> unknownWord cs)"

definition signInRefused :: string where
  "signInRefused = ''Couldn't sign in with these words. Either they don't match a Privex account - check each one against '' @
     ''your saved copy - or this device's clock is more than 5 minutes off.''"

definition friendlySeedError :: "error \<Rightarrow> error" where
  "friendlySeedError e =
     (if e = ApiError 401 then JsError signInRefused
      else let msg = errorMessage [] e in
        case unknownWord msg of
          Some n \<Rightarrow> JsError (''Word '' @ showInt (n + 1) @ '' isn't a recovery-phrase word. Check its spelling.'')
        | None \<Rightarrow>
            if contains ''invalid checksum'' msg
            then JsError ''These words aren't a valid recovery phrase. One may be misspelled or out of order.'' else e)"

definition setPhrase :: "string \<Rightarrow> recScreen \<Rightarrow> recScreen" where
  "setPhrase v s = s\<lparr>sc_phrase := v, sc_error := None\<rparr>"

text \<open>A picked file is its size and its text.\<close>

definition openFile :: "(string \<Rightarrow> string) \<Rightarrow> (nat \<times> string) option \<Rightarrow> recScreen \<Rightarrow> recScreen" where
  "openFile nfkd f s =
     (let s1 = s\<lparr>sc_fileError := None\<rparr> in
      case f of None \<Rightarrow> s1
      | Some (sz, content) \<Rightarrow>
          if MAX_SEED_FILE < sz then s1\<lparr>sc_fileError := Some ''That file is too big to be a saved recovery phrase.''\<rparr>
          else (let found = parseSeedText nfkd content in
            if length found \<noteq> 24
            then s1\<lparr>sc_fileError := Some ''Couldn't find 24 words in that file. You can paste or type them instead.''\<rparr>
            else setPhrase (joinWords found) s1))"

definition seedSubmit :: "env \<Rightarrow> RecoveryCryptoApi \<Rightarrow> (string \<Rightarrow> string) \<Rightarrow> bool \<Rightarrow> recAct" where
  "seedSubmit E cr nfkd timedOut p =
     (let ws = parseSeedText nfkd (sc_phrase (fst p)) in
      if sc_busy (fst p) \<or> length ws \<noteq> 24 then p
      else runRecovery E timedOut (tryCatch (recoverWithSeed E cr (joinWords ws)) (\<lambda>e. throw (friendlySeedError e))) p)"

section \<open>Restoring the backup\<close>

text \<open>A listing that does not end within the fuel leaves the screen restoring.\<close>

definition restoreChats :: "nat \<Rightarrow> env \<Rightarrow> recAct" where
  "restoreChats fuel E p =
     (let s = (fst p)\<lparr>sc_restoreError := None, sc_restored := Some 0\<rparr> in
      case restoreHistory fuel E (snd p) of
        (Inr (Some n), w) \<Rightarrow> (s\<lparr>sc_restored := Some n, sc_left := True\<rparr>, w)
      | (Inr None, w) \<Rightarrow> (s, w)
      | (Inl e, w) \<Rightarrow> (s\<lparr>sc_restoreError := Some (errorMessage ''Restore failed.'' e), sc_restored := None\<rparr>, w))"

definition notNow :: "recScreen \<Rightarrow> recScreen" where
  "notNow s = (if sc_restored s \<noteq> None then s else s\<lparr>sc_left := True\<rparr>)"

section \<open>Emergency contacts\<close>

text \<open>\<open>e instanceof ApiError || e instanceof TypeError\<close>\<close>

definition isNetworkError :: "error \<Rightarrow> bool" where
  "isNetworkError e = (case e of ApiError n \<Rightarrow> True | JsError m \<Rightarrow> take 9 m = ''TypeError'')"

definition pollMessage :: "error \<Rightarrow> string" where
  "pollMessage e =
     (if isNetworkError e then ''Can't reach the server - still trying.''
      else ''Recovery hit a problem - still trying. ('' @ errorMessage [] e @ '')'')"

definition contactsStart :: "env \<Rightarrow> ContactRecoveryCryptoApi \<Rightarrow> recAct" where
  "contactsStart E cr p =
     (let s = (fst p)\<lparr>ct_error := None\<rparr> in
      case startContactRecovery E cr (snd p) of
        (Inr session, w) \<Rightarrow> (s\<lparr>ct_session := Some session, ct_collected := [], ct_stopped := False, ct_timer := Some 500\<rparr>, w)
      | (Inl e, w) \<Rightarrow> (s\<lparr>ct_error := Some (errorMessage ''Could not start recovery.'' e)\<rparr>, w))"

definition contactsUnmount :: "recScreen \<Rightarrow> recScreen" where
  "contactsUnmount s = s\<lparr>ct_stopped := True, ct_timer := None\<rparr>"

text \<open>One tick; \<open>gone\<close>: the tab was left while the poll waited.\<close>

definition pollTick :: "env \<Rightarrow> ContactRecoveryCryptoApi \<Rightarrow> bool \<Rightarrow> bool \<Rightarrow> recAct" where
  "pollTick E cr timedOut gone p =
     (case (ct_session (fst p), ct_timer (fst p)) of
        (Some session, Some _) \<Rightarrow>
          (let s = (fst p)\<lparr>ct_timer := None\<rparr> in
           if ct_stopped s then (s, snd p)
           else case pollContactRecovery E cr session (ct_collected s, snd p) of (r, (c, w)) \<Rightarrow>
             (let s1 = (if gone then contactsUnmount s else s)\<lparr>ct_collected := c\<rparr> in
              case r of
                Inr (userId, posted) \<Rightarrow>
                  if ct_stopped s1 then (s1, w)
                  else (let s2 = s1\<lparr>ct_received := length c, ct_posted := posted, ct_pollError := None\<rparr> in
                    if orElse userId [] \<noteq> [] then recovered E timedOut (s2\<lparr>ct_stopped := True\<rparr>, w)
                    else (s2\<lparr>ct_timer := Some 3000\<rparr>, w))
              | Inl e \<Rightarrow>
                  if ct_stopped s1 then (s1, w) else (s1\<lparr>ct_pollError := Some (pollMessage e), ct_timer := Some 3000\<rparr>, w)))
      | _ \<Rightarrow> p)"

section \<open>Lemmas\<close>

lemma recovered_once:
  assumes "recovered E timedOut (s, w) = (s', w')" "\<not> sc_offer s" "\<not> sc_left s"
  shows "sc_offer s' \<noteq> sc_left s'"
  using assms by (auto simp: recovered_def Let_def split: prod.splits if_splits)

text \<open>A failed attempt leaves the form free with its error; a successful one leads on.\<close>

lemma runRecovery_ends:
  assumes "runRecovery E timedOut m (s, w) = (s', w')" "\<not> sc_offer s" "\<not> sc_left s"
  shows "(\<exists>e. fst (m w) = Inl e \<and> sc_error s' = Some (errorMessage ''Recovery failed.'' e) \<and> \<not> sc_busy s' \<and> \<not> sc_offer s' \<and> \<not> sc_left s') \<or>
    (\<exists>x. fst (m w) = Inr x \<and> sc_error s' = None \<and> sc_offer s' \<noteq> sc_left s')"
  using assms by (auto simp: runRecovery_def recovered_def Let_def split: prod.splits sum.splits if_splits)

lemma unknownWord_found:
  assumes "\<And>k. k < length pre \<Longrightarrow> unknownWordAt (drop k (pre @ s)) = None" "unknownWordAt s = Some n" "s \<noteq> []"
  shows "unknownWord (pre @ s) = Some n"
  using assms(1)
proof (induction pre)
  case Nil
  then show ?case using assms(2,3) by (cases s) simp_all
next
  case (Cons c pre)
  have "unknownWordAt (c # pre @ s) = None" using Cons.prems [of 0] by simp
  moreover have "unknownWord (pre @ s) = Some n" using Cons.prems [of "Suc _"] by (intro Cons.IH) simp
  ultimately show ?case by simp
qed

text \<open>The words of the message are counted from one.\<close>

lemma unknownWordAt_number: "unknownWordAt (''unknown word (word '' @ showNat n @ '')'') = Some (int n)"
proof -
  have "takeWhile isDigit (showNat n @ '')'') = showNat n \<and> dropWhile isDigit (showNat n @ '')'') = '')''"
    using take_drop_stop [of "showNat n" isDigit "'')''"] showNat_digits [of _ n] by (simp add: isDigit_def)
  then show ?thesis by (simp add: unknownWordAt_def digitsVal_showNat)
qed

lemma unknown_word_counts_from_one:
  "friendlySeedError (JsError (''mnemonic contains an unknown word (word '' @ showNat n @ '')'')) =
     JsError (''Word '' @ showNat (Suc n) @ '' isn't a recovery-phrase word. Check its spelling.'')"
proof -
  have "unknownWordAt (drop k (''mnemonic contains an '' @ ''unknown word (word '' @ showNat n @ '')'')) = None"
    if "k < length ''mnemonic contains an ''" for k
  proof -
    have "k \<in> {..<21}" using that by simp
    then show ?thesis by (auto simp: unknownWordAt_def Let_def lessThan_nat_numeral eval_nat_numeral elim!: less_SucE)
  qed
  then have "unknownWord (''mnemonic contains an '' @ ''unknown word (word '' @ showNat n @ '')'') = Some (int n)"
    using unknownWordAt_number [of n] by (intro unknownWord_found) simp_all
  then show ?thesis by (simp add: friendlySeedError_def errorMessage_def showInt_def nat_add_distrib)
qed

section \<open>The saved file brings the account back\<close>

lemma tokens_joinWords: "\<forall>x \<in> set ws. isSeedWord x \<Longrightarrow> tokens (joinWords ws) = ws"
proof (induction ws rule: joinWords.induct)
  case (2 x)
  then show ?case using tokens_word [of x "[]"] by (simp add: isSeedWord_def)
next
  case (3 x y xs)
  have "tokens (x @ '' '' @ joinWords (y # xs)) = x # tokens ('' '' @ joinWords (y # xs))"
    using 3 by (intro tokens_word) (auto simp: isSeedWord_def isLetter_def)
  moreover have "tokens ('' '' @ joinWords (y # xs)) = tokens (joinWords (y # xs))"
    by (rule tokens_noise) (simp add: noise_def isDigit_def isLetter_def)
  ultimately show ?case using 3 by simp
qed simp

lemma numberPairs_plain: "\<forall>t \<in> set ts. isWordToken t \<Longrightarrow> numberPairs ts m = Some m"
  by (induction ts m rule: numberPairs.induct) (auto simp: Let_def)

lemma map_filter_none: "List.map_filter (\<lambda>x. None) xs = []"
  by (simp add: List.map_filter_def)

lemma toLower_letters: "\<forall>c \<in> set s. c = CHR '' '' \<or> isLetter c \<Longrightarrow> toLower s = s"
proof (rule toLower_same, rule ballI)
  fix c assume "\<forall>c \<in> set s. c = CHR '' '' \<or> isLetter c" "c \<in> set s"
  then have "c = CHR '' '' \<or> isLetter c" by blast
  then show "isDigit c \<or> isLetter c \<or> noise [c] \<and> \<not> (65 \<le> code c \<and> code c \<le> 90)"
    by (elim disjE) (simp_all add: noise_def isDigit_def isLetter_def)
qed

lemma joinWords_chars: "c \<in> set (joinWords ws) \<Longrightarrow> c = CHR '' '' \<or> (\<exists>x \<in> set ws. c \<in> set x)"
proof (induction ws rule: joinWords.induct)
  case (3 x y xs)
  then have "c \<in> set x \<or> c = CHR '' '' \<or> c \<in> set (joinWords (y # xs))" by auto
  then show ?case using 3 by (metis list.set_intros)
qed simp_all

lemma parse_joinWords:
  assumes "\<forall>x \<in> set ws. isSeedWord x" "nfkd (joinWords ws) = joinWords ws"
  shows "parseSeedText nfkd (joinWords ws) = ws"
proof -
  have "toLower (joinWords ws) = joinWords ws"
    using assms(1) by (intro toLower_letters ballI) (auto dest!: joinWords_chars simp: isSeedWord_def)
  moreover have "\<forall>t \<in> set ws. isWordToken t" using assms(1) by (auto simp: isSeedWord_def isWordToken_def)
  ultimately show ?thesis using assms
    by (simp add: parseSeedText_def tokens_joinWords numberPairs_plain Let_def filter_id_conv map_filter_none)
qed

lemma typed_one_space: "typedWords (map (\<lambda>x. (x, '' '')) us) @ l = joinWords (us @ [l])"
proof (induction us)
  case (Cons u us)
  then show ?case by (cases us) (simp_all add: typedWords_def)
qed (simp add: typedWords_def)

lemma seed_words_typed:
  assumes "\<forall>x \<in> set ws. isSeedWord x" "ws \<noteq> []"
  shows "collapseSpaces (trim (joinWords ws)) = joinWords ws"
proof -
  obtain us l where ws: "ws = us @ [l]" using assms(2) by (cases ws rule: rev_cases) auto
  let ?typed = "map (\<lambda>x. (x, '' '')) us"
  have "isWord x" if "isSeedWord x" for x using that by (auto simp: isSeedWord_def isWord_def isLetter_def is_space_def)
  then have "gapsOk ?typed" "isWord l" using assms(1) ws by (auto simp: gapsOk_def is_space_def)
  from phrase_normalised [OF this, of "[]" "[]"] show ?thesis using ws typed_one_space [of us l] by (simp add: o_def)
qed

text \<open>C26. The saved file brings the account back. Opening, on a new device, the file the app wrote
  for a recovery phrase of 24 words fills in exactly those words, in order, without an error,
  and submitting recovers with exactly that phrase: with the mnemonic of an identity, the same
  id, keys and master seed come back.\<close>

theorem saved_file_recovers:
  assumes "length ws = 24" "\<forall>x \<in> set ws. isSeedWord x" "nfkd (seedFileText ws) = seedFileText ws" "nfkd (joinWords ws) = joinWords ws"
    "sz \<le> MAX_SEED_FILE" "\<not> sc_busy s"
    "keygen_total (wasm E)" "genIdentityBundle (wasm E) t entropy = Inr b" "b_mnemonic b = joinWords ws"
  shows "let s1 = openFile nfkd (Some (sz, seedFileText ws)) s in
    sc_phrase s1 = joinWords ws \<and> sc_fileError s1 = None \<and>
    (\<exists>b'. b_userId b' = b_userId b \<and> b_identity b' = b_identity b \<and> b_masterSeed b' = b_masterSeed b \<and>
       seedSubmit E (workerRecoveryCrypto E) nfkd timedOut (s1, w) =
       runRecovery E timedOut (\<lambda>w. tryCatch (andThen (completeRecovery E b' None) (ret (b_userId b))) (\<lambda>e. throw (friendlySeedError e))
         (w\<lparr>tick := Suc (tick w)\<rparr>)) (s1, w))"
proof -
  have opened: "sc_phrase (openFile nfkd (Some (sz, seedFileText ws)) s) = joinWords ws \<and>
      sc_fileError (openFile nfkd (Some (sz, seedFileText ws)) s) = None \<and> \<not> sc_busy (openFile nfkd (Some (sz, seedFileText ws)) s)"
    using assms(1,2,3,5,6) by (simp add: openFile_def Let_def seed_file_reads_back setPhrase_def)
  have parsed: "parseSeedText nfkd (joinWords ws) = ws" by (rule parse_joinWords) (fact assms)+
  have "ws \<noteq> []" using assms(1) by auto
  then have "collapseSpaces (trim (joinWords ws)) = b_mnemonic b" using seed_words_typed [OF assms(2)] assms(9) by simp
  from recoverWithSeed_same [OF assms(7,8) this, of w] obtain b' where b':
    "b_userId b' = b_userId b" "b_identity b' = b_identity b" "b_masterSeed b' = b_masterSeed b"
    "recoverWithSeed E (workerRecoveryCrypto E) (joinWords ws) w = andThen (completeRecovery E b' None) (ret (b_userId b)) (w\<lparr>tick := Suc (tick w)\<rparr>)"
    by blast
  then have "tryCatch (recoverWithSeed E (workerRecoveryCrypto E) (joinWords ws)) h w =
      tryCatch (andThen (completeRecovery E b' None) (ret (b_userId b))) h (w\<lparr>tick := Suc (tick w)\<rparr>)" for h
    by (simp add: tryCatch_def)
  then show ?thesis using b'(1-3) opened parsed assms(1) by (auto simp: seedSubmit_def runRecovery_def Let_def intro!: exI [of _ b'])
qed

end
