(* ===== verification/ScreenWitnesses.thy ===== *)
theory ScreenWitnesses
  imports TransferWitnesses AppBoot ChatScreen OnboardingScreen RecoveryScreen
begin

text \<open>
  Instances of the properties of the app root and of the screens, on the sample environment.
\<close>

section \<open>The app root\<close>

definition outWorld :: world where
  "outWorld = world0\<lparr>auth := \<lparr>au_authenticated = False, au_userId = None, au_sessionToken = None\<rparr>\<rparr>"

lemma outWorld_simps [simp]: "au_authenticated (auth outWorld) = False" "au_sessionToken (auth outWorld) = None"
  "renewEnabled outWorld = False" "keystore outWorld = keystore world0" "idb outWorld = db0"
  by (simp_all add: outWorld_def world0_def)

lemma restore_outWorld: "idb w = db0 \<Longrightarrow> doRestore E w = (Inr False, w)"
  by (simp add: doRestore_def loadProgress_def tget_def)

definition started0 :: bootState where
  "started0 = startBoot (bootInit outWorld)"

lemma reach0: "bootReach E mc v send cover kdf wa started0"
  unfolding started0_def by (rule bootReach.start) simp_all

lemma started0_is: "started0 = bootAttempt (bootInit outWorld)"
  by (simp add: started0_def startBoot_def runCore_def isLockEnabled_def isUnlocked_def bootInit_def bootWorld_def outWorld_def
      world0_def onApp_def onShell_def ksGets_def await_def gets_def ret_def)

theorem app_talks_only_when_ready_witness: "silent (commitBoot env0 5 started0)"
proof -
  have "homeRoute started0 \<noteq> ScreenConversations" by (simp add: started0_is homeRoute_def bootAttempt_def)
  with app_talks_only_when_ready [OF reach0 [of env0 "workerMessageCrypto env0" "workerVerify env0" "\<lambda>_ _ _. ret ()" "ret ()" kdf0]]
  show ?thesis by blast
qed

text \<open>The user signs in to nothing, sets an app lock and the tab is frozen.\<close>

definition ready0 :: bootState where
  "ready0 = commitBoot env0 5 (restored env0 started0)"

definition lockMeta0 :: LockMeta where
  "lockMeta0 = \<lparr>lm_passphrase = None, lm_webauthn = None\<rparr>"

definition guarded0 :: bootState where
  "guarded0 = ready0\<lparr>bt_shell := ((fst (bt_shell ready0))\<lparr>ap_world := outWorld\<lparr>keystore := (keystore outWorld)\<lparr>lockMeta := Some lockMeta0\<rparr>\<rparr>\<rparr>,
     snd (bt_shell ready0))\<rparr>"

lemma restored0: "restored env0 started0 = (bootInit outWorld)\<lparr>bt_boot := BReady\<rparr>"
  using restore_outWorld [of outWorld env0]
  by (simp add: started0_is restored_def runCore_def bootAttempt_def bootInit_def bootWorld_def onApp_def onShell_def Let_def)

lemma ready0_is: "ready0 = (bootInit outWorld)\<lparr>bt_boot := BReady, bt_deps := Some (BReady, False, None), bt_guard := Some (5, DEFAULT_IDLE_MS)\<rparr>"
  unfolding ready0_def restored0
  by (simp add: commitBoot_def connectionEffect_def mountGuard_def bootInit_def bootDeps_def bootWorld_def Let_def)

lemma guarded0_reached:
  "bootReach env0 mc v send cover kdf wa guarded0"
proof -
  have "bootReach env0 mc v send cover kdf wa (restored env0 started0)"
    by (rule bootReach.step [OF reach0 bootStep.restored]) (simp add: started0_is bootAttempt_def)
  then have r: "bootReach env0 mc v send cover kdf wa ready0"
    unfolding ready0_def by (rule bootReach.step) (rule bootStep.commit)
  show ?thesis
  proof (rule bootReach.step [OF r], unfold guarded0_def, rule bootStep.socket)
    show "lateStep env0 mc v (fst (bt_shell ready0)) ((fst (bt_shell ready0))\<lparr>ap_world := outWorld\<lparr>keystore := (keystore outWorld)\<lparr>lockMeta := Some lockMeta0\<rparr>\<rparr>\<rparr>)"
    proof (rule lateStep.late [OF wsStep.core])
      fix tok
      have t: "wk_token (ap_ws (connectWebSocket env0 tok a)) = Some tok" for a
        by (simp add: connectWebSocket_def Let_def openSocket_def onWorld_def onWs_def split: prod.split)
      have "wk_token (ap_ws (a\<lparr>ap_world := w\<rparr>)) = None" if "a = fst (bt_shell ready0)" for a w
        using that by (simp add: ready0_is bootInit_def wsInit_def)
      then show "(fst (bt_shell ready0))\<lparr>ap_world := outWorld\<lparr>keystore := (keystore outWorld)\<lparr>lockMeta := Some lockMeta0\<rparr>\<rparr>\<rparr>
          \<noteq> connectWebSocket env0 tok (fst (bt_shell ready0))"
        using t [of "fst (bt_shell ready0)"] by (metis option.distinct(1))
    qed
    show "background ready0 ((fst (bt_shell ready0))\<lparr>ap_world := outWorld\<lparr>keystore := (keystore outWorld)\<lparr>lockMeta := Some lockMeta0\<rparr>\<rparr>\<rparr>, snd (bt_shell ready0))"
      by (simp add: background_def ready0_is)
  qed
qed

theorem locked_app_stays_silent_witness:
  "homeRoute (onLockEvent Freeze guarded0) = ScreenUnlock \<and> silent (commitBoot env0 9 (onLockEvent Freeze guarded0))"
proof -
  have g: "bt_boot guarded0 = BReady" "bt_guard guarded0 = Some (5, DEFAULT_IDLE_MS)" "lockMeta (keystore (bootWorld guarded0)) \<noteq> None"
    by (simp_all add: guarded0_def ready0_is bootWorld_def)
  from locked_app_stays_silent [OF guarded0_reached [of "workerMessageCrypto env0" "workerVerify env0" "\<lambda>_ _ _. ret ()" "ret ()" kdf0] g(1,2) _ g(3) rtranclp.rtrancl_refl, of Freeze]
  show ?thesis by simp
qed

text \<open>Three attempts find no server, the fourth finds one.\<close>

definition downWorld :: world where
  "downWorld = outWorld\<lparr>idb := dbIdentity\<lparr>settings_tbl := [(PROGRESS_KEY, \<lparr>st_key = PROGRESS_KEY,
     st_value = JObj [(''step'', JStr ''done''), (''userId'', JStr ''px_me'')]\<rparr>)]\<rparr>\<rparr>"

lemma restore_down: "\<exists>w'. doRestore unreachable downWorld = (Inl (JsError ''TypeError: Failed to fetch''), w')"
proof -
  have "reads unreachable = reads env0" by (simp add: fun_eq_iff reads_def unreachable_def)
  then have "holds unreachable key0 bundle0 downWorld"
    using stored0 key0_of by (simp add: holds_def downWorld_def storedBundle_def keyOf_def outWorld_def tget_def)
  then have "loadBundle unreachable downWorld = (Inr (Some bundle0), downWorld)" by (rule load_holds) simp
  moreover have "loadProgress downWorld = (Inr \<lparr>pr_step = ''done'', pr_userId = Some ''px_me''\<rparr>, downWorld)"
    by (simp add: loadProgress_def downWorld_def tget_def)
  ultimately show ?thesis
    by (simp add: doRestore_def authenticateBundle_def authChallenge_def post_api_def
        run_fetchReq unreachable_def)
qed

theorem boot_ends_witness:
  "let t = fold (bootTry unreachable) (replicate 3 downWorld) (tryRestore ((bootInit outWorld)\<lparr>bt_boot := BOffline\<rparr>)) in
     bt_retries t = 3 \<and> bt_timers t = [retryDelay 3] \<and> homeRoute t \<in> {ScreenLoading, ScreenOffline} \<and>
     bt_boot (bootTry unreachable outWorld t) = BReady"
proof -
  have "chain ((bootInit outWorld)\<lparr>bt_boot := BOffline\<rparr>)" by (simp add: chain_def bootInit_def)
  moreover have "\<forall>w \<in> set (replicate 3 downWorld). \<exists>e w'. doRestore unreachable w = (Inl e, w')" using restore_down by auto
  ultimately show ?thesis
    using boot_ends [of "(bootInit outWorld)\<lparr>bt_boot := BOffline\<rparr>" "replicate 3 downWorld" unreachable] restore_outWorld [of outWorld unreachable]
    by (auto simp: triedTimes_def MAX_BOOT_RETRIES_def Let_def bootInit_def)
qed

theorem boot_never_reonboards_witness:
  "homeRoute (restored env0 started0) = ScreenOnboarding \<and> (\<exists>p. fst (loadProgress outWorld) = Inr p \<and> pr_step p \<noteq> ''done'')"
proof -
  have h: "homeRoute (restored env0 started0) = ScreenOnboarding" by (simp add: restored0 homeRoute_def bootInit_def bootWorld_def)
  have "0 < bt_restoring started0" "bootWorld started0 = outWorld" by (simp_all add: started0_is bootAttempt_def bootInit_def bootWorld_def)
  from boot_never_reonboards [OF reach0 [of env0 "workerMessageCrypto env0" "workerVerify env0" "\<lambda>_ _ _. ret ()" "ret ()" kdf0] this(1) h] this(2)
  show ?thesis using h by (auto simp: loadProgress_def tget_def)
qed

section \<open>The chat\<close>

definition seen0 :: PlainMessage where
  "seen0 = \<lparr>p_msg_id = ''m1'', p_session_id = ''px_peer'', p_content = ''hi'', p_timestamp = 0, p_status = ''delivered'',
     p_direction = DirIn, p_kind = KText, p_receipt_token = Some [1], p_receipt_read_wanted = Some True,
     p_receipt_read_done = None, p_server_anchor = None, p_created_at = 0\<rparr>"


text \<open>A message to someone who is not a contact is turned down; the text is back in the composer.\<close>

theorem composer_loses_nothing_witness:
  "\<exists>s' w'. sendEnd env0 mc0 (''px_peer'', ''hi'', DEFAULT_TTL) ((chatInit ''px_peer'')\<lparr>ch_sending := True\<rparr>, world0) = (s', w') \<and>
     ch_draft s' = ''hi'' \<and> \<not> ch_sending s' \<and> ch_error s' \<noteq> None"
proof -
  obtain s' w' where e: "sendEnd env0 mc0 (''px_peer'', ''hi'', DEFAULT_TTL) ((chatInit ''px_peer'')\<lparr>ch_sending := True\<rparr>, world0) = (s', w')"
    by fastforce
  have c: "getContact env0 ''px_peer'' w = (Inr None, w)" if "idb w = db0" "keyOf w = Some key0" for w
    using getMasterKey_keyOf [OF that(2), of env0] that(1) by (simp add: getContact_def contactsStore_def attempt_def contacts_get_def tget_def)
  have f: "\<not> Receipts.flagOn db0 key" for key by (simp add: Receipts.flagOn_def tget_def)
  have r: "buildReceiptRequest env0 world0 = (Inr None, world0)"
    unfolding buildReceiptRequest_def by (simp, simp add: f)
  obtain ts t2 where n: "nowSecs env0 world0 = (Inr ts, world0\<lparr>tick := t2\<rparr>)"
    by (simp add: nowSecs_def)
  have "keyOf (world0\<lparr>tick := t2\<rparr>) = Some key0" using key0_of by (simp add: keyOf_def)
  then have g: "getContact env0 ''px_peer'' (world0\<lparr>tick := t2\<rparr>) = (Inr None, world0\<lparr>tick := t2\<rparr>)" by (intro c) simp_all
  have m: "myBundle env0 (world0\<lparr>tick := t2\<rparr>) = (Inr bundle0, world0\<lparr>tick := t2\<rparr>)" by (simp add: myBundle_def)
  have "sealAndSend env0 mc0 ''px_peer'' x q z (world0\<lparr>tick := t2\<rparr>) =
      (Inl (JsError ''no recipient key - add this contact first''), world0\<lparr>tick := t2\<rparr>)" for x q z
    using g m by (simp add: sealAndSend_def sendTarget_def Let_def)
  then have "\<exists>e. fst (sendMessage env0 mc0 ''px_peer'' ''hi'' (Some DEFAULT_TTL) world0) = Inl e"
    using r n by (simp add: sendMessage_def andThen_def await_def)
  then have "ch_error s' \<noteq> None" using e by (auto simp: sendEnd_def chatRun_def Let_def split: prod.splits)
  with composer_loses_nothing [OF aes0 e] e show ?thesis by (auto simp: chatInit_def)
qed

lemma peer_key: "keyOf (world0\<lparr>idb := peerDb\<rparr>) = Some key0"
  using key0_of by (simp add: keyOf_def)

theorem composer_matches_service_witness:
  "\<exists>c w1. getContact env0 ''px_peer'' (world0\<lparr>idb := peerDb\<rparr>) = (Inr (Some c), w1) \<and>
     canMessage ((chatInit ''px_peer'')\<lparr>ch_contact := Some c\<rparr>) \<and>
     sendTarget env0 ''px_peer'' (Some \<lparr>sq_content = ''hi'', sq_kind = KText, sq_receiptToken = None\<rparr>) (world0\<lparr>idb := peerDb\<rparr>) = (Inr c, w1)"
proof -
  obtain c w1 where g: "getContact env0 ''px_peer'' (world0\<lparr>idb := peerDb\<rparr>) = (Inr (Some c), w1)"
    "pc_ik_x25519 c \<noteq> []" "pc_status c = Accepted"
    using getMasterKey_keyOf [OF peer_key, of env0]
    by (simp add: getContact_def contactsStore_def attempt_def contacts_get_def contacts_toPlain_def tget_def peerDb_def)
  let ?s = "(chatInit ''px_peer'')\<lparr>ch_contact := Some c\<rparr>"
  have "canMessage ?s" using g(3) by (simp add: canMessage_def statusIs_def)
  with composer_matches_service [of env0 ?s "world0\<lparr>idb := peerDb\<rparr>" c w1] g show ?thesis by (auto simp: chatInit_def)
qed

section \<open>Onboarding and recovery\<close>

theorem onboarding_screen_keeps_identity_witness:
  "\<exists>s1 w1. mountKeyGen env0 (workerCrypto env0) (onbInit\<lparr>on_step := UiKeys\<rparr>, world0) = (s1, w1) \<and>
     (\<exists>s2 w2 b. onbSteps env0 (workerCrypto env0) (workerRecoveryCrypto env0) None [OKeysDone, OReload, ORegister, OFinish] (s1, w1) = (s2, w2) \<and>
        b_userId b = kg_userId s1 \<and> fst (loadBundle env0 w2) = Inr (Some b))"
proof -
  have l: "loadBundle env0 world0 = (Inr None, world0)" by (simp add: loadBundle_def loadProgress_def tget_def)
  have g: "\<exists>u w1. generateIdentity env0 (workerCrypto env0) world0 = (Inr u, w1) \<and> u \<noteq> []"
    using genIdentity0 generate0 by metis
  obtain s1 w1 where m: "mountKeyGen env0 (workerCrypto env0) (onbInit\<lparr>on_step := UiKeys\<rparr>, world0) = (s1, w1)" by fastforce
  have "on_step s1 = UiKeys" "kg_userId s1 \<noteq> []" using m g l by (auto simp: mountKeyGen_def onbRun_def)
  moreover obtain s2 w2 where r: "onbSteps env0 (workerCrypto env0) (workerRecoveryCrypto env0) None [OKeysDone, OReload, ORegister, OFinish] (s1, w1) = (s2, w2)"
    by fastforce
  ultimately show ?thesis using onboarding_screen_keeps_identity [OF aes0 key0_of _ m _ _ r] l m r by auto
qed

text \<open>An identity with a phrase of 24 words.\<close>

definition words24 :: "string list" where
  "words24 = replicate 23 ''abandon'' @ [''art'']"

definition env24 :: env where
  "env24 = env0\<lparr>wasm := wasm0\<lparr>w_generate_seed_phrase := (\<lambda>e. Inr (joinWords words24))\<rparr>\<rparr>"

theorem saved_file_recovers_witness:
  "\<exists>b. genIdentityBundle (wasm env24) 0 [] = Inr b \<and>
     sc_phrase (openFile (\<lambda>s. s) (Some (800, seedFileText words24)) recScreenInit) = b_mnemonic b"
proof -
  have k: "keygen_total (wasm env24)" by (simp add: keygen_total_def env24_def wasm0_def)
  have "\<exists>ys. mapE (makeOpk (wasm env24) 0 1 1) [0..<OPK_COUNT] = Inr ys" using k by (intro mapE_total makeOpk_total)
  then obtain b where b: "genIdentityBundle (wasm env24) 0 [] = Inr b" "b_mnemonic b = joinWords words24"
    by (auto simp: genIdentityBundle_def bundleFrom_def env24_def wasm0_def)
  have w: "length words24 = 24" "\<forall>x \<in> set words24. isSeedWord x" by (simp_all add: words24_def isSeedWord_def isLetter_def)
  from saved_file_recovers [OF w _ _ _ _ k b, of "\<lambda>s. s" 800 recScreenInit False world0] b
  show ?thesis by (auto simp: MAX_SEED_FILE_def recScreenInit_def Let_def)
qed

end
