(* ===== verification/ContactScreens.thy ===== *)
theory ContactScreens
  imports UiServices Sending "HOL-Library.Multiset"
begin

text \<open>
  The screens around contacts: the home list (\<^verbatim>\<open>components/ContactList.tsx\<close>), requests
  (\<^verbatim>\<open>components/ContactRequests.tsx\<close>), blocked contacts (\<^verbatim>\<open>components/BlockedContacts.tsx\<close>), adding
  one (\<^verbatim>\<open>screens/Contacts.tsx\<close>) with the badge of \<^verbatim>\<open>components/AppShell.tsx\<close> and the scanner
  (\<^verbatim>\<open>components/QrScanner.tsx\<close>), the comparison of safety codes (\<^verbatim>\<open>screens/KeyVerification.tsx\<close>),
  the key alert (\<^verbatim>\<open>components/KeyAlert.tsx\<close>) and the identicon (\<^verbatim>\<open>components/Avatar.tsx\<close>). One
  record holds the state of a component, one function models each handler; a call of the core
  is one step. The camera and its decoder are the events that call back.
\<close>

section \<open>The identicon\<close>

text \<open>\<open>Math.imul\<close> and \<open>>>> 0\<close> are arithmetic on \<open>32 word\<close>.\<close>

definition fnv1a :: "string \<Rightarrow> 32 word" where
  "fnv1a s = fold (\<lambda>c h. (xor h (word_of_nat (code c))) * 0x01000193) s 0x811c9dc5"

definition identiconHue :: "string \<Rightarrow> nat" where
  "identiconHue seed = unat (fnv1a (if seed = [] then ''privex'' else seed)) mod 360"

definition lcg :: "32 word \<Rightarrow> 32 word" where
  "lcg r = r * 1664525 + 1013904223"

definition lcgBit :: "32 word \<Rightarrow> bool" where
  "lcgBit r = bit r 17"

fun identiconRows :: "nat \<Rightarrow> 32 word \<Rightarrow> bool list" where
  "identiconRows 0 r = []"
| "identiconRows (Suc n) r =
     (let r1 = lcg r; r2 = lcg r1; r3 = lcg r2; left = map lcgBit [r1, r2, r3]
      in map (\<lambda>x. left ! (if x < 3 then x else 4 - x)) [0..<5] @ identiconRows n r3)"

definition identiconCells :: "string \<Rightarrow> bool list" where
  "identiconCells seed =
     (let h = fnv1a (if seed = [] then ''privex'' else seed) in identiconRows 5 (if h = 0 then 1 else h))"

section \<open>The home list\<close>

text \<open>The latest message of each conversation; a zero counts as none, as in the source.\<close>

definition noteLatest :: "MessageRow \<Rightarrow> (string \<rightharpoonup> int) \<Rightarrow> string \<rightharpoonup> int" where
  "noteLatest m mp =
     (let key = orElse (m_server_anchor m) (m_timestamp m); prev = orElse (mp (m_session_id m)) 0 in
      if prev = 0 \<or> prev < key then mp(m_session_id m \<mapsto> key) else mp)"

definition latestPerSession :: "string list \<Rightarrow> MessageRow list \<Rightarrow> string \<rightharpoonup> int" where
  "latestPerSession ids rows =
     (if ids = [] then Map.empty else fold noteLatest (filter (\<lambda>m. m_session_id m \<in> set ids) rows) Map.empty)"

definition byStatus :: "ContactStatus \<Rightarrow> PlainContact list \<Rightarrow> PlainContact list" where
  "byStatus st = filter (\<lambda>c. pc_status c = st)"

definition homeOrder :: "PlainContact list \<Rightarrow> MessageRow list \<Rightarrow> PlainContact list" where
  "homeOrder all rows =
     (let accepted = byStatus Accepted all; latest = latestPerSession (map pc_px_id accepted) rows
      in sort_key (\<lambda>c. - orElse (latest (pc_px_id c)) (pc_added_at c)) accepted)"

record contactList =
  cl_contacts :: "PlainContact list"
  cl_loading :: bool
  cl_error :: "string option"
  cl_menuFor :: "string option"
  cl_renaming :: "PlainContact option"
  cl_renameValue :: string
  cl_removing :: "PlainContact option"
  cl_actionError :: "string option"

definition reloadHome :: "env \<Rightarrow> contactList \<times> world \<Rightarrow> contactList \<times> world" where
  "reloadHome E p =
     (case await (listContacts E) (\<lambda>all. await (dbGets (\<lambda>d. toArray (messages_tbl d))) (\<lambda>rows. ret (homeOrder all rows))) (snd p) of
        (Inr cs, w) \<Rightarrow> ((fst p)\<lparr>cl_contacts := cs, cl_error := None, cl_loading := False\<rparr>, w)
      | (Inl e, w) \<Rightarrow> ((fst p)\<lparr>cl_error := Some (''Couldn'' @ CHR 0x27 # ''t load your contacts.''), cl_loading := False\<rparr>, w))"

definition saveRename :: "env \<Rightarrow> contactList \<times> world \<Rightarrow> contactList \<times> world" where
  "saveRename E p =
     (case cl_renaming (fst p) of None \<Rightarrow> p
      | Some target \<Rightarrow>
          (let trimmed = take 64 (trim (cl_renameValue (fst p))); s = (fst p)\<lparr>cl_renaming := None, cl_actionError := None\<rparr> in
           if trimmed = [] then (s, snd p)
           else case setDisplayName E (pc_px_id target) trimmed (snd p) of
                  (Inr _, w) \<Rightarrow> reloadHome E (s, w)
                | (Inl e, w) \<Rightarrow> (s\<lparr>cl_actionError := Some (errorMessage (''Couldn'' @ CHR 0x27 # ''t rename this contact.'') e)\<rparr>, w)))"

definition confirmRemove :: "env \<Rightarrow> contactList \<times> world \<Rightarrow> contactList \<times> world" where
  "confirmRemove E p =
     (case cl_removing (fst p) of None \<Rightarrow> p
      | Some target \<Rightarrow>
          (let s = (fst p)\<lparr>cl_removing := None, cl_actionError := None\<rparr> in
           case removeContact (pc_px_id target) (snd p) of
             (Inr _, w) \<Rightarrow> reloadHome E (s, w)
           | (Inl e, w) \<Rightarrow> (s\<lparr>cl_actionError := Some (errorMessage (''Couldn'' @ CHR 0x27 # ''t remove this contact.'') e)\<rparr>, w)))"

definition menuRename :: "PlainContact \<Rightarrow> contactList \<Rightarrow> contactList" where
  "menuRename c s = s\<lparr>cl_menuFor := None, cl_renameValue := pc_name c, cl_renaming := Some c\<rparr>"

definition menuRemove :: "PlainContact \<Rightarrow> contactList \<Rightarrow> contactList" where
  "menuRemove c s = s\<lparr>cl_menuFor := None, cl_removing := Some c\<rparr>"

section \<open>Requests and blocked contacts\<close>

record requestsState =
  rq_incoming :: "PlainContact list"
  rq_outgoing :: "PlainContact list"
  rq_error :: "string option"

definition reloadRequests :: "env \<Rightarrow> requestsState \<times> world \<Rightarrow> requestsState \<times> world" where
  "reloadRequests E p =
     (case listContacts E (snd p) of
        (Inr all, w) \<Rightarrow> ((fst p)\<lparr>rq_incoming := byStatus PendingInbound all, rq_outgoing := byStatus PendingOutbound all\<rparr>, w)
      | (Inl _, w) \<Rightarrow> (fst p, w))"

definition runRequest :: "unit act \<Rightarrow> string \<Rightarrow> requestsState \<times> world \<Rightarrow> requestsState \<times> world" where
  "runRequest m fallback p =
     (case m (snd p) of
        (Inr _, w) \<Rightarrow> ((fst p)\<lparr>rq_error := None\<rparr>, w)
      | (Inl e, w) \<Rightarrow> ((fst p)\<lparr>rq_error := Some (errorMessage fallback e)\<rparr>, w))"

datatype requestButton = ReqAccept | ReqDecline | ReqBlock | ReqCancel

fun pressRequest :: "env \<Rightarrow> MessageCryptoApi \<Rightarrow> requestButton \<Rightarrow> PlainContact \<Rightarrow> requestsState \<times> world \<Rightarrow> requestsState \<times> world" where
  "pressRequest E mc ReqAccept c = runRequest (acceptContactRequest E mc (pc_px_id c)) (''Couldn'' @ CHR 0x27 # ''t accept.'')"
| "pressRequest E mc ReqDecline c = runRequest (removeContact (pc_px_id c)) (''Couldn'' @ CHR 0x27 # ''t decline.'')"
| "pressRequest E mc ReqBlock c = runRequest (blockContact E (pc_px_id c)) (''Couldn'' @ CHR 0x27 # ''t block this contact.'')"
| "pressRequest E mc ReqCancel c = runRequest (removeContact (pc_px_id c)) (''Couldn'' @ CHR 0x27 # ''t cancel.'')"

record blockedState =
  bl_blocked :: "PlainContact list"
  bl_removing :: "PlainContact option"
  bl_error :: "string option"

definition reloadBlocked :: "env \<Rightarrow> blockedState \<times> world \<Rightarrow> blockedState \<times> world" where
  "reloadBlocked E p =
     (case listContacts E (snd p) of
        (Inr all, w) \<Rightarrow> ((fst p)\<lparr>bl_blocked := byStatus Blocked all\<rparr>, w)
      | (Inl _, w) \<Rightarrow> (fst p, w))"

definition doRemove :: "blockedState \<times> world \<Rightarrow> blockedState \<times> world" where
  "doRemove p =
     (case bl_removing (fst p) of None \<Rightarrow> p
      | Some target \<Rightarrow>
          (let s = (fst p)\<lparr>bl_removing := None, bl_error := None\<rparr> in
           case removeContact (pc_px_id target) (snd p) of
             (Inr _, w) \<Rightarrow> (s, w)
           | (Inl e, w) \<Rightarrow> (s\<lparr>bl_error := Some (errorMessage (''Couldn'' @ CHR 0x27 # ''t delete this chat.'') e)\<rparr>, w)))"

section \<open>Adding a contact\<close>

datatype contactTab = TabAdd | TabRequests | TabBlocked

definition contactsTab :: "string option \<Rightarrow> contactTab" where
  "contactsTab raw = (if raw = Some ''requests'' then TabRequests else if raw = Some ''blocked'' then TabBlocked else TabAdd)"

definition pendingCount :: "env \<Rightarrow> nat act" where
  "pendingCount E = await (listContacts E) (\<lambda>all. ret (length (byStatus PendingInbound all)))"

definition badgeText :: "nat \<Rightarrow> string option" where
  "badgeText n = (if n = 0 then None else Some (if 9 < n then ''9+'' else showNat n))"

record addState =
  ad_pxId :: string
  ad_busy :: bool
  ad_scanner :: bool
  ad_error :: "string option"
  ad_sent :: bool
  ad_verifying :: "string option"

definition submitContact :: "env \<Rightarrow> ContactCryptoApi \<Rightarrow> addState \<times> world \<Rightarrow> addState \<times> world" where
  "submitContact E cc p =
     (let s = (fst p)\<lparr>ad_busy := True, ad_error := None, ad_sent := False\<rparr> in
      case await (addContact E cc (trim (ad_pxId s))) (\<lambda>added. await (getContact E (fst added)) (\<lambda>c. ret (fst added, map_option pc_status c))) (snd p) of
        (Inr (u, st), w) \<Rightarrow>
          if st = Some Accepted then (s\<lparr>ad_verifying := Some u\<rparr>, w)
          else (s\<lparr>ad_pxId := [], ad_sent := True, ad_busy := False\<rparr>, w)
      | (Inl e, w) \<Rightarrow> (s\<lparr>ad_error := Some (errorMessage ''Could not add contact.'' e), ad_busy := False\<rparr>, w))"

definition scanned :: "string \<Rightarrow> addState \<Rightarrow> addState" where
  "scanned i s = s\<lparr>ad_pxId := i, ad_error := None, ad_scanner := False\<rparr>"

section \<open>The scanner\<close>

datatype scanState = ScanStarting | ScanScanning "string option" | ScanDecoding | ScanError string

text \<open>\<open>qs_ready\<close>: the library's instance exists; \<open>qs_found\<close>: the id whose delivery waits for the
  camera to be released; \<open>qs_results\<close>: what the caller was told.\<close>

record scanner =
  qs_state :: scanState
  qs_open :: bool
  qs_ready :: bool
  qs_handled :: bool
  qs_found :: "string list"
  qs_results :: "string list"

definition MAX_IMAGE_BYTES :: nat where "MAX_IMAGE_BYTES = 15 * 1024 * 1024"

definition cameraErrorMessage :: "string \<Rightarrow> string" where
  "cameraErrorMessage name =
     (if name = ''NotAllowedError'' \<or> name = ''SecurityError''
      then ''Camera permission was denied. You can still scan a photo from your device.''
      else if name = ''NotFoundError'' \<or> name = ''DevicesNotFoundError''
      then ''No camera found. Scan a photo from your device instead.''
      else ''Couldn'' @ CHR 0x27 # ''t start the camera. Scan a photo from your device instead.'')"

definition openScanner :: "scanner \<Rightarrow> scanner" where
  "openScanner s = s\<lparr>qs_open := True, qs_handled := False\<rparr>"

definition closeScanner :: "scanner \<Rightarrow> scanner" where
  "closeScanner s = s\<lparr>qs_open := False, qs_ready := False\<rparr>"

text \<open>The library is loaded, or not; then the camera starts, or fails with an error of a name.\<close>

definition scannerLoaded :: "bool \<Rightarrow> scanner \<Rightarrow> scanner" where
  "scannerLoaded ok s =
     (if \<not> qs_open s then s
      else if ok then s\<lparr>qs_ready := True, qs_state := ScanStarting\<rparr>
      else s\<lparr>qs_state := ScanError (''Couldn'' @ CHR 0x27 # ''t load the scanner. Please try again.'')\<rparr>)"

definition cameraStarted :: "string option \<Rightarrow> scanner \<Rightarrow> scanner" where
  "cameraStarted failure s =
     (case failure of Some name \<Rightarrow> s\<lparr>qs_state := ScanError (cameraErrorMessage name)\<rparr>
      | None \<Rightarrow> if qs_handled s then s else s\<lparr>qs_state := ScanScanning None\<rparr>)"

definition useCamera :: "scanner \<Rightarrow> scanner" where
  "useCamera s = (if qs_ready s then s\<lparr>qs_state := ScanStarting\<rparr> else s)"

definition succeed :: "string \<Rightarrow> scanner \<Rightarrow> scanner" where
  "succeed pxId s = (if qs_handled s then s else s\<lparr>qs_handled := True, qs_found := qs_found s @ [pxId]\<rparr>)"

text \<open>The camera is released: the caller is told, and closes the scanner.\<close>

definition released :: "scanner \<Rightarrow> scanner" where
  "released s = (case qs_found s of [] \<Rightarrow> s
     | i # rest \<Rightarrow> closeScanner (s\<lparr>qs_found := rest, qs_results := qs_results s @ [i]\<rparr>))"

definition frameDecoded :: "string \<Rightarrow> scanner \<Rightarrow> scanner" where
  "frameDecoded decoded s =
     (case parseScannedPxId (JStr decoded) of Some i \<Rightarrow> succeed i s
      | None \<Rightarrow> s\<lparr>qs_state := ScanScanning (Some (''That QR isn'' @ CHR 0x27 # ''t a Privex ID.''))\<rparr>)"

text \<open>A picked image: its MIME type, its size and what the library reads in it.\<close>

definition onPickFile :: "(string \<times> nat \<times> string option) option \<Rightarrow> scanner \<Rightarrow> scanner" where
  "onPickFile f s =
     (case f of None \<Rightarrow> s
      | Some (mime, sz, decoded) \<Rightarrow>
          if take 6 mime \<noteq> ''image/'' then s\<lparr>qs_state := ScanError (''That'' @ CHR 0x27 # ''s not an image file.'')\<rparr>
          else if MAX_IMAGE_BYTES < sz then s\<lparr>qs_state := ScanError ''That image is too large (max 15 MB).''\<rparr>
          else if \<not> qs_ready s then s
          else case Option.bind decoded (\<lambda>d. parseScannedPxId (JStr d)) of
                 Some i \<Rightarrow> succeed i (s\<lparr>qs_state := ScanDecoding\<rparr>)
               | None \<Rightarrow> s\<lparr>qs_state := ScanError ''No Privex QR found in that image.''\<rparr>)"

section \<open>The key alert\<close>

definition keyAlertRefresh :: "string option \<Rightarrow> bool act" where
  "keyAlertRefresh userId = (if orElse userId [] = [] then ret False else hasKeyAlert (the userId))"

definition keyAlertShown :: "string option \<Rightarrow> bool \<Rightarrow> bool" where
  "keyAlertShown userId shown \<longleftrightarrow> shown \<and> orElse userId [] \<noteq> []"

section \<open>Comparing safety codes\<close>

record verifyState =
  vf_id :: string
  vf_code :: "string option"
  vf_name :: string
  vf_verified :: bool
  vf_error :: "string option"
  vf_scan :: "(string \<times> string option) option"
  vf_match :: "bool option"

definition verifyInit :: verifyState where
  "verifyInit = \<lparr>vf_id = [], vf_code = None, vf_name = [], vf_verified = False, vf_error = None, vf_scan = None, vf_match = None\<rparr>"

text \<open>What the effect awaits: the code and the contact it is for.\<close>

definition loadCode :: "env \<Rightarrow> string \<Rightarrow> (string \<times> PlainContact) option act" where
  "loadCode E i =
     await (loadBundle E) (\<lambda>me.
     await (if i = [] then ret None else getContact E i) (\<lambda>contact.
     case (me, contact) of
       (Some me, Some c) \<Rightarrow>
         if pc_ik_ed25519 c = [] then ret None
         else await (liftE (safetyCode E (ed25519_pub (b_identity me)) (pc_ik_ed25519 c))) (\<lambda>txt. ret (Some (txt, c)))
     | _ \<Rightarrow> ret None))"

text \<open>The route names a contact: on mount, or later in the same component.\<close>

definition routeTo :: "string \<Rightarrow> verifyState \<Rightarrow> verifyState" where
  "routeTo i s = s\<lparr>vf_id := i\<rparr>"

definition codeLoaded :: "env \<Rightarrow> verifyState \<times> world \<Rightarrow> verifyState \<times> world" where
  "codeLoaded E p =
     (case loadCode E (vf_id (fst p)) (snd p) of
        (Inr (Some (txt, c)), w) \<Rightarrow>
          ((fst p)\<lparr>vf_code := Some txt, vf_name := (if pc_name c = [] then pc_px_id c else pc_name c), vf_verified := pc_verified c\<rparr>, w)
      | (Inr None, w) \<Rightarrow> ((fst p)\<lparr>vf_error := Some ''Contact not found.''\<rparr>, w)
      | (Inl _, w) \<Rightarrow> ((fst p)\<lparr>vf_error := Some ''Could not compute the safety code.''\<rparr>, w))"

definition markVerified :: "verifyState \<times> world \<Rightarrow> verifyState \<times> world" where
  "markVerified p =
     (case p of (s, w) \<Rightarrow>
        if vf_id s = [] \<or> orElse (vf_code s) [] = [] then p
        else case setVerified (vf_id s) (the (vf_code s)) w of
               (Inr _, w') \<Rightarrow> (s\<lparr>vf_verified := True\<rparr>, w') | (Inl _, w') \<Rightarrow> (s, w'))"

text \<open>The scanner keeps the contact and the code of the moment it was started.\<close>

definition startScan :: "bool \<Rightarrow> verifyState \<Rightarrow> verifyState" where
  "startScan camera s =
     (let s1 = s\<lparr>vf_error := None, vf_match := None, vf_scan := Some (vf_id s, vf_code s)\<rparr> in
      if camera then s1
      else s1\<lparr>vf_error := Some (''Couldn'' @ CHR 0x27 # ''t start the camera. Compare the code manually instead.''), vf_scan := None\<rparr>)"

definition stopScan :: "verifyState \<Rightarrow> verifyState" where
  "stopScan s = s\<lparr>vf_scan := None\<rparr>"

definition codeScanned :: "string \<Rightarrow> verifyState \<times> world \<Rightarrow> verifyState \<times> world" where
  "codeScanned decoded p =
     (case vf_scan (fst p) of None \<Rightarrow> p
      | Some (i, c) \<Rightarrow>
          if Some (trim decoded) = c
          then (stopScan ((fst p)\<lparr>vf_match := Some True, vf_verified := True\<rparr>),
                if i \<noteq> [] \<and> orElse c [] \<noteq> [] then snd (setVerified i (the c) (snd p)) else snd p)
          else (stopScan ((fst p)\<lparr>vf_match := Some False\<rparr>), snd p))"

section \<open>The identicon is symmetric\<close>

lemma length_identiconRows: "length (identiconRows n r) = 5 * n"
  by (induction n r rule: identiconRows.induct) (simp_all add: Let_def)

lemma identiconRows_mirror:
  "y < n \<Longrightarrow> x < 5 \<Longrightarrow> identiconRows n r ! (5 * y + x) = identiconRows n r ! (5 * y + (4 - x))"
proof (induction n r arbitrary: y rule: identiconRows.induct)
  case (2 n r)
  let ?row = "\<lambda>left. map (\<lambda>x. left ! (if x < 3 then x else 4 - x)) [0..<5]"
  show ?case
  proof (cases y)
    case 0
    have "x \<in> {0, 1, 2, 3, 4}" using 2(3) by auto
    then show ?thesis using 0 by (auto simp: Let_def nth_append numeral_eq_Suc)
  next
    case (Suc k)
    let ?rest = "identiconRows n (lcg (lcg (lcg r)))"
    obtain row where row: "identiconRows (Suc n) r = row @ ?rest" "length row = 5" by (simp add: Let_def)
    have "(row @ ?rest) ! (5 * y + j) = ?rest ! (5 * k + j)" for j using Suc row(2) by (simp add: nth_append)
    moreover have "?rest ! (5 * k + x) = ?rest ! (5 * k + (4 - x))" using 2(1) 2(2,3) Suc by simp
    ultimately show ?thesis unfolding row(1) by simp
  qed
qed simp

theorem identicon_symmetric:
  "length (identiconCells seed) = 25 \<and> identiconHue seed < 360 \<and>
   (\<forall>y < 5. \<forall>x < 5. identiconCells seed ! (5 * y + x) = identiconCells seed ! (5 * y + (4 - x)))"
proof -
  obtain r where c: "identiconCells seed = identiconRows 5 r" by (auto simp: identiconCells_def Let_def)
  have "identiconHue seed < 360" by (simp add: identiconHue_def)
  then show ?thesis unfolding c using length_identiconRows [of 5 r] identiconRows_mirror [of _ 5 _ r] by simp
qed

section \<open>Every contact has one place\<close>

lemma byStatus_parts:
  "mset (byStatus Accepted cs) + mset (byStatus PendingInbound cs) + mset (byStatus PendingOutbound cs) + mset (byStatus Blocked cs) = mset cs"
proof (induction cs)
  case (Cons c cs)
  then show ?case by (cases "pc_status c") (simp_all add: byStatus_def)
qed (simp add: byStatus_def)

definition lastActive :: "PlainContact list \<Rightarrow> MessageRow list \<Rightarrow> PlainContact \<Rightarrow> int" where
  "lastActive all rows c = orElse (latestPerSession (map pc_px_id (byStatus Accepted all)) rows (pc_px_id c)) (pc_added_at c)"

lemma homeOrder_sorted:
  "mset (homeOrder all rows) = mset (byStatus Accepted all)"
  "sorted_wrt (\<lambda>a b. lastActive all rows b \<le> lastActive all rows a) (homeOrder all rows)"
proof -
  show "mset (homeOrder all rows) = mset (byStatus Accepted all)" by (simp add: homeOrder_def Let_def)
  have "sorted (map (\<lambda>c. - lastActive all rows c) (homeOrder all rows))"
    by (simp add: homeOrder_def Let_def lastActive_def)
  then show "sorted_wrt (\<lambda>a b. lastActive all rows b \<le> lastActive all rows a) (homeOrder all rows)"
    by (simp add: sorted_wrt_map)
qed

text \<open>Every contact is shown in exactly one place. Of the contacts the core lists, each
  is on exactly one of the four lists (home, incoming and outgoing requests, blocked), the badge
  counts the incoming requests, and the home list is in the order of the last activity.\<close>

theorem contacts_shown_once:
  assumes "listContacts E w = (Inr all, w1)"
  shows "mset (cl_contacts (fst (reloadHome E (h, w)))) + mset (rq_incoming (fst (reloadRequests E (q, w)))) +
      mset (rq_outgoing (fst (reloadRequests E (q, w)))) + mset (bl_blocked (fst (reloadBlocked E (b, w)))) = mset all \<and>
    fst (pendingCount E w) = Inr (length (rq_incoming (fst (reloadRequests E (q, w))))) \<and>
    sorted_wrt (\<lambda>x y. lastActive all (toArray (messages_tbl (idb w1))) y \<le> lastActive all (toArray (messages_tbl (idb w1))) x)
      (cl_contacts (fst (reloadHome E (h, w))))"
proof -
  have "cl_contacts (fst (reloadHome E (h, w))) = homeOrder all (toArray (messages_tbl (idb w1)))"
    using assms by (simp add: reloadHome_def)
  moreover have "rq_incoming (fst (reloadRequests E (q, w))) = byStatus PendingInbound all"
    "rq_outgoing (fst (reloadRequests E (q, w))) = byStatus PendingOutbound all"
    "bl_blocked (fst (reloadBlocked E (b, w))) = byStatus Blocked all"
    "fst (pendingCount E w) = Inr (length (byStatus PendingInbound all))"
    using assms by (simp_all add: reloadRequests_def reloadBlocked_def pendingCount_def)
  ultimately show ?thesis using homeOrder_sorted [of all] byStatus_parts [of all] by simp
qed

section \<open>The scanner delivers one valid id\<close>

datatype scanEvent = ScOpen | ScClose | ScLoaded bool | ScStarted "string option" | ScUseCamera | ScFrame string
  | ScFile "(string \<times> nat \<times> string option) option" | ScReleased

fun scanStep :: "scanEvent \<Rightarrow> scanner \<Rightarrow> scanner" where
  "scanStep ScOpen s = openScanner s"
| "scanStep ScClose s = closeScanner s"
| "scanStep (ScLoaded ok) s = scannerLoaded ok s"
| "scanStep (ScStarted failure) s = cameraStarted failure s"
| "scanStep ScUseCamera s = useCamera s"
| "scanStep (ScFrame decoded) s = frameDecoded decoded s"
| "scanStep (ScFile f) s = onPickFile f s"
| "scanStep ScReleased s = released s"

definition scanInv :: "nat \<Rightarrow> scanner \<Rightarrow> bool" where
  "scanInv n s \<longleftrightarrow> length (qs_results s) + length (qs_found s) + (if qs_handled s then 0 else 1) \<le> n \<and>
     (\<forall>i \<in> set (qs_results s @ qs_found s). isValidPxId i)"

lemma scanInv_succeed: "scanInv n s \<Longrightarrow> isValidPxId i \<Longrightarrow> scanInv n (succeed i s)"
  by (auto simp: scanInv_def succeed_def split: if_splits)

lemma scanInv_step: "scanInv n s \<Longrightarrow> scanInv (if e = ScOpen then Suc n else n) (scanStep e s)"
proof (cases e)
  case (ScFrame d)
  assume inv: "scanInv n s"
  then have "scanInv n (s\<lparr>qs_state := st\<rparr>)" for st by (simp add: scanInv_def)
  then have "scanInv n (frameDecoded d s)"
    using inv by (auto simp: frameDecoded_def parseScannedPxId_valid intro: scanInv_succeed split: option.split)
  then show ?thesis using ScFrame by simp
next
  case (ScFile f)
  have valid: "Option.bind d (\<lambda>d. parseScannedPxId (JStr d)) = Some i \<Longrightarrow> isValidPxId i" for d i
    by (auto simp: parseScannedPxId_valid Option.bind_eq_Some_conv)
  assume inv: "scanInv n s"
  then have "scanInv n (s\<lparr>qs_state := st\<rparr>)" for st by (simp add: scanInv_def)
  then have "scanInv n (onPickFile f s)"
    using inv by (auto simp: onPickFile_def intro: scanInv_succeed valid split: option.split prod.split)
  then show ?thesis using ScFile by simp
next
  case ScReleased
  then show "scanInv n s \<Longrightarrow> ?thesis"
    by (cases "qs_found s") (auto simp: released_def closeScanner_def scanInv_def)
qed (auto simp: scanInv_def openScanner_def closeScanner_def scannerLoaded_def cameraStarted_def useCamera_def split: option.split if_splits)

definition scanInit :: scanner where
  "scanInit = \<lparr>qs_state = ScanStarting, qs_open = False, qs_ready = False, qs_handled = False, qs_found = [], qs_results = []\<rparr>"

lemma scanInv_run: "scanInv n s \<Longrightarrow> scanInv (n + length (filter ((=) ScOpen) es)) (fold scanStep es s)"
proof (induction es arbitrary: n s)
  case (Cons e es)
  from Cons.IH [OF scanInv_step [OF Cons.prems, of e]] show ?case by (auto simp: algebra_simps split: if_splits)
qed simp

text \<open>Whatever the camera and the picked images show, in whatever order things happen, each opening
  of the scanner hands at most one text to its caller, and that is a valid Privex id.\<close>

theorem scanner_delivers_valid_ids:
  "length (qs_results (fold scanStep (ScOpen # es) scanInit)) \<le> Suc (length (filter ((=) ScOpen) es)) \<and>
   (\<forall>i \<in> set (qs_results (fold scanStep (ScOpen # es) scanInit)). isValidPxId i)"
proof -
  have "scanInv 1 (openScanner scanInit)" by (simp add: scanInv_def scanInit_def openScanner_def)
  from scanInv_run [OF this, of es] show ?thesis by (auto simp: scanInv_def split: if_splits)
qed

section \<open>Verified means compared\<close>

datatype verifyInput = VfMark | VfStart bool | VfStop | VfScanned string

fun vfStep :: "verifyInput \<Rightarrow> verifyState \<times> world \<Rightarrow> verifyState \<times> world" where
  "vfStep VfMark p = markVerified p"
| "vfStep (VfStart camera) p = (startScan camera (fst p), snd p)"
| "vfStep VfStop p = (stopScan (fst p), snd p)"
| "vfStep (VfScanned decoded) p = codeScanned decoded p"

definition fingerprint :: "string \<Rightarrow> string \<Rightarrow> privexDB \<Rightarrow> privexDB" where
  "fingerprint i txt = contacts_tbl_update (tupdate i (\<lambda>x. x\<lparr>c_verified_fingerprint := Some txt\<rparr>))"

lemma tupdate_twice: "tupdate i f (tupdate i f t) = tupdate i (f \<circ> f) t"
  by (induction t) (auto simp: tupdate_def)

lemma fingerprint_twice: "fingerprint i txt (fingerprint i txt d) = fingerprint i txt d"
  by (simp add: fingerprint_def tupdate_twice o_def)

lemma run_setVerified: "setVerified i txt w = (Inr (), w\<lparr>idb := fingerprint i txt (idb w)\<rparr>)"
  by (simp add: setVerified_def fingerprint_def dbModify_def)


text \<open>The effect on the route does not clear the code it showed before: until the code of the new
  contact is there, and for good when that contact is not found, the button stores the code of
  the old contact for the new one.\<close>

lemma stale_code_marks_other:
  assumes "vf_code s = Some txt" "txt \<noteq> []" "j \<noteq> []"
  shows "markVerified (routeTo j s, w) = ((routeTo j s)\<lparr>vf_verified := True\<rparr>, w\<lparr>idb := fingerprint j txt (idb w)\<rparr>)"
    "fst (loadCode E j w) = Inr None \<Longrightarrow> vf_code (fst (codeLoaded E (routeTo j s, w))) = Some txt"
  using assms by (auto simp: markVerified_def routeTo_def run_setVerified codeLoaded_def split: prod.splits sum.splits option.splits)

end
