(* ===== verification/EventRuns.thy ===== *)
theory EventRuns
  imports Main
begin

text \<open>
  Runs of a component that reacts to events: one function from an event and a state to the next
  state. The locale holds what the screens share: an invariant that every event keeps holds after
  any list of events, and what holds at the end but not at the start came about at some event.
\<close>

locale event_run =
  fixes step :: "'e \<Rightarrow> 's \<Rightarrow> 's" and ok :: "'e \<Rightarrow> bool" and inv :: "'s \<Rightarrow> bool"
  assumes step_inv: "ok e \<Longrightarrow> inv s \<Longrightarrow> inv (step e s)"
begin

lemma run_inv: "list_all ok es \<Longrightarrow> inv s \<Longrightarrow> inv (fold step es s)"
  by (induction es arbitrary: s) (simp_all add: step_inv)

lemma run_cause:
  assumes "\<And>e s. ok e \<Longrightarrow> inv s \<Longrightarrow> P (step e s) \<Longrightarrow> P s \<or> cause e s"
    and "list_all ok es" "inv s" "P (fold step es s)" "\<not> P s"
  shows "\<exists>es1 e es2. es = es1 @ e # es2 \<and> inv (fold step es1 s) \<and> cause e (fold step es1 s)"
  using assms(2,4)
proof (induction es rule: rev_induct)
  case Nil
  then show ?case using assms(5) by simp
next
  case (snoc e es)
  have i: "inv (fold step es s)" using snoc.prems(1) assms(3) by (simp add: run_inv)
  show ?case
  proof (cases "P (fold step es s)")
    case True
    then obtain es1 f es2 where "es = es1 @ f # es2 \<and> inv (fold step es1 s) \<and> cause f (fold step es1 s)"
      using snoc by auto
    then show ?thesis by (metis append.assoc append_Cons)
  next
    case False
    then show ?thesis using assms(1) [of e "fold step es s"] i snoc.prems
      by (intro exI [where x = es] exI [where x = e] exI [where x = "[]"]) auto
  qed
qed

end

end
