(* ===== verification/SettingsScreen.thy ===== *)
theory SettingsScreen
  imports EventRuns HistoryBackup OnboardingScreen Session UiServices
begin

text \<open>
  The settings (\<^verbatim>\<open>screens/Settings.tsx\<close>): the tabs and, one record and a few handlers each, the
  panels on them. A call of the core is one step; dialogs of the browser (\<open>confirm\<close>, \<open>prompt\<close>)
  are arguments. The labels that stand on buttons while something runs are left out, and so are
  the texts of the guide.
\<close>

section \<open>Tabs and cover traffic\<close>

datatype settingsTab = TabAccount | TabPrivacy | TabRecovery | TabGuide | TabAbout

definition VALID_TABS :: "(string \<times> settingsTab) list" where
  "VALID_TABS = [(''account'', TabAccount), (''privacy'', TabPrivacy), (''recovery'', TabRecovery), (''guide'', TabGuide), (''about'', TabAbout)]"

text \<open>The tab of a route, and whether the route is replaced.\<close>

definition settingsRoute :: "string option \<Rightarrow> settingsTab \<times> bool" where
  "settingsRoute raw =
     (case raw of None \<Rightarrow> (TabAccount, False)
      | Some t \<Rightarrow> (case map_of VALID_TABS t of Some tab \<Rightarrow> (tab, False) | None \<Rightarrow> (TabAccount, t \<noteq> [])))"

record settingsState =
  st_cover :: string
  st_hasContacts :: bool
  st_hasSeed :: bool
  st_opaque :: "bool option"

definition settingsInit :: settingsState where
  "settingsInit = \<lparr>st_cover = ''medium'', st_hasContacts = False, st_hasSeed = False, st_opaque = None\<rparr>"

definition loadSettings :: "env \<Rightarrow> settingsState \<times> world \<Rightarrow> settingsState \<times> world" where
  "loadSettings E p =
     (case settingGet COVER_KEY (snd p) of (cv, w1) \<Rightarrow>
      case settingGet RECOVERY_CONTACTS_KEY w1 of (rc, w2) \<Rightarrow>
      case loadBundle E w2 of (b, w3) \<Rightarrow>
      case opaqueRecoveryStatus E w3 of (op, w4) \<Rightarrow>
        ((fst p)\<lparr>st_cover := (case cv of Inr (Some v) \<Rightarrow> orElse (jstr (Some v)) [] | _ \<Rightarrow> st_cover (fst p)),
                 st_hasContacts := (case rc of Inr v \<Rightarrow> v \<noteq> None | Inl _ \<Rightarrow> st_hasContacts (fst p)),
                 st_hasSeed := (case b of Inr bo \<Rightarrow> (case bo of None \<Rightarrow> False | Some b \<Rightarrow> b_mnemonic b \<noteq> []) | Inl _ \<Rightarrow> st_hasSeed (fst p)),
                 st_opaque := (case op of Inr v \<Rightarrow> Some v | Inl _ \<Rightarrow> None)\<rparr>, w4))"

definition setCoverLevel :: "string \<Rightarrow> settingsState \<times> world \<Rightarrow> settingsState \<times> world" where
  "setCoverLevel v p = ((fst p)\<lparr>st_cover := v\<rparr>, snd (settingPut COVER_KEY (JStr v) (snd p)))"

section \<open>Password recovery\<close>

record opaqueToggle =
  op_enabled :: "bool option"
  op_open :: bool
  op_pw :: string
  op_confirm :: string
  op_error :: "string option"
  op_msg :: "string option"

definition enableOpaque :: "env \<Rightarrow> RecoveryCryptoApi \<Rightarrow> opaqueToggle \<times> world \<Rightarrow> opaqueToggle \<times> world" where
  "enableOpaque E cr p =
     (let s = (fst p)\<lparr>op_error := None, op_msg := None\<rparr> in
      case enableOpaqueRecovery E cr (op_pw s) (snd p) of
        (Inr _, w) \<Rightarrow> (s\<lparr>op_pw := [], op_confirm := [], op_open := False, op_enabled := Some True, op_msg := Some ''Password recovery is on.''\<rparr>, w)
      | (Inl e, w) \<Rightarrow> (s\<lparr>op_error := Some (errorMessage ''Could not enable password recovery.'' e)\<rparr>, w))"

definition submitOpaque :: "env \<Rightarrow> RecoveryCryptoApi \<Rightarrow> (string \<Rightarrow> nat) option \<Rightarrow> opaqueToggle \<times> world \<Rightarrow> opaqueToggle \<times> world" where
  "submitOpaque E cr scorer p = (if passwordReady scorer (op_pw (fst p)) (op_confirm (fst p)) then enableOpaque E cr p else p)"

definition disableOpaque :: "env \<Rightarrow> bool \<Rightarrow> opaqueToggle \<times> world \<Rightarrow> opaqueToggle \<times> world" where
  "disableOpaque E confirmed p =
     (if \<not> confirmed then p else
      let s = (fst p)\<lparr>op_error := None, op_msg := None\<rparr> in
      case disableOpaqueRecovery E (snd p) of
        (Inr _, w) \<Rightarrow> (s\<lparr>op_enabled := Some False, op_open := False, op_msg := Some ''Password recovery is off.''\<rparr>, w)
      | (Inl e, w) \<Rightarrow> (s\<lparr>op_error := Some (errorMessage ''Could not turn off password recovery.'' e)\<rparr>, w))"

section \<open>Seed phrase\<close>

record seedView =
  sv_words :: "string list option"
  sv_error :: "string option"

text \<open>An error of the core is not handled here.\<close>

definition revealSeed :: "env \<Rightarrow> bool \<Rightarrow> seedView \<times> world \<Rightarrow> seedView \<times> world" where
  "revealSeed E confirmed p =
     (if \<not> confirmed then p else
      case loadBundle E (snd p) of
        (Inl _, w) \<Rightarrow> (fst p, w)
      | (Inr b, w) \<Rightarrow>
          (case (case b of None \<Rightarrow> [] | Some b \<Rightarrow> b_mnemonic b) of
             [] \<Rightarrow> ((fst p)\<lparr>sv_error := Some (''No seed phrase on this device (it isn'' @ CHR 0x27 # ''t recoverable after a recovery).'')\<rparr>, w)
           | m \<Rightarrow> ((fst p)\<lparr>sv_words := Some (splitSpaces (trim m))\<rparr>, w)))"

section \<open>Emergency contacts\<close>

record emergency =
  em_contacts :: "PlainContact list"
  em_picked :: "string list"
  em_open :: bool
  em_msg :: "string option"
  em_error :: "string option"

definition emInit :: emergency where
  "emInit = \<lparr>em_contacts = [], em_picked = [], em_open = False, em_msg = None, em_error = None\<rparr>"

definition eligible :: "string \<Rightarrow> PlainContact list \<Rightarrow> PlainContact list" where
  "eligible me = filter (\<lambda>x. pc_ik_x25519 x \<noteq> [] \<and> pc_status x = Accepted \<and> pc_px_id x \<noteq> me)"

text \<open>The effect of opening; the contacts are listed as the answer comes.\<close>

definition loadEligible :: "string \<Rightarrow> PlainContact list \<Rightarrow> emergency \<Rightarrow> emergency" where
  "loadEligible me all s =
     (let el = eligible me all
      in s\<lparr>em_contacts := el, em_picked := filter (\<lambda>i. i \<in> pc_px_id ` set el) (em_picked s)\<rparr>)"

definition togglePick :: "string \<Rightarrow> emergency \<Rightarrow> emergency" where
  "togglePick i s =
     s\<lparr>em_picked := (if i \<in> set (em_picked s) then removeAll i (em_picked s)
                     else if length (em_picked s) < 3 then em_picked s @ [i] else em_picked s)\<rparr>"

definition chosenContacts :: "emergency \<Rightarrow> PlainContact list" where
  "chosenContacts s = filter (\<lambda>c. pc_px_id c \<in> set (em_picked s)) (em_contacts s)"

definition setupOffered :: "emergency \<Rightarrow> bool" where
  "setupOffered s \<longleftrightarrow> 2 \<le> length (em_picked s)"

definition openEmergency :: "bool \<Rightarrow> emergency \<Rightarrow> emergency" where
  "openEmergency b s = s\<lparr>em_open := b\<rparr>"

text \<open>The flag is what the parent is told.\<close>

definition setupPicked :: "env \<Rightarrow> FileCryptoApi \<Rightarrow> emergency \<times> world \<Rightarrow> bool \<times> emergency \<times> world" where
  "setupPicked E fc p =
     (let s = (fst p)\<lparr>em_error := None\<rparr> in
      case setupEmergencyContacts E fc (chosenContacts s) (snd p) of
        (Inr n, w) \<Rightarrow> (True, s\<lparr>em_msg := Some (showInt n @ '' contacts now hold your recovery shares.''), em_open := False\<rparr>, w)
      | (Inl e, w) \<Rightarrow> (False, s\<lparr>em_error := Some (errorMessage ''Could not set up recovery contacts.'' e)\<rparr>, w))"

section \<open>Approving a recovery\<close>

text \<open>\<open>ar_pending\<close>: the codes whose confirmation number is still being computed.\<close>

record approval =
  ar_open :: bool
  ar_code :: string
  ar_sas :: "string option"
  ar_contacts :: "PlainContact list"
  ar_chosen :: string
  ar_msg :: "string option"
  ar_error :: "string option"
  ar_pending :: "string list"

definition approvalInit :: approval where
  "approvalInit = \<lparr>ar_open = False, ar_code = [], ar_sas = None, ar_contacts = [], ar_chosen = [], ar_msg = None, ar_error = None, ar_pending = []\<rparr>"

definition loadApprovers :: "string \<Rightarrow> PlainContact list \<Rightarrow> approval \<Rightarrow> approval" where
  "loadApprovers me all s =
     (let el = filter (\<lambda>x. pc_ik_x25519 x \<noteq> [] \<and> pc_px_id x \<noteq> me) all
      in s\<lparr>ar_contacts := el, ar_chosen := (if list_ex (\<lambda>x. pc_px_id x = ar_chosen s) el then ar_chosen s else [])\<rparr>)"

definition onCode :: "string \<Rightarrow> approval \<Rightarrow> approval" where
  "onCode v s = s\<lparr>ar_code := v, ar_sas := None, ar_error := None, ar_pending := ar_pending s @ [v]\<rparr>"

definition sasAnswered :: "env \<Rightarrow> string \<Rightarrow> approval \<Rightarrow> approval" where
  "sasAnswered E v s =
     (if v \<in> set (ar_pending s) then s\<lparr>ar_pending := remove1 v (ar_pending s), ar_sas := Some (recoveryCodeSas E v)\<rparr> else s)"

definition approveOffered :: "approval \<Rightarrow> bool" where
  "approveOffered s \<longleftrightarrow> ar_code s \<noteq> [] \<and> ar_chosen s \<noteq> [] \<and> orElse (ar_sas s) [] \<noteq> []"

definition approve :: "env \<Rightarrow> ContactRecoveryCryptoApi \<Rightarrow> approval \<times> world \<Rightarrow> approval \<times> world" where
  "approve E cr p =
     (let s = (fst p)\<lparr>ar_error := None, ar_msg := None\<rparr> in
      case approveRecovery E cr (ar_code s) (ar_chosen s) (snd p) of
        (Inr _, w) \<Rightarrow> (s\<lparr>ar_msg := Some ''Approved. Your contact can finish recovering once enough of you approve.'',
                         ar_code := [], ar_sas := None, ar_chosen := []\<rparr>, w)
      | (Inl e, w) \<Rightarrow> (s\<lparr>ar_error := Some (errorMessage ''Could not approve this recovery.'' e)\<rparr>, w))"

definition cancelApproval :: "approval \<Rightarrow> approval" where
  "cancelApproval s = s\<lparr>ar_open := False, ar_code := [], ar_sas := None, ar_error := None\<rparr>"

section \<open>Linked devices\<close>

record syncSettings =
  sy_enabled :: bool
  sy_devices :: "(string \<times> string \<times> int) list"

definition reloadDevices :: "syncSettings \<times> world \<Rightarrow> syncSettings \<times> world" where
  "reloadDevices p = (case listLinkedDevices (snd p) of (Inr ds, w) \<Rightarrow> ((fst p)\<lparr>sy_devices := ds\<rparr>, w) | (Inl _, w) \<Rightarrow> (fst p, w))"

definition loadSync :: "syncSettings \<times> world \<Rightarrow> syncSettings \<times> world" where
  "loadSync p = reloadDevices (case deviceSyncEnabled (snd p) of (Inr on, w) \<Rightarrow> ((fst p)\<lparr>sy_enabled := on\<rparr>, w) | (Inl _, w) \<Rightarrow> (fst p, w))"

definition toggleSync :: "bool \<Rightarrow> syncSettings \<times> world \<Rightarrow> syncSettings \<times> world" where
  "toggleSync on p = ((fst p)\<lparr>sy_enabled := on\<rparr>, snd (setDeviceSyncEnabled on (snd p)))"

definition unlinkDevice :: "bool \<Rightarrow> string \<Rightarrow> syncSettings \<times> world \<Rightarrow> syncSettings \<times> world" where
  "unlinkDevice confirmed i p = (if confirmed then reloadDevices (fst p, snd (removeLinkedDevice i (snd p))) else p)"

section \<open>Message status\<close>

record messageStatus =
  ms_delivery :: bool
  ms_read :: bool
  ms_delay :: bool

definition shownOr :: "(error + bool) \<Rightarrow> bool \<Rightarrow> bool" where
  "shownOr r old = (case r of Inr v \<Rightarrow> v | Inl _ \<Rightarrow> old)"

definition loadStatus :: "messageStatus \<times> world \<Rightarrow> messageStatus \<times> world" where
  "loadStatus p =
     (case deliveryReceiptsEnabled (snd p) of (d, w1) \<Rightarrow>
      case readReceiptsEnabled w1 of (r, w2) \<Rightarrow>
      case receiptPrivacyDelayEnabled w2 of (l, w3) \<Rightarrow>
        ((fst p)\<lparr>ms_delivery := shownOr d (ms_delivery (fst p)), ms_read := shownOr r (ms_read (fst p)), ms_delay := shownOr l (ms_delay (fst p))\<rparr>, w3))"

definition toggleDelivery :: "bool \<Rightarrow> messageStatus \<times> world \<Rightarrow> messageStatus \<times> world" where
  "toggleDelivery v p = ((fst p)\<lparr>ms_delivery := v\<rparr>, snd (setDeliveryReceipts v (snd p)))"

definition toggleRead :: "bool \<Rightarrow> messageStatus \<times> world \<Rightarrow> messageStatus \<times> world" where
  "toggleRead v p = ((fst p)\<lparr>ms_read := v\<rparr>, snd (setReadReceipts v (snd p)))"

definition toggleDelay :: "bool \<Rightarrow> messageStatus \<times> world \<Rightarrow> messageStatus \<times> world" where
  "toggleDelay v p = ((fst p)\<lparr>ms_delay := v\<rparr>, snd (setReceiptPrivacyDelay v (snd p)))"

text \<open>What the switches show is what is stored: loading after a switch shows the switch.\<close>

lemma loadStatus_toggles:
  "loadStatus (toggleDelivery v p) = toggleDelivery v (loadStatus p)"
  "loadStatus (toggleRead v p) = toggleRead v (loadStatus p)"
  "loadStatus (toggleDelay v p) = toggleDelay v (loadStatus p)"
  by (simp_all add: loadStatus_def toggleDelivery_def toggleRead_def toggleDelay_def shownOr_def flagOn_def tget_tput
      setDeliveryReceipts_def setReadReceipts_def setReceiptPrivacyDelay_def DELIVERY_KEY_def READ_KEY_def DELAY_KEY_def)

section \<open>History backup\<close>

record backupPanel =
  bk_enabled :: bool
  bk_status :: "(int \<times> int) option"
  bk_error :: "string option"
  bk_reloaded :: bool

definition refreshBackup :: "env \<Rightarrow> backupPanel \<times> world \<Rightarrow> backupPanel \<times> world" where
  "refreshBackup E p =
     (case isBackupEnabled (snd p) of (en, w1) \<Rightarrow>
      case backupStatus E w1 of (stat, w2) \<Rightarrow>
        ((fst p)\<lparr>bk_enabled := shownOr en (bk_enabled (fst p)), bk_status := (case stat of Inr v \<Rightarrow> Some v | Inl _ \<Rightarrow> None)\<rparr>, w2))"

definition toggleBackup :: "env \<Rightarrow> bool \<Rightarrow> backupPanel \<times> world \<Rightarrow> backupPanel \<times> world" where
  "toggleBackup E confirmed p =
     (let s = (fst p)\<lparr>bk_error := None\<rparr> in
      if \<not> confirmed then (s, snd p)
      else case (if bk_enabled s then disableBackup E else enableBackup E) (snd p) of
             (Inr _, w) \<Rightarrow> refreshBackup E (s, w)
           | (Inl e, w) \<Rightarrow> (s\<lparr>bk_error := Some (errorMessage ''Failed.'' e)\<rparr>, w))"

text \<open>A restore that does not end within the fuel leaves the panel busy.\<close>

definition backUpNow :: "env \<Rightarrow> backupPanel \<times> world \<Rightarrow> backupPanel \<times> world" where
  "backUpNow E p =
     (let s = (fst p)\<lparr>bk_error := None\<rparr> in
      case backfillAll E (snd p) of
        (Inr _, w) \<Rightarrow> refreshBackup E (s, w)
      | (Inl e, w) \<Rightarrow> (s\<lparr>bk_error := Some (errorMessage ''Failed.'' e)\<rparr>, w))"

definition restoreHere :: "nat \<Rightarrow> env \<Rightarrow> backupPanel \<times> world \<Rightarrow> backupPanel \<times> world" where
  "restoreHere fuel E p =
     (let s = (fst p)\<lparr>bk_error := None\<rparr> in
      case restoreHistory fuel E (snd p) of
        (Inr (Some _), w) \<Rightarrow> (s\<lparr>bk_reloaded := True\<rparr>, w)
      | (Inr None, w) \<Rightarrow> (s, w)
      | (Inl e, w) \<Rightarrow> (s\<lparr>bk_error := Some (errorMessage ''Failed.'' e)\<rparr>, w))"

section \<open>App lock\<close>

record lockPanel =
  lp_status :: "LockStatus option"
  lp_pass :: string
  lp_setting :: bool
  lp_error :: "string option"
  lp_msg :: "string option"
  lp_reloaded :: bool

definition refreshLock :: "webauthnApi \<Rightarrow> lockPanel \<times> world \<Rightarrow> lockPanel \<times> world" where
  "refreshLock wa p = (case lockStatus wa (snd p) of (Inr st, w) \<Rightarrow> ((fst p)\<lparr>lp_status := Some st\<rparr>, w) | (Inl _, w) \<Rightarrow> (fst p, w))"

definition runLock :: "webauthnApi \<Rightarrow> unit act \<Rightarrow> (lockPanel \<Rightarrow> lockPanel) \<Rightarrow> lockPanel \<times> world \<Rightarrow> lockPanel \<times> world" where
  "runLock wa m after p =
     (let s = (fst p)\<lparr>lp_error := None, lp_msg := None\<rparr> in
      case m (snd p) of
        (Inr _, w) \<Rightarrow> refreshLock wa (after s, w)
      | (Inl e, w) \<Rightarrow> (s\<lparr>lp_error := Some (errorMessage ''Failed.'' e)\<rparr>, w))"

datatype lockButton = LockEnable | LockDisable | LockAddBiometric | LockRemoveBiometric | LockNow

text \<open>What the panel offers; \<open>lp_setting\<close> shows the passphrase field.\<close>

definition lockOffered :: "lockButton \<Rightarrow> lockPanel \<Rightarrow> bool" where
  "lockOffered b s =
     (case lp_status s of None \<Rightarrow> False
      | Some st \<Rightarrow> (case b of
            LockEnable \<Rightarrow> \<not> lk_enabled st \<and> lp_setting s \<and> MIN_PASSPHRASE \<le> length (lp_pass s)
          | LockDisable \<Rightarrow> lk_enabled st
          | LockAddBiometric \<Rightarrow> lk_enabled st \<and> lk_biometricAvailable st \<and> \<not> lk_biometric st
          | LockRemoveBiometric \<Rightarrow> lk_enabled st \<and> lk_biometric st
          | LockNow \<Rightarrow> lk_enabled st))"

fun lockAction :: "env \<Rightarrow> AppLockKdf \<Rightarrow> webauthnApi \<Rightarrow> string \<Rightarrow> lockButton \<Rightarrow> lockPanel \<times> world \<Rightarrow> lockPanel \<times> world" where
  "lockAction E kdf wa pxId LockEnable p =
     runLock wa (enableWithPassphrase E kdf (lp_pass (fst p)))
       (\<lambda>s. s\<lparr>lp_pass := [], lp_setting := False, lp_msg := Some ''App lock on. Your data is encrypted behind your passphrase.''\<rparr>) p"
| "lockAction E kdf wa pxId LockDisable p = runLock wa disableLock id p"
| "lockAction E kdf wa pxId LockAddBiometric p =
     runLock wa (addBiometric E wa pxId) (\<lambda>s. s\<lparr>lp_msg := Some ''Biometric unlock added.''\<rparr>) p"
| "lockAction E kdf wa pxId LockRemoveBiometric p = runLock wa removeBiometric id p"
| "lockAction E kdf wa pxId LockNow p = ((fst p)\<lparr>lp_reloaded := True\<rparr>, snd (lock (snd p)))"

definition pressLock :: "env \<Rightarrow> AppLockKdf \<Rightarrow> webauthnApi \<Rightarrow> string \<Rightarrow> lockButton \<Rightarrow> lockPanel \<times> world \<Rightarrow> lockPanel \<times> world" where
  "pressLock E kdf wa pxId b p = (if lockOffered b (fst p) then lockAction E kdf wa pxId b p else p)"

section \<open>Erasing the device\<close>

text \<open>The first component tells whether the page is loaded anew.\<close>

definition eraseDevice :: "bool \<Rightarrow> string option \<Rightarrow> shell \<Rightarrow> bool \<times> shell" where
  "eraseDevice confirmed answer s =
     (if confirmed \<and> answer = Some ''ERASE'' then (True, eraseThisDevice s) else (False, s))"

section \<open>The chosen contacts are the ones that can help\<close>

text \<open>What the panel can be made to do before the setup is pressed. A list of contacts answers an
  opening; a box stands beside each listed contact.\<close>

datatype emEvent = EmOpen bool | EmListed "PlainContact list" | EmToggle nat

fun emStep :: "string \<Rightarrow> emEvent \<Rightarrow> emergency \<Rightarrow> emergency" where
  "emStep me (EmOpen b) s = openEmergency b s"
| "emStep me (EmListed all) s = loadEligible me all s"
| "emStep me (EmToggle n) s =
     (if em_open s \<and> n < length (em_contacts s) then togglePick (pc_px_id (em_contacts s ! n)) s else s)"

definition emInv :: "string \<Rightarrow> emergency \<Rightarrow> bool" where
  "emInv me s \<longleftrightarrow> distinct (em_picked s) \<and> length (em_picked s) \<le> 3 \<and> set (em_picked s) \<subseteq> pc_px_id ` set (em_contacts s) \<and>
     distinct (map pc_px_id (em_contacts s)) \<and>
     (\<forall>c \<in> set (em_contacts s). pc_ik_x25519 c \<noteq> [] \<and> pc_status c = Accepted \<and> pc_px_id c \<noteq> me)"

lemma emInv_listed: "emInv me s \<Longrightarrow> distinct (map pc_px_id all) \<Longrightarrow> emInv me (loadEligible me all s)"
  by (auto simp: emInv_def loadEligible_def eligible_def distinct_map_filter Let_def intro: order_trans [OF length_filter_le])

lemma emInv_toggle: "emInv me s \<Longrightarrow> i \<in> pc_px_id ` set (em_contacts s) \<Longrightarrow> emInv me (togglePick i s)"
  by (auto simp: emInv_def togglePick_def distinct_removeAll intro: order_trans [OF length_removeAll_less_eq])

lemma emInv_open: "emInv me s \<Longrightarrow> emInv me (openEmergency b s)"
  by (simp add: emInv_def openEmergency_def)

definition listsOnce :: "emEvent \<Rightarrow> bool" where
  "listsOnce e = (case e of EmListed all \<Rightarrow> distinct (map pc_px_id all) | _ \<Rightarrow> True)"

interpretation em: event_run "emStep me" listsOnce "emInv me"
proof unfold_locales
  fix e s assume "listsOnce e" "emInv me s"
  then show "emInv me (emStep me e s)"
    by (cases e) (simp_all add: listsOnce_def emInv_open emInv_listed emInv_toggle)
qed

lemma chosen_picked:
  assumes "emInv me s"
  shows "pc_px_id ` set (chosenContacts s) = set (em_picked s)" "length (chosenContacts s) = length (em_picked s)"
proof -
  show im: "pc_px_id ` set (chosenContacts s) = set (em_picked s)" using assms by (auto simp: emInv_def chosenContacts_def)
  have "distinct (map pc_px_id (chosenContacts s))" using assms by (simp add: emInv_def chosenContacts_def distinct_map_filter)
  then have "length (chosenContacts s) = card (pc_px_id ` set (chosenContacts s))" by (metis distinct_card length_map list.set_map)
  then show "length (chosenContacts s) = length (em_picked s)" using assms im by (simp add: emInv_def distinct_card)
qed

text \<open>A computation whose failure leaves the database alone.\<close>

definition failsClean :: "'a act \<Rightarrow> bool" where
  "failsClean m \<longleftrightarrow> (\<forall>w e w'. m w = (Inl e, w') \<longrightarrow> idb w' = idb w)"

lemma failsClean_keeps: "keeps dbSame m \<Longrightarrow> failsClean m"
  by (auto simp: failsClean_def keeps_def dbSame_def) (metis snd_conv)

lemma failsClean_await: "keeps dbSame m \<Longrightarrow> (\<And>x. failsClean (k x)) \<Longrightarrow> failsClean (await m k)"
  unfolding failsClean_def await_def keeps_def dbSame_def
  by (auto split: prod.splits sum.splits) (metis snd_conv)+

lemma failsClean_andThen: "keeps dbSame m \<Longrightarrow> failsClean k \<Longrightarrow> failsClean (andThen m k)"
  unfolding andThen_def by (rule failsClean_await)

lemma failsClean_basic:
  "failsClean (throw e)" "failsClean (settingPut k v)" "failsClean (andThen (settingPut k v) (ret x))"
  by (simp_all add: failsClean_def)

lemma keeps_ds_sealShares: "keeps dbSame (sealShares fc i cs shares)"
proof (induction fc i cs shares rule: sealShares.induct)
  case (3 fc i c cs s shares)
  show ?case unfolding sealShares.simps by (intro ds.keeps_rules keeps_ds_quiet [OF keeps_ext] 3)
qed (simp_all add: keeps_def dbSame_def)

lemma keeps_ds_storeShares: "keeps dbSame (storeShares E wire t)"
  unfolding storeShares_def by (intro ds.keeps_rules keeps_ds_api)

lemma setup_fails_clean: "failsClean (setupEmergencyContacts E fc cs)"
  unfolding setupEmergencyContacts_def
  by (auto intro!: failsClean_await failsClean_basic keeps_ds_quiet [OF keeps_loadBundle] ds.keeps_gets
      keeps_ds_quiet [OF keeps_ext] keeps_ds_sealShares keeps_ds_storeShares split: option.split)

lemma setup_stores:
  assumes "setupEmergencyContacts E fc cs w = (Inr n, w')"
  shows "fst (settingGet RECOVERY_CONTACTS_KEY w') = Inr (Some (JArr (map (\<lambda>c. JStr (pc_px_id c)) cs)))"
  using assms by (auto simp: setupEmergencyContacts_def tget_tput split: if_splits option.splits elim!: await_Inr_cases)

text \<open>C31. Protecting an account stores the choice that the panel shows. Whatever was opened, listed and
  ticked, the button is offered only for two or three different contacts, each one accepted, with a
  key, and not the user; all of them take part. When the setup succeeds the device records exactly
  them; when it fails, the panel says so and the record is as before.\<close>

theorem emergency_setup_is_the_choice:
  assumes "list_all listsOnce es"
    "setupOffered (fold (emStep me) es emInit)" "setupPicked E fc (fold (emStep me) es emInit, w) = (ok, s, w')"
  shows "\<exists>cs :: PlainContact list. distinct (map pc_px_id cs) \<and> length cs \<in> {2, 3} \<and> pc_px_id ` set cs = set (em_picked s) \<and>
    (\<forall>c \<in> set cs. pc_status c = Accepted \<and> pc_ik_x25519 c \<noteq> [] \<and> pc_px_id c \<noteq> me) \<and>
    (if ok then fst (settingGet RECOVERY_CONTACTS_KEY w') = Inr (Some (JArr (map (\<lambda>c. JStr (pc_px_id c)) cs)))
     else em_error s \<noteq> None \<and> idb w' = idb w)"
proof -
  let ?s = "fold (emStep me) es emInit"
  have "emInv me emInit" by (simp add: emInv_def emInit_def)
  then have inv: "emInv me ?s" by (rule em.run_inv [OF assms(1)])
  note ch = chosen_picked [OF inv]
  obtain r where r: "setupEmergencyContacts E fc (chosenContacts ?s) w = (r, w')" "ok = (\<not> isl r)" "em_picked s = em_picked ?s"
    "isl r \<Longrightarrow> em_error s \<noteq> None"
    using assms(3) by (auto simp: setupPicked_def Let_def chosenContacts_def split: prod.splits sum.splits)
  have "distinct (map pc_px_id (chosenContacts ?s))" using inv by (simp add: emInv_def chosenContacts_def distinct_map_filter)
  moreover have "length (chosenContacts ?s) \<in> {2, 3}"
    using inv assms(2) ch(2) by (auto simp: emInv_def setupOffered_def)
  moreover have "\<forall>c \<in> set (chosenContacts ?s). pc_status c = Accepted \<and> pc_ik_x25519 c \<noteq> [] \<and> pc_px_id c \<noteq> me"
    using inv by (auto simp: emInv_def chosenContacts_def)
  moreover have "if ok then fst (settingGet RECOVERY_CONTACTS_KEY w') = Inr (Some (JArr (map (\<lambda>c. JStr (pc_px_id c)) (chosenContacts ?s))))
      else em_error s \<noteq> None \<and> idb w' = idb w"
  proof (cases r)
    case (Inl e)
    then show ?thesis using r setup_fails_clean [of E fc "chosenContacts ?s"] by (simp add: failsClean_def)
  next
    case (Inr n)
    then show ?thesis using r setup_stores [of E fc "chosenContacts ?s" w n w'] by (simp del: run_settingGet)
  qed
  ultimately show ?thesis using ch(1) r(3) by auto
qed

section \<open>A backup that could not be started stays on\<close>

text \<open>When turning the backup on fails half way the panel keeps showing it off, but the flag is
  set: from then on every message is backed up.\<close>

lemma keeps_ds_historyKey: "keeps dbSame (historyKey E)"
  by (rule keepsI) (metis historyKey_run(2) dbSame_def prod.collapse)

lemma keeps_ds_backfill: "keeps dbSame (backfillAll E)"
proof -
  have flush: "keeps dbSame (flushBatch E tok b)" for tok b
    unfolding flushBatch_def uploadHistory_def by (intro ds.keeps_rules keeps_ds_api)
  have blob: "keeps dbSame (toBlob E ks rec)" for ks rec
    unfolding toBlob_def encryptRecord_def by (intro ds.keeps_rules keeps_ds_quiet keeps_intro)
  show ?thesis
    unfolding backfillAll_def uploadBatched_def uploadLoop_batches token_def
    by (intro ds.keeps_rules keeps_ds_historyKey keeps_ds_quiet [OF keeps_collect] blob flush)
qed

theorem failed_enable_stays_on:
  assumes "\<not> bk_enabled s" "toggleBackup E True (s, w) = (s', w')" "bk_error s' \<noteq> None"
  shows "\<not> bk_enabled s' \<and> fst (isBackupEnabled w') = Inr True"
proof -
  have clean: "failsClean (andThen (backfillAll E) (settingPut IDS_V2_FLAG (JBool True)))"
    by (rule failsClean_andThen [OF keeps_ds_backfill failsClean_basic(2)])
  obtain r v where e: "enableBackup E w = (r, v)" by fastforce
  show ?thesis
  proof (cases r)
    case (Inr x)
    then show ?thesis using assms e by (auto simp: toggleBackup_def refreshBackup_def Let_def split: prod.splits)
  next
    case (Inl err)
    then have "idb v = (idb w)\<lparr>settings_tbl := tput FLAG \<lparr>st_key = FLAG, st_value = JBool True\<rparr> (settings_tbl (idb w))\<rparr>"
      using e clean by (auto simp: enableBackup_def failsClean_def)
    then show ?thesis using assms e Inl by (auto simp: toggleBackup_def isBackupEnabled_def tget_tput Let_def)
  qed
qed

section \<open>The number shown for a recovery code\<close>

text \<open>Pasting the owner's code, once its number has been computed, shows the owner's number.\<close>

lemma owner_number_shown:
  assumes "startContactRecovery E cr w = (Inr rs, w')"
  shows "ar_sas (sasAnswered E (rc_code rs) (onCode (rc_code rs) s)) = Some (rc_sas rs)"
  using assms by (auto simp: startContactRecovery_def sasAnswered_def onCode_def recoveryCodeSas_def Let_def
      split: if_splits elim!: await_Inr_cases)

text \<open>Nothing ties an answer to the code it was asked for: an answer that comes after the one to a
  later code leaves that later code to be approved beside the number of the earlier one.\<close>

lemma late_answer_shows_other_number:
  "ar_code (sasAnswered E a (sasAnswered E b (onCode b (onCode a s)))) = b \<and>
   ar_sas (sasAnswered E a (sasAnswered E b (onCode b (onCode a s)))) = Some (recoveryCodeSas E a)"
  by (cases "a = b") (auto simp: sasAnswered_def onCode_def)

end
