(* ===== verification/TransferScreen.thy ===== *)
theory TransferScreen
  imports EventRuns DeviceLink UiServices
begin

text \<open>
  The transfer of the history as the user meets it: the relay's transport and the two entry points
  of \<^verbatim>\<open>services/devicelink.ts\<close>, and the screen (\<^verbatim>\<open>screens/DeviceTransfer.tsx\<close>). The
  screen can hold several transfers, as a second one can be connected while a first one waits; the
  callbacks of each write the same state. Connecting is two steps, the press and the answer; the
  words of the status line, the progress bar and the drawn QR code are left out.
\<close>

section \<open>The transport\<close>

text \<open>Where the page runs: the API base of the build, \<open>None\<close> when it is not set, and the protocol and
  the host of the page. The app's own socket (\<^verbatim>\<open>services/websocket.ts\<close>) forms its address the
  same way.\<close>

record place =
  pl_base :: "string option"
  pl_protocol :: string
  pl_host :: string

definition stripSlashes :: "string \<Rightarrow> string" where
  "stripSlashes s = rev (dropWhile (\<lambda>c. c = CHR ''/'') (rev s))"

definition absoluteBase :: "string \<Rightarrow> bool" where
  "absoluteBase b \<longleftrightarrow> take 7 b = ''http://'' \<or> take 8 b = ''https://''"

definition devlinkUrl :: "place \<Rightarrow> string \<Rightarrow> string" where
  "devlinkUrl pl rid =
     (let base = orElse (pl_base pl) [] in
      if absoluteBase base then stripSlashes (''ws'' @ drop 4 base) @ ''/v1/devlink/'' @ rid
      else (if pl_protocol pl = ''https:'' then ''wss'' else ''ws'') @ ''://'' @ pl_host pl @ ''/v1/devlink/'' @ rid)"

definition wsUrl :: "place \<Rightarrow> string" where
  "wsUrl pl =
     (let base = orElse (pl_base pl) [] in
      if absoluteBase base then stripSlashes (''ws'' @ drop 4 base) @ ''/v1/ws''
      else (if pl_protocol pl = ''https:'' then ''wss'' else ''ws'') @ ''://'' @ pl_host pl @ ''/v1/ws'')"

datatype relayState = Connecting | Open | Closed

record transport =
  tp_url :: string
  tp_ticket :: string
  tp_state :: relayState
  tp_queue :: "string list"
  tp_wire :: "string list"

definition transportInit :: "string \<Rightarrow> string \<Rightarrow> transport" where
  "transportInit url ticket = \<lparr>tp_url = url, tp_ticket = ticket, tp_state = Connecting, tp_queue = [], tp_wire = []\<rparr>"

definition tpSend :: "string \<Rightarrow> transport \<Rightarrow> transport" where
  "tpSend f t =
     (if tp_state t = Open then t\<lparr>tp_wire := tp_wire t @ [f]\<rparr>
      else if tp_state t = Connecting then t\<lparr>tp_queue := tp_queue t @ [f]\<rparr> else t)"

definition tpOpened :: "transport \<Rightarrow> transport" where
  "tpOpened t = (if tp_state t = Connecting then t\<lparr>tp_state := Open, tp_wire := tp_wire t @ tp_queue t, tp_queue := []\<rparr> else t)"

definition tpClose :: "transport \<Rightarrow> transport" where
  "tpClose t = t\<lparr>tp_state := Closed\<rparr>"

definition openTransport :: "env \<Rightarrow> place \<Rightarrow> string \<Rightarrow> transport act" where
  "openTransport E pl rid =
     await (gets (\<lambda>w. au_sessionToken (auth w))) (\<lambda>tk.
     if orElse tk [] = [] then throw (JsError ''not authenticated'') else
     await (wsTicket E (the tk)) (\<lambda>(ticket, _).
     ret (transportInit (devlinkUrl pl rid) ticket)))"

definition randomRid :: "env \<Rightarrow> string act" where
  "randomRid E = await (getRandomValues E 16) (\<lambda>bs. ret (toHex bs))"

text \<open>A side that has been set going on a transport; the exporter shows its token.\<close>

definition startExport :: "env \<Rightarrow> place \<Rightarrow> DevlinkCryptoApi \<Rightarrow> (side \<times> QrPayload option) act" where
  "startExport E pl dc =
     await (randomRid E) (\<lambda>rid.
     await (openTransport E pl rid) (\<lambda>t. \<lambda>w.
       (case exStart E dc (sideInit, w) of (_, (s, w')) \<Rightarrow>
          (Inr (s, map_option (\<lambda>eph. \<lparr>qr_rid = rid, qr_pk = toHex (kp_pub eph)\<rparr>) (sd_eph s)), w'))))"

definition startImport :: "env \<Rightarrow> place \<Rightarrow> DevlinkCryptoApi \<Rightarrow> QrPayload \<Rightarrow> side act" where
  "startImport E pl dc qr =
     await (openTransport E pl (qr_rid qr)) (\<lambda>t. \<lambda>w.
       (case imStart E dc qr (sideInit, w) of (_, (s, w')) \<Rightarrow> (Inr s, w')))"

section \<open>The screen\<close>

datatype trMode = TmChoose | TmSend | TmReceive
datatype trStart = StExport | StImport QrPayload

text \<open>\<open>dt_pending\<close>: connections whose answer is awaited; \<open>dt_runs\<close>: the transfers that were started,
  with whether they export; \<open>dt_handle\<close>: the one the screen holds.\<close>

record transferUi =
  dt_mode :: trMode
  dt_code :: "string option"
  dt_copied :: bool
  dt_sas :: "string option"
  dt_confirmed :: bool
  dt_finished :: "nat option"
  dt_error :: "string option"
  dt_scanning :: bool
  dt_camera :: bool
  dt_pending :: "trStart list"
  dt_runs :: "(bool \<times> side) list"
  dt_handle :: "nat option"

definition transferInit :: transferUi where
  "transferInit = \<lparr>dt_mode = TmChoose, dt_code = None, dt_copied = False, dt_sas = None, dt_confirmed = False,
     dt_finished = None, dt_error = None, dt_scanning = False, dt_camera = False, dt_pending = [], dt_runs = [], dt_handle = None\<rparr>"

text \<open>What the callbacks of a transfer write when it goes from one state to another. A cancelled
  transfer reports nothing.\<close>

definition callbacks :: "side \<Rightarrow> side \<Rightarrow> transferUi \<Rightarrow> transferUi" where
  "callbacks old new s =
     s\<lparr>dt_sas := (if sd_sas new \<noteq> sd_sas old then sd_sas new else dt_sas s),
       dt_error := (if sd_done new = sd_done old then dt_error s else
          case sd_done new of Some (Inl (JsError m)) \<Rightarrow> if m = ''cancelled'' then dt_error s else Some m | _ \<Rightarrow> dt_error s),
       dt_finished := (if sd_done new = sd_done old then dt_finished s else
          case sd_done new of Some (Inr n) \<Rightarrow> Some n | _ \<Rightarrow> dt_finished s)\<rparr>"

definition onRun :: "nat \<Rightarrow> (bool \<Rightarrow> unit linkProg) \<Rightarrow> transferUi \<times> world \<Rightarrow> transferUi \<times> world" where
  "onRun i m p =
     (case p of (s, w) \<Rightarrow>
        if i < length (dt_runs s)
        then (case dt_runs s ! i of (ex, old) \<Rightarrow>
              case m ex (old, w) of (_, (new, w')) \<Rightarrow> (callbacks old new (s\<lparr>dt_runs := (dt_runs s)[i := (ex, new)]\<rparr>), w'))
        else p)"

definition beginSend :: "transferUi \<Rightarrow> transferUi" where
  "beginSend s = s\<lparr>dt_mode := TmSend, dt_error := None, dt_pending := dt_pending s @ [StExport]\<rparr>"

definition beginReceive :: "string \<Rightarrow> transferUi \<Rightarrow> transferUi" where
  "beginReceive payload s =
     (case parseTransferToken payload of
        None \<Rightarrow> s\<lparr>dt_error := Some (''That isn'' @ CHR 0x27 # ''t a valid Privex transfer code.'')\<rparr>
      | Some qr \<Rightarrow> s\<lparr>dt_error := None, dt_pending := dt_pending s @ [StImport qr]\<rparr>)"

text \<open>The screen takes a started transfer in hand (\<open>watchDone\<close>).\<close>

definition watchDone :: "bool \<Rightarrow> side \<Rightarrow> transferUi \<Rightarrow> transferUi" where
  "watchDone ex new s =
     callbacks sideInit new (s\<lparr>dt_runs := dt_runs s @ [(ex, new)], dt_handle := Some (length (dt_runs s))\<rparr>)"

definition relayAnswered :: "env \<Rightarrow> place \<Rightarrow> DevlinkCryptoApi \<Rightarrow> transferUi \<times> world \<Rightarrow> transferUi \<times> world" where
  "relayAnswered E pl dc p =
     (case p of (s, w) \<Rightarrow>
        case dt_pending s of
          [] \<Rightarrow> p
        | StExport # rest \<Rightarrow>
            (let s0 = s\<lparr>dt_pending := rest\<rparr> in
             case startExport E pl dc w of
               (Inr (sd, qr), w') \<Rightarrow> (watchDone True sd (s0\<lparr>dt_code := (case qr of None \<Rightarrow> dt_code s | Some q \<Rightarrow> Some (encodeTransferToken q))\<rparr>), w')
             | (Inl _, w') \<Rightarrow> (s0\<lparr>dt_error := Some (''Couldn'' @ CHR 0x27 # ''t start the transfer. Check your connection and try again.'')\<rparr>, w'))
        | StImport qr # rest \<Rightarrow>
            (let s0 = s\<lparr>dt_pending := rest\<rparr> in
             case startImport E pl dc qr w of
               (Inr sd, w') \<Rightarrow> (watchDone False sd s0, w')
             | (Inl _, w') \<Rightarrow> (s0\<lparr>dt_error := Some (''Couldn'' @ CHR 0x27 # ''t connect to the other device.'')\<rparr>, w')))"

definition copyCode :: "bool \<Rightarrow> transferUi \<Rightarrow> transferUi" where
  "copyCode ok s =
     (if orElse (dt_code s) [] = [] then s
      else if ok then s\<lparr>dt_copied := True\<rparr>
      else s\<lparr>dt_error := Some (''Couldn'' @ CHR 0x27 # ''t copy - select the code and copy it manually.'')\<rparr>)"

definition copiedTimeout :: "transferUi \<Rightarrow> transferUi" where
  "copiedTimeout s = s\<lparr>dt_copied := False\<rparr>"

definition stopTrScan :: "transferUi \<Rightarrow> transferUi" where
  "stopTrScan s = s\<lparr>dt_camera := False, dt_scanning := False\<rparr>"

definition startTrScan :: "bool \<Rightarrow> transferUi \<Rightarrow> transferUi" where
  "startTrScan camera s =
     (let s1 = s\<lparr>dt_error := None, dt_scanning := True, dt_camera := True\<rparr> in
      if camera then s1
      else stopTrScan (s1\<lparr>dt_error := Some (''Couldn'' @ CHR 0x27 # ''t start the camera. Paste the code instead.'')\<rparr>))"

definition codeRead :: "string \<Rightarrow> transferUi \<Rightarrow> transferUi" where
  "codeRead decoded s = beginReceive decoded (stopTrScan s)"

definition confirmOffered :: "transferUi \<Rightarrow> bool" where
  "confirmOffered s \<longleftrightarrow> orElse (dt_sas s) [] \<noteq> [] \<and> dt_finished s = None \<and> \<not> dt_confirmed s"

definition pressConfirm :: "env \<Rightarrow> transferUi \<times> world \<Rightarrow> transferUi \<times> world" where
  "pressConfirm E p =
     (if \<not> confirmOffered (fst p) then p
      else case (case dt_handle (fst p) of None \<Rightarrow> p | Some i \<Rightarrow> onRun i (\<lambda>ex. if ex then exConfirm E else imConfirm E) p) of
             (s, w) \<Rightarrow> (s\<lparr>dt_confirmed := True\<rparr>, w))"

definition leaveTransfer :: "transferUi \<times> world \<Rightarrow> transferUi \<times> world" where
  "leaveTransfer p =
     (case (case dt_handle (fst p) of None \<Rightarrow> p | Some i \<Rightarrow> onRun i (\<lambda>_. cancel) p) of (s, w) \<Rightarrow> (s\<lparr>dt_camera := False\<rparr>, w))"

datatype trEvent = TrSend | TrReceive | TrConnect string | TrScan bool | TrStopScan | TrCodeRead string | TrConnected
  | TrCopy bool | TrCopyTimeout | TrFrame nat string | TrStream nat | TrLost nat | TrConfirm | TrLeave

fun trStep :: "env \<Rightarrow> place \<Rightarrow> DevlinkCryptoApi \<Rightarrow> trEvent \<Rightarrow> transferUi \<times> world \<Rightarrow> transferUi \<times> world" where
  "trStep E pl dc TrSend p = (if dt_mode (fst p) = TmChoose then (beginSend (fst p), snd p) else p)"
| "trStep E pl dc TrReceive p = (if dt_mode (fst p) = TmChoose then ((fst p)\<lparr>dt_mode := TmReceive\<rparr>, snd p) else p)"
| "trStep E pl dc (TrConnect pasted) p =
     (if dt_mode (fst p) = TmReceive \<and> orElse (dt_sas (fst p)) [] = [] \<and> trim pasted \<noteq> [] then (beginReceive pasted (fst p), snd p) else p)"
| "trStep E pl dc (TrScan camera) p =
     (if dt_mode (fst p) = TmReceive \<and> orElse (dt_sas (fst p)) [] = [] \<and> \<not> dt_scanning (fst p) then (startTrScan camera (fst p), snd p) else p)"
| "trStep E pl dc TrStopScan p = (if dt_scanning (fst p) then (stopTrScan (fst p), snd p) else p)"
| "trStep E pl dc (TrCodeRead decoded) p = (if dt_camera (fst p) then (codeRead decoded (fst p), snd p) else p)"
| "trStep E pl dc TrConnected p = relayAnswered E pl dc p"
| "trStep E pl dc (TrCopy ok) p = (copyCode ok (fst p), snd p)"
| "trStep E pl dc TrCopyTimeout p = (copiedTimeout (fst p), snd p)"
| "trStep E pl dc (TrFrame i f) p = onRun i (\<lambda>ex. if ex then exFrame E dc f else imFrame E f) p"
| "trStep E pl dc (TrStream i) p = onRun i (\<lambda>ex. if ex then exStream E else ret ()) p"
| "trStep E pl dc (TrLost i) p = onRun i (\<lambda>_. disconnected) p"
| "trStep E pl dc TrConfirm p = pressConfirm E p"
| "trStep E pl dc TrLeave p = leaveTransfer p"

section \<open>Sockets are as secure as their origin\<close>

lemma stripSlashes_prefix:
  assumes "last p \<noteq> CHR ''/''" "p \<noteq> []"
  shows "\<exists>r. stripSlashes (p @ q) = p @ r"
proof -
  have "stripSlashes (p @ q) = p @ stripSlashes q" if "dropWhile (\<lambda>c. c = CHR ''/'') (rev q) \<noteq> []"
    using that by (auto simp: stripSlashes_def dropWhile_append dropWhile_eq_Nil_conv)
  moreover have "stripSlashes (p @ q) = p" if "dropWhile (\<lambda>c. c = CHR ''/'') (rev q) = []"
    using that assms by (cases p rule: rev_cases) (auto simp: stripSlashes_def dropWhile_append dropWhile_eq_Nil_conv)
  ultimately show ?thesis by (metis append_Nil2)
qed

text \<open>A socket of a page or of an API base that is served over TLS is opened over TLS.\<close>

lemma socket_urls_secure:
  assumes "if absoluteBase (orElse (pl_base pl) []) then take 8 (orElse (pl_base pl) []) = ''https://'' else pl_protocol pl = ''https:''"
  shows "take 4 (devlinkUrl pl rid) = ''wss:''" "take 4 (wsUrl pl) = ''wss:''"
proof -
  let ?b = "orElse (pl_base pl) []"
  have "\<exists>r. stripSlashes (''ws'' @ drop 4 ?b) = ''wss:'' @ r" if t: "take 8 ?b = ''https://''"
  proof -
    have "''https://'' @ drop 8 ?b = ?b" using append_take_drop_id [of 8 ?b] unfolding t .
    then obtain c where c: "?b = ''https://'' @ c" by (rule that [OF sym])
    have "''ws'' @ drop 4 ?b = ''wss:'' @ (''//'' @ c)" unfolding c by simp
    moreover have "\<exists>r. stripSlashes (''wss:'' @ (''//'' @ c)) = ''wss:'' @ r" by (rule stripSlashes_prefix) simp_all
    ultimately show ?thesis by (simp only:)
  qed
  then show "take 4 (devlinkUrl pl rid) = ''wss:''" "take 4 (wsUrl pl) = ''wss:''"
    using assms by (auto simp: devlinkUrl_def wsUrl_def Let_def split: if_splits)
qed

section \<open>The transport keeps the order\<close>

datatype tpEvent = TpSend string | TpOpened | TpClose

fun tpStep :: "tpEvent \<Rightarrow> transport \<Rightarrow> transport" where
  "tpStep (TpSend f) t = tpSend f t"
| "tpStep TpOpened t = tpOpened t"
| "tpStep TpClose t = tpClose t"

definition framesOf :: "tpEvent list \<Rightarrow> string list" where
  "framesOf es = List.map_filter (\<lambda>e. case e of TpSend f \<Rightarrow> Some f | _ \<Rightarrow> None) es"

lemma framesOf_simps [simp]:
  "framesOf [] = []" "framesOf (TpSend f # es) = f # framesOf es" "framesOf (TpOpened # es) = framesOf es" "framesOf (TpClose # es) = framesOf es"
  by (simp_all add: framesOf_def map_filter_def)

lemma closed_transport: "tp_state t = Closed \<Longrightarrow> tp_wire (fold tpStep es t) = tp_wire t"
proof (induction es arbitrary: t)
  case (Cons e es)
  then show ?case by (cases e) (simp_all add: tpSend_def tpOpened_def tpClose_def)
qed simp

lemma open_transport:
  "tp_state t = Open \<Longrightarrow> tp_wire (fold tpStep es t) = tp_wire t @ framesOf (takeWhile (\<lambda>e. e \<noteq> TpClose) es)"
proof (induction es arbitrary: t)
  case (Cons e es)
  then show ?case by (cases e) (simp_all add: tpSend_def tpOpened_def tpClose_def closed_transport)
qed simp

lemma connecting_transport:
  "tp_state t = Connecting \<Longrightarrow> tp_wire (fold tpStep es t) =
     tp_wire t @ (if TpOpened \<in> set (takeWhile (\<lambda>e. e \<noteq> TpClose) es)
       then tp_queue t @ framesOf (takeWhile (\<lambda>e. e \<noteq> TpClose) es) else [])"
proof (induction es arbitrary: t)
  case (Cons e es)
  then show ?case by (cases e) (simp_all add: tpSend_def tpOpened_def tpClose_def closed_transport open_transport)
qed simp

text \<open>What is sent before the socket opens is not lost: once it opened, the wire carries every frame
  that was sent before the close, in order.\<close>

lemma transport_keeps_order:
  "tp_wire (fold tpStep es (transportInit url ticket)) =
     (let before = takeWhile (\<lambda>e. e \<noteq> TpClose) es in if TpOpened \<in> set before then framesOf before else [])"
  using connecting_transport [of "transportInit url ticket" es] by (simp add: transportInit_def Let_def)

section \<open>History leaves only after the comparison\<close>

definition sameConf :: "side \<times> world \<Rightarrow> side \<times> world \<Rightarrow> bool" where
  "sameConf p p' \<longleftrightarrow> sd_confirmed (fst p') = sd_confirmed (fst p)"

interpretation sc: step_relation sameConf
  by unfold_locales (auto simp: sameConf_def)

lemma sc_onDev: "keeps sameConf (onDev m)"
  by (auto simp: keeps_def sameConf_def onDev_def split: prod.split)

lemma sc_getSide: "keeps sameConf (getSide f)"
  by (auto simp: keeps_def sameConf_def getSide_def)

lemma sc_setSide: "(\<And>s. sd_confirmed (g s) = sd_confirmed s) \<Longrightarrow> keeps sameConf (setSide g)"
  by (auto simp: keeps_def sameConf_def setSide_def)

lemma sc_basic: "keeps sameConf (fail msg)" "keeps sameConf cancel" "keeps sameConf (tsend f)"
  unfolding fail_def cancel_def tsend_def by (rule sc_setSide; simp)+

lemmas sc_rules = sc.keeps_rules sc_onDev sc_getSide sc_basic

lemma sc_send: "keeps sameConf (sealAndSendFrame E key obj)" "keeps sameConf (sendLinkFrame E key)"
  unfolding sendLinkFrame_def sealAndSendFrame_def by (intro sc_rules)+

lemma sc_stream: "keeps sameConf (exMaybeStream E)" "keeps sameConf (exStream E)"
  unfolding exMaybeStream_def exStream_def
  by (intro sc_rules sc_send sc_setSide; simp split: option.split prod.split list.split; intro conjI allI impI sc_rules sc_send sc_setSide; simp)+

lemma sc_ready: "keeps sameConf (exTrySendReady E)"
  unfolding exTrySendReady_def
  by (intro sc_rules sc_send sc_setSide; simp split: option.split; intro conjI allI impI sc_rules sc_send sc_stream sc_setSide; simp)

lemma sc_frame: "keeps sameConf (exFrame E dc f)"
proof -
  have hello: "keeps sameConf (exHello E dc eph pk)" for eph pk
    unfolding exHello_def by (intro sc_rules sc_ready sc_setSide) simp_all
  have inner: "keeps sameConf (exInner E j)" for j
    unfolding exInner_def by (intro sc_rules sc_stream sc_setSide) simp_all
  have opens: "keeps sameConf (openInner E key d (exInner E))" for key d
    unfolding openInner_def by (intro sc_rules inner)
  show ?thesis unfolding exFrame_def by (intro sc_rules hello opens)
qed

lemma sc_start: "keeps sameConf (exStart E dc)"
  unfolding exStart_def by (intro sc_rules sc_setSide) simp_all

text \<open>What is true of the screen of a device. In the sending mode there is at most one transfer, the
  screen holds it and shows its code.\<close>

definition scrInv :: "transferUi \<Rightarrow> bool" where
  "scrInv s \<longleftrightarrow> (dt_camera s \<longrightarrow> dt_mode s = TmReceive) \<and>
     (dt_mode s = TmChoose \<longrightarrow> dt_runs s = [] \<and> dt_pending s = [] \<and> dt_sas s = None) \<and>
     (dt_mode s = TmReceive \<longrightarrow> StExport \<notin> set (dt_pending s) \<and> (\<forall>r \<in> set (dt_runs s). \<not> fst r)) \<and>
     (dt_mode s = TmSend \<longrightarrow> dt_runs s = [] \<and> dt_pending s \<in> {[], [StExport]} \<and> dt_sas s = None \<or>
        dt_pending s = [] \<and> (\<exists>sd. dt_runs s = [(True, sd)] \<and> exInv sd \<and> dt_sas s = sd_sas sd \<and> dt_handle s = Some 0))"

lemma callbacks_fields [simp]:
  "dt_mode (callbacks old new s) = dt_mode s" "dt_runs (callbacks old new s) = dt_runs s" "dt_pending (callbacks old new s) = dt_pending s"
  "dt_camera (callbacks old new s) = dt_camera s" "dt_handle (callbacks old new s) = dt_handle s"
  "dt_sas (callbacks old new s) = (if sd_sas new \<noteq> sd_sas old then sd_sas new else dt_sas s)"
  "dt_confirmed (callbacks old new s) = dt_confirmed s"
  by (simp_all add: callbacks_def)

lemma run_onRun:
  assumes "dt_runs s = [(True, sd)]"
  shows "onRun i m (s, w) = (if i = 0 then (case m True (sd, w) of (_, (new, w')) \<Rightarrow> (callbacks sd new (s\<lparr>dt_runs := [(True, new)]\<rparr>), w')) else (s, w))"
  using assms by (simp add: onRun_def)

lemma onRun_member:
  assumes "(ex, new) \<in> set (dt_runs (fst (onRun i m (s, w))))"
  shows "\<exists>old. (ex, old) \<in> set (dt_runs s) \<and> (new = old \<or> (\<exists>r w'. m ex (old, w) = (r, (new, w'))))"
proof (cases "i < length (dt_runs s)")
  case True
  obtain ex' old r new' w' where o: "dt_runs s ! i = (ex', old)" "m ex' (old, w) = (r, (new', w'))" by (metis prod_cases3 surj_pair)
  then have "(ex, new) \<in> set ((dt_runs s)[i := (ex', new')])" using assms True by (simp add: onRun_def)
  then have "(ex, new) = (ex', new') \<or> (ex, new) \<in> set (dt_runs s)" using set_update_subset_insert by fastforce
  then show ?thesis using o True nth_mem [OF True] by (metis Pair_inject)
qed (use assms in \<open>auto simp: onRun_def\<close>)

lemma onRun_scrInv:
  assumes "scrInv s" "keeps exKeeps (m True)"
  shows "scrInv (fst (onRun i m (s, w)))"
proof (cases "dt_mode s")
  case TmSend
  show ?thesis
  proof (cases "dt_runs s = []")
    case False
    then obtain sd where sd: "dt_runs s = [(True, sd)]" "exInv sd" "dt_sas s = sd_sas sd" "dt_handle s = Some 0" "dt_pending s = []"
      using assms(1) TmSend by (auto simp: scrInv_def)
    obtain r new w' where m: "m True (sd, w) = (r, (new, w'))" using prod_cases3 by blast
    then have "exInv new" using keepsD [OF assms(2) m] sd(2) by (simp add: exKeeps_def)
    then show ?thesis using assms(1) TmSend sd m by (simp add: run_onRun scrInv_def)
  qed (use assms(1) in \<open>simp add: onRun_def\<close>)
next
  case TmReceive
  then have "\<forall>r \<in> set (dt_runs (fst (onRun i m (s, w)))). \<not> fst r"
    using assms(1) onRun_member [of True _ i m s w] by (fastforce simp: scrInv_def)
  then show ?thesis using assms(1) TmReceive by (auto simp: onRun_def scrInv_def split: prod.splits)
qed (use assms(1) in \<open>auto simp: onRun_def scrInv_def\<close>)

lemma exKeeps_lost: "keeps exKeeps disconnected"
  unfolding disconnected_def by (rule keeps_fail)

lemma startExport_side:
  assumes "startExport E pl dc w = (Inr (sd, qr), w')"
  shows "exInv sd" "\<not> sd_confirmed sd"
proof -
  obtain v r where x: "exStart E dc (sideInit, v) = (r, (sd, w'))"
    using assms by (auto simp: startExport_def split: prod.splits elim!: await_Inr_cases)
  show "exInv sd" using keepsD [OF keeps_exStart x] by (simp add: exKeeps_def exInv_def sideInit_def)
  show "\<not> sd_confirmed sd" using keepsD [OF sc_start x] by (simp add: sameConf_def sideInit_def)
qed

lemma scrInv_connected: "scrInv s \<Longrightarrow> scrInv (fst (relayAnswered E pl dc (s, w)))"
proof (cases "dt_pending s")
  case (Cons st rest)
  assume inv: "scrInv s"
  show ?thesis
  proof (cases st)
    case StExport
    then have "rest = []" "dt_runs s = []" "dt_sas s = None" "dt_mode s = TmSend"
      using inv Cons by (cases "dt_mode s"; auto simp: scrInv_def)+
    then show ?thesis using inv Cons StExport
      by (auto simp: relayAnswered_def scrInv_def watchDone_def sideInit_def Let_def dest: startExport_side(1) split: prod.split sum.split)
  next
    case (StImport qr)
    then have "dt_mode s = TmReceive" using inv Cons by (cases "dt_mode s"; auto simp: scrInv_def)+
    then show ?thesis using inv Cons StImport
      by (auto simp: relayAnswered_def scrInv_def watchDone_def Let_def split: prod.split sum.split)
  qed
qed (simp add: relayAnswered_def)

lemma scrInv_confirmed: "scrInv (s\<lparr>dt_confirmed := b\<rparr>) = scrInv s"
  by (simp add: scrInv_def)

lemma scrInv_press: "scrInv s \<Longrightarrow> scrInv (fst (pressConfirm E (s, w)))"
  using onRun_scrInv [of s "\<lambda>ex. if ex then exConfirm E else imConfirm E"] keeps_exConfirm [of E]
  by (auto simp: pressConfirm_def scrInv_confirmed split: option.split prod.split) (metis fst_conv)

lemma scrInv_leave: "scrInv s \<Longrightarrow> scrInv (fst (leaveTransfer (s, w)))"
proof -
  have cam: "scrInv s \<Longrightarrow> scrInv (s\<lparr>dt_camera := False\<rparr>)" for s by (simp add: scrInv_def)
  show "scrInv s \<Longrightarrow> ?thesis"
    using onRun_scrInv [of s "\<lambda>_. cancel"] keeps_fail(2)
    by (auto simp: leaveTransfer_def split: option.split prod.split) (metis cam fst_conv)+
qed

lemma scrInv_receive: "scrInv s \<Longrightarrow> dt_mode s = TmReceive \<Longrightarrow> scrInv (beginReceive x s)"
  by (auto simp: scrInv_def beginReceive_def split: option.split)

lemma scrInv_plain:
  "scrInv s \<Longrightarrow> scrInv (copyCode ok s)" "scrInv s \<Longrightarrow> scrInv (copiedTimeout s)" "scrInv s \<Longrightarrow> scrInv (stopTrScan s)"
  "scrInv s \<Longrightarrow> dt_mode s = TmReceive \<Longrightarrow> scrInv (startTrScan camera s)"
  "scrInv s \<Longrightarrow> dt_mode s = TmChoose \<Longrightarrow> scrInv (beginSend s)"
  "scrInv s \<Longrightarrow> dt_mode s = TmChoose \<Longrightarrow> scrInv (s\<lparr>dt_mode := TmReceive\<rparr>)"
  by (simp_all add: scrInv_def copyCode_def copiedTimeout_def stopTrScan_def startTrScan_def beginSend_def Let_def)

lemma scrInv_step:
  assumes "scrInv s"
  shows "scrInv (fst (trStep E pl dc e (s, w)))"
proof (cases e)
  case (TrCodeRead x)
  have "dt_camera s \<Longrightarrow> dt_mode s = TmReceive" "dt_mode (stopTrScan s) = dt_mode s"
    using assms by (simp_all add: scrInv_def stopTrScan_def)
  then show ?thesis using TrCodeRead assms by (simp add: codeRead_def scrInv_receive scrInv_plain)
qed (simp_all add: assms scrInv_plain scrInv_connected scrInv_press scrInv_leave onRun_scrInv scrInv_receive
      keeps_exFrame keeps_exStream exKeeps_lost)

lemma conf_onRun:
  assumes "(True, new) \<in> set (dt_runs (fst (onRun i m (s, w))))" "keeps sameConf (m True)" "sd_confirmed new"
  shows "\<exists>old. (True, old) \<in> set (dt_runs s) \<and> sd_confirmed old"
  using onRun_member [OF assms(1)] assms(3) keepsD [OF assms(2)] by (fastforce simp: sameConf_def)

lemma conf_connected:
  "(True, new) \<in> set (dt_runs (fst (relayAnswered E pl dc (s, w)))) \<Longrightarrow> sd_confirmed new \<Longrightarrow> (True, new) \<in> set (dt_runs s)"
  by (auto simp: relayAnswered_def watchDone_def Let_def dest: startExport_side(2)
      split: list.splits trStart.splits prod.splits sum.splits)

lemma runs_plain:
  "dt_runs (copyCode ok s) = dt_runs s" "dt_runs (copiedTimeout s) = dt_runs s" "dt_runs (stopTrScan s) = dt_runs s"
  "dt_runs (startTrScan camera s) = dt_runs s" "dt_runs (beginSend s) = dt_runs s" "dt_runs (beginReceive x s) = dt_runs s"
  by (simp_all add: copyCode_def copiedTimeout_def stopTrScan_def startTrScan_def beginSend_def beginReceive_def Let_def split: option.split)

lemma leave_runs: "dt_runs (fst (leaveTransfer (s, w))) = (case dt_handle s of None \<Rightarrow> dt_runs s | Some i \<Rightarrow> dt_runs (fst (onRun i (\<lambda>_. cancel) (s, w))))"
  by (simp add: leaveTransfer_def split: option.split prod.split)

lemma conf_step:
  assumes "(True, new) \<in> set (dt_runs (fst (trStep E pl dc e (s, w))))" "sd_confirmed new" "e \<noteq> TrConfirm"
  shows "\<exists>old. (True, old) \<in> set (dt_runs s) \<and> sd_confirmed old"
proof (cases e)
  case (TrFrame i f)
  then show ?thesis using assms conf_onRun [of new i _ s w] sc_frame by fastforce
next
  case (TrStream i)
  then show ?thesis using assms conf_onRun [of new i _ s w] sc_stream(2) by fastforce
next
  case (TrLost i)
  then show ?thesis using assms conf_onRun [of new i _ s w] sc_basic(1) by (fastforce simp: disconnected_def)
next
  case TrLeave
  then show ?thesis using assms conf_onRun [of new _ "\<lambda>_. cancel" s w] sc_basic(2) by (auto simp: leave_runs split: option.splits)
next
  case TrConnected
  then show ?thesis using assms conf_connected [of new E pl dc s w] by auto
qed (use assms in \<open>auto simp: runs_plain codeRead_def split: if_splits\<close>)

definition trRun :: "env \<Rightarrow> place \<Rightarrow> DevlinkCryptoApi \<Rightarrow> world \<Rightarrow> trEvent list \<Rightarrow> transferUi \<times> world" where
  "trRun E pl dc w es = fold (trStep E pl dc) es (transferInit, w)"

interpretation tr: event_run "trStep E pl dc" "\<lambda>_. True" "\<lambda>p. scrInv (fst p)"
  by unfold_locales (metis prod.collapse scrInv_step)

lemma scrInv_init: "scrInv transferInit"
  by (simp add: scrInv_def transferInit_def)

text \<open>A press that counts: the button is offered and the one exporting transfer shows its code.\<close>

definition comparedAt :: "transferUi \<Rightarrow> bool" where
  "comparedAt s \<longleftrightarrow> confirmOffered s \<and>
     (\<exists>sd. dt_runs s = [(True, sd)] \<and> sd_sas sd \<noteq> None \<and> dt_sas s = sd_sas sd)"

lemma press_runs:
  assumes "(True, new) \<in> set (dt_runs (fst (pressConfirm E (s, w))))"
  shows "\<exists>old. (True, old) \<in> set (dt_runs s)"
proof (cases "\<not> confirmOffered s \<or> dt_handle s = None")
  case True
  then have "dt_runs (fst (pressConfirm E (s, w))) = dt_runs s" by (auto simp: pressConfirm_def)
  then show ?thesis using assms by auto
next
  case False
  then obtain i where i: "dt_handle s = Some i" by auto
  let ?q = "onRun i (\<lambda>ex. if ex then exConfirm E else imConfirm E) (s, w)"
  have "dt_runs (fst (pressConfirm E (s, w))) = dt_runs (fst ?q)" using False i by (simp add: pressConfirm_def split: prod.split)
  then show ?thesis using assms onRun_member [of True new i _ s w] by auto
qed

lemma conf_cause:
  assumes "scrInv (fst p)" "\<exists>sd. (True, sd) \<in> set (dt_runs (fst (trStep E pl dc e p))) \<and> sd_confirmed sd"
  shows "(\<exists>sd. (True, sd) \<in> set (dt_runs (fst p)) \<and> sd_confirmed sd) \<or> e = TrConfirm \<and> comparedAt (fst p)"
proof (cases "e = TrConfirm \<and> confirmOffered (fst p)")
  case True
  then obtain old where "(True, old) \<in> set (dt_runs (fst p))"
    using assms(2) press_runs [of _ E "fst p" "snd p"] by auto
  then have "\<exists>sd. dt_runs (fst p) = [(True, sd)] \<and> dt_sas (fst p) = sd_sas sd"
    using assms(1) by (cases "dt_mode (fst p)") (auto simp: scrInv_def)
  moreover have "dt_sas (fst p) \<noteq> None" using True by (auto simp: confirmOffered_def orElse_def split: option.splits)
  ultimately show ?thesis using True by (auto simp: comparedAt_def)
next
  case False
  then show ?thesis using assms(2) conf_step [of _ E pl dc e "fst p" "snd p"]
    by (cases "e = TrConfirm") (auto simp: pressConfirm_def)
qed

text \<open>C21. History leaves the device only after the comparison. Whatever the user does on the screen, in
  whatever order connections are answered, frames come in and sockets close: once the
  exporting transfer has sent anything at all, the button was pressed at a moment when the screen
  offered it and showed the code of that very transfer.\<close>

theorem history_leaves_after_comparison:
  assumes "(True, sd) \<in> set (dt_runs (fst (trRun E pl dc w es)))" "sd_out sd \<noteq> []"
  shows "\<exists>es1 es2. es = es1 @ TrConfirm # es2 \<and> comparedAt (fst (trRun E pl dc w es1))"
proof -
  have "scrInv (fst (trRun E pl dc w es))" unfolding trRun_def by (rule tr.run_inv) (simp_all add: scrInv_init list_all_iff)
  then have "exInv sd" using assms(1) by (cases "dt_mode (fst (trRun E pl dc w es))") (auto simp: scrInv_def)
  then have "sd_confirmed sd" using assms(2) by (auto simp: exInv_def)
  then have "\<exists>sd. (True, sd) \<in> set (dt_runs (fst (fold (trStep E pl dc) es (transferInit, w)))) \<and> sd_confirmed sd"
    using assms(1) by (auto simp: trRun_def)
  moreover have "list_all (\<lambda>_. True) es" by (simp add: list_all_iff)
  moreover have "scrInv (fst (transferInit, w))" "\<not> (\<exists>sd. (True, sd) \<in> set (dt_runs (fst (transferInit, w))) \<and> sd_confirmed sd)"
    by (simp_all add: scrInv_def transferInit_def)
  ultimately show ?thesis
    using tr.run_cause [of "\<lambda>p. \<exists>sd. (True, sd) \<in> set (dt_runs (fst p)) \<and> sd_confirmed sd" E pl dc
        "\<lambda>e p. e = TrConfirm \<and> comparedAt (fst p)" es "(transferInit, w)"] conf_cause [of _ E pl dc]
    unfolding trRun_def by blast
qed

text \<open>The button is offered once: a code that replaces the confirmed one is shown, not asked about.\<close>

lemma asked_once: "dt_confirmed (fst p) \<Longrightarrow> pressConfirm E p = p"
  by (simp add: pressConfirm_def confirmOffered_def)

text \<open>Leaving while the relay has not answered cancels nothing: the transfer starts afterwards.\<close>

lemma leaving_early_cancels_nothing:
  assumes "startExport E pl dc w = (Inr (sd, qr), w')"
  shows "dt_runs (fst (trRun E pl dc w [TrSend, TrLeave, TrConnected])) = [(True, sd)]"
  using assms by (simp add: trRun_def transferInit_def beginSend_def leaveTransfer_def relayAnswered_def watchDone_def)

end
