(* ===== verification/BrowserParts.thy ===== *)
theory BrowserParts
  imports EventRuns AppBoot ContactScreens SeedWords TimeSync Files "HOL-Library.Sublist"
begin

text \<open>
  Small parts around the browser: the connection and clock indicator
  (\<^verbatim>\<open>components/ConnectionStatus.tsx\<close>, the listeners of \<^verbatim>\<open>services/time-sync.ts\<close> and \<^verbatim>\<open>services/websocket.ts\<close>), saving the
  recovery phrase (\<^verbatim>\<open>services/seed-file.ts\<close>, \<^verbatim>\<open>components/SeedSave.tsx\<close>), background sync
  (\<^verbatim>\<open>services/outbox.ts\<close>, \<^verbatim>\<open>sw.ts\<close>), previews of images (\<^verbatim>\<open>services/files.ts\<close>), the mixnet worker (\<^verbatim>\<open>workers/nym.worker.ts\<close>), the QR
  badge (\<^verbatim>\<open>screens/MyQr.tsx\<close>), the install banner, the theme and the screen guard
  (\<^verbatim>\<open>components/InstallPrompt.tsx\<close>, \<^verbatim>\<open>ThemeProvider.tsx\<close>, \<^verbatim>\<open>ScreenRecordGuard.tsx\<close>) and the focus
  of dialogs (\<^verbatim>\<open>components/Modal.tsx\<close>). What the browser answers is an argument.
\<close>

text \<open>\<open>Math.round (a / b)\<close> of integers: a half counts up.\<close>

definition roundDiv :: "int \<Rightarrow> int \<Rightarrow> int" where
  "roundDiv a b = (2 * a + b) div (2 * b)"

lemma roundDiv_bounds:
  assumes "0 < b"
  shows "2 * a - b < 2 * b * roundDiv a b" "2 * b * roundDiv a b \<le> 2 * a + b"
proof -
  have "(2 * a + b) = 2 * b * roundDiv a b + (2 * a + b) mod (2 * b)" by (simp add: roundDiv_def)
  moreover have "0 \<le> (2 * a + b) mod (2 * b)" "(2 * a + b) mod (2 * b) < 2 * b" using assms by auto
  ultimately show "2 * a - b < 2 * b * roundDiv a b" "2 * b * roundDiv a b \<le> 2 * a + b" by linarith+
qed

section \<open>The connection indicator\<close>

text \<open>Listeners are told only when the warning changes.\<close>

definition driftChanged :: "bool \<Rightarrow> world \<Rightarrow> bool" where
  "driftChanged inTol w \<longleftrightarrow> clockWarning w \<noteq> (\<not> inTol)"

definition onClockStatusChanged :: "nat \<Rightarrow> nat list \<Rightarrow> nat list" where
  "onClockStatusChanged fn ls = (if fn \<in> set ls then ls else ls @ [fn])"

definition offClockStatusChanged :: "nat \<Rightarrow> nat list \<Rightarrow> nat list" where
  "offClockStatusChanged fn ls = filter (\<lambda>l. l \<noteq> fn) ls"

definition notifyDrift :: "bool \<Rightarrow> nat list \<Rightarrow> world \<Rightarrow> nat list" where
  "notifyDrift inTol ls w = (if driftChanged inTol w then ls else [])"

text \<open>The socket's listeners are told only when its status changes; the event is the new status.\<close>

definition onWsStatusChanged :: "nat \<Rightarrow> nat list \<Rightarrow> nat list" where
  "onWsStatusChanged fn ls = (if fn \<in> set ls then ls else ls @ [fn])"

definition notifyStatus :: "bool \<Rightarrow> nat list \<Rightarrow> app \<Rightarrow> (nat \<times> bool) list" where
  "notifyStatus up ls a = (if getWsStatus a = up then [] else map (\<lambda>l. (l, up)) ls)"

record statusView =
  cs_netOnline :: bool
  cs_wsConnected :: bool
  cs_queued :: nat
  cs_clock :: "bool \<times> int"

definition statusInit :: "bool \<Rightarrow> bool \<Rightarrow> world \<Rightarrow> statusView" where
  "statusInit navigatorOnline wsStatus w =
     \<lparr>cs_netOnline = navigatorOnline, cs_wsConnected = wsStatus, cs_queued = 0, cs_clock = (clockWarning w, clockDrift w)\<rparr>"

definition netChanged :: "bool \<Rightarrow> statusView \<Rightarrow> statusView" where
  "netChanged up s = s\<lparr>cs_netOnline := up\<rparr>"

definition wsChanged :: "bool \<Rightarrow> statusView \<Rightarrow> statusView" where
  "wsChanged up s = s\<lparr>cs_wsConnected := up\<rparr>"

definition refreshQueued :: "world \<Rightarrow> statusView \<Rightarrow> statusView" where
  "refreshQueued w s = s\<lparr>cs_queued := length (outbox_tbl (idb w))\<rparr>"

text \<open>The clock is read again when the listener is called, after the new drift is stored.\<close>

definition driftSet :: "int \<Rightarrow> bool \<Rightarrow> statusView \<times> world \<Rightarrow> statusView \<times> world" where
  "driftSet drift inTol = (\<lambda>(s, w).
     (let w' = snd (setDrift drift inTol w) in
      (if driftChanged inTol w then s\<lparr>cs_clock := (clockWarning w', clockDrift w')\<rparr> else s, w')))"

definition online :: "statusView \<Rightarrow> bool" where
  "online s \<longleftrightarrow> cs_netOnline s \<and> cs_wsConnected s"

definition waiting :: "statusView \<Rightarrow> string option" where
  "waiting s = (if 0 < cs_queued s then Some (showNat (cs_queued s) @ '' waiting'') else None)"

text \<open>The middle dot is character 183.\<close>

definition statusLabel :: "statusView \<Rightarrow> string option" where
  "statusLabel s = (if online s then waiting s
     else Some (case waiting s of Some x \<Rightarrow> ''Offline '' @ [CHR 0xB7] @ '' '' @ x | None \<Rightarrow> ''Offline''))"

definition formatDrift :: "int \<Rightarrow> string" where
  "formatDrift secs =
     (let a = \<bar>secs\<bar>;
          human = (if 3600 \<le> a then showInt (roundDiv a 3600) @ '' h''
                   else if 60 \<le> a then showInt (roundDiv a 60) @ '' min'' else showInt a @ '' s'')
      in human @ (if 0 < secs then '' ahead'' else '' behind''))"

text \<open>While the indicator is mounted: the network comes and goes, the socket's status is set, frames are
  timed, and the outbox is counted.\<close>

datatype statusEvent = SeNet bool | SeWs bool | SeDrift int bool | SeOutbox

fun statusStep :: "statusEvent \<Rightarrow> statusView \<times> bool \<times> app \<times> world \<Rightarrow> statusView \<times> bool \<times> app \<times> world" where
  "statusStep (SeNet up) (s, n, a, w) = (netChanged up s, up, a, w)"
| "statusStep (SeWs up) (s, n, a, w) =
     ((case notifyStatus up [0] a of [] \<Rightarrow> s | (l, st) # ls \<Rightarrow> wsChanged st s), n, setStatus up a, w)"
| "statusStep (SeDrift d inTol) (s, n, a, w) = (case driftSet d inTol (s, w) of (s', w') \<Rightarrow> (s', n, a, w'))"
| "statusStep SeOutbox (s, n, a, w) = (refreshQueued w s, n, a, w)"

definition statusInv :: "statusView \<times> bool \<times> app \<times> world \<Rightarrow> bool" where
  "statusInv = (\<lambda>(s, n, a, w). cs_netOnline s = n \<and> cs_wsConnected s = getWsStatus a \<and> fst (cs_clock s) = clockWarning w)"

lemma getWsStatus_setStatus [simp]: "getWsStatus (setStatus up a) = up"
  by (simp add: getWsStatus_def setStatus_def onWs_def)

interpretation si: event_run statusStep "\<lambda>_. True" statusInv
proof
  fix e :: statusEvent and p
  assume "statusInv p"
  then show "statusInv (statusStep e p)"
    by (cases p; cases e) (auto simp: statusInv_def netChanged_def wsChanged_def refreshQueued_def notifyStatus_def driftSet_def
        driftChanged_def setDrift_def Let_def)
qed

text \<open>What is shown is so: whatever happens after it was mounted, the dot is green exactly when the
  network is there and the socket is connected, and the clock warning is the one there is.\<close>

lemma indicator_shows_truth:
  assumes "fold statusStep es (statusInit n (getWsStatus a) w, n, a, w) = (s, n', a', w')"
  shows "online s \<longleftrightarrow> n' \<and> getWsStatus a'" "fst (cs_clock s) = clockWarning w'"
proof -
  have "statusInv (statusInit n (getWsStatus a) w, n, a, w)" by (simp add: statusInv_def statusInit_def)
  then have "statusInv (s, n', a', w')" using si.run_inv [of es] assms by (metis list.pred_True)
  then show "online s \<longleftrightarrow> n' \<and> getWsStatus a'" "fst (cs_clock s) = clockWarning w'" by (simp_all add: statusInv_def online_def)
qed

text \<open>But the amount shown is that of the first frame of a spell: while the clock stays wrong, a
  later drift, however different, is stored and not shown.\<close>

lemma drift_shown_stale:
  "clockWarning w \<Longrightarrow> driftSet d False (s, w) = (s, w\<lparr>clockDrift := d, clockWarning := True\<rparr>)"
  by (simp add: driftSet_def driftChanged_def setDrift_def)

text \<open>Nothing is labelled exactly when all is sent and the server is reached.\<close>

lemma label_empty: "statusLabel s = None \<longleftrightarrow> cs_netOnline s \<and> cs_wsConnected s \<and> cs_queued s = 0"
  by (auto simp: statusLabel_def waiting_def online_def)

section \<open>Saving the recovery phrase\<close>

text \<open>The save dialog, where the browser has one: the user cancels, it refuses, or there is a file,
  and writing it succeeds or fails.\<close>

datatype savePicker = PickCancelled | PickRefused | PickFile "error + unit"

datatype savedFile = AtChoice string | InDownloads string string

definition saveSeedFile :: "savePicker option \<Rightarrow> string list \<Rightarrow> (error + string) \<times> savedFile list" where
  "saveSeedFile pick ws =
     (let blob = seedFileText ws; download = (Inr ''downloaded'', [InDownloads SEED_FILE_NAME blob]) in
      case pick of None \<Rightarrow> download
      | Some PickCancelled \<Rightarrow> (Inr ''cancelled'', [])
      | Some PickRefused \<Rightarrow> download
      | Some (PickFile (Inl e)) \<Rightarrow> (Inl e, [])
      | Some (PickFile (Inr _)) \<Rightarrow> (Inr ''saved'', [AtChoice blob]))"

record seedSave =
  sd_asking :: bool
  sd_result :: "string option"

definition downloadedText :: string where
  "downloadedText = ''It'' @ [CHR 0x27] @ ''s in your Downloads folder. Move it somewhere offline, like a USB stick, then delete it from Downloads.''"

definition couldNotSave :: string where
  "couldNotSave = ''Couldn'' @ [CHR 0x27] @ ''t save the file''"

definition seedSaveClick :: "(error \<Rightarrow> string) \<Rightarrow> savePicker option \<Rightarrow> string list \<Rightarrow> seedSave \<Rightarrow> seedSave \<times> savedFile list" where
  "seedSaveClick message pick ws s =
     (case saveSeedFile pick ws of (r, files) \<Rightarrow>
       (\<lparr>sd_asking = False, sd_result = (case r of
           Inl e \<Rightarrow> Some (couldNotSave @ '': '' @ message e)
         | Inr x \<Rightarrow> if x = ''saved'' then Some ''Saved.'' else if x = ''downloaded'' then Some downloadedText else None)\<rparr>, files))"

definition askSave :: "bool \<Rightarrow> seedSave \<Rightarrow> seedSave" where
  "askSave yes s = s\<lparr>sd_asking := yes\<rparr>"

text \<open>A file is written exactly when the screen says that it was saved or downloaded, it is one file, and
  it holds the phrase so that the reader of saved files finds the words again.\<close>

lemma saved_file_reads_back:
  assumes "seedSaveClick message pick ws s = (s', files)" "nfkd (seedFileText ws) = seedFileText ws"
    "12 \<le> length ws" "length ws \<le> 24" "\<forall>x \<in> set ws. isSeedWord x"
  shows "files = [] \<and> sd_result s' \<notin> {Some ''Saved.'', Some downloadedText} \<or>
    sd_result s' \<in> {Some ''Saved.'', Some downloadedText} \<and>
    (\<exists>text. files \<in> {[AtChoice text], [InDownloads SEED_FILE_NAME text]} \<and> parseSeedText nfkd text = ws)"
  using assms(1) seed_file_reads_back [of nfkd ws, OF assms(2-5)]
  by (auto simp: seedSaveClick_def saveSeedFile_def couldNotSave_def downloadedText_def Let_def
      split: option.splits savePicker.splits sum.splits)

section \<open>Background sync\<close>

definition SYNC_TAG :: string where "SYNC_TAG = ''sync-pending-messages''"

text \<open>The registration of the service worker and its sync manager may be missing, and may refuse.\<close>

definition requestBackgroundSync :: "(string \<Rightarrow> error + unit) option \<Rightarrow> string list \<Rightarrow> string list" where
  "requestBackgroundSync sync tags = (case sync of None \<Rightarrow> tags
     | Some reg \<Rightarrow> (case reg SYNC_TAG of Inl _ \<Rightarrow> tags
        | Inr _ \<Rightarrow> if SYNC_TAG \<in> set tags then tags else tags @ [SYNC_TAG]))"

text \<open>What the worker does on its events: the messages to its tabs, and whether it takes over at once.\<close>

definition wakeTabs :: "nat \<Rightarrow> (nat \<times> string) list" where
  "wakeTabs tabs = map (\<lambda>i. (i, ''flush-outbox'')) [0..<tabs]"

definition onSync :: "string \<Rightarrow> nat \<Rightarrow> (nat \<times> string) list" where
  "onSync tag tabs = (if tag = ''sync-pending-messages'' then wakeTabs tabs else [])"

definition onWorkerMessage :: "string option \<Rightarrow> bool" where
  "onWorkerMessage type \<longleftrightarrow> type = Some ''SKIP_WAITING''"

definition onPageMessage :: "string option \<Rightarrow> bootState \<Rightarrow> bootState" where
  "onPageMessage type s = (if type = Some ''flush-outbox'' then flushIfActive s else s)"

text \<open>The tag that parking a message asks for is the one the worker answers, and its message is the
  one the page drains the outbox on: every open tab, and of those the ones that are signed in.\<close>

lemma sync_wakes_every_tab:
  assumes "tag \<in> set (requestBackgroundSync sync [])" "i < tabs"
  shows "(i, ''flush-outbox'') \<in> set (onSync tag tabs) \<and>
    onPageMessage (Some ''flush-outbox'') s = flushIfActive s"
  using assms by (auto simp: requestBackgroundSync_def onSync_def wakeTabs_def onPageMessage_def SYNC_TAG_def
      split: option.splits sum.splits if_splits)

section \<open>Previews of images\<close>

text \<open>The size of the preview: at most 320 on the longer side. The quotient is the exact one; the browser
  computes it in floating point.\<close>

definition thumbSize :: "int \<Rightarrow> int \<Rightarrow> int \<times> int" where
  "thumbSize width height =
     (let m = max width height; side = (\<lambda>x. max 1 (if m \<le> 320 then x else roundDiv (x * 320) m)) in (side width, side height))"

text \<open>\<open>decode\<close> gives the size of the picture and \<open>jpeg\<close> its drawing at a size; both may fail, and then there
  is no preview.\<close>

definition makeThumbnail :: "string \<Rightarrow> (error + int \<times> int) option \<Rightarrow> (int \<times> int \<Rightarrow> error + bytes option) \<Rightarrow> bytes option" where
  "makeThumbnail type decode jpeg =
     (if \<not> prefix ''image/'' type then None else
      case decode of None \<Rightarrow> None | Some (Inl _) \<Rightarrow> None
      | Some (Inr (width, height)) \<Rightarrow> (case jpeg (thumbSize width height) of Inl _ \<Rightarrow> None | Inr blob \<Rightarrow> blob))"

lemma thumb_within:
  assumes "1 \<le> width" "1 \<le> height"
  shows "fst (thumbSize width height) \<in> {1..320}" "snd (thumbSize width height) \<in> {1..320}"
proof -
  have r: "roundDiv (x * 320) m \<le> 320" if "320 < m" "x \<le> m" for x m
  proof -
    have "2 * m * roundDiv (x * 320) m \<le> 2 * (x * 320) + m" using that by (intro roundDiv_bounds(2)) simp
    also have "\<dots> < 2 * m * 321" using that by simp
    finally show ?thesis using that by simp
  qed
  show "fst (thumbSize width height) \<in> {1..320}" "snd (thumbSize width height) \<in> {1..320}"
    using assms r [of "max width height" width] r [of "max width height" height] by (auto simp: thumbSize_def Let_def)
qed

section \<open>The mixnet worker\<close>

text \<open>The transport is not bundled: loading it gives a module or nothing. \<open>posts\<close> says whether the
  first status message goes through (when it does not, connecting failed).\<close>

datatype nymStatus = NymConnected | NymDisconnected string

record nymState =
  ny_client :: bool
  ny_reconnectDelay :: int
  ny_posted :: "nymStatus list"
  ny_timers :: "int list"

definition nymInit :: nymState where
  "nymInit = \<lparr>ny_client = False, ny_reconnectDelay = 1000, ny_posted = [], ny_timers = []\<rparr>"

definition nymPost :: "nymStatus \<Rightarrow> nymState \<Rightarrow> nymState" where
  "nymPost m s = s\<lparr>ny_posted := ny_posted s @ [m]\<rparr>"

definition nymScheduleReconnect :: "nymState \<Rightarrow> nymState" where
  "nymScheduleReconnect s = s\<lparr>ny_timers := ny_timers s @ [min (ny_reconnectDelay s) 30000], ny_reconnectDelay := ny_reconnectDelay s * 2\<rparr>"

definition nymConnect :: "bool \<Rightarrow> string option \<Rightarrow> nymState \<Rightarrow> nymState" where
  "nymConnect sdk fault s =
     (if \<not> sdk then nymPost (NymDisconnected ''nym-sdk-not-installed'') s else
      let s1 = s\<lparr>ny_client := True, ny_reconnectDelay := 1000\<rparr> in
      case fault of None \<Rightarrow> nymPost NymConnected s1
      | Some e \<Rightarrow> nymScheduleReconnect (nymPost (NymDisconnected e) s1))"

definition nymSend :: "nymState \<Rightarrow> nymState" where
  "nymSend s = (if \<not> ny_client s then nymPost (NymDisconnected ''not-connected'') s else s)"

text \<open>Each attempt resets the delay before it can fail, so every retry waits one second: the doubling
  never shows.\<close>

lemma nym_retry_delay: "ny_timers (nymConnect True (Some e) s) = ny_timers s @ [1000]"
  by (simp add: nymConnect_def nymScheduleReconnect_def nymPost_def Let_def)

section \<open>The QR badge\<close>

record badge =
  bd_tile :: int
  bd_pad :: int
  bd_outer :: int
  bd_origin :: int

definition badgeOf :: "int \<Rightarrow> badge" where
  "badgeOf W = (let tile = roundDiv W 5; pad = roundDiv (18 * tile) 100; outer = tile + pad * 2 in
     \<lparr>bd_tile = tile, bd_pad = pad, bd_outer = outer, bd_origin = roundDiv (W - outer) 2\<rparr>)"

text \<open>The painted cells: column and row of each, of five.\<close>

definition badgeCells :: "string \<Rightarrow> (nat \<times> nat) list" where
  "badgeCells seed = (let cells = identiconCells seed in
     map (\<lambda>i. (i mod 5, i div 5)) (filter (\<lambda>i. cells ! i) [0..<length cells]))"

text \<open>The badge lies inside the code and covers less than a tenth of it, well under the third that
  the highest level of error correction recovers.\<close>

lemma badge_within:
  assumes "64 \<le> W"
  shows "0 \<le> bd_origin (badgeOf W)" "bd_origin (badgeOf W) + bd_outer (badgeOf W) \<le> W"
    "10 * (bd_outer (badgeOf W) * bd_outer (badgeOf W)) < W * W"
proof -
  define t p ou og where d: "t = roundDiv W 5" "p = roundDiv (18 * t) 100" "ou = t + p * 2" "og = roundDiv (W - ou) 2"
  have b: "bd_outer (badgeOf W) = ou" "bd_origin (badgeOf W) = og" by (simp_all add: badgeOf_def d Let_def)
  have t: "10 * t \<le> 2 * W + 5" "2 * W - 5 < 10 * t" using roundDiv_bounds [of 5 W] by (simp_all add: d)
  have p: "200 * p \<le> 36 * t + 100" "36 * t - 100 < 200 * p" using roundDiv_bounds [of 100 "18 * t"] by (simp_all add: d)
  have o: "4 * og \<le> 2 * (W - ou) + 2" "2 * (W - ou) - 2 < 4 * og" using roundDiv_bounds [of 2 "W - ou"] by (simp_all add: d)
  have ou: "1000 * ou \<le> 272 * W + 1680" "0 < ou" using t p assms by (auto simp: d(3))
  have s: "10 * ou < 3 * W" using ou assms by linarith
  then have "4 \<le> W - ou" using assms by linarith
  then have og: "0 \<le> og" "og + ou \<le> W" using o ou(2) by auto
  show "0 \<le> bd_origin (badgeOf W)" "bd_origin (badgeOf W) + bd_outer (badgeOf W) \<le> W" using og unfolding b .
  have "(10 * ou) * (10 * ou) < (3 * W) * (3 * W)" by (rule mult_strict_mono) (use s ou(2) in linarith)+
  moreover have "0 < W * W" using assms by auto
  ultimately show "10 * (bd_outer (badgeOf W) * bd_outer (badgeOf W)) < W * W" unfolding b by linarith
qed

text \<open>\<open>copy\<close>: the clipboard is optional, the word is not. With none, nothing is copied and the button
  says that it was; a refused write throws, and the button stays as it was.\<close>

definition copyMyId :: "(string \<Rightarrow> error + unit) option \<Rightarrow> string \<Rightarrow> bool \<Rightarrow> (error + bool) \<times> string list" where
  "copyMyId clipboard pxId copied = (case clipboard of None \<Rightarrow> (Inr True, [])
     | Some write \<Rightarrow> (case write pxId of Inl e \<Rightarrow> (Inl e, []) | Inr _ \<Rightarrow> (Inr True, [pxId])))"

lemma copied_without_clipboard: "copyMyId None pxId c = (Inr True, [])"
  by (simp add: copyMyId_def)

section \<open>The install banner\<close>

definition INSTALL_DISMISS_KEY :: string where "INSTALL_DISMISS_KEY = ''install_dismissed''"

record installPrompt =
  ip_evt :: bool
  ip_dismissed :: bool

definition installInit :: installPrompt where
  "installInit = \<lparr>ip_evt = False, ip_dismissed = True\<rparr>"

definition loadDismissed :: "installPrompt \<times> world \<Rightarrow> installPrompt \<times> world" where
  "loadDismissed = (\<lambda>(s, w). case settingGet INSTALL_DISMISS_KEY w of
     (Inl _, w') \<Rightarrow> (s, w') | (Inr v, w') \<Rightarrow> (s\<lparr>ip_dismissed := truthy v\<rparr>, w'))"

definition onPrompt :: "installPrompt \<Rightarrow> installPrompt" where
  "onPrompt s = s\<lparr>ip_evt := True\<rparr>"

definition rememberDismissed :: "world \<Rightarrow> world" where
  "rememberDismissed w = snd (settingPut INSTALL_DISMISS_KEY (JBool True) w)"

definition onInstalled :: "installPrompt \<times> world \<Rightarrow> installPrompt \<times> world" where
  "onInstalled = (\<lambda>(s, w). (s\<lparr>ip_evt := False\<rparr>, rememberDismissed w))"

definition bannerShown :: "installPrompt \<Rightarrow> bool" where
  "bannerShown s \<longleftrightarrow> ip_evt s \<and> \<not> ip_dismissed s"

text \<open>\<open>answered\<close>: the browser's own dialog was shown and closed; otherwise showing it threw.\<close>

definition install :: "bool \<Rightarrow> installPrompt \<Rightarrow> installPrompt" where
  "install answered s = (if ip_evt s \<and> answered then s\<lparr>ip_evt := False\<rparr> else s)"

definition dismiss :: "installPrompt \<times> world \<Rightarrow> installPrompt \<times> world" where
  "dismiss = (\<lambda>(s, w). (s\<lparr>ip_dismissed := True\<rparr>, rememberDismissed w))"

text \<open>Dismissed or installed once, the banner does not come back on a later visit, whatever the
  browser fires.\<close>

lemma banner_stays_away:
  assumes "(s1, w1) \<in> {dismiss (s, w), onInstalled (s, w)}" "loadDismissed (installInit, w1) = (s2, w2)"
  shows "\<not> bannerShown s1" "\<not> bannerShown (onPrompt s2)" "\<not> bannerShown (onPrompt installInit)"
  using assms by (auto simp: dismiss_def onInstalled_def rememberDismissed_def loadDismissed_def installInit_def
      bannerShown_def onPrompt_def truthy_def)

section \<open>Theme and screen guard\<close>

definition resolveOsPref :: "bool \<Rightarrow> bool \<Rightarrow> string" where
  "resolveOsPref hasWindow prefersLight = (if \<not> hasWindow then ''dark'' else if prefersLight then ''light'' else ''dark'')"

text \<open>The first effect, from the mode of the store: the new mode, the attribute it sets, and the
  stored choice. A failure falls back to dark.\<close>

definition themeMount :: "bool \<Rightarrow> string \<Rightarrow> (string \<times> string) act" where
  "themeMount prefersLight mode =
     tryCatch
       (await (themeInit mode) (\<lambda>(hadStored, m).
        if hadStored then ret (m, m) else
        (let osPref = resolveOsPref True prefersLight in andThen (setMode osPref) (ret (osPref, osPref)))))
       (\<lambda>_. ret (mode, ''dark''))"

text \<open>The choice is made once: what the system preferred at the first visit holds at every later one.\<close>

lemma run_themeMount:
  "themeMount light mode w =
     (case jstr (map_option st_value (tget (settings_tbl (idb w)) THEME_KEY)) of
        Some m \<Rightarrow> if m \<in> {''dark'', ''light'', ''amoled''} then (Inr (m, m), w)
                  else (let p = resolveOsPref True light in (Inr (p, p), snd (setMode p w)))
      | None \<Rightarrow> (let p = resolveOsPref True light in (Inr (p, p), snd (setMode p w))))"
  by (auto simp: themeMount_def themeInit_def setMode_def Let_def tryCatch_def await_def ret_def split: option.splits)

lemma theme_chosen_once:
  assumes "themeMount light ''dark'' w = (Inr (m, a), w1)"
  shows "a = m \<and> m \<in> {''dark'', ''light'', ''amoled''} \<and> themeMount light' ''dark'' w1 = (Inr (m, m), w1)"
  using assms by (auto simp: run_themeMount setMode_def resolveOsPref_def Let_def split: option.splits if_splits)

definition isScreenRecordProtectionEnabled :: "bool act" where
  "isScreenRecordProtectionEnabled = await (settingGet SCREEN_RECORD_KEY) (\<lambda>v. ret (v = Some (JBool True)))"

definition setScreenRecordProtectionEnabled :: "bool \<Rightarrow> unit act" where
  "setScreenRecordProtectionEnabled v = settingPut SCREEN_RECORD_KEY (JBool v)"

text \<open>\<open>hidden\<close> follows the page while protection is on; what is drawn: the watermark with the id, and
  over it the cover.\<close>

definition guardHears :: "bool \<Rightarrow> bool \<Rightarrow> bool \<Rightarrow> bool" where
  "guardHears enabled pageHidden hidden = (if enabled then pageHidden else hidden)"

definition guardDraws :: "bool \<Rightarrow> string \<Rightarrow> bool \<Rightarrow> string option \<times> bool" where
  "guardDraws enabled pxId hidden = (if \<not> enabled \<or> pxId = [] then (None, False) else (Some pxId, hidden))"

lemma protection_setting_kept:
  "fst (isScreenRecordProtectionEnabled (snd (setScreenRecordProtectionEnabled v w))) = Inr v"
  by (simp add: isScreenRecordProtectionEnabled_def setScreenRecordProtectionEnabled_def)

section \<open>Focus in dialogs\<close>

text \<open>The focused element: one of the dialog's, by number, its panel, or one outside; \<open>dflt\<close> is where
  the browser would go.\<close>

datatype focus = Item nat | Panel | Elsewhere nat

definition openFocus :: "nat \<Rightarrow> focus" where
  "openFocus n = (if n = 0 then Panel else Item 0)"

definition onTab :: "nat \<Rightarrow> bool \<Rightarrow> focus \<Rightarrow> focus \<Rightarrow> focus" where
  "onTab n shift cur dflt =
     (if n = 0 then Panel
      else if shift \<and> cur = Item 0 then Item (n - 1)
      else if \<not> shift \<and> cur = Item (n - 1) then Item 0
      else dflt)"

text \<open>The browser's own order: to the neighbour, and at the ends out of the dialog.\<close>

definition browserNext :: "nat \<Rightarrow> bool \<Rightarrow> nat \<Rightarrow> focus" where
  "browserNext n shift i = (if shift then (if i = 0 then Elsewhere 0 else Item (i - 1))
     else if Suc i < n then Item (Suc i) else Elsewhere 1)"

text \<open>However often Tab is pressed, in either direction, the focus stays on the dialog's elements.\<close>

lemma focus_stays:
  assumes "0 < n" "i < n"
  shows "\<exists>j < n. foldl (\<lambda>f shift. onTab n shift f (case f of Item k \<Rightarrow> browserNext n shift k | _ \<Rightarrow> f)) (Item i) keys = Item j"
  using assms(2)
proof (induction keys arbitrary: i)
  case Nil
  then show ?case by simp
next
  case (Cons shift keys)
  have "\<exists>j < n. onTab n shift (Item i) (browserNext n shift i) = Item j"
    using Cons.prems by (auto simp: onTab_def browserNext_def)
  then show ?case using Cons.IH by auto
qed

end
