(* ===== verification/SingleFlight.thy ===== *)
theory SingleFlight
  imports EventRuns AuthSession
begin

text \<open>
  Sharing a running attempt (\<^verbatim>\<open>services/auth-session.ts\<close>): \<open>restoreSession\<close> and \<open>reauthenticate\<close>
  keep the promise of the attempt that is under way, give it to every caller that comes meanwhile,
  and forget it when the attempt ends. Attempts are numbered as they start; a caller is a number
  too, and \<open>fl_shares\<close> says whose promise it holds.
\<close>

section \<open>The shared promise\<close>

record 'r flight =
  fl_inFlight :: "nat option"
  fl_started :: nat
  fl_shares :: "nat list"
  fl_ended :: "(error + 'r) list"

definition flightInit :: "'r flight" where
  "flightInit = \<lparr>fl_inFlight = None, fl_started = 0, fl_shares = [], fl_ended = []\<rparr>"

definition share :: "'r flight \<Rightarrow> 'r flight" where
  "share s = (case fl_inFlight s of
     Some n \<Rightarrow> s\<lparr>fl_shares := fl_shares s @ [n]\<rparr>
   | None \<Rightarrow> s\<lparr>fl_inFlight := Some (fl_started s), fl_started := Suc (fl_started s), fl_shares := fl_shares s @ [fl_started s]\<rparr>)"

definition restoreSession :: "bool flight \<Rightarrow> bool flight" where
  "restoreSession = share"

definition reauthenticate :: "bool flight \<Rightarrow> bool flight" where
  "reauthenticate = share"

text \<open>The attempt ends: its \<open>finally\<close> clears the variable, and its promise settles.\<close>

definition attemptEnds :: "error + 'r \<Rightarrow> 'r flight \<Rightarrow> 'r flight" where
  "attemptEnds r s = (case fl_inFlight s of None \<Rightarrow> s
     | Some _ \<Rightarrow> s\<lparr>fl_inFlight := None, fl_ended := fl_ended s @ [r]\<rparr>)"

text \<open>What caller \<open>k\<close> has been told.\<close>

definition told :: "nat \<Rightarrow> 'r flight \<Rightarrow> (error + 'r) option" where
  "told k s = (if k < length (fl_shares s) \<and> fl_shares s ! k < length (fl_ended s)
     then Some (fl_ended s ! (fl_shares s ! k)) else None)"

section \<open>One attempt at a time\<close>

datatype 'r flightEvent = FlCall | FlEnd "error + 'r"

fun flightStep :: "'r flightEvent \<Rightarrow> 'r flight \<Rightarrow> 'r flight" where
  "flightStep FlCall s = share s"
| "flightStep (FlEnd r) s = attemptEnds r s"

definition flightInv :: "'r flight \<Rightarrow> bool" where
  "flightInv s \<longleftrightarrow> fl_inFlight s \<in> {None, Some (length (fl_ended s))} \<and>
     fl_started s = length (fl_ended s) + (if fl_inFlight s = None then 0 else 1) \<and>
     (\<forall>n \<in> set (fl_shares s). n < fl_started s)"

interpretation fl: event_run flightStep "\<lambda>_. True" flightInv
proof
  fix e :: "'r flightEvent" and s :: "'r flight"
  assume "flightInv s"
  then show "flightInv (flightStep e s)"
    by (cases e) (auto simp: flightInv_def share_def attemptEnds_def split: option.splits)
qed

text \<open>Whatever calls and endings interleave, at most one attempt is under way; whoever calls while it
  is, starts nothing and is told its result; and once none is under way, every caller has been
  told the result of an attempt that had not ended when it called.\<close>

lemma one_flight:
  fixes es :: "'r flightEvent list"
  defines "s \<equiv> fold flightStep es flightInit"
  shows "fl_started s \<le> Suc (length (fl_ended s))"
    "fl_inFlight s \<noteq> None \<Longrightarrow> fl_started (share s) = fl_started s"
    "told (length (fl_shares s)) (attemptEnds r (share s)) = Some r"
    "fl_inFlight s = None \<Longrightarrow> k < length (fl_shares s) \<Longrightarrow> told k s \<noteq> None"
proof -
  have inv: "flightInv s" unfolding s_def
    by (rule fl.run_inv) (simp_all add: list_all_iff flightInv_def flightInit_def)
  show "fl_started s \<le> Suc (length (fl_ended s))" using inv by (simp add: flightInv_def split: if_splits)
  show "fl_inFlight s \<noteq> None \<Longrightarrow> fl_started (share s) = fl_started s" by (auto simp: share_def)
  show "told (length (fl_shares s)) (attemptEnds r (share s)) = Some r"
    using inv by (auto simp: flightInv_def share_def attemptEnds_def told_def nth_append split: option.splits)
  show "fl_inFlight s = None \<Longrightarrow> k < length (fl_shares s) \<Longrightarrow> told k s \<noteq> None"
    using inv by (auto simp: flightInv_def told_def)
qed

end
