(* ===== verification/Webauthn.thy ===== *)
theory Webauthn
  imports Applock
begin

text \<open>
  The biometric factor of the app lock (\<^verbatim>\<open>crypto/webauthn-prf.ts\<close>). The browser's authenticator
  is an argument: whether it is there, what it says it can do, and how it answers the two
  ceremonies. With it the two calls that \<open>addBiometric\<close> and \<open>unlockWithBiometric\<close> make are no
  longer open.
\<close>

section \<open>The browser\<close>

text \<open>What a ceremony is asked, as far as this program decides it, and what it gives: the fixed
  options (algorithms, platform attachment, resident key, user verification, one minute) are the
  same in every call.\<close>

record createOptions =
  co_rpId :: string
  co_rpName :: string
  co_userHandle :: bytes
  co_challenge :: bytes
  co_prfSalt :: bytes

record createdCredential =
  cd_rawId :: bytes
  cd_prfEnabled :: bool
  cd_prfFirst :: "bytes option"

record getOptions =
  go_rpId :: string
  go_challenge :: bytes
  go_credId :: bytes
  go_prfSalt :: bytes

text \<open>\<open>Inl\<close> is a rejected promise, \<open>None\<close> where the API may give null or lack a member;
  \<open>av_get\<close> gives the credential's first PRF result.\<close>

record authenticator =
  av_hasCreate :: bool
  av_platform :: "(nat \<Rightarrow> error + bool) option"
  av_capabilities :: "(nat \<Rightarrow> error + (string \<Rightarrow> bool option)) option"
  av_create :: "nat \<Rightarrow> createOptions \<Rightarrow> error + createdCredential option"
  av_get :: "nat \<Rightarrow> getOptions \<Rightarrow> error + bytes option option"

section \<open>The module\<close>

definition RP_NAME :: string where "RP_NAME = ''Privex''"

definition rpId :: "string \<Rightarrow> string" where
  "rpId hostname = hostname"

definition webauthnSupported :: "authenticator \<Rightarrow> nat \<Rightarrow> bool" where
  "webauthnSupported av t =
     (if \<not> av_hasCreate av then False else
      case av_platform av of None \<Rightarrow> False | Some platform \<Rightarrow>
      (case platform t of Inl _ \<Rightarrow> False | Inr False \<Rightarrow> False | Inr True \<Rightarrow>
        (case av_capabilities av of None \<Rightarrow> True | Some capabilities \<Rightarrow>
          (case capabilities t of Inl _ \<Rightarrow> True
           | Inr caps \<Rightarrow> caps ''extension:prf'' \<noteq> Some False \<and> caps ''passkeyPlatformAuthenticator'' \<noteq> Some False))))"

record EnrollResult =
  er_credId :: bytes
  er_prfSalt :: bytes
  er_prfOutput :: bytes

text \<open>A ceremony runs at one point of time; its random values are stretches of the bytes the
  generator gives there: the challenge, the salt, and the challenge of the second ceremony.\<close>

definition randomAt :: "env \<Rightarrow> nat \<Rightarrow> nat \<Rightarrow> bytes" where
  "randomAt E t k = map (rand_byte E t) [32 * k ..< 32 * Suc k]"

definition userHandle :: "string \<Rightarrow> bytes" where
  "userHandle userId = textEncode (take 64 (''privex:'' @ userId))"

definition derivePrfWith :: "authenticator \<Rightarrow> string \<Rightarrow> nat \<Rightarrow> bytes \<Rightarrow> bytes \<Rightarrow> bytes \<Rightarrow> error + bytes" where
  "derivePrfWith av host t challenge credId prfSalt =
     (case av_get av t \<lparr>go_rpId = rpId host, go_challenge = challenge, go_credId = credId, go_prfSalt = prfSalt\<rparr> of
        Inl _ \<Rightarrow> Inl (JsError ''biometric unlock was cancelled or timed out'')
      | Inr None \<Rightarrow> Inl (JsError ''biometric was cancelled'')
      | Inr (Some None) \<Rightarrow> Inl (JsError ''biometric unlock unavailable on this device'')
      | Inr (Some (Some out)) \<Rightarrow> Inr out)"

definition derivePrf :: "env \<Rightarrow> authenticator \<Rightarrow> string \<Rightarrow> nat \<Rightarrow> bytes \<Rightarrow> bytes \<Rightarrow> error + bytes" where
  "derivePrf E av host t credId prfSalt = derivePrfWith av host t (randomAt E t 0) credId prfSalt"

definition enrollWebauthn :: "env \<Rightarrow> authenticator \<Rightarrow> string \<Rightarrow> nat \<Rightarrow> string \<Rightarrow> error + EnrollResult" where
  "enrollWebauthn E av host t userId =
     (let challenge = randomAt E t 0; prfSalt = randomAt E t 1 in
      case av_create av t \<lparr>co_rpId = rpId host, co_rpName = RP_NAME, co_userHandle = userHandle userId,
             co_challenge = challenge, co_prfSalt = prfSalt\<rparr> of
        Inl _ \<Rightarrow> Inl (JsError ''biometric setup was cancelled or timed out - this device may not support it'')
      | Inr None \<Rightarrow> Inl (JsError ''biometric setup was cancelled'')
      | Inr (Some cred) \<Rightarrow>
          if \<not> cd_prfEnabled cred then Inl (JsError (''this device or browser can'' @ CHR 0x27 # ''t use a biometric app-lock'')) else
          bindE (case cd_prfFirst cred of Some first \<Rightarrow> Inr first
                 | None \<Rightarrow> derivePrfWith av host t (randomAt E t 2) (cd_rawId cred) prfSalt) (\<lambda>prfOutput.
          Inr \<lparr>er_credId = cd_rawId cred, er_prfSalt = prfSalt, er_prfOutput = prfOutput\<rparr>))"

text \<open>The calls the app lock makes, on this module.\<close>

definition webauthnOf :: "env \<Rightarrow> authenticator \<Rightarrow> string \<Rightarrow> webauthnApi" where
  "webauthnOf E av host = \<lparr>wa_supported = (\<lambda>t. Inr (webauthnSupported av t)),
     wa_enroll = (\<lambda>t userId. bindE (enrollWebauthn E av host t userId) (\<lambda>r. Inr (er_credId r, er_prfSalt r, er_prfOutput r))),
     wa_derivePrf = derivePrf E av host\<rparr>"

section \<open>The factor comes back\<close>

text \<open>What WebAuthn documents of the PRF extension: a credential evaluates one function, so the
  output depends on the credential and the salt alone, at creation (where it may be left out) as
  later. The user answers when asked.\<close>

definition prf_of :: "authenticator \<Rightarrow> (bytes \<Rightarrow> bytes \<Rightarrow> bytes) \<Rightarrow> bool" where
  "prf_of av prf \<longleftrightarrow>
     (\<forall>t q c. av_create av t q = Inr (Some c) \<longrightarrow> cd_prfFirst c \<in> {None, Some (prf (cd_rawId c) (co_prfSalt q))}) \<and>
     (\<forall>t q. av_get av t q = Inr (Some (Some (prf (go_credId q) (go_prfSalt q)))))"

lemma derive_prf: "prf_of av prf \<Longrightarrow> derivePrfWith av host t ch c s = Inr (prf c s)"
  by (simp add: prf_of_def derivePrfWith_def)

lemma enroll_prf:
  assumes "prf_of av prf" "enrollWebauthn E av host t userId = Inr r"
  shows "er_prfOutput r = prf (er_credId r) (er_prfSalt r)"
proof -
  obtain c where c: "av_create av t \<lparr>co_rpId = rpId host, co_rpName = RP_NAME, co_userHandle = userHandle userId,
      co_challenge = randomAt E t 0, co_prfSalt = randomAt E t 1\<rparr> = Inr (Some c)"
    using assms(2) by (auto simp: enrollWebauthn_def Let_def split: sum.splits option.splits)
  then have "cd_prfFirst c \<in> {None, Some (prf (cd_rawId c) (randomAt E t 1))}"
    using assms(1) unfolding prf_of_def by fastforce
  then show ?thesis using assms(2) c derive_prf [OF assms(1)]
    by (auto simp: enrollWebauthn_def Let_def split: if_splits)
qed

text \<open>What is enrolled is a credential of an authenticator that has the extension, with a fresh salt.\<close>

lemma length_randomAt [simp]: "length (randomAt E t k) = 32"
  by (simp add: randomAt_def)

lemma enroll_needs_prf:
  assumes "enrollWebauthn E av host t userId = Inr r"
  shows "\<exists>q c. av_create av t q = Inr (Some c) \<and> cd_prfEnabled c \<and> er_credId r = cd_rawId c \<and>
    co_prfSalt q = er_prfSalt r \<and> length (er_prfSalt r) = 32"
proof -
  let ?q = "\<lparr>co_rpId = rpId host, co_rpName = RP_NAME, co_userHandle = userHandle userId,
      co_challenge = randomAt E t 0, co_prfSalt = randomAt E t 1\<rparr>"
  obtain c where c: "av_create av t ?q = Inr (Some c)" "cd_prfEnabled c"
    using assms by (auto simp: enrollWebauthn_def Let_def split: sum.splits option.splits if_splits)
  then have "er_credId r = cd_rawId c" "er_prfSalt r = randomAt E t 1"
    using assms by (auto simp: enrollWebauthn_def Let_def bindE_def split: sum.splits option.splits)
  with c show ?thesis by (intro exI [where x = ?q] exI [where x = c]) simp
qed

text \<open>The biometric factor opens the lock again. If the device is unlocked and adding the factor
  succeeds, then on the locked device, which hands out no key, the authenticator alone gives back
  the very data key, as long as it evaluates its credential as documented; the passphrase factor and
  the database are untouched.\<close>

theorem biometric_round_trip:
  assumes "aes_correct E" "prf_of av prf" "memKeyBytes (keystore w) = Some key" "length key = 32"
    "lockMeta (keystore w) = Some m" "addBiometric E (webauthnOf E av host) userId w = (Inr (), w1)"
  shows "\<exists>w2 f. getMasterKey E (snd (lock w1)) = (Inl (JsError ''locked''), snd (lock w1)) \<and>
    unlockWithBiometric E (webauthnOf E av host) (snd (lock w1)) = (Inr (), w2) \<and> getMasterKey E w2 = (Inr key, w2) \<and>
    idb w2 = idb w \<and> lockMeta (keystore w2) = Some (m\<lparr>lm_webauthn := Some f\<rparr>)"
proof -
  have "\<exists>r. enrollWebauthn E av host (tick w) userId = Inr r"
  proof (cases "enrollWebauthn E av host (tick w) userId")
    case (Inl e)
    have "fst (addBiometric E (webauthnOf E av host) userId w) = Inl e"
      using assms(3) Inl by (simp add: addBiometric_def unlockedKeyBytes_def webauthnOf_def)
    then show ?thesis using assms(6) by simp
  qed simp
  then obtain r where r: "enrollWebauthn E av host (tick w) userId = Inr r" by blast
  let ?kek = "prfKEK E (prf (er_credId r) (er_prfSalt r))" and ?t = "Suc (tick w)"
  let ?f = "\<lparr>wf_cred_id = toHex (er_credId r), wf_prf_salt = toHex (er_prfSalt r),
      wf_wrapped = toHex (ivAt E ?t @ aes_enc E ?kek (ivAt E ?t) key)\<rparr>"
  have w1: "w1 = w\<lparr>tick := Suc ?t, keystore := (keystore w)\<lparr>lockMeta := Some (m\<lparr>lm_webauthn := Some ?f\<rparr>)\<rparr>\<rparr>"
    using assms(3,5,6) r enroll_prf [OF assms(2) r]
    by (simp add: addBiometric_def unlockedKeyBytes_def webauthnOf_def getLockMeta_def setLockMeta_def)
  let ?l = "w\<lparr>tick := Suc ?t, keystore := (keystore w)\<lparr>lockMeta := Some (m\<lparr>lm_webauthn := Some ?f\<rparr>), memKey := None, memKeyBytes := None\<rparr>\<rparr>"
  have l: "snd (lock w1) = ?l" by (simp add: w1 lock_def lockNow_def)
  have u: "unlockWithBiometric E (webauthnOf E av host) ?l = (Inr (), ?l\<lparr>tick := Suc (Suc ?t),
      keystore := (keystore ?l)\<lparr>memKey := Some key, memKeyBytes := Some key\<rparr>\<rparr>)"
    using assms(1,4) derive_prf [OF assms(2)]
    by (simp add: unlockWithBiometric_def getLockMeta_def webauthnOf_def derivePrf_def run_aesDecrypt)
  show ?thesis using u unfolding l by (intro exI conjI) (assumption | simp add: run_getMasterKey)+
qed

end
