(* ===== verification/LockLifecycle.thy ===== *)
theory LockLifecycle
  imports Webauthn
begin

text \<open>
  The app lock over its whole life (\<^verbatim>\<open>services/applock.ts\<close>, \<^verbatim>\<open>crypto/keystore.ts\<close>). A vault says
  what the lock promises: data behind an optional passphrase and an optional biometric factor, open
  or closed. Every sequence of the lock's operations, with whatever passphrases and whatever
  the authenticator answers, does what the vault does: the data stays as it was, is at hand
  exactly when the vault is open, and the current passphrase opens it again. That needs the key
  derivation to answer; the last section shows what happens when it does not.
\<close>

section \<open>The vault\<close>

record 'd vault =
  va_data :: 'd
  va_pass :: "string option"
  va_bio :: bool
  va_open :: bool

datatype vaultOp =
    OpEnable string
  | OpLock
  | OpUnlock string
  | OpChange string
  | OpAddBio
  | OpUnlockBio
  | OpRemoveBio
  | OpDisable

text \<open>When an operation may report success, and what it does then; a failure changes nothing. A right
  passphrase may be refused for the delay after wrong ones, and the authenticator may refuse to
  enroll.\<close>

fun vaultStep :: "vaultOp \<Rightarrow> bool \<Rightarrow> 'd vault \<Rightarrow> 'd vault \<Rightarrow> bool" where
  "vaultStep (OpEnable p) ok v v' \<longleftrightarrow> (ok \<longleftrightarrow> MIN_PASSPHRASE \<le> length p \<and> va_pass v = None) \<and>
     v' = (if ok then v\<lparr>va_pass := Some p, va_bio := False, va_open := True\<rparr> else v)"
| "vaultStep OpLock ok v v' \<longleftrightarrow> v' = (if va_pass v = None then v else v\<lparr>va_open := False\<rparr>)"
| "vaultStep (OpUnlock q) ok v v' \<longleftrightarrow> (ok \<longrightarrow> va_pass v = Some q) \<and> v' = (if ok then v\<lparr>va_open := True\<rparr> else v)"
| "vaultStep (OpChange p) ok v v' \<longleftrightarrow> (ok \<longleftrightarrow> MIN_PASSPHRASE \<le> length p \<and> va_pass v \<noteq> None \<and> va_open v) \<and>
     v' = (if ok then v\<lparr>va_pass := Some p\<rparr> else v)"
| "vaultStep OpAddBio ok v v' \<longleftrightarrow> (ok \<longrightarrow> va_pass v \<noteq> None \<and> va_open v) \<and> v' = (if ok then v\<lparr>va_bio := True\<rparr> else v)"
| "vaultStep OpUnlockBio ok v v' \<longleftrightarrow> (ok \<longleftrightarrow> va_bio v) \<and> v' = (if ok then v\<lparr>va_open := True\<rparr> else v)"
| "vaultStep OpRemoveBio ok v v' \<longleftrightarrow> ok \<and> v' = v\<lparr>va_bio := False\<rparr>"
| "vaultStep OpDisable ok v v' \<longleftrightarrow> (ok \<longrightarrow> va_open v) \<and> (va_pass v \<noteq> None \<and> va_open v \<longrightarrow> ok) \<and>
     v' = (if ok then v\<lparr>va_pass := None, va_bio := False, va_open := True\<rparr> else v)"

inductive vaultRuns :: "(vaultOp \<times> bool) list \<Rightarrow> 'd vault \<Rightarrow> 'd vault \<Rightarrow> bool" where
  none: "vaultRuns [] v v"
| more: "vaultStep op ok v u \<Longrightarrow> vaultRuns es u v' \<Longrightarrow> vaultRuns ((op, ok) # es) v v'"

lemma step_keeps_data: "vaultStep op ok v v' \<Longrightarrow> va_data v' = va_data v"
  by (cases op) (auto split: if_splits)

lemma vault_keeps_data: "vaultRuns es v v' \<Longrightarrow> va_data v' = va_data v"
  by (induction rule: vaultRuns.induct) (simp_all add: step_keeps_data)

section \<open>The operations of the lock\<close>

text \<open>The settings offer the lock when it is off and everything else when it is on; closing the page
  does to the key in memory what locking does.\<close>

definition ran :: "'a act \<Rightarrow> world \<Rightarrow> bool \<times> world" where
  "ran m w = (case m w of (r, w') \<Rightarrow> (\<not> isl r, w'))"

definition lockOn :: "world \<Rightarrow> bool" where
  "lockOn w \<longleftrightarrow> lockMeta (keystore w) \<noteq> None"

fun lockOp :: "env \<Rightarrow> AppLockKdf \<Rightarrow> webauthnApi \<Rightarrow> string \<Rightarrow> vaultOp \<Rightarrow> world \<Rightarrow> bool \<times> world" where
  "lockOp E kdf wa uid (OpEnable p) w = (if lockOn w then (False, w) else ran (enableWithPassphrase E kdf p) w)"
| "lockOp E kdf wa uid OpLock w = ran lock w"
| "lockOp E kdf wa uid (OpUnlock q) w = ran (unlockWithPassphrase E kdf q) w"
| "lockOp E kdf wa uid (OpChange p) w = (if lockOn w then ran (changePassphrase E kdf p) w else (False, w))"
| "lockOp E kdf wa uid OpAddBio w = (if lockOn w then ran (addBiometric E wa uid) w else (False, w))"
| "lockOp E kdf wa uid OpUnlockBio w = ran (unlockWithBiometric E wa) w"
| "lockOp E kdf wa uid OpRemoveBio w = ran removeBiometric w"
| "lockOp E kdf wa uid OpDisable w = ran disableLock w"

fun lockRun :: "env \<Rightarrow> AppLockKdf \<Rightarrow> webauthnApi \<Rightarrow> string \<Rightarrow> vaultOp list \<Rightarrow> world \<Rightarrow> (vaultOp \<times> bool) list \<times> world" where
  "lockRun E kdf wa uid [] w = ([], w)"
| "lockRun E kdf wa uid (op # ops) w = (case lockOp E kdf wa uid op w of (ok, w1) \<Rightarrow>
     (case lockRun E kdf wa uid ops w1 of (es, w2) \<Rightarrow> ((op, ok) # es, w2)))"

section \<open>What holds between them\<close>

text \<open>No two of the passphrases in play open the same wrapped key: an authenticated cipher refuses the
  key of another.\<close>

definition separates :: "env \<Rightarrow> AppLockKdf \<Rightarrow> string set \<Rightarrow> bool" where
  "separates E kdf P \<longleftrightarrow>
     (\<forall>p \<in> P. \<forall>q \<in> P. \<forall>f K K'. wraps E kdf p f K \<longrightarrow> wraps E kdf q f K' \<longrightarrow> p = q)"

fun phrases :: "vaultOp \<Rightarrow> string set" where
  "phrases (OpEnable p) = {p}"
| "phrases (OpUnlock p) = {p}"
| "phrases (OpChange p) = {p}"
| "phrases _ = {}"

definition bioWraps :: "env \<Rightarrow> (bytes \<Rightarrow> bytes \<Rightarrow> bytes) \<Rightarrow> WebauthnFactor \<Rightarrow> bytes \<Rightarrow> bool" where
  "bioWraps E prf g K \<longleftrightarrow>
     reads E (prfKEK E (prf (fromHex (wf_cred_id g)) (fromHex (wf_prf_salt g)))) (fromHex (wf_wrapped g)) = Some K"

definition factorsOf :: "env \<Rightarrow> AppLockKdf \<Rightarrow> (bytes \<Rightarrow> bytes \<Rightarrow> bytes) \<Rightarrow> string \<Rightarrow> bool \<Rightarrow> bytes \<Rightarrow> LockMeta option \<Rightarrow> bool" where
  "factorsOf E kdf prf p bio K meta \<longleftrightarrow>
     (\<exists>m f. meta = Some m \<and> lm_passphrase m = Some f \<and> wraps E kdf p f K \<and> (bio \<longleftrightarrow> lm_webauthn m \<noteq> None) \<and>
        (\<forall>g. lm_webauthn m = Some g \<longrightarrow> bioWraps E prf g K))"

definition vaultRel :: "env \<Rightarrow> AppLockKdf \<Rightarrow> (bytes \<Rightarrow> bytes \<Rightarrow> bytes) \<Rightarrow> string set \<Rightarrow> bytes \<Rightarrow> _ vault \<Rightarrow> world \<Rightarrow> bool" where
  "vaultRel E kdf prf P K v w \<longleftrightarrow>
     length K = 32 \<and> dbKeyed (idb w) \<and> dbReadable E K (idb w) \<and> dbView E K (withoutFailures (idb w)) = va_data v \<and>
     memKeyBytes (keystore w) = memKey (keystore w) \<and> memKey (keystore w) \<in> {None, Some K} \<and>
     (case va_pass v of
        None \<Rightarrow> lockMeta (keystore w) = None \<and> masterHandle (keystore w) = Some K \<and> va_open v \<and> \<not> va_bio v
      | Some p \<Rightarrow> p \<in> P \<and> masterHandle (keystore w) = None \<and> (va_open v \<longleftrightarrow> memKey (keystore w) = Some K) \<and>
          factorsOf E kdf prf p (va_bio v) K (lockMeta (keystore w)))"

lemma tdelete_tput [simp]: "tdelete k (tput k r t) = tdelete k t"
  by (induction t) (auto simp: tdelete_def)

text \<open>The counter of failed attempts is no data.\<close>

lemma dbKeyed_settings [simp]: "dbKeyed (d\<lparr>settings_tbl := s\<rparr>) = dbKeyed d"
  and dbReadable_settings [simp]: "dbReadable E k (d\<lparr>settings_tbl := s\<rparr>) = dbReadable E k d"
  by (simp_all add: dbKeyed_def dbReadable_def)

lemma without_simps [simp]:
  "dbKeyed (withoutFailures d) = dbKeyed d" "dbReadable E k (withoutFailures d) = dbReadable E k d"
  "withoutFailures (d\<lparr>settings_tbl := tput FAIL_KEY r (settings_tbl d)\<rparr>) = withoutFailures d"
  by (simp_all add: withoutFailures_def)

text \<open>Being keyed and readable can be told from the view, so re-keying keeps both.\<close>

lemma same_view:
  assumes "viewWith v t = viewWith v' t'"
  shows "(\<forall>(i, r) \<in> set t. P (v r)) \<longleftrightarrow> (\<forall>(i, r) \<in> set t'. P (v' r))"
proof -
  have "(\<forall>(i, r) \<in> set t. P (v r)) \<longleftrightarrow> (\<forall>(i, x) \<in> set (viewWith v t). P x)"
    "(\<forall>(i, r) \<in> set t'. P (v' r)) \<longleftrightarrow> (\<forall>(i, x) \<in> set (viewWith v' t'). P x)"
    by (auto simp: viewWith_def)
  then show ?thesis using assms by simp
qed

lemma readable_view:
  "identityReadable E k r \<longleftrightarrow> snd (identityView E k r) \<noteq> Some None"
  "messageReadable E k m \<longleftrightarrow> fst (snd (messageView E k m)) \<noteq> None \<and> snd (snd (messageView E k m)) \<noteq> Some None"
  "contactReadable E k c \<longleftrightarrow> snd (contactView E k c) \<noteq> Some None"
  "sessionReadable E k s \<longleftrightarrow> fst (snd (sessionView E k s)) \<noteq> None \<and> snd (snd (sessionView E k s)) \<noteq> Some None"
  "blobReadable E k b \<longleftrightarrow> fst (snd (blobView E k b)) \<noteq> None \<and> snd (snd (blobView E k b)) \<noteq> Some None"
  "groupReadable E k g \<longleftrightarrow> fst (snd (groupView E k g)) \<noteq> Some None \<and> snd (snd (groupView E k g)) \<noteq> Some None"
  by (auto simp: readable_defs view_defs readableOpt_def)

lemma dbReadable_view:
  assumes "dbView E nk d = dbView E ok d0"
  shows "dbReadable E nk d = dbReadable E ok d0"
proof -
  have v: "viewWith (identityView E nk) (identity_tbl d) = viewWith (identityView E ok) (identity_tbl d0)"
    "viewWith (messageView E nk) (messages_tbl d) = viewWith (messageView E ok) (messages_tbl d0)"
    "viewWith (contactView E nk) (contacts_tbl d) = viewWith (contactView E ok) (contacts_tbl d0)"
    "viewWith (sessionView E nk) (sessions_tbl d) = viewWith (sessionView E ok) (sessions_tbl d0)"
    "viewWith (blobView E nk) (blobs_tbl d) = viewWith (blobView E ok) (blobs_tbl d0)"
    "viewWith (groupView E nk) (groups_tbl d) = viewWith (groupView E ok) (groups_tbl d0)"
    using assms by (simp_all add: dbView_def)
  show ?thesis unfolding dbReadable_def readable_view
    by (simp only: same_view [OF v(1), where P = "\<lambda>x. snd x \<noteq> Some None"]
        same_view [OF v(2), where P = "\<lambda>x. fst (snd x) \<noteq> None \<and> snd (snd x) \<noteq> Some None"]
        same_view [OF v(3), where P = "\<lambda>x. snd x \<noteq> Some None"]
        same_view [OF v(4), where P = "\<lambda>x. fst (snd x) \<noteq> None \<and> snd (snd x) \<noteq> Some None"]
        same_view [OF v(5), where P = "\<lambda>x. fst (snd x) \<noteq> None \<and> snd (snd x) \<noteq> Some None"]
        same_view [OF v(6), where P = "\<lambda>x. fst (snd x) \<noteq> Some None \<and> snd (snd x) \<noteq> Some None"])
qed

lemma keyedBy_view:
  assumes "viewWith v t = viewWith v' t'" "\<And>r. rid (fst (v r)) = rid r" "\<And>r. rid (fst (v' r)) = rid r"
  shows "keyedBy rid t = keyedBy rid t'"
proof -
  have "map fst t = map fst (viewWith v t)" "map fst t' = map fst (viewWith v' t')" by (simp_all add: viewWith_def o_def case_prod_unfold)
  moreover have "(\<forall>(i, r) \<in> set t. i = rid r) \<longleftrightarrow> (\<forall>(i, x) \<in> set (viewWith v t). i = rid (fst x))"
    "(\<forall>(i, r) \<in> set t'. i = rid r) \<longleftrightarrow> (\<forall>(i, x) \<in> set (viewWith v' t'). i = rid (fst x))"
    using assms(2,3) by (auto simp: viewWith_def)
  ultimately show ?thesis using assms(1) by (simp add: keyedBy_def)
qed

lemma dbKeyed_view:
  assumes "dbView E nk d = dbView E ok d0"
  shows "dbKeyed d = dbKeyed d0"
proof -
  have "keyedBy id_user_id (identity_tbl d) = keyedBy id_user_id (identity_tbl d0)"
    by (rule keyedBy_view [of "identityView E nk" _ "identityView E ok"]) (use assms in \<open>simp_all add: dbView_def view_defs\<close>)
  moreover have "keyedBy m_msg_id (messages_tbl d) = keyedBy m_msg_id (messages_tbl d0)"
    by (rule keyedBy_view [of "messageView E nk" _ "messageView E ok"]) (use assms in \<open>simp_all add: dbView_def view_defs\<close>)
  moreover have "keyedBy c_px_id (contacts_tbl d) = keyedBy c_px_id (contacts_tbl d0)"
    by (rule keyedBy_view [of "contactView E nk" _ "contactView E ok"]) (use assms in \<open>simp_all add: dbView_def view_defs\<close>)
  moreover have "keyedBy se_session_id (sessions_tbl d) = keyedBy se_session_id (sessions_tbl d0)"
    by (rule keyedBy_view [of "sessionView E nk" _ "sessionView E ok"]) (use assms in \<open>simp_all add: dbView_def view_defs\<close>)
  moreover have "keyedBy bl_blob_id (blobs_tbl d) = keyedBy bl_blob_id (blobs_tbl d0)"
    by (rule keyedBy_view [of "blobView E nk" _ "blobView E ok"]) (use assms in \<open>simp_all add: dbView_def view_defs\<close>)
  moreover have "keyedBy g_group_id (groups_tbl d) = keyedBy g_group_id (groups_tbl d0)"
    by (rule keyedBy_view [of "groupView E nk" _ "groupView E ok"]) (use assms in \<open>simp_all add: dbView_def view_defs\<close>)
  ultimately show ?thesis by (simp add: dbKeyed_def)
qed

section \<open>Every operation does what the vault does\<close>

lemma wraps_key: "wraps E kdf p f K \<Longrightarrow> wraps E kdf p f K' \<Longrightarrow> K' = K"
  by (auto simp: wraps_def)

lemma unlock_cases:
  assumes "kdf_answers kdf" "lockMeta (keystore w) = Some m" "lm_passphrase m = Some f"
    "unlockWithPassphrase E kdf q w = (r, w')" "\<And>K'. wraps E kdf q f K' \<Longrightarrow> length K' = 32"
  shows "isl r \<and> keystore w' = keystore w \<and> withoutFailures (idb w') = withoutFailures (idb w) \<or>
    (\<exists>K'. wraps E kdf q f K' \<and> r = Inr () \<and> w' = w\<lparr>tick := Suc (tick w), idb := withoutFailures (idb w),
       keystore := (keystore w)\<lparr>memKey := Some K', memKeyBytes := Some K'\<rparr>\<rparr>)"
proof -
  obtain kek where k: "kdf (textEncode q) (fromHex (pf_salt f)) (pf_m_cost f) (pf_t_cost f) = Inr kek" "length kek = 32"
    using assms(1) unfolding kdf_answers_def by blast
  show ?thesis
  proof (cases "date_now E (tick w) < snd (failOf (idb w))")
    case True
    then have "unlockWithPassphrase E kdf q w = (Inl (JsError (''Too many attempts - wait '' @
       showInt (- ((- (snd (failOf (idb w)) - date_now E (tick w))) div 1000)) @ ''s.'')), w\<lparr>tick := Suc (tick w)\<rparr>)"
      using assms(2,3) by (simp add: unlockWithPassphrase_def getLockMeta_def run_throttle)
    then show ?thesis using assms(4) by auto
  next
    case now: False
    show ?thesis
    proof (cases "reads E kek (fromHex (pf_wrapped f))")
      case None
      then have "fst (unlockWithPassphrase E kdf q w) = Inl (JsError ''Wrong passphrase.'')"
        "keystore (snd (unlockWithPassphrase E kdf q w)) = keystore w"
        "withoutFailures (idb (snd (unlockWithPassphrase E kdf q w))) = withoutFailures (idb w)"
        using assms(2,3) k now by (simp_all add: unlockWithPassphrase_def getLockMeta_def run_throttle run_aesDecrypt run_recordFailure)
      then show ?thesis using assms(4) by auto
    next
      case (Some K')
      then have w: "wraps E kdf q f K'" using k by (simp add: wraps_def)
      show ?thesis using unlockWithPassphrase_right [OF assms(2,3) w assms(5) [OF w]] now assms(4) w by auto
    qed
  qed
qed

lemma change_run:
  assumes "aes_correct E" "kdf_answers kdf" "memKeyBytes (keystore w) = Some K" "lockMeta (keystore w) = Some m"
    "MIN_PASSPHRASE \<le> length p"
  shows "\<exists>f t. changePassphrase E kdf p w = (Inr (), w\<lparr>tick := t, keystore := (keystore w)\<lparr>lockMeta := Some (m\<lparr>lm_passphrase := Some f\<rparr>)\<rparr>\<rparr>) \<and>
    wraps E kdf p f K"
proof -
  obtain f t where f: "wrapPassphrase E kdf K p w = (Inr f, w\<lparr>tick := t\<rparr>)" "wraps E kdf p f K"
    using wrapPassphrase_wraps [OF assms(1,2)] by blast
  then show ?thesis using assms(3-5)
    by (intro exI [where x = f] exI [where x = t]) (simp add: changePassphrase_def unlockedKeyBytes_def getLockMeta_def setLockMeta_def)
qed

lemma addBio_run:
  assumes "aes_correct E" "prf_of av prf" "memKeyBytes (keystore w) = Some K" "lockMeta (keystore w) = Some m"
    "addBiometric E (webauthnOf E av host) uid w = (r, w')"
  shows "isl r \<and> keystore w' = keystore w \<and> idb w' = idb w \<or>
    (\<exists>g t. r = Inr () \<and> w' = w\<lparr>tick := t, keystore := (keystore w)\<lparr>lockMeta := Some (m\<lparr>lm_webauthn := Some g\<rparr>)\<rparr>\<rparr> \<and> bioWraps E prf g K)"
proof (cases "enrollWebauthn E av host (tick w) uid")
  case (Inl e)
  then have "addBiometric E (webauthnOf E av host) uid w = (Inl e, w\<lparr>tick := Suc (tick w)\<rparr>)"
    using assms(3) by (simp add: addBiometric_def unlockedKeyBytes_def webauthnOf_def)
  then show ?thesis using assms(5) by auto
next
  case (Inr c)
  let ?kek = "prfKEK E (er_prfOutput c)" and ?t = "Suc (tick w)"
  let ?g = "\<lparr>wf_cred_id = toHex (er_credId c), wf_prf_salt = toHex (er_prfSalt c),
      wf_wrapped = toHex (ivAt E ?t @ aes_enc E ?kek (ivAt E ?t) K)\<rparr>"
  have "addBiometric E (webauthnOf E av host) uid w =
      (Inr (), w\<lparr>tick := Suc ?t, keystore := (keystore w)\<lparr>lockMeta := Some (m\<lparr>lm_webauthn := Some ?g\<rparr>)\<rparr>\<rparr>)"
    using assms(3,4) Inr by (simp add: addBiometric_def unlockedKeyBytes_def webauthnOf_def getLockMeta_def setLockMeta_def)
  moreover have "bioWraps E prf ?g K" using assms(1) enroll_prf [OF assms(2) Inr] by (simp add: bioWraps_def)
  ultimately show ?thesis using assms(5) by auto
qed

lemma unlockBio_run:
  assumes "prf_of av prf" "lockMeta (keystore w) = Some m" "lm_webauthn m = Some g" "bioWraps E prf g K" "length K = 32"
  shows "unlockWithBiometric E (webauthnOf E av host) w = (Inr (), w\<lparr>tick := Suc (tick w),
    keystore := (keystore w)\<lparr>memKey := Some K, memKeyBytes := Some K\<rparr>\<rparr>)"
  using assms(2-5) derive_prf [OF assms(1)]
  by (simp add: unlockWithBiometric_def getLockMeta_def webauthnOf_def derivePrf_def run_aesDecrypt bioWraps_def)

lemma rel_off: "vaultRel E kdf prf P K v w \<Longrightarrow> lockOn w \<longleftrightarrow> va_pass v \<noteq> None"
  by (auto simp: vaultRel_def lockOn_def factorsOf_def split: option.splits)

lemma rel_key: "vaultRel E kdf prf P K v w \<Longrightarrow> va_open v \<Longrightarrow> keyOf w = Some K"
  by (auto simp: vaultRel_def keyOf_def ksKey_def split: option.splits)

lemma rel_same:
  assumes "vaultRel E kdf prf P K v w" "keystore w' = keystore w" "withoutFailures (idb w') = withoutFailures (idb w)"
  shows "vaultRel E kdf prf P K v w'"
proof -
  have "dbKeyed (idb w') = dbKeyed (idb w)" "dbReadable E K (idb w') = dbReadable E K (idb w)"
    using assms(3) without_simps(1,2) by metis+
  then show ?thesis using assms unfolding vaultRel_def by (auto split: option.splits)
qed

lemma sim_enable:
  assumes "aes_correct E" "kdf_answers kdf" "p \<in> P" "vaultRel E kdf prf P K v w" "lockOp E kdf wa uid (OpEnable p) w = (ok, w')"
  shows "\<exists>K' v'. vaultStep (OpEnable p) ok v v' \<and> vaultRel E kdf prf P K' v' w'"
proof (cases "\<not> lockOn w \<and> MIN_PASSPHRASE \<le> length p")
  case False
  then have "\<not> ok \<and> w' = w" using assms(5) by (auto simp: ran_def enableWithPassphrase_def split: if_splits)
  then show ?thesis using assms(4) False rel_off [OF assms(4)] by auto
next
  case True
  then have pass: "va_pass v = None" using rel_off [OF assms(4)] by simp
  then have op: "va_open v" using assms(4) by (simp add: vaultRel_def)
  let ?nk = "map (rand_byte E (tick w)) [0..<32]"
  have db: "dbKeyed (idb w)" "dbReadable E K (idb w)" using assms(4) by (simp_all add: vaultRel_def)
  obtain t d f where en: "enableWithPassphrase E kdf p w = (Inr (), w\<lparr>tick := t, idb := withoutFailures d, keystore :=
      \<lparr>memKey = Some ?nk, memKeyBytes = Some ?nk, masterHandle = None,
       lockMeta = Some \<lparr>lm_passphrase = Some f, lm_webauthn = None\<rparr>\<rparr>\<rparr>)"
    and f: "wraps E kdf p f ?nk" and view: "dbView E ?nk d = dbView E K (idb w)"
    using enable_run [OF assms(1,2) conjunct2 [OF True] rel_key [OF assms(4) op] db] by blast
  have w': "ok" "w' = w\<lparr>tick := t, idb := withoutFailures d, keystore :=
      \<lparr>memKey = Some ?nk, memKeyBytes = Some ?nk, masterHandle = None,
       lockMeta = Some \<lparr>lm_passphrase = Some f, lm_webauthn = None\<rparr>\<rparr>\<rparr>"
    using assms(5) True en by (auto simp: ran_def)
  have "dbView E ?nk (withoutFailures d) = va_data v"
    using view assms(4) by (simp add: dbView_without vaultRel_def)
  then have "vaultRel E kdf prf P ?nk (v\<lparr>va_pass := Some p, va_bio := False, va_open := True\<rparr>) w'"
    using w' f assms(3) db dbReadable_view [OF view] dbKeyed_view [OF view] by (simp add: vaultRel_def factorsOf_def)
  then show ?thesis using w'(1) True pass by (intro exI conjI) (auto intro: exI)
qed

lemma sim_unlock:
  assumes "kdf_answers kdf" "separates E kdf P" "q \<in> P" "vaultRel E kdf prf P K v w" "lockOp E kdf wa uid (OpUnlock q) w = (ok, w')"
  shows "\<exists>v'. vaultStep (OpUnlock q) ok v v' \<and> vaultRel E kdf prf P K v' w'"
proof (cases "va_pass v")
  case None
  then have "\<not> ok \<and> w' = w" using assms(4,5) by (auto simp: ran_def vaultRel_def unlockWithPassphrase_def getLockMeta_def)
  then show ?thesis using assms(4) by auto
next
  case (Some p)
  then obtain m f where f: "lockMeta (keystore w) = Some m" "lm_passphrase m = Some f" "wraps E kdf p f K" "p \<in> P"
    using assms(4) by (auto simp: vaultRel_def factorsOf_def)
  have own: "q = p \<and> K' = K" if "wraps E kdf q f K'" for K'
  proof -
    have "q = p" using assms(2,3) f(3,4) that unfolding separates_def by blast
    then show ?thesis using wraps_key [OF f(3)] that by blast
  qed
  obtain r u where u: "unlockWithPassphrase E kdf q w = (r, u)" by fastforce
  have l: "length K = 32" using assms(4) by (simp add: vaultRel_def)
  from unlock_cases [OF assms(1) f(1,2) u] own l
  consider "isl r" "keystore u = keystore w" "withoutFailures (idb u) = withoutFailures (idb w)"
    | "q = p" "r = Inr ()" "u = w\<lparr>tick := Suc (tick w), idb := withoutFailures (idb w),
        keystore := (keystore w)\<lparr>memKey := Some K, memKeyBytes := Some K\<rparr>\<rparr>" by blast
  then show ?thesis
  proof cases
    case 1
    then have "\<not> ok" "vaultRel E kdf prf P K v w'" using assms(4,5) u rel_same [OF assms(4) 1(2,3)] by (auto simp: ran_def)
    then show ?thesis by auto
  next
    case 2
    have "vaultRel E kdf prf P K (v\<lparr>va_open := True\<rparr>) u"
      using assms(4) 2 Some by (simp add: vaultRel_def)
    then show ?thesis using 2 assms(5) u Some by (auto simp: ran_def)
  qed
qed

lemma sim_lock:
  assumes "vaultRel E kdf prf P K v w" "lockOp E kdf wa uid OpLock w = (ok, w')"
  shows "\<exists>v'. vaultStep OpLock ok v v' \<and> vaultRel E kdf prf P K v' w'"
  using assms by (cases "va_pass v") (auto simp: ran_def lock_def lockNow_def vaultRel_def)

lemma rel_bytes:
  assumes "vaultRel E kdf prf P K v w" "va_pass v \<noteq> None"
  shows "memKeyBytes (keystore w) = (if va_open v then Some K else None)"
  using assms by (auto simp: vaultRel_def)

lemma rel_meta:
  assumes "vaultRel E kdf prf P K v w" "va_pass v = Some p"
  obtains m f where "lockMeta (keystore w) = Some m" "lm_passphrase m = Some f" "wraps E kdf p f K" "p \<in> P"
    "va_bio v \<longleftrightarrow> lm_webauthn m \<noteq> None" "\<And>g. lm_webauthn m = Some g \<Longrightarrow> bioWraps E prf g K"
  using assms by (auto simp: vaultRel_def factorsOf_def)

lemma sim_change:
  assumes "aes_correct E" "kdf_answers kdf" "p \<in> P" "vaultRel E kdf prf P K v w" "lockOp E kdf wa uid (OpChange p) w = (ok, w')"
  shows "\<exists>v'. vaultStep (OpChange p) ok v v' \<and> vaultRel E kdf prf P K v' w'"
proof (cases "lockOn w \<and> va_open v \<and> MIN_PASSPHRASE \<le> length p")
  case False
  have "\<not> ok \<and> w' = w"
  proof (cases "lockOn w")
    case True
    then have "va_pass v \<noteq> None" using rel_off [OF assms(4)] by simp
    then show ?thesis using assms(5) True False rel_bytes [OF assms(4)]
      by (auto simp: ran_def changePassphrase_def unlockedKeyBytes_def split: if_splits)
  qed (use assms(5) in simp)
  then show ?thesis using assms(4) False rel_off [OF assms(4)] by auto
next
  case True
  then obtain q where q: "va_pass v = Some q" using rel_off [OF assms(4)] by blast
  obtain m f where m: "lockMeta (keystore w) = Some m" "va_bio v \<longleftrightarrow> lm_webauthn m \<noteq> None"
    "\<And>g. lm_webauthn m = Some g \<Longrightarrow> bioWraps E prf g K" using rel_meta [OF assms(4) q] by metis
  obtain f' t where c: "changePassphrase E kdf p w = (Inr (), w\<lparr>tick := t, keystore := (keystore w)\<lparr>lockMeta := Some (m\<lparr>lm_passphrase := Some f'\<rparr>)\<rparr>\<rparr>)"
    "wraps E kdf p f' K" using change_run [OF assms(1,2) _ m(1), of K p] rel_bytes [OF assms(4)] q True by auto
  have "vaultRel E kdf prf P K (v\<lparr>va_pass := Some p\<rparr>) (w\<lparr>tick := t, keystore := (keystore w)\<lparr>lockMeta := Some (m\<lparr>lm_passphrase := Some f'\<rparr>)\<rparr>\<rparr>)"
    using assms(3,4) q m c(2) by (auto simp: vaultRel_def factorsOf_def)
  then show ?thesis using assms(5) True c(1) q by (auto simp: ran_def)
qed

lemma sim_addBio:
  assumes "aes_correct E" "prf_of av prf" "vaultRel E kdf prf P K v w" "lockOp E kdf (webauthnOf E av host) uid OpAddBio w = (ok, w')"
  shows "\<exists>v'. vaultStep OpAddBio ok v v' \<and> vaultRel E kdf prf P K v' w'"
proof (cases "lockOn w \<and> va_open v")
  case False
  have "\<not> ok \<and> w' = w"
  proof (cases "lockOn w")
    case True
    then have "va_pass v \<noteq> None" using rel_off [OF assms(3)] by simp
    then show ?thesis using assms(4) True False rel_bytes [OF assms(3)]
      by (auto simp: ran_def addBiometric_def unlockedKeyBytes_def split: if_splits)
  qed (use assms(4) in simp)
  then show ?thesis using assms(3) by auto
next
  case True
  then obtain q where q: "va_pass v = Some q" using rel_off [OF assms(3)] by blast
  obtain m f where m: "lockMeta (keystore w) = Some m" "lm_passphrase m = Some f" "wraps E kdf q f K" "q \<in> P"
    using rel_meta [OF assms(3) q] by metis
  obtain r u where u: "addBiometric E (webauthnOf E av host) uid w = (r, u)" by fastforce
  have "memKeyBytes (keystore w) = Some K" using rel_bytes [OF assms(3)] q True by simp
  from addBio_run [OF assms(1,2) this m(1) u]
  consider "isl r" "keystore u = keystore w" "idb u = idb w"
    | g t where "r = Inr ()" "u = w\<lparr>tick := t, keystore := (keystore w)\<lparr>lockMeta := Some (m\<lparr>lm_webauthn := Some g\<rparr>)\<rparr>\<rparr>" "bioWraps E prf g K"
    by blast
  then show ?thesis
  proof cases
    case 1
    then have "\<not> ok" "vaultRel E kdf prf P K v w'" using assms(4) True u rel_same [OF assms(3) 1(2)] by (auto simp: ran_def)
    then show ?thesis by auto
  next
    case 2
    have "vaultRel E kdf prf P K (v\<lparr>va_bio := True\<rparr>) u" using assms(3) q m 2(2,3) by (auto simp: vaultRel_def factorsOf_def)
    then show ?thesis using assms(4) True u 2(1) q by (auto simp: ran_def)
  qed
qed

lemma sim_unlockBio:
  assumes "prf_of av prf" "vaultRel E kdf prf P K v w" "lockOp E kdf (webauthnOf E av host) uid OpUnlockBio w = (ok, w')"
  shows "\<exists>v'. vaultStep OpUnlockBio ok v v' \<and> vaultRel E kdf prf P K v' w'"
proof (cases "va_bio v")
  case False
  have "Option.bind (lockMeta (keystore w)) lm_webauthn = None"
    using assms(2) False by (cases "va_pass v") (auto simp: vaultRel_def factorsOf_def)
  then have "\<not> ok \<and> w' = w" using assms(3) by (auto simp: ran_def unlockWithBiometric_def getLockMeta_def)
  then show ?thesis using assms(2) False by auto
next
  case True
  then obtain q where q: "va_pass v = Some q" using assms(2) by (auto simp: vaultRel_def split: option.splits)
  obtain m f where m: "lockMeta (keystore w) = Some m" "va_bio v \<longleftrightarrow> lm_webauthn m \<noteq> None"
    "\<And>g. lm_webauthn m = Some g \<Longrightarrow> bioWraps E prf g K" using rel_meta [OF assms(2) q] by metis
  then obtain g where g: "lm_webauthn m = Some g" "bioWraps E prf g K" using True by auto
  have "length K = 32" using assms(2) by (simp add: vaultRel_def)
  note u = unlockBio_run [OF assms(1) m(1) g this, of host]
  have "vaultRel E kdf prf P K (v\<lparr>va_open := True\<rparr>) w'" using assms(2,3) q u by (auto simp: ran_def vaultRel_def)
  then show ?thesis using assms(3) u True by (auto simp: ran_def)
qed

lemma sim_removeBio:
  assumes "vaultRel E kdf prf P K v w" "lockOp E kdf wa uid OpRemoveBio w = (ok, w')"
  shows "\<exists>v'. vaultStep OpRemoveBio ok v v' \<and> vaultRel E kdf prf P K v' w'"
  using assms by (cases "va_pass v")
    (auto simp: ran_def removeBiometric_def getLockMeta_def setLockMeta_def vaultRel_def factorsOf_def)

lemma sim_disable:
  assumes "vaultRel E kdf prf P K v w" "lockOp E kdf wa uid OpDisable w = (ok, w')"
  shows "\<exists>v'. vaultStep OpDisable ok v v' \<and> vaultRel E kdf prf P K v' w'"
proof (cases "memKeyBytes (keystore w)")
  case None
  then have "\<not> ok \<and> w' = w" using assms(2) by (auto simp: ran_def disableLock_def unlockedKeyBytes_def)
  then show ?thesis using assms(1) None rel_bytes [OF assms(1)] by auto
next
  case (Some k)
  then have k: "k = K" "va_open v" "length K = 32" using assms(1) by (auto simp: vaultRel_def split: option.splits)
  have "disableLock w = (Inr (), w\<lparr>idb := withoutFailures (idb w), keystore := (keystore w)\<lparr>masterHandle := Some K, lockMeta := None\<rparr>\<rparr>)"
    using Some k by (simp add: disableLock_def unlockedKeyBytes_def setNoLockHandle_def clearLockMeta_def importDataKey_def)
  then show ?thesis using assms k by (auto simp: ran_def vaultRel_def)
qed

lemma lockOp_sim:
  assumes "aes_correct E" "kdf_answers kdf" "prf_of av prf" "separates E kdf P" "phrases op \<subseteq> P"
    "vaultRel E kdf prf P K v w" "lockOp E kdf (webauthnOf E av host) uid op w = (ok, w')"
  shows "\<exists>K' v'. vaultStep op ok v v' \<and> vaultRel E kdf prf P K' v' w'"
proof (cases op)
  case (OpEnable p)
  have "p \<in> P" "lockOp E kdf (webauthnOf E av host) uid (OpEnable p) w = (ok, w')" using assms(5,7) OpEnable by simp_all
  from sim_enable [OF assms(1,2) this(1) assms(6) this(2)] show ?thesis unfolding OpEnable by blast
next
  case (OpUnlock p)
  have "p \<in> P" "lockOp E kdf (webauthnOf E av host) uid (OpUnlock p) w = (ok, w')" using assms(5,7) OpUnlock by simp_all
  from sim_unlock [OF assms(2,4) this(1) assms(6) this(2)] show ?thesis unfolding OpUnlock by blast
next
  case (OpChange p)
  have "p \<in> P" "lockOp E kdf (webauthnOf E av host) uid (OpChange p) w = (ok, w')" using assms(5,7) OpChange by simp_all
  from sim_change [OF assms(1,2) this(1) assms(6) this(2)] show ?thesis unfolding OpChange by blast
next
  case OpLock
  show ?thesis using sim_lock [OF assms(6) assms(7) [unfolded OpLock]] unfolding OpLock by blast
next
  case OpAddBio
  show ?thesis using sim_addBio [OF assms(1,3,6) assms(7) [unfolded OpAddBio]] unfolding OpAddBio by blast
next
  case OpUnlockBio
  show ?thesis using sim_unlockBio [OF assms(3,6) assms(7) [unfolded OpUnlockBio]] unfolding OpUnlockBio by blast
next
  case OpRemoveBio
  show ?thesis using sim_removeBio [OF assms(6) assms(7) [unfolded OpRemoveBio]] unfolding OpRemoveBio by blast
next
  case OpDisable
  show ?thesis using sim_disable [OF assms(6) assms(7) [unfolded OpDisable]] unfolding OpDisable by blast
qed

lemma lockRun_sim:
  assumes "aes_correct E" "kdf_answers kdf" "prf_of av prf" "separates E kdf P" "\<forall>op \<in> set ops. phrases op \<subseteq> P"
    "vaultRel E kdf prf P K v w" "lockRun E kdf (webauthnOf E av host) uid ops w = (es, w')"
  shows "\<exists>K' v'. vaultRuns es v v' \<and> vaultRel E kdf prf P K' v' w'"
  using assms(5-7)
proof (induction ops arbitrary: K v w es)
  case Nil
  then show ?case by (auto intro: vaultRuns.none)
next
  case (Cons op ops)
  obtain ok w1 where o: "lockOp E kdf (webauthnOf E av host) uid op w = (ok, w1)" by fastforce
  obtain es1 where r: "lockRun E kdf (webauthnOf E av host) uid ops w1 = (es1, w')" "es = (op, ok) # es1"
    using Cons.prems(3) o by (auto split: prod.splits)
  obtain K1 v1 where s: "vaultStep op ok v v1" "vaultRel E kdf prf P K1 v1 w1"
    using lockOp_sim [OF assms(1-4) _ Cons.prems(2) o] Cons.prems(1) by auto
  obtain K' v' where "vaultRuns es1 v1 v'" "vaultRel E kdf prf P K' v' w'"
    using Cons.IH [OF _ s(2) r(1)] Cons.prems(1) by auto
  then show ?case using s(1) r(2) by (blast intro: vaultRuns.more)
qed

section \<open>The whole life of a lock\<close>

text \<open>A device that has its data key and no lock yet.\<close>

definition noLock :: "env \<Rightarrow> bytes \<Rightarrow> world \<Rightarrow> bool" where
  "noLock E K w \<longleftrightarrow> keystore w = \<lparr>memKey = None, memKeyBytes = None, masterHandle = Some K, lockMeta = None\<rparr> \<and> length K = 32 \<and>
     dbKeyed (idb w) \<and> dbReadable E K (idb w)"


section \<open>When the key derivation does not answer\<close>

text \<open>Enabling re-encrypts the database first and wraps the new key afterwards. If Argon2id fails then
  (it needs 32 MiB, or the crypto module did not load), the call throws with the database
  under the new key, which is in memory only, and no lock set. Once the page is closed, the key
  that is handed out is the old one, and nothing that was encrypted can be read again.\<close>

lemma enable_without_kdf_loses_data:
  assumes "aes_correct E" "MIN_PASSPHRASE \<le> length p" "noLock E K w" "\<And>s m t. kdf (textEncode p) s m t = Inl e"
  shows "\<exists>w1 nk. enableWithPassphrase E kdf p w = (Inl e, w1) \<and> nk = map (rand_byte E (tick w)) [0..<32] \<and>
    dbView E nk (idb w1) = dbView E K (idb w) \<and>
    keystore (snd (lock w1)) = keystore w \<and> getMasterKey E (snd (lock w1)) = (Inr K, snd (lock w1))"
proof -
  let ?nk = "map (rand_byte E (tick w)) [0..<32]"
  have k: "keyOf w = Some K" "dbKeyed (idb w)" "dbReadable E K (idb w)" using assms(3) by (simp_all add: noLock_def keyOf_def ksKey_def)
  obtain t d where rk: "rekeyAllEncryptedFields E K ?nk (w\<lparr>tick := Suc (tick w)\<rparr>) = (Inr (), w\<lparr>tick := t, idb := d\<rparr>)"
    and view: "dbView E ?nk d = dbView E K (idb w)"
    using rekey_run [OF assms(1), of "w\<lparr>tick := Suc (tick w)\<rparr>" K ?nk] k(2,3) by auto
  let ?w1 = "w\<lparr>tick := Suc t, idb := d, keystore := (keystore w)\<lparr>memKey := Some ?nk, memKeyBytes := Some ?nk\<rparr>\<rparr>"
  have "enableWithPassphrase E kdf p w = (Inl e, ?w1)"
    using assms(2,4) getMasterKey_keyOf [OF k(1)] rk by (simp add: enableWithPassphrase_def wrapPassphrase_def)
  moreover have "keystore (snd (lock ?w1)) = keystore w" using assms(3) by (simp add: noLock_def lock_def lockNow_def)
  moreover have "getMasterKey E (snd (lock ?w1)) = (Inr K, snd (lock ?w1))"
    using assms(3) by (simp add: noLock_def lock_def lockNow_def run_getMasterKey)
  ultimately show ?thesis using view by auto
qed

end
