(* ===== verification/CryptoTable.thy ===== *)
theory CryptoTable
  imports CryptoRpc Sending Recovery DeviceLink Applock KeyWatch Onboarding TimeSync
begin

text \<open>
  What the crypto worker answers (\<^verbatim>\<open>workers/crypto.worker.ts\<close>, \<^verbatim>\<open>crypto/wasm.ts\<close>): the table of
  handlers over untyped argument lists, the exports it falls back to, the module that is loaded
  once, and the calls the services make. The services' own theories call the wrappers directly;
  the last section shows that this is what comes back through the table.
\<close>

section \<open>Values on the port\<close>

text \<open>The values that cross the port, one constructor per type the wrappers exchange.\<close>

datatype cval =
    VUndefined
  | VBytes bytes
  | VString string
  | VNumber int
  | VBool bool
  | VBytesList "bytes list"
  | VIdentity IdentityBundle
  | VOpaqueStart OpaqueStart
  | VOpaqueFinish OpaqueFinish
  | VOpaqueLogin OpaqueLoginResult
  | VSig HybridSig
  | VSignedSpk SignedSpk
  | VOpks "PreKey list"
  | VArgon PowArgon
  | VPow PowResult
  | VKeyBundle KeyBundleResp
  | VVerified VerifiedBundle
  | VPqxdhBundle PqxdhBundleInput
  | VPqxdhInit PqxdhInit
  | VPqxdhFields PqxdhInitFields
  | VEncrypted RatchetEncrypted
  | VDecrypted RatchetDecrypted
  | VOpened SealedOpened
  | VWrapped WrappedCek
  | VKeypair keypair

text \<open>\<open>args[i]\<close>, and the casts of the table. A cast is not checked when the code runs; what a handler
  does with a value of another type is an error here, and the property below shows that no call
  of the program gets there.\<close>

definition arg :: "cval list \<Rightarrow> nat \<Rightarrow> cval" where
  "arg a i = (if i < length a then a ! i else VUndefined)"

definition badCast :: error where
  "badCast = JsError ''TypeError''"

definition asBytes :: "cval \<Rightarrow> error + bytes" where
  "asBytes v = (case v of VBytes b \<Rightarrow> Inr b | _ \<Rightarrow> Inl badCast)"

definition asString :: "cval \<Rightarrow> error + string" where
  "asString v = (case v of VString s \<Rightarrow> Inr s | _ \<Rightarrow> Inl badCast)"

definition asNumber :: "cval \<Rightarrow> error + int" where
  "asNumber v = (case v of VNumber n \<Rightarrow> Inr n | _ \<Rightarrow> Inl badCast)"

definition asArgon :: "cval \<Rightarrow> error + PowArgon option" where
  "asArgon v = (case v of VUndefined \<Rightarrow> Inr None | VArgon a \<Rightarrow> Inr (Some a) | _ \<Rightarrow> Inl badCast)"

definition asKeyBundle :: "cval \<Rightarrow> error + KeyBundleResp" where
  "asKeyBundle v = (case v of VKeyBundle k \<Rightarrow> Inr k | _ \<Rightarrow> Inl badCast)"

definition asPqxdhBundle :: "cval \<Rightarrow> error + PqxdhBundleInput" where
  "asPqxdhBundle v = (case v of VPqxdhBundle b \<Rightarrow> Inr b | _ \<Rightarrow> Inl badCast)"

definition asPqxdhFields :: "cval \<Rightarrow> error + PqxdhInitFields" where
  "asPqxdhFields v = (case v of VPqxdhFields f \<Rightarrow> Inr f | _ \<Rightarrow> Inl badCast)"

definition asBytesList :: "cval \<Rightarrow> error + bytes list" where
  "asBytesList v = (case v of VBytesList bs \<Rightarrow> Inr bs | _ \<Rightarrow> Inl badCast)"

lemmas cast_defs = asBytes_def asString_def asNumber_def asArgon_def asKeyBundle_def asPqxdhBundle_def
  asPqxdhFields_def asBytesList_def

definition ok :: "('a \<Rightarrow> cval) \<Rightarrow> error + 'a \<Rightarrow> error + cval" where
  "ok c r = bindE r (\<lambda>x. Inr (c x))"

section \<open>The table of handlers\<close>

text \<open>Handlers are run by a worker with its own randomness, read at \<open>t\<close>; \<open>progress\<close> are the numbers
  the solver reports on its way.\<close>

definition noProgress :: "('v list \<Rightarrow> error + 'v) \<Rightarrow> 'v handler" where
  "noProgress f = (\<lambda>a. ([], f a))"

definition identityHandlers :: "wasmModule \<Rightarrow> nat \<Rightarrow> (string \<times> cval handler) list" where
  "identityHandlers W t =
   [(''gen_identity'', noProgress (\<lambda>a. bindE (asBytes (arg a 0)) (\<lambda>e. ok VIdentity (genIdentityBundle W t e)))),
    (''recover_bundle'', noProgress (\<lambda>a. bindE (asBytes (arg a 0)) (\<lambda>s. ok VIdentity (recoverBundleFromSeed W t s)))),
    (''opaque_login_start'', noProgress (\<lambda>a. bindE (asString (arg a 0)) (\<lambda>pw. ok VOpaqueStart (opaqueLoginStart W t pw)))),
    (''opaque_login_finish'', noProgress (\<lambda>a. bindE (asBytes (arg a 0)) (\<lambda>cs. bindE (asBytes (arg a 1)) (\<lambda>sr.
        bindE (asString (arg a 2)) (\<lambda>pw. ok VOpaqueLogin (opaqueLoginFinish W t cs sr pw)))))),
    (''opaque_reg_start'', noProgress (\<lambda>a. bindE (asString (arg a 0)) (\<lambda>pw. ok VOpaqueStart (opaqueRegStart W t pw)))),
    (''opaque_reg_finish'', noProgress (\<lambda>a. bindE (asBytes (arg a 0)) (\<lambda>cs. bindE (asBytes (arg a 1)) (\<lambda>sr.
        bindE (asBytes (arg a 2)) (\<lambda>km. bindE (asString (arg a 3)) (\<lambda>pw.
        ok VOpaqueFinish (opaqueRegFinish W t cs sr km pw))))))),
    (''sign_challenge'', noProgress (\<lambda>a. bindE (asBytes (arg a 0)) (\<lambda>ch. bindE (asString (arg a 1)) (\<lambda>uid.
        bindE (asNumber (arg a 2)) (\<lambda>ts. bindE (asBytes (arg a 3)) (\<lambda>ed. bindE (asBytes (arg a 4)) (\<lambda>dil.
        ok VSig (signHybrid W t (challengeSigningInput ch uid ts) ed dil)))))))),
    (''generate_signed_spk'', noProgress (\<lambda>a. bindE (asBytes (arg a 0)) (\<lambda>ed. bindE (asBytes (arg a 1)) (\<lambda>dil.
        ok VSignedSpk (generateSignedSpk W t ed dil))))),
    (''generate_opks'', noProgress (\<lambda>a. bindE (asNumber (arg a 0)) (\<lambda>start. bindE (asNumber (arg a 1)) (\<lambda>count.
        ok VOpks (generateOpks W t start (nat count))))))]"

definition powHandler :: "wasmModule \<Rightarrow> (cval list \<Rightarrow> nat list) \<Rightarrow> nat \<Rightarrow> (string \<times> cval handler) list" where
  "powHandler W progress t =
   [(''solve_pow'', \<lambda>a. (progress a, bindE (asBytes (arg a 0)) (\<lambda>c. bindE (asNumber (arg a 1)) (\<lambda>d.
        bindE (asArgon (arg a 2)) (\<lambda>p. ok VPow (solvePow W t c d p))))))]"

definition messageHandlers :: "wasmModule \<Rightarrow> nat \<Rightarrow> (string \<times> cval handler) list" where
  "messageHandlers W t =
   [(''verify_bundle'', noProgress (\<lambda>a. bindE (asString (arg a 0)) (\<lambda>pin. bindE (asKeyBundle (arg a 1)) (\<lambda>resp.
        ok VVerified (verifyBundle W pin resp))))),
    (''pqxdh_initiate'', noProgress (\<lambda>a. bindE (asBytes (arg a 0)) (\<lambda>priv. bindE (asPqxdhBundle (arg a 1)) (\<lambda>b.
        ok VPqxdhInit (pqxdhInitiate W t priv b))))),
    (''ratchet_encrypt'', noProgress (\<lambda>a. bindE (asBytes (arg a 0)) (\<lambda>s. bindE (asBytes (arg a 1)) (\<lambda>p.
        ok VEncrypted (ratchetEncrypt W t s p))))),
    (''ratchet_decrypt'', noProgress (\<lambda>a. bindE (asBytes (arg a 0)) (\<lambda>s. bindE (asBytes (arg a 1)) (\<lambda>c.
        bindE (asBytes (arg a 2)) (\<lambda>h. ok VDecrypted (ratchetDecrypt W t s c h)))))),
    (''ratchet_init_bob'', noProgress (\<lambda>a. bindE (asBytes (arg a 0)) (\<lambda>sh. bindE (asBytes (arg a 1)) (\<lambda>sp.
        bindE (asBytes (arg a 2)) (\<lambda>pub. ok VBytes (ratchetInitBob W t sh sp pub)))))),
    (''generate_sender_cert'', noProgress (\<lambda>a. bindE (asString (arg a 0)) (\<lambda>i. bindE (asBytes (arg a 1)) (\<lambda>ep.
        bindE (asBytes (arg a 2)) (\<lambda>eP. bindE (asBytes (arg a 3)) (\<lambda>dp. bindE (asBytes (arg a 4)) (\<lambda>dP.
        bindE (asBytes (arg a 5)) (\<lambda>xP. bindE (asNumber (arg a 6)) (\<lambda>n. bindE (asNumber (arg a 7)) (\<lambda>v.
        ok VBytes (generateSenderCert W t i ep eP dp dP xP n v))))))))))),
    (''sealed_sender_encrypt'', noProgress (\<lambda>a. bindE (asBytes (arg a 0)) (\<lambda>m. bindE (asBytes (arg a 1)) (\<lambda>c.
        bindE (asBytes (arg a 2)) (\<lambda>r. ok VBytes (sealedSenderEncrypt W t m c r)))))),
    (''sealed_sender_decrypt'', noProgress (\<lambda>a. bindE (asBytes (arg a 0)) (\<lambda>b. bindE (asBytes (arg a 1)) (\<lambda>k.
        bindE (asNumber (arg a 2)) (\<lambda>n. ok VOpened (sealedSenderDecrypt W t b k n)))))),
    (''pqxdh_respond'', noProgress (\<lambda>a. bindE (asPqxdhFields (arg a 0)) (\<lambda>i. bindE (asBytes (arg a 1)) (\<lambda>ik.
        bindE (asBytes (arg a 2)) (\<lambda>sp. bindE (asBytes (arg a 3)) (\<lambda>op. bindE (asBytes (arg a 4)) (\<lambda>ky.
        ok VBytes (pqxdhRespond W t i ik sp op ky))))))))]"

definition fileHandlers :: "env \<Rightarrow> nat \<Rightarrow> (string \<times> cval handler) list" where
  "fileHandlers E t =
   [(''generate_cek'', noProgress (\<lambda>a. ok VBytes (generateCek (wasm E) t))),
    (''wrap_cek'', noProgress (\<lambda>a. bindE (asBytes (arg a 0)) (\<lambda>c. bindE (asBytes (arg a 1)) (\<lambda>r.
        ok VWrapped (wrapCek (wasm E) t c r))))),
    (''unwrap_cek'', noProgress (\<lambda>a. bindE (asBytes (arg a 0)) (\<lambda>w. bindE (asBytes (arg a 1)) (\<lambda>e.
        bindE (asBytes (arg a 2)) (\<lambda>p. ok VBytes (unwrapCek (wasm E) w e p)))))),
    (''devlink_keypair'', noProgress (\<lambda>a. ok VKeypair (devlinkKeypair E t))),
    (''devlink_channel_key'', noProgress (\<lambda>a. bindE (asBytes (arg a 0)) (\<lambda>p. bindE (asBytes (arg a 1)) (\<lambda>th.
        ok VBytes (w_devlink_channel_key (wasm E) p th)))))]"

definition handlers :: "env \<Rightarrow> (cval list \<Rightarrow> nat list) \<Rightarrow> nat \<Rightarrow> string \<Rightarrow> cval handler option" where
  "handlers E progress t = map_of (identityHandlers (wasm E) t @ powHandler (wasm E) progress t @
     messageHandlers (wasm E) t @ fileHandlers E t)"

text \<open>The exports that calls without a handler reach: those the program calls.\<close>

definition wasmExports :: "env \<Rightarrow> nat \<Rightarrow> string \<Rightarrow> (cval list \<Rightarrow> error + cval) option" where
  "wasmExports E t = map_of
   [(''kt_verify_root_sig'', \<lambda>a. bindE (asBytes (arg a 0)) (\<lambda>m. bindE (asBytes (arg a 1)) (\<lambda>s.
        bindE (asBytes (arg a 2)) (\<lambda>p. ok VBool (w_kt_verify_root_sig (wasm E) m s p))))),
    (''verify_hybrid'', \<lambda>a. bindE (asBytes (arg a 0)) (\<lambda>d. bindE (asBytes (arg a 1)) (\<lambda>se.
        bindE (asBytes (arg a 2)) (\<lambda>sd. bindE (asBytes (arg a 3)) (\<lambda>pe. bindE (asBytes (arg a 4)) (\<lambda>pd.
        ok VBool (w_verify_hybrid (wasm E) d se sd pe pd))))))),
    (''applock_derive_key'', \<lambda>a. bindE (asBytes (arg a 0)) (\<lambda>p. bindE (asBytes (arg a 1)) (\<lambda>s.
        bindE (asNumber (arg a 2)) (\<lambda>m. bindE (asNumber (arg a 3)) (\<lambda>c.
        ok VBytes (w_applock_derive_key (wasm E) p s m c)))))),
    (''seed_phrase_to_master_seed'', \<lambda>a. bindE (asString (arg a 0)) (\<lambda>m. ok VBytes (w_seed_phrase_to_master_seed (wasm E) m))),
    (''shamir_split'', \<lambda>a. bindE (asBytes (arg a 0)) (\<lambda>s. bindE (asNumber (arg a 1)) (\<lambda>k.
        bindE (asNumber (arg a 2)) (\<lambda>n. ok VBytesList (w_shamir_split (wasm E) t s k n))))),
    (''shamir_reconstruct'', \<lambda>a. bindE (asBytesList (arg a 0)) (\<lambda>ss. ok VBytes (w_shamir_reconstruct (wasm E) ss))),
    (''ratchet_init_alice'', \<lambda>a. bindE (asBytes (arg a 0)) (\<lambda>ss. bindE (asBytes (arg a 1)) (\<lambda>pub.
        ok VBytes (w_ratchet_init_alice (wasm E) t ss pub))))]"

section \<open>Loading the module\<close>

text \<open>The promise of the loaded module is kept from the first call on, whatever comes of it.\<close>

definition initCrypto :: "error + unit \<Rightarrow> (error + unit) option \<Rightarrow> (error + unit) option" where
  "initCrypto load ready = (case ready of None \<Rightarrow> Some load | Some r \<Rightarrow> Some r)"

text \<open>Every call waits for it first; \<open>loaded\<close> is how it ended.\<close>

definition handleLoaded :: "error + unit \<Rightarrow> (string \<Rightarrow> 'v handler option) \<Rightarrow> (string \<Rightarrow> ('v list \<Rightarrow> error + 'v) option) \<Rightarrow> string \<Rightarrow> 'v handler" where
  "handleLoaded loaded hs fn m args = (case loaded of Inl e \<Rightarrow> ([], Inl e) | Inr _ \<Rightarrow> workerHandle hs fn m args)"

definition cryptoWorker :: "env \<Rightarrow> (cval list \<Rightarrow> nat list) \<Rightarrow> nat \<Rightarrow> error + unit \<Rightarrow> string \<Rightarrow> cval handler" where
  "cryptoWorker E progress t loaded = handleLoaded loaded (handlers E progress t) (wasmExports E t)"

text \<open>A load that failed is never tried again: every later call is refused with the same error.\<close>

lemma failed_load_stays: "initCrypto load (Some r) = Some r"
  by (simp add: initCrypto_def)

lemma failed_load_refuses_all: "cryptoWorker E progress t (Inl e) m args = ([], Inl e)"
  by (simp add: cryptoWorker_def handleLoaded_def)

text \<open>The page opens one worker, at start (\<open>warmCrypto\<close>) or on its first call; \<open>n\<close> counts the workers
  it has opened.\<close>

definition ensurePort :: "bool \<times> nat \<Rightarrow> bool \<times> nat" where
  "ensurePort = (\<lambda>(port, n). if port then (port, n) else (True, Suc n))"

definition warmCrypto :: "bool \<Rightarrow> bool \<times> nat \<Rightarrow> bool \<times> nat" where
  "warmCrypto hasWorkers s = (if hasWorkers then ensurePort s else s)"

lemma one_port: "0 < k \<Longrightarrow> (ensurePort ^^ k) (False, 0) = (True, 1)"
  by (induction k) (case_tac k; simp add: ensurePort_def)+

section \<open>The calls of the services\<close>

text \<open>The calls the services make, typed, with the method and the arguments each one sends.\<close>

datatype cryptoRequest =
    QGenIdentity bytes
  | QSignChallenge bytes string int bytes bytes
  | QSolvePow bytes int "PowArgon option"
  | QOpaqueRegStart string
  | QOpaqueRegFinish bytes bytes bytes string
  | QOpaqueLoginStart string
  | QOpaqueLoginFinish bytes bytes string
  | QRecoverBundle bytes
  | QSeedToMasterSeed string
  | QShamirSplit bytes int int
  | QShamirReconstruct "bytes list"
  | QGenerateOpks int nat
  | QGenerateSignedSpk bytes bytes
  | QVerifyBundle string KeyBundleResp
  | QPqxdhInitiate bytes PqxdhBundleInput
  | QRatchetInitAlice bytes bytes
  | QRatchetEncrypt bytes bytes
  | QRatchetDecrypt bytes bytes bytes
  | QRatchetInitBob bytes bytes bytes
  | QGenerateSenderCert string bytes bytes bytes bytes bytes int int
  | QSealedSenderEncrypt bytes bytes bytes
  | QSealedSenderDecrypt bytes bytes int
  | QPqxdhRespond PqxdhInitFields bytes bytes bytes bytes
  | QGenerateCek
  | QWrapCek bytes bytes
  | QUnwrapCek bytes bytes bytes
  | QDevlinkKeypair
  | QDevlinkChannelKey bytes bytes
  | QVerifyHybrid bytes bytes bytes bytes bytes
  | QVerifyEd25519 bytes bytes bytes
  | QArgon2id bytes bytes int int

definition argonArg :: "PowArgon option \<Rightarrow> cval" where
  "argonArg a = (case a of None \<Rightarrow> VUndefined | Some p \<Rightarrow> VArgon p)"

fun callOf :: "cryptoRequest \<Rightarrow> string \<times> cval list" where
  "callOf (QGenIdentity x0) = (''gen_identity'', [VBytes x0])"
| "callOf (QSignChallenge x0 x1 x2 x3 x4) = (''sign_challenge'', [VBytes x0, VString x1, VNumber x2, VBytes x3, VBytes x4])"
| "callOf (QSolvePow x0 x1 x2) = (''solve_pow'', [VBytes x0, VNumber x1, argonArg x2])"
| "callOf (QOpaqueRegStart x0) = (''opaque_reg_start'', [VString x0])"
| "callOf (QOpaqueRegFinish x0 x1 x2 x3) = (''opaque_reg_finish'', [VBytes x0, VBytes x1, VBytes x2, VString x3])"
| "callOf (QOpaqueLoginStart x0) = (''opaque_login_start'', [VString x0])"
| "callOf (QOpaqueLoginFinish x0 x1 x2) = (''opaque_login_finish'', [VBytes x0, VBytes x1, VString x2])"
| "callOf (QRecoverBundle x0) = (''recover_bundle'', [VBytes x0])"
| "callOf (QSeedToMasterSeed x0) = (''seed_phrase_to_master_seed'', [VString x0])"
| "callOf (QShamirSplit x0 x1 x2) = (''shamir_split'', [VBytes x0, VNumber x1, VNumber x2])"
| "callOf (QShamirReconstruct x0) = (''shamir_reconstruct'', [VBytesList x0])"
| "callOf (QGenerateOpks x0 x1) = (''generate_opks'', [VNumber x0, VNumber (int x1)])"
| "callOf (QGenerateSignedSpk x0 x1) = (''generate_signed_spk'', [VBytes x0, VBytes x1])"
| "callOf (QVerifyBundle x0 x1) = (''verify_bundle'', [VString x0, VKeyBundle x1])"
| "callOf (QPqxdhInitiate x0 x1) = (''pqxdh_initiate'', [VBytes x0, VPqxdhBundle x1])"
| "callOf (QRatchetInitAlice x0 x1) = (''ratchet_init_alice'', [VBytes x0, VBytes x1])"
| "callOf (QRatchetEncrypt x0 x1) = (''ratchet_encrypt'', [VBytes x0, VBytes x1])"
| "callOf (QRatchetDecrypt x0 x1 x2) = (''ratchet_decrypt'', [VBytes x0, VBytes x1, VBytes x2])"
| "callOf (QRatchetInitBob x0 x1 x2) = (''ratchet_init_bob'', [VBytes x0, VBytes x1, VBytes x2])"
| "callOf (QGenerateSenderCert x0 x1 x2 x3 x4 x5 x6 x7) = (''generate_sender_cert'', [VString x0, VBytes x1, VBytes x2, VBytes x3, VBytes x4, VBytes x5, VNumber x6, VNumber x7])"
| "callOf (QSealedSenderEncrypt x0 x1 x2) = (''sealed_sender_encrypt'', [VBytes x0, VBytes x1, VBytes x2])"
| "callOf (QSealedSenderDecrypt x0 x1 x2) = (''sealed_sender_decrypt'', [VBytes x0, VBytes x1, VNumber x2])"
| "callOf (QPqxdhRespond x0 x1 x2 x3 x4) = (''pqxdh_respond'', [VPqxdhFields x0, VBytes x1, VBytes x2, VBytes x3, VBytes x4])"
| "callOf QGenerateCek = (''generate_cek'', [])"
| "callOf (QWrapCek x0 x1) = (''wrap_cek'', [VBytes x0, VBytes x1])"
| "callOf (QUnwrapCek x0 x1 x2) = (''unwrap_cek'', [VBytes x0, VBytes x1, VBytes x2])"
| "callOf QDevlinkKeypair = (''devlink_keypair'', [])"
| "callOf (QDevlinkChannelKey x0 x1) = (''devlink_channel_key'', [VBytes x0, VBytes x1])"
| "callOf (QVerifyHybrid x0 x1 x2 x3 x4) = (''verify_hybrid'', [VBytes x0, VBytes x1, VBytes x2, VBytes x3, VBytes x4])"
| "callOf (QVerifyEd25519 x0 x1 x2) = (''kt_verify_root_sig'', [VBytes x0, VBytes x1, VBytes x2])"
| "callOf (QArgon2id x0 x1 x2 x3) = (''applock_derive_key'', [VBytes x0, VBytes x1, VNumber x2, VNumber x3])"

text \<open>What the theories of the services take such a call to give.\<close>

fun answerOf :: "env \<Rightarrow> nat \<Rightarrow> cryptoRequest \<Rightarrow> error + cval" where
  "answerOf E t (QGenIdentity x0) = ok VIdentity (cy_genIdentity (workerCrypto E) t x0)"
| "answerOf E t (QSignChallenge x0 x1 x2 x3 x4) = ok VSig (cy_signChallenge (workerCrypto E) t x0 x1 x2 x3 x4)"
| "answerOf E t (QSolvePow x0 x1 x2) = ok VPow (cc_solvePow (workerContactCrypto E) t x0 x1 x2)"
| "answerOf E t (QOpaqueRegStart x0) = ok VOpaqueStart (ry_opaqueRegStart (workerRecoveryCrypto E) t x0)"
| "answerOf E t (QOpaqueRegFinish x0 x1 x2 x3) = ok VOpaqueFinish (ry_opaqueRegFinish (workerRecoveryCrypto E) t x0 x1 x2 x3)"
| "answerOf E t (QOpaqueLoginStart x0) = ok VOpaqueStart (ry_opaqueLoginStart (workerRecoveryCrypto E) t x0)"
| "answerOf E t (QOpaqueLoginFinish x0 x1 x2) = ok VOpaqueLogin (ry_opaqueLoginFinish (workerRecoveryCrypto E) t x0 x1 x2)"
| "answerOf E t (QRecoverBundle x0) = ok VIdentity (ry_recoverBundleFromSeed (workerRecoveryCrypto E) t x0)"
| "answerOf E t (QSeedToMasterSeed x0) = ok VBytes (ry_seedToMasterSeed (workerRecoveryCrypto E) x0)"
| "answerOf E t (QShamirSplit x0 x1 x2) = ok VBytesList (w_shamir_split (wasm E) t x0 x1 x2)"
| "answerOf E t (QShamirReconstruct x0) = ok VBytes (cr_shamirReconstruct (workerContactRecoveryCrypto E) x0)"
| "answerOf E t (QGenerateOpks x0 x1) = ok VOpks (pc_generateOpks (workerPrekeyCrypto E) t x0 x1)"
| "answerOf E t (QGenerateSignedSpk x0 x1) = ok VSignedSpk (pc_generateSignedSpk (workerPrekeyCrypto E) t x0 x1)"
| "answerOf E t (QVerifyBundle x0 x1) = ok VVerified (cc_verifyBundle (workerContactCrypto E) t x0 x1)"
| "answerOf E t (QPqxdhInitiate x0 x1) = ok VPqxdhInit (cc_pqxdhInitiate (workerContactCrypto E) t x0 x1)"
| "answerOf E t (QRatchetInitAlice x0 x1) = ok VBytes (cc_ratchetInitAlice (workerContactCrypto E) t x0 x1)"
| "answerOf E t (QRatchetEncrypt x0 x1) = ok VEncrypted (ratchetEncrypt (wasm E) t x0 x1)"
| "answerOf E t (QRatchetDecrypt x0 x1 x2) = ok VDecrypted (ratchetDecrypt (wasm E) t x0 x1 x2)"
| "answerOf E t (QRatchetInitBob x0 x1 x2) = ok VBytes (ratchetInitBob (wasm E) t x0 x1 x2)"
| "answerOf E t (QGenerateSenderCert x0 x1 x2 x3 x4 x5 x6 x7) = ok VBytes (generateSenderCert (wasm E) t x0 x1 x2 x3 x4 x5 x6 x7)"
| "answerOf E t (QSealedSenderEncrypt x0 x1 x2) = ok VBytes (sealedSenderEncrypt (wasm E) t x0 x1 x2)"
| "answerOf E t (QSealedSenderDecrypt x0 x1 x2) = ok VOpened (sealedSenderDecrypt (wasm E) t x0 x1 x2)"
| "answerOf E t (QPqxdhRespond x0 x1 x2 x3 x4) = ok VBytes (pqxdhRespond (wasm E) t x0 x1 x2 x3 x4)"
| "answerOf E t QGenerateCek = ok VBytes (fc_generateCek (workerFileCrypto E) t)"
| "answerOf E t (QWrapCek x0 x1) = ok VWrapped (fc_wrapCek (workerFileCrypto E) t x0 x1)"
| "answerOf E t (QUnwrapCek x0 x1 x2) = ok VBytes (fc_unwrapCek (workerFileCrypto E) t x0 x1 x2)"
| "answerOf E t QDevlinkKeypair = ok VKeypair (dv_keypair (workerDevlinkCrypto E) t)"
| "answerOf E t (QDevlinkChannelKey x0 x1) = ok VBytes (dv_channelKey (workerDevlinkCrypto E) x0 x1)"
| "answerOf E t (QVerifyHybrid x0 x1 x2 x3 x4) = ok VBool (kw_verifyHybrid (workerDeps E) t x0 x1 x2 x3 x4)"
| "answerOf E t (QVerifyEd25519 x0 x1 x2) = ok VBool (workerVerify E t x0 x1 x2)"
| "answerOf E t (QArgon2id x0 x1 x2 x3) = ok VBytes (workerKdf E x0 x1 x2 x3)"

fun progressOf :: "(cval list \<Rightarrow> nat list) \<Rightarrow> cryptoRequest \<Rightarrow> nat list" where
  "progressOf progress (QSolvePow c d a) = progress (snd (callOf (QSolvePow c d a)))"
| "progressOf progress q = []"

lemma worker_answers:
  "cryptoWorker E progress t (Inr ()) (fst (callOf q)) (snd (callOf q)) = (progressOf progress q, answerOf E t q)"
  by (cases q) (simp_all add: cryptoWorker_def handleLoaded_def workerHandle_def handlers_def identityHandlers_def
    powHandler_def messageHandlers_def fileHandlers_def wasmExports_def noProgress_def arg_def cast_defs argonArg_def
    workerCrypto_def workerContactCrypto_def workerRecoveryCrypto_def workerContactRecoveryCrypto_def workerPrekeyCrypto_def
    workerFileCrypto_def workerDevlinkCrypto_def workerDeps_def workerVerify_def workerKdf_def signChallenge_def
    split: option.split)

text \<open>C36. What a service gets from a call to the worker is what its theory takes the call to give: the
  method exists, the arguments arrive at the positions and with the types its handler reads,
  and whatever calls are under way at the same time, the promise of this one settles with the
  result of the wrapper that the service's model calls directly, or with its printed error.\<close>

theorem worker_answers_as_modelled:
  assumes "rpcReach str (cryptoWorker E progress t (Inr ())) s"
    "(i, callOf q) \<in> set (rp_calls s)" "(i, r) \<in> set (rp_settled s)"
  shows "r = settle str (answerOf E t q)"
  using settled_outcome [OF assms(1,3)] assms(2) worker_answers [of E progress t q] by (cases "callOf q") fastforce

end
