(* ===== verification/PanelWitnesses.thy ===== *)
theory PanelWitnesses
  imports ScreenWitnesses ContactScreens SettingsScreen TransferScreen BrowserParts SingleFlight LockLifecycle CryptoTable
begin

text \<open>
  Instances of the properties of the contact screens, the settings, the transfer screen, the crypto
  worker's table and the biometric lock, on the sample environment.
\<close>

section \<open>Comparing safety codes\<close>

text \<open>A device with an identity and one accepted contact.\<close>

definition meDb :: privexDB where
  "meDb = dbIdentity\<lparr>contacts_tbl := contacts_tbl peerDb, settings_tbl := [(PROGRESS_KEY, \<lparr>st_key = PROGRESS_KEY,
     st_value = JObj [(''step'', JStr ''done''), (''userId'', JStr ''px_me'')]\<rparr>)]\<rparr>"

definition meWorld :: world where
  "meWorld = world0\<lparr>idb := meDb\<rparr>"

lemma me_key: "keyOf meWorld = Some key0"
  using key0_of by (simp add: keyOf_def meWorld_def)

lemma me_bundle: "loadBundle env0 meWorld = (Inr (Some bundle0), meWorld)"
proof (rule load_holds)
  show "holds env0 key0 bundle0 meWorld"
    using stored0 me_key by (simp add: holds_def meWorld_def meDb_def storedBundle_def tget_def)
qed simp

lemma me_contact:
  "\<exists>c. getContact env0 ''px_peer'' meWorld = (Inr (Some c), meWorld) \<and> pc_ik_ed25519 c = [9] \<and> \<not> pc_verified c"
  using getMasterKey_keyOf [OF me_key, of env0]
  by (simp add: getContact_def contactsStore_def attempt_def contacts_get_def contacts_toPlain_def tget_def meWorld_def meDb_def peerDb_def)

lemma me_code:
  "\<exists>txt c. txt \<noteq> [] \<and> safetyCode env0 [1] [9] = Inr txt \<and> \<not> pc_verified c \<and>
     loadCode env0 ''px_peer'' meWorld = (Inr (Some (txt, c)), meWorld)"
proof -
  obtain gs where g: "safetyCode env0 [1] [9] = Inr (joinWith '' '' gs)" "length gs = 8"
    using conjunct2 [OF safetyCode_symmetric [of env0 "[1]" "[9]"]] by auto
  then obtain a b hs where "gs = a # b # hs" by (metis Suc_length_conv numeral_eq_Suc pred_numeral_simps(2,3))
  then have "joinWith '' '' gs \<noteq> []" by simp
  moreover obtain c where "getContact env0 ''px_peer'' meWorld = (Inr (Some c), meWorld)" "pc_ik_ed25519 c = [9]" "\<not> pc_verified c"
    using me_contact by blast
  ultimately show ?thesis using g(1) me_bundle
    by (intro exI [where x = "joinWith '' '' gs"] exI [where x = c]) (simp add: loadCode_def bundle0_def keys0_def)
qed


section \<open>Emergency contacts\<close>

definition replyS :: json where
  "replyS = JObj [(''stored'', JNum 2), (''ticket'', JStr ''tk'')]"

definition envS :: env where
  "envS = env0\<lparr>fetch := (\<lambda>t r. Some \<lparr>rsp_status = 200, rsp_json = Some replyS, rsp_raw = []\<rparr>)\<rparr>"

lemma envS_simps [simp]:
  "fetch envS t r = Some \<lparr>rsp_status = 200, rsp_json = Some replyS, rsp_raw = []\<rparr>"
  "w_shamir_split (wasm envS) t s k n = Inr (replicate (nat n) s)" "aes_enc envS ky iv p = p"
  by (simp_all add: envS_def env0_def wasm0_def)

lemma seal0: "fc_wrapCek fc0 t s k = Inr \<lparr>wc_wrapped = hd (k @ [0]) # s, wc_ephPub = replicate 32 4\<rparr>"
  by (simp add: fc0_def wrap0_def)

lemma friend_fields: "pc_px_id (contact0 k) = toHex k" "pc_ik_x25519 (contact0 k) = k" "pc_status (contact0 k) = Accepted"
  by (simp_all add: contact0_def)

lemma token_me: "au_sessionToken (auth meWorld) = Some ''tok''"
  by (simp add: meWorld_def world0_def)

lemma me_bundleS: "loadBundle envS meWorld = (Inr (Some bundle0), meWorld)"
proof (rule load_holds)
  have "reads envS = reads env0" by (simp add: fun_eq_iff reads_def envS_def)
  then show "holds envS key0 bundle0 meWorld"
    using stored0 me_key by (simp add: holds_def meWorld_def meDb_def storedBundle_def tget_def)
qed simp

definition friends0 :: "PlainContact list" where
  "friends0 = [contact0 [7], contact0 [8], (contact0 [6])\<lparr>pc_status := Blocked\<rparr>]"

text \<open>Two accepted contacts are ticked, a blocked one is not listed; the setup succeeds.\<close>

theorem emergency_setup_is_the_choice_witness:
  "let s = fold (emStep ''px_me'') [EmOpen True, EmListed friends0, EmToggle 0, EmToggle 1, EmToggle 2] emInit;
       r = setupPicked envS fc0 (s, meWorld)
   in fst r \<and> set (em_picked (fst (snd r))) = {toHex [7], toHex [8]} \<and>
      (\<exists>cs :: PlainContact list. length cs \<in> {2, 3} \<and> pc_px_id ` set cs = {toHex [7], toHex [8]} \<and>
        fst (settingGet RECOVERY_CONTACTS_KEY (snd (snd r))) = Inr (Some (JArr (map (\<lambda>c. JStr (pc_px_id c)) cs))))"
proof -
  let ?es = "[EmOpen True, EmListed friends0, EmToggle 0, EmToggle 1, EmToggle 2]"
  let ?s = "fold (emStep ''px_me'') ?es emInit"
  have ne: "toHex [x] \<noteq> ''px_me''" for x proof
    assume "toHex [x] = ''px_me''"
    then have "length (toHex [x]) = length ''px_me''" by (rule arg_cong)
    then show False by (simp del: toHex.simps)
  qed
  have s: "em_picked ?s = [toHex [7], toHex [8]]" "em_contacts ?s = [contact0 [7], contact0 [8]]"
    by (simp_all add: friends0_def emInit_def openEmergency_def loadEligible_def eligible_def togglePick_def contact0_def Let_def ne del: toHex.simps)
  obtain ok s' w' where r: "setupPicked envS fc0 (?s, meWorld) = (ok, s', w')" by (metis prod_cases3)
  have ch: "chosenContacts ?s = [contact0 [7], contact0 [8]]"
    using s by (simp add: chosenContacts_def contact0_def del: toHex.simps)
  have "\<exists>n v. setupEmergencyContacts envS fc0 (chosenContacts ?s) meWorld = (Inr n, v)"
    unfolding ch using me_bundleS ne token_me
    by (simp add: setupEmergencyContacts_def friend_fields bundle0_def seal0 storeShares_def
        post_api_def run_fetchReq jsonReply_def rspOk_def replyS_def intField_def typed_def numeral_eq_Suc del: toHex.simps)
  then have ok: "ok \<and> em_picked s' = [toHex [7], toHex [8]]"
    using r s by (auto simp: setupPicked_def Let_def chosenContacts_def split: prod.splits sum.splits)
  have "list_all listsOnce ?es" by (simp add: listsOnce_def friends0_def contact0_def del: toHex.simps)
  moreover have "setupOffered ?s" using s by (simp add: setupOffered_def)
  ultimately show ?thesis using emergency_setup_is_the_choice [of ?es "''px_me''" envS fc0 meWorld ok s' w'] r ok
    by (auto simp: Let_def)
qed

section \<open>The transfer\<close>

definition pl0 :: place where
  "pl0 = \<lparr>pl_base = Some ''https://api.example/'', pl_protocol = ''https:'', pl_host = ''h''\<rparr>"

definition trEvents0 :: "trEvent list" where
  "trEvents0 = [TrSend, TrConnected, TrFrame 0 (helloFrame [3]), TrConfirm]"

lemma confirm_sends:
  assumes "sd_key s = Some key" "\<not> sd_sentReady s" "\<not> sd_closed s" "\<not> sd_peerReady s"
  shows "sd_out (fst (snd (exConfirm E (s, w)))) \<noteq> []"
proof -
  let ?s1 = "sendf (encFrame E key (tick w) (JObj [(''t'', JStr ''ready'')])) (s\<lparr>sd_confirmed := True, sd_sentReady := True\<rparr>)"
  obtain fs w' where l: "sendLinkFrame E key (?s1, w\<lparr>tick := Suc (tick w)\<rparr>) = (Inr (), (fold sendf fs ?s1, w'))"
    using sendLinkFrame_run by blast
  have grow: "sd_out s \<noteq> [] \<Longrightarrow> sd_out (fold sendf fs s) \<noteq> []" for s fs
    by (induction fs arbitrary: s) (simp_all add: out_sendf)
  have key: "sd_key (fold sendf fs s) = sd_key s" for s by (induction fs arbitrary: s) simp_all
  have "exConfirm E (s, w) = exMaybeStream E (fold sendf fs ?s1, w')"
    using assms l by (simp add: exConfirm_def exTrySendReady_def)
  also have "\<dots> = (Inr (), (fold sendf fs ?s1, w'))" using assms by (simp add: exMaybeStream_def fold_sendf key)
  finally show ?thesis using assms(3) grow [of ?s1 fs] by (simp add: out_sendf)
qed

lemma start0: "\<exists>qr w1. startExport envS pl0 dc0 world0 = (Inr (sideInit\<lparr>sd_eph := Some \<lparr>kp_pub = [1], kp_priv = [2]\<rparr>\<rparr>, qr), w1)"
  by (simp add: startExport_def randomRid_def openTransport_def wsTicket_def exStart_def dc0_def world0_def
        post_api_def run_fetchReq jsonReply_def rspOk_def replyS_def strField_def typed_def parseAccountSpk_def)

theorem history_leaves_after_comparison_witness:
  "\<exists>es1 es2. trEvents0 = es1 @ TrConfirm # es2 \<and> comparedAt (fst (trRun envS pl0 dc0 world0 es1))"
proof -
  let ?eph = "\<lparr>kp_pub = [1], kp_priv = [2]\<rparr>"
  let ?s0 = "sideInit\<lparr>sd_eph := Some ?eph\<rparr>"
  let ?s1 = "?s0\<lparr>sd_secret := Some ([3] @ replicate 31 0), sd_key := Some ([3] @ replicate 31 0), sd_sas := Some (computeSAS envS [1] [3])\<rparr>"
  obtain qr w1 where x: "startExport envS pl0 dc0 world0 = (Inr (?s0, qr), w1)" using start0 by blast
  have h: "exFrame envS dc0 (helloFrame [3]) (?s0, w) = (Inr (), (?s1, w))" for w
    using hello_run [of ?s0 ?eph dc0 "[3]" "[3] @ replicate 31 0" envS w] by (simp add: dc0_def sideInit_def numeral_eq_Suc)
  have sas: "computeSAS envS [1] [3] \<noteq> []" using computeSAS_symmetric [of envS "[1]" "[3]"] by (metis list.size(3) zero_neq_numeral)
  obtain r sd w2 where c: "exConfirm envS (?s1, w1) = (r, (sd, w2))" by (metis prod_cases3)
  have "sd_out sd \<noteq> []" using confirm_sends [of ?s1 "[3] @ replicate 31 0" envS w1] c by (simp add: sideInit_def)
  moreover have "(True, sd) \<in> set (dt_runs (fst (trRun envS pl0 dc0 world0 trEvents0)))"
    using x h c sas by (simp add: trRun_def trEvents0_def transferInit_def beginSend_def relayAnswered_def watchDone_def
        callbacks_def onRun_def pressConfirm_def confirmOffered_def sideInit_def)
  ultimately show ?thesis using history_leaves_after_comparison by blast
qed

section \<open>A call to the crypto worker\<close>

text \<open>One call, from the page to the worker and back.\<close>

theorem worker_answers_as_modelled_witness:
  "\<exists>s r. rpcReach (\<lambda>e. ''Error'') (cryptoWorker env0 (\<lambda>a. []) 0 (Inr ())) s \<and> rp_settled s = [(1, r)] \<and>
     r = settle (\<lambda>e. ''Error'') (answerOf env0 0 (QWrapCek [7] [8])) \<and> \<not> isl r"
proof -
  let ?str = "\<lambda>e :: error. ''Error''" and ?H = "cryptoWorker env0 (\<lambda>a. []) 0 (Inr ())"
  let ?q = "(1::nat, callOf (QWrapCek [7] [8]))"
  let ?v = "VWrapped \<lparr>wc_wrapped = [7], wc_ephPub = replicate 32 4\<rparr>"
  let ?s1 = "cryptoCall (fst (snd ?q)) (snd (snd ?q)) rpcInit"
  let ?s2 = "?s1\<lparr>rp_toWorker := [], rp_running := [?q]\<rparr>"
  let ?s3 = "?s2\<lparr>rp_running := [], rp_toTab := [Done 1 ?v]\<rparr>"
  let ?s4 = "onReply (Done 1 ?v) (?s3\<lparr>rp_toTab := []\<rparr>)"
  have a: "answerOf env0 0 (QWrapCek [7] [8]) = Inr ?v"
    by (simp add: ok_def workerFileCrypto_def wrapCek_def env0_def wasm0_def)
  have "workerReplies ?str ?H ?q = [Done 1 ?v]"
    using worker_answers [of env0 "\<lambda>a. []" 0 "QWrapCek [7] [8]"] a by (simp add: workerReplies_def settle_def)
  then have st: "rpcStep ?str ?H ?s2 ?s3" using rpcStep.finish [of ?s2 "[]" ?q "[]" ?str ?H] by (simp add: cryptoCall_def rpcInit_def)
  have r1: "rpcReach ?str ?H ?s1" by (rule rpcReach.step [OF rpcReach.init rpcStep.call])
  have "rpcStep ?str ?H ?s1 ?s2" using rpcStep.start [of ?s1 ?q "[]" ?str ?H] by (simp add: cryptoCall_def rpcInit_def)
  from rpcReach.step [OF r1 this] st have r3: "rpcReach ?str ?H ?s3" by (rule rpcReach.step)
  have "rpcStep ?str ?H ?s3 ?s4" by (rule rpcStep.answer) simp
  with r3 have r4: "rpcReach ?str ?H ?s4" by (rule rpcReach.step)
  have s: "rp_settled ?s4 = [(1, Inr ?v)]" "(1, callOf (QWrapCek [7] [8])) \<in> set (rp_calls ?s4)" by (simp_all add: cryptoCall_def rpcInit_def)
  have "Inr ?v = settle ?str (answerOf env0 0 (QWrapCek [7] [8]))"
    by (rule worker_answers_as_modelled [OF r4 s(2)]) (simp add: cryptoCall_def rpcInit_def)
  moreover have "\<not> isl (Inr ?v :: string + cval)" by simp
  ultimately show ?thesis using r4 s(1) by blast
qed

section \<open>The biometric factor\<close>

text \<open>An authenticator whose function joins credential and salt, and that leaves the output out when it
  creates the credential.\<close>

definition av0 :: authenticator where
  "av0 = \<lparr>av_hasCreate = True, av_platform = Some (\<lambda>t. Inr True), av_capabilities = None,
     av_create = (\<lambda>t q. Inr (Some \<lparr>cd_rawId = [1, 2], cd_prfEnabled = True, cd_prfFirst = None\<rparr>)),
     av_get = (\<lambda>t q. Inr (Some (Some (go_credId q @ go_prfSalt q))))\<rparr>"

definition unlockedWorld :: world where
  "unlockedWorld = world0\<lparr>keystore := \<lparr>memKey = Some (replicate 32 5), memKeyBytes = Some (replicate 32 5), masterHandle = None,
     lockMeta = Some \<lparr>lm_passphrase = None, lm_webauthn = None\<rparr>\<rparr>\<rparr>"

theorem biometric_round_trip_witness:
  "\<exists>w1 w2. addBiometric env0 (webauthnOf env0 av0 ''h'') ''px_me'' unlockedWorld = (Inr (), w1) \<and>
     unlockWithBiometric env0 (webauthnOf env0 av0 ''h'') (snd (lock w1)) = (Inr (), w2) \<and>
     getMasterKey env0 w2 = (Inr (replicate 32 5), w2)"
proof -
  have p: "prf_of av0 (\<lambda>c s. c @ s)" by (simp add: prf_of_def av0_def)
  have "\<exists>r. enrollWebauthn env0 av0 ''h'' (tick unlockedWorld) ''px_me'' = Inr r"
    by (simp add: enrollWebauthn_def derivePrfWith_def av0_def Let_def)
  then obtain r where r: "enrollWebauthn env0 av0 ''h'' (tick unlockedWorld) ''px_me'' = Inr r" by blast
  have "fst (addBiometric env0 (webauthnOf env0 av0 ''h'') ''px_me'' unlockedWorld) = Inr ()"
    using r by (simp add: addBiometric_def unlockedKeyBytes_def webauthnOf_def getLockMeta_def setLockMeta_def unlockedWorld_def)
  then obtain w1 where w: "addBiometric env0 (webauthnOf env0 av0 ''h'') ''px_me'' unlockedWorld = (Inr (), w1)"
    by (metis prod.collapse)
  show ?thesis using biometric_round_trip [OF aes0 p _ _ _ w] w by (fastforce simp: unlockedWorld_def)
qed

section \<open>The life of a lock\<close>

text \<open>A cipher that refuses the key of another, a key derivation that tells these passphrases apart, and
  a device with one named contact.\<close>

definition envA :: env where
  "envA = env0\<lparr>aes_enc := (\<lambda>k iv p. k @ p), aes_dec := (\<lambda>k iv c. if take (length k) c = k then Some (drop (length k) c) else None)\<rparr>"

definition kdfA :: AppLockKdf where
  "kdfA p s m t = Inr (replicate 32 (of_nat (length p)))"

definition worldA :: world where
  "worldA = world0\<lparr>keystore := \<lparr>memKey = None, memKeyBytes = None, masterHandle = Some (replicate 32 5), lockMeta = None\<rparr>,
     idb := db0\<lparr>contacts_tbl := [(''px_peer'', \<lparr>c_px_id = ''px_peer'', c_ik_ed25519_pub = Some [9], c_ik_x25519_pub = None,
       c_display_name_enc = Some (replicate 12 0 @ replicate 32 5 @ [72]), c_verified_fingerprint = None,
       c_status = Some Accepted, c_added_at = 0\<rparr>)]\<rparr>\<rparr>"

definition lockLife :: "vaultOp list" where
  "lockLife = [OpEnable ''passphrase'', OpLock, OpUnlock ''guess'', OpUnlock ''passphrase'', OpAddBio, OpLock, OpUnlockBio, OpChange ''new phrase word'']"

lemma wrapsA:
  "wraps envA kdfA x f K \<Longrightarrow> take 32 (drop IV_LEN (fromHex (pf_wrapped f))) = replicate 32 (of_nat (length x))"
  by (auto simp: wraps_def kdfA_def reads_def envA_def split: if_splits)

lemma separatesA: "separates envA kdfA {''passphrase'', ''guess'', ''new phrase word''}"
proof -
  have "p = q" if "wraps envA kdfA p f K" "wraps envA kdfA q f K'"
    "p \<in> {''passphrase'', ''guess'', ''new phrase word''}" "q \<in> {''passphrase'', ''guess'', ''new phrase word''}" for p q f K K'
  proof -
    have "replicate 32 (of_nat (length p) :: 8 word) = replicate 32 (of_nat (length q))"
      using wrapsA [OF that(1)] wrapsA [OF that(2)] by simp
    then have "(of_nat (length p) :: 8 word) = of_nat (length q)" by simp
    then show ?thesis using that(3,4) by auto
  qed
  then show ?thesis unfolding separates_def by blast
qed


end
