(* ===== verification/Conversation.thy ===== *)
theory Conversation
  imports Delivery
begin

text \<open>
  Sending and receiving together: a one-way conversation between two devices, each with its
  own database, clock and keys. One device sends texts with \<open>sendMessage\<close>, the network
  delivers what left it in any order and may lose some of it, the other device handles each
  delivery with \<open>receiveMessage\<close>. Every delivered text ends up, encrypted, in the
  receiver's conversation with the sender.
\<close>

section \<open>The two devices\<close>

record side =
  sd_env :: env
  sd_mc :: MessageCryptoApi
  sd_me :: IdentityBundle
  sd_key :: cryptoKey

abbreviation sd_id :: "side \<Rightarrow> string" where "sd_id S \<equiv> b_userId (sd_me S)"

subsection \<open>What is relied on of the crypto core\<close>

text \<open>The double ratchet: \<open>linked a b q\<close> says that the receiving state \<open>b\<close> can still read
  the messages \<open>q\<close> (ciphertext, header, plaintext) encrypted on the way to the sending state
  \<open>a\<close>. Encrypting adds a message; any message with fewer than 1000 earlier unread ones
  (\<open>MAX_SKIP\<close> of \<^verbatim>\<open>ratchet.rs\<close>) can be read.\<close>

type_synonym ratchetMsg = "bytes \<times> bytes \<times> bytes"

definition ratchet_delivers :: "side \<Rightarrow> side \<Rightarrow> (bytes \<Rightarrow> bytes \<Rightarrow> ratchetMsg list \<Rightarrow> bool) \<Rightarrow> bool" where
  "ratchet_delivers A B linked \<longleftrightarrow>
     (\<forall>t a b q p enc. linked a b q \<longrightarrow> mc_ratchetEncrypt (sd_mc A) t a p = Inr enc \<longrightarrow>
        linked (re_newState enc) b (q @ [(re_ciphertext enc, re_header enc, p)])) \<and>
     (\<forall>t a b q1 c h p q2. linked a b (q1 @ (c, h, p) # q2) \<longrightarrow> length q1 < 1000 \<longrightarrow>
        (\<exists>b'. mc_ratchetDecrypt (sd_mc B) t b c h = Inr \<lparr>rd_plaintext = p, rd_newState = b'\<rparr> \<and> linked a b' (q1 @ q2)))"

text \<open>A certificate this device issued for itself, and until when it is valid.\<close>

definition ownCert :: "side \<Rightarrow> bytes \<Rightarrow> int \<Rightarrow> bool" where
  "ownCert A cert until \<longleftrightarrow>
     (\<exists>t n valid. mc_generateSenderCert (sd_mc A) t (sd_id A) (ed25519_priv (b_identity (sd_me A)))
        (ed25519_pub (b_identity (sd_me A))) (dilithium3_priv (b_identity (sd_me A))) (dilithium3_pub (b_identity (sd_me A)))
        (x25519_pub (b_identity (sd_me A))) n valid = Inr cert \<and> until = n + valid)"

text \<open>What opening a blob that \<open>A\<close> sealed gives, at the time \<open>n\<close>: the sender is
  verified unless the certificate has expired.\<close>

definition openedFrom :: "side \<Rightarrow> bytes \<Rightarrow> int \<Rightarrow> int \<Rightarrow> SealedOpened" where
  "openedFrom A m until n =
     \<lparr>so_plaintext = m, so_senderId = sd_id A, so_senderEdPub = ed25519_pub (b_identity (sd_me A)),
      so_senderX25519Pub = x25519_pub (b_identity (sd_me A)), so_senderVerified = (n \<le> until)\<rparr>"

lemma openedFrom_simps [simp]:
  "so_plaintext (openedFrom A m until n) = m" "so_senderId (openedFrom A m until n) = b_userId (sd_me A)"
  "so_senderEdPub (openedFrom A m until n) = ed25519_pub (b_identity (sd_me A))"
  "so_senderVerified (openedFrom A m until n) = (n \<le> until)"
  by (simp_all add: openedFrom_def)

definition seals_for :: "side \<Rightarrow> side \<Rightarrow> bool" where
  "seals_for A B \<longleftrightarrow>
     (\<forall>t t' m cert until blob n. ownCert A cert until \<longrightarrow>
        mc_sealedSenderEncrypt (sd_mc A) t m cert (x25519_pub (b_identity (sd_me B))) = Inr blob \<longrightarrow>
        mc_sealedSenderDecrypt (sd_mc B) t' blob (x25519_priv (b_identity (sd_me B))) n = Inr (openedFrom A m until n))"

text \<open>Both run the same generated codec, and their AES-GCM decrypts what it encrypted.\<close>

definition sameWire :: "side \<Rightarrow> side \<Rightarrow> bool" where
  "sameWire A B \<longleftrightarrow> codec_correct (sd_env A) \<and> content_decode (sd_env B) = content_decode (sd_env A) \<and>
     envelope_decode (sd_env B) = envelope_decode (sd_env A) \<and> aes_correct (sd_env A) \<and> aes_correct (sd_env B)"

subsection \<open>Steps of a conversation\<close>

record flight =
  fl_blob :: string
  fl_text :: string
  fl_until :: int

text \<open>\<open>tk_got\<close> lists the handled deliveries: the message id, the text that was sent and the
  status the receiver must show.\<close>

record talk =
  tk_a :: world
  tk_b :: world
  tk_flying :: "flight list"
  tk_got :: "(string \<times> string \<times> string) list"

text \<open>The sealed message that a send left behind: it is in the request that was made, or
  parked in the outbox.\<close>

definition left :: "env \<Rightarrow> string \<Rightarrow> world \<Rightarrow> world \<Rightarrow> string \<Rightarrow> bool" where
  "left E peer w w' blob \<longleftrightarrow>
     (\<exists>tok ttl d. netlog w' = netlog w @ [(send_req E peer blob tok ttl, d)]) \<or>
     (\<exists>lid t ttl. outbox_next (idb w') = Suc (outbox_next (idb w)) \<and>
        tget (outbox_tbl (idb w')) (outbox_next (idb w)) = Some (parkedRow (outbox_next (idb w)) peer blob lid t ttl))"

text \<open>The time a delivery's certificate is checked against: the signed queue time, or the
  receiver's clock.\<close>

definition certTime :: "env \<Rightarrow> verifyEd25519 \<Rightarrow> WSMessage \<Rightarrow> world \<Rightarrow> int" where
  "certTime E v ws w =
     (case checkDeliveryTime E ws v w of
        (Inr res, w1) \<Rightarrow> (case tv_anchor res of Some a \<Rightarrow> a | None \<Rightarrow> date_now E (tick w1) div 1000)
      | (Inl _, w1) \<Rightarrow> 0)"

text \<open>Anything else a device does between two steps, as long as it leaves this conversation
  alone: the identity, the data key, the session and the contact of the peer.\<close>

definition elsewhere :: "string \<Rightarrow> world \<Rightarrow> world \<Rightarrow> bool" where
  "elsewhere peer w w' \<longleftrightarrow>
     (\<forall>k. keyOf w = Some k \<longrightarrow> keyOf w' = Some k) \<and> bundleCache w' = bundleCache w \<and> certCache w' \<in> {certCache w, None} \<and>
     tget (sessions_tbl (idb w')) peer = tget (sessions_tbl (idb w)) peer \<and>
     tget (contacts_tbl (idb w')) peer = tget (contacts_tbl (idb w)) peer"

inductive talks :: "side \<Rightarrow> side \<Rightarrow> verifyEd25519 \<Rightarrow> talk \<Rightarrow> talk \<Rightarrow> bool" for A B v t0 where
  start: "talks A B v t0 t0"
| says: "talks A B v t0 t \<Longrightarrow>
    sendMessage (sd_env A) (sd_mc A) (sd_id B) text ttl (tk_a t) = (Inr (), w') \<Longrightarrow>
    safeInt (date_now (sd_env A) (tick (tk_a t)) div 1000) \<Longrightarrow> safeInt (date_now (sd_env A) (Suc (tick (tk_a t))) div 1000) \<Longrightarrow>
    left (sd_env A) (sd_id B) (tk_a t) w' blob \<Longrightarrow> certCache w' = Some (cert, until) \<Longrightarrow>
    talks A B v t0 (t\<lparr>tk_a := w', tk_flying := tk_flying t @ [\<lparr>fl_blob = blob, fl_text = text, fl_until = until\<rparr>]\<rparr>)"
| hears: "talks A B v t0 t \<Longrightarrow> tk_flying t = q1 @ f # q2 \<Longrightarrow> length q1 < 1000 \<Longrightarrow>
    ws_content ws = fl_blob f \<Longrightarrow> ws_message_id ws \<notin> fst ` set (tk_got t) \<Longrightarrow>
    tget (received_tbl (idb (tk_b t))) (ws_message_id ws) = None \<Longrightarrow>
    receiveMessage (sd_env B) (sd_mc B) v ws (tk_b t) = (r, w') \<Longrightarrow>
    talks A B v t0 (t\<lparr>tk_b := w', tk_flying := q1 @ q2, tk_got := tk_got t @ [(ws_message_id ws, fl_text f,
       incomingStatus False (certTime (sd_env B) v ws (tk_b t) \<le> fl_until f))]\<rparr>)"
| aside: "talks A B v t0 t \<Longrightarrow> elsewhere (sd_id B) (tk_a t) wa \<Longrightarrow> elsewhere (sd_id A) (tk_b t) wb \<Longrightarrow>
    (\<forall>i \<in> fst ` set (tk_got t). tget (messages_tbl (idb wb)) i = tget (messages_tbl (idb (tk_b t))) i) \<Longrightarrow>
    talks A B v t0 (t\<lparr>tk_a := wa, tk_b := wb\<rparr>)"

section \<open>Sending\<close>

text \<open>The steps after a message is sealed (or stored) leave the conversation's state alone.\<close>

definition holds :: "world \<Rightarrow> world \<Rightarrow> bool" where
  "holds w w' \<longleftrightarrow> sessions_tbl (idb w') = sessions_tbl (idb w) \<and> contacts_tbl (idb w') = contacts_tbl (idb w) \<and>
     bundleCache w' = bundleCache w \<and> certCache w' = certCache w \<and> (\<forall>k. keyOf w = Some k \<longrightarrow> keyOf w' = Some k)"

interpretation hl: step_relation holds
  by unfold_locales (auto simp: holds_def)

lemma quiet_holds: "quiet w w' \<Longrightarrow> holds w w'"
  using quietD [of w w'] quiet_keyOf [of w w'] by (simp add: holds_def)

lemma keeps_hl_quiet: "keeps quiet m \<Longrightarrow> keeps holds m"
  by (erule keeps_mono) (rule quiet_holds)

lemma keeps_hl_prims:
  "keeps holds (emit ev)" "keeps holds (spawn t)"
  "(\<And>d. sessions_tbl (f d) = sessions_tbl d \<and> contacts_tbl (f d) = contacts_tbl d) \<Longrightarrow> keeps holds (dbModify f)"
  by (simp_all add: keeps_def holds_def)

lemma keeps_hl_messages_add: "keeps holds (messages_add E m)"
  unfolding messages_add_def by (intro hl.keeps_rules keeps_hl_prims keeps_hl_quiet keeps_intro) simp

lemma keeps_hl_token: "keeps holds token"
  unfolding token_def by (intro hl.keeps_rules)

lemma keeps_hl_storeSent: "keeps holds (storeSent E me i p st ts s)"
  unfolding storeSent_def Let_def by (intro hl.keeps_rules keeps_hl_prims(1,2) keeps_hl_messages_add keeps_hl_quiet keeps_intro)

lemma holds_postOrPark:
  assumes "postOrPark E peer b lid vis ttl w = (r, w')"
  shows "holds w w'"
proof -
  obtain rs w1 where o1: "sendOutcome E peer b ttl w = (rs, w1)" by fastforce
  have "holds w w1" using o1 by (auto simp: sendOutcome_def Let_def holds_def keyOf_def split: if_splits)
  moreover have "holds w1 w2" if "park E peer b lid vis ttl e w1 = (r2, w2)" for e r2 w2
    using that by (auto simp: run_park holds_def parkedDb_def)
  ultimately show ?thesis using assms o1 hl.step_trans
    by (auto simp: run_postOrPark split: sum.splits if_splits)
qed

text \<open>A post that does not fail leaves the blob in its request or in the outbox, and no other.\<close>

lemma postOrPark_left:
  assumes "postOrPark E peer b lid vis ttl w = (Inr x, w')" and "left E peer w w'' b'"
    and "netlog w'' = netlog w'" "outbox_tbl (idb w'') = outbox_tbl (idb w')" "outbox_next (idb w'') = outbox_next (idb w')"
  shows "b' = b"
proof -
  obtain rs w1 where o1: "sendOutcome E peer b ttl w = (rs, w1)" by fastforce
  have d1: "idb w1 = idb w" "netlog w1 = netlog w \<or> (\<exists>tok. netlog w1 = netlog w @ [(send_req E peer b tok (Some ttl), idb w)])"
    using o1 by (auto simp: sendOutcome_def Let_def split: if_splits)
  have net: "netlog w' = netlog w1"
    using assms(1) o1 by (auto simp: run_postOrPark run_park split: sum.splits if_splits)
  have out: "outbox_next (idb w') = outbox_next (idb w) \<or> tget (outbox_tbl (idb w')) (outbox_next (idb w)) =
      Some (parkedRow (outbox_next (idb w)) peer b (if vis then lid else []) (date_now E (tick w1)) ttl)"
    using assms(1) o1 d1(1) by (auto simp: run_postOrPark run_park parkedDb_def split: sum.splits if_splits)
  show ?thesis
    using assms(2) unfolding left_def assms(3-5) net
    by (rule disjE; use d1(2) out in \<open>auto simp: send_req_def sendBody_def post_req_def parkedRow_def\<close>)
qed

lemma myCert_own:
  assumes "\<And>c x. certCache w = Some (c, x) \<Longrightarrow> ownCert A c x"
    and "myCert (sd_env A) (sd_mc A) (sd_me A) w = (Inr cert, w')"
  shows "\<exists>x. certCache w' = Some (cert, x) \<and> ownCert A cert x"
proof (cases "\<exists>c x. certCache w = Some (c, x) \<and> date_now (sd_env A) (tick w) div 1000 < x - 300")
  case True
  then obtain c x where "certCache w = Some (c, x)" "date_now (sd_env A) (tick w) div 1000 < x - 300" by blast
  then show ?thesis using assms by (auto simp: myCert_def)
next
  case False
  let ?t = "date_now (sd_env A) (tick w) div 1000"
  have "(case certCache w of None \<Rightarrow> False | Some (cert, expiresAt) \<Rightarrow> ?t < expiresAt - 300) = False"
    using False by (auto split: option.splits)
  then have "mc_generateSenderCert (sd_mc A) (Suc (tick w)) (sd_id A) (ed25519_priv (b_identity (sd_me A)))
        (ed25519_pub (b_identity (sd_me A))) (dilithium3_priv (b_identity (sd_me A))) (dilithium3_pub (b_identity (sd_me A)))
        (x25519_pub (b_identity (sd_me A))) ?t CERT_VALID_SECONDS = Inr cert \<and> certCache w' = Some (cert, ?t + CERT_VALID_SECONDS)"
    using assms(2) by (auto simp: myCert_def elim!: await_Inr_cases split: sum.splits)
  then show ?thesis unfolding ownCert_def by blast
qed

text \<open>What sealing a message on an established session gives.\<close>

lemma sealMessage_run:
  assumes aes: "aes_correct (sd_env A)" and key: "keyOf w = Some (sd_key A)"
    and row: "tget (sessions_tbl (idb w)) peer = Some row" and s: "sessionOf (sd_env A) (sd_key A) row = Some s"
    and pq: "ls_pqxdhInit s = None" and cc: "\<And>c x. certCache w = Some (c, x) \<Longrightarrow> ownCert A c x"
    and run: "sealMessage (sd_env A) (sd_mc A) (sd_me A) contact peer s c w = (Inr b, w')"
  obtains enc cert x t sld row' where
    "mc_ratchetEncrypt (sd_mc A) (tick w) (ls_ratchetState s) c = Inr enc" "ownCert A cert x" "certCache w' = Some (cert, x)"
    "mc_sealedSenderEncrypt (sd_mc A) t (encodeEnvelope (sd_env A) (re_header enc) (re_ciphertext enc) None) cert
       (pc_ik_x25519 contact) = Inr sld" "b = b64encode sld"
    "keyOf w' = Some (sd_key A)" "bundleCache w' = bundleCache w" "contacts_tbl (idb w') = contacts_tbl (idb w)"
    "netlog w' = netlog w" "outbox_tbl (idb w') = outbox_tbl (idb w)" "outbox_next (idb w') = outbox_next (idb w)"
    "tget (sessions_tbl (idb w')) peer = Some row'"
    "sessionOf (sd_env A) (sd_key A) row' = Some (s\<lparr>ls_ratchetState := re_newState enc\<rparr>)"
proof -
  let ?E = "sd_env A" and ?mc = "sd_mc A"
  obtain enc w1 where e: "ext (\<lambda>t. mc_ratchetEncrypt ?mc t (ls_ratchetState s) c) w = (Inr enc, w1)"
    and r1: "await (myCert ?E ?mc (sd_me A)) (\<lambda>cert.
     await (ext (\<lambda>t. mc_sealedSenderEncrypt ?mc t (encodeEnvelope ?E (re_header enc) (re_ciphertext enc) None)
                   cert (pc_ik_x25519 contact))) (\<lambda>sld.
     andThen (saveRatchetState ?E peer (re_newState enc)) (andThen (ret ()) (ret (b64encode sld))))) w1 = (Inr b, w')"
    using run unfolding sealMessage_def pq by (auto elim: await_Inr_cases)
  obtain cert w2 where c: "myCert ?E ?mc (sd_me A) w1 = (Inr cert, w2)"
    and r2: "await (ext (\<lambda>t. mc_sealedSenderEncrypt ?mc t (encodeEnvelope ?E (re_header enc) (re_ciphertext enc) None)
                   cert (pc_ik_x25519 contact))) (\<lambda>sld.
     andThen (saveRatchetState ?E peer (re_newState enc)) (andThen (ret ()) (ret (b64encode sld)))) w2 = (Inr b, w')"
    using r1 by (rule await_Inr_cases)
  have w1: "w1 = w\<lparr>tick := Suc (tick w)\<rparr>" and enc: "mc_ratchetEncrypt ?mc (tick w) (ls_ratchetState s) c = Inr enc"
    using e by auto
  obtain x where x: "certCache w2 = Some (cert, x)" "ownCert A cert x"
    using myCert_own [OF _ c] cc w1 by auto
  have c12: "calm w1 w2" by (rule keepsD [OF keeps_cm_myCert c])
  have bc: "bundleCache w2 = bundleCache w1"
    using c by (auto simp: myCert_def elim!: await_Inr_cases split: if_splits)
  obtain sld where sld: "mc_sealedSenderEncrypt ?mc (tick w2) (encodeEnvelope ?E (re_header enc) (re_ciphertext enc) None) cert
       (pc_ik_x25519 contact) = Inr sld"
    and r3: "andThen (saveRatchetState ?E peer (re_newState enc)) (andThen (ret ()) (ret (b64encode sld)))
       (w2\<lparr>tick := Suc (tick w2)\<rparr>) = (Inr b, w')"
    using r2 by (auto elim!: await_Inr_cases)
  have k2: "keyOf (w2\<lparr>tick := Suc (tick w2)\<rparr>) = Some (sd_key A)" and d2: "idb w2 = idb w" "netlog w2 = netlog w"
    using c12 key w1 by (auto simp: calm_def)
  let ?iv = "ivAt ?E (Suc (tick w2))"
  let ?row = "row\<lparr>se_ratchet_state_enc := ?iv @ aes_enc ?E (sd_key A) ?iv (textEncode (toHex (re_newState enc)))\<rparr>"
  have w': "b = b64encode sld" "w' = w2\<lparr>tick := Suc (Suc (tick w2)), idb := idb w'\<rparr>"
    "idb w' = sessions_tbl_update (tupdate peer (\<lambda>r. r\<lparr>se_ratchet_state_enc :=
       ?iv @ aes_enc ?E (sd_key A) ?iv (textEncode (toHex (re_newState enc)))\<rparr>)) (idb w)"
    using r3 run_saveRatchetState [OF k2] d2 by auto
  have "certCache w' = certCache w2" "keyOf w' = keyOf w2" "bundleCache w' = bundleCache w2" "netlog w' = netlog w2"
    by (subst w'(2), simp)+
  moreover have "tget (sessions_tbl (idb w')) peer = Some ?row" using row by (simp add: w'(3))
  moreover have "sessionOf ?E (sd_key A) ?row = Some (s\<lparr>ls_ratchetState := re_newState enc\<rparr>)"
    using s pq aes by (auto simp: sessionOf_def split: option.splits bind_splits)
  ultimately show thesis
    using that [OF enc x(2) _ sld w'(1)] x(1) k2 bc w1 d2 by (simp add: w'(3))
qed

section \<open>The state of a conversation\<close>

definition sessionAt :: "side \<Rightarrow> string \<Rightarrow> world \<Rightarrow> LoadedSession option" where
  "sessionAt S peer w = Option.bind (tget (sessions_tbl (idb w)) peer) (sessionOf (sd_env S) (sd_key S))"

text \<open>The sender is unlocked and knows the receiver's key; the receiver is unlocked and has
  accepted the sender under its key.\<close>

definition knows :: "side \<Rightarrow> side \<Rightarrow> world \<Rightarrow> bool" where
  "knows A B w \<longleftrightarrow> keyOf w = Some (sd_key A) \<and> bundleCache w = Some (sd_me A) \<and>
     (\<forall>c x. certCache w = Some (c, x) \<longrightarrow> ownCert A c x) \<and>
     (\<exists>row. tget (contacts_tbl (idb w)) (sd_id B) = Some row \<and>
        c_ik_x25519_pub row = Some (x25519_pub (b_identity (sd_me B))))"

definition accepts :: "side \<Rightarrow> side \<Rightarrow> world \<Rightarrow> bool" where
  "accepts B A w \<longleftrightarrow> keyOf w = Some (sd_key B) \<and> bundleCache w = Some (sd_me B) \<and>
     (\<exists>row. tget (contacts_tbl (idb w)) (sd_id A) = Some row \<and> orElse (c_status row) Accepted = Accepted \<and>
        c_ik_ed25519_pub row \<in> {None, Some (ed25519_pub (b_identity (sd_me A)))} \<and>
        (\<forall>n. c_display_name_enc row = Some n \<longrightarrow> reads (sd_env B) (sd_key B) n \<noteq> None))"

text \<open>A blob under way carries the text inside the ratchet message.\<close>

definition packet :: "side \<Rightarrow> side \<Rightarrow> flight \<Rightarrow> ratchetMsg \<Rightarrow> bool" where
  "packet A B f m \<longleftrightarrow>
     (\<exists>sld e. fl_blob f = b64encode sld \<and>
        (\<forall>t n. mc_sealedSenderDecrypt (sd_mc B) t sld (x25519_priv (b_identity (sd_me B))) n =
           Inr (openedFrom A e (fl_until f) n)) \<and>
        decodeEnvelope (sd_env B) e =
          Inr \<lparr>de_header = fst (snd m), de_ciphertext = fst m, de_pqxdh = None, de_deviceSync = None\<rparr> \<and>
        (\<exists>ts rr. decodeContent (sd_env B) (snd (snd m)) =
           Inr (noContent\<lparr>dc_text := Some \<lparr>dt_body = fl_text f, dt_sentAt = ts\<rparr>, dc_receiptRequest := rr\<rparr>)))"

definition storedText :: "side \<Rightarrow> string \<Rightarrow> privexDB \<Rightarrow> string \<times> string \<times> string \<Rightarrow> bool" where
  "storedText S peer d g \<longleftrightarrow> (case g of (i, text, status) \<Rightarrow>
     \<exists>row. tget (messages_tbl d) i = Some row \<and> m_session_id row = peer \<and> m_direction row = DirIn \<and>
       m_kind row = Some KText \<and> m_status row = status \<and>
       map_option textDecode (reads (sd_env S) (sd_key S) (m_content_enc row)) = Some text)"

definition inStep :: "side \<Rightarrow> side \<Rightarrow> (bytes \<Rightarrow> bytes \<Rightarrow> ratchetMsg list \<Rightarrow> bool) \<Rightarrow> talk \<Rightarrow> bool" where
  "inStep A B linked t \<longleftrightarrow> knows A B (tk_a t) \<and> accepts B A (tk_b t) \<and>
     (\<exists>sa sb q. sessionAt A (sd_id B) (tk_a t) = Some sa \<and> ls_pqxdhInit sa = None \<and>
        sessionAt B (sd_id A) (tk_b t) = Some sb \<and>
        linked (ls_ratchetState sa) (ls_ratchetState sb) q \<and> list_all2 (packet A B) (tk_flying t) q) \<and>
     list_all (storedText B (sd_id A) (idb (tk_b t))) (tk_got t)"

section \<open>A send adds one message\<close>

lemma run_buildReceiptRequest:
  assumes "buildReceiptRequest E w = (x, w')"
  shows "\<exists>rq. x = Inr rq \<and> (w' = w \<or> w' = w\<lparr>tick := Suc (tick w)\<rparr>) \<and> (\<forall>r. map_option fst rq = Some r \<longrightarrow> rr_tokenId r \<noteq> [])"
  using assms by (auto simp: buildReceiptRequest_def split: if_splits dest: arg_cong [where f = length])

lemma contact_row_x25519:
  assumes "sendTarget E peer st w = (Inr c, w')" and "tget (contacts_tbl (idb w)) peer = Some row"
    and "c_ik_x25519_pub row = Some k"
  shows "pc_ik_x25519 c = k"
proof -
  obtain c0 w1 where g: "getContact E peer w = (Inr (Some c0), w1)" "c = c0"
    using assms(1) unfolding sendTarget_def by (auto elim!: await_Inr_cases split: option.splits if_splits)
  obtain e w2 where e: "contactsStore E w = (Inr e, w2)" "contacts_get E e peer w2 = (Inr (Some c0), w1)"
    using g(1) unfolding getContact_def by (auto elim!: await_Inr_cases)
  have "idb w2 = idb w"
    using e(1) keepsD [OF keeps_getMasterKey] quietD(1) by (fastforce simp: contactsStore_def attempt_def split: prod.splits)
  then show ?thesis using e(2) assms(2,3) g(2)
    by (auto simp: contacts_get_def contacts_toPlain_def elim!: await_Inr_cases split: option.splits)
qed

definition sameOutbox :: "world \<Rightarrow> world \<Rightarrow> bool" where
  "sameOutbox w w' \<longleftrightarrow> outbox_tbl (idb w') = outbox_tbl (idb w) \<and> outbox_next (idb w') = outbox_next (idb w)"

interpretation ob: step_relation sameOutbox
  by unfold_locales (auto simp: sameOutbox_def)

lemma keeps_ob_quiet: "keeps quiet m \<Longrightarrow> keeps sameOutbox m"
  by (erule keeps_mono) (simp add: sameOutbox_def quietD)

lemma keeps_ob_prims:
  "keeps sameOutbox (emit ev)" "keeps sameOutbox (spawn t)" "keeps sameOutbox (dbModify (messages_tbl_update f))"
  by (simp_all add: keeps_def sameOutbox_def)

lemma keeps_outbox_storeSent: "keeps sameOutbox (storeSent E me i p st ts s)"
  unfolding storeSent_def messages_add_def Let_def
  by (intro ob.keeps_rules keeps_ob_prims keeps_ob_quiet keeps_intro)

text \<open>The run of a visible send that returns, up to the sealed blob.\<close>

lemma sealAndSend_run:
  assumes kn: "knows A B w" and ses: "sessionAt A (sd_id B) w = Some s"
    and run: "sealAndSend (sd_env A) (sd_mc A) (sd_id B) c (Some st) ttl w = (Inr x, w')"
  obtains contact w1 b w2 y w3 ttl' lid where
    "calm w w1" "bundleCache w1 = bundleCache w" "certCache w1 = certCache w"
    "pc_ik_x25519 contact = x25519_pub (b_identity (sd_me B))"
    "sealMessage (sd_env A) (sd_mc A) (sd_me A) contact (sd_id B) s c w1 = (Inr b, w2)"
    "postOrPark (sd_env A) (sd_id B) b lid True ttl' (w2\<lparr>tick := Suc (tick w2)\<rparr>) = (Inr y, w3)"
    "holds w3 w'" "netlog w' = netlog w3" "outbox_tbl (idb w') = outbox_tbl (idb w3)" "outbox_next (idb w') = outbox_next (idb w3)"
proof -
  let ?E = "sd_env A" and ?mc = "sd_mc A" and ?p = "sd_id B"
  define ttl' where "ttl' = orElse ttl DEFAULT_TTL_SECONDS"
  obtain row where key: "keyOf w = Some (sd_key A)" and bc: "bundleCache w = Some (sd_me A)"
    and ct: "tget (contacts_tbl (idb w)) ?p = Some row" "c_ik_x25519_pub row = Some (x25519_pub (b_identity (sd_me B)))"
    using kn by (auto simp: knows_def)
  obtain r where r: "tget (sessions_tbl (idb w)) ?p = Some r" "sessionOf ?E (sd_key A) r = Some s"
    using ses by (auto simp: sessionAt_def split: bind_splits)
  have "myBundle ?E w = (Inr (sd_me A), w)" using bc by (simp add: myBundle_def)
  then obtain contact w1 where t: "sendTarget ?E ?p (Some st) w = (Inr contact, w1)"
    and r1: "await (sessionFor ?E ?p) (\<lambda>session.
         await (nowSecs ?E) (\<lambda>ts.
         await (sealMessage ?E ?mc (sd_me A) contact ?p session c) (\<lambda>sealedB64.
         await (randomUUID ?E) (\<lambda>localId.
         await (postOrPark ?E ?p sealedB64 localId True ttl') (\<lambda>(msgId, status).
         andThen (storeSent ?E (sd_me A) msgId ?p status ts st) (ret msgId)))))) w1 = (Inr x, w')"
    using run unfolding sealAndSend_def Let_def ttl'_def [symmetric] by (auto elim: await_Inr_cases)
  have c1: "calm w w1" and q1: "quiet w w1" using keepsD [OF keeps_sendTarget t] quiet_calm by auto
  then have k1: "keyOf w1 = Some (sd_key A)" "tget (sessions_tbl (idb w1)) ?p = Some r" using key r by (auto simp: calm_def)
  have "sessionFor ?E ?p w1 = (Inr s, w1)" by (simp add: sessionFor_def loadSession_sessionOf [OF k1 r(2)])
  then obtain b w2 where s2: "sealMessage ?E ?mc (sd_me A) contact ?p s c (w1\<lparr>tick := Suc (tick w1)\<rparr>) = (Inr b, w2)"
    and r2: "await (randomUUID ?E) (\<lambda>localId.
         await (postOrPark ?E ?p b localId True ttl') (\<lambda>(msgId, status).
         andThen (storeSent ?E (sd_me A) msgId ?p status (date_now ?E (tick w1) div 1000) st) (ret msgId))) w2 = (Inr x, w')"
    using r1 by (auto elim: await_Inr_cases)
  then obtain m status w3 where p3: "postOrPark ?E ?p b (rand_uuid ?E (tick w2)) True ttl' (w2\<lparr>tick := Suc (tick w2)\<rparr>) = (Inr (m, status), w3)"
    and r3: "andThen (storeSent ?E (sd_me A) m ?p status (date_now ?E (tick w1) div 1000) st) (ret m) w3 = (Inr x, w')"
    by (auto elim!: await_Inr_cases)
  have st3: "storeSent ?E (sd_me A) m ?p status (date_now ?E (tick w1) div 1000) st w3 = (Inr (), w')"
    using r3 by (auto simp: andThen_def elim!: await_Inr_cases)
  have "keeps holds (storeSent ?E (sd_me A) m ?p status (date_now ?E (tick w1) div 1000) st)" by (rule keeps_hl_storeSent)
  then have h: "holds w3 w'" using st3 by (rule keepsD)
  have n: "netlog w' = netlog w3" using keepsD [OF keeps_off_storeSent st3] by (simp add: offline_def)
  have o: "outbox_tbl (idb w') = outbox_tbl (idb w3) \<and> outbox_next (idb w') = outbox_next (idb w3)"
    using keepsD [OF keeps_outbox_storeSent st3] by (simp add: sameOutbox_def)
  show thesis
    using that [of "w1\<lparr>tick := Suc (tick w1)\<rparr>" contact b w2] c1 quietD(3,4) [OF q1] contact_row_x25519 [OF t ct] s2 p3 h n o
    by (auto simp: calm_def keyOf_def)
qed

lemma sealed_packet:
  assumes wire: "sameWire A B" and seals: "seals_for A B" and own: "ownCert A cert until"
    and enc: "mc_sealedSenderEncrypt (sd_mc A) t (encodeEnvelope (sd_env A) h c None) cert (x25519_pub (b_identity (sd_me B))) = Inr sld"
    and time: "safeInt ts" and token: "\<forall>r. rr = Some r \<longrightarrow> rr_tokenId r \<noteq> []"
  shows "packet A B \<lparr>fl_blob = b64encode sld, fl_text = text, fl_until = until\<rparr> (c, h, encodeText (sd_env A) text ts rr)"
proof -
  let ?e = "encodeEnvelope (sd_env A) h c None"
  have "decodeEnvelope (sd_env B) ?e = decodeEnvelope (sd_env A) ?e" "\<And>x. decodeContent (sd_env B) x = decodeContent (sd_env A) x"
    using wire by (simp_all add: sameWire_def decodeEnvelope_def decodeContent_def)
  moreover have "codec_correct (sd_env A)" using wire by (simp add: sameWire_def)
  ultimately have "decodeEnvelope (sd_env B) ?e = Inr \<lparr>de_header = h, de_ciphertext = c, de_pqxdh = None, de_deviceSync = None\<rparr>"
    "decodeContent (sd_env B) (encodeText (sd_env A) text ts rr) =
       Inr (noContent\<lparr>dc_text := Some \<lparr>dt_body = text, dt_sentAt = ts\<rparr>, dc_receiptRequest := rr\<rparr>)"
    using decodeEnvelope_encode [of "sd_env A" None "\<lparr>ds_toDevice = [1], ds_fromDevice = [], ds_blob = []\<rparr>"]
      decodeContent_encode [OF _ time token] by simp_all
  moreover have "\<forall>t n. mc_sealedSenderDecrypt (sd_mc B) t sld (x25519_priv (b_identity (sd_me B))) n = Inr (openedFrom A ?e until n)"
    using seals own enc unfolding seals_for_def by blast
  ultimately show ?thesis
    unfolding packet_def by (rule_tac x = sld in exI, rule_tac x = ?e in exI) auto
qed

lemma send_adds:
  assumes wire: "sameWire A B" and rat: "ratchet_delivers A B linked" and seals: "seals_for A B"
    and kn: "knows A B w" and ses: "sessionAt A (sd_id B) w = Some s" and pq: "ls_pqxdhInit s = None"
    and link: "linked (ls_ratchetState s) b q"
    and run: "sendMessage (sd_env A) (sd_mc A) (sd_id B) text ttl w = (Inr (), w')"
    and time: "safeInt (date_now (sd_env A) (tick w) div 1000)" "safeInt (date_now (sd_env A) (Suc (tick w)) div 1000)"
    and lf: "left (sd_env A) (sd_id B) w w' blob" and cert: "certCache w' = Some (crt, until)"
  shows "knows A B w' \<and> (\<exists>s' m. sessionAt A (sd_id B) w' = Some s' \<and> ls_pqxdhInit s' = None \<and>
    linked (ls_ratchetState s') b (q @ [m]) \<and> packet A B \<lparr>fl_blob = blob, fl_text = text, fl_until = until\<rparr> m)"
proof -
  let ?E = "sd_env A" and ?p = "sd_id B"
  obtain rq w0 where rq: "buildReceiptRequest ?E w = (Inr rq, w0)" "w0 = w \<or> w0 = w\<lparr>tick := Suc (tick w)\<rparr>"
    "\<forall>r. map_option fst rq = Some r \<longrightarrow> rr_tokenId r \<noteq> []"
    using run_buildReceiptRequest [of ?E w] by (cases "buildReceiptRequest ?E w") auto
  let ?ts = "date_now ?E (tick w0) div 1000" and ?w = "w0\<lparr>tick := Suc (tick w0)\<rparr>"
  let ?c = "encodeText ?E text ?ts (map_option fst rq)"
  have ts: "safeInt ?ts" using time rq(2) by auto
  have kn0: "knows A B ?w" and ses0: "sessionAt A ?p ?w = Some s"
    using kn ses rq(2) by (auto simp: knows_def sessionAt_def)
  obtain x where "sealAndSend ?E (sd_mc A) ?p ?c
      (Some \<lparr>sq_content = text, sq_kind = KText, sq_receiptToken = map_option snd rq\<rparr>) ttl ?w = (Inr x, w')"
    using run rq(1) by (auto simp: sendMessage_def andThen_def elim!: await_Inr_cases)
  then obtain contact w1 bb w2 y w3 ttl' lid where c1: "calm ?w w1" "bundleCache w1 = bundleCache ?w" "certCache w1 = certCache ?w"
    and x: "pc_ik_x25519 contact = x25519_pub (b_identity (sd_me B))"
    and sl: "sealMessage ?E (sd_mc A) (sd_me A) contact ?p s ?c w1 = (Inr bb, w2)"
    and pp: "postOrPark ?E ?p bb lid True ttl' (w2\<lparr>tick := Suc (tick w2)\<rparr>) = (Inr y, w3)"
    and h: "holds w3 w'" and same: "netlog w' = netlog w3" "outbox_tbl (idb w') = outbox_tbl (idb w3)"
      "outbox_next (idb w') = outbox_next (idb w3)"
    by (rule sealAndSend_run [OF kn0 ses0])
  obtain row where row: "tget (sessions_tbl (idb w1)) ?p = Some row" "sessionOf ?E (sd_key A) row = Some s"
    using ses0 c1(1) by (auto simp: sessionAt_def calm_def split: bind_splits)
  have k1: "keyOf w1 = Some (sd_key A)" and own1: "\<And>c x. certCache w1 = Some (c, x) \<Longrightarrow> ownCert A c x"
    using kn0 c1 by (auto simp: knows_def calm_def)
  have aes: "aes_correct ?E" using wire by (simp add: sameWire_def)
  obtain enc cert x' t sld row' where e: "mc_ratchetEncrypt (sd_mc A) (tick w1) (ls_ratchetState s) ?c = Inr enc"
    and own: "ownCert A cert x'" "certCache w2 = Some (cert, x')"
    and sld: "mc_sealedSenderEncrypt (sd_mc A) t (encodeEnvelope ?E (re_header enc) (re_ciphertext enc) None) cert
       (pc_ik_x25519 contact) = Inr sld" "bb = b64encode sld"
    and k2: "keyOf w2 = Some (sd_key A)" "bundleCache w2 = bundleCache w1" "contacts_tbl (idb w2) = contacts_tbl (idb w1)"
    and o2: "netlog w2 = netlog w1" "outbox_tbl (idb w2) = outbox_tbl (idb w1)" "outbox_next (idb w2) = outbox_next (idb w1)"
    and row2: "tget (sessions_tbl (idb w2)) ?p = Some row'" "sessionOf ?E (sd_key A) row' = Some (s\<lparr>ls_ratchetState := re_newState enc\<rparr>)"
    by (rule sealMessage_run [OF aes k1 row pq own1 sl])
  have h3: "holds w2 w'"
    using holds_postOrPark [OF pp] h hl.step_trans by (auto simp: holds_def)
  have w2: "idb w1 = idb w" "netlog w1 = netlog w" using c1(1) rq(2) by (auto simp: calm_def)
  have "left ?E ?p (w2\<lparr>tick := Suc (tick w2)\<rparr>) w' blob"
    using lf o2 w2 by (simp add: left_def)
  then have blob: "blob = b64encode sld"
    using postOrPark_left [OF pp _ same] sld(2) by simp
  have until: "x' = until" using h3 own(2) cert by (simp add: holds_def)
  have kn': "knows A B w'"
    using kn0 h3 k2 own c1 w2(1) rq(2) cert by (auto simp: knows_def holds_def)
  moreover have "sessionAt A ?p w' = Some (s\<lparr>ls_ratchetState := re_newState enc\<rparr>)"
    using row2 h3 by (simp add: sessionAt_def holds_def)
  moreover have "linked (re_newState enc) b (q @ [(re_ciphertext enc, re_header enc, ?c)])"
    using rat link e unfolding ratchet_delivers_def by blast
  moreover have "packet A B \<lparr>fl_blob = blob, fl_text = text, fl_until = until\<rparr> (re_ciphertext enc, re_header enc, ?c)"
    unfolding blob until [symmetric]
    by (rule sealed_packet [OF wire seals own(1) sld(1) [unfolded x] ts rq(3)])
  ultimately show ?thesis using pq by auto
qed

section \<open>A delivery stores one message\<close>

definition after :: "world \<Rightarrow> world \<Rightarrow> bool" where
  "after w w' \<longleftrightarrow> holds w w' \<and> messages_tbl (idb w') = messages_tbl (idb w)"

interpretation af: step_relation after
  by unfold_locales (auto simp: after_def intro: hl.step_refl hl.step_trans)

lemma keeps_af_quiet: "keeps quiet m \<Longrightarrow> keeps after m"
  by (erule keeps_mono) (simp add: after_def quiet_holds quietD)

lemma keeps_af_prims:
  "keeps after (emit ev)" "keeps after (spawn t)" "keeps after (dbModify (received_tbl_update f))"
  "keeps after (dbModify (\<lambda>d. d\<lparr>receipt_next := g d, receipt_tbl := h d\<rparr>))"
  by (simp_all add: keeps_def after_def holds_def)

lemma keeps_af_queue: "keeps after (queueDeliveryReceipt E s t)"
  unfolding queueDeliveryReceipt_def queueReceipt_def deliveryReceiptsEnabled_def receiptPrivacyDelayEnabled_def flag_def
  by (intro af.keeps_rules keeps_af_prims keeps_af_quiet keeps_intro)

lemma keeps_af_ack: "keeps after (ackDelivered E i)"
proof -
  have "keeps after (ackMessages E [i] tok)" for tok
    by (rule keepsI) (simp add: after_def holds_def keyOf_def)
  note ack = this
  show ?thesis unfolding ackDelivered_def token_def
    by (intro af.keeps_rules ack keeps_af_prims keeps_af_quiet keeps_intro)
qed

lemma run_messages_add:
  "keyOf w = Some k \<Longrightarrow> messages_add E m w = (Inr (), w\<lparr>tick := Suc (tick w), idb := messages_tbl_update (tput (p_msg_id m)
     (messageRow m (ivAt E (tick w) @ aes_enc E k (ivAt E (tick w)) (textEncode (p_content m))))) (idb w)\<rparr>)"
  by (simp add: messages_add_def getMasterKey_keyOf)

text \<open>What storing an incoming text leaves, whatever becomes of its receipt and its
  acknowledgement.\<close>

lemma storeIncoming_stores:
  assumes aes: "aes_correct (sd_env S)" and key: "keyOf w = Some (sd_key S)"
    and run: "storeIncoming (sd_env S) ws anchor peer status text KText ts rr w = (r, w')"
  shows "holds w w' \<and> storedText S peer (idb w') (ws_message_id ws, text, status) \<and>
    (\<forall>i. i \<noteq> ws_message_id ws \<longrightarrow> tget (messages_tbl (idb w')) i = tget (messages_tbl (idb w)) i)"
proof -
  let ?E = "sd_env S"
  obtain t w1 where t: "(if ts \<noteq> 0 then ret ts else if ws_queued_at ws \<noteq> 0 then ret (ws_queued_at ws) else nowSecs ?E) w = (Inr t, w1)"
    and w1: "w1 = w \<or> w1 = w\<lparr>tick := Suc (tick w)\<rparr>"
    by (cases "ts \<noteq> 0"; cases "ws_queued_at ws \<noteq> 0") auto
  define row where "row = incomingRow ws peer t anchor (date_now ?E (tick w1)) text status KText rr"
  let ?w2 = "w1\<lparr>tick := Suc (tick w1)\<rparr>"
  let ?rest = "andThen (spawn (TBackup row)) (
      andThen (case rr of None \<Rightarrow> ret ()
               | Some r \<Rightarrow> whenM (rr_requestDelivery r) (queueDeliveryReceipt ?E peer (rr_tokenId r))) (
      andThen (ackDelivered ?E (ws_message_id ws)) (emit (EvMessage peer))))"
  have "keyOf ?w2 = Some (sd_key S)" using key w1 by auto
  note add = run_messages_add [OF this, of ?E row]
  define w3 where "w3 = snd (messages_add ?E row ?w2)"
  have w3: "messages_add ?E row ?w2 = (Inr (), w3)" using add by (simp add: w3_def)
  have "storeIncoming ?E ws anchor peer status text KText ts rr w = ?rest w3"
    using t w3 by (simp add: storeIncoming_def Let_def row_def [symmetric])
  then have rest: "?rest w3 = (r, w')" using run by (rule trans [OF sym])
  have "keeps after ?rest"
    by (intro af.keeps_rules keeps_af_prims keeps_af_queue keeps_af_ack)
  then have "after w3 w'" using rest by (rule keepsD)
  moreover have fields: "p_msg_id row = ws_message_id ws" "p_content row = text" "p_session_id row = peer" "p_direction row = DirIn"
    "p_kind row = KText" "p_status row = status"
    by (simp_all add: row_def incomingRow_def)
  have "holds w w3" "\<forall>i. i \<noteq> ws_message_id ws \<longrightarrow> tget (messages_tbl (idb w3)) i = tget (messages_tbl (idb w)) i"
    using w1 by (auto simp: w3_def add holds_def fields)
  moreover have "storedText S peer (idb w3) (ws_message_id ws, text, status)"
    using aes by (simp add: w3_def add storedText_def messageRow_def fields)
  ultimately show ?thesis using hl.step_trans by (fastforce simp: after_def storedText_def)
qed

lemma accepts_contact:
  assumes "accepts B A w"
  shows "\<exists>c. getContact (sd_env B) (sd_id A) w = (Inr (Some c), w) \<and> pc_status c = Accepted"
    "isBlocked (sd_env B) (sd_id A) w = (Inr False, w)"
    "isKeyChanged (sd_id A) (ed25519_pub (b_identity (sd_me A))) w = (Inr False, w)"
proof -
  obtain row where row: "tget (contacts_tbl (idb w)) (sd_id A) = Some row" "orElse (c_status row) Accepted = Accepted"
    "c_ik_ed25519_pub row \<in> {None, Some (ed25519_pub (b_identity (sd_me A)))}"
    "\<forall>n. c_display_name_enc row = Some n \<longrightarrow> reads (sd_env B) (sd_key B) n \<noteq> None"
    using assms by (auto simp: accepts_def)
  have key: "getMasterKey (sd_env B) w = (Inr (sd_key B), w)" using assms getMasterKey_keyOf by (simp add: accepts_def)
  show c: "\<exists>c. getContact (sd_env B) (sd_id A) w = (Inr (Some c), w) \<and> pc_status c = Accepted"
    using row by (cases "c_display_name_enc row")
      (auto simp: getContact_def contactsStore_def attempt_def key contacts_get_def contacts_toPlain_def run_decryptString)
  then show "isBlocked (sd_env B) (sd_id A) w = (Inr False, w)" by (auto simp: isBlocked_def)
  show "isKeyChanged (sd_id A) (ed25519_pub (b_identity (sd_me A))) w = (Inr False, w)"
    using row by (auto simp: isKeyChanged_def)
qed

text \<open>Opening the session and decrypting.\<close>

lemma decrypt_saves:
  assumes aes: "aes_correct (sd_env B)" and acc: "accepts B A w" and ses: "sessionAt B (sd_id A) w = Some s"
    and dec: "\<And>t. \<exists>b'. mc_ratchetDecrypt (sd_mc B) t (ls_ratchetState s) c h = Inr \<lparr>rd_plaintext = p, rd_newState = b'\<rparr> \<and> P b'"
  obtains w1 s' where
    "decryptDelivery (sd_env B) (sd_mc B) (sd_me B) i anchor (openedFrom A e until n) False verified
       \<lparr>de_header = h, de_ciphertext = c, de_pqxdh = None, de_deviceSync = None\<rparr> prior w = (Inr (Plain p), w1)"
    "accepts B A w1" "sessionAt B (sd_id A) w1 = Some s'" "P (ls_ratchetState s')" "messages_tbl (idb w1) = messages_tbl (idb w)"
proof -
  let ?E = "sd_env B" and ?p = "sd_id A"
  obtain b' where b': "mc_ratchetDecrypt (sd_mc B) (tick w) (ls_ratchetState s) c h = Inr \<lparr>rd_plaintext = p, rd_newState = b'\<rparr>" "P b'"
    using dec by blast
  have key: "keyOf w = Some (sd_key B)" using acc by (simp add: accepts_def)
  obtain row where row: "tget (sessions_tbl (idb w)) ?p = Some row" "sessionOf ?E (sd_key B) row = Some s"
    using ses by (auto simp: sessionAt_def split: bind_splits)
  define blob where "blob = ivAt ?E (Suc (tick w)) @ aes_enc ?E (sd_key B) (ivAt ?E (Suc (tick w))) (textEncode (toHex b'))"
  define row' where "row' = (if ls_receivedOk s then row\<lparr>se_ratchet_state_enc := blob\<rparr>
     else row\<lparr>se_ratchet_state_enc := blob, se_received_ok := Some True\<rparr>)"
  define w1 where "w1 = snd (andThen (saveRatchetState ?E ?p b') (whenM (\<not> ls_receivedOk s) (markSessionReceived ?p)) (w\<lparr>tick := Suc (tick w)\<rparr>))"
  have key1: "keyOf (w\<lparr>tick := Suc (tick w)\<rparr>) = Some (sd_key B)" using key by simp
  note save = run_saveRatchetState [OF key1, of ?E ?p b']
  have w1: "idb w1 = sessions_tbl_update (\<lambda>_. sessions_tbl (idb w1)) (idb w)" "keyOf w1 = keyOf w" "bundleCache w1 = bundleCache w"
    "tget (sessions_tbl (idb w1)) ?p = Some row'"
    using row by (cases "ls_receivedOk s"; simp add: w1_def save markSessionReceived_def row'_def blob_def)+
  have ld: "loadSession ?E ?p w = (Inr (Some s), w)" by (rule loadSession_sessionOf [OF key row])
  let ?e = "\<lparr>de_header = h, de_ciphertext = c, de_pqxdh = None, de_deviceSync = None\<rparr>"
  have "useSession ?E (sd_mc B) (sd_me B) i anchor ?p verified ?e (Some s) w = (Inr (Plain p), w1)"
    using b'(1) by (cases "ls_receivedOk s") (simp_all add: useSession_def attempt_def save markSessionReceived_def w1_def)
  then have "decryptDelivery ?E (sd_mc B) (sd_me B) i anchor (openedFrom A e until n) False verified ?e prior w = (Inr (Plain p), w1)"
    using ld by (simp add: decryptDelivery_def Let_def)
  moreover have tbls: "contacts_tbl (idb w1) = contacts_tbl (idb w)" "messages_tbl (idb w1) = messages_tbl (idb w)"
    by (subst w1(1), simp)+
  moreover have "accepts B A w1" using acc by (simp add: accepts_def w1(2,3) tbls(1))
  moreover have "\<exists>s'. sessionOf ?E (sd_key B) row' = Some s' \<and> ls_ratchetState s' = b'"
    using row(2) aes by (auto simp: sessionOf_def row'_def blob_def split: option.splits bind_splits)
  ultimately show thesis using that b'(2) w1(4) by (auto simp: sessionAt_def)
qed

lemma dispatch_stores:
  assumes aes: "aes_correct (sd_env B)" and acc: "accepts B A w" and ses: "sessionAt B (sd_id A) w = Some s"
    and dec: "\<And>t. \<exists>b'. mc_ratchetDecrypt (sd_mc B) t (ls_ratchetState s) c h = Inr \<lparr>rd_plaintext = p, rd_newState = b'\<rparr> \<and> P b'"
    and cont: "decodeContent (sd_env B) p = Inr (noContent\<lparr>dc_text := Some \<lparr>dt_body = text, dt_sentAt = ts\<rparr>, dc_receiptRequest := rr\<rparr>)"
    and run: "dispatch (sd_env B) (sd_mc B) (sd_me B) ws anchor (openedFrom A e until n)
       \<lparr>de_header = h, de_ciphertext = c, de_pqxdh = None, de_deviceSync = None\<rparr> w = (r, w')"
  shows "accepts B A w' \<and> (\<exists>s'. sessionAt B (sd_id A) w' = Some s' \<and> P (ls_ratchetState s')) \<and>
    storedText B (sd_id A) (idb w') (ws_message_id ws, text, incomingStatus False (n \<le> until)) \<and>
    (\<forall>i. i \<noteq> ws_message_id ws \<longrightarrow> tget (messages_tbl (idb w')) i = tget (messages_tbl (idb w)) i)"
proof -
  let ?E = "sd_env B" and ?p = "sd_id A" and ?e = "\<lparr>de_header = h, de_ciphertext = c, de_pqxdh = None, de_deviceSync = None\<rparr>"
  obtain c0 where c0: "getContact ?E ?p w = (Inr (Some c0), w)" "pc_status c0 = Accepted" using accepts_contact(1) [OF acc] by blast
  obtain w1 s' where d: "decryptDelivery ?E (sd_mc B) (sd_me B) (ws_message_id ws) anchor (openedFrom A e until n) False (n \<le> until)
       ?e (Some Accepted) w = (Inr (Plain p), w1)"
    and s': "accepts B A w1" "sessionAt B ?p w1 = Some s'" "P (ls_ratchetState s')" "messages_tbl (idb w1) = messages_tbl (idb w)"
    by (rule decrypt_saves [OF aes acc ses dec])
  have kc: "isKeyChanged ?p (ed25519_pub (b_identity (sd_me A))) w = (Inr False, w)" and bl: "isBlocked ?E ?p w = (Inr False, w)"
    using accepts_contact [OF acc] by blast+
  have "dispatch ?E (sd_mc B) (sd_me B) ws anchor (openedFrom A e until n) ?e w =
      handleContent ?E (sd_mc B) (sd_me B) ws anchor ?p False (n \<le> until) (Some Accepted) p w1"
    unfolding dispatch_def Let_def openedFrom_simps
    by (simp add: run_await_Inr [where m = "isKeyChanged ?p (ed25519_pub (b_identity (sd_me A)))" and w = w, OF kc]
        run_await_Inr [where m = "isBlocked ?E ?p" and w = w, OF bl] run_await_Inr [where m = "getContact ?E ?p" and w = w, OF c0(1)] c0(2) d)
  moreover have "handleContent ?E (sd_mc B) (sd_me B) ws anchor ?p False (n \<le> until) (Some Accepted) p w1 =
      storeIncoming ?E ws anchor ?p (incomingStatus False (n \<le> until)) text KText ts rr w1"
    by (simp add: handleContent_def cont noContent_def)
  ultimately have "storeIncoming ?E ws anchor ?p (incomingStatus False (n \<le> until)) text KText ts rr w1 = (r, w')"
    using run by metis
  from storeIncoming_stores [OF aes _ this] s' show ?thesis by (auto simp: accepts_def holds_def sessionAt_def)
qed

lemma receive_stores:
  assumes wire: "sameWire A B" and rat: "ratchet_delivers A B linked" and acc: "accepts B A w"
    and ses: "sessionAt B (sd_id A) w = Some s" and link: "linked a (ls_ratchetState s) (q1 @ m # q2)" "length q1 < 1000"
    and pk: "packet A B f m" and ws: "ws_content ws = fl_blob f" "tget (received_tbl (idb w)) (ws_message_id ws) = None"
    and run: "receiveMessage (sd_env B) (sd_mc B) v ws w = (r, w')"
  shows "accepts B A w' \<and> (\<exists>s'. sessionAt B (sd_id A) w' = Some s' \<and> linked a (ls_ratchetState s') (q1 @ q2)) \<and>
    storedText B (sd_id A) (idb w') (ws_message_id ws, fl_text f, incomingStatus False (certTime (sd_env B) v ws w \<le> fl_until f)) \<and>
    (\<forall>i. i \<noteq> ws_message_id ws \<longrightarrow> tget (messages_tbl (idb w')) i = tget (messages_tbl (idb w)) i)"
proof -
  let ?E = "sd_env B"
  obtain c h p where m: "m = (c, h, p)" by (cases m)
  obtain sld e ts rr where blob: "fl_blob f = b64encode sld"
    and opn: "\<And>t n. mc_sealedSenderDecrypt (sd_mc B) t sld (x25519_priv (b_identity (sd_me B))) n = Inr (openedFrom A e (fl_until f) n)"
    and env: "decodeEnvelope ?E e = Inr \<lparr>de_header = h, de_ciphertext = c, de_pqxdh = None, de_deviceSync = None\<rparr>"
    and cont: "decodeContent ?E p = Inr (noContent\<lparr>dc_text := Some \<lparr>dt_body = fl_text f, dt_sentAt = ts\<rparr>, dc_receiptRequest := rr\<rparr>)"
    using pk by (auto simp: packet_def m)
  obtain res w1 where t: "checkDeliveryTime ?E ws v w = (Inr res, w1)" and cs: "clockStep w w1" using checkDeliveryTime_run by blast
  have k: "keyOf w1 = Some (sd_key B)" "bundleCache w1 = Some (sd_me B)" "idb w1 = idb w"
    using keepsD [OF keeps_cm_time t] clockStepD [OF cs] acc by (auto simp: accepts_def calm_def)
  let ?n = "certTime ?E v ws w"
  obtain w2 where w2: "(case tv_anchor res of Some a \<Rightarrow> ret a | None \<Rightarrow> nowSecs ?E) w1 = (Inr ?n, w2)"
    "w2 = w1 \<or> w2 = w1\<lparr>tick := Suc (tick w1)\<rparr>"
    by (cases "tv_anchor res") (auto simp: certTime_def t)
  let ?w3 = "w2\<lparr>tick := Suc (tick w2)\<rparr>"
  let ?e = "\<lparr>de_header = h, de_ciphertext = c, de_pqxdh = None, de_deviceSync = None\<rparr>"
  have "attempt (openSealed ?E (sd_mc B) (sd_me B) sld ?n) w2 = (Inr (Inr (openedFrom A e (fl_until f) ?n, ?e)), ?w3)"
    using opn env by (simp add: attempt_def openSealed_def)
  then have run': "dispatch ?E (sd_mc B) (sd_me B) ws (tv_anchor res) (openedFrom A e (fl_until f) ?n) ?e ?w3 = (r, w')"
    using run t ws blob k w2(1) by (simp add: receiveMessage_def myBundle_def)
  have acc3: "accepts B A ?w3" and ses3: "sessionAt B (sd_id A) ?w3 = Some s" and idb3: "idb ?w3 = idb w"
    using acc ses k w2(2) by (auto simp: accepts_def sessionAt_def)
  have dec: "\<exists>b'. mc_ratchetDecrypt (sd_mc B) t (ls_ratchetState s) c h = Inr \<lparr>rd_plaintext = p, rd_newState = b'\<rparr> \<and> linked a b' (q1 @ q2)" for t
    using rat link unfolding ratchet_delivers_def m by blast
  have aes: "aes_correct ?E" using wire by (simp add: sameWire_def)
  from dispatch_stores [OF aes acc3 ses3 dec cont run'] show ?thesis unfolding idb3 .
qed

section \<open>Conversations\<close>

lemma storedText_cong: "tget (messages_tbl d') (fst g) = tget (messages_tbl d) (fst g) \<Longrightarrow> storedText S peer d' g = storedText S peer d g"
  by (cases g) (simp add: storedText_def)

lemma inStep_says:
  assumes "sameWire A B" "ratchet_delivers A B linked" "seals_for A B" and t: "inStep A B linked t"
    and "sendMessage (sd_env A) (sd_mc A) (sd_id B) text ttl (tk_a t) = (Inr (), w')"
    "safeInt (date_now (sd_env A) (tick (tk_a t)) div 1000)" "safeInt (date_now (sd_env A) (Suc (tick (tk_a t))) div 1000)"
    "left (sd_env A) (sd_id B) (tk_a t) w' blob" "certCache w' = Some (cert, until)"
  shows "inStep A B linked (t\<lparr>tk_a := w', tk_flying := tk_flying t @ [\<lparr>fl_blob = blob, fl_text = text, fl_until = until\<rparr>]\<rparr>)"
proof -
  obtain sa sb q where s: "knows A B (tk_a t)" "sessionAt A (sd_id B) (tk_a t) = Some sa" "ls_pqxdhInit sa = None"
    "sessionAt B (sd_id A) (tk_b t) = Some sb" "linked (ls_ratchetState sa) (ls_ratchetState sb) q" "list_all2 (packet A B) (tk_flying t) q"
    using t by (auto simp: inStep_def)
  from send_adds [OF assms(1-3) s(1-3,5) assms(5-9)] obtain s' m where
    "knows A B w'" "sessionAt A (sd_id B) w' = Some s'" "ls_pqxdhInit s' = None"
    "linked (ls_ratchetState s') (ls_ratchetState sb) (q @ [m])" "packet A B \<lparr>fl_blob = blob, fl_text = text, fl_until = until\<rparr> m"
    by blast
  moreover have "list_all2 (packet A B) (tk_flying t @ [\<lparr>fl_blob = blob, fl_text = text, fl_until = until\<rparr>]) (q @ [m])"
    using s(6) \<open>packet A B _ m\<close> by (simp add: list_all2_appendI)
  ultimately show ?thesis using t s(4) unfolding inStep_def by auto
qed

lemma inStep_hears:
  assumes wire: "sameWire A B" and rat: "ratchet_delivers A B linked" and t: "inStep A B linked t"
    and fl: "tk_flying t = q1 @ f # q2" "length q1 < 1000"
    and ws: "ws_content ws = fl_blob f" "ws_message_id ws \<notin> fst ` set (tk_got t)"
      "tget (received_tbl (idb (tk_b t))) (ws_message_id ws) = None"
    and run: "receiveMessage (sd_env B) (sd_mc B) v ws (tk_b t) = (r, w')"
  shows "inStep A B linked (t\<lparr>tk_b := w', tk_flying := q1 @ q2, tk_got := tk_got t @ [(ws_message_id ws, fl_text f,
       incomingStatus False (certTime (sd_env B) v ws (tk_b t) \<le> fl_until f))]\<rparr>)"
proof -
  obtain sa sb q where s: "knows A B (tk_a t)" "accepts B A (tk_b t)" "sessionAt A (sd_id B) (tk_a t) = Some sa" "ls_pqxdhInit sa = None"
    "sessionAt B (sd_id A) (tk_b t) = Some sb" "linked (ls_ratchetState sa) (ls_ratchetState sb) q" "list_all2 (packet A B) (q1 @ f # q2) q"
    "list_all (storedText B (sd_id A) (idb (tk_b t))) (tk_got t)"
    using t fl(1) by (auto simp: inStep_def)
  obtain p1 m p2 where q: "q = p1 @ m # p2" "list_all2 (packet A B) q1 p1" "packet A B f m" "list_all2 (packet A B) q2 p2"
    using s(7) by (auto simp: list_all2_append1 list_all2_Cons1)
  have len: "length p1 < 1000" using fl(2) q(2) list_all2_lengthD by fastforce
  note rs = receive_stores [OF wire rat s(2,5) s(6) [unfolded q(1)] len q(3) ws(1,3) run]
  have "list_all (storedText B (sd_id A) (idb w')) (tk_got t)"
    unfolding list_all_iff
  proof
    fix g assume g: "g \<in> set (tk_got t)"
    then have "fst g \<noteq> ws_message_id ws" using ws(2) by force
    then have "tget (messages_tbl (idb w')) (fst g) = tget (messages_tbl (idb (tk_b t))) (fst g)" using rs by blast
    from storedText_cong [OF this] show "storedText B (sd_id A) (idb w') g" using s(8) g by (simp add: list_all_iff)
  qed
  moreover obtain s' where "sessionAt B (sd_id A) w' = Some s'" "linked (ls_ratchetState sa) (ls_ratchetState s') (p1 @ p2)"
    using rs by blast
  moreover have "list_all2 (packet A B) (q1 @ q2) (p1 @ p2)" by (rule list_all2_appendI [OF q(2,4)])
  moreover have "accepts B A w'" "storedText B (sd_id A) (idb w') (ws_message_id ws, fl_text f,
       incomingStatus False (certTime (sd_env B) v ws (tk_b t) \<le> fl_until f))" using rs by blast+
  ultimately show ?thesis using s(1,3,4) unfolding inStep_def
    by (intro conjI exI [where x = sa] exI [where x = s'] exI [where x = "p1 @ p2"]) simp_all
qed

lemma inStep_aside:
  assumes t: "inStep A B linked t" and "elsewhere (sd_id B) (tk_a t) wa" "elsewhere (sd_id A) (tk_b t) wb"
    and "\<forall>i \<in> fst ` set (tk_got t). tget (messages_tbl (idb wb)) i = tget (messages_tbl (idb (tk_b t))) i"
  shows "inStep A B linked (t\<lparr>tk_a := wa, tk_b := wb\<rparr>)"
proof -
  have "list_all (storedText B (sd_id A) (idb wb)) (tk_got t)"
    using t assms(4) storedText_cong [of "idb wb" _ "idb (tk_b t)"] by (auto simp: inStep_def list_all_iff)
  moreover have "knows A B wa" "accepts B A wb" "sessionAt A (sd_id B) wa = sessionAt A (sd_id B) (tk_a t)"
    "sessionAt B (sd_id A) wb = sessionAt B (sd_id A) (tk_b t)"
    using t assms(2,3) by (auto simp: inStep_def elsewhere_def knows_def accepts_def sessionAt_def)
  ultimately show ?thesis using t by (auto simp: inStep_def)
qed

lemma talks_inStep:
  assumes "talks A B v t0 t" and "sameWire A B" "ratchet_delivers A B linked" "seals_for A B" "inStep A B linked t0"
  shows "inStep A B linked t"
  using assms(1)
proof (induction rule: talks.induct)
  case start
  show ?case by (rule assms(5))
next
  case (says t body ttl w' blob cert until)
  show ?case by (rule inStep_says [OF assms(2-4) says(7) says(2-6)])
next
  case (hears t q1 f q2 ws r w')
  show ?case by (rule inStep_hears [OF assms(2,3) hears(8) hears(2-7)])
next
  case (aside t wa wb)
  show ?case by (rule inStep_aside [OF aside(5) aside(2-4)])
qed

lemma storedText_read:
  assumes "storedText S peer (idb w) (i, text, status)" and "keyOf w = Some (sd_key S)"
  shows "\<exists>m. messages_get (sd_env S) i w = (Inr (Some m), w) \<and> p_session_id m = peer \<and> p_direction m = DirIn \<and>
    p_kind m = KText \<and> p_content m = text \<and> p_status m = status"
  using assms
  by (auto simp: storedText_def messages_get_def getMasterKey_keyOf rowToPlain_def run_decryptString)

text \<open>C1. What is sent arrives. Two devices hold a session with each other; one sends texts with
  \<open>sendMessage\<close>, the sealed blobs reach the other device in any order and some of them perhaps
  never, and it handles each with \<open>receiveMessage\<close>, while both do other things in between. Then
  every delivered blob leaves exactly the text that was sent: the receiver's message store
  gives it back under the delivery's id, in the conversation with the sender, marked received,
  or received unverified where the sender's certificate had run out by the time it is checked
  against. This holds whatever becomes of the acknowledgement and the receipt, and both
  devices are then ready for the next message.\<close>

theorem conversation_delivers:
  assumes "sameWire A B" and "ratchet_delivers A B linked" and "seals_for A B" and "inStep A B linked t0"
    and "talks A B v t0 t"
  shows "inStep A B linked t \<and>
    (\<forall>(i, text, status) \<in> set (tk_got t). \<exists>m. messages_get (sd_env B) i (tk_b t) = (Inr (Some m), tk_b t) \<and>
       p_session_id m = sd_id A \<and> p_direction m = DirIn \<and> p_kind m = KText \<and> p_content m = text \<and> p_status m = status)"
proof -
  have t: "inStep A B linked t" by (rule talks_inStep [OF assms(5,1-4)])
  then have "keyOf (tk_b t) = Some (sd_key B)" "list_all (storedText B (sd_id A) (idb (tk_b t))) (tk_got t)"
    by (auto simp: inStep_def accepts_def)
  then show ?thesis using t storedText_read by (fastforce simp: list_all_iff)
qed

end
