(* ===== verification/ConversationWitness.thy ===== *)
theory ConversationWitness
  imports Conversation MessagingWitnesses
begin

text \<open>
  An instance of the conversation property: two devices of the sample environment with a
  crypto core whose certificates expire, one text sent and delivered.
\<close>

section \<open>The crypto core\<close>

definition sealT :: "bytes \<Rightarrow> bytes \<Rightarrow> bytes" where
  "sealT m cert = textEncode (stringify (JArr [JStr (textDecode cert), jB m]))"

definition openT :: "bytes \<Rightarrow> int \<Rightarrow> error + wasmOpened" where
  "openT b n = (case json_parse (textDecode b) of
     Some (JArr [JStr c, m]) \<Rightarrow> (case json_parse c of
       Some (JNum u) \<Rightarrow> Inr \<lparr>wop_plaintext = unB (Some m), wop_sender_id = ''px_peer'', wop_sender_ed_pub = [9],
         wop_sender_x25519_pub = replicate 32 9, wop_sender_verified = (n \<le> u)\<rparr>
     | _ \<Rightarrow> Inl (JsError ''bad''))
   | _ \<Rightarrow> Inl (JsError ''bad''))"

definition wasmT :: wasmModule where
  "wasmT = wasm0\<lparr>w_generate_sender_cert := (\<lambda>t i a b c d x n v. Inr (textEncode (stringify (JNum (n + v))))),
     w_sealed_sender_encrypt := (\<lambda>t m c r. Inr (sealT m c)), w_sealed_sender_decrypt := (\<lambda>t b p n. openT b n)\<rparr>"

definition envT :: env where
  "envT = env0\<lparr>wasm := wasmT\<rparr>"

definition keysA :: IdentityKeys where
  "keysA = keys0\<lparr>ed25519_pub := [9], x25519_pub := replicate 32 9\<rparr>"

definition sideA :: side where
  "sideA = \<lparr>sd_env = envT, sd_mc = workerMessageCrypto envT, sd_me = bundle0\<lparr>b_userId := ''px_peer'', b_identity := keysA\<rparr>,
     sd_key = key0\<rparr>"

definition sideB :: side where
  "sideB = \<lparr>sd_env = envT, sd_mc = workerMessageCrypto envT, sd_me = bundle0, sd_key = key0\<rparr>"

definition contactB :: ContactRow where
  "contactB = \<lparr>c_px_id = ''px_me'', c_ik_ed25519_pub = Some [1], c_ik_x25519_pub = Some [7], c_display_name_enc = None,
      c_verified_fingerprint = None, c_status = Some Accepted, c_added_at = 0\<rparr>"

definition worldA :: world where
  "worldA = world0\<lparr>bundleCache := Some (sd_me sideA), idb := db0\<lparr>sessions_tbl := [(''px_me'', session0)],
     contacts_tbl := [(''px_me'', contactB)]\<rparr>\<rparr>"

definition linkedT :: "bytes \<Rightarrow> bytes \<Rightarrow> ratchetMsg list \<Rightarrow> bool" where
  "linkedT a b q \<longleftrightarrow> list_all (\<lambda>(c, h, p). c = p) q"

definition talk0 :: talk where
  "talk0 = \<lparr>tk_a = worldA, tk_b = world0\<lparr>idb := peerDb\<rparr>, tk_flying = [], tk_got = []\<rparr>"

lemma sides [simp]:
  "sd_env sideA = envT" "sd_env sideB = envT" "sd_key sideA = key0" "sd_key sideB = key0" "sd_me sideB = bundle0"
  "b_userId (sd_me sideA) = ''px_peer''" "b_identity (sd_me sideA) = keysA"
  "sd_mc sideA = workerMessageCrypto envT" "sd_mc sideB = workerMessageCrypto envT"
  by (simp_all add: sideA_def sideB_def)

lemma envT_simps [simp]:
  "aes_enc envT k iv p = p" "aes_dec envT k iv p = Some p" "date_now envT t = 1700000000000 + int t"
  "rand_uuid envT t = ''local-1''" "content_encode envT = content_encode env0" "content_decode envT = content_decode env0"
  "envelope_encode envT = envelope_encode env0" "envelope_decode envT = envelope_decode env0"
  by (simp_all add: envT_def env0_def)

lemma aesT [simp]: "aes_correct envT"
  by (simp add: aes_correct_def)

lemma codecT [simp]: "codec_correct envT"
  using codec0 by (simp add: codec_correct_def)

lemma mcT:
  "mc_ratchetEncrypt (workerMessageCrypto envT) t s p = Inr \<lparr>re_ciphertext = p, re_header = [], re_newState = s @ [1]\<rparr>"
  "mc_ratchetDecrypt (workerMessageCrypto envT) t s c h = Inr \<lparr>rd_plaintext = c, rd_newState = s @ [1]\<rparr>"
  "mc_generateSenderCert (workerMessageCrypto envT) t i a b c d x n v = Inr (textEncode (stringify (JNum (n + v))))"
  "mc_sealedSenderEncrypt (workerMessageCrypto envT) t m cert r = Inr (sealT m cert)"
  by (simp_all add: workerMessageCrypto_def ratchetEncrypt_def ratchetDecrypt_def generateSenderCert_def sealedSenderEncrypt_def
      envT_def env0_def wasmT_def wasm0_def Let_def)

lemma openT_sealT:
  "openT (sealT m (textEncode (stringify (JNum u)))) n = Inr \<lparr>wop_plaintext = m, wop_sender_id = ''px_peer'', wop_sender_ed_pub = [9],
     wop_sender_x25519_pub = replicate 32 9, wop_sender_verified = (n \<le> u)\<rparr>"
  unfolding openT_def sealT_def textDecode_textEncode by (subst json_parse_stringify; simp add: jB_def unB_def del: stringify.simps)

section \<open>The contracts hold\<close>

lemma sameWireT: "sameWire sideA sideB"
  by (simp add: sameWire_def)

lemma ratchetT: "ratchet_delivers sideA sideB linkedT"
  by (auto simp: ratchet_delivers_def mcT linkedT_def)

lemma sealsT: "seals_for sideA sideB"
  unfolding seals_for_def
proof (intro allI impI)
  fix t t' m cert until blob n
  assume "ownCert sideA cert until" and b: "mc_sealedSenderEncrypt (sd_mc sideA) t m cert (x25519_pub (b_identity (sd_me sideB))) = Inr blob"
  then have c: "cert = textEncode (stringify (JNum until))" by (auto simp: ownCert_def mcT simp del: stringify.simps)
  have "blob = sealT m cert" using b by (simp add: mcT)
  then have "openT blob n = Inr \<lparr>wop_plaintext = m, wop_sender_id = ''px_peer'', wop_sender_ed_pub = [9],
     wop_sender_x25519_pub = replicate 32 9, wop_sender_verified = (n \<le> until)\<rparr>" unfolding c by (simp only: openT_sealT)
  then show "mc_sealedSenderDecrypt (sd_mc sideB) t' blob (x25519_priv (b_identity (sd_me sideB))) n = Inr (openedFrom sideA m until n)"
    by (simp add: workerMessageCrypto_def sealedSenderDecrypt_def envT_def env0_def wasmT_def wasm0_def Let_def openedFrom_def keysA_def
        sideA_def)
qed

lemma session0_T: "sessionOf envT key0 session0 = Some loaded0"
  by (simp add: sessionOf_def session0_def loaded0_def reads_def IV_LEN_def del: toHex.simps)

lemma inStepT: "inStep sideA sideB linkedT talk0"
proof -
  have "keyOf worldA = Some key0" "keyOf (world0\<lparr>idb := peerDb\<rparr>) = Some key0"
    by (simp_all add: worldA_def keyOf_def ksKey_def world0_def)
  moreover have "sessionAt sideA ''px_me'' worldA = Some loaded0" "sessionAt sideB ''px_peer'' (world0\<lparr>idb := peerDb\<rparr>) = Some loaded0"
    by (simp_all add: sessionAt_def worldA_def peerDb_def tget_def session0_T)
  ultimately show ?thesis
    by (simp add: inStep_def talk0_def knows_def accepts_def worldA_def contactB_def peerDb_def tget_def keys0_def keysA_def loaded0_def linkedT_def
        world0_def)
qed

section \<open>One text\<close>

lemma worldA_simps [simp]:
  "keyOf worldA = Some key0" "certCache worldA = None" "auth worldA = auth world0" "netlog worldA = []" "tick worldA = 0"
  "bundleCache worldA = Some (sd_me sideA)" "tget (settings_tbl (idb worldA)) k = None" "settings_tbl (idb worldA) = []"
  "tget (sessions_tbl (idb worldA)) ''px_me'' = Some session0" "tget (contacts_tbl (idb worldA)) ''px_me'' = Some contactB"
  by (simp_all add: worldA_def keyOf_def ksKey_def world0_def tget_def)

lemma buildT: "buildReceiptRequest envT worldA = (Inr None, worldA)"
proof -
  have d: "deliveryReceiptsEnabled worldA = (Inr False, worldA)" and r: "readReceiptsEnabled worldA = (Inr False, worldA)"
    by (simp_all add: flagOn_def)
  show ?thesis unfolding buildReceiptRequest_def
    by (simp only: run_await_Inr [where m = deliveryReceiptsEnabled and w = worldA, OF d]
        run_await_Inr [where m = readReceiptsEnabled and w = worldA, OF r]) simp
qed

lemma sendReplyT: "sendReply envT t (send_req envT p b tok ttl) = Inr ''srv-1''"
  by (simp add: sendReply_def envT_def env0_def send_req_def reply0_def rspOk_def)

lemma postT:
  assumes "au_sessionToken (auth w) = Some ''tok''"
  shows "postOrPark envT ''px_me'' b lid True ttl w = (Inr (''srv-1'', ''sent''), afterReq (send_req envT ''px_me'' b ''tok'' (Some ttl)) w)"
  using assms by (simp add: run_postOrPark sendOutcome_def Let_def sendReplyT)

lemma sealT_run:
  assumes "keyOf w = Some key0" "certCache w = None"
  obtains b w' where "sealMessage envT (workerMessageCrypto envT) (sd_me sideA) contact ''px_me'' loaded0 c w = (Inr b, w')"
    "keyOf w' = Some key0" "auth w' = auth w" "netlog w' = netlog w" "certCache w' \<noteq> None"
proof -
  define w1 where "w1 = w\<lparr>tick := Suc (Suc (Suc (tick w))), certCache := Some (textEncode (stringify (JNum
     (date_now envT (Suc (tick w)) div 1000 + CERT_VALID_SECONDS))), date_now envT (Suc (tick w)) div 1000 + CERT_VALID_SECONDS)\<rparr>"
  have cert: "myCert envT (workerMessageCrypto envT) (sd_me sideA) (w\<lparr>tick := Suc (tick w)\<rparr>) = (Inr (fst (the (certCache w1))), w1)"
    using assms(2) by (simp add: myCert_def mcT w1_def del: stringify.simps)
  define w2 where "w2 = w1\<lparr>tick := Suc (tick w1)\<rparr>"
  have k: "keyOf w2 = Some key0" using assms(1) by (simp add: w2_def w1_def)
  define sld where "sld = sealT (encodeEnvelope envT [] c None) (fst (the (certCache w1)))"
  obtain w3 where w3: "saveRatchetState envT ''px_me'' (ls_ratchetState loaded0 @ [1]) w2 = (Inr (), w3)" "keyOf w3 = keyOf w2"
    "auth w3 = auth w2" "netlog w3 = netlog w2" "certCache w3 = certCache w2"
    using run_saveRatchetState [OF k] by simp
  have "sealMessage envT (workerMessageCrypto envT) (sd_me sideA) contact ''px_me'' loaded0 c w = (Inr (b64encode sld), w3)"
    using cert w3(1) by (simp add: sealMessage_def mcT loaded0_def w2_def sld_def del: stringify.simps b64encode.simps)
  then show thesis using that w3 k by (simp add: w2_def w1_def)
qed

lemma sealAndSend_compose:
  assumes "myBundle E w = (Inr me, w)" "sendTarget E p (Some st) w = (Inr ct, w)" "sessionFor E p w = (Inr s, w)"
    and "sealMessage E mc me ct p s c (w\<lparr>tick := Suc (tick w)\<rparr>) = (Inr b, w2)"
    and "postOrPark E p b (rand_uuid E (tick w2)) True (orElse ttl DEFAULT_TTL_SECONDS) (w2\<lparr>tick := Suc (tick w2)\<rparr>) = (Inr (m, status), w3)"
    and "storeSent E me m p status (date_now E (tick w) div 1000) st w3 = (Inr (), w4)"
  shows "sealAndSend E mc p c (Some st) ttl w = (Inr m, w4)"
  using assms by (simp add: sealAndSend_def Let_def)

lemma sendMessage_compose:
  assumes "buildReceiptRequest E w = (Inr None, w)" and "date_now E (tick w) div 1000 = t"
    and "sealAndSend E mc p (encodeText E body t None) (Some \<lparr>sq_content = body, sq_kind = KText, sq_receiptToken = None\<rparr>) ttl
       (w\<lparr>tick := Suc (tick w)\<rparr>) = (Inr m, w')"
  shows "sendMessage E mc p body ttl w = (Inr (), w')"
  using assms by (simp add: sendMessage_def)

lemma sentT:
  obtains w' blob cert until where "sendMessage envT (workerMessageCrypto envT) ''px_me'' ''hi'' None worldA = (Inr (), w')"
    "left envT ''px_me'' worldA w' blob" "certCache w' = Some (cert, until)"
proof -
  let ?w1 = "worldA\<lparr>tick := Suc 0\<rparr>" and ?w2 = "worldA\<lparr>tick := Suc (Suc 0)\<rparr>"
  have w01: "worldA\<lparr>tick := Suc (tick worldA)\<rparr> = ?w1" by simp
  have w12: "?w1\<lparr>tick := Suc (tick ?w1)\<rparr> = ?w2" by simp
  let ?st = "\<lparr>sq_content = ''hi'', sq_kind = KText, sq_receiptToken = None\<rparr>"
  let ?c = "encodeText envT ''hi'' 1700000000 None"
  have k: "keyOf ?w1 = Some key0" "keyOf ?w2 = Some key0" "certCache ?w2 = None" "auth ?w2 = auth world0" "netlog ?w2 = []"
    by simp_all
  have cs: "contactsStore envT ?w1 = (Inr (Inr key0), ?w1)"
    by (simp add: contactsStore_def attempt_def getMasterKey_keyOf [where k = key0])
  have gc: "\<exists>ct. getContact envT ''px_me'' ?w1 = (Inr (Some ct), ?w1) \<and> pc_ik_x25519 ct = [7] \<and> pc_status ct = Accepted"
    by (simp add: getContact_def cs contacts_get_def contacts_toPlain_def
        contactB_def)
  then obtain ct where target: "sendTarget envT ''px_me'' (Some ?st) ?w1 = (Inr ct, ?w1)"
    by (auto simp: sendTarget_def)
  have row: "tget (sessions_tbl (idb ?w1)) ''px_me'' = Some session0" by simp
  have ses: "sessionFor envT ''px_me'' ?w1 = (Inr loaded0, ?w1)"
    by (simp add: sessionFor_def loadSession_sessionOf [OF k(1) row session0_T])
  obtain b w3 where w3: "sealMessage envT (workerMessageCrypto envT) (sd_me sideA) ct ''px_me'' loaded0 ?c ?w2 = (Inr b, w3)"
    "keyOf w3 = Some key0" "auth w3 = auth ?w2" "netlog w3 = netlog ?w2" "certCache w3 \<noteq> None"
    by (rule sealT_run [OF k(2,3)])
  let ?q = "send_req envT ''px_me'' b ''tok'' (Some DEFAULT_TTL_SECONDS)"
  define w4 where "w4 = afterReq ?q (w3\<lparr>tick := Suc (tick w3)\<rparr>)"
  have post: "postOrPark envT ''px_me'' b ''local-1'' True DEFAULT_TTL_SECONDS (w3\<lparr>tick := Suc (tick w3)\<rparr>) = (Inr (''srv-1'', ''sent''), w4)"
    using postT [of "w3\<lparr>tick := Suc (tick w3)\<rparr>"] w3(3) k(4) by (simp add: w4_def)
  have k4: "keyOf (w4\<lparr>tick := Suc (tick w4)\<rparr>) = Some key0" using w3(2) by (simp add: w4_def afterReq_def)
  obtain w5 where w5: "storeSent envT (sd_me sideA) ''srv-1'' ''px_me'' ''sent'' 1700000000 ?st w4 = (Inr (), w5)" "netlog w5 = netlog w4"
    "certCache w5 = certCache w4"
    using run_messages_add [OF k4] by (simp add: storeSent_def Let_def)
  have "sealAndSend envT (workerMessageCrypto envT) ''px_me'' ?c (Some ?st) None ?w1 = (Inr ''srv-1'', w5)"
  proof (rule sealAndSend_compose [OF _ target ses])
    show "myBundle envT ?w1 = (Inr (sd_me sideA), ?w1)" by (simp add: myBundle_def)
    show "sealMessage envT (workerMessageCrypto envT) (sd_me sideA) ct ''px_me'' loaded0 ?c (?w1\<lparr>tick := Suc (tick ?w1)\<rparr>) = (Inr b, w3)"
      using w3(1) unfolding w12 .
    show "postOrPark envT ''px_me'' b (rand_uuid envT (tick w3)) True (orElse None DEFAULT_TTL_SECONDS) (w3\<lparr>tick := Suc (tick w3)\<rparr>)
       = (Inr (''srv-1'', ''sent''), w4)" using post by simp
    show "storeSent envT (sd_me sideA) ''srv-1'' ''px_me'' ''sent'' (date_now envT (tick ?w1) div 1000) ?st w4 = (Inr (), w5)"
      using w5(1) by simp
  qed
  then have "sendMessage envT (workerMessageCrypto envT) ''px_me'' ''hi'' None worldA = (Inr (), w5)"
    by (intro sendMessage_compose [OF buildT]) (simp, simp only: w01)
  moreover have "left envT ''px_me'' worldA w5 b"
    using w5(2) w3(4) by (auto simp: left_def w4_def)
  moreover obtain cert until where "certCache w5 = Some (cert, until)" using w5(3) w3(5) by (auto simp: w4_def)
  ultimately show thesis by (rule that)
qed

lemma heardT:
  obtains w' st where "talks sideA sideB v talk0 w'" "tk_got w' = [(''d1'', ''hi'', st)]"
proof -
  obtain wa blob cert until where "sendMessage envT (workerMessageCrypto envT) ''px_me'' ''hi'' None worldA = (Inr (), wa)"
    "left envT ''px_me'' worldA wa blob" "certCache wa = Some (cert, until)"
    by (rule sentT)
  then have s: "sendMessage (sd_env sideA) (sd_mc sideA) (sd_id sideB) ''hi'' None (tk_a talk0) = (Inr (), wa)"
    "left (sd_env sideA) (sd_id sideB) (tk_a talk0) wa blob" "certCache wa = Some (cert, until)"
    by (simp_all add: talk0_def)
  have time: "safeInt (date_now (sd_env sideA) (tick (tk_a talk0)) div 1000)"
    "safeInt (date_now (sd_env sideA) (Suc (tick (tk_a talk0))) div 1000)"
    by (simp_all add: talk0_def safeInt_def)
  let ?f = "\<lparr>fl_blob = blob, fl_text = ''hi'', fl_until = until\<rparr>"
  define t1 where "t1 = talk0\<lparr>tk_a := wa, tk_flying := tk_flying talk0 @ [?f]\<rparr>"
  have t1: "talks sideA sideB v talk0 t1"
    unfolding t1_def by (rule talks.says [OF talks.start s(1) time s(2,3)])
  define ws where "ws = \<lparr>ws_message_id = ''d1'', ws_content = blob, ws_queued_at = 5, ws_server_ts = None, ws_server_ts_sig = None\<rparr>"
  obtain r wb where run: "receiveMessage (sd_env sideB) (sd_mc sideB) v ws (tk_b t1) = (r, wb)" by fastforce
  have "tk_flying t1 = [] @ ?f # []" "length ([] :: flight list) < 1000" "ws_content ws = fl_blob ?f"
    "ws_message_id ws \<notin> fst ` set (tk_got t1)" "tget (received_tbl (idb (tk_b t1))) (ws_message_id ws) = None"
    by (simp_all add: t1_def talk0_def ws_def peerDb_def tget_def)
  from talks.hears [OF t1 this run] show thesis
    by (rule that) (simp add: t1_def talk0_def ws_def)
qed

theorem conversation_delivers_witness:
  "\<exists>t st. talks sideA sideB (\<lambda>t a b c. Inr True) talk0 t \<and> tk_got t = [(''d1'', ''hi'', st)] \<and>
     (\<exists>m. messages_get envT ''d1'' (tk_b t) = (Inr (Some m), tk_b t) \<and> p_session_id m = ''px_peer'' \<and> p_content m = ''hi'')"
proof -
  obtain t st where t: "talks sideA sideB (\<lambda>t a b c. Inr True) talk0 t" "tk_got t = [(''d1'', ''hi'', st)]" by (rule heardT)
  from conversation_delivers [OF sameWireT ratchetT sealsT inStepT t(1)] show ?thesis
    using t by (intro exI [where x = t] exI [where x = st]) (auto simp: t(2))
qed

end
