(* ===== verification/Spec2Isabelle.thy ===== *)
theory Spec2Isabelle
  imports ScreenWitnesses PanelWitnesses ConversationWitness
begin

text \<open>
  Verification of the Privex web client (\<^verbatim>\<open>apps/web/src\<close>), an end-to-end encrypted
  messenger that runs in the browser.

  \<^bold>\<open>The program.\<close> The client keeps everything on the device: identity, contacts, ratchet
  sessions, messages and queues are rows of an IndexedDB database whose sensitive fields are
  AES-GCM encrypted under one data key, which an app lock may wrap. The cryptography is a WASM
  module behind a web worker. A message is sealed by the peer's ratchet and the sealed-sender
  layer, posted over HTTP or parked in an outbox; deliveries come over a WebSocket, are opened,
  stored and acknowledged. Around this core are prekey upkeep, receipts, cover traffic, sync
  between linked devices, files, history backup, device transfer, recovery and onboarding, and
  the React screens that call them.

  \<^bold>\<open>How it is translated.\<close> An asynchronous function is a program \<open>world \<Rightarrow> (error + 'a) \<times> world\<close>
  (\<^verbatim>\<open>Prelude\<close>, \<^verbatim>\<open>Types\<close>): it awaits, throws and changes the record \<open>world\<close>, which holds the
  database, the keystore, the module variables of the services and logs of what was requested
  from the server, emitted to the screens and started in the background. \<open>await\<close>, \<open>tryCatch\<close>,
  \<open>tryFinally\<close> and the loops are its combinators, \<open>keeps R m\<close> says that every run of \<open>m\<close>
  changes the state by \<open>R\<close> only, and the locale \<open>step_relation\<close>, interpreted for every such
  relation, gives its rules. Where the order of callbacks matters, the unit that may be
  interleaved is one step of an inductive relation: the socket (\<^verbatim>\<open>Websocket\<close>), the cover-traffic
  timer (\<^verbatim>\<open>CoverTraffic\<close>), the worker calls (\<^verbatim>\<open>CryptoRpc\<close>), onboarding (\<^verbatim>\<open>Onboarding\<close>), the
  frames of a transfer (\<^verbatim>\<open>DeviceLink\<close>), the app root (\<^verbatim>\<open>AppBoot\<close>). A screen is a record of its
  React state with one function per handler; a call that waits is split or is one step, as its
  theory says.

  \<^bold>\<open>What is a parameter.\<close> The record \<open>env\<close> holds what the source does not contain: the clock,
  random numbers, \<open>fetch\<close>, AES-GCM, SHA-256, HMAC and HKDF of the browser, the generated
  protobuf codec and the WASM module. \<open>date_now\<close> and the like read the \<open>tick\<close> of the world, so
  that two calls may differ. Further arguments are Argon2id and the browser's
  authenticator (app lock), the local calendar (timeline), Unicode normalisation (seed file), the
  password scorer, localStorage, the clipboard, the save dialog, the camera and the picture
  decoder. Their documented behaviour is named where it is assumed: \<open>aes_correct\<close>,
  \<open>codec_correct\<close>, \<open>kdf_answers\<close>, \<open>keygen_total\<close>, \<open>sealsApart\<close>, \<open>prf_of\<close>, \<open>separates\<close>,
  \<open>ratchet_delivers\<close>, \<open>seals_for\<close>; the sample environment
  (\<^verbatim>\<open>Sample\<close>) has them all (the last two with expiring certificates in
  \<^verbatim>\<open>ConversationWitness\<close>), and the theories of instances apply the properties to it.

  \<^bold>\<open>Theories and sources.\<close>
  \<^item> Foundations: \<^verbatim>\<open>Prelude\<close> (programs, strings), \<^verbatim>\<open>Bytes\<close> (hex, base64, UTF-8), \<^verbatim>\<open>Json\<close>
    (stringify and a parser, with the round trip), \<^verbatim>\<open>Tables\<close> and \<^verbatim>\<open>Types\<close> (\<^verbatim>\<open>db/index.ts\<close> and the data).
  \<^item> Storage: \<^verbatim>\<open>AtRest\<close> (\<^verbatim>\<open>crypto/keystore.ts\<close>, \<^verbatim>\<open>db/encrypted-db.ts\<close>), \<^verbatim>\<open>Contacts\<close>
    (\<^verbatim>\<open>data/contacts.ts\<close>, \<^verbatim>\<open>data/sessions.ts\<close>), \<^verbatim>\<open>Identity\<close> (\<^verbatim>\<open>crypto/onboarding-crypto.ts\<close>,
    \<^verbatim>\<open>onboarding/store.ts\<close>).
  \<^item> Protocol: \<^verbatim>\<open>Codec\<close> and \<^verbatim>\<open>Envelope\<close> (signing inputs, QR payloads, the wire format), \<^verbatim>\<open>Api\<close>
    (\<^verbatim>\<open>api/client.ts\<close>), \<^verbatim>\<open>Handshake\<close> (\<^verbatim>\<open>contacts/handshake.ts\<close>, \<^verbatim>\<open>contacts/add.ts\<close>,
    \<^verbatim>\<open>services/pow.ts\<close>, \<^verbatim>\<open>crypto/contact-crypto.ts\<close>), \<^verbatim>\<open>Prekeys\<close>, \<^verbatim>\<open>KeyWatch\<close>, \<^verbatim>\<open>AuthSession\<close>,
    \<^verbatim>\<open>TimeSync\<close>, \<^verbatim>\<open>SingleFlight\<close> (the promises that \<^verbatim>\<open>services/auth-session.ts\<close> shares),
    \<^verbatim>\<open>CryptoRpc\<close> and \<^verbatim>\<open>CryptoTable\<close> (the worker, its calls and its table of handlers).
  \<^item> Messaging: \<^verbatim>\<open>Sending\<close>, \<^verbatim>\<open>Receiving\<close> and \<^verbatim>\<open>Delivery\<close> (\<^verbatim>\<open>services/messaging.ts\<close>,
    \<^verbatim>\<open>crypto/message-crypto.ts\<close>), \<^verbatim>\<open>Outbox\<close>, \<^verbatim>\<open>Receipts\<close>, \<^verbatim>\<open>DeviceSync\<close>, \<^verbatim>\<open>Files\<close>, \<^verbatim>\<open>Timeline\<close>,
    \<^verbatim>\<open>Websocket\<close>, \<^verbatim>\<open>CoverTraffic\<close>; \<^verbatim>\<open>Conversation\<close> runs two devices against each other.
  \<^item> Device: \<^verbatim>\<open>Session\<close>, \<^verbatim>\<open>Applock\<close>, \<^verbatim>\<open>Webauthn\<close> (\<^verbatim>\<open>crypto/webauthn-prf.ts\<close>),
    \<^verbatim>\<open>LockLifecycle\<close> (the vault that the app lock refines), \<^verbatim>\<open>HistoryRecords\<close>, \<^verbatim>\<open>HistoryBackup\<close>, \<^verbatim>\<open>DeviceLink\<close>,
    \<^verbatim>\<open>Recovery\<close>, \<^verbatim>\<open>Onboarding\<close>, \<^verbatim>\<open>SeedWords\<close>; each is named after its service.
  \<^item> Screens: \<^verbatim>\<open>UiServices\<close> (the event bus, banner, flags, settings and hooks beside the
    screens), \<^verbatim>\<open>AppBoot\<close> (\<^verbatim>\<open>App.tsx\<close>, \<^verbatim>\<open>components/AppLockGuard.tsx\<close>, \<^verbatim>\<open>screens/UnlockScreen.tsx\<close>),
    \<^verbatim>\<open>ChatScreen\<close>, \<^verbatim>\<open>OnboardingScreen\<close>, \<^verbatim>\<open>RecoveryScreen\<close>, \<^verbatim>\<open>SettingsScreen\<close>, \<^verbatim>\<open>TransferScreen\<close>
    (\<^verbatim>\<open>screens/DeviceTransfer.tsx\<close> with the relay socket and the URLs), \<^verbatim>\<open>ContactScreens\<close> (the
    lists, requests, scanner, key verification and identicon), \<^verbatim>\<open>BrowserParts\<close> (the connection
    indicator, saving the phrase, background sync, previews, the QR badge and the like);
    \<^verbatim>\<open>EventRuns\<close> is the locale of components that react to events.
  \<^item> Instances: \<^verbatim>\<open>Sample\<close>, \<^verbatim>\<open>Witnesses\<close>, \<^verbatim>\<open>MessagingWitnesses\<close>, \<^verbatim>\<open>DeviceWitnesses\<close>,
    \<^verbatim>\<open>TransferWitnesses\<close>, \<^verbatim>\<open>ScreenWitnesses\<close>, \<^verbatim>\<open>PanelWitnesses\<close>,
    \<^verbatim>\<open>ConversationWitness\<close>.

  \<^bold>\<open>What the lemmas show.\<close> Of a conversation: what one device sends, the other stores. Of a delivery: it ends acknowledged after everything it changes is
  stored, a rejected or replayed one changes nothing. Of sending: the ratchet is stored before the
  message leaves, only accepted contacts get visible messages, a message is posted, parked or
  refused with an error, and the outbox settles in order. Of the identity: registration,
  recovery, rotation and restarts never lose it or publish a key whose private half is not
  stored. Of storage: the data key can be changed and wrapped without losing a plaintext (the
  sync keys excepted, which is a flaw of the code), a locked or erased device is
  inert, and no sequence of lock operations loses data as long as the key derivation answers. Of
  history: backup, restore, transfer and the change of identifiers lose nothing. Of the screens:
  the app talks to the server only when it is ready, booting ends, a lock silences it, what is
  typed is stored or given back, a contact counts as verified and a transfer sends history only
  after the codes that were shown have been compared, emergency contacts are those that were
  chosen. Of the worker: the calls of the services and its table fit together. Several lemmas
  beside these state where the code falls short of what it means; they name the situation.

  \<^bold>\<open>Bounds and fuel.\<close> The JSON parser runs on fuel that is the length of its input, which its
  round-trip lemma shows to suffice for whatever \<open>stringify\<close> writes. The loops over server pages
  (restore, change of identifiers) have the number of pages as fuel, the deletion in slices the
  number of rows, the drawing of quiz positions the number of draws; each is stated with enough
  fuel given as a hypothesis on the server or the random numbers, and without it the result is
  \<open>None\<close>, never a wrong answer. Reconnection delays stay within \<open>1 s\<close> and \<open>301 s\<close>, boot retries
  within seven tries.

  \<^bold>\<open>Not modelled.\<close> What is drawn, scrolled or animated, the status lines and progress bars; the
  QR encoder, the camera and the picture decoder (libraries and the browser's); precaching by the
  service worker and the mixnet client (libraries); screens and components that are markup only
  (\<^verbatim>\<open>ConversationList\<close>, \<^verbatim>\<open>EmptyChats\<close>, \<^verbatim>\<open>Call\<close>, the icons). The server and the cryptographic core
  are Rust and appear through \<open>fetch\<close> and the WASM record only. In the theories of the services
  two requests that share a promise in flight are one call; that they may be is \<open>SingleFlight\<close>.
\<close>

end
